(* ===== verification/Prelude.thy ===== *)
theory Prelude
  imports Complex_Main "HOL-Library.Word" "HOL-Library.List_Lexorder" "HOL-Library.Char_ord"
    "HOL-Library.Sublist"
begin

text \<open>
  Shared vocabulary of the development: Go's fixed-width integers as words, Go
  strings as byte lists with the searches the program makes of them, its stable sort, and the
  collections of simplification rules the component theories add to.

  \<^item> \<open>int64\<close> and \<open>uint64\<close> are both \<open>64 word\<close>; the signed reading uses \<open>sint\<close>, \<open><s\<close> and
    \<open>\<le>s\<close>, the unsigned one \<open>unat\<close>, \<open><\<close> and \<open>\<le>\<close>. A Go conversion between the two
    keeps the bits, so it is the identity here.
  \<^item> A Go string is a byte sequence; \<open>string\<close> is a list of 8-bit characters.
\<close>

section \<open>Collections of rules\<close>

named_theorems job_defs \<open>definitions of the job lifecycle that case analyses unfold\<close>
named_theorems repo_defs \<open>definitions of the repository operations\<close>
named_theorems capacity_defs \<open>definitions of the capacity rules\<close>
named_theorems monitor_defs \<open>definitions of the exit monitors\<close>

section \<open>Machine integers\<close>

type_synonym int64 = "64 word"
type_synonym uint64 = "64 word"

lemma sint64_bounds: "- (2 ^ 63) \<le> sint (x :: int64)" "sint (x :: int64) < 2 ^ 63"
  using sint_ge [of x] sint_lt [of x] by simp_all

text \<open>Addition, subtraction and multiplication of signed words are exact while the true result fits.\<close>

lemma sint64_add:
  assumes "- (2 ^ 63) \<le> sint (x :: int64) + sint y" "sint x + sint y < 2 ^ 63"
  shows "sint (x + y) = sint x + sint y"
  using assms by (simp add: signed_take_bit_int_eq_self sint_word_ariths(1))

lemma sint64_sub:
  assumes "- (2 ^ 63) \<le> sint (x :: int64) - sint y" "sint x - sint y < 2 ^ 63"
  shows "sint (x - y) = sint x - sint y"
  using assms by (simp add: signed_take_bit_int_eq_self sint_word_ariths(2))

lemma sint64_mult:
  assumes "- (2 ^ 63) \<le> sint (x :: int64) * sint y" "sint x * sint y < 2 ^ 63"
  shows "sint (x * y) = sint x * sint y"
  using assms by (simp add: signed_take_bit_int_eq_self sint_word_ariths(3))

lemma uint64_sint:
  assumes "uint (x :: int64) < 2 ^ 63"
  shows "sint x = uint x"
proof -
  have "- (2 ^ 63) \<le> uint x"
    by (rule order_trans [OF _ uint_ge_0]) simp
  with assms have "signed_take_bit 63 (uint x) = uint x"
    by (intro signed_take_bit_int_eq_self) simp_all
  then show ?thesis
    by (simp add: sint_uint)
qed

lemma sint64_uint:
  assumes "0 \<le> sint (x :: int64)"
  shows "uint x = sint x"
proof -
  have "uint x = sint x mod 2 ^ 64"
    using uint_word_of_int [of "sint x", where 'a = 64] by simp
  with assms sint64_bounds(2) [of x] show ?thesis
    by (simp add: mod_pos_pos_trivial)
qed

section \<open>Strings\<close>

text \<open>\<open>strings.Contains(s, marker)\<close>: the marker occurs at some position of the string.\<close>

definition contains :: "string \<Rightarrow> string \<Rightarrow> bool" where
  "contains s marker = list_ex (\<lambda>suf. take (length marker) suf = marker) (suffixes s)"

text \<open>A chain of \<open>strings.Contains(s, m1) || strings.Contains(s, m2) || ...\<close>.\<close>

definition contains_any :: "string \<Rightarrow> string list \<Rightarrow> bool" where
  "contains_any s markers = list_ex (contains s) markers"

lemma contains_sublist: "contains s m \<longleftrightarrow> sublist m s"
proof
  assume "contains s m"
  then obtain suf where "suffix suf s" "take (length m) suf = m"
    by (auto simp: contains_def list_ex_iff)
  then have "prefix m suf"
    by (metis take_is_prefix)
  with \<open>suffix suf s\<close> show "sublist m s"
    by (auto simp: suffix_def prefix_def sublist_def)
next
  assume "sublist m s"
  then obtain ps ss where "s = ps @ m @ ss"
    by (auto simp: sublist_def)
  then have "m @ ss \<in> set (suffixes s)" "take (length m) (m @ ss) = m"
    by (auto simp: suffix_def)
  then show "contains s m"
    unfolding contains_def list_ex_iff by blast
qed

lemma contains_any_iff: "contains_any s ms \<longleftrightarrow> (\<exists>m \<in> set ms. sublist m s)"
  by (simp add: contains_any_def list_ex_iff contains_sublist)

section \<open>Sorting\<close>

text \<open>\<open>sort.SliceStable\<close>: an element passes those that are strictly less, never an equal one.\<close>

fun stable_insert :: "('a \<Rightarrow> 'a \<Rightarrow> bool) \<Rightarrow> 'a \<Rightarrow> 'a list \<Rightarrow> 'a list" where
  "stable_insert lt x [] = [x]"
| "stable_insert lt x (y # ys) = (if lt y x then y # stable_insert lt x ys else x # y # ys)"

definition SliceStable :: "('a \<Rightarrow> 'a \<Rightarrow> bool) \<Rightarrow> 'a list \<Rightarrow> 'a list" where
  "SliceStable lt xs = foldr (stable_insert lt) xs []"

lemma stable_insert_laws: "set (stable_insert lt x ys) = insert x (set ys)"
  "distinct (stable_insert lt x ys) \<longleftrightarrow> x \<notin> set ys \<and> distinct ys"
  by (induction ys) auto

lemma SliceStable_laws [simp]:
  "set (SliceStable lt xs) = set xs" "distinct (SliceStable lt xs) \<longleftrightarrow> distinct xs"
  by (induction xs) (simp_all add: SliceStable_def stable_insert_laws)

end
