(* ===== verification/JobState.thy ===== *)
theory JobState
  imports Prelude
begin

text \<open>
  The lifecycle vocabulary of \<open>web/jobruntime\<close> (\<open>state.go\<close>, and the type declarations of
  \<open>outcome.go\<close>, \<open>control.go\<close> and \<open>progress.go\<close>) and the canonical job state machine.
  The Go types are string types; each becomes a datatype with one constructor for each of the
  source's constants and one \<open>...Other\<close> constructor for a string that is no constant, so
  that the \<open>Valid\<close> checks keep their meaning.
\<close>

section \<open>Data\<close>

datatype State =
    StateDraft | StateQueued | StateStarting | StateRunning | StatePaused | StateCancelling
  | StateCompleted | StatePartial | StateFailed | StateCancelled | StateOther string

datatype LegacyStatus =
    LegacyStatusPending | LegacyStatusWorking | LegacyStatusOK | LegacyStatusFailed

datatype StopReason =
    StopReasonNone | StopReasonCompleted | StopReasonPauseRequested | StopReasonUserCancelled
  | StopReasonRuntimeLimit | StopReasonMaximumRecords | StopReasonLowDisk | StopReasonShutdown
  | StopReasonReconfigure | StopReasonProxiesUnavailable | StopReasonTaskFailures
  | StopReasonTasksIncomplete | StopReasonFatalError | StopReasonOther string

datatype Control =
    ControlStart | ControlPause | ControlResume | ControlCancel | ControlRestart
  | ControlOther string

datatype ControlDisposition =
    ControlApplied | ControlRequested | ControlNoop | ControlRejected

datatype Stage =
    StageNone | StagePreparingQueries | StageGeneratingGrid | StageSearchingMaps
  | StageExtractingDetails | StageCrawlingWebsites | StageExtractingContacts
  | StageDeduplicating | StageSavingExporting | StageOther string

text \<open>
  The sentinel errors of the package, each with the values its \<open>fmt.Errorf\<close> wraps. The string
  of \<open>ErrInvalidState\<close> is the word the message puts before the state
  (\<open>source\<close>, \<open>destination\<close> or nothing).
\<close>

datatype runtime_error =
    ErrInvalidState string State
  | ErrInvalidTransition State State
  | ErrInvalidControl Control
  | ErrControlRejected Control State
  | ErrInvalidStopReason StopReason
  | ErrInvalidTaskSummary string
  | ErrInvalidStage Stage
  | ErrInvalidProgress string

section \<open>Conversions between states and their strings\<close>

definition State_of_string :: "string \<Rightarrow> State" where
  "State_of_string v =
     (if v = ''draft'' then StateDraft
      else if v = ''queued'' then StateQueued
      else if v = ''starting'' then StateStarting
      else if v = ''running'' then StateRunning
      else if v = ''paused'' then StatePaused
      else if v = ''cancelling'' then StateCancelling
      else if v = ''completed'' then StateCompleted
      else if v = ''partial'' then StatePartial
      else if v = ''failed'' then StateFailed
      else if v = ''cancelled'' then StateCancelled
      else StateOther v)"

fun string_of_State :: "State \<Rightarrow> string" where
  "string_of_State StateDraft = ''draft''"
| "string_of_State StateQueued = ''queued''"
| "string_of_State StateStarting = ''starting''"
| "string_of_State StateRunning = ''running''"
| "string_of_State StatePaused = ''paused''"
| "string_of_State StateCancelling = ''cancelling''"
| "string_of_State StateCompleted = ''completed''"
| "string_of_State StatePartial = ''partial''"
| "string_of_State StateFailed = ''failed''"
| "string_of_State StateCancelled = ''cancelled''"
| "string_of_State (StateOther v) = v"

section \<open>Operations\<close>

fun State_Valid :: "State \<Rightarrow> bool" where
  "State_Valid (StateOther _) = False"
| "State_Valid _ = True"

fun StopReason_Valid :: "StopReason \<Rightarrow> bool" where
  "StopReason_Valid (StopReasonOther _) = False"
| "StopReason_Valid _ = True"

fun validControl :: "Control \<Rightarrow> bool" where
  "validControl (ControlOther _) = False"
| "validControl _ = True"

fun Stage_Valid :: "Stage \<Rightarrow> bool" where
  "Stage_Valid (StageOther _) = False"
| "Stage_Valid _ = True"

fun State_Terminal :: "State \<Rightarrow> bool" where
  "State_Terminal StateCompleted = True"
| "State_Terminal StatePartial = True"
| "State_Terminal StateFailed = True"
| "State_Terminal StateCancelled = True"
| "State_Terminal _ = False"

fun State_Active :: "State \<Rightarrow> bool" where
  "State_Active StateStarting = True"
| "State_Active StateRunning = True"
| "State_Active StateCancelling = True"
| "State_Active _ = False"

fun State_Restartable :: "State \<Rightarrow> bool" where
  "State_Restartable StatePaused = True"
| "State_Restartable StateCompleted = True"
| "State_Restartable StatePartial = True"
| "State_Restartable StateFailed = True"
| "State_Restartable StateCancelled = True"
| "State_Restartable _ = False"

definition ParseState :: "string \<Rightarrow> runtime_error + State" where
  "ParseState value =
     (let state = State_of_string value
      in if \<not> State_Valid state then Inl (ErrInvalidState '''' state) else Inr state)"

fun LegacyStatusForState :: "State \<Rightarrow> runtime_error + LegacyStatus" where
  "LegacyStatusForState StateDraft = Inr LegacyStatusPending"
| "LegacyStatusForState StateQueued = Inr LegacyStatusPending"
| "LegacyStatusForState StatePaused = Inr LegacyStatusPending"
| "LegacyStatusForState StateStarting = Inr LegacyStatusWorking"
| "LegacyStatusForState StateRunning = Inr LegacyStatusWorking"
| "LegacyStatusForState StateCancelling = Inr LegacyStatusWorking"
| "LegacyStatusForState StateCompleted = Inr LegacyStatusOK"
| "LegacyStatusForState StatePartial = Inr LegacyStatusOK"
| "LegacyStatusForState StateCancelled = Inr LegacyStatusOK"
| "LegacyStatusForState StateFailed = Inr LegacyStatusFailed"
| "LegacyStatusForState (StateOther v) = Inl (ErrInvalidState '''' (StateOther v))"

definition CanTransition :: "State \<Rightarrow> State \<Rightarrow> bool" where
  "CanTransition from to =
     (if \<not> State_Valid from \<or> \<not> State_Valid to \<or> from = to then False
      else (case from of
        StateDraft \<Rightarrow> to = StateQueued \<or> to = StateCancelled
      | StateQueued \<Rightarrow> to = StateStarting \<or> to = StatePaused \<or> to = StateCancelled
      | StateStarting \<Rightarrow> to = StateRunning \<or> to = StatePaused \<or> to = StateCancelling \<or>
          to = StatePartial \<or> to = StateFailed
      | StateRunning \<Rightarrow> to = StatePaused \<or> to = StateCancelling \<or> to = StateCompleted \<or>
          to = StatePartial \<or> to = StateFailed
      | StatePaused \<Rightarrow> to = StateQueued \<or> to = StateCancelled
      | StateCancelling \<Rightarrow> to = StateCancelled \<or> to = StateFailed
      | StateCompleted \<Rightarrow> to = StateQueued
      | StatePartial \<Rightarrow> to = StateQueued
      | StateFailed \<Rightarrow> to = StateQueued
      | StateCancelled \<Rightarrow> to = StateQueued
      | StateOther _ \<Rightarrow> False))"

definition ValidateTransition :: "State \<Rightarrow> State \<Rightarrow> runtime_error + unit" where
  "ValidateTransition from to =
     (if \<not> State_Valid from then Inl (ErrInvalidState ''source'' from)
      else if \<not> State_Valid to then Inl (ErrInvalidState ''destination'' to)
      else if \<not> CanTransition from to then Inl (ErrInvalidTransition from to)
      else Inr ())"

section \<open>Lemmas\<close>

lemma State_of_string_of_State [simp]:
  "State_Valid s \<Longrightarrow> State_of_string (string_of_State s) = s"
  by (cases s) (simp_all add: State_of_string_def)

lemma string_of_State_of_string [simp]: "string_of_State (State_of_string v) = v"
  by (simp add: State_of_string_def)

lemma CanTransition_valid: "CanTransition a b \<Longrightarrow> State_Valid a \<and> State_Valid b \<and> a \<noteq> b"
  by (simp add: CanTransition_def split: if_splits)

lemma CanTransition_not_other [simp]:
  "\<not> CanTransition (StateOther v) t" "\<not> CanTransition s (StateOther v)"
  by (simp_all add: CanTransition_def)

lemma CanTransition_simps [simp]:
  "CanTransition StateDraft t \<longleftrightarrow> t = StateQueued \<or> t = StateCancelled"
  "CanTransition StateQueued t \<longleftrightarrow> t = StateStarting \<or> t = StatePaused \<or> t = StateCancelled"
  "CanTransition StateStarting t \<longleftrightarrow> t = StateRunning \<or> t = StatePaused \<or> t = StateCancelling \<or>
     t = StatePartial \<or> t = StateFailed"
  "CanTransition StateRunning t \<longleftrightarrow> t = StatePaused \<or> t = StateCancelling \<or> t = StateCompleted \<or>
     t = StatePartial \<or> t = StateFailed"
  "CanTransition StatePaused t \<longleftrightarrow> t = StateQueued \<or> t = StateCancelled"
  "CanTransition StateCancelling t \<longleftrightarrow> t = StateCancelled \<or> t = StateFailed"
  "CanTransition StateCompleted t \<longleftrightarrow> t = StateQueued"
  "CanTransition StatePartial t \<longleftrightarrow> t = StateQueued"
  "CanTransition StateFailed t \<longleftrightarrow> t = StateQueued"
  "CanTransition StateCancelled t \<longleftrightarrow> t = StateQueued"
  by (auto simp: CanTransition_def)

lemma LegacyStatusForState_valid:
  "State_Valid s \<Longrightarrow> \<exists>l. LegacyStatusForState s = Inr l"
  by (cases s) simp_all

text \<open>The states a job can pass through: the reflexive and transitive closure of the table.\<close>

inductive can_reach :: "State \<Rightarrow> State \<Rightarrow> bool" where
  here: "can_reach s s"
| move: "can_reach s t \<Longrightarrow> CanTransition t u \<Longrightarrow> can_reach s u"

lemma can_reach_step [intro]: "CanTransition s t \<Longrightarrow> can_reach s t"
  by (rule can_reach.move [OF can_reach.here])

lemma can_reach_trans: "can_reach t u \<Longrightarrow> can_reach s t \<Longrightarrow> can_reach s u"
  by (induction rule: can_reach.induct) (auto intro: can_reach.move)

lemma queued_reaches:
  assumes "State_Valid s" "s \<noteq> StateDraft"
  shows "can_reach StateQueued s"
proof -
  have r: "can_reach StateQueued StateStarting" by auto
  have g: "can_reach StateQueued StateRunning" by (rule can_reach.move [OF r]) simp
  have c: "can_reach StateQueued StateCancelling" by (rule can_reach.move [OF g]) simp
  from assms show ?thesis
    by (cases s) (auto intro: can_reach.here can_reach.move [OF r] can_reach.move [OF g]
        can_reach.move [OF c])
qed

lemma reaches_queued: "State_Valid s \<Longrightarrow> can_reach s StateQueued"
proof (cases s)
  case StateStarting
  have "can_reach StateStarting StatePaused" by auto
  then show ?thesis unfolding StateStarting by (rule can_reach.move) simp
next
  case StateRunning
  have "can_reach StateRunning StatePaused" by auto
  then show ?thesis unfolding StateRunning by (rule can_reach.move) simp
next
  case StateCancelling
  have "can_reach StateCancelling StateCancelled" by auto
  then show ?thesis unfolding StateCancelling by (rule can_reach.move) simp
qed (auto intro: can_reach.here)

section \<open>Properties\<close>

text \<open>
  Every valid state can be driven back to the queue and from the queue to every
  valid state but the draft, so no job is ever stuck by the table alone, and no transition
  returns to the draft.
\<close>

theorem lifecycle_recurrent:
  assumes "State_Valid s" "State_Valid t"
  shows "can_reach s t \<longleftrightarrow> s = t \<or> t \<noteq> StateDraft"
proof
  assume "can_reach s t"
  then show "s = t \<or> t \<noteq> StateDraft"
    by (induction rule: can_reach.induct) (auto simp: CanTransition_def split: State.splits)
next
  assume "s = t \<or> t \<noteq> StateDraft"
  with assms show "can_reach s t"
    using can_reach_trans [OF queued_reaches reaches_queued] can_reach.here by metis
qed

theorem lifecycle_recurrent_witness:
  "can_reach StateFailed StateCancelling \<and> \<not> can_reach StateRunning StateDraft"
  using lifecycle_recurrent [of StateFailed StateCancelling]
    lifecycle_recurrent [of StateRunning StateDraft] by simp

text \<open>
  A terminal state has exactly one way out, the queue; the active states are the ones with
  an exit to a failure; the restartable ones are those with a direct transition to the queue,
  except the draft, and no state is both terminal and active.
\<close>

theorem state_classes:
  "(State_Terminal s \<longrightarrow> (CanTransition s t \<longleftrightarrow> t = StateQueued)) \<and>
   (State_Active s \<longleftrightarrow> CanTransition s StateFailed) \<and>
   (State_Restartable s \<longleftrightarrow> CanTransition s StateQueued \<and> s \<noteq> StateDraft) \<and>
   \<not> (State_Terminal s \<and> State_Active s)"
  by (cases s) simp_all

theorem state_classes_witness:
  "\<not> CanTransition StateCompleted StateRunning \<and> State_Active StateCancelling"
  using state_classes [of StateCompleted StateRunning] state_classes [of StateCancelling StateFailed]
  by simp

text \<open>
  The canonical states are exactly the ones whose string parses, and parsing inverts printing.
\<close>

theorem ParseState_roundtrip:
  "ParseState (string_of_State (State_of_string v)) = ParseState v \<and>
   (ParseState v = Inr s \<longleftrightarrow> State_Valid s \<and> v = string_of_State s)"
  by (auto simp: ParseState_def Let_def)

end
