(* ===== verification/Outcome.thy ===== *)
theory Outcome
  imports JobState
begin

text \<open>
  \<open>web/jobruntime/outcome.go\<close>: task counters, their validation, and the classification
  of a stopped executor. Counters are \<open>int64\<close> and kept at their width: \<open>Terminal\<close> is a
  wrapping sum, and \<open>Validate\<close> compares that wrapped sum.
\<close>

section \<open>Task counters\<close>

record TaskSummary =
  TS_Total :: int64
  TS_Completed :: int64
  TS_Failed :: int64
  TS_Skipped :: int64

definition TaskSummary_Terminal :: "TaskSummary \<Rightarrow> int64" where
  "TaskSummary_Terminal s = TS_Completed s + TS_Failed s + TS_Skipped s"

definition TaskSummary_Remaining :: "TaskSummary \<Rightarrow> int64" where
  "TaskSummary_Remaining s =
     (let remaining = TS_Total s - TaskSummary_Terminal s
      in if remaining <s 0 then 0 else remaining)"

definition TaskSummary_Validate :: "TaskSummary \<Rightarrow> runtime_error + unit" where
  "TaskSummary_Validate s =
     (if TS_Total s <s 0 \<or> TS_Completed s <s 0 \<or> TS_Failed s <s 0 \<or> TS_Skipped s <s 0
      then Inl (ErrInvalidTaskSummary ''counters cannot be negative'')
      else if TS_Total s <s TaskSummary_Terminal s
      then Inl (ErrInvalidTaskSummary ''terminal tasks exceed total tasks'')
      else Inr ())"

section \<open>Classification of a run\<close>

text \<open>
  \<open>RR_Err\<close> is whether the executor returned an error: \<open>ClassifyOutcome\<close> only compares it with nil.
\<close>

record RunResult =
  RR_Reason :: StopReason
  RR_Tasks :: TaskSummary
  RR_CommittedRecords :: int64
  RR_Err :: bool

record RunOutcome =
  RO_State :: State
  RO_Reason :: StopReason
  RO_Recoverable :: bool
  RO_HasPartialResults :: bool

definition ClassifyOutcome :: "RunResult \<Rightarrow> runtime_error + RunOutcome" where
  "ClassifyOutcome result =
     (if \<not> StopReason_Valid (RR_Reason result) then Inl (ErrInvalidStopReason (RR_Reason result))
      else case TaskSummary_Validate (RR_Tasks result) of
        Inl err \<Rightarrow> Inl err
      | Inr _ \<Rightarrow>
      if RR_CommittedRecords result <s 0
      then Inl (ErrInvalidTaskSummary ''committed records cannot be negative'')
      else
        let partial = 0 <s RR_CommittedRecords result;
            out = (\<lambda>state reason recoverable.
              Inr \<lparr>RO_State = state, RO_Reason = reason, RO_Recoverable = recoverable,
                   RO_HasPartialResults = partial\<rparr>);
            natural =
              (if RR_Err result then out StateFailed StopReasonFatalError True
               else if 0 <s TS_Failed (RR_Tasks result) \<or> 0 <s TS_Skipped (RR_Tasks result)
               then out StatePartial StopReasonTaskFailures True
               else if 0 <s TaskSummary_Remaining (RR_Tasks result)
               then out StatePartial StopReasonTasksIncomplete True
               else out StateCompleted StopReasonCompleted False)
        in case RR_Reason result of
             StopReasonPauseRequested \<Rightarrow> out StatePaused (RR_Reason result) True
           | StopReasonLowDisk \<Rightarrow> out StatePaused (RR_Reason result) True
           | StopReasonShutdown \<Rightarrow> out StatePaused (RR_Reason result) True
           | StopReasonProxiesUnavailable \<Rightarrow> out StatePaused (RR_Reason result) True
           | StopReasonUserCancelled \<Rightarrow> out StateCancelled (RR_Reason result) True
           | StopReasonRuntimeLimit \<Rightarrow> out StatePartial (RR_Reason result) True
           | StopReasonMaximumRecords \<Rightarrow> out StatePartial (RR_Reason result) True
           | StopReasonReconfigure \<Rightarrow> out StateQueued (RR_Reason result) True
           | StopReasonFatalError \<Rightarrow> out StateFailed (RR_Reason result) True
           | StopReasonTaskFailures \<Rightarrow> out StatePartial (RR_Reason result) True
           | StopReasonTasksIncomplete \<Rightarrow> out StatePartial (RR_Reason result) True
           | StopReasonNone \<Rightarrow> natural
           | StopReasonCompleted \<Rightarrow> natural
           | StopReasonOther _ \<Rightarrow> natural)"

section \<open>Lemmas on counters\<close>

text \<open>
  The condition under which the wrapped sums are the true sums. Every summary whose counters
  are below \<open>2 ^ 61\<close> has it.
\<close>

definition counts_fit :: "TaskSummary \<Rightarrow> bool" where
  "counts_fit s \<longleftrightarrow> sint (TS_Completed s) + sint (TS_Failed s) + sint (TS_Skipped s) < 2 ^ 63"

lemma Validate_nonneg:
  assumes "TaskSummary_Validate s = Inr u"
  shows "0 \<le> sint (TS_Total s)" "0 \<le> sint (TS_Completed s)" "0 \<le> sint (TS_Failed s)"
    "0 \<le> sint (TS_Skipped s)" "sint (TaskSummary_Terminal s) \<le> sint (TS_Total s)"
  using assms by (auto simp: TaskSummary_Validate_def word_sless_alt split: if_splits)

lemma Terminal_exact:
  assumes "TaskSummary_Validate s = Inr u" "counts_fit s"
  shows "sint (TaskSummary_Terminal s) =
    sint (TS_Completed s) + sint (TS_Failed s) + sint (TS_Skipped s)"
proof -
  note n = Validate_nonneg [OF assms(1)]
  have "sint (TS_Completed s + TS_Failed s) = sint (TS_Completed s) + sint (TS_Failed s)"
    using n assms(2) by (intro sint64_add) (simp_all add: counts_fit_def)
  with n assms(2) show ?thesis
    unfolding TaskSummary_Terminal_def by (subst sint64_add) (simp_all add: counts_fit_def)
qed

lemma Remaining_exact:
  assumes "TaskSummary_Validate s = Inr u" "counts_fit s"
  shows "sint (TaskSummary_Remaining s) = sint (TS_Total s) - sint (TaskSummary_Terminal s)"
proof -
  note n = Validate_nonneg [OF assms(1)]
  have "0 \<le> sint (TaskSummary_Terminal s)"
    using n by (simp add: Terminal_exact [OF assms])
  with n sint64_bounds(2) [of "TS_Total s"]
  have "sint (TS_Total s - TaskSummary_Terminal s) = sint (TS_Total s) - sint (TaskSummary_Terminal s)"
    by (intro sint64_sub) simp_all
  with n show ?thesis
    by (simp add: TaskSummary_Remaining_def Let_def word_sless_alt)
qed

lemma ClassifyOutcome_valid_input:
  assumes "ClassifyOutcome r = Inr out"
  shows "StopReason_Valid (RR_Reason r)" "TaskSummary_Validate (RR_Tasks r) = Inr ()"
    "\<not> RR_CommittedRecords r <s 0"
  using assms by (auto simp: ClassifyOutcome_def split: if_splits sum.splits)

lemma ClassifyOutcome_eq:
  assumes "StopReason_Valid (RR_Reason r)" "TaskSummary_Validate (RR_Tasks r) = Inr ()"
    "\<not> RR_CommittedRecords r <s 0"
  shows "\<exists>out. ClassifyOutcome r = Inr out \<and>
    RO_HasPartialResults out = (0 <s RR_CommittedRecords r)"
  using assms by (cases "RR_Reason r") (auto simp: ClassifyOutcome_def Let_def)

section \<open>Properties\<close>

text \<open>
  For a valid summary whose counters do not overflow, the terminal and the remaining counts
  are the exact sums, they add up to the total, and the remaining count is zero exactly when
  every task has ended.
\<close>

theorem task_counts_exact:
  assumes "TaskSummary_Validate s = Inr ()" "counts_fit s"
  shows "sint (TaskSummary_Terminal s) =
      sint (TS_Completed s) + sint (TS_Failed s) + sint (TS_Skipped s) \<and>
    sint (TaskSummary_Terminal s) + sint (TaskSummary_Remaining s) = sint (TS_Total s) \<and>
    (TaskSummary_Remaining s = 0 \<longleftrightarrow> TaskSummary_Terminal s = TS_Total s)"
proof -
  note t = Terminal_exact [OF assms] and r = Remaining_exact [OF assms]
  have "TaskSummary_Remaining s = 0 \<longleftrightarrow> sint (TaskSummary_Remaining s) = sint (0 :: int64)"
    by (auto intro: signed_word_eqI)
  moreover have "TaskSummary_Terminal s = TS_Total s \<longleftrightarrow>
      sint (TaskSummary_Terminal s) = sint (TS_Total s)"
    by (auto intro: signed_word_eqI)
  ultimately show ?thesis
    using t r by auto
qed

theorem task_counts_exact_witness:
  "sint (TaskSummary_Remaining \<lparr>TS_Total = 9, TS_Completed = 4, TS_Failed = 2, TS_Skipped = 1\<rparr>) = 2"
proof -
  let ?s = "\<lparr>TS_Total = 9, TS_Completed = 4, TS_Failed = 2, TS_Skipped = 1\<rparr> :: TaskSummary"
  have "TaskSummary_Validate ?s = Inr ()" "counts_fit ?s"
    by (simp_all add: TaskSummary_Validate_def TaskSummary_Terminal_def counts_fit_def word_sless_alt)
  from task_counts_exact [OF this] show ?thesis by simp
qed

text \<open>
  Without the bound the check can be passed by counters that are no real run: the wrapped sum
  of two counters of \<open>2 ^ 62\<close> is negative.
\<close>

lemma Validate_accepts_overflow:
  "TaskSummary_Validate
     \<lparr>TS_Total = 0, TS_Completed = 2 ^ 62, TS_Failed = 2 ^ 62, TS_Skipped = 0\<rparr> = Inr ()"
  by (simp add: TaskSummary_Validate_def TaskSummary_Terminal_def word_sless_alt)

text \<open>Where nothing failed and nothing was skipped the sum is one counter, so it cannot wrap.\<close>

lemma word_nonpos_zero:
  assumes "\<not> (x :: int64) <s 0" "\<not> 0 <s x"
  shows "x = 0"
  using assms by (intro signed_word_eqI) (simp add: word_sless_alt)

lemma no_failures_Remaining:
  assumes "TaskSummary_Validate s = Inr u" "\<not> 0 <s TS_Failed s" "\<not> 0 <s TS_Skipped s"
  shows "TS_Failed s = 0" "TS_Skipped s = 0"
    "\<not> 0 <s TaskSummary_Remaining s \<longleftrightarrow> TS_Completed s = TS_Total s"
proof -
  note n = Validate_nonneg [OF assms(1)]
  show z: "TS_Failed s = 0" "TS_Skipped s = 0"
    using n assms(2,3) by (auto intro!: word_nonpos_zero simp: word_sless_alt)
  then have fit: "counts_fit s"
    using sint64_bounds(2) [of "TS_Completed s"] by (simp add: counts_fit_def)
  have "sint (TaskSummary_Remaining s) = sint (TS_Total s) - sint (TS_Completed s)"
    using Remaining_exact [OF assms(1) fit] Terminal_exact [OF assms(1) fit] z by simp
  moreover have "sint (TS_Completed s) \<le> sint (TS_Total s)"
    using n z by (simp add: TaskSummary_Terminal_def)
  ultimately show "\<not> 0 <s TaskSummary_Remaining s \<longleftrightarrow> TS_Completed s = TS_Total s"
    by (auto simp: word_sless_alt intro: signed_word_eqI)
qed

text \<open>
  A run is classified as completed exactly when it stopped by itself (no stop reason, or
  the completed one), without an executor error, with nothing failed or skipped and with
  every planned task completed; every other outcome is recoverable. This holds for all
  accepted counters, the overflowing ones included.
\<close>

theorem completed_only_when_all_done:
  assumes "ClassifyOutcome r = Inr out"
  shows "(RO_State out = StateCompleted \<longleftrightarrow>
      RR_Reason r \<in> {StopReasonNone, StopReasonCompleted} \<and> \<not> RR_Err r \<and>
      TS_Failed (RR_Tasks r) = 0 \<and> TS_Skipped (RR_Tasks r) = 0 \<and>
      TS_Completed (RR_Tasks r) = TS_Total (RR_Tasks r)) \<and>
    (RO_Recoverable out \<longleftrightarrow> RO_State out \<noteq> StateCompleted) \<and>
    (RO_HasPartialResults out \<longleftrightarrow> 0 <s RR_CommittedRecords r)"
proof -
  note v = ClassifyOutcome_valid_input [OF assms]
  show ?thesis
    using assms v no_failures_Remaining [OF v(2)]
    by (cases "RR_Reason r") (auto simp: ClassifyOutcome_def Let_def split: if_splits)
qed

theorem completed_only_when_all_done_witness:
  "\<exists>out. ClassifyOutcome \<lparr>RR_Reason = StopReasonNone,
      RR_Tasks = \<lparr>TS_Total = 3, TS_Completed = 3, TS_Failed = 0, TS_Skipped = 0\<rparr>,
      RR_CommittedRecords = 7, RR_Err = False\<rparr> = Inr out \<and> RO_State out = StateCompleted"
proof -
  let ?r = "\<lparr>RR_Reason = StopReasonNone,
      RR_Tasks = \<lparr>TS_Total = 3, TS_Completed = 3, TS_Failed = 0, TS_Skipped = 0\<rparr>,
      RR_CommittedRecords = 7, RR_Err = False\<rparr>"
  obtain out where "ClassifyOutcome ?r = Inr out"
    using ClassifyOutcome_eq [of ?r]
    by (auto simp: TaskSummary_Validate_def TaskSummary_Terminal_def word_sless_alt)
  with completed_only_when_all_done [OF this] show ?thesis by auto
qed

end
