(* ===== verification/Control.thy ===== *)
theory Control
  imports Outcome
begin

text \<open>
  \<open>web/jobruntime/control.go\<close>: the side-effect-free evaluation of an operator command
  against the current state and the stop request that is still pending.
\<close>

section \<open>Decisions\<close>

record ControlDecision =
  CD_Control :: Control
  CD_Disposition :: ControlDisposition
  CD_CurrentState :: State
  CD_NextState :: State
  CD_EventualState :: State
  CD_RequestedStop :: StopReason
  CD_Message :: string

definition ControlDecision_Changed :: "ControlDecision \<Rightarrow> bool" where
  "ControlDecision_Changed d \<longleftrightarrow>
     CD_Disposition d = ControlApplied \<or> CD_Disposition d = ControlRequested"

definition ControlDecision_Async :: "ControlDecision \<Rightarrow> bool" where
  "ControlDecision_Async d \<longleftrightarrow> CD_Disposition d = ControlRequested"

definition ControlDecision_Error :: "ControlDecision \<Rightarrow> runtime_error + unit" where
  "ControlDecision_Error d =
     (if CD_Disposition d \<noteq> ControlRejected then Inr ()
      else Inl (ErrControlRejected (CD_Control d) (CD_CurrentState d)))"

section \<open>Building a decision\<close>

definition applyControl ::
  "ControlDecision \<Rightarrow> State \<Rightarrow> StopReason \<Rightarrow> string \<Rightarrow> ControlDecision" where
  "applyControl decision nextState requestedStop message =
     decision\<lparr>CD_Disposition := ControlApplied, CD_NextState := nextState,
       CD_EventualState := nextState, CD_RequestedStop := requestedStop, CD_Message := message\<rparr>"

definition requestControl ::
  "ControlDecision \<Rightarrow> State \<Rightarrow> State \<Rightarrow> StopReason \<Rightarrow> string \<Rightarrow> ControlDecision" where
  "requestControl decision nextState eventualState requestedStop message =
     decision\<lparr>CD_Disposition := ControlRequested, CD_NextState := nextState,
       CD_EventualState := eventualState, CD_RequestedStop := requestedStop, CD_Message := message\<rparr>"

definition noopControl :: "ControlDecision \<Rightarrow> string \<Rightarrow> ControlDecision" where
  "noopControl decision message = decision\<lparr>CD_Disposition := ControlNoop, CD_Message := message\<rparr>"

definition rejectControl :: "ControlDecision \<Rightarrow> string \<Rightarrow> ControlDecision" where
  "rejectControl decision message =
     decision\<lparr>CD_Disposition := ControlRejected, CD_Message := message\<rparr>"

section \<open>One function per command\<close>

definition decideStart :: "ControlDecision \<Rightarrow> ControlDecision" where
  "decideStart decision =
     (if CD_CurrentState decision \<in> {StateDraft, StatePaused}
      then applyControl decision StateQueued StopReasonNone ''job queued''
      else if CD_CurrentState decision \<in> {StateQueued, StateStarting, StateRunning}
      then noopControl decision ''job is already started''
      else rejectControl decision ''start requires a draft or paused job'')"

definition decidePause :: "ControlDecision \<Rightarrow> ControlDecision" where
  "decidePause decision =
     (if CD_RequestedStop decision = StopReasonUserCancelled \<or>
         CD_CurrentState decision = StateCancelling
      then rejectControl decision ''cancellation already takes precedence''
      else if CD_CurrentState decision = StateQueued
      then applyControl decision StatePaused StopReasonNone ''queued job paused''
      else if CD_CurrentState decision \<in> {StateStarting, StateRunning}
      then (if CD_RequestedStop decision = StopReasonPauseRequested
            then noopControl decision ''pause already requested''
            else requestControl decision (CD_CurrentState decision) StatePaused
              StopReasonPauseRequested ''pause requested; waiting for a safe checkpoint'')
      else if CD_CurrentState decision = StatePaused
      then noopControl decision ''job is already paused''
      else rejectControl decision ''pause requires a queued, starting, or running job'')"

definition decideResume :: "ControlDecision \<Rightarrow> ControlDecision" where
  "decideResume decision =
     (if CD_CurrentState decision = StatePaused
      then applyControl decision StateQueued StopReasonNone ''job queued for resume''
      else if CD_CurrentState decision \<in> {StateStarting, StateRunning}
      then (if CD_RequestedStop decision = StopReasonPauseRequested
            then applyControl decision (CD_CurrentState decision) StopReasonNone
              ''pending pause withdrawn''
            else noopControl decision ''job is already running'')
      else if CD_CurrentState decision = StateQueued
      then noopControl decision ''job is already queued''
      else rejectControl decision ''resume requires a paused or active job'')"

definition decideCancel :: "ControlDecision \<Rightarrow> ControlDecision" where
  "decideCancel decision =
     (if CD_RequestedStop decision = StopReasonUserCancelled \<or>
         CD_CurrentState decision = StateCancelling \<or>
         CD_CurrentState decision = StateCancelled
      then noopControl decision ''cancellation already requested or completed''
      else if CD_CurrentState decision \<in> {StateDraft, StateQueued, StatePaused}
      then applyControl decision StateCancelled StopReasonUserCancelled ''job cancelled''
      else if CD_CurrentState decision \<in> {StateStarting, StateRunning}
      then requestControl decision StateCancelling StateCancelled StopReasonUserCancelled
        ''cancellation requested; waiting for current writes''
      else rejectControl decision ''completed jobs cannot be cancelled'')"

definition decideRestart :: "ControlDecision \<Rightarrow> ControlDecision" where
  "decideRestart decision =
     (if CD_CurrentState decision \<in>
         {StatePaused, StateCompleted, StatePartial, StateFailed, StateCancelled}
      then applyControl decision StateQueued StopReasonNone ''job queued from its checkpoint''
      else if CD_CurrentState decision \<in> {StateQueued, StateStarting, StateRunning}
      then noopControl decision ''job is already queued or active''
      else rejectControl decision ''restart requires a stopped job'')"

abbreviation fresh_decision :: "State \<Rightarrow> StopReason \<Rightarrow> Control \<Rightarrow> ControlDecision" where
  "fresh_decision state pendingStop control \<equiv>
     \<lparr>CD_Control = control, CD_Disposition = ControlRejected, CD_CurrentState = state,
      CD_NextState = state, CD_EventualState = state, CD_RequestedStop = pendingStop,
      CD_Message = []\<rparr>"

fun decide :: "Control \<Rightarrow> ControlDecision \<Rightarrow> runtime_error + ControlDecision" where
  "decide ControlStart decision = Inr (decideStart decision)"
| "decide ControlPause decision = Inr (decidePause decision)"
| "decide ControlResume decision = Inr (decideResume decision)"
| "decide ControlCancel decision = Inr (decideCancel decision)"
| "decide ControlRestart decision = Inr (decideRestart decision)"
| "decide (ControlOther v) decision = Inl (ErrInvalidControl (ControlOther v))"

definition DecideControl ::
  "State \<Rightarrow> StopReason \<Rightarrow> Control \<Rightarrow> runtime_error + ControlDecision" where
  "DecideControl state pendingStop control =
     (if \<not> State_Valid state then Inl (ErrInvalidState '''' state)
      else if \<not> validControl control then Inl (ErrInvalidControl control)
      else if \<not> StopReason_Valid pendingStop then Inl (ErrInvalidStopReason pendingStop)
      else decide control (fresh_decision state pendingStop control))"

lemmas [job_defs] = decideStart_def decidePause_def decideResume_def
  decideCancel_def decideRestart_def applyControl_def requestControl_def noopControl_def
  rejectControl_def ControlDecision_Changed_def ControlDecision_Async_def
  ControlDecision_Error_def

section \<open>Lemmas\<close>

lemma DecideControl_ok_iff:
  "(\<exists>d. DecideControl s p c = Inr d) \<longleftrightarrow>
     State_Valid s \<and> validControl c \<and> StopReason_Valid p"
  by (cases c) (auto simp: DecideControl_def)

lemma DecideControl_Inr:
  "DecideControl s p c = Inr d \<longleftrightarrow> State_Valid s \<and> validControl c \<and> StopReason_Valid p \<and>
     decide c (fresh_decision s p c) = Inr d"
  by (auto simp: DecideControl_def)

text \<open>
  The case analysis of every proof below: a successful evaluation is one of the five
  functions applied to the fresh decision.
\<close>

lemma DecideControl_cases:
  assumes "DecideControl s p c = Inr d"
  obtains (start) "c = ControlStart" "d = decideStart (fresh_decision s p c)"
    | (pause) "c = ControlPause" "d = decidePause (fresh_decision s p c)"
    | (resume) "c = ControlResume" "d = decideResume (fresh_decision s p c)"
    | (cancel) "c = ControlCancel" "d = decideCancel (fresh_decision s p c)"
    | (restart) "c = ControlRestart" "d = decideRestart (fresh_decision s p c)"
  using assms by (cases c) (auto simp: DecideControl_Inr)

lemma DecideControl_inputs:
  assumes "DecideControl s p c = Inr d"
  shows "State_Valid s" "validControl c" "StopReason_Valid p"
  using assms by (auto simp: DecideControl_Inr)

lemma DecideControl_unchanged:
  assumes "DecideControl s p c = Inr d" "\<not> ControlDecision_Changed d"
  shows "CD_NextState d = s \<and> CD_EventualState d = s \<and> CD_RequestedStop d = p"
  using assms by (cases rule: DecideControl_cases) (auto simp: job_defs split: if_splits)

lemma DecideControl_current:
  assumes "DecideControl s p c = Inr d"
  shows "CD_CurrentState d = s" "CD_Control d = c"
  using assms by (cases rule: DecideControl_cases; simp add: job_defs)+

lemma DecideControl_moves:
  assumes "DecideControl s p c = Inr d"
  shows "CD_NextState d = s \<or> CanTransition s (CD_NextState d)"
    "CD_EventualState d = CD_NextState d \<or> CanTransition (CD_NextState d) (CD_EventualState d)"
  using assms by (cases rule: DecideControl_cases; auto simp: job_defs)+

lemma DecideControl_valid_results:
  assumes "DecideControl s p c = Inr d"
  shows "State_Valid (CD_NextState d)" "StopReason_Valid (CD_RequestedStop d)"
  using assms DecideControl_inputs [OF assms]
  by (cases rule: DecideControl_cases; auto simp: job_defs)+

section \<open>Properties\<close>

text \<open>
  A command that the machine evaluates follows the transition table. The state persisted
  at once is the current one or a direct successor of it, and the state promised for later is
  that state or a direct successor of it; the two differ exactly for an asynchronous request.
  A command that is a no-op or rejected leaves state and pending request as they are.
\<close>

theorem control_follows_table:
  assumes "DecideControl s p c = Inr d"
  shows "(CD_NextState d = s \<or> CanTransition s (CD_NextState d)) \<and>
    (CD_EventualState d = CD_NextState d \<or> CanTransition (CD_NextState d) (CD_EventualState d)) \<and>
    (ControlDecision_Async d \<longleftrightarrow> CD_EventualState d \<noteq> CD_NextState d) \<and>
    (\<not> ControlDecision_Changed d \<longrightarrow>
       CD_NextState d = s \<and> CD_EventualState d = s \<and> CD_RequestedStop d = p) \<and>
    (ControlDecision_Error d = Inr () \<longleftrightarrow> CD_Disposition d \<noteq> ControlRejected)"
proof (intro conjI)
  show "ControlDecision_Async d \<longleftrightarrow> CD_EventualState d \<noteq> CD_NextState d"
    using assms by (cases rule: DecideControl_cases) (auto simp: job_defs)
qed (use DecideControl_moves [OF assms] DecideControl_unchanged [OF assms]
    in \<open>auto simp: ControlDecision_Error_def\<close>)

theorem control_follows_table_witness:
  "\<exists>d. DecideControl StateRunning StopReasonNone ControlCancel = Inr d \<and> ControlDecision_Async d \<and>
     CanTransition (CD_NextState d) (CD_EventualState d)"
proof -
  obtain d where d: "DecideControl StateRunning StopReasonNone ControlCancel = Inr d"
    using DecideControl_ok_iff [of StateRunning StopReasonNone ControlCancel] by auto
  moreover from d have "CD_Disposition d = ControlRequested"
    by (auto simp: DecideControl_Inr job_defs)
  ultimately show ?thesis
    using control_follows_table [OF d] by (auto simp: ControlDecision_Async_def)
qed

text \<open>
  Commands are idempotent. Once a command was carried out, or its asynchronous stop was
  recorded, giving the same command again in the resulting state is a no-op.
\<close>

theorem control_idempotent:
  assumes "DecideControl s p c = Inr d" "ControlDecision_Changed d"
  shows "\<exists>d'. DecideControl (CD_NextState d) (CD_RequestedStop d) c = Inr d' \<and>
    CD_Disposition d' = ControlNoop"
proof -
  have "\<exists>d'. decide c (fresh_decision (CD_NextState d) (CD_RequestedStop d) c) = Inr d' \<and>
      CD_Disposition d' = ControlNoop"
    using assms by (cases rule: DecideControl_cases) (auto simp: job_defs split: if_splits)
  then show ?thesis
    using DecideControl_inputs [OF assms(1)] DecideControl_valid_results [OF assms(1)]
    by (auto simp: DecideControl_Inr)
qed

theorem control_idempotent_witness:
  "\<exists>d'. DecideControl StateRunning StopReasonPauseRequested ControlPause = Inr d' \<and>
     CD_Disposition d' = ControlNoop"
proof -
  obtain d where d: "DecideControl StateRunning StopReasonNone ControlPause = Inr d"
    using DecideControl_ok_iff [of StateRunning StopReasonNone ControlPause] by auto
  moreover from d have "ControlDecision_Changed d" "CD_NextState d = StateRunning"
    "CD_RequestedStop d = StopReasonPauseRequested"
    by (auto simp: DecideControl_Inr job_defs)
  ultimately show ?thesis
    using control_idempotent [OF d] by auto
qed

text \<open>
  A cancellation cannot be withdrawn. While a job that may own resources has a pending
  cancellation, or is cancelling, no command changes its state or its stop request.
\<close>

theorem cancellation_is_final:
  assumes "State_Active s" "p = StopReasonUserCancelled \<or> s = StateCancelling"
    "DecideControl s p c = Inr d"
  shows "\<not> ControlDecision_Changed d \<and> CD_NextState d = s \<and> CD_RequestedStop d = p"
  using assms(3,1,2)
  by (cases rule: DecideControl_cases) (auto simp: job_defs split: if_splits)

theorem cancellation_is_final_witness:
  "\<exists>d. DecideControl StateRunning StopReasonUserCancelled ControlResume = Inr d \<and>
     CD_RequestedStop d = StopReasonUserCancelled"
proof -
  obtain d where d: "DecideControl StateRunning StopReasonUserCancelled ControlResume = Inr d"
    using DecideControl_ok_iff [of StateRunning StopReasonUserCancelled ControlResume] by auto
  then show ?thesis
    using cancellation_is_final [of StateRunning, OF _ _ d] by auto
qed

end
