(* ===== verification/GoFloat.thy ===== *)
theory GoFloat
  imports Prelude "HOL-Library.Log_Nat"
begin

text \<open>
  Go's \<open>float64\<close> as the program uses it: IEEE 754 binary64 with round-to-nearest, ties to even,
  including gradual underflow, overflow to infinity and NaN. A finite value is its exact
  rational. Positive and negative zero are the one value \<open>Fin 0\<close>: the program never tells them
  apart (they compare equal, and no quotient by a zero is formed from a negative zero).
\<close>

datatype f64 = Fin rat | PosInf | NegInf | NaN

section \<open>Rounding\<close>

text \<open>The exponent of the binade of a positive rational: \<open>2 powi e \<le> x < 2 powi (e + 1)\<close>.\<close>

definition binade :: "rat \<Rightarrow> int" where
  "binade x =
     (let k = bitlen (fst (quotient_of x)) - bitlen (snd (quotient_of x))
      in if x < 2 powi k then k - 1 else k)"

definition round_half_even :: "rat \<Rightarrow> int" where
  "round_half_even q =
     (let f = \<lfloor>q\<rfloor>; r = q - of_int f
      in if r < 1 / 2 then f else if 1 / 2 < r then f + 1 else if even f then f else f + 1)"

text \<open>The spacing of the doubles around a positive rational; \<open>2 powi -1074\<close> when subnormal.\<close>

definition ulp :: "rat \<Rightarrow> rat" where
  "ulp x = 2 powi (max (binade x) (-1022) - 52)"

definition round_pos :: "rat \<Rightarrow> rat" where
  "round_pos x = of_int (round_half_even (x / ulp x)) * ulp x"

definition f64_round :: "rat \<Rightarrow> rat" where
  "f64_round x = (if x = 0 then 0 else if 0 < x then round_pos x else - round_pos (- x))"

definition f64_of_rat :: "rat \<Rightarrow> f64" where
  "f64_of_rat x =
     (let r = f64_round x
      in if 2 ^ 1024 \<le> r then PosInf else if r \<le> - (2 ^ 1024) then NegInf else Fin r)"

section \<open>Operations\<close>

definition f64_of_int :: "int \<Rightarrow> f64" where
  "f64_of_int i = f64_of_rat (of_int i)"

fun f64_mul :: "f64 \<Rightarrow> f64 \<Rightarrow> f64" where
  "f64_mul (Fin x) (Fin y) = f64_of_rat (x * y)"
| "f64_mul NaN _ = NaN"
| "f64_mul _ NaN = NaN"
| "f64_mul (Fin x) PosInf = (if x = 0 then NaN else if 0 < x then PosInf else NegInf)"
| "f64_mul (Fin x) NegInf = (if x = 0 then NaN else if 0 < x then NegInf else PosInf)"
| "f64_mul PosInf (Fin y) = (if y = 0 then NaN else if 0 < y then PosInf else NegInf)"
| "f64_mul NegInf (Fin y) = (if y = 0 then NaN else if 0 < y then NegInf else PosInf)"
| "f64_mul PosInf PosInf = PosInf"
| "f64_mul PosInf NegInf = NegInf"
| "f64_mul NegInf PosInf = NegInf"
| "f64_mul NegInf NegInf = PosInf"

fun f64_div :: "f64 \<Rightarrow> f64 \<Rightarrow> f64" where
  "f64_div (Fin x) (Fin y) =
     (if y \<noteq> 0 then f64_of_rat (x / y)
      else if x = 0 then NaN else if 0 < x then PosInf else NegInf)"
| "f64_div NaN _ = NaN"
| "f64_div _ NaN = NaN"
| "f64_div (Fin x) _ = Fin 0"
| "f64_div PosInf (Fin y) = (if y < 0 then NegInf else PosInf)"
| "f64_div NegInf (Fin y) = (if y < 0 then PosInf else NegInf)"
| "f64_div _ _ = NaN"

fun f64_add :: "f64 \<Rightarrow> f64 \<Rightarrow> f64" where
  "f64_add (Fin x) (Fin y) = f64_of_rat (x + y)"
| "f64_add NaN _ = NaN"
| "f64_add _ NaN = NaN"
| "f64_add (Fin x) y = y"
| "f64_add x (Fin y) = x"
| "f64_add PosInf PosInf = PosInf"
| "f64_add NegInf NegInf = NegInf"
| "f64_add _ _ = NaN"

fun f64_less :: "f64 \<Rightarrow> f64 \<Rightarrow> bool" where
  "f64_less (Fin x) (Fin y) = (x < y)"
| "f64_less NaN _ = False"
| "f64_less _ NaN = False"
| "f64_less PosInf _ = False"
| "f64_less _ NegInf = False"
| "f64_less _ _ = True"

fun f64_le :: "f64 \<Rightarrow> f64 \<Rightarrow> bool" where
  "f64_le (Fin x) (Fin y) = (x \<le> y)"
| "f64_le NaN _ = False"
| "f64_le _ NaN = False"
| "f64_le _ PosInf = True"
| "f64_le NegInf _ = True"
| "f64_le _ _ = False"

text \<open>\<open>math.Max\<close> and \<open>math.Min\<close>: an infinity of the winning sign beats NaN, NaN beats the rest.\<close>

definition math_Max :: "f64 \<Rightarrow> f64 \<Rightarrow> f64" where
  "math_Max x y =
     (if x = PosInf \<or> y = PosInf then PosInf
      else if x = NaN \<or> y = NaN then NaN
      else if f64_less x y then y else x)"

definition math_Min :: "f64 \<Rightarrow> f64 \<Rightarrow> f64" where
  "math_Min x y =
     (if x = NegInf \<or> y = NegInf then NegInf
      else if x = NaN \<or> y = NaN then NaN
      else if f64_less y x then y else x)"

fun f64_neg :: "f64 \<Rightarrow> f64" where
  "f64_neg (Fin x) = Fin (- x)"
| "f64_neg PosInf = NegInf"
| "f64_neg NegInf = PosInf"
| "f64_neg NaN = NaN"

definition f64_sub :: "f64 \<Rightarrow> f64 \<Rightarrow> f64" where
  "f64_sub x y = f64_add x (f64_neg y)"

text \<open>\<open>==\<close> of floats: NaN differs from itself.\<close>

definition f64_eq :: "f64 \<Rightarrow> f64 \<Rightarrow> bool" where
  "f64_eq x y \<longleftrightarrow> x = y \<and> x \<noteq> NaN"

text \<open>The double nearest to \<open>math.Pi\<close>.\<close>

definition math_Pi :: f64 where
  "math_Pi = Fin (884279719003555 / 281474976710656)"

fun math_Ceil :: "f64 \<Rightarrow> f64" where
  "math_Ceil (Fin x) = Fin (of_int \<lceil>x\<rceil>)"
| "math_Ceil x = x"

text \<open>
  \<open>int64(f)\<close> truncates toward zero. Outside the range of \<open>int64\<close> Go leaves the value to the
  implementation; the value here is the one of the amd64 instruction.
\<close>

fun int64_of_f64 :: "f64 \<Rightarrow> int64" where
  "int64_of_f64 (Fin x) =
     (let t = (if 0 \<le> x then \<lfloor>x\<rfloor> else \<lceil>x\<rceil>)
      in if - (2 ^ 63) \<le> t \<and> t < 2 ^ 63 then word_of_int t else 2 ^ 63)"
| "int64_of_f64 _ = 2 ^ 63"

section \<open>Rounding is monotone and exact on integers up to \<open>2 ^ 53\<close>\<close>

lemma powi_le: "(2 :: rat) powi m \<le> 2 powi n \<longleftrightarrow> m \<le> n"
proof
  assume "(2 :: rat) powi m \<le> 2 powi n"
  then show "m \<le> n"
    using power_int_strict_increasing [of n m "2 :: rat"] by (meson not_le one_less_numeral_iff semiring_norm(76))
qed (simp add: power_int_increasing)

lemma powi_Suc: "(2 :: rat) powi (n + 1) = 2 * 2 powi n"
  by (simp add: power_int_add)

lemma nat_powi: "0 \<le> n \<Longrightarrow> (2 :: rat) powi n = of_int (2 ^ nat n)"
  by (simp add: power_int_def)

lemma bitlen_powi:
  assumes "0 < a"
  shows "2 powi (bitlen a - 1) \<le> (of_int a :: rat)" "(of_int a :: rat) < 2 powi bitlen a"
proof -
  have "bitlen a \<noteq> 0"
    using bitlen_bounds [OF assms] assms by auto
  then have "bitlen a > 0" using bitlen_nonneg [of a] by linarith
  then show "2 powi (bitlen a - 1) \<le> (of_int a :: rat)" "(of_int a :: rat) < 2 powi bitlen a"
    using bitlen_bounds [OF assms] by (simp_all add: nat_powi nat_diff_distrib' del: of_int_power)
qed

lemma binade_bounds:
  assumes "0 < x"
  shows "2 powi binade x \<le> x" "x < 2 powi (binade x + 1)"
proof -
  obtain a b where q: "quotient_of x = (a, b)" by fastforce
  have b: "0 < b" using q by (rule quotient_of_denom_pos)
  have x: "x = of_int a / of_int b" using q by (rule quotient_of_div)
  with assms b have a: "0 < a" by (simp add: zero_less_divide_iff)
  define k where "k = bitlen a - bitlen b"
  have lo: "2 powi (k - 1) < x"
  proof -
    have "2 powi (k - 1) * of_int b < (2 :: rat) powi (k - 1) * 2 powi bitlen b"
      using bitlen_powi(2) [OF b] by simp
    also have "\<dots> = 2 powi (bitlen a - 1)"
      by (simp add: k_def flip: power_int_add)
    also have "\<dots> \<le> of_int a" by (rule bitlen_powi(1) [OF a])
    finally show ?thesis using b x by (simp add: less_divide_eq)
  qed
  have hi: "x < 2 powi (k + 1)"
  proof -
    have "of_int a < (2 :: rat) powi bitlen a" by (rule bitlen_powi(2) [OF a])
    also have "\<dots> = 2 powi (k + 1) * 2 powi (bitlen b - 1)"
      by (simp add: k_def flip: power_int_add)
    also have "\<dots> \<le> 2 powi (k + 1) * of_int b"
      using bitlen_powi(1) [OF b] by simp
    finally show ?thesis using b x by (simp add: divide_less_eq)
  qed
  have "binade x = (if x < 2 powi k then k - 1 else k)"
    by (simp add: binade_def q k_def)
  with lo hi show "2 powi binade x \<le> x" "x < 2 powi (binade x + 1)"
    by (auto split: if_splits)
qed

lemma binade_mono:
  assumes "0 < x" "x \<le> y"
  shows "binade x \<le> binade y"
proof -
  have "2 powi binade x < (2 :: rat) powi (binade y + 1)"
    using binade_bounds(1) [of x] binade_bounds(2) [of y] assms by linarith
  then show ?thesis using powi_le [of "binade y + 1" "binade x"] by linarith
qed

lemma round_half_even_bounds: "\<lfloor>q\<rfloor> \<le> round_half_even q" "round_half_even q \<le> \<lceil>q\<rceil>"
proof -
  show "\<lfloor>q\<rfloor> \<le> round_half_even q"
    by (simp add: round_half_even_def Let_def)
  have "\<lceil>q\<rceil> = (if q = of_int \<lfloor>q\<rfloor> then \<lfloor>q\<rfloor> else \<lfloor>q\<rfloor> + 1)"
    by (simp add: ceiling_altdef)
  then show "round_half_even q \<le> \<lceil>q\<rceil>"
    by (auto simp: round_half_even_def Let_def)
qed

lemma round_half_even_mono: "p \<le> q \<Longrightarrow> round_half_even p \<le> round_half_even q"
proof -
  assume le: "p \<le> q"
  then have f: "\<lfloor>p\<rfloor> \<le> \<lfloor>q\<rfloor>" by (rule floor_mono)
  show ?thesis
  proof (cases "\<lfloor>p\<rfloor> = \<lfloor>q\<rfloor>")
    case True
    with le show ?thesis by (auto simp: round_half_even_def Let_def)
  next
    case False
    with f have "\<lceil>p\<rceil> \<le> \<lfloor>q\<rfloor>" by linarith
    then show ?thesis
      using round_half_even_bounds(2) [of p] round_half_even_bounds(1) [of q] by linarith
  qed
qed

lemma round_half_even_int [simp]: "round_half_even (of_int i) = i"
  by (simp add: round_half_even_def)

lemma round_half_even_numeral [simp]: "round_half_even (numeral n) = numeral n"
  using round_half_even_int [of "numeral n"] by simp

lemma ulp_pos [simp]: "0 < ulp x"
  by (simp add: ulp_def)

lemma powi_53: "(2 :: rat) powi (e + 1) = of_int (2 ^ 53) * 2 powi (e - 52)"
  using power_int_add [of "2 :: rat" 53 "e - 52"] by (simp add: algebra_simps)

lemma powi_52: "(2 :: rat) powi e = of_int (2 ^ 52) * 2 powi (e - 52)"
  using power_int_add [of "2 :: rat" 52 "e - 52"] by (simp add: algebra_simps)

lemma round_pos_mono:
  assumes "0 < x" "x \<le> y"
  shows "round_pos x \<le> round_pos y"
proof (cases "max (binade x) (-1022) = max (binade y) (-1022)")
  case True
  then have u: "ulp x = ulp y" by (simp add: ulp_def)
  have "round_half_even (x / ulp y) \<le> round_half_even (y / ulp y)"
    using assms by (intro round_half_even_mono) (simp add: divide_right_mono less_imp_le)
  then show ?thesis
    by (simp add: round_pos_def u mult_right_mono less_imp_le)
next
  case False
  define e where "e = max (binade x) (-1022)"
  have y: "0 < y" using assms by linarith
  from False binade_mono [OF assms] have e: "e + 1 \<le> binade y" and m: "max (binade y) (-1022) = binade y"
    by (auto simp: e_def)
  have "x / ulp x \<le> of_int (2 ^ 53)"
  proof -
    have "x \<le> 2 powi (e + 1)"
      using binade_bounds(2) [OF assms(1)] powi_le [of "binade x + 1" "e + 1"]
      by (simp add: e_def)
    also have "\<dots> = of_int (2 ^ 53) * ulp x"
      by (simp only: powi_53 ulp_def e_def)
    finally show ?thesis by (simp add: divide_le_eq)
  qed
  then have "round_half_even (x / ulp x) \<le> 2 ^ 53"
    using round_half_even_mono [of "x / ulp x" "of_int (2 ^ 53)"] by (simp del: of_int_power)
  then have "of_int (round_half_even (x / ulp x)) \<le> (of_int (2 ^ 53) :: rat)"
    by (simp only: of_int_le_iff)
  then have "round_pos x \<le> of_int (2 ^ 53) * ulp x"
    unfolding round_pos_def by (intro mult_right_mono) (simp_all add: less_imp_le)
  also have "\<dots> = 2 powi (e + 1)"
    by (simp only: powi_53 ulp_def e_def)
  also have "\<dots> \<le> 2 powi binade y" using e by (simp add: powi_le)
  also have "\<dots> = of_int (2 ^ 52) * ulp y"
    by (simp only: powi_52 [of "binade y"] ulp_def m)
  also have "\<dots> \<le> round_pos y"
  proof -
    have "of_int (2 ^ 52) \<le> y / ulp y"
      using binade_bounds(1) [OF y]
      by (simp only: powi_52 [of "binade y"] ulp_def m pos_le_divide_eq [OF zero_less_power_int] zero_less_numeral)
    then have "2 ^ 52 \<le> round_half_even (y / ulp y)"
      using round_half_even_mono [of "of_int (2 ^ 52)" "y / ulp y"] by (simp del: of_int_power)
    then have "of_int (2 ^ 52) \<le> (of_int (round_half_even (y / ulp y)) :: rat)"
      by (simp only: of_int_le_iff)
    then show ?thesis unfolding round_pos_def by (intro mult_right_mono) (simp_all add: less_imp_le)
  qed
  finally show ?thesis .
qed

lemma binade_less: "0 < x \<Longrightarrow> x < 2 powi n \<Longrightarrow> binade x < n"
  using binade_bounds(1) [of x] powi_le [of n "binade x"] by linarith

text \<open>A number with a significand of 53 bits and an exponent in range is its own rounding.\<close>

lemma round_pos_exact_aux:
  assumes "0 < m" "m < 2 ^ 53" "-1074 \<le> k"
  shows "round_pos (of_int m * 2 powi k) = of_int m * 2 powi k"
proof -
  define x where "x = (of_int m :: rat) * 2 powi k"
  define e where "e = max (binade x) (-1022) - 52"
  have "of_int m < (of_int (2 ^ 53) :: rat)"
    using assms(2) by (simp only: of_int_less_iff)
  then have "x < of_int (2 ^ 53) * 2 powi k"
    unfolding x_def by (intro mult_strict_right_mono) simp_all
  then have "x < 2 powi (k + 53)"
    using powi_53 [of "k + 52"] by (simp add: algebra_simps)
  moreover have "0 < x" using assms(1) by (simp add: x_def)
  ultimately have "binade x < k + 53" by (rule binade_less [rotated])
  with assms(3) have e: "e \<le> k" by (simp add: e_def)
  have x: "x = of_int (m * 2 ^ nat (k - e)) * 2 powi e"
    using nat_powi [of "k - e"] e power_int_add [of "2 :: rat" "k - e" e] by (simp add: x_def)
  have u: "ulp x = 2 powi e" by (simp add: ulp_def e_def)
  have "x / ulp x = of_int (m * 2 ^ nat (k - e))"
    unfolding u by (subst x) simp
  then have "round_half_even (x / ulp x) = m * 2 ^ nat (k - e)"
    by (simp only: round_half_even_int)
  then have "round_pos x = of_int (m * 2 ^ nat (k - e)) * ulp x"
    by (simp only: round_pos_def)
  also have "\<dots> = x" unfolding u by (rule x [symmetric])
  finally show ?thesis by (simp only: x_def)
qed

lemma round_pos_exact:
  assumes "0 < m" "m \<le> 2 ^ 53" "-1074 \<le> k"
  shows "round_pos (of_int m * 2 powi k) = of_int m * 2 powi k"
proof (cases "m = 2 ^ 53")
  case True
  have "(of_int m :: rat) * 2 powi k = of_int (2 ^ 52) * 2 powi (k + 1)"
    using powi_Suc [of k] by (simp add: True)
  then show ?thesis using round_pos_exact_aux [of "2 ^ 52" "k + 1"] assms(3) by simp
qed (use assms in \<open>auto intro: round_pos_exact_aux\<close>)

lemma round_pos_nonneg: "0 < x \<Longrightarrow> 0 \<le> round_pos x"
proof -
  assume "0 < x"
  then have "round_half_even 0 \<le> round_half_even (x / ulp x)"
    by (intro round_half_even_mono) (simp add: less_imp_le)
  then show ?thesis
    using round_half_even_int [of 0] by (simp add: round_pos_def less_imp_le)
qed

lemma f64_round_mono: "x \<le> y \<Longrightarrow> f64_round x \<le> f64_round y"
  using round_pos_mono [of x y] round_pos_mono [of "- y" "- x"] round_pos_nonneg [of y]
    round_pos_nonneg [of "- x"] by (auto simp: f64_round_def)

lemma f64_round_exact:
  assumes "\<bar>m\<bar> \<le> 2 ^ 53" "-1074 \<le> k"
  shows "f64_round (of_int m * 2 powi k) = of_int m * 2 powi k"
proof -
  have p: "0 < (2 :: rat) powi k" by simp
  show ?thesis
  proof (cases "0 < m")
    case True
    then show ?thesis using round_pos_exact [of m k] assms p by (simp add: f64_round_def)
  next
    case False
    then show ?thesis using round_pos_exact [of "- m" k] assms p
      by (cases "m = 0") (simp_all add: f64_round_def zero_less_mult_iff less_not_sym [OF p])
  qed
qed

lemma f64_round_int: "\<bar>i\<bar> \<le> 2 ^ 53 \<Longrightarrow> f64_round (of_int i) = of_int i"
  using f64_round_exact [of i 0] by simp

lemma f64_round_0 [simp]: "f64_round 0 = 0"
  by (simp add: f64_round_def)

lemma f64_of_int_exact: "\<bar>i\<bar> \<le> 2 ^ 53 \<Longrightarrow> f64_of_int i = Fin (of_int i)"
proof -
  assume i: "\<bar>i\<bar> \<le> 2 ^ 53"
  then have "\<bar>of_int i\<bar> \<le> (2 ^ 53 :: rat)"
    by (metis of_int_abs of_int_le_iff of_int_numeral of_int_power)
  then show ?thesis by (auto simp: f64_of_int_def f64_of_rat_def Let_def f64_round_int [OF i])
qed

text \<open>Values of modest size stay finite, so a rounding is its exact rational.\<close>

lemma f64_of_rat_small:
  assumes "\<bar>x\<bar> \<le> 2 ^ 53"
  shows "f64_of_rat x = Fin (f64_round x)" "\<bar>f64_round x\<bar> \<le> 2 ^ 53"
proof -
  have "x \<le> of_int (2 ^ 53)" "of_int (- (2 ^ 53)) \<le> x" using assms by simp_all
  then have "f64_round x \<le> of_int (2 ^ 53)" "of_int (- (2 ^ 53)) \<le> f64_round x"
    using f64_round_mono [of x "of_int (2 ^ 53)"] f64_round_mono [of "of_int (- (2 ^ 53))" x]
      f64_round_int [of "2 ^ 53"] f64_round_int [of "- (2 ^ 53)"]
    by (simp_all del: of_int_power of_int_minus)
  then show b: "\<bar>f64_round x\<bar> \<le> 2 ^ 53" by simp
  have "(2 ^ 53 :: rat) < 2 ^ 1024" by simp
  with b have "\<not> 2 ^ 1024 \<le> f64_round x" "\<not> f64_round x \<le> - (2 ^ 1024)" by linarith+
  then show "f64_of_rat x = Fin (f64_round x)" by (simp only: f64_of_rat_def Let_def if_False)
qed

lemma binade_eqI: "2 powi e \<le> x \<Longrightarrow> x < 2 powi (e + 1) \<Longrightarrow> binade x = e"
proof -
  assume a: "2 powi e \<le> x" "x < 2 powi (e + 1)"
  have "0 < (2 :: rat) powi e" by simp
  with a have x: "0 < x" by linarith
  then have "binade x < e + 1" using a binade_less by blast
  moreover have "e < binade x + 1"
    using binade_bounds(2) [OF x] a powi_le [of "binade x + 1" e] by linarith
  ultimately show ?thesis by simp
qed

end
