(* ===== verification/Progress.thy ===== *)
theory Progress
  imports Outcome GoFloat
begin

text \<open>
  \<open>web/jobruntime/progress.go\<close>: the durable progress counters, their validation, the remaining
  time estimate with its 128-bit arithmetic on machine words, the percentage and the
  snapshot the polling and streaming interfaces serve.
\<close>

section \<open>Counters\<close>

record ProgressCounters =
  PC_TotalTasks :: int64
  PC_CompletedTasks :: int64
  PC_FailedTasks :: int64
  PC_SkippedTasks :: int64
  PC_ActiveTasks :: int64
  PC_RawRecords :: int64
  PC_UniqueRecords :: int64
  PC_Websites :: int64
  PC_Emails :: int64
  PC_Duplicates :: int64
  PC_Retries :: int64
  PC_Warnings :: int64
  PC_Errors :: int64

definition PC_TerminalTasks :: "ProgressCounters \<Rightarrow> int64" where
  "PC_TerminalTasks c = PC_CompletedTasks c + PC_FailedTasks c + PC_SkippedTasks c"

definition PC_RemainingTasks :: "ProgressCounters \<Rightarrow> int64" where
  "PC_RemainingTasks c =
     (let remaining = PC_TotalTasks c - PC_TerminalTasks c - PC_ActiveTasks c
      in if remaining <s 0 then 0 else remaining)"

definition PC_values :: "ProgressCounters \<Rightarrow> int64 list" where
  "PC_values c = [PC_TotalTasks c, PC_CompletedTasks c, PC_FailedTasks c, PC_SkippedTasks c,
     PC_ActiveTasks c, PC_RawRecords c, PC_UniqueRecords c, PC_Websites c, PC_Emails c,
     PC_Duplicates c, PC_Retries c, PC_Warnings c, PC_Errors c]"

definition PC_Validate :: "ProgressCounters \<Rightarrow> runtime_error + unit" where
  "PC_Validate c =
     (if list_ex (\<lambda>value. value <s 0) (PC_values c)
      then Inl (ErrInvalidProgress ''counters cannot be negative'')
      else if PC_TotalTasks c <s PC_TerminalTasks c + PC_ActiveTasks c
      then Inl (ErrInvalidProgress ''terminal and active tasks exceed total tasks'')
      else if PC_RawRecords c <s PC_UniqueRecords c
      then Inl (ErrInvalidProgress ''unique records exceed raw records'')
      else Inr ())"

unbundle bit_operations_syntax

section \<open>Time estimate\<close>

text \<open>
  \<open>bits.Mul64\<close> returns the high and the low half of the 128-bit product. \<open>bits.Div64\<close> divides a
  128-bit number by a divisor and panics, here \<open>None\<close>, when the divisor is zero or not larger than
  the high half.
\<close>

definition Mul64 :: "uint64 \<Rightarrow> uint64 \<Rightarrow> uint64 \<times> uint64" where
  "Mul64 x y = (word_of_int (uint x * uint y div 2 ^ 64), word_of_int (uint x * uint y))"

definition Div64 :: "uint64 \<Rightarrow> uint64 \<Rightarrow> uint64 \<Rightarrow> (uint64 \<times> uint64) option" where
  "Div64 hi lo y =
     (if y = 0 \<or> y \<le> hi then None
      else Some (word_of_int ((uint hi * 2 ^ 64 + uint lo) div uint y),
                 word_of_int ((uint hi * 2 ^ 64 + uint lo) mod uint y)))"

text \<open>\<open>None\<close> is the panic; otherwise the duration in nanoseconds and its availability.\<close>

definition EstimateETA :: "int64 \<Rightarrow> int64 \<Rightarrow> int64 \<Rightarrow> (int64 \<times> bool) option" where
  "EstimateETA tasks terminal elapsed =
     (if tasks <s 0 \<or> terminal <s 0 \<or> tasks <s terminal \<or> elapsed <s 0 then Some (0, False)
      else if tasks = 0 then Some (0, False)
      else if terminal = tasks then Some (0, True)
      else if terminal = 0 \<or> elapsed = 0 then Some (0, False)
      else
        (let elapsedNanoseconds = elapsed;
             terminalTasks = terminal;
             remainingTasks = tasks - terminal;
             maximumDuration = drop_bit 1 (NOT (0 :: uint64));
             wholePerTask = elapsedNanoseconds div terminalTasks;
             remainderPerTask = elapsedNanoseconds mod terminalTasks
         in if wholePerTask \<noteq> 0 \<and> maximumDuration div wholePerTask < remainingTasks
            then Some (0, False)
            else
              (let wholeNanoseconds = wholePerTask * remainingTasks;
                   (high, low) = Mul64 remainderPerTask remainingTasks
               in case Div64 high low terminalTasks of
                    None \<Rightarrow> None
                  | Some (fractionalNanoseconds, _) \<Rightarrow>
                      if maximumDuration - wholeNanoseconds < fractionalNanoseconds
                      then Some (0, False)
                      else Some (wholeNanoseconds + fractionalNanoseconds, True))))"

section \<open>Rate and percentage\<close>

text \<open>
  \<open>Duration.Minutes\<close> is \<open>float64(min) + float64(nsec)/(60*1e9)\<close> of the quotient and remainder that
  Go's truncating division gives, \<open>Duration.Seconds\<close> likewise with \<open>1e9\<close>.
\<close>

definition go_div :: "int \<Rightarrow> int \<Rightarrow> int" where
  "go_div a b = sgn a * (\<bar>a\<bar> div b)"

definition go_mod :: "int \<Rightarrow> int \<Rightarrow> int" where
  "go_mod a b = sgn a * (\<bar>a\<bar> mod b)"

definition duration_units :: "int \<Rightarrow> int64 \<Rightarrow> f64" where
  "duration_units unit d =
     f64_add (f64_of_int (go_div (sint d) unit))
       (f64_div (f64_of_int (go_mod (sint d) unit)) (f64_of_int unit))"

definition Duration_Minutes :: "int64 \<Rightarrow> f64" where
  "Duration_Minutes d = duration_units 60000000000 d"

definition Duration_Seconds :: "int64 \<Rightarrow> f64" where
  "Duration_Seconds d = duration_units 1000000000 d"

definition RatePerMinute :: "int64 \<Rightarrow> int64 \<Rightarrow> f64" where
  "RatePerMinute count elapsed =
     (if count \<le>s 0 \<or> elapsed \<le>s 0 then Fin 0
      else f64_div (f64_of_int (sint count)) (Duration_Minutes elapsed))"

definition calculatePercent :: "State \<Rightarrow> int64 \<Rightarrow> int64 \<Rightarrow> f64" where
  "calculatePercent state tasks terminal =
     (if tasks = 0 then (if State_Terminal state then Fin 100 else Fin 0)
      else
        (let percent = f64_mul (f64_div (f64_of_int (sint terminal)) (f64_of_int (sint tasks))) (Fin 100)
         in math_Max (Fin 0) (math_Min (Fin 100) percent)))"

section \<open>Snapshot\<close>

record ProgressInput =
  PI_State :: State
  PI_Stage :: Stage
  PI_Counters :: ProgressCounters
  PI_Elapsed :: int64
  PI_CurrentQuery :: string
  PI_CurrentCell :: string
  PI_CurrentDomain :: string
  PI_CPUPercent :: f64
  PI_MemoryBytes :: uint64
  PI_DiskFreeBytes :: uint64
  PI_BrowserCount :: int64
  PI_ActivePages :: int64
  PI_DatabaseWrites :: int64
  PI_WebsiteQueue :: int64

record ProgressSnapshot =
  PS_State :: State
  PS_Stage :: Stage
  PS_Counters :: ProgressCounters
  PS_RemainingTasks :: int64
  PS_Percent :: f64
  PS_RuntimeMillis :: int64
  PS_ETASeconds :: "int64 option"
  PS_PlacesPerMinute :: f64
  PS_CurrentQuery :: string
  PS_CurrentCell :: string
  PS_CurrentDomain :: string
  PS_CPUPercent :: f64
  PS_MemoryBytes :: uint64
  PS_DiskFreeBytes :: uint64
  PS_BrowserCount :: int64
  PS_ActivePages :: int64
  PS_DatabaseWrites :: int64
  PS_WebsiteQueue :: int64

text \<open>The outcomes of building a snapshot: the panic of \<open>Div64\<close>, an error, or a snapshot.\<close>

datatype snapshot_result =
  SnapshotPanic | SnapshotError runtime_error | SnapshotOK ProgressSnapshot

definition BuildProgressSnapshot :: "ProgressInput \<Rightarrow> snapshot_result" where
  "BuildProgressSnapshot input =
     (if \<not> State_Valid (PI_State input)
      then SnapshotError (ErrInvalidState [] (PI_State input))
      else if \<not> Stage_Valid (PI_Stage input)
      then SnapshotError (ErrInvalidStage (PI_Stage input))
      else case PC_Validate (PI_Counters input) of
        Inl err \<Rightarrow> SnapshotError err
      | Inr _ \<Rightarrow>
        if PI_Elapsed input <s 0
        then SnapshotError (ErrInvalidProgress ''elapsed time cannot be negative'')
        else if f64_less (PI_CPUPercent input) (Fin 0) \<or> PI_CPUPercent input = NaN \<or>
            PI_CPUPercent input = PosInf \<or> PI_CPUPercent input = NegInf
        then SnapshotError (ErrInvalidProgress ''invalid CPU percentage'')
        else if PI_BrowserCount input <s 0 \<or> PI_ActivePages input <s 0 \<or>
            PI_DatabaseWrites input <s 0 \<or> PI_WebsiteQueue input <s 0
        then SnapshotError (ErrInvalidProgress ''resource counters cannot be negative'')
        else
          (let terminal = PC_TerminalTasks (PI_Counters input);
               tasks = PC_TotalTasks (PI_Counters input);
               percent = calculatePercent (PI_State input) tasks terminal
           in case EstimateETA tasks terminal (PI_Elapsed input) of
                None \<Rightarrow> SnapshotPanic
              | Some (eta, available) \<Rightarrow>
                SnapshotOK
                  \<lparr>PS_State = PI_State input, PS_Stage = PI_Stage input,
                   PS_Counters = PI_Counters input,
                   PS_RemainingTasks = PC_RemainingTasks (PI_Counters input),
                   PS_Percent = percent,
                   PS_RuntimeMillis = PI_Elapsed input div 1000000,
                   PS_ETASeconds =
                     (if available then Some (int64_of_f64 (math_Ceil (Duration_Seconds eta)))
                      else None),
                   PS_PlacesPerMinute =
                     RatePerMinute (PC_RawRecords (PI_Counters input)) (PI_Elapsed input),
                   PS_CurrentQuery = PI_CurrentQuery input,
                   PS_CurrentCell = PI_CurrentCell input,
                   PS_CurrentDomain = PI_CurrentDomain input,
                   PS_CPUPercent = PI_CPUPercent input,
                   PS_MemoryBytes = PI_MemoryBytes input,
                   PS_DiskFreeBytes = PI_DiskFreeBytes input,
                   PS_BrowserCount = PI_BrowserCount input,
                   PS_ActivePages = PI_ActivePages input,
                   PS_DatabaseWrites = PI_DatabaseWrites input,
                   PS_WebsiteQueue = PI_WebsiteQueue input\<rparr>))"

section \<open>Lemmas\<close>

lemma max_duration: "uint (drop_bit 1 (NOT (0 :: uint64))) = 2 ^ 63 - 1"
  by code_simp

lemma zdiv_less_iff: "0 < (b :: int) \<Longrightarrow> a div b < c \<longleftrightarrow> a < c * b"
proof -
  assume b: "0 < b"
  have a: "a = a div b * b + a mod b" "0 \<le> a mod b" "a mod b < b"
    using b by simp_all
  show ?thesis
  proof
    assume "a div b < c"
    then have "(a div b + 1) * b \<le> c * b" using b by (intro mult_right_mono) simp_all
    then have "a div b * b + b \<le> c * b" by (simp only: distrib_right mult_1)
    with a show "a < c * b" by linarith
  next
    assume "a < c * b"
    with a have "a div b * b < c * b" by linarith
    with b show "a div b < c" by (simp add: mult_less_cancel_right)
  qed
qed

lemma Div64_Mul64:
  assumes "uint r < uint t" "uint m < 2 ^ 63"
  shows "\<exists>q s. Div64 (fst (Mul64 r m)) (snd (Mul64 r m)) t = Some (q, s) \<and>
    uint q = uint r * uint m div uint t"
proof -
  have rm: "uint r * uint m < 2 ^ 64 * 2 ^ 64"
    using mult_strict_mono' [of "uint r" "2 ^ 64" "uint m" "2 ^ 64"] assms(2) uint_bounded [of r]
    by simp
  have hi: "uint (fst (Mul64 r m)) = uint r * uint m div 2 ^ 64"
    using rm by (simp add: Mul64_def uint_word_of_int div_less_iff_less_mult mod_pos_pos_trivial
        pos_imp_zdiv_nonneg_iff)
  have "uint r * uint m < uint t * 2 ^ 64"
    using assms mult_strict_mono' [of "uint r" "uint t" "uint m" "2 ^ 64"] by simp
  then have lt: "fst (Mul64 r m) < t"
    by (simp add: word_less_def hi div_less_iff_less_mult)
  have all: "uint (fst (Mul64 r m)) * 2 ^ 64 + uint (snd (Mul64 r m)) = uint r * uint m"
    unfolding hi by (simp add: Mul64_def uint_word_ariths)
  have t: "0 < uint t" using assms(1) uint_ge_0 [of r] by linarith
  have "uint r * uint m div uint t \<le> uint m"
    using assms(1) t by (metis div_by_0 less_imp_le mult.commute mult_right_mono
        nonzero_mult_div_cancel_left uint_ge_0 zdiv_mono1)
  moreover have "0 \<le> uint r * uint m div uint t"
    using t by (simp add: pos_imp_zdiv_nonneg_iff)
  ultimately have "uint (word_of_int (uint r * uint m div uint t) :: uint64) = uint r * uint m div uint t"
    using assms(2) by (simp add: uint_word_of_int mod_pos_pos_trivial)
  with lt all show ?thesis
    by (auto simp: Div64_def not_le)
qed

text \<open>The middle of the estimate, on the unsigned values of its three inputs.\<close>

lemma div_split: "0 < t \<Longrightarrow> e * r div t = e div t * r + (e mod t * r) div (t :: int)"
proof -
  assume t: "0 < t"
  have "e * r = (e div t * t + e mod t) * r" by simp
  also have "\<dots> = e mod t * r + (e div t * r) * t" by (simp only: algebra_simps)
  finally show ?thesis using t by simp
qed

lemma sint_0_iff: "sint (x :: int64) = 0 \<longleftrightarrow> x = 0"
  by (metis signed_0 signed_word_eqI)

lemma sless_uint:
  "0 \<le> sint a \<Longrightarrow> 0 \<le> sint b \<Longrightarrow> (a :: int64) <s b \<longleftrightarrow> uint a < uint b"
  by (simp add: word_sless_alt sint64_uint)

text \<open>
  The last two thirds of the estimate with the quotient and remainder named: what is
  computed for unsigned inputs below \<open>2 ^ 63\<close>.
\<close>

lemma eta_core:
  fixes e t r :: uint64
  assumes "uint e < 2 ^ 63" "uint r < 2 ^ 63" "0 < uint t"
  defines "exact \<equiv> uint e * uint r div uint t"
  shows "e div t \<noteq> 0 \<and> drop_bit 1 (NOT 0) div (e div t) < r \<Longrightarrow> 2 ^ 63 \<le> exact"
    and "\<not> (e div t \<noteq> 0 \<and> drop_bit 1 (NOT 0) div (e div t) < r) \<Longrightarrow>
      \<exists>q s. Div64 (fst (Mul64 (e mod t) r)) (snd (Mul64 (e mod t) r)) t = Some (q, s) \<and>
        (drop_bit 1 (NOT 0) - e div t * r < q \<longleftrightarrow> 2 ^ 63 \<le> exact) \<and>
        (exact < 2 ^ 63 \<longrightarrow> e div t * r + q = word_of_int exact)"
proof -
  let ?w = "uint e div uint t" and ?m = "uint e mod uint t"
  have w: "uint (e div t) = ?w" and m: "uint (e mod t) = ?m"
    by (simp_all add: uint_div uint_mod)
  have split: "exact = ?w * uint r + (?m * uint r) div uint t"
    unfolding exact_def by (rule div_split [OF assms(3)])
  have w0: "0 \<le> ?w" and m0: "0 \<le> ?m" and ml: "?m < uint t"
    using assms(3) by (simp_all add: pos_imp_zdiv_nonneg_iff)
  have f0: "0 \<le> (?m * uint r) div uint t"
    using assms(3) m0 by (simp add: pos_imp_zdiv_nonneg_iff)
  have guard: "(e div t \<noteq> 0 \<and> drop_bit 1 (NOT 0) div (e div t) < r) \<longleftrightarrow> 2 ^ 63 \<le> ?w * uint r"
  proof (cases "e div t = 0")
    case True
    then have "?w = 0" using w by simp
    then show ?thesis using True by simp
  next
    case False
    then have "0 < ?w" using w w0 by (metis less_le uint_0_iff)
    then show ?thesis
      using False max_duration unfolding word_less_def uint_div w
      by (simp add: zdiv_less_iff mult.commute) linarith
  qed
  {
    assume "e div t \<noteq> 0 \<and> drop_bit 1 (NOT 0) div (e div t) < r"
    then show "2 ^ 63 \<le> exact" using guard split f0 by linarith
  next
    assume "\<not> (e div t \<noteq> 0 \<and> drop_bit 1 (NOT 0) div (e div t) < r)"
    then have wr: "?w * uint r < 2 ^ 63" using guard by linarith
    have wr0: "0 \<le> ?w * uint r" using w0 by simp
    have uw: "uint (e div t * r) = ?w * uint r"
      using wr wr0 by (simp add: uint_word_arith_bintrs take_bit_int_eq_self w)
    have "uint (e mod t) < uint t" using m ml by simp
    from Div64_Mul64 [OF this assms(2)] obtain q s where
      q: "Div64 (fst (Mul64 (e mod t) r)) (snd (Mul64 (e mod t) r)) t = Some (q, s)"
        "uint q = (?m * uint r) div uint t"
      unfolding m by blast
    have d: "uint (drop_bit 1 (NOT 0) - e div t * r) = 2 ^ 63 - 1 - ?w * uint r"
      using wr wr0 uint_sub_lem [of "e div t * r" "drop_bit 1 (NOT 0)"]
      unfolding uw max_duration by linarith
    have cmp: "drop_bit 1 (NOT 0) - e div t * r < q \<longleftrightarrow> 2 ^ 63 \<le> exact"
      unfolding word_less_def d q(2) split by linarith
    have sum: "e div t * r + q = word_of_int exact" if "exact < 2 ^ 63"
    proof -
      have "uint (e div t * r) + uint q = exact" using uw q(2) split by simp
      then show ?thesis using wi_hom_add [of "uint (e div t * r)" "uint q", where 'a = 64] by simp
    qed
    from q(1) cmp sum show "\<exists>q s. Div64 (fst (Mul64 (e mod t) r)) (snd (Mul64 (e mod t) r)) t = Some (q, s) \<and>
        (drop_bit 1 (NOT 0) - e div t * r < q \<longleftrightarrow> 2 ^ 63 \<le> exact) \<and>
        (exact < 2 ^ 63 \<longrightarrow> e div t * r + q = word_of_int exact)" by blast
  }
qed

lemma EstimateETA_body:
  assumes "0 <s terminal" "terminal <s tasks" "0 <s elapsed"
  shows "EstimateETA tasks terminal elapsed =
    (let exact = sint elapsed * (sint tasks - sint terminal) div sint terminal
     in if exact < 2 ^ 63 then Some (word_of_int exact, True) else Some (0, False))"
proof -
  have s: "0 < sint terminal" "sint terminal < sint tasks" "0 < sint elapsed"
    using assms by (simp_all add: word_sless_alt)
  note b = sint64_bounds(2) [of tasks] sint64_bounds(2) [of terminal] sint64_bounds(2) [of elapsed]
  have r: "sint (tasks - terminal) = sint tasks - sint terminal"
    using s b by (intro sint64_sub) linarith+
  then have ur: "uint (tasks - terminal) = sint tasks - sint terminal"
    using s by (subst sint64_uint) simp_all
  have ut: "uint terminal = sint terminal" "uint elapsed = sint elapsed"
    using s by (simp_all add: sint64_uint)
  note core = eta_core [of elapsed "tasks - terminal" terminal, unfolded ur ut]
  have guards: "\<not> (tasks <s 0 \<or> terminal <s 0 \<or> tasks <s terminal \<or> elapsed <s 0)"
    "tasks \<noteq> 0" "terminal \<noteq> tasks" "\<not> (terminal = 0 \<or> elapsed = 0)"
    using s by (auto simp: word_sless_alt)
  show ?thesis
  proof (cases "elapsed div terminal \<noteq> 0 \<and>
      drop_bit 1 (NOT 0) div (elapsed div terminal) < tasks - terminal")
    case True
    with core(1) s b show ?thesis
      unfolding EstimateETA_def Let_def if_not_P [OF guards(1)] if_not_P [OF guards(2)]
        if_not_P [OF guards(3)] if_not_P [OF guards(4)] if_P [OF True] by simp
  next
    case False
    then obtain q r where
      "Div64 (fst (Mul64 (elapsed mod terminal) (tasks - terminal)))
         (snd (Mul64 (elapsed mod terminal) (tasks - terminal))) terminal = Some (q, r)"
      "drop_bit 1 (NOT 0) - elapsed div terminal * (tasks - terminal) < q \<longleftrightarrow>
         2 ^ 63 \<le> sint elapsed * (sint tasks - sint terminal) div sint terminal"
      "sint elapsed * (sint tasks - sint terminal) div sint terminal < 2 ^ 63 \<longrightarrow>
         elapsed div terminal * (tasks - terminal) + q =
         word_of_int (sint elapsed * (sint tasks - sint terminal) div sint terminal)"
      using core(2) s b by auto
    then show ?thesis
      unfolding EstimateETA_def Let_def if_not_P [OF guards(1)] if_not_P [OF guards(2)]
        if_not_P [OF guards(3)] if_not_P [OF guards(4)] if_not_P [OF False]
      by (simp only: case_prod_beta option.case prod.case fst_conv snd_conv) (auto simp: not_le)
  qed
qed

lemma EstimateETA_total: "\<exists>d. EstimateETA tasks terminal elapsed = Some d"
proof (cases "0 <s terminal \<and> terminal <s tasks \<and> 0 <s elapsed")
  case True
  then show ?thesis by (auto simp: EstimateETA_body Let_def)
next
  case False
  then have "tasks <s 0 \<or> terminal <s 0 \<or> tasks <s terminal \<or> elapsed <s 0 \<or> tasks = 0 \<or>
      terminal = tasks \<or> terminal = 0 \<or> elapsed = 0"
    by (auto simp: word_sless_alt not_less le_less sint_0_iff dest: signed_word_eqI)
  then show ?thesis by (auto simp: EstimateETA_def)
qed

text \<open>The quotient of two task counts, a percentage of it, and their roundings.\<close>

lemma f64_round_one: "f64_round 1 = 1"
  using f64_round_int [of 1] by simp

lemma f64_round_hundred: "f64_round 100 = 100"
  using f64_round_int [of 100] by simp

lemma f64_round_top: "f64_round (1 - 1 / 2 ^ 53) = 1 - 1 / 2 ^ 53"
  using f64_round_exact [of "2 ^ 53 - 1" "-53"] by (simp add: power_int_minus)

lemma f64_round_bottom: "f64_round (1 / 2 ^ 53) = 1 / 2 ^ 53"
  using f64_round_exact [of 1 "-53"] by (simp add: power_int_minus)

lemma round_half_even_down: "0 \<le> r \<Longrightarrow> r < 1 / 2 \<Longrightarrow> round_half_even (of_int n + r) = n"
proof -
  assume r: "0 \<le> r" "r < 1 / 2"
  then have "\<lfloor>of_int n + r\<rfloor> = n" by (simp add: floor_eq_iff)
  then show ?thesis using r by (simp add: round_half_even_def)
qed

lemma f64_round_hundred_top: "f64_round ((1 - 1 / 2 ^ 53) * 100) < 100"
proof -
  define x :: rat where "x = (1 - 1 / 2 ^ 53) * 100"
  have "binade x = 6"
    by (rule binade_eqI) (simp_all add: x_def)
  then have u: "ulp x = 1 / 2 ^ 46"
    by (simp add: ulp_def power_int_minus)
  have "x / ulp x = of_int (100 * 2 ^ 46 - 1) + 7 / 32"
    unfolding u by (simp add: x_def)
  then have "round_half_even (x / ulp x) = 100 * 2 ^ 46 - 1"
    by (simp only: round_half_even_down)
  then have "round_pos x = of_int (100 * 2 ^ 46 - 1) * (1 / 2 ^ 46)"
    by (simp only: round_pos_def u)
  moreover have "0 < x" by (simp add: x_def)
  ultimately show ?thesis
    unfolding x_def [symmetric] by (simp add: f64_round_def)
qed

lemma percent_rounding:
  assumes "0 < T" "T \<le> 2 ^ 53" "0 \<le> t" "t \<le> T"
  defines "p \<equiv> f64_round (f64_round (of_int t / of_int T) * 100)"
  shows "0 \<le> p" "p \<le> 100" "p = 100 \<longleftrightarrow> t = T" "p = 0 \<longleftrightarrow> t = 0" "\<bar>f64_round (of_int t / of_int T) * 100\<bar> \<le> 2 ^ 53"
proof -
  let ?q = "(of_int t / of_int T) :: rat"
  have "(of_int T :: rat) \<le> of_int (2 ^ 53)"
    using assms(2) by (simp only: of_int_le_iff)
  then have T: "0 < (of_int T :: rat)" "of_int T \<le> (2 ^ 53 :: rat)"
    using assms(1) by simp_all
  have q: "0 \<le> ?q" "?q \<le> 1"
    using assms T by (simp_all add: divide_le_eq)
  have r: "0 \<le> f64_round ?q" "f64_round ?q \<le> 1"
    using f64_round_mono [OF q(1)] f64_round_mono [OF q(2)] f64_round_one by simp_all
  then show "\<bar>f64_round ?q * 100\<bar> \<le> 2 ^ 53" by (simp add: abs_mult)
  show p: "0 \<le> p" "p \<le> 100"
    using r f64_round_mono [of 0 "f64_round ?q * 100"] f64_round_mono [of "f64_round ?q * 100" 100]
      f64_round_hundred by (simp_all add: p_def)
  show "p = 100 \<longleftrightarrow> t = T"
  proof
    assume "t = T"
    then show "p = 100" using T f64_round_one f64_round_hundred by (simp add: p_def)
  next
    assume "p = 100"
    show "t = T"
    proof (rule ccontr)
      assume "t \<noteq> T"
      with assms have "t \<le> T - 1" by simp
      then have "?q \<le> (of_int T - 1) / of_int T"
        using T by (metis divide_right_mono less_imp_le of_int_1 of_int_diff of_int_le_iff)
      also have "\<dots> \<le> 1 - 1 / 2 ^ 53"
        using T by (simp add: diff_divide_distrib divide_left_mono frac_le)
      finally have "f64_round ?q \<le> 1 - 1 / 2 ^ 53"
        using f64_round_mono f64_round_top by metis
      then have "p \<le> f64_round ((1 - 1 / 2 ^ 53) * 100)"
        unfolding p_def by (intro f64_round_mono) simp
      with \<open>p = 100\<close> f64_round_hundred_top show False by simp
    qed
  qed
  show "p = 0 \<longleftrightarrow> t = 0"
  proof
    assume "t = 0" then show "p = 0" by (simp add: p_def)
  next
    assume "p = 0"
    show "t = 0"
    proof (rule ccontr)
      assume "t \<noteq> 0"
      with assms have "1 \<le> (of_int t :: rat)" by simp
      then have "1 / 2 ^ 53 \<le> ?q" using T by (intro frac_le) simp_all
      then have "1 / 2 ^ 53 \<le> f64_round ?q"
        using f64_round_mono f64_round_bottom by metis
      then have "1 / 2 ^ 53 \<le> f64_round ?q * 100" by simp
      then have "1 / 2 ^ 53 \<le> p"
        unfolding p_def using f64_round_mono f64_round_bottom by metis
      with \<open>p = 0\<close> show False by simp
    qed
  qed
qed

lemma percent_int:
  assumes "0 < T" "T \<le> 2 ^ 53" "0 \<le> t" "t \<le> T"
  shows "math_Max (Fin 0) (math_Min (Fin 100)
      (f64_mul (f64_div (f64_of_int t) (f64_of_int T)) (Fin 100))) =
    Fin (f64_round (f64_round (of_int t / of_int T) * 100))"
proof -
  note r = percent_rounding [OF assms]
  have i: "f64_of_int T = Fin (of_int T)" "f64_of_int t = Fin (of_int t)"
    using assms by (simp_all add: f64_of_int_exact)
  have "(of_int t / of_int T :: rat) \<le> 1" "0 \<le> (of_int t / of_int T :: rat)"
    using assms by (simp_all add: divide_le_eq)
  then have q: "\<bar>of_int t / of_int T :: rat\<bar> \<le> 2 ^ 53" by simp
  have "f64_mul (f64_div (f64_of_int t) (f64_of_int T)) (Fin 100) =
      Fin (f64_round (f64_round (of_int t / of_int T) * 100))"
    using assms(1) by (simp add: i f64_of_rat_small(1) [OF q] f64_of_rat_small(1) [OF r(5)])
  then show ?thesis
    using r(1,2) by (auto simp: math_Max_def math_Min_def)
qed

lemma calculatePercent_eq:
  assumes "0 <s tasks" "0 \<le>s terminal" "terminal \<le>s tasks" "sint tasks \<le> 2 ^ 53"
  shows "calculatePercent state tasks terminal =
    Fin (f64_round (f64_round (of_int (sint terminal) / of_int (sint tasks)) * 100))"
proof -
  have b: "0 < sint tasks" "0 \<le> sint terminal" "sint terminal \<le> sint tasks"
    using assms(1-3) by (simp_all add: word_sless_alt word_sle_eq)
  then have "tasks \<noteq> 0" by auto
  then show ?thesis
    unfolding calculatePercent_def Let_def using percent_int [OF b(1) assms(4) b(2,3)] by simp
qed

lemma PC_Validate_nonneg:
  assumes "PC_Validate c = Inr u"
  shows "0 \<le> sint (PC_TotalTasks c)" "0 \<le> sint (PC_CompletedTasks c)" "0 \<le> sint (PC_FailedTasks c)"
    "0 \<le> sint (PC_SkippedTasks c)" "0 \<le> sint (PC_ActiveTasks c)"
    "sint (PC_TerminalTasks c + PC_ActiveTasks c) \<le> sint (PC_TotalTasks c)"
    "sint (PC_UniqueRecords c) \<le> sint (PC_RawRecords c)"
  using assms by (auto simp: PC_Validate_def PC_values_def word_sless_alt split: if_splits)

lemma PC_sums_exact:
  assumes v: "PC_Validate c = Inr u"
    and fits: "sint (PC_CompletedTasks c) + sint (PC_FailedTasks c) + sint (PC_SkippedTasks c) +
      sint (PC_ActiveTasks c) < 2 ^ 63"
  shows "sint (PC_TerminalTasks c) =
      sint (PC_CompletedTasks c) + sint (PC_FailedTasks c) + sint (PC_SkippedTasks c)"
    and "sint (PC_RemainingTasks c) =
      sint (PC_TotalTasks c) - sint (PC_TerminalTasks c) - sint (PC_ActiveTasks c)"
    and "0 \<le> sint (PC_RemainingTasks c)"
proof -
  note n = PC_Validate_nonneg [OF v]
  have cf: "sint (PC_CompletedTasks c + PC_FailedTasks c) =
      sint (PC_CompletedTasks c) + sint (PC_FailedTasks c)"
    by (rule sint64_add) (use n fits in linarith)+
  have "sint (PC_CompletedTasks c + PC_FailedTasks c + PC_SkippedTasks c) =
      sint (PC_CompletedTasks c + PC_FailedTasks c) + sint (PC_SkippedTasks c)"
    by (rule sint64_add) (use n fits cf in linarith)+
  then show t: "sint (PC_TerminalTasks c) =
      sint (PC_CompletedTasks c) + sint (PC_FailedTasks c) + sint (PC_SkippedTasks c)"
    by (simp add: PC_TerminalTasks_def cf)
  have ta: "sint (PC_TerminalTasks c + PC_ActiveTasks c) =
      sint (PC_TerminalTasks c) + sint (PC_ActiveTasks c)"
    by (rule sint64_add) (use n fits t in linarith)+
  note b = sint64_bounds(2) [of "PC_TotalTasks c"]
  have d1: "sint (PC_TotalTasks c - PC_TerminalTasks c) =
      sint (PC_TotalTasks c) - sint (PC_TerminalTasks c)"
    by (rule sint64_sub) (use n b t ta in linarith)+
  have d2: "sint (PC_TotalTasks c - PC_TerminalTasks c - PC_ActiveTasks c) =
      sint (PC_TotalTasks c) - sint (PC_TerminalTasks c) - sint (PC_ActiveTasks c)"
    unfolding d1 [symmetric] by (rule sint64_sub) (use n b t ta d1 in linarith)+
  with n(6) ta show "sint (PC_RemainingTasks c) =
      sint (PC_TotalTasks c) - sint (PC_TerminalTasks c) - sint (PC_ActiveTasks c)"
    "0 \<le> sint (PC_RemainingTasks c)"
    by (simp_all add: PC_RemainingTasks_def Let_def word_sless_alt)
qed

text \<open>What a built snapshot was built from.\<close>

lemma BuildProgressSnapshot_OK:
  assumes "BuildProgressSnapshot input = SnapshotOK snap"
  obtains eta available where "PC_Validate (PI_Counters input) = Inr ()"
    "EstimateETA (PC_TotalTasks (PI_Counters input)) (PC_TerminalTasks (PI_Counters input))
       (PI_Elapsed input) = Some (eta, available)"
    "PS_RemainingTasks snap = PC_RemainingTasks (PI_Counters input)"
    "PS_Counters snap = PI_Counters input" "PS_State snap = PI_State input"
    "State_Valid (PI_State input)" "0 \<le>s PI_Elapsed input"
    "PS_ETASeconds snap =
       (if available then Some (int64_of_f64 (math_Ceil (Duration_Seconds eta))) else None)"
  using assms
  by (auto simp: BuildProgressSnapshot_def Let_def word_sless_alt word_sle_eq not_less
      split: if_splits sum.splits option.splits)

section \<open>Properties\<close>

text \<open>
  The time estimate is exact and never panics. With some work done, some left and time
  elapsed, it is the elapsed time multiplied by the remaining and divided by the terminal tasks, rounded
  down, computed without overflow although the product needs up to 126 bits; it is unavailable
  exactly when that number of nanoseconds is no \<open>time.Duration\<close>.
\<close>

theorem EstimateETA_exact:
  assumes "0 <s terminal" "terminal <s tasks" "0 <s elapsed"
  shows "EstimateETA tasks terminal elapsed =
    (let exact = sint elapsed * (sint tasks - sint terminal) div sint terminal
     in if exact < 2 ^ 63 then Some (word_of_int exact, True) else Some (0, False))"
  using assms by (rule EstimateETA_body)

theorem EstimateETA_exact_witness:
  "EstimateETA 10 4 6000000001 = Some (9000000001, True) \<and>
   EstimateETA 5 1 (2 ^ 62) = Some (0, False)"
  using EstimateETA_exact [of 4 10 6000000001] EstimateETA_exact [of 1 5 "2 ^ 62"]
  by (simp add: word_sless_alt)

text \<open>
  Building a snapshot never panics, whatever the input: the operands of \<open>bits.Div64\<close> always
  satisfy its precondition, also for counters that only pass validation because their
  sum wraps around.
\<close>

theorem BuildProgressSnapshot_never_panics: "BuildProgressSnapshot input \<noteq> SnapshotPanic"
proof -
  obtain d where "EstimateETA (PC_TotalTasks (PI_Counters input))
      (PC_TerminalTasks (PI_Counters input)) (PI_Elapsed input) = Some d"
    using EstimateETA_total by blast
  then show ?thesis
    by (cases d) (simp add: BuildProgressSnapshot_def Let_def split: sum.splits)
qed

text \<open>
  With at most \<open>2 ^ 53\<close> tasks the reported percentage is a finite number between 0 and 100, and
  it is 100 only when every task is terminal and 0 only when none is: no rounding of the two
  floating-point operations can announce a finished job early.
\<close>

theorem percent_honest:
  assumes "0 <s tasks" "0 \<le>s terminal" "terminal \<le>s tasks" "sint tasks \<le> 2 ^ 53"
  shows "\<exists>p. calculatePercent state tasks terminal = Fin p \<and> 0 \<le> p \<and> p \<le> 100 \<and>
    (p = 100 \<longleftrightarrow> terminal = tasks) \<and> (p = 0 \<longleftrightarrow> terminal = 0)"
proof -
  have b: "0 < sint tasks" "0 \<le> sint terminal" "sint terminal \<le> sint tasks"
    using assms(1-3) by (simp_all add: word_sless_alt word_sle_eq)
  have "sint terminal = sint tasks \<longleftrightarrow> terminal = tasks"
    by (metis signed_word_eqI)
  then show ?thesis
    using percent_rounding(1-4) [OF b(1) assms(4) b(2,3)]
    by (simp only: calculatePercent_eq [OF assms] sint_0_iff) blast
qed

theorem percent_honest_witness:
  "calculatePercent StateRunning (2 ^ 53) (2 ^ 53 - 1) \<noteq> Fin 100 \<and>
   calculatePercent StateRunning 3 3 = Fin 100"
  using percent_honest [of "2 ^ 53" "2 ^ 53 - 1" StateRunning] percent_honest [of 3 3 StateRunning]
  by (auto simp: word_sless_alt word_sle_eq)

text \<open>
  The snapshot of validated counters is consistent. When the snapshot is built, the counters are
  non-negative, terminal and active tasks stay within the total, and for counts whose sum
  is an \<open>int64\<close> the remaining, active and terminal tasks add up to the total exactly.
\<close>

theorem snapshot_consistent:
  assumes "BuildProgressSnapshot input = SnapshotOK snap"
    and "c = PI_Counters input"
    and "sint (PC_CompletedTasks c) + sint (PC_FailedTasks c) + sint (PC_SkippedTasks c) +
      sint (PC_ActiveTasks c) < 2 ^ 63"
  shows "sint (PS_RemainingTasks snap) = sint (PC_TotalTasks c) -
      (sint (PC_CompletedTasks c) + sint (PC_FailedTasks c) + sint (PC_SkippedTasks c) +
       sint (PC_ActiveTasks c)) \<and>
    0 \<le> sint (PS_RemainingTasks snap) \<and> PS_Counters snap = c \<and>
    (PS_ETASeconds snap \<noteq> None \<longleftrightarrow>
       snd (the (EstimateETA (PC_TotalTasks c) (PC_TerminalTasks c) (PI_Elapsed input))))"
proof -
  obtain eta available where b: "PC_Validate c = Inr ()"
    "EstimateETA (PC_TotalTasks c) (PC_TerminalTasks c) (PI_Elapsed input) = Some (eta, available)"
    "PS_RemainingTasks snap = PC_RemainingTasks c" "PS_Counters snap = c"
    "PS_ETASeconds snap =
       (if available then Some (int64_of_f64 (math_Ceil (Duration_Seconds eta))) else None)"
    using assms(1) unfolding assms(2) by (rule BuildProgressSnapshot_OK) blast
  with PC_sums_exact [OF b(1) assms(3)] show ?thesis by auto
qed

definition sample_input :: ProgressInput where
  "sample_input =
     \<lparr>PI_State = StateRunning, PI_Stage = StageSearchingMaps,
      PI_Counters = \<lparr>PC_TotalTasks = 10, PC_CompletedTasks = 3, PC_FailedTasks = 1,
        PC_SkippedTasks = 0, PC_ActiveTasks = 2, PC_RawRecords = 50, PC_UniqueRecords = 40,
        PC_Websites = 0, PC_Emails = 0, PC_Duplicates = 10, PC_Retries = 0, PC_Warnings = 0,
        PC_Errors = 0\<rparr>,
      PI_Elapsed = 6000000001, PI_CurrentQuery = ''q'', PI_CurrentCell = [], PI_CurrentDomain = [],
      PI_CPUPercent = Fin 5, PI_MemoryBytes = 0, PI_DiskFreeBytes = 0, PI_BrowserCount = 1,
      PI_ActivePages = 1, PI_DatabaseWrites = 0, PI_WebsiteQueue = 0\<rparr>"

lemma sample_input_OK: "\<exists>snap. BuildProgressSnapshot sample_input = SnapshotOK snap"
  using EstimateETA_total [of 10 4 6000000001]
  by (auto simp: BuildProgressSnapshot_def sample_input_def PC_Validate_def PC_values_def
      PC_TerminalTasks_def word_sless_alt)

theorem snapshot_consistent_witness:
  "\<exists>snap. BuildProgressSnapshot sample_input = SnapshotOK snap \<and> sint (PS_RemainingTasks snap) = 4"
proof -
  obtain snap where s: "BuildProgressSnapshot sample_input = SnapshotOK snap"
    using sample_input_OK by blast
  with snapshot_consistent [OF s refl] show ?thesis by (auto simp: sample_input_def)
qed

end
