(* ===== verification/Database.thy ===== *)
theory Database
  imports Control Progress
begin

text \<open>
  The part of the SQLite database of \<open>web/sqlite\<close> that the job lifecycle, the durable task plan
  and the live controls share: one record for each row type, the columns under their schema
  names (\<open>migrations.go\<close>), and a record of the tables. A table is the list of its rows in
  insertion order. \<open>initDatabase\<close> opens the database with a single connection, so transactions are serial:
  an operation is one function of the database, and one that returns an error returns the
  database it was given, which is the rollback of the deferred \<open>tx.Rollback()\<close>.

  Integer columns are \<open>int\<close> (SQLite integers hold 64 bits; the values are Unix times, sequence
  numbers and counts of rows). Encoded JSON is kept as the value that was encoded. A failure of the
  database itself is not modelled, a violated constraint is.
\<close>

section \<open>Rows\<close>

record JobTaskCheckpoint =
  cp_State :: string
  cp_RowsAdded :: int
  cp_RowsReplaced :: int
  cp_DuplicatesSkipped :: int
  cp_DiskFreeBytes :: uint64
  cp_Truncated :: bool
  cp_TruncationCap :: int

record JobRow =
  jb_id :: string
  jb_name :: string
  jb_status :: string
  jb_data :: string
  jb_created_at :: int
  jb_updated_at :: int

record RuntimeRow =
  rt_job_id :: string
  rt_state :: State
  rt_state_version :: int
  rt_stage :: Stage
  rt_message :: string
  rt_progress :: f64
  rt_requested_stop :: StopReason
  rt_outcome_reason :: StopReason
  rt_recovery_required :: bool
  rt_queue_seq :: int
  rt_queued_at :: "int option"
  rt_total_tasks :: int
  rt_completed_tasks :: int
  rt_failed_tasks :: int
  rt_raw_records :: int
  rt_unique_records :: int
  rt_emails_found :: int
  rt_warnings :: int
  rt_errors :: int
  rt_started_at :: "int option"
  rt_finished_at :: "int option"
  rt_last_checkpoint_at :: "int option"
  rt_last_heartbeat_at :: "int option"
  rt_desired_concurrency :: int
  rt_effective_concurrency :: int
  rt_extended_seconds :: int
  rt_concurrency_override :: int
  rt_proxy_pool_override :: string
  rt_retry_current_requested :: bool
  rt_config_snapshot :: string
  rt_created_at :: int
  rt_updated_at :: int

record ProgressRow =
  pg_job_id :: string
  pg_stage :: Stage
  pg_skipped_tasks :: int
  pg_active_tasks :: int
  pg_retries :: int
  pg_places_per_minute :: f64
  pg_eta_seconds :: "int option"
  pg_current_query :: string
  pg_current_cell :: string
  pg_current_domain :: string
  pg_browser_count :: int
  pg_active_pages :: int
  pg_cpu_percent :: f64
  pg_memory_bytes :: uint64
  pg_disk_free_bytes :: uint64
  pg_database_writes :: int
  pg_website_queue :: int
  pg_updated_at :: int

record TaskRow =
  tk_id :: string
  tk_job_id :: string
  tk_key :: string
  tk_kind :: string
  tk_state :: string
  tk_sequence :: int
  tk_query :: string
  tk_source_cell :: string
  tk_input_id :: string
  tk_payload :: string
  tk_checkpoint :: "JobTaskCheckpoint option"
  tk_attempts :: int
  tk_max_attempts :: int
  tk_last_error :: string
  tk_origin :: string
  tk_priority :: int
  tk_lease_owner :: string
  tk_lease_expires_at :: "int option"
  tk_heartbeat_at :: "int option"
  tk_not_before :: "int option"
  tk_started_at :: "int option"
  tk_finished_at :: "int option"
  tk_created_at :: int
  tk_updated_at :: int

record CheckpointRow =
  ck_id :: int
  ck_job_id :: string
  ck_stage :: Stage
  ck_payload :: JobTaskCheckpoint
  ck_created_at :: int
  ck_task_id :: string

text \<open>The values the program puts in the context map of an event.\<close>

datatype event_value =
    EvString string | EvInt int | EvBool bool | EvState State | EvReason StopReason
  | EvControl Control | EvDisposition ControlDisposition | EvCheckpoint JobTaskCheckpoint

type_synonym event_context = "(string \<times> event_value) list"

record EventRow =
  ev_id :: int
  ev_job_id :: string
  ev_type :: string
  ev_severity :: string
  ev_stage :: Stage
  ev_message :: string
  ev_context :: event_context
  ev_created_at :: int

record ConfigRow =
  cf_job_id :: string
  cf_version :: int
  cf_configuration :: string
  cf_created_at :: int

text \<open>
  \<open>db_event_seq\<close> and \<open>db_checkpoint_seq\<close> are the AUTOINCREMENT counters: the largest identifier
  ever handed out by the table, which survives the deletion of rows.
\<close>

record Db =
  db_jobs :: "JobRow list"
  db_runtime :: "RuntimeRow list"
  db_progress :: "ProgressRow list"
  db_tasks :: "TaskRow list"
  db_checkpoints :: "CheckpointRow list"
  db_events :: "EventRow list"
  db_configs :: "ConfigRow list"
  db_event_seq :: int
  db_checkpoint_seq :: int

datatype repo_error =
    RuntimeError runtime_error
  | ErrLifecycleNotFound string
  | ErrLifecycleConflict
  | ErrCheckpointTaskNotFound string
  | ErrCheckpointLeaseLost string
  | ErrTaskAlreadyRunning string
  | ErrTaskExhausted string int
  | ErrTaskNotRunning string string
  | ErrLeaseRequiresOwner
  | ErrConstraint string
  | ErrQueueSequence int
  | ErrOutcomePair State StopReason
  | ErrEventCursor
  | ErrEventType
  | ErrEventSeverity

text \<open>
  What the operations take from elsewhere: \<open>RedactString\<close> and \<open>RedactValue\<close> of
  \<open>web/jobruntime/redact.go\<close>, applied to every text before it is stored, and \<open>crypto/sha256\<close>
  on a byte string. The results hold for every choice of the three.
\<close>

record Env =
  RedactString :: "string \<Rightarrow> string"
  RedactValue :: "event_context \<Rightarrow> event_context"
  Sum256 :: "string \<Rightarrow> string"

section \<open>Statements\<close>

text \<open>\<open>UPDATE ... SET f WHERE p\<close> and the number of rows it affects.\<close>

definition update_where :: "('r \<Rightarrow> bool) \<Rightarrow> ('r \<Rightarrow> 'r) \<Rightarrow> 'r list \<Rightarrow> 'r list" where
  "update_where p f rows = map (\<lambda>r. if p r then f r else r) rows"

definition count_where :: "('r \<Rightarrow> bool) \<Rightarrow> 'r list \<Rightarrow> int" where
  "count_where p rows = int (length (filter p rows))"

lemma update_where_simps [simp]:
  "update_where p f [] = []"
  "update_where p f (r # rs) = (if p r then f r else r) # update_where p f rs"
  by (simp_all add: update_where_def)

lemma count_where_simps [simp]:
  "count_where p [] = 0"
  "count_where p (r # rs) = (if p r then 1 else 0) + count_where p rs"
  "count_where p (rs @ rs') = count_where p rs + count_where p rs'"
  by (simp_all add: count_where_def)

lemma count_where_nonneg [simp]: "0 \<le> count_where p rows"
  by (simp add: count_where_def)

lemma count_where_0: "count_where p rows = 0 \<longleftrightarrow> (\<forall>r \<in> set rows. \<not> p r)"
  by (auto simp: count_where_def filter_empty_conv)

lemma length_update_where [simp]: "length (update_where p f rows) = length rows"
  by (simp add: update_where_def)

lemma set_update_where: "set (update_where p f rows) = (\<lambda>r. if p r then f r else r) ` set rows"
  by (simp add: update_where_def)

lemma list_all_update_kept:
  "(\<And>r. P (f r) = P r) \<Longrightarrow> list_all P (update_where p f rows) = list_all P rows"
  by (induction rows) simp_all

lemma list_all_update_where:
  "list_all P (update_where p f rows) = list_all (\<lambda>r. if p r then P (f r) else P r) rows"
  by (induction rows) simp_all

lemma update_where_cong:
  "(\<And>r. r \<in> set rows \<Longrightarrow> p r \<Longrightarrow> f r = g r) \<Longrightarrow> update_where p f rows = update_where p g rows"
  by (induction rows) simp_all

lemma find_append: "find P (xs @ ys) = (case find P xs of None \<Rightarrow> find P ys | Some x \<Rightarrow> Some x)"
  by (induction xs) simp_all

lemma update_where_none: "\<forall>r \<in> set rows. \<not> p r \<Longrightarrow> update_where p f rows = rows"
  by (induction rows) simp_all

text \<open>
  The contract of a \<open>SET\<close> clause: it leaves the key of a row alone. Every update of the program
  satisfies it, and from it follow that keys stay unique and that a row is found under its
  key after an update just when it was found before.
\<close>

locale key_preserving =
  fixes key :: "'r \<Rightarrow> 'k"
    and set_clause :: "'r \<Rightarrow> 'r"
  assumes key_kept [simp]: "key (set_clause r) = key r"
begin

lemma keys_update [simp]: "map key (update_where p set_clause rows) = map key rows"
  by (induction rows) simp_all

lemma find_update:
  "find (\<lambda>r. key r = k) (update_where p set_clause rows) =
     map_option (\<lambda>r. if p r then set_clause r else r) (find (\<lambda>r. key r = k) rows)"
  by (induction rows) simp_all

lemma count_update_other:
  assumes "\<And>r. p r \<Longrightarrow> q (key r) \<Longrightarrow> P (set_clause r) = P r"
  shows "count_where (\<lambda>r. q (key r) \<and> P r) (update_where p set_clause rows) =
    count_where (\<lambda>r. q (key r) \<and> P r) rows"
  using assms by (induction rows) auto

end

section \<open>Reading rows\<close>

definition find_job :: "string \<Rightarrow> Db \<Rightarrow> JobRow option" where
  "find_job job db = find (\<lambda>r. jb_id r = job) (db_jobs db)"

definition find_runtime :: "string \<Rightarrow> Db \<Rightarrow> RuntimeRow option" where
  "find_runtime job db = find (\<lambda>r. rt_job_id r = job) (db_runtime db)"

definition find_progress :: "string \<Rightarrow> Db \<Rightarrow> ProgressRow option" where
  "find_progress job db = find (\<lambda>r. pg_job_id r = job) (db_progress db)"

definition task_pk :: "TaskRow \<Rightarrow> string \<times> string" where
  "task_pk r = (tk_job_id r, tk_key r)"

definition find_task :: "string \<Rightarrow> string \<Rightarrow> Db \<Rightarrow> TaskRow option" where
  "find_task job key db = find (\<lambda>r. task_pk r = (job, key)) (db_tasks db)"

text \<open>\<open>requireJob\<close>\<close>

definition requireJob :: "string \<Rightarrow> Db \<Rightarrow> repo_error + unit" where
  "requireJob job db =
     (case find_job job db of None \<Rightarrow> Inl (ErrLifecycleNotFound job) | Some _ \<Rightarrow> Inr ())"

section \<open>Events\<close>

definition insertJobEvent ::
  "Env \<Rightarrow> string \<Rightarrow> string \<Rightarrow> string \<Rightarrow> Stage \<Rightarrow> string \<Rightarrow> event_context \<Rightarrow> int \<Rightarrow> Db \<Rightarrow> Db" where
  "insertJobEvent env job typeName severity stage message ctx createdAt db =
     db\<lparr>db_event_seq := db_event_seq db + 1,
        db_events := db_events db @
          [\<lparr>ev_id = db_event_seq db + 1, ev_job_id = job, ev_type = typeName,
            ev_severity = severity, ev_stage = stage, ev_message = RedactString env message,
            ev_context = RedactValue env ctx, ev_created_at = createdAt\<rparr>]\<rparr>"

lemma insertJobEvent_frame [simp]:
  "db_jobs (insertJobEvent env j t s g m c n db) = db_jobs db"
  "db_runtime (insertJobEvent env j t s g m c n db) = db_runtime db"
  "db_progress (insertJobEvent env j t s g m c n db) = db_progress db"
  "db_tasks (insertJobEvent env j t s g m c n db) = db_tasks db"
  "db_checkpoints (insertJobEvent env j t s g m c n db) = db_checkpoints db"
  "db_configs (insertJobEvent env j t s g m c n db) = db_configs db"
  "db_checkpoint_seq (insertJobEvent env j t s g m c n db) = db_checkpoint_seq db"
  by (simp_all add: insertJobEvent_def)

text \<open>Decimal numerals of \<open>fmt.Sprintf("%d", n)\<close>.\<close>

fun digits :: "nat \<Rightarrow> string" where
  "digits n = (if n < 10 then [char_of (48 + n)] else digits (n div 10) @ [char_of (48 + n mod 10)])"

declare digits.simps [simp del]

definition decimal :: "int \<Rightarrow> string" where
  "decimal i = (if i < 0 then CHR ''-'' # digits (nat (- i)) else digits (nat i))"

end
