(* ===== verification/GoStrings.thy ===== *)
theory GoStrings
  imports Prelude
begin

text \<open>
  The functions of Go's \<open>strings\<close> and \<open>encoding/hex\<close> packages the modelled code calls, on
  byte strings. \<open>strings.TrimSpace\<close> removes the runes of Unicode's White_Space property; in UTF-8 a
  rune is at one end of a string just when its bytes are, so trimming works on the encoded runes.
\<close>

section \<open>Trimming\<close>

definition space_runes :: "string list" where
  "space_runes =
     map (map char_of)
       [[9::nat], [10], [11], [12], [13], [32], [0xC2, 0x85], [0xC2, 0xA0], [0xE1, 0x9A, 0x80],
        [0xE2, 0x80, 0x80], [0xE2, 0x80, 0x81], [0xE2, 0x80, 0x82], [0xE2, 0x80, 0x83],
        [0xE2, 0x80, 0x84], [0xE2, 0x80, 0x85], [0xE2, 0x80, 0x86], [0xE2, 0x80, 0x87],
        [0xE2, 0x80, 0x88], [0xE2, 0x80, 0x89], [0xE2, 0x80, 0x8A], [0xE2, 0x80, 0xA8],
        [0xE2, 0x80, 0xA9], [0xE2, 0x80, 0xAF], [0xE2, 0x81, 0x9F], [0xE3, 0x80, 0x80]]"

text \<open>Removes the given runes from the front, as often as one of them is there.\<close>

function trim_front :: "string list \<Rightarrow> string \<Rightarrow> string" where
  "trim_front runes s =
     (case find (\<lambda>r. r \<noteq> [] \<and> take (length r) s = r) runes of
        None \<Rightarrow> s
      | Some r \<Rightarrow> trim_front runes (drop (length r) s))"
  by pat_completeness auto
termination
proof (relation "measure (\<lambda>(runes, s). length s)")
  fix runes s and r :: string
  assume "find (\<lambda>r. r \<noteq> [] \<and> take (length r) s = r) runes = Some r"
  then have "r \<noteq> []" "take (length r) s = r" by (auto simp: find_Some_iff)
  then have "s \<noteq> []" "r \<noteq> []" by auto
  then show "((runes, drop (length r) s), runes, s) \<in> measure (\<lambda>(runes, s). length s)" by simp
qed simp

declare trim_front.simps [simp del]

definition TrimSpace :: "string \<Rightarrow> string" where
  "TrimSpace s = rev (trim_front (map rev space_runes) (rev (trim_front space_runes s)))"

lemma trim_front_none:
  assumes "\<forall>r \<in> set runes. r \<noteq> [] \<longrightarrow> hd r \<notin> set s"
  shows "trim_front runes s = s"
proof -
  have "take (length r) s \<noteq> r" if "r \<in> set runes" "r \<noteq> []" for r
  proof
    assume eq: "take (length r) s = r"
    have "hd r \<in> set (take (length r) s)" unfolding eq using that(2) by simp
    then show False using assms that in_set_takeD by fastforce
  qed
  then have "find (\<lambda>r. r \<noteq> [] \<and> take (length r) s = r) runes = None" by (auto simp: find_None_iff)
  then show ?thesis by (subst trim_front.simps) simp
qed

text \<open>The printable ASCII bytes: no white space begins or ends with one.\<close>

definition printable :: "char \<Rightarrow> bool" where
  "printable c \<longleftrightarrow> 32 < (of_char c :: nat) \<and> (of_char c :: nat) < 127"

lemma space_runes_ends: "r \<in> set space_runes \<Longrightarrow> r \<noteq> [] \<and> \<not> printable (hd r) \<and> \<not> printable (last r)"
  by (auto simp: space_runes_def printable_def of_char_of)

lemma TrimSpace_inner:
  assumes "\<forall>c \<in> set s. printable c"
  shows "TrimSpace s = s"
proof -
  have "trim_front space_runes s = s"
    using assms space_runes_ends by (intro trim_front_none) fast
  moreover have "trim_front (map rev space_runes) (rev s) = rev s"
    using assms space_runes_ends by (intro trim_front_none) (auto simp: hd_rev)
  ultimately show ?thesis by (simp add: TrimSpace_def)
qed

section \<open>Hexadecimal\<close>

definition hex_digit :: "nat \<Rightarrow> char" where
  "hex_digit n = char_of (if n < 10 then 48 + n else 87 + n)"

definition hex_encode :: "string \<Rightarrow> string" where
  "hex_encode s = concat (map (\<lambda>c. [hex_digit (of_char c div 16), hex_digit (of_char c mod 16)]) s)"

lemma length_hex_encode [simp]: "length (hex_encode s) = 2 * length s"
  by (induction s) (simp_all add: hex_encode_def)

lemma printable_hex_digit: "n < 16 \<Longrightarrow> printable (hex_digit n)"
  by (simp add: printable_def hex_digit_def of_char_of)

lemma TrimSpace_hex_encode [simp]: "TrimSpace (hex_encode s) = hex_encode s"
proof (rule TrimSpace_inner, rule ballI)
  fix c assume "c \<in> set (hex_encode s)"
  then obtain b :: char where b: "c = hex_digit (of_char b div 16) \<or> c = hex_digit (of_char b mod 16)"
    by (auto simp: hex_encode_def)
  have "(of_char b :: nat) < 256" by simp
  then have "(of_char b :: nat) div 16 < 16" by (simp add: div_less_iff_less_mult)
  with b show "printable c" by (auto intro!: printable_hex_digit)
qed

end
