(* ===== verification/TaskPlan.thy ===== *)
theory TaskPlan
  imports Database GoStrings
begin

text \<open>
  The durable task plan: \<open>web/sqlite/checkpoints.go\<close>, \<open>task_leases.go\<close> and the writing half of
  \<open>coverage.go\<close>. Every exported operation is one function of the database; the clock
  \<open>time.Now().UTC().Unix()\<close> is its argument \<open>now\<close>. The clause of each \<open>UPDATE job_tasks SET ...\<close> is
  a definition \<open>set_...\<close> of its own and its \<open>WHERE\<close> a predicate, so that the laws of the
  updates can be stated once for all of them (\<open>TaskLaws\<close>).
\<close>

section \<open>Values the operations exchange\<close>

record JobTaskDefinition =
  jd_Key :: string
  jd_Kind :: string
  jd_Sequence :: int
  jd_Query :: string
  jd_SourceCell :: string
  jd_InputID :: string
  jd_Payload :: string
  jd_Origin :: string
  jd_Priority :: int

record JobTask =
  jt_ID :: string
  jt_JobID :: string
  jt_Key :: string
  jt_Kind :: string
  jt_State :: string
  jt_Sequence :: int
  jt_Query :: string
  jt_SourceCell :: string
  jt_InputID :: string
  jt_Payload :: string
  jt_Checkpoint :: "JobTaskCheckpoint option"
  jt_Attempts :: int
  jt_MaxAttempts :: int
  jt_LastError :: string
  jt_Origin :: string
  jt_Priority :: int
  jt_StartedAt :: "int option"
  jt_FinishedAt :: "int option"
  jt_UpdatedAt :: int

record JobTaskSummary =
  su_Total :: int
  su_Pending :: int
  su_Running :: int
  su_Completed :: int
  su_Failed :: int
  su_Skipped :: int
  su_Retries :: int

definition JobTaskSummary_Remaining :: "JobTaskSummary \<Rightarrow> int" where
  "JobTaskSummary_Remaining s = su_Pending s + su_Running s"

abbreviation taskStatePending :: string where "taskStatePending \<equiv> ''pending''"
abbreviation taskStateRunning :: string where "taskStateRunning \<equiv> ''running''"
abbreviation taskStateCompleted :: string where "taskStateCompleted \<equiv> ''completed''"
abbreviation taskStateFailed :: string where "taskStateFailed \<equiv> ''failed''"
abbreviation taskStateSkipped :: string where "taskStateSkipped \<equiv> ''skipped''"

text \<open>\<open>state IN ('completed', 'skipped')\<close> and \<open>state IN ('pending', 'failed')\<close>.\<close>

definition settled :: "TaskRow \<Rightarrow> bool" where
  "settled r \<longleftrightarrow> tk_state r = taskStateCompleted \<or> tk_state r = taskStateSkipped"

definition waiting :: "TaskRow \<Rightarrow> bool" where
  "waiting r \<longleftrightarrow> tk_state r = taskStatePending \<or> tk_state r = taskStateFailed"

section \<open>Reading tasks\<close>

definition scanJobTask :: "Env \<Rightarrow> TaskRow \<Rightarrow> JobTask" where
  "scanJobTask env r =
     \<lparr>jt_ID = tk_id r, jt_JobID = tk_job_id r, jt_Key = tk_key r, jt_Kind = tk_kind r,
      jt_State = tk_state r, jt_Sequence = tk_sequence r, jt_Query = tk_query r,
      jt_SourceCell = tk_source_cell r, jt_InputID = tk_input_id r, jt_Payload = tk_payload r,
      jt_Checkpoint = tk_checkpoint r, jt_Attempts = tk_attempts r,
      jt_MaxAttempts = tk_max_attempts r, jt_LastError = RedactString env (tk_last_error r),
      jt_Origin = tk_origin r, jt_Priority = tk_priority r, jt_StartedAt = tk_started_at r,
      jt_FinishedAt = tk_finished_at r, jt_UpdatedAt = tk_updated_at r\<rparr>"

definition readJobTask :: "Env \<Rightarrow> string \<Rightarrow> string \<Rightarrow> Db \<Rightarrow> repo_error + JobTask" where
  "readJobTask env job key db =
     (case find_task job key db of
        None \<Rightarrow> Inl (ErrCheckpointTaskNotFound key)
      | Some r \<Rightarrow> Inr (scanJobTask env r))"

text \<open>\<open>ORDER BY sequence, created_at, id\<close> of the plan and \<open>ORDER BY sequence, task_key\<close> of the map.\<close>

definition unfinishedJobTasks :: "Env \<Rightarrow> string \<Rightarrow> Db \<Rightarrow> JobTask list" where
  "unfinishedJobTasks env job db =
     map (scanJobTask env)
       (sort_key tk_sequence (sort_key tk_created_at (sort_key tk_id
         (filter (\<lambda>r. tk_job_id r = job \<and>
             (tk_state r = taskStatePending \<or> tk_state r = taskStateRunning)) (db_tasks db)))))"

definition MapCellTasks :: "Env \<Rightarrow> string \<Rightarrow> Db \<Rightarrow> JobTask list" where
  "MapCellTasks env job db =
     map (scanJobTask env)
       (sort_key tk_sequence (sort_key tk_key
         (filter (\<lambda>r. tk_job_id r = job \<and> tk_source_cell r \<noteq> []) (db_tasks db))))"

section \<open>Aggregates\<close>

definition tasks_in :: "string \<Rightarrow> (TaskRow \<Rightarrow> bool) \<Rightarrow> TaskRow list \<Rightarrow> int" where
  "tasks_in job p rows = count_where (\<lambda>r. tk_job_id r = job \<and> p r) rows"

definition task_retries :: "string \<Rightarrow> TaskRow list \<Rightarrow> int" where
  "task_retries job rows =
     sum_list (map (\<lambda>r. if 1 < tk_attempts r then tk_attempts r - 1 else 0)
       (filter (\<lambda>r. tk_job_id r = job) rows))"

definition taskSummary :: "string \<Rightarrow> Db \<Rightarrow> JobTaskSummary" where
  "taskSummary job db =
     \<lparr>su_Total = tasks_in job (\<lambda>r. True) (db_tasks db),
      su_Pending = tasks_in job (\<lambda>r. tk_state r = taskStatePending) (db_tasks db),
      su_Running = tasks_in job (\<lambda>r. tk_state r = taskStateRunning) (db_tasks db),
      su_Completed = tasks_in job (\<lambda>r. tk_state r = taskStateCompleted) (db_tasks db),
      su_Failed = tasks_in job (\<lambda>r. tk_state r = taskStateFailed) (db_tasks db),
      su_Skipped = tasks_in job (\<lambda>r. tk_state r = taskStateSkipped) (db_tasks db),
      su_Retries = task_retries job (db_tasks db)\<rparr>"

definition set_task_totals :: "JobTaskSummary \<Rightarrow> int \<Rightarrow> RuntimeRow \<Rightarrow> RuntimeRow" where
  "set_task_totals s now r =
     r\<lparr>rt_total_tasks := su_Total s, rt_completed_tasks := su_Completed s,
       rt_failed_tasks := su_Failed s,
       rt_progress :=
         (if 0 < su_Total s
          then f64_div (f64_mul (f64_of_int (su_Completed s + su_Failed s + su_Skipped s)) (Fin 100))
            (f64_of_int (su_Total s))
          else Fin 0),
       rt_last_heartbeat_at := Some now, rt_updated_at := now\<rparr>"

definition set_progress_totals :: "JobTaskSummary \<Rightarrow> int \<Rightarrow> ProgressRow \<Rightarrow> ProgressRow" where
  "set_progress_totals s now r =
     r\<lparr>pg_skipped_tasks := su_Skipped s, pg_active_tasks := su_Running s,
       pg_retries := su_Retries s, pg_updated_at := now\<rparr>"

definition updateTaskAggregates :: "string \<Rightarrow> int \<Rightarrow> Db \<Rightarrow> Db" where
  "updateTaskAggregates job now db =
     (let s = taskSummary job db
      in db\<lparr>db_runtime :=
              update_where (\<lambda>r. rt_job_id r = job) (set_task_totals s now) (db_runtime db),
            db_progress :=
              update_where (\<lambda>r. pg_job_id r = job) (set_progress_totals s now) (db_progress db)\<rparr>)"

section \<open>Building the plan\<close>

text \<open>\<open>hex.EncodeToString\<close> of the first 16 bytes of the SHA-256 of job, zero byte and key.\<close>

definition durableTaskID :: "Env \<Rightarrow> string \<Rightarrow> string \<Rightarrow> string" where
  "durableTaskID env job key = hex_encode (take 16 (Sum256 env (job @ [char_of (0 :: nat)] @ key)))"

definition payload_or_empty :: "string \<Rightarrow> string" where
  "payload_or_empty p = (if p = [] then ''{}'' else p)"

definition new_task ::
  "Env \<Rightarrow> string \<Rightarrow> JobTaskDefinition \<Rightarrow> int \<Rightarrow> int \<Rightarrow> string \<Rightarrow> int \<Rightarrow> TaskRow" where
  "new_task env job d maxAttempts now origin priority =
     \<lparr>tk_id = durableTaskID env job (jd_Key d), tk_job_id = job, tk_key = jd_Key d,
      tk_kind = jd_Kind d, tk_state = taskStatePending, tk_sequence = jd_Sequence d,
      tk_query = RedactString env (jd_Query d),
      tk_source_cell = RedactString env (jd_SourceCell d), tk_input_id = jd_InputID d,
      tk_payload = payload_or_empty (jd_Payload d), tk_checkpoint = None, tk_attempts = 0,
      tk_max_attempts = maxAttempts, tk_last_error = [], tk_origin = origin,
      tk_priority = priority, tk_lease_owner = [], tk_lease_expires_at = None,
      tk_heartbeat_at = None, tk_not_before = None, tk_started_at = None, tk_finished_at = None,
      tk_created_at = now, tk_updated_at = now\<rparr>"

text \<open>The \<open>ON CONFLICT(job_id, task_key) DO UPDATE\<close> clause of the plan upsert.\<close>

definition set_prepared ::
  "Env \<Rightarrow> JobTaskDefinition \<Rightarrow> int \<Rightarrow> int \<Rightarrow> TaskRow \<Rightarrow> TaskRow" where
  "set_prepared env d maxAttempts now r =
     r\<lparr>tk_kind := jd_Kind d, tk_sequence := jd_Sequence d,
       tk_query := RedactString env (jd_Query d),
       tk_source_cell := RedactString env (jd_SourceCell d),
       tk_payload := payload_or_empty (jd_Payload d), tk_input_id := jd_InputID d,
       tk_max_attempts := maxAttempts,
       tk_state := (if settled r then tk_state r else taskStatePending),
       tk_attempts :=
         (if settled r then tk_attempts r
          else if tk_state r = taskStateFailed \<or> maxAttempts \<le> tk_attempts r then 0
          else tk_attempts r),
       tk_last_error := (if settled r then tk_last_error r else []),
       tk_started_at := (if settled r then tk_started_at r else None),
       tk_finished_at := (if settled r then tk_finished_at r else None),
       tk_not_before := (if settled r then tk_not_before r else None),
       tk_updated_at := now\<rparr>"

definition prepareTask ::
  "Env \<Rightarrow> string \<Rightarrow> int \<Rightarrow> int \<Rightarrow> JobTaskDefinition \<Rightarrow> Db \<Rightarrow> repo_error + Db" where
  "prepareTask env job maxAttempts now d db =
     (case find_task job (jd_Key d) db of
        Some _ \<Rightarrow>
          Inr (db\<lparr>db_tasks := update_where (\<lambda>r. task_pk r = (job, jd_Key d))
            (set_prepared env d maxAttempts now) (db_tasks db)\<rparr>)
      | None \<Rightarrow>
          if list_ex (\<lambda>r. tk_id r = durableTaskID env job (jd_Key d)) (db_tasks db)
          then Inl (ErrConstraint ''job_tasks.id'')
          else Inr (db\<lparr>db_tasks := db_tasks db @ [new_task env job d maxAttempts now [] 0]\<rparr>))"

fun prepareTasks ::
  "Env \<Rightarrow> string \<Rightarrow> int \<Rightarrow> int \<Rightarrow> JobTaskDefinition list \<Rightarrow> Db \<Rightarrow> repo_error + Db" where
  "prepareTasks env job maxAttempts now [] db = Inr db"
| "prepareTasks env job maxAttempts now (d # ds) db =
     (case prepareTask env job maxAttempts now d db of
        Inl e \<Rightarrow> Inl e
      | Inr db' \<Rightarrow> prepareTasks env job maxAttempts now ds db')"

definition PrepareJobTasks ::
  "Env \<Rightarrow> int \<Rightarrow> string \<Rightarrow> JobTaskDefinition list \<Rightarrow> int \<Rightarrow> Db \<Rightarrow> (repo_error + JobTask list) \<times> Db"
where
  "PrepareJobTasks env now job definitions maxAttempts db =
     (case requireJob job db of
        Inl e \<Rightarrow> (Inl e, db)
      | Inr _ \<Rightarrow>
          (case prepareTasks env job maxAttempts now definitions db of
             Inl e \<Rightarrow> (Inl e, db)
           | Inr db1 \<Rightarrow>
               let db2 = updateTaskAggregates job now db1
               in (Inr (unfinishedJobTasks env job db2), db2)))"

text \<open>\<open>ON CONFLICT(job_id, task_key) DO NOTHING\<close>: the keys of the rows that were inserted.\<close>

fun appendTasks ::
  "Env \<Rightarrow> string \<Rightarrow> int \<Rightarrow> int \<Rightarrow> JobTaskDefinition list \<Rightarrow> string list \<Rightarrow> Db \<Rightarrow>
   repo_error + (string list \<times> Db)" where
  "appendTasks env job maxAttempts now [] keys db = Inr (keys, db)"
| "appendTasks env job maxAttempts now (d # ds) keys db =
     (case find_task job (jd_Key d) db of
        Some _ \<Rightarrow> appendTasks env job maxAttempts now ds keys db
      | None \<Rightarrow>
          if list_ex (\<lambda>r. tk_id r = durableTaskID env job (jd_Key d)) (db_tasks db)
          then Inl (ErrConstraint ''job_tasks.id'')
          else appendTasks env job maxAttempts now ds (keys @ [jd_Key d])
            (db\<lparr>db_tasks :=
               db_tasks db @ [new_task env job d maxAttempts now (jd_Origin d) (jd_Priority d)]\<rparr>))"

fun readJobTasks :: "Env \<Rightarrow> string \<Rightarrow> string list \<Rightarrow> Db \<Rightarrow> repo_error + JobTask list" where
  "readJobTasks env job [] db = Inr []"
| "readJobTasks env job (k # ks) db =
     (case readJobTask env job k db of
        Inl e \<Rightarrow> Inl e
      | Inr t \<Rightarrow>
          (case readJobTasks env job ks db of Inl e \<Rightarrow> Inl e | Inr ts \<Rightarrow> Inr (t # ts)))"

definition AppendJobTasks ::
  "Env \<Rightarrow> int \<Rightarrow> string \<Rightarrow> JobTaskDefinition list \<Rightarrow> int \<Rightarrow> Db \<Rightarrow> (repo_error + JobTask list) \<times> Db"
where
  "AppendJobTasks env now job definitions maxAttempts db =
     (case requireJob job db of
        Inl e \<Rightarrow> (Inl e, db)
      | Inr _ \<Rightarrow>
          (case appendTasks env job maxAttempts now definitions [] db of
             Inl e \<Rightarrow> (Inl e, db)
           | Inr (keys, db1) \<Rightarrow>
               let db2 = (if keys \<noteq> [] then updateTaskAggregates job now db1 else db1)
               in case readJobTasks env job keys db2 of
                    Inl e \<Rightarrow> (Inl e, db)
                  | Inr inserted \<Rightarrow> (Inr inserted, db2)))"

end
