(* ===== verification/TaskLease.thy ===== *)
theory TaskLease
  imports TaskPlan
begin

text \<open>
  Attempts and leases on durable tasks: the claiming, keeping, releasing, reclaiming and
  finishing of a task in \<open>web/sqlite/task_leases.go\<close> and \<open>checkpoints.go\<close>, the deferral and skipping
  in \<open>coverage.go\<close>, and the worker telemetry of \<open>checkpoints.go\<close>.
\<close>

section \<open>The claim order\<close>

text \<open>\<open>ORDER BY priority DESC, sequence, created_at, task_key\<close> as a linear order of its own.\<close>

datatype ClaimKey = ClaimKey (ck_priority: int) (ck_sequence: int) (ck_created: int) (ck_task: string)

instantiation ClaimKey :: linorder
begin

fun less_ClaimKey :: "ClaimKey \<Rightarrow> ClaimKey \<Rightarrow> bool" where
  "less_ClaimKey (ClaimKey p s c k) (ClaimKey p' s' c' k') \<longleftrightarrow>
     p' < p \<or> p = p' \<and> (s < s' \<or> s = s' \<and> (c < c' \<or> c = c' \<and> k < k'))"

definition less_eq_ClaimKey :: "ClaimKey \<Rightarrow> ClaimKey \<Rightarrow> bool" where
  "less_eq_ClaimKey a b \<longleftrightarrow> a = b \<or> a < b"

instance
proof
  fix x y z :: ClaimKey
  show "x < y \<longleftrightarrow> x \<le> y \<and> \<not> y \<le> x"
    by (cases x; cases y) (auto simp: less_eq_ClaimKey_def)
  show "x \<le> x" by (simp add: less_eq_ClaimKey_def)
  show "x \<le> y \<Longrightarrow> y \<le> z \<Longrightarrow> x \<le> z"
    by (cases x; cases y; cases z) (auto simp: less_eq_ClaimKey_def)
  show "x \<le> y \<Longrightarrow> y \<le> x \<Longrightarrow> x = y"
    by (cases x; cases y) (auto simp: less_eq_ClaimKey_def)
  show "x \<le> y \<or> y \<le> x"
    by (cases x; cases y) (auto simp: less_eq_ClaimKey_def)
qed

end

definition claim_key :: "TaskRow \<Rightarrow> ClaimKey" where
  "claim_key r = ClaimKey (tk_priority r) (tk_sequence r) (tk_created_at r) (tk_key r)"

definition claimable :: "string \<Rightarrow> int \<Rightarrow> TaskRow \<Rightarrow> bool" where
  "claimable job now r \<longleftrightarrow> tk_job_id r = job \<and> waiting r \<and> tk_attempts r < tk_max_attempts r \<and>
     (case tk_not_before r of None \<Rightarrow> True | Some t \<Rightarrow> t \<le> now)"

definition next_task :: "string \<Rightarrow> int \<Rightarrow> Db \<Rightarrow> TaskRow option" where
  "next_task job now db =
     (case sort_key claim_key (filter (claimable job now) (db_tasks db)) of
        [] \<Rightarrow> None
      | r # _ \<Rightarrow> Some r)"

section \<open>Leases\<close>

text \<open>\<open>int64(lease.Seconds())\<close>, at least one second.\<close>

definition lease_seconds :: "int64 \<Rightarrow> int" where
  "lease_seconds lease =
     (let leaseSeconds = sint (int64_of_f64 (Duration_Seconds lease))
      in if leaseSeconds < 1 then 1 else leaseSeconds)"

lemma lease_seconds_pos: "1 \<le> lease_seconds d"
  by (simp add: lease_seconds_def Let_def)

definition give_back :: "int \<Rightarrow> int" where
  "give_back attempts = (if 0 < attempts then attempts - 1 else 0)"

definition expired :: "int \<Rightarrow> TaskRow \<Rightarrow> bool" where
  "expired now r \<longleftrightarrow> tk_state r = taskStateRunning \<and>
     (case tk_lease_expires_at r of None \<Rightarrow> False | Some t \<Rightarrow> t < now)"

definition set_reclaimed :: "int \<Rightarrow> TaskRow \<Rightarrow> TaskRow" where
  "set_reclaimed now r =
     r\<lparr>tk_state := taskStatePending, tk_attempts := give_back (tk_attempts r),
       tk_last_error := ''Worker lease expired before the task reported progress'',
       tk_lease_owner := [], tk_lease_expires_at := None, tk_started_at := None,
       tk_updated_at := now\<rparr>"

definition reclaimExpiredTasks :: "string \<Rightarrow> int \<Rightarrow> Db \<Rightarrow> int \<times> Db" where
  "reclaimExpiredTasks job now db =
     (count_where (\<lambda>r. tk_job_id r = job \<and> expired now r) (db_tasks db),
      db\<lparr>db_tasks :=
           update_where (\<lambda>r. tk_job_id r = job \<and> expired now r) (set_reclaimed now) (db_tasks db)\<rparr>)"

definition set_claimed :: "string \<Rightarrow> int \<Rightarrow> int \<Rightarrow> TaskRow \<Rightarrow> TaskRow" where
  "set_claimed owner expires now r =
     r\<lparr>tk_state := taskStateRunning, tk_attempts := tk_attempts r + 1, tk_last_error := [],
       tk_lease_owner := owner, tk_lease_expires_at := Some expires, tk_heartbeat_at := Some now,
       tk_not_before := None, tk_started_at := Some now, tk_finished_at := None,
       tk_updated_at := now\<rparr>"

definition attempt_open :: "string \<Rightarrow> string \<Rightarrow> TaskRow \<Rightarrow> bool" where
  "attempt_open job key r \<longleftrightarrow> task_pk r = (job, key) \<and> waiting r \<and> tk_attempts r < tk_max_attempts r"

definition started_message :: "JobTask \<Rightarrow> string" where
  "started_message t = ''Started task '' @ decimal (jt_Sequence t + 1) @ '': '' @ jt_Query t"

definition started_context :: "string \<Rightarrow> JobTask \<Rightarrow> event_context" where
  "started_context key t =
     [(''task_key'', EvString key), (''query'', EvString (jt_Query t)),
      (''cell'', EvString (jt_SourceCell t)), (''attempt'', EvInt (jt_Attempts t + 1)),
      (''max_attempts'', EvInt (jt_MaxAttempts t))]"

text \<open>\<open>None\<close> is the result \<open>found = false\<close>.\<close>

definition ClaimNextJobTask ::
  "Env \<Rightarrow> int \<Rightarrow> string \<Rightarrow> string \<Rightarrow> int64 \<Rightarrow> Db \<Rightarrow> (repo_error + JobTask option) \<times> Db" where
  "ClaimNextJobTask env now job owner lease db =
     (if owner = [] then (Inl ErrLeaseRequiresOwner, db)
      else
        (let db1 = snd (reclaimExpiredTasks job now db)
         in case next_task job now db1 of
              None \<Rightarrow> (Inr None, db1)
            | Some candidate \<Rightarrow>
                (let key = tk_key candidate
                 in case readJobTask env job key db1 of
                      Inl e \<Rightarrow> (Inl e, db)
                    | Inr task \<Rightarrow>
                        (let db2 = db1\<lparr>db_tasks := update_where (attempt_open job key)
                               (set_claimed owner (now + lease_seconds lease) now) (db_tasks db1)\<rparr>
                         in if count_where (attempt_open job key) (db_tasks db1) \<noteq> 1
                            then (Inr None, db2)
                            else
                              (let db3 = updateTaskAggregates job now db2;
                                   db4 = insertJobEvent env job ''task-started'' ''information''
                                     StageSearchingMaps (started_message task)
                                     (started_context key task @ [(''lease_owner'', EvString owner)])
                                     now db3
                               in case readJobTask env job key db4 of
                                    Inl e \<Rightarrow> (Inl e, db)
                                  | Inr claimed \<Rightarrow> (Inr (Some claimed), db4))))))"

definition set_started :: "int \<Rightarrow> TaskRow \<Rightarrow> TaskRow" where
  "set_started now r =
     r\<lparr>tk_state := taskStateRunning, tk_attempts := tk_attempts r + 1, tk_last_error := [],
       tk_lease_owner := [], tk_lease_expires_at := None, tk_heartbeat_at := Some now,
       tk_started_at := Some now, tk_finished_at := None, tk_updated_at := now\<rparr>"

definition StartJobTask ::
  "Env \<Rightarrow> int \<Rightarrow> string \<Rightarrow> string \<Rightarrow> Db \<Rightarrow> (repo_error + JobTask) \<times> Db" where
  "StartJobTask env now job key db =
     (case readJobTask env job key db of
        Inl e \<Rightarrow> (Inl e, db)
      | Inr task \<Rightarrow>
          if jt_State task = taskStateCompleted \<or> jt_State task = taskStateSkipped
          then (Inr task, db)
          else if jt_State task = taskStateRunning then (Inl (ErrTaskAlreadyRunning key), db)
          else if jt_MaxAttempts task \<le> jt_Attempts task
          then (Inl (ErrTaskExhausted key (jt_MaxAttempts task)), db)
          else if count_where (attempt_open job key) (db_tasks db) \<noteq> 1
          then (Inl ErrLifecycleConflict, db)
          else
            (let db1 = db\<lparr>db_tasks :=
                   update_where (attempt_open job key) (set_started now) (db_tasks db)\<rparr>;
                 db2 = updateTaskAggregates job now db1;
                 db3 = insertJobEvent env job ''task-started'' ''information'' StageSearchingMaps
                   (started_message task) (started_context key task) now db2
             in case readJobTask env job key db3 of
                  Inl e \<Rightarrow> (Inl e, db)
                | Inr claimed \<Rightarrow> (Inr claimed, db3)))"

section \<open>Keeping and giving up a lease\<close>

text \<open>\<open>job_id = ? AND task_key = ? AND state = 'running' AND lease_owner = ?\<close>\<close>

definition held_by :: "string \<Rightarrow> string \<Rightarrow> string \<Rightarrow> TaskRow \<Rightarrow> bool" where
  "held_by job key owner r \<longleftrightarrow>
     task_pk r = (job, key) \<and> tk_state r = taskStateRunning \<and> tk_lease_owner r = owner"

definition set_heartbeat :: "int \<Rightarrow> int \<Rightarrow> TaskRow \<Rightarrow> TaskRow" where
  "set_heartbeat expires now r =
     r\<lparr>tk_heartbeat_at := Some now, tk_lease_expires_at := Some expires, tk_updated_at := now\<rparr>"

definition HeartbeatJobTask ::
  "int \<Rightarrow> string \<Rightarrow> string \<Rightarrow> string \<Rightarrow> int64 \<Rightarrow> Db \<Rightarrow> (repo_error + unit) \<times> Db" where
  "HeartbeatJobTask now job key owner lease db =
     (let db1 = db\<lparr>db_tasks := update_where (held_by job key owner)
            (set_heartbeat (now + lease_seconds lease) now) (db_tasks db)\<rparr>
      in if count_where (held_by job key owner) (db_tasks db) \<noteq> 1
         then (Inl (ErrCheckpointLeaseLost key), db1)
         else (Inr (), db1))"

definition set_released :: "string \<Rightarrow> int \<Rightarrow> TaskRow \<Rightarrow> TaskRow" where
  "set_released reason now r =
     r\<lparr>tk_state := taskStatePending, tk_attempts := give_back (tk_attempts r),
       tk_last_error := reason, tk_lease_owner := [], tk_lease_expires_at := None,
       tk_started_at := None, tk_finished_at := None, tk_updated_at := now\<rparr>"

definition ReleaseJobTask ::
  "Env \<Rightarrow> int \<Rightarrow> string \<Rightarrow> string \<Rightarrow> string \<Rightarrow> string \<Rightarrow> Db \<Rightarrow> (repo_error + unit) \<times> Db" where
  "ReleaseJobTask env now job key owner reason db =
     (let db1 = db\<lparr>db_tasks := update_where (held_by job key owner)
            (set_released (RedactString env reason) now) (db_tasks db)\<rparr>
      in if count_where (held_by job key owner) (db_tasks db) \<noteq> 1 then (Inr (), db1)
         else (Inr (), updateTaskAggregates job now db1))"

section \<open>Reclaiming\<close>

definition ReclaimExpiredJobTasks ::
  "Env \<Rightarrow> int \<Rightarrow> string \<Rightarrow> Db \<Rightarrow> (repo_error + int) \<times> Db" where
  "ReclaimExpiredJobTasks env now job db =
     (let (recovered, db1) = reclaimExpiredTasks job now db
      in if recovered = 0 then (Inr 0, db1)
         else
           (Inr recovered,
            insertJobEvent env job ''task-lease-expired'' ''warning'' StageSearchingMaps
              (''Reclaimed '' @ decimal recovered @
               '' task lease(s) from a worker that stopped reporting'')
              [(''reclaimed'', EvInt recovered)] now
              (updateTaskAggregates job now db1)))"

text \<open>\<open>SELECT job_id, COUNT(*) ... GROUP BY job_id ORDER BY job_id\<close>\<close>

definition staleJobs :: "int \<Rightarrow> Db \<Rightarrow> (string \<times> int) list" where
  "staleJobs now db =
     map (\<lambda>job. (job, count_where (\<lambda>r. tk_job_id r = job \<and> expired now r) (db_tasks db)))
       (sort (remdups (map tk_job_id (filter (expired now) (db_tasks db)))))"

definition report_stale :: "Env \<Rightarrow> int \<Rightarrow> string \<times> int \<Rightarrow> Db \<Rightarrow> Db" where
  "report_stale env now sj db =
     insertJobEvent env (fst sj) ''task-lease-expired'' ''warning'' StageSearchingMaps
       (''Reclaimed '' @ decimal (snd sj) @ '' stale task lease(s) left by a stopped worker'')
       [(''reclaimed'', EvInt (snd sj)), (''startup_sweep'', EvBool True)] now
       (updateTaskAggregates (fst sj) now db)"

definition ReclaimStaleJobTasks :: "Env \<Rightarrow> int \<Rightarrow> Db \<Rightarrow> (repo_error + int) \<times> Db" where
  "ReclaimStaleJobTasks env now db =
     (let stale = staleJobs now db
      in if stale = [] then (Inr 0, db)
         else
           (Inr (count_where (expired now) (db_tasks db)),
            fold (report_stale env now) stale
              (db\<lparr>db_tasks := update_where (expired now) (set_reclaimed now) (db_tasks db)\<rparr>)))"

section \<open>Finishing\<close>

definition set_finished ::
  "string \<Rightarrow> string \<Rightarrow> JobTaskCheckpoint \<Rightarrow> int \<Rightarrow> TaskRow \<Rightarrow> TaskRow" where
  "set_finished state lastError checkpoint now r =
     r\<lparr>tk_state := state, tk_last_error := lastError, tk_checkpoint := Some checkpoint,
       tk_lease_owner := [], tk_lease_expires_at := None,
       tk_finished_at := (if state = taskStatePending then None else Some now),
       tk_updated_at := now\<rparr>"

definition finish_state :: "string option \<Rightarrow> bool \<Rightarrow> string" where
  "finish_state runErr retryable =
     (case runErr of
        None \<Rightarrow> taskStateCompleted
      | Some _ \<Rightarrow> if retryable then taskStatePending else taskStateFailed)"

definition insertCheckpoint :: "string \<Rightarrow> string \<Rightarrow> JobTaskCheckpoint \<Rightarrow> int \<Rightarrow> Db \<Rightarrow> Db" where
  "insertCheckpoint job task checkpoint now db =
     db\<lparr>db_checkpoint_seq := db_checkpoint_seq db + 1,
        db_checkpoints := db_checkpoints db @
          [\<lparr>ck_id = db_checkpoint_seq db + 1, ck_job_id = job, ck_stage = StageSearchingMaps,
            ck_payload = checkpoint, ck_created_at = now, ck_task_id = task\<rparr>]\<rparr>"

definition set_checkpointed :: "int \<Rightarrow> RuntimeRow \<Rightarrow> RuntimeRow" where
  "set_checkpointed now r =
     r\<lparr>rt_last_checkpoint_at := Some now, rt_last_heartbeat_at := Some now, rt_updated_at := now\<rparr>"

text \<open>The error a run ended with is its text, \<open>None\<close> for success.\<close>

definition finishJobTask ::
  "Env \<Rightarrow> int \<Rightarrow> string \<Rightarrow> string \<Rightarrow> string \<Rightarrow> string option \<Rightarrow> bool \<Rightarrow> JobTaskCheckpoint \<Rightarrow> Db \<Rightarrow>
   (repo_error + unit) \<times> Db" where
  "finishJobTask env now job key owner runErr retryable checkpoint db =
     (case readJobTask env job key db of
        Inl e \<Rightarrow> (Inl e, db)
      | Inr task \<Rightarrow>
          if runErr = None \<and> jt_State task = taskStateCompleted then (Inr (), db)
          else if jt_State task \<noteq> taskStateRunning
          then (Inl (ErrTaskNotRunning key (jt_State task)), db)
          else if count_where (held_by job key owner) (db_tasks db) \<noteq> 1
          then (Inl (ErrCheckpointLeaseLost key), db)
          else
            (let state = finish_state runErr retryable;
                 lastError = (case runErr of None \<Rightarrow> [] | Some e \<Rightarrow> RedactString env e);
                 message = (case runErr of
                     None \<Rightarrow> ''Task completed at a safe CSV checkpoint''
                   | Some _ \<Rightarrow> ''Task attempt stopped; merged rows remain safe to resume'');
                 severity = (case runErr of None \<Rightarrow> ''information'' | Some _ \<Rightarrow> ''warning'');
                 saved = checkpoint\<lparr>cp_State := state\<rparr>;
                 db1 = db\<lparr>db_tasks := update_where (held_by job key owner)
                   (set_finished state lastError saved now) (db_tasks db)\<rparr>;
                 db2 = insertCheckpoint job (jt_ID task) saved now db1;
                 db3 = updateTaskAggregates job now db2;
                 db4 = db3\<lparr>db_runtime := update_where (\<lambda>r. rt_job_id r = job)
                   (set_checkpointed now) (db_runtime db3)\<rparr>
             in (Inr (),
                 insertJobEvent env job ''task-checkpoint'' severity StageSearchingMaps message
                   [(''task_key'', EvString key), (''state'', EvString state),
                    (''attempts'', EvInt (jt_Attempts task)), (''last_error'', EvString lastError),
                    (''checkpoint'', EvCheckpoint saved)] now db4)))"

definition CompleteJobTaskAs ::
  "Env \<Rightarrow> int \<Rightarrow> string \<Rightarrow> string \<Rightarrow> string \<Rightarrow> JobTaskCheckpoint \<Rightarrow> Db \<Rightarrow> (repo_error + unit) \<times> Db" where
  "CompleteJobTaskAs env now job key owner checkpoint db =
     finishJobTask env now job key owner None False checkpoint db"

definition CompleteJobTask ::
  "Env \<Rightarrow> int \<Rightarrow> string \<Rightarrow> string \<Rightarrow> JobTaskCheckpoint \<Rightarrow> Db \<Rightarrow> (repo_error + unit) \<times> Db" where
  "CompleteJobTask env now job key checkpoint db =
     CompleteJobTaskAs env now job key [] checkpoint db"

definition FailJobTaskAs ::
  "Env \<Rightarrow> int \<Rightarrow> string \<Rightarrow> string \<Rightarrow> string \<Rightarrow> string option \<Rightarrow> bool \<Rightarrow> JobTaskCheckpoint \<Rightarrow> Db \<Rightarrow>
   (repo_error + unit) \<times> Db" where
  "FailJobTaskAs env now job key owner runErr retryable checkpoint db =
     finishJobTask env now job key owner
       (case runErr of None \<Rightarrow> Some ''task attempt failed'' | Some e \<Rightarrow> Some e)
       retryable checkpoint db"

definition FailJobTask ::
  "Env \<Rightarrow> int \<Rightarrow> string \<Rightarrow> string \<Rightarrow> string option \<Rightarrow> bool \<Rightarrow> JobTaskCheckpoint \<Rightarrow> Db \<Rightarrow>
   (repo_error + unit) \<times> Db" where
  "FailJobTask env now job key runErr retryable checkpoint db =
     FailJobTaskAs env now job key [] runErr retryable checkpoint db"

section \<open>Skipping and deferring\<close>

definition set_skipped :: "string \<Rightarrow> int \<Rightarrow> TaskRow \<Rightarrow> TaskRow" where
  "set_skipped reason now r =
     r\<lparr>tk_state := taskStateSkipped, tk_last_error := reason, tk_lease_owner := [],
       tk_lease_expires_at := None, tk_not_before := None, tk_finished_at := Some now,
       tk_updated_at := now\<rparr>"

definition SkipPendingJobTasks ::
  "Env \<Rightarrow> int \<Rightarrow> string \<Rightarrow> string \<Rightarrow> Db \<Rightarrow> (repo_error + int) \<times> Db" where
  "SkipPendingJobTasks env now job reason db =
     (case requireJob job db of
        Inl e \<Rightarrow> (Inl e, db)
      | Inr _ \<Rightarrow>
          (let pending = (\<lambda>r. tk_job_id r = job \<and> tk_state r = taskStatePending);
               affected = count_where pending (db_tasks db);
               db1 = db\<lparr>db_tasks :=
                 update_where pending (set_skipped (RedactString env reason) now) (db_tasks db)\<rparr>
           in (Inr affected, if 0 < affected then updateTaskAggregates job now db1 else db1)))"

definition set_deferred :: "int \<Rightarrow> int \<Rightarrow> TaskRow \<Rightarrow> TaskRow" where
  "set_deferred until now r = r\<lparr>tk_not_before := Some until, tk_updated_at := now\<rparr>"

definition DeferJobTask ::
  "int \<Rightarrow> string \<Rightarrow> string \<Rightarrow> int \<Rightarrow> Db \<Rightarrow> (repo_error + unit) \<times> Db" where
  "DeferJobTask now job key until db =
     (Inr (),
      db\<lparr>db_tasks := update_where
           (\<lambda>r. task_pk r = (job, key) \<and> tk_state r = taskStatePending)
           (set_deferred until now) (db_tasks db)\<rparr>)"

end
