(* ===== verification/TaskLaws.thy ===== *)
theory TaskLaws
  imports TaskLease
begin

text \<open>
  The laws of the task plan. A contract states what an update of \<open>job_tasks\<close> promises; it is
  discharged for every statement of \<open>TaskPlan\<close> and \<open>TaskLease\<close>, and gives the
  invariants of the table over all histories of operations.
\<close>

section \<open>Well-formed task rows\<close>

definition known_state :: "string \<Rightarrow> bool" where
  "known_state s \<longleftrightarrow> s \<in> {taskStatePending, taskStateRunning, taskStateCompleted, taskStateFailed,
     taskStateSkipped}"

definition task_ok :: "TaskRow \<Rightarrow> bool" where
  "task_ok r \<longleftrightarrow> known_state (tk_state r) \<and> 0 \<le> tk_attempts r \<and>
     (settled r \<or> tk_attempts r \<le> tk_max_attempts r) \<and>
     (tk_state r = taskStateRunning \<longrightarrow> 1 \<le> tk_attempts r) \<and>
     (tk_state r = taskStateRunning \<and> tk_lease_expires_at r \<noteq> None \<longrightarrow> tk_lease_owner r \<noteq> []) \<and>
     (tk_state r = taskStateRunning \<and> tk_lease_owner r \<noteq> [] \<longrightarrow> tk_not_before r = None)"

lemmas task_row_defs = task_ok_def known_state_def settled_def waiting_def task_pk_def
  attempt_open_def claimable_def expired_def held_by_def give_back_def

section \<open>The contract of an update\<close>

text \<open>
  A statement updates the rows of its \<open>WHERE\<close> clause; it keeps keys, never unsettles a settled
  task and never replaces the checkpoint of one, and it keeps rows well formed.
\<close>

locale task_update = key_preserving task_pk set_clause
  for set_clause :: "TaskRow \<Rightarrow> TaskRow" +
  fixes guard :: "TaskRow \<Rightarrow> bool"
  assumes keeps_settled: "guard r \<Longrightarrow> settled r \<Longrightarrow>
      tk_state (set_clause r) = tk_state r \<and> tk_checkpoint (set_clause r) = tk_checkpoint r"
    and keeps_ok: "guard r \<Longrightarrow> task_ok r \<Longrightarrow> task_ok (set_clause r)"
begin

lemma update_ok:
  "list_all task_ok rows \<Longrightarrow> list_all task_ok (update_where guard set_clause rows)"
  by (induction rows) (auto intro: keeps_ok)

lemma update_settled:
  assumes "find (\<lambda>r. task_pk r = k) rows = Some r" "settled r"
  shows "\<exists>r'. find (\<lambda>r. task_pk r = k) (update_where guard set_clause rows) = Some r' \<and>
    tk_state r' = tk_state r \<and> tk_checkpoint r' = tk_checkpoint r"
  using assms keeps_settled by (auto simp: find_update)

end

interpretation prepared: task_update "set_prepared env d m now" "\<lambda>r. 0 \<le> m \<and> task_pk r = k"
  for env d m now k
  by unfold_locales (auto simp: set_prepared_def task_row_defs)

interpretation claimed: task_update "set_claimed owner e now" "\<lambda>r. owner \<noteq> [] \<and> attempt_open job key r"
  for owner e now job key
  by unfold_locales (auto simp: set_claimed_def task_row_defs)

interpretation started: task_update "set_started now" "attempt_open job key" for now job key
  by unfold_locales (auto simp: set_started_def task_row_defs)

interpretation heartbeat: task_update "set_heartbeat e now" "\<lambda>r. owner \<noteq> [] \<and> held_by job key owner r"
  for e now owner job key
  by unfold_locales (auto simp: set_heartbeat_def task_row_defs)

interpretation released: task_update "set_released reason now" "held_by job key owner"
  for reason now job key owner
  by unfold_locales (auto simp: set_released_def task_row_defs)

interpretation reclaimed: task_update "set_reclaimed now" "\<lambda>r. q r \<and> expired now r" for now q
  by unfold_locales (auto simp: set_reclaimed_def task_row_defs)

interpretation finished: task_update "set_finished (finish_state runErr retryable) le cp now"
    "held_by job key owner"
  for runErr retryable le cp now job key owner
  by unfold_locales (auto simp: set_finished_def finish_state_def task_row_defs split: option.splits)

interpretation skipped: task_update "set_skipped reason now"
    "\<lambda>r. tk_job_id r = job \<and> tk_state r = taskStatePending" for reason now job
  by unfold_locales (auto simp: set_skipped_def task_row_defs)

interpretation deferred: task_update "set_deferred t now"
    "\<lambda>r. task_pk r = k \<and> tk_state r = taskStatePending" for t now k
  by unfold_locales (auto simp: set_deferred_def task_row_defs)

section \<open>Frames\<close>

lemma updateTaskAggregates_frame [simp]:
  "db_jobs (updateTaskAggregates job now db) = db_jobs db"
  "db_tasks (updateTaskAggregates job now db) = db_tasks db"
  "db_checkpoints (updateTaskAggregates job now db) = db_checkpoints db"
  "db_events (updateTaskAggregates job now db) = db_events db"
  "db_configs (updateTaskAggregates job now db) = db_configs db"
  by (simp_all add: updateTaskAggregates_def Let_def)

lemma insertCheckpoint_frame [simp]:
  "db_jobs (insertCheckpoint job t cp now db) = db_jobs db"
  "db_runtime (insertCheckpoint job t cp now db) = db_runtime db"
  "db_progress (insertCheckpoint job t cp now db) = db_progress db"
  "db_tasks (insertCheckpoint job t cp now db) = db_tasks db"
  "db_configs (insertCheckpoint job t cp now db) = db_configs db"
  by (simp_all add: insertCheckpoint_def)

lemma aggregates_after_checkpoint [simp]:
  "updateTaskAggregates job now (insertCheckpoint j t cp n db) =
     insertCheckpoint j t cp n (updateTaskAggregates job now db)"
  by (simp add: updateTaskAggregates_def insertCheckpoint_def taskSummary_def Let_def)

lemma find_task_frame [simp]:
  "find_task job key (updateTaskAggregates j now db) = find_task job key db"
  "find_task job key (insertJobEvent env j t s g m c n db) = find_task job key db"
  "find_task job key (insertCheckpoint j t cp now db) = find_task job key db"
  "find_task job key (db\<lparr>db_runtime := rts\<rparr>) = find_task job key db"
  by (simp_all add: find_task_def)

lemma taskSummary_cong: "db_tasks db = db_tasks db' \<Longrightarrow> taskSummary job db = taskSummary job db'"
  by (simp add: taskSummary_def)

lemma taskSummary_frame [simp]:
  "taskSummary job (insertJobEvent env j t s g m c n db) = taskSummary job db"
  "taskSummary job (insertCheckpoint j t cp now db) = taskSummary job db"
  "taskSummary job (updateTaskAggregates j now db) = taskSummary job db"
  "taskSummary job (db\<lparr>db_runtime := rts\<rparr>) = taskSummary job db"
  "taskSummary job (db\<lparr>db_progress := pgs\<rparr>) = taskSummary job db"
  by (simp_all add: taskSummary_def)

section \<open>Aggregates\<close>

text \<open>
  The stored totals of a job agree with its task rows: the total, completed and failed counts
  of \<open>job_runtime\<close> and the skipped count of \<open>job_progress\<close>. (The active and retry counts
  of \<open>job_progress\<close> are overwritten by the samples the worker sends.)
\<close>

definition totals_match :: "JobTaskSummary \<Rightarrow> RuntimeRow \<Rightarrow> bool" where
  "totals_match s r \<longleftrightarrow> rt_total_tasks r = su_Total s \<and> rt_completed_tasks r = su_Completed s \<and>
     rt_failed_tasks r = su_Failed s"

definition aggregates_exact :: "Db \<Rightarrow> bool" where
  "aggregates_exact db \<longleftrightarrow>
     list_all (\<lambda>r. totals_match (taskSummary (rt_job_id r) db) r) (db_runtime db) \<and>
     list_all (\<lambda>r. pg_skipped_tasks r = su_Skipped (taskSummary (pg_job_id r) db)) (db_progress db)"

lemma aggregates_event [simp]:
  "aggregates_exact (insertJobEvent env j t s g m c n db) = aggregates_exact db"
  by (simp add: aggregates_exact_def)

lemma aggregates_checkpoint [simp]:
  "aggregates_exact (insertCheckpoint j t cp now db) = aggregates_exact db"
  by (simp add: aggregates_exact_def)

lemma aggregates_checkpointed [simp]:
  "aggregates_exact (db\<lparr>db_runtime := update_where p (set_checkpointed now) (db_runtime db)\<rparr>) =
     aggregates_exact db"
  by (simp add: aggregates_exact_def list_all_update_kept set_checkpointed_def totals_match_def)

text \<open>Rows of other jobs are not counted, so an update within one job leaves other jobs' totals.\<close>

lemma tasks_in_other:
  assumes "\<And>r. guard r \<Longrightarrow> tk_job_id r = job" "\<And>r. tk_job_id (f r) = tk_job_id r" "job' \<noteq> job"
  shows "tasks_in job' p (update_where guard f rows) = tasks_in job' p rows"
  using assms by (induction rows) (auto simp: tasks_in_def)

lemma aggregates_refresh:
  assumes "aggregates_exact db"
    and "\<And>job' p. job' \<noteq> job \<Longrightarrow> tasks_in job' p rows = tasks_in job' p (db_tasks db)"
  shows "aggregates_exact (updateTaskAggregates job now (db\<lparr>db_tasks := rows\<rparr>))"
  using assms
  by (auto simp: aggregates_exact_def updateTaskAggregates_def Let_def list_all_iff set_update_where
      set_task_totals_def set_progress_totals_def totals_match_def taskSummary_def)

lemma aggregates_update:
  assumes "aggregates_exact db" "\<And>r. guard r \<Longrightarrow> tk_job_id r = job"
    "\<And>r. tk_job_id (f r) = tk_job_id r"
  shows "aggregates_exact
    (updateTaskAggregates job now (db\<lparr>db_tasks := update_where guard f (db_tasks db)\<rparr>))"
  by (rule aggregates_refresh [OF assms(1)]) (rule tasks_in_other [OF assms(2,3)])

text \<open>An update that changes no state needs no refresh.\<close>

lemma tasks_in_same_state:
  assumes "\<And>r. guard r \<Longrightarrow> tk_job_id (f r) = tk_job_id r \<and> tk_state (f r) = tk_state r"
  shows "tasks_in job (\<lambda>r. tk_state r = s) (update_where guard f rows) =
      tasks_in job (\<lambda>r. tk_state r = s) rows"
    "tasks_in job (\<lambda>r. True) (update_where guard f rows) = tasks_in job (\<lambda>r. True) rows"
  using assms by (induction rows) (auto simp: tasks_in_def)

lemma aggregates_same_state:
  assumes "aggregates_exact db"
    and "\<And>r. guard r \<Longrightarrow> tk_job_id (f r) = tk_job_id r \<and> tk_state (f r) = tk_state r"
  shows "aggregates_exact (db\<lparr>db_tasks := update_where guard f (db_tasks db)\<rparr>)"
  using assms(1) by (simp add: aggregates_exact_def totals_match_def taskSummary_def
      tasks_in_same_state [OF assms(2)])

section \<open>The invariant of the plan\<close>

definition plan_ok :: "Db \<Rightarrow> bool" where
  "plan_ok db \<longleftrightarrow> distinct (map task_pk (db_tasks db)) \<and> list_all task_ok (db_tasks db) \<and>
     aggregates_exact db"

lemma plan_ok_event [simp]: "plan_ok (insertJobEvent env j t s g m c n db) = plan_ok db"
  by (simp add: plan_ok_def)

lemma plan_ok_checkpoint [simp]: "plan_ok (insertCheckpoint j t cp now db) = plan_ok db"
  by (simp add: plan_ok_def)

lemma plan_ok_checkpointed [simp]:
  "plan_ok (db\<lparr>db_runtime := update_where p (set_checkpointed now) (db_runtime db)\<rparr>) = plan_ok db"
  by (simp add: plan_ok_def)

context task_update
begin

text \<open>The step every writing operation takes: an update within one job, then the refresh.\<close>

lemma plan_ok_update:
  assumes "plan_ok db" "\<And>r. guard r \<Longrightarrow> tk_job_id r = job"
  shows "plan_ok (updateTaskAggregates job now
    (db\<lparr>db_tasks := update_where guard set_clause (db_tasks db)\<rparr>))"
proof -
  have "\<And>r. tk_job_id (set_clause r) = tk_job_id r"
    using key_kept by (simp add: task_pk_def)
  then show ?thesis
    using assms aggregates_update [of db guard job set_clause now] update_ok
    by (simp add: plan_ok_def)
qed

lemma plan_ok_same_state:
  assumes "plan_ok db" "\<And>r. guard r \<Longrightarrow> tk_state (set_clause r) = tk_state r"
  shows "plan_ok (db\<lparr>db_tasks := update_where guard set_clause (db_tasks db)\<rparr>)"
proof -
  have "\<And>r. tk_job_id (set_clause r) = tk_job_id r"
    using key_kept by (simp add: task_pk_def)
  then show ?thesis
    using assms aggregates_same_state [of db guard set_clause] update_ok
    by (simp add: plan_ok_def)
qed

end

section \<open>Every operation keeps the invariant\<close>

lemma plan_ok_unchanged: "plan_ok db \<Longrightarrow> \<forall>r \<in> set (db_tasks db). \<not> p r \<Longrightarrow>
    plan_ok (db\<lparr>db_tasks := update_where p f (db_tasks db)\<rparr>)"
  by (simp add: update_where_none)

lemma StartJobTask_plan_ok: "plan_ok db \<Longrightarrow> plan_ok (snd (StartJobTask env now job key db))"
  by (auto simp: StartJobTask_def Let_def attempt_open_def task_pk_def split: sum.split
      intro!: started.plan_ok_update)

lemma HeartbeatJobTask_plan_ok:
  "owner \<noteq> [] \<Longrightarrow> plan_ok db \<Longrightarrow> plan_ok (snd (HeartbeatJobTask now job key owner lease db))"
  using heartbeat.plan_ok_same_state [of db owner job key "now + lease_seconds lease" now]
  by (auto simp: HeartbeatJobTask_def Let_def set_heartbeat_def)

lemma count_where_pk:
  assumes "distinct (map task_pk rows)" "\<And>r. p r \<Longrightarrow> task_pk r = k"
  shows "count_where p rows \<le> 1"
  using assms(1)
proof (induction rows)
  case (Cons r rows)
  show ?case
  proof (cases "p r")
    case True
    then have "count_where p rows = 0"
      using Cons.prems assms(2) by (auto simp: count_where_0 image_iff)
    then show ?thesis by simp
  next
    case False
    then show ?thesis using Cons by simp
  qed
qed simp

lemma ReleaseJobTask_plan_ok:
  assumes "plan_ok db"
  shows "plan_ok (snd (ReleaseJobTask env now job key owner reason db))"
proof (cases "count_where (held_by job key owner) (db_tasks db) = 0")
  case True
  then show ?thesis
    using plan_ok_unchanged [OF assms, of "held_by job key owner"] True [unfolded count_where_0]
    by (simp add: ReleaseJobTask_def Let_def)
next
  case False
  have "count_where (held_by job key owner) (db_tasks db) \<le> 1"
    using assms by (intro count_where_pk [of _ _ "(job, key)"]) (auto simp: plan_ok_def held_by_def)
  with False have "count_where (held_by job key owner) (db_tasks db) = 1"
    using count_where_nonneg [of "held_by job key owner" "db_tasks db"] by linarith
  then show ?thesis
    using released.plan_ok_update [OF assms, of job key owner job]
    by (simp add: ReleaseJobTask_def Let_def held_by_def task_pk_def)
qed

lemma finishJobTask_plan_ok:
  assumes "plan_ok db"
  shows "plan_ok (snd (finishJobTask env now job key owner runErr retryable cp db))"
  using assms
  by (auto simp: finishJobTask_def Let_def held_by_def task_pk_def
      simp del: insertCheckpoint_frame split: sum.split intro!: finished.plan_ok_update)

section \<open>Claiming\<close>

lemma next_task_Some:
  assumes "next_task job now db = Some c"
  shows "c \<in> set (db_tasks db)" "claimable job now c"
    "\<And>r. r \<in> set (db_tasks db) \<Longrightarrow> claimable job now r \<Longrightarrow> claim_key c \<le> claim_key r"
proof -
  let ?rows = "filter (claimable job now) (db_tasks db)"
  obtain rest where s: "sort_key claim_key ?rows = c # rest"
    using assms by (auto simp: next_task_def split: list.splits)
  have in_rows: "set (c # rest) = set ?rows"
    using s by (metis set_sort)
  then show "c \<in> set (db_tasks db)" "claimable job now c" by auto
  have "sorted (map claim_key (c # rest))"
    using s by (metis sorted_sort_key)
  then show "claim_key c \<le> claim_key r" if "r \<in> set (db_tasks db)" "claimable job now r" for r
    using in_rows that by auto
qed

lemma next_task_None:
  "next_task job now db = None \<longleftrightarrow> (\<forall>r \<in> set (db_tasks db). \<not> claimable job now r)"
proof -
  have "sort_key claim_key (filter (claimable job now) (db_tasks db)) = [] \<longleftrightarrow>
      filter (claimable job now) (db_tasks db) = []"
    by (metis length_0_conv length_sort)
  then show ?thesis
    by (auto simp: next_task_def filter_empty_conv split: list.splits)
qed

lemma find_by_key:
  assumes "distinct (map key rows)" "r \<in> set rows"
  shows "find (\<lambda>x. key x = key r) rows = Some r"
  using assms by (induction rows) (auto simp: image_iff)

lemma find_task_in:
  assumes "distinct (map task_pk (db_tasks db))" "r \<in> set (db_tasks db)"
  shows "find_task (tk_job_id r) (tk_key r) db = Some r"
  using find_by_key [OF assms] by (simp add: find_task_def task_pk_def)

lemma find_task_SomeD:
  assumes "find_task job key db = Some r"
  shows "r \<in> set (db_tasks db)" "tk_job_id r = job" "tk_key r = key"
  using assms by (auto simp: find_task_def find_Some_iff task_pk_def)

text \<open>The database in which a claim looks for work, and the one in which it found \<open>c\<close>.\<close>

definition claim_pool :: "string \<Rightarrow> int \<Rightarrow> Db \<Rightarrow> Db" where
  "claim_pool job now db = snd (reclaimExpiredTasks job now db)"

definition claim_effect :: "string \<Rightarrow> int \<Rightarrow> string \<Rightarrow> int64 \<Rightarrow> TaskRow \<Rightarrow> Db \<Rightarrow> Db" where
  "claim_effect job now owner lease c db =
     updateTaskAggregates job now ((claim_pool job now db)\<lparr>db_tasks :=
       update_where (attempt_open job (tk_key c)) (set_claimed owner (now + lease_seconds lease) now)
         (db_tasks (claim_pool job now db))\<rparr>)"

lemma claim_pool_tasks:
  "db_tasks (claim_pool job now db) =
     update_where (\<lambda>r. tk_job_id r = job \<and> expired now r) (set_reclaimed now) (db_tasks db)"
  by (simp add: claim_pool_def reclaimExpiredTasks_def)

lemma claim_pool_eq:
  "claim_pool job now db = db\<lparr>db_tasks := db_tasks (claim_pool job now db)\<rparr>"
  by (simp add: claim_pool_def reclaimExpiredTasks_def)

lemma claim_pool_distinct:
  "distinct (map task_pk (db_tasks (claim_pool job now db))) = distinct (map task_pk (db_tasks db))"
  by (simp add: claim_pool_tasks)

lemma ClaimNextJobTask_none:
  assumes "owner \<noteq> []" "next_task job now (claim_pool job now db) = None"
  shows "ClaimNextJobTask env now job owner lease db = (Inr None, claim_pool job now db)"
  using assms by (simp add: ClaimNextJobTask_def claim_pool_def)

lemma ClaimNextJobTask_some:
  assumes d: "distinct (map task_pk (db_tasks db))" and o: "owner \<noteq> []"
    and n: "next_task job now (claim_pool job now db) = Some c"
  shows "\<exists>message ctx. ClaimNextJobTask env now job owner lease db =
    (Inr (Some (scanJobTask env (set_claimed owner (now + lease_seconds lease) now c))),
     insertJobEvent env job ''task-started'' ''information'' StageSearchingMaps message ctx now
       (claim_effect job now owner lease c db))"
proof -
  let ?db1 = "claim_pool job now db"
  let ?key = "tk_key c"
  let ?set = "set_claimed owner (now + lease_seconds lease) now"
  have d1: "distinct (map task_pk (db_tasks ?db1))" using d by (simp add: claim_pool_distinct)
  note c = next_task_Some [OF n]
  have job: "tk_job_id c = job" and open_c: "attempt_open job ?key c"
    using c(2) by (auto simp: claimable_def attempt_open_def task_pk_def)
  have find_c: "find_task job ?key ?db1 = Some c"
    using find_task_in [OF d1 c(1)] by (simp add: job)
  have "count_where (attempt_open job ?key) (db_tasks ?db1) \<le> 1"
    by (rule count_where_pk [OF d1, of _ "(job, ?key)"]) (simp add: attempt_open_def)
  moreover have "count_where (attempt_open job ?key) (db_tasks ?db1) \<noteq> 0"
    using open_c c(1) by (auto simp: count_where_0)
  ultimately have one: "count_where (attempt_open job ?key) (db_tasks ?db1) = 1"
    using count_where_nonneg [of "attempt_open job ?key" "db_tasks ?db1"] by linarith
  have found: "find_task job ?key (claim_effect job now owner lease c db) = Some (?set c)"
    using find_c open_c claimed.find_update [of "(job, ?key)"]
    by (simp add: claim_effect_def find_task_def)
  have r1: "readJobTask env job ?key ?db1 = Inr (scanJobTask env c)"
    by (simp add: readJobTask_def find_c)
  have r2: "readJobTask env job ?key (insertJobEvent env job t s g m cx now
      (claim_effect job now owner lease c db)) = Inr (scanJobTask env (?set c))" for t s g m cx
    by (simp add: readJobTask_def found)
  show ?thesis
    using o n one r1 r2
    unfolding ClaimNextJobTask_def claim_pool_def [symmetric] Let_def claim_effect_def [symmetric]
    by auto
qed

lemma expired_becomes_claimable:
  assumes "r \<in> set (db_tasks db)" "tk_job_id r = job" "expired now r" "task_ok r"
  shows "\<exists>r' \<in> set (db_tasks (claim_pool job now db)). claimable job now r'"
proof
  show "set_reclaimed now r \<in> set (db_tasks (claim_pool job now db))"
    using assms(1-3) by (auto simp: claim_pool_tasks set_update_where)
  show "claimable job now (set_reclaimed now r)"
    using assms(2-4) by (auto simp: task_row_defs set_reclaimed_def split: option.splits)
qed

lemma ClaimNextJobTask_plan_ok:
  assumes p: "plan_ok db"
  shows "plan_ok (snd (ClaimNextJobTask env now job owner lease db))"
proof (cases "owner = []")
  case True
  then show ?thesis using p by (simp add: ClaimNextJobTask_def)
next
  case o: False
  have d: "distinct (map task_pk (db_tasks db))" and ok: "list_all task_ok (db_tasks db)"
    and a: "aggregates_exact db"
    using p by (simp_all add: plan_ok_def)
  show ?thesis
  proof (cases "next_task job now (claim_pool job now db)")
    case None
    then have "\<forall>r \<in> set (db_tasks db). \<not> (tk_job_id r = job \<and> expired now r)"
      using expired_becomes_claimable ok by (metis list_all_iff next_task_None)
    then have "db_tasks (claim_pool job now db) = db_tasks db"
      by (simp add: claim_pool_tasks update_where_none)
    then have "claim_pool job now db = db"
      using claim_pool_eq [of job now db] by simp
    then show ?thesis using ClaimNextJobTask_none [OF o None] p by simp
  next
    case (Some c)
    have "list_all task_ok (db_tasks (claim_pool job now db))"
      unfolding claim_pool_tasks by (rule reclaimed.update_ok [OF ok])
    then have "list_all task_ok (update_where (attempt_open job (tk_key c))
        (set_claimed owner (now + lease_seconds lease) now) (db_tasks (claim_pool job now db)))"
      using claimed.update_ok [of "db_tasks (claim_pool job now db)" owner job "tk_key c"] o by simp
    moreover have "aggregates_exact (claim_effect job now owner lease c db)"
      unfolding claim_effect_def
      by (subst claim_pool_eq, simp, rule aggregates_refresh [OF a], unfold claim_pool_tasks)
        (rule trans [OF tasks_in_other [of _ job] tasks_in_other [of _ job]];
          simp add: attempt_open_def task_pk_def set_claimed_def set_reclaimed_def)
    ultimately have "plan_ok (claim_effect job now owner lease c db)"
      using d by (simp add: plan_ok_def claim_effect_def claim_pool_tasks)
    then show ?thesis
      using ClaimNextJobTask_some [OF d o Some, of env lease] by auto
  qed
qed

section \<open>Building the plan\<close>

text \<open>The task table of one job was extended or updated, keys and rows stay well formed.\<close>

definition job_local :: "string \<Rightarrow> Db \<Rightarrow> Db \<Rightarrow> bool" where
  "job_local job db db' \<longleftrightarrow> db' = db\<lparr>db_tasks := db_tasks db'\<rparr> \<and>
     distinct (map task_pk (db_tasks db')) \<and> list_all task_ok (db_tasks db') \<and>
     (\<forall>job' p. job' \<noteq> job \<longrightarrow> tasks_in job' p (db_tasks db') = tasks_in job' p (db_tasks db))"

lemma job_local_refl: "plan_ok db \<Longrightarrow> job_local job db db"
  by (simp add: job_local_def plan_ok_def)

lemma job_local_trans: "job_local job a b \<Longrightarrow> job_local job b c \<Longrightarrow> job_local job a c"
  by (auto simp: job_local_def) (metis (full_types) Db.select_convs(4) Db.surjective Db.update_convs(4))

lemma job_local_plan_ok:
  assumes "plan_ok db" "job_local job db db'"
  shows "plan_ok (updateTaskAggregates job now db')"
proof -
  from assms(2) have e: "db' = db\<lparr>db_tasks := db_tasks db'\<rparr>" by (simp add: job_local_def)
  have "aggregates_exact (updateTaskAggregates job now (db\<lparr>db_tasks := db_tasks db'\<rparr>))"
    using assms by (intro aggregates_refresh) (auto simp: plan_ok_def job_local_def)
  then show ?thesis using assms(2) e by (simp add: plan_ok_def job_local_def)
qed

lemma find_task_None: "find_task job key db = None \<longleftrightarrow> (job, key) \<notin> task_pk ` set (db_tasks db)"
  by (auto simp: find_task_def find_None_iff image_iff)

lemma new_task_ok: "0 \<le> m \<Longrightarrow> task_ok (new_task env job d m now origin priority)"
  by (simp add: new_task_def task_row_defs)

lemma insert_task_local:
  assumes "list_all task_ok (db_tasks db)" "distinct (map task_pk (db_tasks db))" "0 \<le> m"
    "find_task job (jd_Key d) db = None"
  shows "job_local job db
    (db\<lparr>db_tasks := db_tasks db @ [new_task env job d m now origin priority]\<rparr>)"
  using assms new_task_ok [OF assms(3)]
  by (simp add: job_local_def find_task_None tasks_in_def) (simp add: new_task_def task_pk_def)

lemma prepareTask_local:
  assumes "list_all task_ok (db_tasks db)" "distinct (map task_pk (db_tasks db))" "0 \<le> m"
    "prepareTask env job m now d db = Inr db'"
  shows "job_local job db db'"
proof (cases "find_task job (jd_Key d) db")
  case None
  with assms show ?thesis
    by (auto simp: prepareTask_def split: if_splits intro: insert_task_local)
next
  case (Some r)
  with assms(4) have db': "db' = db\<lparr>db_tasks := update_where (\<lambda>r. task_pk r = (job, jd_Key d))
      (set_prepared env d m now) (db_tasks db)\<rparr>"
    by (simp add: prepareTask_def)
  have "tasks_in job' p (db_tasks db') = tasks_in job' p (db_tasks db)" if "job' \<noteq> job" for job' p
    using that unfolding db' by simp (rule tasks_in_other [of _ job]; simp add: task_pk_def set_prepared_def)
  then show ?thesis
    using assms(1-3) prepared.update_ok [of "db_tasks db" m "(job, jd_Key d)" env d now]
    by (simp add: job_local_def db')
qed

lemma prepareTasks_local:
  assumes "plan_ok db" "0 \<le> m" "job_local job db db1" "prepareTasks env job m now ds db1 = Inr db2"
  shows "job_local job db db2"
  using assms(3,4)
proof (induction ds arbitrary: db1)
  case (Cons d ds)
  then obtain db' where d: "prepareTask env job m now d db1 = Inr db'"
    "prepareTasks env job m now ds db' = Inr db2"
    by (auto split: sum.splits)
  have "job_local job db1 db'"
    using Cons.prems(1) assms(2) d(1) by (intro prepareTask_local) (auto simp: job_local_def)
  then show ?case
    using Cons.IH [OF _ d(2)] job_local_trans [OF Cons.prems(1)] by blast
qed simp

lemma PrepareJobTasks_plan_ok:
  "plan_ok db \<Longrightarrow> 0 \<le> m \<Longrightarrow> plan_ok (snd (PrepareJobTasks env now job ds m db))"
  by (auto simp: PrepareJobTasks_def Let_def split: sum.split
      intro: job_local_plan_ok prepareTasks_local [OF _ _ job_local_refl])

lemma appendTasks_local:
  assumes "0 \<le> m" "job_local job db db1"
    "appendTasks env job m now ds keys db1 = Inr (keys', db2)"
  shows "job_local job db db2 \<and> (keys' = [] \<longrightarrow> db2 = db1 \<and> keys = [])"
  using assms(2,3)
proof (induction ds arbitrary: db1 keys)
  case (Cons d ds)
  show ?case
  proof (cases "find_task job (jd_Key d) db1")
    case None
    let ?db' = "db1\<lparr>db_tasks :=
      db_tasks db1 @ [new_task env job d m now (jd_Origin d) (jd_Priority d)]\<rparr>"
    have "job_local job db1 ?db'"
      using Cons.prems(1) assms(1) None by (intro insert_task_local) (auto simp: job_local_def)
    then have "job_local job db ?db'" by (rule job_local_trans [OF Cons.prems(1)])
    moreover have "appendTasks env job m now ds (keys @ [jd_Key d]) ?db' = Inr (keys', db2)"
      using Cons.prems(2) None by (auto split: if_splits)
    ultimately show ?thesis using Cons.IH by fastforce
  next
    case (Some r)
    then have "appendTasks env job m now ds keys db1 = Inr (keys', db2)"
      using Cons.prems(2) by simp
    then show ?thesis using Cons.IH [OF Cons.prems(1)] by blast
  qed
qed simp

lemma AppendJobTasks_plan_ok:
  assumes "plan_ok db" "0 \<le> m"
  shows "plan_ok (snd (AppendJobTasks env now job ds m db))"
proof (cases "appendTasks env job m now ds [] db")
  case (Inr r)
  then obtain keys db1 where r: "appendTasks env job m now ds [] db = Inr (keys, db1)"
    by (cases r) simp
  from appendTasks_local [OF assms(2) job_local_refl [OF assms(1)] r]
  have "plan_ok (if keys \<noteq> [] then updateTaskAggregates job now db1 else db1)"
    using assms(1) job_local_plan_ok by auto
  then show ?thesis
    using assms(1) r by (cases keys) (auto simp: AppendJobTasks_def Let_def split: sum.split)
qed (use assms in \<open>simp add: AppendJobTasks_def split: sum.split\<close>)

section \<open>Reclaiming, skipping and deferring\<close>

lemma reclaimExpiredTasks_snd: "reclaimExpiredTasks job now db =
    (count_where (\<lambda>r. tk_job_id r = job \<and> expired now r) (db_tasks db), claim_pool job now db)"
  by (simp add: claim_pool_def reclaimExpiredTasks_def)

lemma claim_pool_unchanged:
  assumes "\<forall>r \<in> set (db_tasks db). \<not> (tk_job_id r = job \<and> expired now r)"
  shows "claim_pool job now db = db"
  using claim_pool_eq [of job now db] update_where_none [OF assms] by (simp add: claim_pool_tasks)

lemma ReclaimExpiredJobTasks_plan_ok:
  assumes "plan_ok db"
  shows "plan_ok (snd (ReclaimExpiredJobTasks env now job db))"
proof (cases "count_where (\<lambda>r. tk_job_id r = job \<and> expired now r) (db_tasks db) = 0")
  case True
  then have "claim_pool job now db = db"
    by (intro claim_pool_unchanged) (simp add: count_where_0)
  then show ?thesis
    using assms True by (simp add: ReclaimExpiredJobTasks_def reclaimExpiredTasks_snd)
next
  case False
  have "plan_ok (updateTaskAggregates job now (claim_pool job now db))"
    unfolding claim_pool_def reclaimExpiredTasks_def
    by (simp, rule reclaimed.plan_ok_update [OF assms]) simp
  then show ?thesis
    using False by (simp add: ReclaimExpiredJobTasks_def reclaimExpiredTasks_snd)
qed

lemma SkipPendingJobTasks_plan_ok:
  assumes "plan_ok db"
  shows "plan_ok (snd (SkipPendingJobTasks env now job reason db))"
proof (cases "count_where (\<lambda>r. tk_job_id r = job \<and> tk_state r = taskStatePending) (db_tasks db) = 0")
  case True
  then have "update_where (\<lambda>r. tk_job_id r = job \<and> tk_state r = taskStatePending) f (db_tasks db) =
      db_tasks db" for f
    by (intro update_where_none) (simp add: count_where_0)
  then show ?thesis
    using assms True by (simp add: SkipPendingJobTasks_def Let_def split: sum.split)
next
  case False
  then have "0 < count_where (\<lambda>r. tk_job_id r = job \<and> tk_state r = taskStatePending) (db_tasks db)"
    using count_where_nonneg [of "\<lambda>r. tk_job_id r = job \<and> tk_state r = taskStatePending" "db_tasks db"]
    by linarith
  moreover have "plan_ok (updateTaskAggregates job now (db\<lparr>db_tasks :=
      update_where (\<lambda>r. tk_job_id r = job \<and> tk_state r = taskStatePending)
        (set_skipped (RedactString env reason) now) (db_tasks db)\<rparr>))"
    by (rule skipped.plan_ok_update [OF assms]) simp
  ultimately show ?thesis
    using assms by (simp add: SkipPendingJobTasks_def Let_def split: sum.split)
qed

lemma DeferJobTask_plan_ok: "plan_ok db \<Longrightarrow> plan_ok (snd (DeferJobTask now job key until db))"
  using deferred.plan_ok_same_state [of db "(job, key)" until now]
  by (simp add: DeferJobTask_def set_deferred_def)

text \<open>The sweep over all jobs refreshes exactly the jobs it took tasks from.\<close>

lemma report_stale_frame [simp]:
  "db_tasks (fold (report_stale env now) sjs db) = db_tasks db"
  by (induction sjs arbitrary: db) (simp_all add: report_stale_def)

lemma taskSummary_stale [simp]:
  "taskSummary job (fold (report_stale env now) sjs db) = taskSummary job db"
  by (rule taskSummary_cong) simp

definition exact_for :: "string \<Rightarrow> Db \<Rightarrow> bool" where
  "exact_for job db \<longleftrightarrow>
     list_all (\<lambda>r. rt_job_id r = job \<longrightarrow> totals_match (taskSummary job db) r) (db_runtime db) \<and>
     list_all (\<lambda>r. pg_job_id r = job \<longrightarrow> pg_skipped_tasks r = su_Skipped (taskSummary job db))
       (db_progress db)"

lemma aggregates_exact_for: "aggregates_exact db \<longleftrightarrow> (\<forall>job. exact_for job db)"
  by (auto simp: aggregates_exact_def exact_for_def list_all_iff)

lemma exact_for_event [simp]:
  "exact_for job (insertJobEvent env j t s g m c n db) = exact_for job db"
  by (simp add: exact_for_def)

lemma exact_for_refreshed: "exact_for job (updateTaskAggregates job now db)"
  by (simp add: exact_for_def updateTaskAggregates_def Let_def list_all_update_where
      set_task_totals_def set_progress_totals_def totals_match_def taskSummary_def)
    (simp add: list_all_iff)

lemma exact_for_kept:
  assumes "exact_for job db"
  shows "exact_for job (updateTaskAggregates job' now db)"
proof (cases "job' = job")
  case False
  then have "list_all (\<lambda>r. rt_job_id r = job \<longrightarrow> totals_match s r)
        (update_where (\<lambda>r. rt_job_id r = job') (set_task_totals t now) rts) =
      list_all (\<lambda>r. rt_job_id r = job \<longrightarrow> totals_match s r) rts"
    "list_all (\<lambda>r. pg_job_id r = job \<longrightarrow> pg_skipped_tasks r = k)
        (update_where (\<lambda>r. pg_job_id r = job') (set_progress_totals t now) pgs) =
      list_all (\<lambda>r. pg_job_id r = job \<longrightarrow> pg_skipped_tasks r = k) pgs" for s t k rts pgs
    by (induction rts; induction pgs; auto simp: set_task_totals_def set_progress_totals_def)+
  then show ?thesis
    using assms by (simp add: exact_for_def updateTaskAggregates_def Let_def taskSummary_def)
qed (simp add: exact_for_refreshed)

lemma report_stale_exact: "exact_for job db \<Longrightarrow> exact_for job (fold (report_stale env now) sjs db)"
  by (induction sjs arbitrary: db) (simp_all add: report_stale_def exact_for_kept)

lemma report_stale_refreshes:
  "job \<in> fst ` set sjs \<Longrightarrow> exact_for job (fold (report_stale env now) sjs db)"
  by (induction sjs arbitrary: db)
    (auto simp: report_stale_def exact_for_refreshed intro: report_stale_exact)

lemma staleJobs_jobs: "fst ` set (staleJobs now db) = tk_job_id ` {r \<in> set (db_tasks db). expired now r}"
  by (auto simp: staleJobs_def image_image)

lemma exact_for_untouched:
  assumes "exact_for job db" "\<And>r. r \<in> set (db_tasks db) \<Longrightarrow> tk_job_id r = job \<Longrightarrow> \<not> p r"
    "\<And>r. tk_job_id (f r) = tk_job_id r"
  shows "exact_for job (db\<lparr>db_tasks := update_where p f (db_tasks db)\<rparr>)"
proof -
  have t: "tasks_in job q (update_where p f rows) = tasks_in job q rows"
    if "\<And>r. r \<in> set rows \<Longrightarrow> tk_job_id r = job \<Longrightarrow> \<not> p r" for q rows
    using that assms(3) by (induction rows) (auto simp: tasks_in_def)
  have s: "su_Total (taskSummary job (db\<lparr>db_tasks := update_where p f (db_tasks db)\<rparr>)) =
        su_Total (taskSummary job db)"
      "su_Completed (taskSummary job (db\<lparr>db_tasks := update_where p f (db_tasks db)\<rparr>)) =
        su_Completed (taskSummary job db)"
      "su_Failed (taskSummary job (db\<lparr>db_tasks := update_where p f (db_tasks db)\<rparr>)) =
        su_Failed (taskSummary job db)"
      "su_Skipped (taskSummary job (db\<lparr>db_tasks := update_where p f (db_tasks db)\<rparr>)) =
        su_Skipped (taskSummary job db)"
    using t [of "db_tasks db"] assms(2) by (simp_all add: taskSummary_def)
  show ?thesis using assms(1) by (simp add: exact_for_def totals_match_def s)
qed

lemma ReclaimStaleJobTasks_plan_ok:
  assumes "plan_ok db"
  shows "plan_ok (snd (ReclaimStaleJobTasks env now db))"
proof (cases "staleJobs now db = []")
  case True
  then show ?thesis using assms by (simp add: ReclaimStaleJobTasks_def)
next
  case False
  let ?db1 = "db\<lparr>db_tasks := update_where (expired now) (set_reclaimed now) (db_tasks db)\<rparr>"
  let ?db2 = "fold (report_stale env now) (staleJobs now db) ?db1"
  have "exact_for job ?db2" for job
  proof (cases "job \<in> fst ` set (staleJobs now db)")
    case True
    then show ?thesis by (rule report_stale_refreshes)
  next
    case False
    then have "exact_for job ?db1"
      using assms
      by (intro exact_for_untouched)
        (auto simp: plan_ok_def aggregates_exact_for staleJobs_jobs set_reclaimed_def)
    then show ?thesis by (rule report_stale_exact)
  qed
  moreover have "list_all task_ok (update_where (expired now) (set_reclaimed now) (db_tasks db))"
    using reclaimed.update_ok [of "db_tasks db" "\<lambda>r. True" now] assms by (simp add: plan_ok_def)
  moreover have "map task_pk (update_where (expired now) (set_reclaimed now) (db_tasks db)) =
      map task_pk (db_tasks db)"
    by (rule reclaimed.keys_update)
  ultimately show ?thesis
    using False assms by (simp add: ReclaimStaleJobTasks_def plan_ok_def aggregates_exact_for)
qed

end
