(* ===== verification/TaskProperties.thy ===== *)
theory TaskProperties
  imports TaskLaws
begin

text \<open>
  Histories of task-plan operations and what holds over all of them: the table invariant, the
  protection of a live lease, the budget of attempts, and the behaviour of single operations.
\<close>

section \<open>Histories\<close>

datatype plan_op =
    OpPrepare string "JobTaskDefinition list" int
  | OpAppend string "JobTaskDefinition list" int
  | OpStart string string
  | OpClaim string string int64
  | OpHeartbeat string string string int64
  | OpRelease string string string string
  | OpReclaim string
  | OpReclaimStale
  | OpComplete string string string JobTaskCheckpoint
  | OpFail string string string "string option" bool JobTaskCheckpoint
  | OpSkip string string
  | OpDefer string string int

text \<open>The error an operation reports, if any, and the database it leaves.\<close>

definition outcome_of :: "(repo_error + 'a) \<times> Db \<Rightarrow> repo_error option \<times> Db" where
  "outcome_of r = ((case fst r of Inl e \<Rightarrow> Some e | Inr _ \<Rightarrow> None), snd r)"

fun run_op :: "Env \<Rightarrow> int \<Rightarrow> plan_op \<Rightarrow> Db \<Rightarrow> repo_error option \<times> Db" where
  "run_op env now (OpPrepare job ds m) db = outcome_of (PrepareJobTasks env now job ds m db)"
| "run_op env now (OpAppend job ds m) db = outcome_of (AppendJobTasks env now job ds m db)"
| "run_op env now (OpStart job key) db = outcome_of (StartJobTask env now job key db)"
| "run_op env now (OpClaim job owner lease) db =
     outcome_of (ClaimNextJobTask env now job owner lease db)"
| "run_op env now (OpHeartbeat job key owner lease) db =
     outcome_of (HeartbeatJobTask now job key owner lease db)"
| "run_op env now (OpRelease job key owner reason) db =
     outcome_of (ReleaseJobTask env now job key owner reason db)"
| "run_op env now (OpReclaim job) db = outcome_of (ReclaimExpiredJobTasks env now job db)"
| "run_op env now OpReclaimStale db = outcome_of (ReclaimStaleJobTasks env now db)"
| "run_op env now (OpComplete job key owner cp) db =
     outcome_of (CompleteJobTaskAs env now job key owner cp db)"
| "run_op env now (OpFail job key owner e retryable cp) db =
     outcome_of (FailJobTaskAs env now job key owner e retryable cp db)"
| "run_op env now (OpSkip job reason) db = outcome_of (SkipPendingJobTasks env now job reason db)"
| "run_op env now (OpDefer job key until) db = outcome_of (DeferJobTask now job key until db)"

fun run_plan :: "Env \<Rightarrow> (int \<times> plan_op) list \<Rightarrow> Db \<Rightarrow> Db" where
  "run_plan env [] db = db"
| "run_plan env ((now, op) # steps) db = run_plan env steps (snd (run_op env now op db))"

text \<open>
  What the callers guarantee: the service passes between 1 and 100 attempts
  (\<open>Service.PrepareJobTasks\<close>), and a heartbeat carries the name the worker claimed with, which
  \<open>ClaimNextJobTask\<close> requires to be non-empty.
\<close>

fun well_called :: "plan_op \<Rightarrow> bool" where
  "well_called (OpPrepare _ _ m) \<longleftrightarrow> 0 \<le> m"
| "well_called (OpAppend _ _ m) \<longleftrightarrow> 0 \<le> m"
| "well_called (OpHeartbeat _ _ owner _) \<longleftrightarrow> owner \<noteq> []"
| "well_called _ \<longleftrightarrow> True"

lemma outcome_of_simps [simp]:
  "outcome_of (Inl e, db) = (Some e, db)" "outcome_of (Inr x, db) = (None, db)"
  "snd (outcome_of r) = snd r"
  by (simp_all add: outcome_of_def)

lemma run_op_plan_ok:
  assumes "plan_ok db" "well_called op"
  shows "plan_ok (snd (run_op env now op db))"
  using assms
  by (cases op) (simp_all add: PrepareJobTasks_plan_ok AppendJobTasks_plan_ok StartJobTask_plan_ok
      ClaimNextJobTask_plan_ok HeartbeatJobTask_plan_ok ReleaseJobTask_plan_ok
      ReclaimExpiredJobTasks_plan_ok ReclaimStaleJobTasks_plan_ok finishJobTask_plan_ok
      CompleteJobTaskAs_def FailJobTaskAs_def SkipPendingJobTasks_plan_ok DeferJobTask_plan_ok)

lemma run_plan_ok:
  "plan_ok db \<Longrightarrow> \<forall>s \<in> set steps. well_called (snd s) \<Longrightarrow> plan_ok (run_plan env steps db)"
proof (induction steps arbitrary: db)
  case (Cons s steps)
  then show ?case by (cases s) (simp add: run_op_plan_ok)
qed simp

section \<open>A live lease is respected\<close>


lemma find_task_tasks [simp]:
  "find_task job key (db\<lparr>db_tasks := ts\<rparr>) = find (\<lambda>r. task_pk r = (job, key)) ts"
  by (simp add: find_task_def)





lemma appendTasks_keeps:
  assumes "appendTasks env j m now ds keys db = Inr (keys', db')" "find_task job key db = Some r"
  shows "find_task job key db' = Some r"
  using assms
proof (induction ds arbitrary: db keys)
  case (Cons d ds)
  then show ?case
    by (fastforce simp: find_append find_task_def split: option.splits if_splits)
qed simp



section \<open>The budget of attempts\<close>

text \<open>
  What a task may still cost: the attempts left, and the attempt in progress, which a release
  or a lost lease gives back. Only building the plan can raise it.
\<close>

definition effort :: "TaskRow \<Rightarrow> int" where
  "effort r = (if settled r then 0
     else tk_max_attempts r - tk_attempts r + (if tk_state r = taskStateRunning then 1 else 0))"

definition total_effort :: "Db \<Rightarrow> int" where
  "total_effort db = sum_list (map effort (db_tasks db))"

text \<open>The contract of an update that costs nothing, beyond keeping rows well formed.\<close>

locale task_update_bounded = task_update +
  assumes effort_bound: "guard r \<Longrightarrow> task_ok r \<Longrightarrow> effort (set_clause r) \<le> effort r"
begin

lemma effort_update:
  "list_all task_ok rows \<Longrightarrow>
    sum_list (map effort (update_where guard set_clause rows)) \<le> sum_list (map effort rows)"
  by (induction rows) (auto intro: add_mono effort_bound)

end

lemmas effort_defs = effort_def task_row_defs

interpretation claimed: task_update_bounded "set_claimed owner e now"
    "\<lambda>r. owner \<noteq> [] \<and> attempt_open job key r" for owner e now job key
  by unfold_locales (auto simp: set_claimed_def effort_defs)

interpretation started: task_update_bounded "set_started now" "attempt_open job key" for now job key
  by unfold_locales (auto simp: set_started_def effort_defs)

interpretation heartbeat: task_update_bounded "set_heartbeat e now"
    "\<lambda>r. owner \<noteq> [] \<and> held_by job key owner r" for e now owner job key
  by unfold_locales (auto simp: set_heartbeat_def effort_defs)

interpretation released: task_update_bounded "set_released reason now" "held_by job key owner"
  for reason now job key owner
  by unfold_locales (auto simp: set_released_def effort_defs)

interpretation reclaimed: task_update_bounded "set_reclaimed now" "\<lambda>r. q r \<and> expired now r" for now q
  by unfold_locales (auto simp: set_reclaimed_def effort_defs)

interpretation finished: task_update_bounded "set_finished (finish_state runErr retryable) le cp now"
    "held_by job key owner" for runErr retryable le cp now job key owner
  by unfold_locales (auto simp: set_finished_def finish_state_def effort_defs split: option.splits)

interpretation skipped: task_update_bounded "set_skipped reason now"
    "\<lambda>r. tk_job_id r = job \<and> tk_state r = taskStatePending" for reason now job
  by unfold_locales (auto simp: set_skipped_def effort_defs)

interpretation deferred: task_update_bounded "set_deferred t now"
    "\<lambda>r. task_pk r = k \<and> tk_state r = taskStatePending" for t now k
  by unfold_locales (auto simp: set_deferred_def effort_defs)

lemma effort_nonneg: "task_ok r \<Longrightarrow> 0 \<le> effort r"
  by (auto simp: effort_defs)

lemma total_effort_nonneg: "plan_ok db \<Longrightarrow> 0 \<le> total_effort db"
  unfolding total_effort_def plan_ok_def list_all_iff
  by (intro sum_list_nonneg) (auto intro: effort_nonneg)

text \<open>A finished attempt is spent for good.\<close>

lemma finished_costs:
  assumes "list_all task_ok rows" "\<exists>r \<in> set rows. held_by job key owner r"
  shows "sum_list (map effort (update_where (held_by job key owner)
      (set_finished (finish_state runErr retryable) le cp now) rows)) < sum_list (map effort rows)"
proof -
  have less: "effort (set_finished (finish_state runErr retryable) le cp now r) < effort r"
    if "held_by job key owner r" "task_ok r" for r
    using that by (auto simp: set_finished_def finish_state_def effort_defs split: option.splits)
  show ?thesis
    using assms
  proof (induction rows)
    case (Cons r rows)
    show ?case
    proof (cases "held_by job key owner r")
      case True
      then show ?thesis
        using Cons.prems less finished.effort_update [of rows job key owner runErr retryable le cp now]
        by (simp add: add_less_le_mono)
    next
      case False
      then show ?thesis using Cons by simp
    qed
  qed simp
qed

fun builds_plan :: "plan_op \<Rightarrow> bool" where
  "builds_plan (OpPrepare _ _ _) \<longleftrightarrow> True"
| "builds_plan (OpAppend _ _ _) \<longleftrightarrow> True"
| "builds_plan _ \<longleftrightarrow> False"

text \<open>The operation records the end of an attempt: it succeeds on a task that was running.\<close>

fun ends_attempt :: "Env \<Rightarrow> int \<Rightarrow> plan_op \<Rightarrow> Db \<Rightarrow> bool" where
  "ends_attempt env now (OpComplete job key owner cp) db \<longleftrightarrow>
     fst (run_op env now (OpComplete job key owner cp) db) = None \<and>
     (\<exists>r. find_task job key db = Some r \<and> tk_state r = taskStateRunning)"
| "ends_attempt env now (OpFail job key owner e retryable cp) db \<longleftrightarrow>
     fst (run_op env now (OpFail job key owner e retryable cp) db) = None \<and>
     (\<exists>r. find_task job key db = Some r \<and> tk_state r = taskStateRunning)"
| "ends_attempt env now _ db \<longleftrightarrow> False"

fun attempts_ended :: "Env \<Rightarrow> (int \<times> plan_op) list \<Rightarrow> Db \<Rightarrow> int" where
  "attempts_ended env [] db = 0"
| "attempts_ended env ((now, op) # steps) db =
     (if ends_attempt env now op db then 1 else 0) +
     attempts_ended env steps (snd (run_op env now op db))"

lemma total_effort_frame [simp]:
  "total_effort (updateTaskAggregates j now db) = total_effort db"
  "total_effort (insertJobEvent env j t s g m c n db) = total_effort db"
  "total_effort (insertCheckpoint j t cp now db) = total_effort db"
  "total_effort (fold (report_stale env now) sjs db) = total_effort db"
  "total_effort (db\<lparr>db_runtime := rts\<rparr>) = total_effort db"
  "total_effort (db\<lparr>db_tasks := ts\<rparr>) = sum_list (map effort ts)"
  by (simp_all add: total_effort_def)

lemma claim_pool_effort:
  "list_all task_ok (db_tasks db) \<Longrightarrow> total_effort (claim_pool j now db) \<le> total_effort db"
  using reclaimed.effort_update [of "db_tasks db" "\<lambda>r. tk_job_id r = j" now]
  by (simp add: total_effort_def claim_pool_tasks)

lemma ClaimNextJobTask_effort:
  assumes "plan_ok db"
  shows "total_effort (snd (ClaimNextJobTask env now j owner lease db)) \<le> total_effort db"
proof (cases "owner = []")
  case True
  then show ?thesis by (simp add: ClaimNextJobTask_def)
next
  case o: False
  have d: "distinct (map task_pk (db_tasks db))" and ok: "list_all task_ok (db_tasks db)"
    using assms by (simp_all add: plan_ok_def)
  note pool = claim_pool_effort [OF ok, of j now]
  show ?thesis
  proof (cases "next_task j now (claim_pool j now db)")
    case None
    then show ?thesis using ClaimNextJobTask_none [OF o None] pool by simp
  next
    case (Some c)
    have "list_all task_ok (db_tasks (claim_pool j now db))"
      unfolding claim_pool_tasks by (rule reclaimed.update_ok [OF ok])
    then have "total_effort (claim_effect j now owner lease c db) \<le> total_effort (claim_pool j now db)"
      using claimed.effort_update [of "db_tasks (claim_pool j now db)" owner j "tk_key c"] o
      by (simp add: claim_effect_def) (simp add: total_effort_def)
    then show ?thesis
      using ClaimNextJobTask_some [OF d o Some, of env lease] pool by auto
  qed
qed

section \<open>Finishing, in full\<close>

lemma held_count:
  assumes "plan_ok db" "find_task job key db = Some r"
  shows "count_where (held_by job key owner) (db_tasks db) = 1 \<longleftrightarrow>
    tk_state r = taskStateRunning \<and> tk_lease_owner r = owner"
proof -
  have d: "distinct (map task_pk (db_tasks db))" using assms(1) by (simp add: plan_ok_def)
  note r = find_task_SomeD [OF assms(2)]
  have le: "count_where (held_by job key owner) (db_tasks db) \<le> 1"
    by (rule count_where_pk [OF d, of _ "(job, key)"]) (simp add: held_by_def)
  have u: "x = r" if "x \<in> set (db_tasks db)" "held_by job key owner x" for x
    using find_task_in [OF d that(1)] that(2) assms(2) by (auto simp: held_by_def task_pk_def)
  show ?thesis
  proof (cases "held_by job key owner r")
    case True
    then have "count_where (held_by job key owner) (db_tasks db) \<noteq> 0"
      using r(1) by (auto simp: count_where_0)
    then have "count_where (held_by job key owner) (db_tasks db) = 1"
      using le count_where_nonneg [of "held_by job key owner" "db_tasks db"] by linarith
    then show ?thesis using True by (simp add: held_by_def)
  next
    case False
    then have "count_where (held_by job key owner) (db_tasks db) = 0"
      using u by (auto simp: count_where_0)
    then show ?thesis using False r by (auto simp: held_by_def task_pk_def)
  qed
qed

lemma finishJobTask_cases:
  assumes "plan_ok db"
  obtains (missing) "find_task job key db = None"
      "finishJobTask env now job key owner runErr retryable cp db =
        (Inl (ErrCheckpointTaskNotFound key), db)"
    | (already) r where "find_task job key db = Some r" "runErr = None" "tk_state r = taskStateCompleted"
      "finishJobTask env now job key owner runErr retryable cp db = (Inr (), db)"
    | (idle) r where "find_task job key db = Some r" "tk_state r \<noteq> taskStateRunning"
      "runErr \<noteq> None \<or> tk_state r \<noteq> taskStateCompleted"
      "finishJobTask env now job key owner runErr retryable cp db =
        (Inl (ErrTaskNotRunning key (tk_state r)), db)"
    | (lost) r where "find_task job key db = Some r" "tk_state r = taskStateRunning"
      "tk_lease_owner r \<noteq> owner"
      "finishJobTask env now job key owner runErr retryable cp db =
        (Inl (ErrCheckpointLeaseLost key), db)"
    | (held) r db' where "find_task job key db = Some r" "tk_state r = taskStateRunning"
      "tk_lease_owner r = owner"
      "finishJobTask env now job key owner runErr retryable cp db = (Inr (), db')"
      "db_tasks db' = update_where (held_by job key owner)
         (set_finished (finish_state runErr retryable)
           (case runErr of None \<Rightarrow> [] | Some e \<Rightarrow> RedactString env e)
           (cp\<lparr>cp_State := finish_state runErr retryable\<rparr>) now) (db_tasks db)"
proof (cases "find_task job key db")
  case None
  then show ?thesis by (intro missing) (simp_all add: finishJobTask_def readJobTask_def)
next
  case (Some r)
  note c = held_count [OF assms Some, of owner]
  have s: "jt_State (scanJobTask env r) = tk_state r" by (simp add: scanJobTask_def)
  consider "runErr = None" "tk_state r = taskStateCompleted"
    | "tk_state r \<noteq> taskStateRunning" "runErr \<noteq> None \<or> tk_state r \<noteq> taskStateCompleted"
    | "tk_state r = taskStateRunning" "tk_lease_owner r \<noteq> owner"
    | "tk_state r = taskStateRunning" "tk_lease_owner r = owner"
    by blast
  then show ?thesis
  proof cases
    case 1
    with Some s show ?thesis by (intro already) (simp_all add: finishJobTask_def readJobTask_def)
  next
    case 2
    with Some s show ?thesis by (intro idle) (auto simp: finishJobTask_def readJobTask_def)
  next
    case 3
    with Some s c show ?thesis by (intro lost) (simp_all add: finishJobTask_def readJobTask_def)
  next
    case 4
    with c have "count_where (held_by job key owner) (db_tasks db) = 1" by simp
    with Some s 4 show ?thesis
      by (intro held [of r "snd (finishJobTask env now job key owner runErr retryable cp db)"])
        (simp_all add: finishJobTask_def readJobTask_def Let_def)
  qed
qed

lemma finishJobTask_effort:
  assumes p: "plan_ok db"
  shows "total_effort (snd (finishJobTask env now job key owner runErr retryable cp db)) +
      (if fst (finishJobTask env now job key owner runErr retryable cp db) = Inr () \<and>
          (\<exists>r. find_task job key db = Some r \<and> tk_state r = taskStateRunning) then 1 else 0)
    \<le> total_effort db"
  using p
proof (cases rule: finishJobTask_cases [of db job key env now owner runErr retryable cp])
  case (held r db')
  have "\<exists>r \<in> set (db_tasks db). held_by job key owner r"
    using held find_task_SomeD [OF held(1)] by (auto simp: held_by_def task_pk_def)
  then have "total_effort db' < total_effort db"
    using p finished_costs [of "db_tasks db" job key owner] held(5)
    by (simp add: plan_ok_def total_effort_def)
  then show ?thesis using held by simp
qed simp_all

lemma run_op_effort:
  assumes p: "plan_ok db" and w: "well_called op" "\<not> builds_plan op"
  shows "total_effort (snd (run_op env now op db)) + (if ends_attempt env now op db then 1 else 0)
    \<le> total_effort db"
proof -
  have ok: "list_all task_ok (db_tasks db)" using p by (simp add: plan_ok_def)
  show ?thesis
  proof (cases op)
    case (OpStart j k)
    then show ?thesis
      using started.effort_update [OF ok, of j k now]
      by (simp add: StartJobTask_def Let_def total_effort_def split: sum.split)
  next
    case (OpClaim j ow lease)
    then show ?thesis using ClaimNextJobTask_effort [OF p] by simp
  next
    case (OpHeartbeat j k ow lease)
    then show ?thesis
      using w heartbeat.effort_update [OF ok, of ow j k "now + lease_seconds lease" now]
      by (simp add: HeartbeatJobTask_def Let_def total_effort_def)
  next
    case (OpRelease j k ow reason)
    then show ?thesis
      using released.effort_update [OF ok, of j k ow "RedactString env reason" now]
      by (simp add: ReleaseJobTask_def Let_def total_effort_def)
  next
    case (OpReclaim j)
    then show ?thesis
      using claim_pool_effort [OF ok, of j now]
      by (simp add: ReclaimExpiredJobTasks_def reclaimExpiredTasks_snd)
  next
    case OpReclaimStale
    then show ?thesis
      using reclaimed.effort_update [OF ok, of "\<lambda>r. True" now]
      by (simp add: ReclaimStaleJobTasks_def Let_def total_effort_def)
  next
    case (OpComplete j k ow cp)
    then show ?thesis
      using finishJobTask_effort [OF p, of env now j k ow None False cp]
      by (auto simp: CompleteJobTaskAs_def outcome_of_def split: if_splits sum.splits)
  next
    case (OpFail j k ow e retryable cp)
    then show ?thesis
      using finishJobTask_effort [OF p, of env now j k ow
          "case e of None \<Rightarrow> Some ''task attempt failed'' | Some e \<Rightarrow> Some e" retryable cp]
      by (auto simp: FailJobTaskAs_def outcome_of_def split: if_splits sum.splits)
  next
    case (OpSkip j reason)
    then show ?thesis
      using skipped.effort_update [OF ok, of j "RedactString env reason" now]
      by (simp add: SkipPendingJobTasks_def Let_def total_effort_def split: sum.split)
  next
    case (OpDefer j k until)
    then show ?thesis
      using deferred.effort_update [OF ok, of "(j, k)" until now]
      by (simp add: DeferJobTask_def total_effort_def)
  qed (use w in simp_all)
qed

lemma attempts_ended_bound:
  assumes "plan_ok db" "\<forall>s \<in> set steps. well_called (snd s) \<and> \<not> builds_plan (snd s)"
  shows "attempts_ended env steps db \<le> total_effort db"
  using assms
proof (induction steps arbitrary: db)
  case Nil
  then show ?case by (simp add: total_effort_nonneg)
next
  case (Cons s steps)
  obtain now op where s: "s = (now, op)" by (cases s)
  have "attempts_ended env steps (snd (run_op env now op db)) \<le> total_effort (snd (run_op env now op db))"
    using Cons s by (intro Cons.IH) (simp_all add: run_op_plan_ok)
  moreover have "total_effort (snd (run_op env now op db)) +
      (if ends_attempt env now op db then 1 else 0) \<le> total_effort db"
    using Cons.prems s by (intro run_op_effort) simp_all
  ultimately show ?case using s by simp
qed

section \<open>Settled work\<close>

text \<open>A completed or skipped task under a key, with its state and checkpoint.\<close>

definition settled_as :: "string \<Rightarrow> string \<Rightarrow> string \<Rightarrow> JobTaskCheckpoint option \<Rightarrow> Db \<Rightarrow> bool" where
  "settled_as job key state cp db \<longleftrightarrow>
     (\<exists>r. find_task job key db = Some r \<and> settled r \<and> tk_state r = state \<and> tk_checkpoint r = cp)"

lemma settled_as_frame [simp]:
  "settled_as job key st cp (updateTaskAggregates j now db) = settled_as job key st cp db"
  "settled_as job key st cp (insertJobEvent env j t s g m c n db) = settled_as job key st cp db"
  "settled_as job key st cp (insertCheckpoint j t c' n db) = settled_as job key st cp db"
  "settled_as job key st cp (db\<lparr>db_runtime := rts\<rparr>) = settled_as job key st cp db"
  "settled_as job key st cp (fold (report_stale env now) sjs db) = settled_as job key st cp db"
  by (simp_all add: settled_as_def find_task_def)

context task_update
begin

lemma settled_as_update:
  assumes "settled_as job key st cp db"
  shows "settled_as job key st cp (db\<lparr>db_tasks := update_where guard set_clause (db_tasks db)\<rparr>)"
proof -
  obtain r where r: "find_task job key db = Some r" "settled r" "tk_state r = st" "tk_checkpoint r = cp"
    using assms by (auto simp: settled_as_def)
  then have "find (\<lambda>r. task_pk r = (job, key)) (db_tasks db) = Some r"
    by (simp add: find_task_def)
  from update_settled [OF this r(2)] r show ?thesis
    by (auto simp: settled_as_def settled_def)
qed

end

lemma settled_as_guarded:
  assumes "settled_as job key st cp db" "\<And>r. p r \<Longrightarrow> \<not> settled r" "\<And>r. task_pk (f r) = task_pk r"
  shows "settled_as job key st cp (db\<lparr>db_tasks := update_where p f (db_tasks db)\<rparr>)"
proof -
  have "find (\<lambda>r. task_pk r = k) (update_where p f rows) =
      map_option (\<lambda>r. if p r then f r else r) (find (\<lambda>r. task_pk r = k) rows)" for k rows
    using assms(3) by (induction rows) auto
  moreover obtain r where r: "find (\<lambda>r. task_pk r = (job, key)) (db_tasks db) = Some r" "settled r"
      "tk_state r = st" "tk_checkpoint r = cp"
    using assms(1) by (auto simp: settled_as_def find_task_def)
  moreover have "\<not> p r" using assms(2) r(2) by blast
  ultimately show ?thesis by (simp add: settled_as_def)
qed

lemma claim_pool_settled:
  "settled_as job key st cp db \<Longrightarrow> settled_as job key st cp (claim_pool j now db)"
  unfolding claim_pool_def reclaimExpiredTasks_def snd_conv
  by (rule settled_as_guarded) (auto simp: set_reclaimed_def task_row_defs)

lemma ClaimNextJobTask_settled:
  assumes "settled_as job key st cp db"
  shows "settled_as job key st cp (snd (ClaimNextJobTask env now j owner lease db))"
proof -
  note p = claim_pool_settled [OF assms, of j now]
  have "settled_as job key st cp ((claim_pool j now db)\<lparr>db_tasks :=
      update_where (attempt_open j k) (set_claimed owner e now) (db_tasks (claim_pool j now db))\<rparr>)" for k e
    by (rule settled_as_guarded [OF p]) (auto simp: set_claimed_def task_row_defs)
  then show ?thesis
    using assms p unfolding ClaimNextJobTask_def claim_pool_def [symmetric] Let_def
    by (auto split: option.split sum.split)
qed

lemma prepareTasks_settled:
  assumes "prepareTasks env j m now ds db = Inr db'" "0 \<le> m" "settled_as job key st cp db"
  shows "settled_as job key st cp db'"
  using assms
proof (induction ds arbitrary: db)
  case (Cons d ds)
  then obtain db1 where d: "prepareTask env j m now d db = Inr db1"
    "prepareTasks env j m now ds db1 = Inr db'"
    by (auto split: sum.splits)
  have "settled_as job key st cp db1"
    using d(1) Cons.prems(2,3) prepared.settled_as_update [of job key st cp db m "(j, jd_Key d)" env d now]
    by (auto simp: prepareTask_def settled_as_def find_append find_task_def
        split: option.splits if_splits)
  with Cons d(2) show ?case by auto
qed simp

lemma appendTasks_settled:
  assumes "appendTasks env j m now ds keys db = Inr (keys', db')" "settled_as job key st cp db"
  shows "settled_as job key st cp db'"
  using assms appendTasks_keeps [OF assms(1)] by (auto simp: settled_as_def)

lemma run_op_settled:
  assumes s: "settled_as job key st cp db" and w: "well_called op"
  shows "settled_as job key st cp (snd (run_op env now op db))"
proof (cases op)
  case (OpPrepare j ds m)
  then show ?thesis
    using s w prepareTasks_settled [of env j m now ds db _ job key st cp]
    by (auto simp: PrepareJobTasks_def Let_def split: sum.split)
next
  case (OpAppend j ds m)
  then show ?thesis
    using s appendTasks_settled [of env j m now ds "[]" db _ _ job key st cp]
    by (auto simp: AppendJobTasks_def Let_def split: sum.split)
next
  case (OpClaim j owner lease)
  then show ?thesis using ClaimNextJobTask_settled [OF s] by simp
next
  case (OpReclaim j)
  then show ?thesis
    using claim_pool_settled [OF s] by (simp add: ReclaimExpiredJobTasks_def reclaimExpiredTasks_snd)
next
  case OpReclaimStale
  then show ?thesis
    using s by (simp add: ReclaimStaleJobTasks_def Let_def)
      (intro impI settled_as_guarded, auto simp: set_reclaimed_def task_row_defs)
next
  case (OpSkip j reason)
  have "settled_as job key st cp (db\<lparr>db_tasks := update_where
      (\<lambda>r. tk_job_id r = j \<and> tk_state r = taskStatePending) (set_skipped x now) (db_tasks db)\<rparr>)" for x
    by (rule skipped.settled_as_update [OF s])
  then show ?thesis
    using OpSkip s by (simp add: SkipPendingJobTasks_def Let_def split: sum.split)
next
  case (OpHeartbeat j k ow lease)
  then show ?thesis
    using w heartbeat.settled_as_update [OF s, of ow j k] by (simp add: HeartbeatJobTask_def Let_def)
qed (use s started.settled_as_update [OF s] released.settled_as_update [OF s]
      finished.settled_as_update [OF s] deferred.settled_as_update [OF s] in
    \<open>simp_all add: StartJobTask_def ReleaseJobTask_def CompleteJobTaskAs_def FailJobTaskAs_def
      finishJobTask_def DeferJobTask_def Let_def split: sum.split\<close>)

lemma run_plan_settled:
  "settled_as job key st cp db \<Longrightarrow> \<forall>s \<in> set steps. well_called (snd s) \<Longrightarrow>
    settled_as job key st cp (run_plan env steps db)"
proof (induction steps arbitrary: db)
  case (Cons s steps)
  then show ?case by (cases s) (simp add: run_op_settled)
qed simp

section \<open>A plan to evaluate on\<close>

definition plain_env :: Env where
  "plain_env = \<lparr>RedactString = (\<lambda>s. s), RedactValue = (\<lambda>c. c), Sum256 = (\<lambda>s. s)\<rparr>"

definition sample_task :: "string \<Rightarrow> string \<Rightarrow> TaskRow" where
  "sample_task key owner =
     \<lparr>tk_id = key, tk_job_id = ''job'', tk_key = key, tk_kind = ''maps'', tk_state = taskStateRunning,
      tk_sequence = 0, tk_query = ''q'', tk_source_cell = [], tk_input_id = [], tk_payload = ''{}'',
      tk_checkpoint = None, tk_attempts = 1, tk_max_attempts = 3, tk_last_error = [],
      tk_origin = [], tk_priority = 0, tk_lease_owner = owner, tk_lease_expires_at = Some 160,
      tk_heartbeat_at = Some 100, tk_not_before = None, tk_started_at = Some 100,
      tk_finished_at = None, tk_created_at = 50, tk_updated_at = 100\<rparr>"

definition sample_db :: Db where
  "sample_db =
     \<lparr>db_jobs = [], db_runtime = [], db_progress = [], db_tasks = [sample_task ''a'' ''w1''],
      db_checkpoints = [], db_events = [], db_configs = [], db_event_seq = 0,
      db_checkpoint_seq = 0\<rparr>"

definition sample_checkpoint :: JobTaskCheckpoint where
  "sample_checkpoint = \<lparr>cp_State = [], cp_RowsAdded = 0, cp_RowsReplaced = 0,
     cp_DuplicatesSkipped = 0, cp_DiskFreeBytes = 0, cp_Truncated = False, cp_TruncationCap = 0\<rparr>"

lemma sample_db_ok: "plan_ok sample_db"
  by (simp add: plan_ok_def sample_db_def sample_task_def task_row_defs aggregates_exact_def)

lemma sample_db_find: "find_task ''job'' ''a'' sample_db = Some (sample_task ''a'' ''w1'')"
  by (simp add: find_task_def sample_db_def sample_task_def task_pk_def)

section \<open>Properties\<close>



text \<open>
  C6: the task table stays sound over every history of operations, replanning included, as long as they
  are called as the runner calls them: no negative maximum of attempts, no heartbeat without an owner. Keys stay unique; the attempts of
  a task that is neither completed nor skipped stay between 0 and its maximum (of the others only
  that they are not negative: a replan may lower their maximum below what they have used); a running task has consumed an attempt; and
  the totals the runtime and progress rows report are exactly the counts of the task rows.
\<close>

theorem plan_invariant:
  assumes "plan_ok db" "\<forall>s \<in> set steps. well_called (snd s)"
  shows "distinct (map task_pk (db_tasks (run_plan env steps db))) \<and>
    list_all task_ok (db_tasks (run_plan env steps db)) \<and>
    aggregates_exact (run_plan env steps db)"
  using run_plan_ok [OF assms] by (simp add: plan_ok_def)

theorem plan_invariant_witness:
  "aggregates_exact (run_plan plain_env
     [(200, OpClaim ''job'' ''w2'' 30000000000), (201, OpRelease ''job'' ''a'' ''w2'' ''stop'')] sample_db)"
  using plan_invariant [OF sample_db_ok, of "[(200, OpClaim ''job'' ''w2'' 30000000000),
    (201, OpRelease ''job'' ''a'' ''w2'' ''stop'')]"] by simp

text \<open>
  A worker that died cannot strand work. Once the lease of any task of the job has run out,
  the next claim, by whatever worker, finds a task.
\<close>

theorem dead_worker_recovered:
  assumes "plan_ok db" "owner \<noteq> []" "find_task job key db = Some r" "expired now r"
  shows "\<exists>t db'. ClaimNextJobTask env now job owner lease db = (Inr (Some t), db')"
proof -
  note r = find_task_SomeD [OF assms(3)]
  have d: "distinct (map task_pk (db_tasks db))" and "task_ok r"
    using assms(1) r(1) by (auto simp: plan_ok_def list_all_iff)
  then obtain c where "next_task job now (claim_pool job now db) = Some c"
    using expired_becomes_claimable [OF r(1,2) assms(4)] next_task_None [of job now "claim_pool job now db"]
    by (cases "next_task job now (claim_pool job now db)") auto
  from ClaimNextJobTask_some [OF d assms(2) this] show ?thesis by blast
qed

theorem dead_worker_recovered_witness:
  "\<exists>t db'. ClaimNextJobTask plain_env 161 ''job'' ''w2'' 30000000000 sample_db = (Inr (Some t), db')"
  by (rule dead_worker_recovered [OF sample_db_ok _ sample_db_find])
    (simp_all add: sample_task_def expired_def)

text \<open>
  A claim takes the first runnable task and nothing else. The task returned was claimable after
  the expired leases of the job were given back, no claimable task comes before it in the
  order of priority, sequence, creation and key, its row now carries the caller as owner
  with one more attempt within the maximum, and every other task is as it was after the
  reclaim. The claim reports no work exactly when no task of the job is claimable or expired.
\<close>

theorem claim_takes_first:
  assumes "plan_ok db" "owner \<noteq> []"
    "ClaimNextJobTask env now job owner lease db = (Inr result, db')"
  shows "case result of
      None \<Rightarrow> (\<forall>r \<in> set (db_tasks db). \<not> claimable job now r \<and> \<not> (tk_job_id r = job \<and> expired now r)) \<and>
        db' = db
    | Some t \<Rightarrow> \<exists>c. c \<in> set (db_tasks (claim_pool job now db)) \<and> claimable job now c \<and>
        (\<forall>r \<in> set (db_tasks (claim_pool job now db)). claimable job now r \<longrightarrow> claim_key c \<le> claim_key r) \<and>
        t = scanJobTask env (set_claimed owner (now + lease_seconds lease) now c) \<and>
        find_task job (tk_key c) db' = Some (set_claimed owner (now + lease_seconds lease) now c) \<and>
        tk_attempts (set_claimed owner (now + lease_seconds lease) now c) \<le> tk_max_attempts c \<and>
        (\<forall>j k. (j, k) \<noteq> (job, tk_key c) \<longrightarrow> find_task j k db' = find_task j k (claim_pool job now db))"
proof -
  have d: "distinct (map task_pk (db_tasks db))" and ok: "list_all task_ok (db_tasks db)"
    using assms(1) by (simp_all add: plan_ok_def)
  show ?thesis
  proof (cases "next_task job now (claim_pool job now db)")
    case None
    then have e: "\<forall>r \<in> set (db_tasks db). \<not> (tk_job_id r = job \<and> expired now r)"
      using expired_becomes_claimable ok by (metis list_all_iff next_task_None)
    then have "claim_pool job now db = db" by (rule claim_pool_unchanged)
    then show ?thesis
      using None e ClaimNextJobTask_none [OF assms(2) None, of env lease] assms(3) next_task_None
      by auto
  next
    case (Some c)
    note c = next_task_Some [OF Some]
    obtain m x where r: "result = Some (scanJobTask env (set_claimed owner (now + lease_seconds lease) now c))"
      "db' = insertJobEvent env job ''task-started'' ''information'' StageSearchingMaps m x now
        (claim_effect job now owner lease c db)"
      using ClaimNextJobTask_some [OF d assms(2) Some, of env lease] assms(3) by auto
    have job: "tk_job_id c = job" and o: "attempt_open job (tk_key c) c"
      using c(2) by (auto simp: claimable_def attempt_open_def task_pk_def)
    have f: "find_task job (tk_key c) (claim_pool job now db) = Some c"
      using find_task_in [of "claim_pool job now db" c] d c(1) job by (simp add: claim_pool_distinct)
    have all: "find_task j k db' = map_option (\<lambda>r. if attempt_open job (tk_key c) r
        then set_claimed owner (now + lease_seconds lease) now r else r)
        (find_task j k (claim_pool job now db))" for j k
      by (simp add: r(2) claim_effect_def claimed.find_update find_task_def [of _ _ "claim_pool job now db"])
    have "find_task j k db' = find_task j k (claim_pool job now db)" if "(j, k) \<noteq> (job, tk_key c)" for j k
    proof (cases "find_task j k (claim_pool job now db)")
      case (Some r')
      then have "task_pk r' = (j, k)" by (auto simp: find_task_def find_Some_iff)
      then show ?thesis using that by (auto simp: all Some attempt_open_def)
    qed (simp add: all)
    moreover have "find_task job (tk_key c) db' =
        Some (set_claimed owner (now + lease_seconds lease) now c)"
      by (simp add: all f o)
    moreover have "tk_attempts (set_claimed owner (now + lease_seconds lease) now c) \<le> tk_max_attempts c"
      using c(2) by (simp add: set_claimed_def claimable_def)
    ultimately show ?thesis using r(1) c by auto
  qed
qed

theorem claim_takes_first_witness:
  "snd (ClaimNextJobTask plain_env 150 ''job'' ''w2'' 30000000000 sample_db) = sample_db"
proof -
  have "next_task ''job'' 150 (claim_pool ''job'' 150 sample_db) = None"
    by (simp add: next_task_None claim_pool_tasks sample_db_def sample_task_def task_row_defs)
  then have n: "ClaimNextJobTask plain_env 150 ''job'' ''w2'' 30000000000 sample_db =
      (Inr None, claim_pool ''job'' 150 sample_db)"
    by (intro ClaimNextJobTask_none) simp_all
  show ?thesis
    using claim_takes_first [OF sample_db_ok _ n] by (simp add: n)
qed

lemma finished_by_holder:
  assumes "plan_ok db" "find_task job key db = Some r" "tk_state r = taskStateRunning" "tk_lease_owner r = owner"
  obtains db' r' where "finishJobTask env now job key owner runErr retryable cp db = (Inr (), db')"
    "find_task job key db' = Some r'" "tk_state r' = finish_state runErr retryable" "tk_lease_owner r' = []"
    "tk_checkpoint r' = Some (cp\<lparr>cp_State := finish_state runErr retryable\<rparr>)"
    "filter (\<lambda>t. task_pk t \<noteq> (job, key)) (db_tasks db') = filter (\<lambda>t. task_pk t \<noteq> (job, key)) (db_tasks db)"
  using assms(1)
proof (cases rule: finishJobTask_cases [of db job key env now owner runErr retryable cp])
  case (held r' db')
  let ?state = "finish_state runErr retryable"
  let ?f = "set_finished ?state (case runErr of None \<Rightarrow> [] | Some e \<Rightarrow> RedactString env e) (cp\<lparr>cp_State := ?state\<rparr>) now"
  have "held_by job key owner r"
    using assms find_task_SomeD [OF assms(2)] by (simp add: held_by_def task_pk_def)
  then have "find_task job key db' = Some (?f r)"
    using assms(2) finished.find_update [of "(job, key)" "held_by job key owner" runErr retryable]
    by (simp add: find_task_def held(5))
  moreover have "filter (\<lambda>t. task_pk t \<noteq> (job, key)) (update_where (held_by job key owner) ?f rows) =
      filter (\<lambda>t. task_pk t \<noteq> (job, key)) rows" for rows
    by (induction rows) (auto simp: update_where_def held_by_def task_pk_def set_finished_def)
  ultimately show thesis using held(4,5) that [of db' "?f r"] by (simp add: set_finished_def)
qed (use assms in auto)

text \<open>
  C12: only the holder can finish a task, whatever became of the task meanwhile. A worker that is not the
  owner recorded in a running row changes nothing, in any table, whether it reports success or
  failure. If another worker runs the task it gets \<open>ErrCheckpointLeaseLost\<close>; if the task waits again or is
  settled, the error names its state; only reporting the success of a task that is completed
  already is answered without an error. The holder succeeds: its row takes the new state and the
  checkpoint and gives up the lease, and no other task changes.
\<close>

theorem stale_finish_rejected:
  fixes owner :: string and cp :: JobTaskCheckpoint
  assumes "plan_ok db" "find_task job key db = Some r"
  defines "holds \<equiv> tk_state r = taskStateRunning \<and> tk_lease_owner r = owner"
    and "refusal \<equiv> if tk_state r = taskStateRunning then ErrCheckpointLeaseLost key else ErrTaskNotRunning key (tk_state r)"
    and "finishes \<equiv> \<lambda>answer state. \<exists>db' r'. answer = (Inr (), db') \<and> find_task job key db' = Some r' \<and>
      tk_state r' = state \<and> tk_lease_owner r' = [] \<and> tk_checkpoint r' = Some (cp\<lparr>cp_State := state\<rparr>) \<and>
      filter (\<lambda>t. task_pk t \<noteq> (job, key)) (db_tasks db') = filter (\<lambda>t. task_pk t \<noteq> (job, key)) (db_tasks db)"
  shows "(\<not> holds \<longrightarrow>
      CompleteJobTaskAs env now job key owner cp db =
        (if tk_state r = taskStateCompleted then Inr () else Inl refusal, db) \<and>
      FailJobTaskAs env now job key owner e retryable cp db = (Inl refusal, db)) \<and>
    (holds \<longrightarrow>
      finishes (CompleteJobTaskAs env now job key owner cp db) taskStateCompleted \<and>
      finishes (FailJobTaskAs env now job key owner e retryable cp db)
        (if retryable then taskStatePending else taskStateFailed))"
proof (intro conjI impI)
  assume n: "\<not> holds"
  have "finishJobTask env now job key owner runErr rt cp db =
      (if runErr = None \<and> tk_state r = taskStateCompleted then Inr () else Inl refusal, db)" for runErr rt
    using assms(1) by (cases rule: finishJobTask_cases [of db job key env now owner runErr rt cp])
      (use assms(2) n in \<open>auto simp: holds_def refusal_def\<close>)
  then show "CompleteJobTaskAs env now job key owner cp db =
      (if tk_state r = taskStateCompleted then Inr () else Inl refusal, db)"
    "FailJobTaskAs env now job key owner e retryable cp db = (Inl refusal, db)"
    by (simp_all add: CompleteJobTaskAs_def FailJobTaskAs_def split: option.split)
next
  assume "holds"
  then have h: "tk_state r = taskStateRunning" "tk_lease_owner r = owner" by (simp_all add: holds_def)
  have "finishes (finishJobTask env now job key owner runErr rt cp db) (finish_state runErr rt)" for runErr rt
    unfolding finishes_def by (rule finished_by_holder [OF assms(1,2) h]) blast
  from this [of None False] this [of "Some (case e of None \<Rightarrow> ''task attempt failed'' | Some x \<Rightarrow> x)" retryable]
  show "finishes (CompleteJobTaskAs env now job key owner cp db) taskStateCompleted"
    "finishes (FailJobTaskAs env now job key owner e retryable cp db)
      (if retryable then taskStatePending else taskStateFailed)"
    by (cases e; simp add: CompleteJobTaskAs_def FailJobTaskAs_def finish_state_def)+
qed

theorem stale_finish_rejected_witness:
  "CompleteJobTaskAs plain_env 150 ''job'' ''a'' ''w2'' sample_checkpoint sample_db =
     (Inl (ErrCheckpointLeaseLost ''a''), sample_db) \<and>
   (\<exists>db'. CompleteJobTaskAs plain_env 150 ''job'' ''a'' ''w1'' sample_checkpoint sample_db = (Inr (), db'))"
  using stale_finish_rejected [OF sample_db_ok sample_db_find, where owner = "''w2''" and cp = sample_checkpoint
      and now = 150 and env = plain_env and e = None and retryable = False]
    stale_finish_rejected [OF sample_db_ok sample_db_find, where owner = "''w1''" and cp = sample_checkpoint
      and now = 150 and env = plain_env and e = None and retryable = False]
  by (simp add: sample_task_def) blast

text \<open>
  C32: a plan cannot be worked on for ever. From a sound plan on and until it is prepared again or
  extended, the attempts that end, successfully or not, in any interleaving of workers, crashes,
  releases and sweeps are at most the sum over the unsettled tasks of the attempts they had left
  (counting an attempt in progress, which a release or a lost lease gives back).
\<close>

theorem attempts_bounded:
  assumes "plan_ok db" "\<forall>s \<in> set steps. well_called (snd s) \<and> \<not> builds_plan (snd s)"
  shows "attempts_ended env steps db \<le> total_effort db"
  using assms by (rule attempts_ended_bound)

theorem attempts_bounded_witness:
  "attempts_ended plain_env (replicate 10 (120, OpFail ''job'' ''a'' ''w1'' None True sample_checkpoint))
     sample_db \<le> 3"
  using attempts_bounded [OF sample_db_ok, of
      "replicate 10 (120, OpFail ''job'' ''a'' ''w1'' None True sample_checkpoint)" plain_env]
  by (simp add: total_effort_def sample_db_def sample_task_def effort_def settled_def)

text \<open>
  C13: finished work is never redone. A task that was completed or skipped keeps its state and its
  checkpoint under its key whatever operations follow, replanning included.
\<close>

theorem settled_work_kept:
  assumes "find_task job key db = Some r" "settled r" "\<forall>s \<in> set steps. well_called (snd s)"
  shows "\<exists>r'. find_task job key (run_plan env steps db) = Some r' \<and>
    tk_state r' = tk_state r \<and> tk_checkpoint r' = tk_checkpoint r"
proof -
  have "settled_as job key (tk_state r) (tk_checkpoint r) db"
    using assms(1,2) by (auto simp: settled_as_def)
  from run_plan_settled [OF this assms(3)] show ?thesis by (auto simp: settled_as_def)
qed

theorem settled_work_kept_witness:
  "\<exists>r'. find_task ''job'' ''a'' (run_plan plain_env [(200, OpPrepare ''job''
      [\<lparr>jd_Key = ''a'', jd_Kind = ''maps'', jd_Sequence = 0, jd_Query = ''q'', jd_SourceCell = [],
        jd_InputID = [], jd_Payload = [], jd_Origin = [], jd_Priority = 0\<rparr>] 3), (201, OpStart ''job'' ''a'')]
      (sample_db\<lparr>db_tasks := [(sample_task ''a'' [])\<lparr>tk_state := taskStateCompleted\<rparr>]\<rparr>)) = Some r' \<and>
    tk_state r' = taskStateCompleted"
  using settled_work_kept [of "''job''" "''a''"
      "sample_db\<lparr>db_tasks := [(sample_task ''a'' [])\<lparr>tk_state := taskStateCompleted\<rparr>]\<rparr>"
      "(sample_task ''a'' [])\<lparr>tk_state := taskStateCompleted\<rparr>"
      "[(200, OpPrepare ''job''
      [\<lparr>jd_Key = ''a'', jd_Kind = ''maps'', jd_Sequence = 0, jd_Query = ''q'', jd_SourceCell = [],
        jd_InputID = [], jd_Payload = [], jd_Origin = [], jd_Priority = 0\<rparr>] 3), (201, OpStart ''job'' ''a'')]"
      plain_env]
  by (auto simp: settled_def sample_task_def task_pk_def)

end
