(* ===== verification/Lifecycle.thy ===== *)
theory Lifecycle
  imports TaskLease
begin

text \<open>
  The persisted job lifecycle: \<open>web/sqlite/lifecycle.go\<close>, the job repository of \<open>sqlite.go\<close> with
  its legacy projection, the crash recovery of \<open>checkpoints.go\<close>, and the fallbacks of
  \<open>web/lifecycle.go\<close>. A job's configuration is its JSON encoding; \<open>time.Now()\<close> is \<open>now\<close>.
\<close>

section \<open>Values\<close>

record Job =
  job_ID :: string
  job_Name :: string
  job_Date :: int
  job_Status :: string
  job_Data :: string

record JobRuntime =
  jr_JobID :: string
  jr_State :: State
  jr_StateVersion :: int
  jr_Stage :: Stage
  jr_RequestedStop :: StopReason
  jr_OutcomeReason :: StopReason
  jr_Progress :: f64
  jr_Message :: string
  jr_TotalTasks :: int
  jr_Completed :: int
  jr_Failed :: int
  jr_RawRecords :: int
  jr_UniqueRecords :: int
  jr_Emails :: int
  jr_Warnings :: int
  jr_Errors :: int
  jr_StartedAt :: "int option"
  jr_FinishedAt :: "int option"
  jr_UpdatedAt :: int

text \<open>\<open>StatusPending\<close>, \<open>StatusWorking\<close>, \<open>StatusOK\<close> and \<open>StatusFailed\<close>: the text of the legacy status.\<close>

fun string_of_LegacyStatus :: "LegacyStatus \<Rightarrow> string" where
  "string_of_LegacyStatus LegacyStatusPending = ''pending''"
| "string_of_LegacyStatus LegacyStatusWorking = ''working''"
| "string_of_LegacyStatus LegacyStatusOK = ''ok''"
| "string_of_LegacyStatus LegacyStatusFailed = ''failed''"

definition lifecycleStateFromLegacyStatus :: "string \<Rightarrow> State" where
  "lifecycleStateFromLegacyStatus status =
     (if status = ''pending'' then StateQueued
      else if status = ''working'' then StateRunning
      else if status = ''ok'' then StateCompleted
      else if status = ''failed'' then StateFailed
      else StateQueued)"

fun lifecycleStage :: "State \<Rightarrow> Stage" where
  "lifecycleStage StateStarting = StageSearchingMaps"
| "lifecycleStage StateRunning = StageSearchingMaps"
| "lifecycleStage StateCancelling = StageSearchingMaps"
| "lifecycleStage StateCompleted = StageSavingExporting"
| "lifecycleStage StatePartial = StageSavingExporting"
| "lifecycleStage StateCancelled = StageSavingExporting"
| "lifecycleStage _ = StagePreparingQueries"

definition controlStage :: "Stage \<Rightarrow> State \<Rightarrow> Stage" where
  "controlStage current next =
     (if next = StateCancelled then StageSavingExporting
      else if next = StateQueued \<and> current = StageNone then StagePreparingQueries
      else if Stage_Valid current then current
      else lifecycleStage next)"

definition lifecycleProgress :: "State \<Rightarrow> f64" where
  "lifecycleProgress state = (if state = StateCompleted then Fin 100 else Fin 0)"

definition creationMessage :: "State \<Rightarrow> string" where
  "creationMessage state =
     (if state = StateDraft then ''job saved as draft''
      else if state = StateQueued then ''job queued''
      else ''job created'')"

definition nullableTerminalTime :: "State \<Rightarrow> int \<Rightarrow> int option" where
  "nullableTerminalTime state timestamp = (if State_Terminal state then Some timestamp else None)"

definition validateOutcome :: "RunOutcome \<Rightarrow> repo_error + unit" where
  "validateOutcome out =
     (if \<not> State_Valid (RO_State out) then Inl (RuntimeError (ErrInvalidState [] (RO_State out)))
      else if \<not> StopReason_Valid (RO_Reason out)
      then Inl (RuntimeError (ErrInvalidStopReason (RO_Reason out)))
      else if (case RO_State out of
          StateCompleted \<Rightarrow> RO_Reason out = StopReasonCompleted
        | StatePartial \<Rightarrow> RO_Reason out = StopReasonRuntimeLimit \<or>
            RO_Reason out = StopReasonMaximumRecords \<or> RO_Reason out = StopReasonTaskFailures \<or>
            RO_Reason out = StopReasonTasksIncomplete
        | StatePaused \<Rightarrow> RO_Reason out = StopReasonPauseRequested \<or>
            RO_Reason out = StopReasonLowDisk \<or> RO_Reason out = StopReasonShutdown \<or>
            RO_Reason out = StopReasonProxiesUnavailable
        | StateCancelled \<Rightarrow> RO_Reason out = StopReasonUserCancelled
        | StateQueued \<Rightarrow> RO_Reason out = StopReasonReconfigure
        | StateFailed \<Rightarrow> RO_Reason out = StopReasonFatalError
        | _ \<Rightarrow> False)
      then Inr ()
      else Inl (ErrOutcomePair (RO_State out) (RO_Reason out)))"

definition validOutcomeTransition :: "State \<Rightarrow> RunOutcome \<Rightarrow> bool" where
  "validOutcomeTransition current out \<longleftrightarrow>
     CanTransition current (RO_State out) \<or>
     RO_State out = StateQueued \<and> RO_Reason out = StopReasonReconfigure \<and> State_Active current"

section \<open>Reading\<close>

definition readRuntime :: "Env \<Rightarrow> string \<Rightarrow> Db \<Rightarrow> repo_error + JobRuntime" where
  "readRuntime env job db =
     (case find_runtime job db of
        None \<Rightarrow> Inl (ErrLifecycleNotFound job)
      | Some r \<Rightarrow>
        (case ParseState (string_of_State (rt_state r)) of
           Inl e \<Rightarrow> Inl (RuntimeError e)
         | Inr state \<Rightarrow>
           if \<not> Stage_Valid (rt_stage r) then Inl (RuntimeError (ErrInvalidStage (rt_stage r)))
           else if \<not> StopReason_Valid (rt_requested_stop r)
           then Inl (RuntimeError (ErrInvalidStopReason (rt_requested_stop r)))
           else if \<not> StopReason_Valid (rt_outcome_reason r)
           then Inl (RuntimeError (ErrInvalidStopReason (rt_outcome_reason r)))
           else Inr
             \<lparr>jr_JobID = rt_job_id r, jr_State = state, jr_StateVersion = rt_state_version r,
              jr_Stage = rt_stage r, jr_RequestedStop = rt_requested_stop r,
              jr_OutcomeReason = rt_outcome_reason r, jr_Progress = rt_progress r,
              jr_Message = RedactString env (rt_message r), jr_TotalTasks = rt_total_tasks r,
              jr_Completed = rt_completed_tasks r, jr_Failed = rt_failed_tasks r,
              jr_RawRecords = rt_raw_records r, jr_UniqueRecords = rt_unique_records r,
              jr_Emails = rt_emails_found r, jr_Warnings = rt_warnings r,
              jr_Errors = rt_errors r, jr_StartedAt = rt_started_at r,
              jr_FinishedAt = rt_finished_at r, jr_UpdatedAt = rt_updated_at r\<rparr>))"

definition GetRuntime :: "Env \<Rightarrow> string \<Rightarrow> Db \<Rightarrow> repo_error + JobRuntime" where
  "GetRuntime env job db = readRuntime env job db"

text \<open>\<open>SELECT COALESCE(MAX(queue_seq), 0) + 1\<close>\<close>

definition max_queue_seq :: "Db \<Rightarrow> int" where
  "max_queue_seq db =
     (case map rt_queue_seq (db_runtime db) of [] \<Rightarrow> 0 | q # qs \<Rightarrow> fold max qs q)"

definition nextQueueSequence :: "Db \<Rightarrow> repo_error + int" where
  "nextQueueSequence db =
     (let s = max_queue_seq db + 1 in if s \<le> 0 then Inl (ErrQueueSequence s) else Inr s)"

section \<open>Creating a job\<close>

definition jobToRow :: "int \<Rightarrow> Job \<Rightarrow> JobRow" where
  "jobToRow now item =
     \<lparr>jb_id = job_ID item, jb_name = job_Name item, jb_status = job_Status item,
      jb_data = job_Data item, jb_created_at = job_Date item, jb_updated_at = now\<rparr>"

definition rowToJob :: "JobRow \<Rightarrow> Job" where
  "rowToJob r =
     \<lparr>job_ID = jb_id r, job_Name = jb_name r, job_Date = jb_created_at r,
      job_Status = jb_status r, job_Data = jb_data r\<rparr>"

text \<open>The columns an \<open>INSERT INTO job_runtime\<close> leaves out take their defaults.\<close>

definition new_runtime ::
  "string \<Rightarrow> State \<Rightarrow> Stage \<Rightarrow> string \<Rightarrow> f64 \<Rightarrow> int \<Rightarrow> int option \<Rightarrow> int option \<Rightarrow> string \<Rightarrow> int \<Rightarrow> int \<Rightarrow>
   RuntimeRow" where
  "new_runtime job state stage message progress queueSeq queuedAt finishedAt config created updated =
     \<lparr>rt_job_id = job, rt_state = state, rt_state_version = 0, rt_stage = stage,
      rt_message = message, rt_progress = progress, rt_requested_stop = StopReasonNone,
      rt_outcome_reason = StopReasonNone, rt_recovery_required = False, rt_queue_seq = queueSeq,
      rt_queued_at = queuedAt, rt_total_tasks = 0, rt_completed_tasks = 0, rt_failed_tasks = 0,
      rt_raw_records = 0, rt_unique_records = 0, rt_emails_found = 0, rt_warnings = 0,
      rt_errors = 0, rt_started_at = None, rt_finished_at = finishedAt,
      rt_last_checkpoint_at = None, rt_last_heartbeat_at = None, rt_desired_concurrency = 0,
      rt_effective_concurrency = 0, rt_extended_seconds = 0, rt_concurrency_override = 0,
      rt_proxy_pool_override = [], rt_retry_current_requested = False,
      rt_config_snapshot = config, rt_created_at = created, rt_updated_at = updated\<rparr>"

definition new_progress :: "string \<Rightarrow> Stage \<Rightarrow> int \<Rightarrow> ProgressRow" where
  "new_progress job stage updated =
     \<lparr>pg_job_id = job, pg_stage = stage, pg_skipped_tasks = 0, pg_active_tasks = 0,
      pg_retries = 0, pg_places_per_minute = Fin 0, pg_eta_seconds = None,
      pg_current_query = [], pg_current_cell = [], pg_current_domain = [], pg_browser_count = 0,
      pg_active_pages = 0, pg_cpu_percent = Fin 0, pg_memory_bytes = 0, pg_disk_free_bytes = 0,
      pg_database_writes = 0, pg_website_queue = 0, pg_updated_at = updated\<rparr>"

definition CreateWithState :: "Env \<Rightarrow> int \<Rightarrow> Job \<Rightarrow> State \<Rightarrow> Db \<Rightarrow> (repo_error + unit) \<times> Db" where
  "CreateWithState env now item state db =
     (if \<not> State_Valid state then (Inl (RuntimeError (ErrInvalidState [] state)), db)
      else case LegacyStatusForState state of
        Inl e \<Rightarrow> (Inl (RuntimeError e), db)
      | Inr legacyStatus \<Rightarrow>
        (let row = jobToRow now (item\<lparr>job_Status := string_of_LegacyStatus legacyStatus\<rparr>);
             job = jb_id row
         in case (if state = StateQueued then nextQueueSequence db else Inr 0) of
              Inl e \<Rightarrow> (Inl e, db)
            | Inr queueSequence \<Rightarrow>
              if find_job job db \<noteq> None then (Inl (ErrConstraint ''jobs.id''), db)
              else if find_runtime job db \<noteq> None
              then (Inl (ErrConstraint ''job_runtime.job_id''), db)
              else if list_ex (\<lambda>c. cf_job_id c = job \<and> cf_version c = 1) (db_configs db)
              then (Inl (ErrConstraint ''job_config_versions''), db)
              else if find_progress job db \<noteq> None
              then (Inl (ErrConstraint ''job_progress.job_id''), db)
              else
                (let queuedAt = (if state = StateQueued then Some (jb_created_at row) else None);
                     stage = lifecycleStage state;
                     db1 = db\<lparr>db_jobs := db_jobs db @ [row],
                       db_runtime := db_runtime db @
                         [new_runtime job state stage (creationMessage state)
                            (lifecycleProgress state) queueSequence queuedAt
                            (nullableTerminalTime state (jb_updated_at row)) (jb_data row)
                            (jb_created_at row) (jb_updated_at row)],
                       db_configs := db_configs db @
                         [\<lparr>cf_job_id = job, cf_version = 1, cf_configuration = jb_data row,
                           cf_created_at = jb_created_at row\<rparr>],
                       db_progress := db_progress db @ [new_progress job stage (jb_updated_at row)]\<rparr>
                 in (Inr (),
                     insertJobEvent env job ''created'' ''information'' stage
                       (creationMessage state) [(''state'', EvState state)]
                       (jb_created_at row) db1))))"

definition Create :: "Env \<Rightarrow> int \<Rightarrow> Job \<Rightarrow> Db \<Rightarrow> (repo_error + unit) \<times> Db" where
  "Create env now item db =
     CreateWithState env now item (lifecycleStateFromLegacyStatus (job_Status item)) db"

section \<open>Operator commands\<close>

definition set_status :: "string \<Rightarrow> int \<Rightarrow> JobRow \<Rightarrow> JobRow" where
  "set_status status now r = r\<lparr>jb_status := status, jb_updated_at := now\<rparr>"

definition set_stage :: "Stage \<Rightarrow> int \<Rightarrow> ProgressRow \<Rightarrow> ProgressRow" where
  "set_stage stage now r = r\<lparr>pg_stage := stage, pg_updated_at := now\<rparr>"

text \<open>The \<open>UPDATE job_runtime\<close> of a command; a queue sequence of 0 keeps the old one.\<close>

definition set_controlled ::
  "State \<Rightarrow> Stage \<Rightarrow> string \<Rightarrow> StopReason \<Rightarrow> StopReason \<Rightarrow> int \<Rightarrow> int option \<Rightarrow> int option \<Rightarrow> int \<Rightarrow>
   RuntimeRow \<Rightarrow> RuntimeRow" where
  "set_controlled state stage message requestedStop outcomeReason queueSeq queuedAt finishedAt now r =
     r\<lparr>rt_state := state, rt_state_version := rt_state_version r + 1, rt_stage := stage,
       rt_message := message, rt_requested_stop := requestedStop,
       rt_outcome_reason := outcomeReason, rt_recovery_required := False,
       rt_queue_seq := (if 0 < queueSeq then queueSeq else rt_queue_seq r),
       rt_queued_at := (if queuedAt \<noteq> None then queuedAt else rt_queued_at r),
       rt_finished_at := finishedAt, rt_updated_at := now\<rparr>"

text \<open>\<open>WHERE job_id = ? AND state_version = ?\<close>\<close>

definition version_is :: "string \<Rightarrow> int \<Rightarrow> RuntimeRow \<Rightarrow> bool" where
  "version_is job version r \<longleftrightarrow> rt_job_id r = job \<and> rt_state_version r = version"

datatype control_result =
    ControlFailed repo_error
  | ControlRefused JobRuntime ControlDecision repo_error
  | ControlDone JobRuntime ControlDecision

text \<open>What a command that changes something decides about the row, from the runtime it read.\<close>

definition control_requeues :: "JobRuntime \<Rightarrow> ControlDecision \<Rightarrow> bool" where
  "control_requeues current decision \<longleftrightarrow>
     CD_NextState decision = StateQueued \<and> jr_State current \<noteq> StateQueued"

definition control_stage :: "JobRuntime \<Rightarrow> ControlDecision \<Rightarrow> Stage" where
  "control_stage current decision =
     (if jr_Stage current = StageNone \<or> jr_State current \<noteq> CD_NextState decision
      then controlStage (jr_Stage current) (CD_NextState decision) else jr_Stage current)"

definition control_set ::
  "Env \<Rightarrow> int \<Rightarrow> JobRuntime \<Rightarrow> ControlDecision \<Rightarrow> int \<Rightarrow> RuntimeRow \<Rightarrow> RuntimeRow" where
  "control_set env now current decision queueSequence =
     (let next = CD_NextState decision;
          outcomeReason = (if next = StateCancelled then StopReasonUserCancelled
            else if next = StateQueued then StopReasonNone else jr_OutcomeReason current);
          finishedAt = (if next = StateCancelled then Some now
            else if next = StateQueued then None else jr_FinishedAt current)
      in set_controlled next (control_stage current decision)
           (RedactString env (CD_Message decision)) (CD_RequestedStop decision) outcomeReason
           queueSequence (if control_requeues current decision then Some now else None)
           finishedAt now)"

definition persist_control ::
  "Env \<Rightarrow> int \<Rightarrow> string \<Rightarrow> JobRuntime \<Rightarrow> ControlDecision \<Rightarrow> int \<Rightarrow> LegacyStatus \<Rightarrow> Db \<Rightarrow> Db" where
  "persist_control env now job current decision queueSequence legacyStatus db =
     insertJobEvent env job ''control'' ''information'' (control_stage current decision)
       (CD_Message decision)
       [(''control'', EvControl (CD_Control decision)),
        (''disposition'', EvDisposition (CD_Disposition decision)),
        (''from_state'', EvState (CD_CurrentState decision)),
        (''to_state'', EvState (CD_NextState decision)),
        (''eventual_state'', EvState (CD_EventualState decision)),
        (''requested_stop'', EvReason (CD_RequestedStop decision))] now
       (db\<lparr>db_runtime := update_where (version_is job (jr_StateVersion current))
             (control_set env now current decision queueSequence) (db_runtime db),
           db_jobs := update_where (\<lambda>r. jb_id r = job)
             (set_status (string_of_LegacyStatus legacyStatus) now) (db_jobs db),
           db_progress := update_where (\<lambda>r. pg_job_id r = job)
             (set_stage (control_stage current decision) now) (db_progress db)\<rparr>)"

definition ApplyControl :: "Env \<Rightarrow> int \<Rightarrow> string \<Rightarrow> Control \<Rightarrow> Db \<Rightarrow> control_result \<times> Db" where
  "ApplyControl env now job control db =
     (case readRuntime env job db of
        Inl e \<Rightarrow> (ControlFailed e, db)
      | Inr current \<Rightarrow>
      (case DecideControl (jr_State current) (jr_RequestedStop current) control of
        Inl e \<Rightarrow> (ControlFailed (RuntimeError e), db)
      | Inr decision \<Rightarrow>
      (case ControlDecision_Error decision of
        Inl e \<Rightarrow> (ControlRefused current decision (RuntimeError e), db)
      | Inr _ \<Rightarrow>
      if \<not> ControlDecision_Changed decision then (ControlDone current decision, db)
      else case (if control_requeues current decision then nextQueueSequence db else Inr 0) of
        Inl e \<Rightarrow> (ControlRefused current decision e, db)
      | Inr queueSequence \<Rightarrow>
      (case LegacyStatusForState (CD_NextState decision) of
        Inl e \<Rightarrow> (ControlRefused current decision (RuntimeError e), db)
      | Inr legacyStatus \<Rightarrow>
      if count_where (version_is job (jr_StateVersion current)) (db_runtime db) \<noteq> 1
      then (ControlRefused current decision ErrLifecycleConflict, db)
      else
      (let db1 = persist_control env now job current decision queueSequence legacyStatus db
       in case readRuntime env job db1 of
            Inl e \<Rightarrow> (ControlRefused current decision e, db)
          | Inr updated \<Rightarrow> (ControlDone updated decision, db1))))))"

section \<open>Executor outcomes\<close>

definition set_outcome ::
  "State \<Rightarrow> Stage \<Rightarrow> string \<Rightarrow> f64 \<Rightarrow> StopReason \<Rightarrow> int \<Rightarrow> int option \<Rightarrow> int option \<Rightarrow> int \<Rightarrow>
   RuntimeRow \<Rightarrow> RuntimeRow" where
  "set_outcome state stage message progress reason queueSeq queuedAt finishedAt now r =
     r\<lparr>rt_state := state, rt_state_version := rt_state_version r + 1, rt_stage := stage,
       rt_message := message, rt_progress := progress, rt_requested_stop := StopReasonNone,
       rt_outcome_reason := reason, rt_recovery_required := False,
       rt_queue_seq := (if 0 < queueSeq then queueSeq else rt_queue_seq r),
       rt_queued_at := (if queuedAt \<noteq> None then queuedAt else rt_queued_at r),
       rt_finished_at := finishedAt, rt_updated_at := now\<rparr>"

definition outcome_stage :: "JobRuntime \<Rightarrow> State \<Rightarrow> Stage" where
  "outcome_stage current state =
     (if State_Terminal state then StageSavingExporting
      else if state = StateQueued \<and> jr_Stage current = StageNone then StagePreparingQueries
      else jr_Stage current)"

definition outcome_set ::
  "Env \<Rightarrow> int \<Rightarrow> JobRuntime \<Rightarrow> RunOutcome \<Rightarrow> string \<Rightarrow> int \<Rightarrow> RuntimeRow \<Rightarrow> RuntimeRow" where
  "outcome_set env now current out message queueSequence =
     (let state = RO_State out
      in set_outcome state (outcome_stage current state) (RedactString env message)
           (if state = StateCompleted then Fin 100 else jr_Progress current) (RO_Reason out)
           queueSequence (if state = StateQueued then Some now else None)
           (if State_Terminal state then Some now else None) now)"

definition outcome_severity :: "State \<Rightarrow> string" where
  "outcome_severity state =
     (if state = StateFailed then ''system-error''
      else if state = StatePartial \<or> state = StateCancelled \<or> state = StatePaused then ''warning''
      else ''information'')"

definition persist_outcome ::
  "Env \<Rightarrow> int \<Rightarrow> string \<Rightarrow> JobRuntime \<Rightarrow> RunOutcome \<Rightarrow> string \<Rightarrow> int \<Rightarrow> LegacyStatus \<Rightarrow> Db \<Rightarrow> Db" where
  "persist_outcome env now job current out message queueSequence legacyStatus db =
     insertJobEvent env job ''outcome'' (outcome_severity (RO_State out))
       (outcome_stage current (RO_State out)) message
       [(''state'', EvState (RO_State out)), (''reason'', EvReason (RO_Reason out)),
        (''recoverable'', EvBool (RO_Recoverable out)),
        (''has_partial_results'', EvBool (RO_HasPartialResults out))] now
       (db\<lparr>db_runtime := update_where (version_is job (jr_StateVersion current))
             (outcome_set env now current out message queueSequence) (db_runtime db),
           db_jobs := update_where (\<lambda>r. jb_id r = job)
             (set_status (string_of_LegacyStatus legacyStatus) now) (db_jobs db),
           db_progress := update_where (\<lambda>r. pg_job_id r = job)
             (set_stage (outcome_stage current (RO_State out)) now) (db_progress db)\<rparr>)"

definition SetOutcome ::
  "Env \<Rightarrow> int \<Rightarrow> string \<Rightarrow> RunOutcome \<Rightarrow> string \<Rightarrow> Db \<Rightarrow> (repo_error + JobRuntime) \<times> Db" where
  "SetOutcome env now job out message db =
     (case validateOutcome out of
        Inl e \<Rightarrow> (Inl e, db)
      | Inr _ \<Rightarrow>
      (case readRuntime env job db of
        Inl e \<Rightarrow> (Inl e, db)
      | Inr current \<Rightarrow>
      if jr_State current = RO_State out \<and> jr_OutcomeReason current = RO_Reason out \<and>
        jr_RequestedStop current = StopReasonNone
      then (Inr current, db)
      else if \<not> validOutcomeTransition (jr_State current) out
      then (Inl (RuntimeError (ErrInvalidTransition (jr_State current) (RO_State out))), db)
      else case (if RO_State out = StateQueued then nextQueueSequence db else Inr 0) of
        Inl e \<Rightarrow> (Inl e, db)
      | Inr queueSequence \<Rightarrow>
      (case LegacyStatusForState (RO_State out) of
        Inl e \<Rightarrow> (Inl (RuntimeError e), db)
      | Inr legacyStatus \<Rightarrow>
      if count_where (version_is job (jr_StateVersion current)) (db_runtime db) \<noteq> 1
      then (Inl ErrLifecycleConflict, db)
      else
      (let db1 = persist_outcome env now job current out message queueSequence legacyStatus db
       in case readRuntime env job db1 of
            Inl e \<Rightarrow> (Inl e, db)
          | Inr updated \<Rightarrow> (Inr updated, db1)))))"

end
