(* ===== verification/JobRepository.thy ===== *)
theory JobRepository
  imports Lifecycle
begin

text \<open>
  The remaining operations on job rows: the legacy repository interface of \<open>web/sqlite/sqlite.go\<close>
  (\<open>Get\<close>, \<open>Delete\<close>, \<open>Select\<close>, \<open>Update\<close> with its projection onto the canonical state), the event
  replay of \<open>lifecycle.go\<close>, and the crash recovery of \<open>checkpoints.go\<close>.
\<close>

section \<open>Reading and deleting\<close>

text \<open>\<open>sql.ErrNoRows\<close> is \<open>None\<close>.\<close>

definition Get :: "string \<Rightarrow> Db \<Rightarrow> Job option" where
  "Get job db = map_option rowToJob (find_job job db)"

text \<open>\<open>DELETE FROM jobs\<close> with the cascades of the foreign keys.\<close>

definition Delete :: "string \<Rightarrow> Db \<Rightarrow> Db" where
  "Delete job db =
     db\<lparr>db_jobs := filter (\<lambda>r. jb_id r \<noteq> job) (db_jobs db),
        db_runtime := filter (\<lambda>r. rt_job_id r \<noteq> job) (db_runtime db),
        db_progress := filter (\<lambda>r. pg_job_id r \<noteq> job) (db_progress db),
        db_tasks := filter (\<lambda>r. tk_job_id r \<noteq> job) (db_tasks db),
        db_checkpoints := filter (\<lambda>r. ck_job_id r \<noteq> job) (db_checkpoints db),
        db_events := filter (\<lambda>r. ev_job_id r \<noteq> job) (db_events db),
        db_configs := filter (\<lambda>r. cf_job_id r \<noteq> job) (db_configs db)\<rparr>"

text \<open>\<open>jobs JOIN job_runtime\<close> on the job, restricted to queued jobs.\<close>

definition queued_jobs :: "Db \<Rightarrow> (JobRow \<times> RuntimeRow) list" where
  "queued_jobs db =
     concat (map (\<lambda>j. map (\<lambda>r. (j, r))
       (filter (\<lambda>r. rt_job_id r = jb_id j \<and> rt_state r = StateQueued) (db_runtime db)))
       (filter (\<lambda>j. jb_status j = ''pending'') (db_jobs db)))"

text \<open>\<open>ORDER BY queue_seq, COALESCE(queued_at, jobs.created_at), jobs.created_at, jobs.id\<close>\<close>

definition queue_order :: "(JobRow \<times> RuntimeRow) list \<Rightarrow> (JobRow \<times> RuntimeRow) list" where
  "queue_order =
     sort_key (\<lambda>(j, r). rt_queue_seq r) \<circ>
     sort_key (\<lambda>(j, r). case rt_queued_at r of None \<Rightarrow> jb_created_at j | Some t \<Rightarrow> t) \<circ>
     sort_key (\<lambda>(j, r). jb_created_at j) \<circ>
     sort_key (\<lambda>(j, r). jb_id j)"

definition Select :: "string \<Rightarrow> int \<Rightarrow> Db \<Rightarrow> Job list" where
  "Select status limit db =
     (let rows =
        (if status = ''pending'' then map fst (queue_order (queued_jobs db))
         else sort_key (\<lambda>j. - jb_created_at j)
           (if status = [] then db_jobs db else filter (\<lambda>j. jb_status j = status) (db_jobs db)))
      in map rowToJob (if 0 < limit then take (nat limit) rows else rows))"

section \<open>The legacy update\<close>

definition set_job :: "JobRow \<Rightarrow> JobRow \<Rightarrow> JobRow" where
  "set_job item r =
     r\<lparr>jb_name := jb_name item, jb_status := jb_status item, jb_data := jb_data item,
       jb_updated_at := jb_updated_at item\<rparr>"

definition set_projected ::
  "State \<Rightarrow> Stage \<Rightarrow> string \<Rightarrow> f64 \<Rightarrow> StopReason \<Rightarrow> StopReason \<Rightarrow> int option \<Rightarrow> int option \<Rightarrow> int \<Rightarrow>
   RuntimeRow \<Rightarrow> RuntimeRow" where
  "set_projected state stage message progress requestedStop outcomeReason startedAt finishedAt updated r =
     r\<lparr>rt_state := state, rt_state_version := rt_state_version r + 1, rt_stage := stage,
       rt_message := message, rt_progress := progress, rt_requested_stop := requestedStop,
       rt_outcome_reason := outcomeReason, rt_recovery_required := False,
       rt_started_at := startedAt, rt_finished_at := finishedAt, rt_updated_at := updated\<rparr>"

definition projectedState :: "State \<Rightarrow> State \<Rightarrow> State" where
  "projectedState incoming current =
     (case incoming of
        StateRunning \<Rightarrow>
          if current \<in> {StateQueued, StateStarting, StateRunning} then StateRunning else current
      | StateCompleted \<Rightarrow>
          if current \<in> {StateStarting, StateRunning, StateCompleted} then StateCompleted else current
      | StateFailed \<Rightarrow>
          if State_Active current \<or> current = StateFailed then StateFailed else current
      | _ \<Rightarrow> current)"

definition applyLegacyRuntimeProjection ::
  "Env \<Rightarrow> JobRow \<Rightarrow> State \<Rightarrow> Db \<Rightarrow> repo_error + Db" where
  "applyLegacyRuntimeProjection env item incomingState db =
     (case readRuntime env (jb_id item) db of
        Inl e \<Rightarrow> Inl e
      | Inr current \<Rightarrow>
      (let nextState = projectedState incomingState (jr_State current)
       in case LegacyStatusForState nextState of
        Inl e \<Rightarrow> Inl (RuntimeError e)
      | Inr legacyStatus \<Rightarrow>
      (let db1 = db\<lparr>db_jobs := update_where (\<lambda>r. jb_id r = jb_id item)
             (\<lambda>r. r\<lparr>jb_status := string_of_LegacyStatus legacyStatus\<rparr>) (db_jobs db)\<rparr>
       in if nextState = jr_State current then Inr db1
      else if count_where (version_is (jb_id item) (jr_StateVersion current)) (db_runtime db1) \<noteq> 1
      then Inl ErrLifecycleConflict
      else
      (let stage = (case nextState of StateRunning \<Rightarrow> StageSearchingMaps
             | StateCompleted \<Rightarrow> StageSavingExporting | _ \<Rightarrow> jr_Stage current);
           message = (case nextState of StateRunning \<Rightarrow> ''job started''
             | StateCompleted \<Rightarrow> ''job completed'' | StateFailed \<Rightarrow> ''job failed''
             | _ \<Rightarrow> jr_Message current);
           progress = (case nextState of StateCompleted \<Rightarrow> Fin 100 | _ \<Rightarrow> jr_Progress current);
           requestedStop = (if nextState \<in> {StateRunning, StateCompleted, StateFailed}
             then StopReasonNone else jr_RequestedStop current);
           outcomeReason = (case nextState of StateRunning \<Rightarrow> StopReasonNone
             | StateCompleted \<Rightarrow> StopReasonCompleted | StateFailed \<Rightarrow> StopReasonFatalError
             | _ \<Rightarrow> jr_OutcomeReason current);
           startedAt = (if nextState = StateRunning \<and> jr_StartedAt current = None
             then Some (jb_updated_at item) else jr_StartedAt current);
           finishedAt = (case nextState of StateRunning \<Rightarrow> None
             | StateCompleted \<Rightarrow> Some (jb_updated_at item)
             | StateFailed \<Rightarrow> Some (jb_updated_at item) | _ \<Rightarrow> jr_FinishedAt current);
           db2 = db1\<lparr>db_runtime :=
               update_where (version_is (jb_id item) (jr_StateVersion current))
                 (set_projected nextState stage message progress requestedStop outcomeReason
                   startedAt finishedAt (jb_updated_at item)) (db_runtime db1),
             db_progress := update_where (\<lambda>r. pg_job_id r = jb_id item)
               (set_stage stage (jb_updated_at item)) (db_progress db1)\<rparr>;
           severity = (if nextState = StateFailed then ''system-error'' else ''information'')
       in Inr (insertJobEvent env (jb_id item) ''state'' severity stage message
            [(''source'', EvString ''legacy_update''), (''from_state'', EvState (jr_State current)),
             (''to_state'', EvState nextState)] (jb_updated_at item) db2)))))"

definition upsertJobFoundation :: "Env \<Rightarrow> JobRow \<Rightarrow> Db \<Rightarrow> repo_error + Db" where
  "upsertJobFoundation env item db =
     (let incomingState = lifecycleStateFromLegacyStatus (jb_status item);
          stage = lifecycleStage incomingState
      in case (if incomingState = StateQueued then nextQueueSequence db else Inr 0) of
        Inl e \<Rightarrow> Inl e
      | Inr queueSequence \<Rightarrow>
      (let queuedAt = (if incomingState = StateQueued then Some (jb_created_at item) else None);
           rts = (case find_runtime (jb_id item) db of
               None \<Rightarrow> db_runtime db @
                 [new_runtime (jb_id item) incomingState stage [] (lifecycleProgress incomingState)
                   queueSequence queuedAt None (jb_data item) (jb_created_at item)
                   (jb_updated_at item)]
             | Some _ \<Rightarrow> update_where (\<lambda>r. rt_job_id r = jb_id item)
                 (\<lambda>r. r\<lparr>rt_updated_at := jb_updated_at item, rt_config_snapshot := jb_data item\<rparr>)
                 (db_runtime db));
           cfs = (if list_ex (\<lambda>c. cf_job_id c = jb_id item \<and> cf_version c = 1) (db_configs db)
             then db_configs db
             else db_configs db @ [\<lparr>cf_job_id = jb_id item, cf_version = 1,
               cf_configuration = jb_data item, cf_created_at = jb_created_at item\<rparr>]);
           pgs = (if find_progress (jb_id item) db \<noteq> None then db_progress db
             else db_progress db @ [new_progress (jb_id item) stage (jb_updated_at item)])
       in applyLegacyRuntimeProjection env item incomingState
            (db\<lparr>db_runtime := rts, db_configs := cfs, db_progress := pgs\<rparr>)))"

definition Update :: "Env \<Rightarrow> int \<Rightarrow> Job \<Rightarrow> Db \<Rightarrow> (repo_error + unit) \<times> Db" where
  "Update env now item db =
     (let row = jobToRow now item;
          db1 = db\<lparr>db_jobs := update_where (\<lambda>r. jb_id r = jb_id row) (set_job row) (db_jobs db)\<rparr>
      in if count_where (\<lambda>r. jb_id r = jb_id row) (db_jobs db) = 0 then (Inr (), db1)
         else case upsertJobFoundation env row db1 of
           Inl e \<Rightarrow> (Inl e, db)
         | Inr db2 \<Rightarrow> (Inr (), db2))"

section \<open>Crash recovery\<close>

definition abandoned :: "RuntimeRow \<Rightarrow> bool" where
  "abandoned r \<longleftrightarrow> rt_state r = StateStarting \<or> rt_state r = StateRunning \<or>
     rt_state r = StateCancelling"

definition abandonedJobs :: "Db \<Rightarrow> (string \<times> Stage) list" where
  "abandonedJobs db =
     map (\<lambda>r. (rt_job_id r,
         if Stage_Valid (rt_stage r) then rt_stage r else StagePreparingQueries))
       (sort_key rt_job_id (filter abandoned (db_runtime db)))"

definition set_recovered :: "int \<Rightarrow> RuntimeRow \<Rightarrow> RuntimeRow" where
  "set_recovered now r =
     r\<lparr>rt_state := StatePaused, rt_state_version := rt_state_version r + 1,
       rt_requested_stop := StopReasonNone, rt_outcome_reason := StopReasonShutdown,
       rt_recovery_required := True,
       rt_message := ''Previous process stopped; resume from the last safe checkpoint.'',
       rt_last_heartbeat_at := Some now, rt_finished_at := None, rt_updated_at := now\<rparr>"

definition set_interrupted :: "int \<Rightarrow> TaskRow \<Rightarrow> TaskRow" where
  "set_interrupted now r =
     r\<lparr>tk_state := taskStatePending, tk_finished_at := None, tk_lease_owner := [],
       tk_lease_expires_at := None, tk_started_at := None,
       tk_last_error := ''Interrupted by local service shutdown'', tk_updated_at := now\<rparr>"

definition recoverJob :: "Env \<Rightarrow> int \<Rightarrow> string \<times> Stage \<Rightarrow> Db \<Rightarrow> Db" where
  "recoverJob env now js db =
     (let job = fst js;
          db1 = db\<lparr>db_runtime := update_where (\<lambda>r. rt_job_id r = job \<and> abandoned r)
              (set_recovered now) (db_runtime db),
            db_jobs := update_where (\<lambda>r. jb_id r = job) (set_status ''pending'' now) (db_jobs db),
            db_tasks := update_where (\<lambda>r. tk_job_id r = job \<and> tk_state r = taskStateRunning)
              (set_interrupted now) (db_tasks db)\<rparr>;
          db2 = updateTaskAggregates job now db1;
          db3 = db2\<lparr>db_progress := update_where (\<lambda>r. pg_job_id r = job)
            (\<lambda>r. r\<lparr>pg_active_tasks := 0, pg_updated_at := now\<rparr>) (db_progress db2)\<rparr>
      in insertJobEvent env job ''recovery'' ''warning'' (snd js)
           ''Recovered abandoned active job at its last safe checkpoint''
           [(''state'', EvString ''paused''), (''reason'', EvString ''shutdown''),
            (''recovery_required'', EvBool True)] now db3)"

definition RecoverAbandonedJobs :: "Env \<Rightarrow> int \<Rightarrow> Db \<Rightarrow> (repo_error + int) \<times> Db" where
  "RecoverAbandonedJobs env now db =
     (let jobs = abandonedJobs db
      in (Inr (int (length jobs)), fold (recoverJob env now) jobs db))"

section \<open>Event replay\<close>

record JobEvent =
  je_ID :: int
  je_JobID :: string
  je_Type :: string
  je_Severity :: string
  je_Stage :: Stage
  je_Message :: string
  je_Context :: event_context
  je_OccurredAt :: int

definition scanJobEvent :: "Env \<Rightarrow> EventRow \<Rightarrow> JobEvent" where
  "scanJobEvent env r =
     \<lparr>je_ID = ev_id r, je_JobID = ev_job_id r, je_Type = ev_type r, je_Severity = ev_severity r,
      je_Stage = ev_stage r, je_Message = RedactString env (ev_message r),
      je_Context = RedactValue env (ev_context r), je_OccurredAt = ev_created_at r\<rparr>"

fun scanJobEvents :: "Env \<Rightarrow> EventRow list \<Rightarrow> repo_error + JobEvent list" where
  "scanJobEvents env [] = Inr []"
| "scanJobEvents env (r # rs) =
     (if \<not> Stage_Valid (ev_stage r) then Inl (RuntimeError (ErrInvalidStage (ev_stage r)))
      else case scanJobEvents env rs of
        Inl e \<Rightarrow> Inl e
      | Inr es \<Rightarrow> Inr (scanJobEvent env r # es))"

definition event_limit :: "int \<Rightarrow> int" where
  "event_limit limit =
     (let l = (if limit \<le> 0 then 100 else limit) in if 1000 < l then 1000 else l)"

definition EventsAfter ::
  "Env \<Rightarrow> string \<Rightarrow> int \<Rightarrow> int \<Rightarrow> Db \<Rightarrow> repo_error + JobEvent list" where
  "EventsAfter env job after limit db =
     (if after < 0 then Inl ErrEventCursor
      else case find_job job db of
        None \<Rightarrow> Inl (ErrLifecycleNotFound job)
      | Some _ \<Rightarrow>
          scanJobEvents env (take (nat (event_limit limit))
            (sort_key ev_id (filter (\<lambda>r. ev_job_id r = job \<and> after < ev_id r) (db_events db)))))"

end
