(* ===== verification/LifecycleLaws.thy ===== *)
theory LifecycleLaws
  imports JobRepository
begin

text \<open>
  The invariant of the lifecycle tables and the one law all writers rest on: replacing the runtime
  row of a job by a sound one, with the legacy status of the job row following it.
\<close>

section \<open>Sound runtime rows\<close>

definition legacy_text :: "State \<Rightarrow> string" where
  "legacy_text s = (case LegacyStatusForState s of Inl _ \<Rightarrow> [] | Inr l \<Rightarrow> string_of_LegacyStatus l)"

lemma legacy_text_eq: "LegacyStatusForState s = Inr l \<Longrightarrow> string_of_LegacyStatus l = legacy_text s"
  by (simp add: legacy_text_def)

text \<open>
  A stop request is pending only while the worker has still to honour it: a pause request on a
  starting or running job, a cancellation on a job being cancelled (or just cancelled).
\<close>

definition stop_fits :: "State \<Rightarrow> StopReason \<Rightarrow> bool" where
  "stop_fits s stop \<longleftrightarrow> stop = StopReasonNone \<or>
     stop = StopReasonPauseRequested \<and> (s = StateStarting \<or> s = StateRunning) \<or>
     stop = StopReasonUserCancelled \<and> (s = StateCancelling \<or> s = StateCancelled)"

definition runtime_ok :: "RuntimeRow \<Rightarrow> bool" where
  "runtime_ok r \<longleftrightarrow> State_Valid (rt_state r) \<and> Stage_Valid (rt_stage r) \<and>
     StopReason_Valid (rt_requested_stop r) \<and> StopReason_Valid (rt_outcome_reason r) \<and>
     stop_fits (rt_state r) (rt_requested_stop r) \<and>
     (rt_finished_at r \<noteq> None \<longleftrightarrow> State_Terminal (rt_state r)) \<and>
     0 \<le> rt_queue_seq r \<and> (rt_state r = StateQueued \<longrightarrow> 0 < rt_queue_seq r)"

text \<open>The queue numbers handed out so far and still stored; 0 means never queued.\<close>

definition queue_numbers :: "RuntimeRow list \<Rightarrow> int list" where
  "queue_numbers rows = filter (\<lambda>q. 0 < q) (map rt_queue_seq rows)"

definition projected :: "Db \<Rightarrow> JobRow \<Rightarrow> bool" where
  "projected db j \<longleftrightarrow> (\<exists>r. find_runtime (jb_id j) db = Some r \<and> jb_status j = legacy_text (rt_state r))"

definition life_ok :: "Db \<Rightarrow> bool" where
  "life_ok db \<longleftrightarrow> distinct (map rt_job_id (db_runtime db)) \<and> list_all runtime_ok (db_runtime db) \<and>
     distinct (queue_numbers (db_runtime db)) \<and> (\<forall>j \<in> set (db_jobs db). projected db j)"

lemma life_ok_cong:
  assumes "db_runtime db' = db_runtime db" "db_jobs db' = db_jobs db"
  shows "life_ok db' = life_ok db"
  by (simp add: life_ok_def projected_def find_runtime_def assms)

lemma life_ok_frames [simp]:
  "life_ok (insertJobEvent env j t s g m c n db) = life_ok db"
  "life_ok (db\<lparr>db_progress := pgs\<rparr>) = life_ok db"
  "life_ok (db\<lparr>db_tasks := ts\<rparr>) = life_ok db"
  "life_ok (db\<lparr>db_configs := cfs\<rparr>) = life_ok db"
  by (rule life_ok_cong; simp)+

section \<open>Queue numbers\<close>

lemma fold_max: "fold max qs (q :: int) = Max (set (q # qs))"
  by (rule Max.set_eq_fold [symmetric])

lemma max_queue_seq_ge: "r \<in> set (db_runtime db) \<Longrightarrow> rt_queue_seq r \<le> max_queue_seq db"
proof -
  assume r: "r \<in> set (db_runtime db)"
  then obtain q qs where m: "map rt_queue_seq (db_runtime db) = q # qs"
    by (cases "db_runtime db") auto
  have "rt_queue_seq r \<in> set (q # qs)" using r by (simp flip: m)
  then show ?thesis by (simp only: max_queue_seq_def m list.case fold_max) simp
qed

lemma max_queue_seq_nonneg: "list_all runtime_ok (db_runtime db) \<Longrightarrow> 0 \<le> max_queue_seq db"
  using max_queue_seq_ge [of _ db]
  by (cases "db_runtime db") (force simp: max_queue_seq_def runtime_ok_def)+

lemma nextQueueSequence_ok:
  assumes "life_ok db"
  shows "nextQueueSequence db = Inr (max_queue_seq db + 1)"
  using max_queue_seq_nonneg [of db] assms by (simp add: nextQueueSequence_def life_ok_def Let_def)

lemma queue_numbers_update_other:
  "\<forall>r \<in> set rows. \<not> p r \<Longrightarrow> queue_numbers (update_where p f rows) = queue_numbers rows"
  by (simp add: update_where_none)

lemma distinct_queue_update:
  assumes "distinct (queue_numbers rows)" "distinct (map rt_job_id rows)"
    "\<And>r. p r \<Longrightarrow> rt_job_id r = job"
    "\<And>r. r \<in> set rows \<Longrightarrow> p r \<Longrightarrow> rt_queue_seq (f r) = rt_queue_seq r \<or>
       (\<forall>r' \<in> set rows. rt_queue_seq r' < rt_queue_seq (f r))"
  shows "distinct (queue_numbers (update_where p f rows))"
  using assms
proof (induction rows)
  case (Cons r rows)
  have IH: "distinct (queue_numbers (update_where p f rows))"
    using Cons.prems by (intro Cons.IH) (auto simp: queue_numbers_def split: if_splits)
  show ?case
  proof (cases "p r")
    case True
    then have "\<forall>r' \<in> set rows. \<not> p r'"
      using Cons.prems(2,3) by (metis distinct.simps(2) image_eqI image_set list.simps(9))
    then have same: "update_where p f rows = rows" by (rule update_where_none)
    have "rt_queue_seq (f r) \<notin> set (queue_numbers rows) \<or> \<not> 0 < rt_queue_seq (f r)"
      using Cons.prems(1) Cons.prems(4) [of r] True
      by (auto simp: queue_numbers_def split: if_splits)
    then show ?thesis
      using True Cons.prems(1) by (auto simp: same queue_numbers_def split: if_splits)
  next
    case False
    have "rt_queue_seq r \<notin> set (queue_numbers (update_where p f rows)) \<or> \<not> 0 < rt_queue_seq r"
    proof (cases "\<exists>r' \<in> set rows. p r'")
      case True
      then show ?thesis
        using Cons.prems(1) Cons.prems(4)
        by (fastforce simp: queue_numbers_def set_update_where split: if_splits)
    next
      case False
      then show ?thesis
        using Cons.prems(1) by (auto simp: update_where_none queue_numbers_def split: if_splits)
    qed
    then show ?thesis using False IH by (auto simp: queue_numbers_def)
  qed
qed (simp add: queue_numbers_def)

section \<open>Replacing a runtime row\<close>

lemma find_kept:
  "(\<And>r. key (f r) = key r) \<Longrightarrow> find (\<lambda>r. key r = k) (update_where p f rows) =
    map_option (\<lambda>r. if p r then f r else r) (find (\<lambda>r. key r = k) rows)"
  by (induction rows) simp_all

lemma find_update_none:
  "\<forall>r. key r = k \<longrightarrow> \<not> p r \<Longrightarrow> \<forall>r. p r \<longrightarrow> key (f r) = key r \<Longrightarrow>
    find (\<lambda>r. key r = k) (update_where p f rows) = find (\<lambda>r. key r = k) rows"
  by (induction rows) auto

lemma keys_kept: "(\<And>r. key (f r) = key r) \<Longrightarrow> map key (update_where p f rows) = map key rows"
  by (induction rows) simp_all

lemma find_runtime_job: "find_runtime job db = Some r \<Longrightarrow> rt_job_id r = job \<and> r \<in> set (db_runtime db)"
  by (auto simp: find_runtime_def find_Some_iff)

text \<open>Every job row but those of the job being written still shows its state.\<close>

definition life_ok_but :: "string \<Rightarrow> Db \<Rightarrow> bool" where
  "life_ok_but job db \<longleftrightarrow> distinct (map rt_job_id (db_runtime db)) \<and>
     list_all runtime_ok (db_runtime db) \<and> distinct (queue_numbers (db_runtime db)) \<and>
     (\<forall>j \<in> set (db_jobs db). jb_id j \<noteq> job \<longrightarrow> projected db j)"

lemma life_ok_butI: "life_ok db \<Longrightarrow> life_ok_but job db"
  by (simp add: life_ok_def life_ok_but_def)

text \<open>
  The law of a lifecycle write: the row of the job becomes a sound row whose queue number is the
  old one or the next one, and the job's legacy status becomes that of the new state.
\<close>

lemma life_ok_replace:
  assumes ok: "life_ok_but job db" and r: "find_runtime job db = Some r"
    and p: "\<And>x. p x \<Longrightarrow> rt_job_id x = job" "p r" and key: "\<And>x. rt_job_id (f x) = rt_job_id x"
    and sound: "runtime_ok (f r)"
    and seq: "rt_queue_seq (f r) = rt_queue_seq r \<or> rt_queue_seq (f r) = max_queue_seq db + 1"
    and g: "\<And>j. jb_id (g j) = jb_id j" "\<And>j. jb_status (g j) = legacy_text (rt_state (f r))"
    and new: "db_runtime db' = update_where p f (db_runtime db)"
      "db_jobs db' = update_where (\<lambda>j. jb_id j = job) g (db_jobs db)"
  shows "life_ok db'"
proof -
  have d: "distinct (map rt_job_id (db_runtime db))" and all: "list_all runtime_ok (db_runtime db)"
    and q: "distinct (queue_numbers (db_runtime db))"
    and j: "\<forall>j \<in> set (db_jobs db). jb_id j \<noteq> job \<longrightarrow> projected db j"
    using ok by (simp_all add: life_ok_but_def)
  have only: "x = r" if "x \<in> set (db_runtime db)" "p x" for x
    using that find_runtime_job [OF r] p(1) d by (auto simp: distinct_map dest: inj_onD)
  have "list_all runtime_ok (db_runtime db')"
    using all sound only by (auto simp: new(1) list_all_iff set_update_where)
  moreover have "distinct (queue_numbers (db_runtime db'))"
    unfolding new(1)
  proof (rule distinct_queue_update [OF q d p(1)])
    fix x assume x: "x \<in> set (db_runtime db)" "p x"
    have "rt_queue_seq y < max_queue_seq db + 1" if "y \<in> set (db_runtime db)" for y
      using max_queue_seq_ge [OF that] by simp
    then show "rt_queue_seq (f x) = rt_queue_seq x \<or>
        (\<forall>y \<in> set (db_runtime db). rt_queue_seq y < rt_queue_seq (f x))"
      using seq only [OF x] by auto
  qed
  moreover have f: "find_runtime k db' = map_option (\<lambda>r. if p r then f r else r) (find_runtime k db)" for k
    using find_kept [of rt_job_id f k p "db_runtime db"] key by (simp add: find_runtime_def new(1))
  have "projected db' x" if x: "x \<in> set (db_jobs db')" for x
  proof -
    obtain y where y: "y \<in> set (db_jobs db)" "x = (if jb_id y = job then g y else y)"
      using x by (auto simp: new(2) set_update_where)
    show ?thesis
    proof (cases "jb_id y = job")
      case True
      then show ?thesis using y r p(2) g by (simp add: projected_def f)
    next
      case False
      then obtain ry where ry: "find_runtime (jb_id y) db = Some ry" "jb_status y = legacy_text (rt_state ry)"
        using j y(1) by (auto simp: projected_def)
      with False have "\<not> p ry" using p(1) find_runtime_job [OF ry(1)] by auto
      then show ?thesis using False y ry by (simp add: projected_def f)
    qed
  qed
  ultimately show ?thesis
    using d keys_kept [of rt_job_id f p "db_runtime db"] key by (simp add: life_ok_def new(1))
qed

section \<open>Reading a sound row\<close>

definition runtime_of :: "Env \<Rightarrow> RuntimeRow \<Rightarrow> JobRuntime" where
  "runtime_of env r =
     \<lparr>jr_JobID = rt_job_id r, jr_State = rt_state r, jr_StateVersion = rt_state_version r,
      jr_Stage = rt_stage r, jr_RequestedStop = rt_requested_stop r,
      jr_OutcomeReason = rt_outcome_reason r, jr_Progress = rt_progress r,
      jr_Message = RedactString env (rt_message r), jr_TotalTasks = rt_total_tasks r,
      jr_Completed = rt_completed_tasks r, jr_Failed = rt_failed_tasks r,
      jr_RawRecords = rt_raw_records r, jr_UniqueRecords = rt_unique_records r,
      jr_Emails = rt_emails_found r, jr_Warnings = rt_warnings r,
      jr_Errors = rt_errors r, jr_StartedAt = rt_started_at r,
      jr_FinishedAt = rt_finished_at r, jr_UpdatedAt = rt_updated_at r\<rparr>"

lemma ParseState_valid: "State_Valid s \<Longrightarrow> ParseState (string_of_State s) = Inr s"
  by (simp add: ParseState_def)

lemma readRuntime_Some:
  "find_runtime job db = Some r \<Longrightarrow> runtime_ok r \<Longrightarrow> readRuntime env job db = Inr (runtime_of env r)"
  by (simp add: readRuntime_def runtime_ok_def ParseState_valid runtime_of_def)

lemma readRuntime_None: "find_runtime job db = None \<Longrightarrow> readRuntime env job db = Inl (ErrLifecycleNotFound job)"
  by (simp add: readRuntime_def)

lemma find_runtime_frame [simp]:
  "find_runtime job (insertJobEvent env j t s g m c n db) = find_runtime job db"
  "find_runtime job (db\<lparr>db_runtime := rts, db_jobs := js, db_progress := pgs\<rparr>) =
     find (\<lambda>r. rt_job_id r = job) rts"
  by (simp_all add: find_runtime_def)

lemma life_ok_row: "life_ok db \<Longrightarrow> find_runtime job db = Some r \<Longrightarrow> runtime_ok r"
  using find_runtime_job by (fastforce simp: life_ok_def list_all_iff)

lemma version_count:
  assumes "life_ok db" "find_runtime job db = Some r"
  shows "count_where (version_is job (rt_state_version r)) (db_runtime db) = 1"
proof -
  have d: "distinct (map rt_job_id (db_runtime db))" using assms(1) by (simp add: life_ok_def)
  have "count_where p rows \<le> 1" if "distinct (map rt_job_id rows)" "\<And>x. p x \<Longrightarrow> rt_job_id x = job" for p rows
    using that
  proof (induction rows)
    case (Cons x rows)
    show ?case
    proof (cases "p x")
      case True
      then have "count_where p rows = 0"
        using Cons.prems by (auto simp: count_where_0 image_iff)
      then show ?thesis by simp
    qed (use Cons in simp)
  qed simp
  from this [OF d, of "version_is job (rt_state_version r)"]
  have "count_where (version_is job (rt_state_version r)) (db_runtime db) \<le> 1"
    by (simp add: version_is_def)
  moreover have "count_where (version_is job (rt_state_version r)) (db_runtime db) \<noteq> 0"
    using find_runtime_job [OF assms(2)] by (auto simp: count_where_0 version_is_def)
  ultimately show ?thesis
    using count_where_nonneg [of "version_is job (rt_state_version r)" "db_runtime db"] by linarith
qed

section \<open>Operator commands on a sound database\<close>

lemma runtime_of_simps [simp]:
  "jr_State (runtime_of env r) = rt_state r" "jr_Stage (runtime_of env r) = rt_stage r"
  "jr_RequestedStop (runtime_of env r) = rt_requested_stop r"
  "jr_OutcomeReason (runtime_of env r) = rt_outcome_reason r"
  "jr_StateVersion (runtime_of env r) = rt_state_version r"
  "jr_FinishedAt (runtime_of env r) = rt_finished_at r"
  "jr_StartedAt (runtime_of env r) = rt_started_at r"
  by (simp_all add: runtime_of_def)

lemma controlStage_valid: "Stage_Valid g \<Longrightarrow> Stage_Valid (controlStage g s)"
  by (cases s) (simp_all add: controlStage_def)

lemma control_stage_valid: "Stage_Valid (jr_Stage cur) \<Longrightarrow> Stage_Valid (control_stage cur d)"
  by (simp add: control_stage_def controlStage_valid)

lemma control_set_simps [simp]:
  "rt_job_id (control_set env now cur d qs r) = rt_job_id r"
  "rt_state (control_set env now cur d qs r) = CD_NextState d"
  "rt_requested_stop (control_set env now cur d qs r) = CD_RequestedStop d"
  "rt_state_version (control_set env now cur d qs r) = rt_state_version r + 1"
  "rt_queue_seq (control_set env now cur d qs r) = (if 0 < qs then qs else rt_queue_seq r)"
  "rt_stage (control_set env now cur d qs r) = control_stage cur d"
  by (simp_all add: control_set_def set_controlled_def Let_def)

lemma control_set_ok:
  assumes r: "runtime_ok r" and m: "0 \<le> m"
    and d: "DecideControl (rt_state r) (rt_requested_stop r) c = Inr d" "ControlDecision_Changed d"
    and qs: "qs = (if control_requeues (runtime_of env r) d then m + 1 else 0)"
  shows "runtime_ok (control_set env now (runtime_of env r) d qs r)"
proof -
  let ?r' = "control_set env now (runtime_of env r) d qs r"
  have seq: "0 \<le> rt_queue_seq ?r' \<and> (CD_NextState d = StateQueued \<longrightarrow> 0 < rt_queue_seq ?r')"
    using r m by (auto simp: qs control_requeues_def runtime_ok_def)
  have valid: "State_Valid (CD_NextState d)" "StopReason_Valid (CD_RequestedStop d)"
    using DecideControl_valid_results [OF d(1)] by simp_all
  have reason: "StopReason_Valid (rt_outcome_reason ?r')"
    using r by (simp add: control_set_def set_controlled_def Let_def runtime_ok_def)
  have stop: "stop_fits (CD_NextState d) (CD_RequestedStop d)"
    using d by (cases rule: DecideControl_cases) (auto simp: job_defs stop_fits_def split: if_splits)
  have "rt_finished_at ?r' \<noteq> None \<longleftrightarrow> State_Terminal (CD_NextState d)"
    using d r
    by (cases rule: DecideControl_cases)
      (auto simp: job_defs control_set_def set_controlled_def Let_def runtime_ok_def split: if_splits)
  then show ?thesis
    using seq valid reason stop control_stage_valid [of "runtime_of env r" d] r
    by (simp add: runtime_ok_def)
qed

lemma find_runtime_replaced:
  assumes "find_runtime job db = Some r" "db_runtime db' = update_where (version_is job (rt_state_version r)) f (db_runtime db)"
    "\<And>x. rt_job_id (f x) = rt_job_id x"
  shows "find_runtime job db' = Some (f r)" "k \<noteq> job \<Longrightarrow> find_runtime k db' = find_runtime k db"
proof -
  have f: "find_runtime k db' = map_option (\<lambda>x. if version_is job (rt_state_version r) x then f x else x)
      (find_runtime k db)" for k
    using find_kept [of rt_job_id f k _ "db_runtime db"] assms(3) by (simp add: find_runtime_def assms(2))
  show "find_runtime job db' = Some (f r)"
    using find_runtime_job [OF assms(1)] by (simp add: f assms(1) version_is_def)
  show "find_runtime k db' = find_runtime k db" if "k \<noteq> job"
  proof (cases "find_runtime k db")
    case (Some x)
    then show ?thesis using find_runtime_job [OF Some] that by (simp add: f version_is_def)
  qed (simp add: f)
qed

lemma persist_control_frame [simp]:
  "db_runtime (persist_control env now job cur d qs l db) =
     update_where (version_is job (jr_StateVersion cur)) (control_set env now cur d qs) (db_runtime db)"
  "db_jobs (persist_control env now job cur d qs l db) =
     update_where (\<lambda>r. jb_id r = job) (set_status (string_of_LegacyStatus l) now) (db_jobs db)"
  "db_tasks (persist_control env now job cur d qs l db) = db_tasks db"
  "db_event_seq (persist_control env now job cur d qs l db) = db_event_seq db + 1"
  by (simp_all add: persist_control_def) (simp add: insertJobEvent_def)

lemma set_status_simps [simp]:
  "jb_id (set_status s now j) = jb_id j" "jb_status (set_status s now j) = s"
  by (simp_all add: set_status_def)

lemma persist_life_ok:
  assumes ok: "life_ok db" and r: "find_runtime job db = Some r"
    and f: "\<And>x. rt_job_id (f x) = rt_job_id x" "runtime_ok (f r)"
      "rt_queue_seq (f r) = rt_queue_seq r \<or> rt_queue_seq (f r) = max_queue_seq db + 1"
    and new: "db_runtime db' = update_where (version_is job (rt_state_version r)) f (db_runtime db)"
      "db_jobs db' = update_where (\<lambda>r. jb_id r = job) (set_status (legacy_text (rt_state (f r))) now) (db_jobs db)"
  shows "life_ok db'"
  by (rule life_ok_replace [OF life_ok_butI [OF ok] r _ _ f(1) f(2) f(3) _ _ new])
    (use find_runtime_job [OF r] in \<open>simp_all add: version_is_def\<close>)

lemma ApplyControl_applied:
  assumes ok: "life_ok db" and r: "find_runtime job db = Some r"
    and d: "DecideControl (rt_state r) (rt_requested_stop r) c = Inr d" "ControlDecision_Changed d"
  obtains l qs where
    "qs = (if control_requeues (runtime_of env r) d then max_queue_seq db + 1 else 0)"
    "LegacyStatusForState (CD_NextState d) = Inr l"
    "ApplyControl env now job c db =
       (ControlDone (runtime_of env (control_set env now (runtime_of env r) d qs r)) d,
        persist_control env now job (runtime_of env r) d qs l db)"
    "runtime_ok (control_set env now (runtime_of env r) d qs r)"
    "life_ok (persist_control env now job (runtime_of env r) d qs l db)"
proof -
  note row = life_ok_row [OF ok r]
  have m: "0 \<le> max_queue_seq db" using ok max_queue_seq_nonneg by (simp add: life_ok_def)
  define qs where "qs = (if control_requeues (runtime_of env r) d then max_queue_seq db + 1 else 0)"
  have ok': "runtime_ok (control_set env now (runtime_of env r) d qs r)"
    by (rule control_set_ok [OF row m d]) (simp add: qs_def)
  have "State_Valid (CD_NextState d)" using DecideControl_valid_results [OF d(1)] by simp
  then obtain l where l: "LegacyStatusForState (CD_NextState d) = Inr l"
    using LegacyStatusForState_valid by blast
  have e: "ControlDecision_Error d = Inr ()"
    using d(2) by (auto simp: ControlDecision_Error_def ControlDecision_Changed_def)
  let ?db' = "persist_control env now job (runtime_of env r) d qs l db"
  have f: "find_runtime job ?db' = Some (control_set env now (runtime_of env r) d qs r)"
    by (rule find_runtime_replaced(1) [OF r]) simp_all
  have q: "(if control_requeues (runtime_of env r) d then nextQueueSequence db else Inr 0) = Inr qs"
    by (simp add: nextQueueSequence_ok [OF ok] qs_def)
  have "ApplyControl env now job c db =
      (ControlDone (runtime_of env (control_set env now (runtime_of env r) d qs r)) d, ?db')"
    using q by (simp add: ApplyControl_def readRuntime_Some [OF r row] readRuntime_Some [OF f ok'] d e l
      version_count [OF ok r])
  moreover have "life_ok ?db'"
    by (rule persist_life_ok [OF ok r, of "control_set env now (runtime_of env r) d qs"])
      (use ok' in \<open>auto simp: legacy_text_eq [OF l] qs_def m\<close>)
  ultimately show thesis using that qs_def l ok' by blast
qed

section \<open>Outcomes on a sound database\<close>

lemma validateOutcome_valid:
  "validateOutcome out = Inr u \<Longrightarrow> State_Valid (RO_State out) \<and> StopReason_Valid (RO_Reason out)"
  by (auto simp: validateOutcome_def split: if_splits)

lemma outcome_set_simps [simp]:
  "rt_job_id (outcome_set env now cur out m qs r) = rt_job_id r"
  "rt_state (outcome_set env now cur out m qs r) = RO_State out"
  "rt_requested_stop (outcome_set env now cur out m qs r) = StopReasonNone"
  "rt_outcome_reason (outcome_set env now cur out m qs r) = RO_Reason out"
  "rt_state_version (outcome_set env now cur out m qs r) = rt_state_version r + 1"
  "rt_queue_seq (outcome_set env now cur out m qs r) = (if 0 < qs then qs else rt_queue_seq r)"
  "rt_stage (outcome_set env now cur out m qs r) = outcome_stage cur (RO_State out)"
  "rt_finished_at (outcome_set env now cur out m qs r) =
     (if State_Terminal (RO_State out) then Some now else None)"
  by (simp_all add: outcome_set_def set_outcome_def Let_def)

lemma outcome_set_ok:
  assumes "runtime_ok r" "0 \<le> m" "validateOutcome out = Inr u"
    "qs = (if RO_State out = StateQueued then m + 1 else 0)"
  shows "runtime_ok (outcome_set env now (runtime_of env r) out message qs r)"
  using assms validateOutcome_valid [OF assms(3)]
  by (auto simp: runtime_ok_def outcome_stage_def stop_fits_def)

lemma persist_outcome_frame [simp]:
  "db_runtime (persist_outcome env now job cur out m qs l db) =
     update_where (version_is job (jr_StateVersion cur)) (outcome_set env now cur out m qs) (db_runtime db)"
  "db_jobs (persist_outcome env now job cur out m qs l db) =
     update_where (\<lambda>r. jb_id r = job) (set_status (string_of_LegacyStatus l) now) (db_jobs db)"
  "db_tasks (persist_outcome env now job cur out m qs l db) = db_tasks db"
  "db_event_seq (persist_outcome env now job cur out m qs l db) = db_event_seq db + 1"
  by (simp_all add: persist_outcome_def) (simp add: insertJobEvent_def)

lemma SetOutcome_applied:
  assumes ok: "life_ok db" and r: "find_runtime job db = Some r" and v: "validateOutcome out = Inr ()"
    and n: "\<not> (rt_state r = RO_State out \<and> rt_outcome_reason r = RO_Reason out \<and>
      rt_requested_stop r = StopReasonNone)"
    and t: "validOutcomeTransition (rt_state r) out"
  obtains l qs where
    "qs = (if RO_State out = StateQueued then max_queue_seq db + 1 else 0)"
    "LegacyStatusForState (RO_State out) = Inr l"
    "SetOutcome env now job out message db =
       (Inr (runtime_of env (outcome_set env now (runtime_of env r) out message qs r)),
        persist_outcome env now job (runtime_of env r) out message qs l db)"
    "runtime_ok (outcome_set env now (runtime_of env r) out message qs r)"
    "life_ok (persist_outcome env now job (runtime_of env r) out message qs l db)"
proof -
  note row = life_ok_row [OF ok r]
  have m: "0 \<le> max_queue_seq db" using ok max_queue_seq_nonneg by (simp add: life_ok_def)
  define qs where "qs = (if RO_State out = StateQueued then max_queue_seq db + 1 else 0)"
  have ok': "runtime_ok (outcome_set env now (runtime_of env r) out message qs r)"
    by (rule outcome_set_ok [OF row m v]) (simp add: qs_def)
  obtain l where l: "LegacyStatusForState (RO_State out) = Inr l"
    using LegacyStatusForState_valid validateOutcome_valid [OF v] by blast
  let ?db' = "persist_outcome env now job (runtime_of env r) out message qs l db"
  have f: "find_runtime job ?db' = Some (outcome_set env now (runtime_of env r) out message qs r)"
    by (rule find_runtime_replaced(1) [OF r]) simp_all
  have q: "(if RO_State out = StateQueued then nextQueueSequence db else Inr 0) = Inr qs"
    by (simp add: nextQueueSequence_ok [OF ok] qs_def)
  have "SetOutcome env now job out message db =
      (Inr (runtime_of env (outcome_set env now (runtime_of env r) out message qs r)), ?db')"
    using q n t
    by (auto simp add: SetOutcome_def v readRuntime_Some [OF r row] readRuntime_Some [OF f ok'] l
      version_count [OF ok r])
  moreover have "life_ok ?db'"
    by (rule persist_life_ok [OF ok r, of "outcome_set env now (runtime_of env r) out message qs"])
      (use ok' in \<open>auto simp: legacy_text_eq [OF l] qs_def m\<close>)
  ultimately show thesis using that qs_def l ok' by blast
qed

lemma ApplyControl_life_ok:
  assumes ok: "life_ok db"
  shows "life_ok (snd (ApplyControl env now job c db))"
proof (cases "find_runtime job db")
  case None
  then show ?thesis using ok by (simp add: ApplyControl_def readRuntime_None)
next
  case (Some r)
  note rd = readRuntime_Some [OF Some life_ok_row [OF ok Some], of env]
  show ?thesis
  proof (cases "DecideControl (rt_state r) (rt_requested_stop r) c")
    case (Inl e)
    then show ?thesis using ok by (simp add: ApplyControl_def rd)
  next
    case (Inr d)
    show ?thesis
    proof (cases "ControlDecision_Changed d")
      case True
      then show ?thesis
        by (rule ApplyControl_applied [OF ok Some Inr, of env now]) simp
    next
      case False
      then show ?thesis using ok Inr by (simp add: ApplyControl_def rd split: sum.split)
    qed
  qed
qed

lemma SetOutcome_cases:
  assumes ok: "life_ok db"
  obtains (unchanged) "snd (SetOutcome env now job out message db) = db"
    | (changed) r where "find_runtime job db = Some r" "validateOutcome out = Inr ()"
      "\<not> (rt_state r = RO_State out \<and> rt_outcome_reason r = RO_Reason out \<and>
        rt_requested_stop r = StopReasonNone)"
      "validOutcomeTransition (rt_state r) out"
proof (cases "validateOutcome out")
  case (Inl e)
  then show ?thesis by (intro unchanged) (simp add: SetOutcome_def)
next
  case v: (Inr u)
  show ?thesis
  proof (cases "find_runtime job db")
    case None
    then show ?thesis by (intro unchanged) (simp add: SetOutcome_def v readRuntime_None)
  next
    case (Some r)
    note rd = readRuntime_Some [OF Some life_ok_row [OF ok Some], of env]
    show ?thesis
    proof (cases "rt_state r = RO_State out \<and> rt_outcome_reason r = RO_Reason out \<and>
        rt_requested_stop r = StopReasonNone \<or> \<not> validOutcomeTransition (rt_state r) out")
      case True
      then show ?thesis by (intro unchanged) (auto simp: SetOutcome_def v rd)
    next
      case False
      then show ?thesis using changed [OF Some] v by simp
    qed
  qed
qed

lemma SetOutcome_life_ok:
  assumes ok: "life_ok db"
  shows "life_ok (snd (SetOutcome env now job out message db))"
  using ok
proof (cases rule: SetOutcome_cases [of db env now job out message])
  case (changed r)
  show ?thesis by (rule SetOutcome_applied [OF ok changed, of env now message]) simp
qed (use ok in simp)

section \<open>Creating and deleting\<close>

lemma runtime_ok_new:
  assumes "State_Valid s" "0 \<le> q" "s = StateQueued \<longrightarrow> 0 < q"
  shows "runtime_ok (new_runtime job s (lifecycleStage s) m p q qa (nullableTerminalTime s t) cfg c u)"
  using assms by (cases s) (simp_all add: runtime_ok_def new_runtime_def stop_fits_def nullableTerminalTime_def)

lemma find_runtime_none_jobs: "find_runtime job db = None \<longleftrightarrow> job \<notin> set (map rt_job_id (db_runtime db))"
  by (auto simp: find_runtime_def find_None_iff)

text \<open>A new job row with its sound runtime row at the end of the tables.\<close>

lemma life_ok_insert:
  assumes ok: "life_ok db" and r: "find_runtime (rt_job_id r) db = None" "runtime_ok r"
    and seq: "rt_queue_seq r = 0 \<or> rt_queue_seq r = max_queue_seq db + 1"
    and j: "jb_id j = rt_job_id r" "jb_status j = legacy_text (rt_state r)"
    and new: "db_runtime db' = db_runtime db @ [r]" "db_jobs db' = db_jobs db @ [j]"
  shows "life_ok db'"
proof -
  have d: "distinct (map rt_job_id (db_runtime db))" and all: "list_all runtime_ok (db_runtime db)"
    and q: "distinct (queue_numbers (db_runtime db))" and pr: "\<forall>x \<in> set (db_jobs db). projected db x"
    using ok by (simp_all add: life_ok_def)
  have fresh: "rt_job_id r \<notin> set (map rt_job_id (db_runtime db))"
    using r(1) by (simp add: find_runtime_none_jobs)
  have "rt_queue_seq r \<notin> set (queue_numbers (db_runtime db)) \<or> \<not> 0 < rt_queue_seq r"
    using seq max_queue_seq_ge [of _ db] by (force simp: queue_numbers_def)
  then have "distinct (queue_numbers (db_runtime db'))"
    unfolding new(1) using q by (auto simp: queue_numbers_def)
  moreover have old: "find_runtime k db' = (case find_runtime k db of
      None \<Rightarrow> if rt_job_id r = k then Some r else None | Some x \<Rightarrow> Some x)" for k
    by (simp add: find_runtime_def new(1) find_append split: option.split)
  have "projected db' x" if x: "x \<in> set (db_jobs db')" for x
  proof (cases "x \<in> set (db_jobs db)")
    case True
    then obtain y where "find_runtime (jb_id x) db = Some y" "jb_status x = legacy_text (rt_state y)"
      using pr by (auto simp: projected_def)
    then show ?thesis by (simp add: projected_def old)
  next
    case False
    then have "x = j" using x by (simp add: new(2))
    then show ?thesis using r(1) j by (simp add: projected_def old)
  qed
  moreover have "distinct (map rt_job_id (db_runtime db'))"
    unfolding new(1) using d fresh by simp
  moreover have "list_all runtime_ok (db_runtime db')"
    unfolding new(1) using all r(2) by simp
  ultimately show ?thesis by (simp add: life_ok_def)
qed

lemma CreateWithState_life_ok:
  assumes ok: "life_ok db"
  shows "life_ok (snd (CreateWithState env now item state db))"
proof (cases "State_Valid state")
  case False
  then show ?thesis using ok by (simp add: CreateWithState_def)
next
  case v: True
  obtain l where l: "LegacyStatusForState state = Inr l"
    using LegacyStatusForState_valid [OF v] by blast
  have m: "0 \<le> max_queue_seq db" using ok max_queue_seq_nonneg by (simp add: life_ok_def)
  define q where "q = (if state = StateQueued then max_queue_seq db + 1 else 0)"
  have q: "(if state = StateQueued then nextQueueSequence db else Inr 0) = Inr q"
    by (simp add: nextQueueSequence_ok [OF ok] q_def)
  have new: "runtime_ok (new_runtime job state (lifecycleStage state) ms p q qa
      (nullableTerminalTime state t) cfg c u)" for job ms p qa t cfg c u
    by (rule runtime_ok_new [OF v]) (use m in \<open>simp_all add: q_def\<close>)
  show ?thesis
    using ok unfolding CreateWithState_def q
    by (auto simp: v l Let_def split: if_split
      intro!: life_ok_insert [OF ok _ new] simp: new_runtime_def jobToRow_def legacy_text_eq [OF l] q_def)
qed

lemma Delete_life_ok:
  assumes ok: "life_ok db"
  shows "life_ok (Delete job db)"
proof -
  have "find_runtime k (Delete job db) = find_runtime k db" if "k \<noteq> job" for k
  proof -
    have "find (\<lambda>r. rt_job_id r = k) (filter (\<lambda>r. rt_job_id r \<noteq> job) rows) =
        find (\<lambda>r. rt_job_id r = k) rows" for rows
      using that by (induction rows) auto
    then show ?thesis by (simp add: find_runtime_def Delete_def)
  qed
  then have "\<forall>j \<in> set (db_jobs (Delete job db)). projected (Delete job db) j"
    using ok by (auto simp: life_ok_def projected_def Delete_def)
  moreover have "distinct (queue_numbers (filter (\<lambda>r. rt_job_id r \<noteq> job) rows))"
    if "distinct (queue_numbers rows)" for rows
    using that by (induction rows) (auto simp: queue_numbers_def)
  ultimately show ?thesis
    using ok by (auto simp: life_ok_def Delete_def distinct_map_filter list_all_iff)
qed

section \<open>The legacy update\<close>

lemma projectedState_valid: "State_Valid s \<Longrightarrow> State_Valid (projectedState i s)"
  by (cases i) (auto simp: projectedState_def)

lemma life_ok_restore:
  assumes "life_ok_but job db" "find_runtime job db = Some r"
    "\<And>j. jb_id (g j) = jb_id j" "\<And>j. jb_status (g j) = legacy_text (rt_state r)"
    "db_runtime db' = db_runtime db" "db_jobs db' = update_where (\<lambda>j. jb_id j = job) g (db_jobs db)"
  shows "life_ok db'"
  using assms by (auto simp: life_ok_def life_ok_but_def projected_def find_runtime_def set_update_where)

lemma life_ok_but_row: "life_ok_but job db \<Longrightarrow> find_runtime k db = Some r \<Longrightarrow> runtime_ok r"
  using find_runtime_job by (fastforce simp: life_ok_but_def list_all_iff)

lemma set_projected_ok:
  assumes "runtime_ok r" "s = projectedState i (rt_state r)" "s \<noteq> rt_state r"
  shows "runtime_ok (set_projected s
      (case s of StateRunning \<Rightarrow> StageSearchingMaps | StateCompleted \<Rightarrow> StageSavingExporting | _ \<Rightarrow> rt_stage r)
      m p (if s \<in> {StateRunning, StateCompleted, StateFailed} then StopReasonNone else rt_requested_stop r)
      (case s of StateRunning \<Rightarrow> StopReasonNone | StateCompleted \<Rightarrow> StopReasonCompleted
         | StateFailed \<Rightarrow> StopReasonFatalError | _ \<Rightarrow> rt_outcome_reason r)
      st (case s of StateRunning \<Rightarrow> None | StateCompleted \<Rightarrow> Some u | StateFailed \<Rightarrow> Some u
         | _ \<Rightarrow> rt_finished_at r) u r)"
  using assms
  by (cases i) (auto simp: projectedState_def runtime_ok_def set_projected_def stop_fits_def split: if_splits)

lemma applyLegacyRuntimeProjection_applied:
  assumes row: "runtime_ok r" and r: "find_runtime (jb_id item) db = Some r"
    and s: "s = projectedState i (rt_state r)"
    and res: "applyLegacyRuntimeProjection env item i db = Inr db'"
  obtains (same) l where "s = rt_state r" "LegacyStatusForState s = Inr l" "db_runtime db' = db_runtime db"
      "db_jobs db' = update_where (\<lambda>x. jb_id x = jb_id item)
        (\<lambda>x. x\<lparr>jb_status := string_of_LegacyStatus l\<rparr>) (db_jobs db)"
    | (moved) l f where "s \<noteq> rt_state r" "LegacyStatusForState s = Inr l" "runtime_ok (f r)"
      "\<And>x. rt_job_id (f x) = rt_job_id x" "\<And>x. rt_queue_seq (f x) = rt_queue_seq x"
      "\<And>x. rt_state (f x) = s" "\<And>x. rt_state_version (f x) = rt_state_version x + 1"
      "db_runtime db' = update_where (version_is (jb_id item) (rt_state_version r)) f (db_runtime db)"
      "db_jobs db' = update_where (\<lambda>x. jb_id x = jb_id item)
        (\<lambda>x. x\<lparr>jb_status := string_of_LegacyStatus l\<rparr>) (db_jobs db)"
proof -
  obtain l where l: "LegacyStatusForState s = Inr l"
    using LegacyStatusForState_valid [of s] projectedState_valid row by (auto simp: s runtime_ok_def)
  note rd = readRuntime_Some [OF r row]
  show thesis
  proof (cases "s = rt_state r")
    case True
    with res l show thesis
      by (intro same) (auto simp: applyLegacyRuntimeProjection_def rd Let_def s [symmetric])
  next
    case False
    define f where "f = set_projected s
      (case s of StateRunning \<Rightarrow> StageSearchingMaps | StateCompleted \<Rightarrow> StageSavingExporting | _ \<Rightarrow> rt_stage r)
      (case s of StateRunning \<Rightarrow> ''job started'' | StateCompleted \<Rightarrow> ''job completed''
         | StateFailed \<Rightarrow> ''job failed'' | _ \<Rightarrow> jr_Message (runtime_of env r))
      (case s of StateCompleted \<Rightarrow> Fin 100 | _ \<Rightarrow> jr_Progress (runtime_of env r))
      (if s \<in> {StateRunning, StateCompleted, StateFailed} then StopReasonNone else rt_requested_stop r)
      (case s of StateRunning \<Rightarrow> StopReasonNone | StateCompleted \<Rightarrow> StopReasonCompleted
         | StateFailed \<Rightarrow> StopReasonFatalError | _ \<Rightarrow> rt_outcome_reason r)
      (if s = StateRunning \<and> rt_started_at r = None then Some (jb_updated_at item) else rt_started_at r)
      (case s of StateRunning \<Rightarrow> None | StateCompleted \<Rightarrow> Some (jb_updated_at item)
         | StateFailed \<Rightarrow> Some (jb_updated_at item) | _ \<Rightarrow> rt_finished_at r) (jb_updated_at item)"
    have sound: "runtime_ok (f r)"
      unfolding f_def by (rule set_projected_ok [OF row s False])
    have "db_runtime db' = update_where (version_is (jb_id item) (rt_state_version r)) f (db_runtime db) \<and>
        db_jobs db' = update_where (\<lambda>x. jb_id x = jb_id item)
          (\<lambda>x. x\<lparr>jb_status := string_of_LegacyStatus l\<rparr>) (db_jobs db)"
      using res l False
      by (auto simp: applyLegacyRuntimeProjection_def rd Let_def s [symmetric] f_def
          split: if_split_asm cong: State.case_cong)
    then show thesis
      using sound by (intro moved [OF False l, of f]) (simp_all add: f_def set_projected_def)
  qed
qed

lemma applyLegacyRuntimeProjection_life_ok:
  assumes ok: "life_ok_but (jb_id item) db" and r: "find_runtime (jb_id item) db = Some r"
    and res: "applyLegacyRuntimeProjection env item i db = Inr db'"
  shows "life_ok db'"
proof (rule applyLegacyRuntimeProjection_applied [OF life_ok_but_row [OF ok r] r refl res])
  fix l assume "projectedState i (rt_state r) = rt_state r" and
    l: "LegacyStatusForState (projectedState i (rt_state r)) = Inr l" and
    new: "db_runtime db' = db_runtime db" "db_jobs db' = update_where (\<lambda>x. jb_id x = jb_id item)
        (\<lambda>x. x\<lparr>jb_status := string_of_LegacyStatus l\<rparr>) (db_jobs db)"
  then show "life_ok db'"
    by (intro life_ok_restore [OF ok r _ _ new]) (simp_all add: legacy_text_eq [OF l])
next
  fix l f assume f: "runtime_ok (f r)" "\<And>x. rt_job_id (f x) = rt_job_id x"
      "\<And>x. rt_queue_seq (f x) = rt_queue_seq x" "\<And>x. rt_state (f x) = projectedState i (rt_state r)"
    and l: "LegacyStatusForState (projectedState i (rt_state r)) = Inr l"
    and new: "db_runtime db' = update_where (version_is (jb_id item) (rt_state_version r)) f (db_runtime db)"
      "db_jobs db' = update_where (\<lambda>x. jb_id x = jb_id item)
        (\<lambda>x. x\<lparr>jb_status := string_of_LegacyStatus l\<rparr>) (db_jobs db)"
  show "life_ok db'"
    by (rule life_ok_replace [OF ok r _ _ f(2,1) _ _ _ new])
      (use find_runtime_job [OF r] in \<open>simp_all add: version_is_def f legacy_text_eq [OF l]\<close>)
qed

text \<open>
  Writers of the other columns (counters, timestamps, configuration, sampling) cannot disturb the
  invariant: it reads the lifecycle columns only.
\<close>

definition lifecycle_columns :: "RuntimeRow \<Rightarrow> string \<times> State \<times> Stage \<times> StopReason \<times> StopReason \<times> int option \<times> int \<times> int" where
  "lifecycle_columns r = (rt_job_id r, rt_state r, rt_stage r, rt_requested_stop r,
     rt_outcome_reason r, rt_finished_at r, rt_queue_seq r, rt_state_version r)"

lemma find_runtime_columns:
  assumes "map lifecycle_columns rows' = map lifecycle_columns rows"
  shows "map_option lifecycle_columns (find (\<lambda>r. rt_job_id r = k) rows') =
    map_option lifecycle_columns (find (\<lambda>r. rt_job_id r = k) rows)"
  using assms
proof (induction rows arbitrary: rows')
  case (Cons r rows)
  then obtain r' rest where c: "rows' = r' # rest" by (cases rows') simp_all
  have same: "lifecycle_columns r' = lifecycle_columns r" "map lifecycle_columns rest = map lifecycle_columns rows"
    using Cons.prems unfolding c list.map by simp_all
  have "rt_job_id r' = rt_job_id r" using same(1) by (simp add: lifecycle_columns_def)
  then show ?case unfolding c using Cons.IH [OF same(2)] same(1) by simp
qed simp

lemma life_ok_but_columns:
  assumes ok: "life_ok_but job db" and new:
    "map lifecycle_columns (db_runtime db') = map lifecycle_columns (db_runtime db)"
    "db_jobs db' = db_jobs db"
  shows "life_ok_but job db'"
proof -
  have same: "map h (db_runtime db') = map h (db_runtime db)"
    if h: "h = g \<circ> lifecycle_columns" for h :: "RuntimeRow \<Rightarrow> 'b" and g
    unfolding h using new(1) by (metis map_map)
  have "projected db' j" if pr: "projected db j" for j
  proof -
    obtain r where r: "find_runtime (jb_id j) db = Some r" "jb_status j = legacy_text (rt_state r)"
      using pr by (auto simp: projected_def)
    have "map_option lifecycle_columns (find_runtime (jb_id j) db') = Some (lifecycle_columns r)"
      using r(1) find_runtime_columns [OF new(1), of "jb_id j"] by (simp add: find_runtime_def)
    then show ?thesis using r(2) by (auto simp: projected_def lifecycle_columns_def)
  qed
  moreover have "map runtime_ok (db_runtime db') = map runtime_ok (db_runtime db)"
    by (rule same [of _ "\<lambda>(i, s, g, q, o1, t, n, v). State_Valid s \<and> Stage_Valid g \<and>
          StopReason_Valid q \<and> StopReason_Valid o1 \<and> stop_fits s q \<and>
          (t \<noteq> None \<longleftrightarrow> State_Terminal s) \<and> 0 \<le> n \<and> (s = StateQueued \<longrightarrow> 0 < n)"])
      (simp add: fun_eq_iff runtime_ok_def lifecycle_columns_def)
  then have "list_all runtime_ok (db_runtime db') = list_all runtime_ok (db_runtime db)"
    by (metis list_all_length length_map nth_map)
  moreover have "map rt_job_id (db_runtime db') = map rt_job_id (db_runtime db)"
    by (rule same [of _ fst]) (simp add: fun_eq_iff lifecycle_columns_def)
  moreover have "map rt_queue_seq (db_runtime db') = map rt_queue_seq (db_runtime db)"
    by (rule same [of _ "\<lambda>(i, s, g, q, o1, t, n, v). n"]) (simp add: fun_eq_iff lifecycle_columns_def)
  ultimately show ?thesis
    using ok by (simp add: life_ok_but_def queue_numbers_def new(2))
qed

lemma life_ok_columns:
  assumes ok: "life_ok db" and new:
    "map lifecycle_columns (db_runtime db') = map lifecycle_columns (db_runtime db)"
    "db_jobs db' = db_jobs db"
  shows "life_ok db'"
proof -
  have "life_ok_but k db'" for k by (rule life_ok_but_columns [OF life_ok_butI [OF ok] new])
  then have but: "life_ok_but k db'" for k by simp
  have "projected db' j" if "j \<in> set (db_jobs db')" for j
    using but [of "CHR ''x'' # jb_id j"] that by (simp add: life_ok_but_def)
  then show ?thesis using but [of "[]"] by (simp add: life_ok_def life_ok_but_def)
qed

lemma columns_update [simp]:
  "(\<And>r. lifecycle_columns (f r) = lifecycle_columns r) \<Longrightarrow>
    map lifecycle_columns (update_where p f rows) = map lifecycle_columns rows"
  by (rule keys_kept)

lemma life_ok_but_frames [simp]:
  "life_ok_but job (db\<lparr>db_progress := pgs\<rparr>) = life_ok_but job db"
  "life_ok_but job (db\<lparr>db_configs := cfs\<rparr>) = life_ok_but job db"
  by (simp_all add: life_ok_but_def projected_def find_runtime_def)

lemma find_runtime_updated:
  assumes "find_runtime job db = Some r"
    "db_runtime db' = update_where (\<lambda>r. rt_job_id r = job)
      (\<lambda>r. r\<lparr>rt_updated_at := u, rt_config_snapshot := cfg\<rparr>) (db_runtime db)"
  shows "find_runtime job db' = Some (r\<lparr>rt_updated_at := u, rt_config_snapshot := cfg\<rparr>)"
  using assms find_runtime_job [OF assms(1)]
    find_kept [of rt_job_id "\<lambda>r. r\<lparr>rt_updated_at := u, rt_config_snapshot := cfg\<rparr>" job
      "\<lambda>r. rt_job_id r = job" "db_runtime db"]
  by (simp add: find_runtime_def)

lemma upsertJobFoundation_life_ok:
  assumes ok: "life_ok_but (jb_id item) db" and r: "find_runtime (jb_id item) db = Some r"
    and res: "upsertJobFoundation env item db = Inr db'"
  shows "life_ok db'"
proof -
  let ?rts = "update_where (\<lambda>r. rt_job_id r = jb_id item)
    (\<lambda>r. r\<lparr>rt_updated_at := jb_updated_at item, rt_config_snapshot := jb_data item\<rparr>) (db_runtime db)"
  obtain cfs pgs where ap: "applyLegacyRuntimeProjection env item
      (lifecycleStateFromLegacyStatus (jb_status item))
      (db\<lparr>db_runtime := ?rts, db_configs := cfs, db_progress := pgs\<rparr>) = Inr db'"
    using res by (auto simp: upsertJobFoundation_def r Let_def split: sum.splits)
  show ?thesis
  proof (rule applyLegacyRuntimeProjection_life_ok [OF _ _ ap])
    show "life_ok_but (jb_id item) (db\<lparr>db_runtime := ?rts, db_configs := cfs, db_progress := pgs\<rparr>)"
      by (rule life_ok_but_columns [OF ok]) (simp_all add: lifecycle_columns_def)
    show "find_runtime (jb_id item) (db\<lparr>db_runtime := ?rts, db_configs := cfs, db_progress := pgs\<rparr>) =
        Some (r\<lparr>rt_updated_at := jb_updated_at item, rt_config_snapshot := jb_data item\<rparr>)"
      by (rule find_runtime_updated [OF r]) simp
  qed
qed

lemma life_ok_but_jobs:
  assumes "life_ok db" "\<And>x. jb_id (g x) = jb_id x"
  shows "life_ok_but job (db\<lparr>db_jobs := update_where (\<lambda>x. jb_id x = job) g (db_jobs db)\<rparr>)"
  using assms by (auto simp: life_ok_but_def life_ok_def projected_def find_runtime_def set_update_where)

lemma Update_life_ok:
  assumes ok: "life_ok db"
  shows "life_ok (snd (Update env now item db))"
proof -
  define row where "row = jobToRow now item"
  define db1 where "db1 = db\<lparr>db_jobs := update_where (\<lambda>x. jb_id x = jb_id row) (set_job row) (db_jobs db)\<rparr>"
  show ?thesis
  proof (cases "count_where (\<lambda>r. jb_id r = jb_id row) (db_jobs db) = 0")
    case True
    then have "db1 = db" by (simp add: db1_def count_where_0 update_where_none)
    then show ?thesis using ok True by (simp add: Update_def row_def [symmetric] db1_def [symmetric])
  next
    case False
    then obtain x where "x \<in> set (db_jobs db)" "jb_id x = jb_id row"
      by (auto simp: count_where_0)
    then obtain r where r: "find_runtime (jb_id row) db = Some r"
      using ok by (fastforce simp: life_ok_def projected_def)
    have r1: "find_runtime (jb_id row) db1 = Some r" using r by (simp add: db1_def find_runtime_def)
    have but: "life_ok_but (jb_id row) db1"
      unfolding db1_def by (rule life_ok_but_jobs [OF ok]) (simp add: set_job_def)
    show ?thesis
    proof (cases "upsertJobFoundation env row db1")
      case (Inl e)
      then show ?thesis using ok False by (simp add: Update_def row_def [symmetric] db1_def [symmetric])
    next
      case (Inr db2)
      then show ?thesis using upsertJobFoundation_life_ok [OF but r1 Inr] False
        by (simp add: Update_def row_def [symmetric] db1_def [symmetric])
    qed
  qed
qed

section \<open>Crash recovery\<close>

lemma updateTaskAggregates_life_ok: "life_ok db \<Longrightarrow> life_ok (updateTaskAggregates job now db)"
  by (rule life_ok_columns [of db])
    (simp_all add: updateTaskAggregates_def Let_def lifecycle_columns_def set_task_totals_def)

lemma recoverJob_life_ok:
  assumes ok: "life_ok db" and r: "find_runtime (fst js) db = Some r" "abandoned r"
  shows "life_ok (recoverJob env now js db)"
proof -
  have sound: "runtime_ok (set_recovered now r)"
    using life_ok_row [OF ok r(1)] by (auto simp: runtime_ok_def set_recovered_def stop_fits_def)
  define db1 where "db1 = db\<lparr>
      db_runtime := update_where (\<lambda>x. rt_job_id x = fst js \<and> abandoned x) (set_recovered now) (db_runtime db),
      db_jobs := update_where (\<lambda>x. jb_id x = fst js) (set_status ''pending'' now) (db_jobs db),
      db_tasks := update_where (\<lambda>x. tk_job_id x = fst js \<and> tk_state x = taskStateRunning)
        (set_interrupted now) (db_tasks db)\<rparr>"
  have "life_ok db1"
    by (rule life_ok_replace [OF life_ok_butI [OF ok] r(1),
          of "\<lambda>x. rt_job_id x = fst js \<and> abandoned x" "set_recovered now" "set_status ''pending'' now"])
      (use find_runtime_job [OF r(1)] r(2) sound in
        \<open>simp_all add: db1_def set_recovered_def set_status_def legacy_text_def\<close>)
  then show ?thesis
    by (simp add: recoverJob_def Let_def db1_def [symmetric] updateTaskAggregates_life_ok)
qed

lemma find_runtime_recoverJob:
  "k \<noteq> fst js \<Longrightarrow> find_runtime k (recoverJob env now js db) = find_runtime k db"
  by (simp add: recoverJob_def updateTaskAggregates_def Let_def find_runtime_def find_update_none
      set_task_totals_def set_recovered_def)

lemma recoverJobs_life_ok:
  "life_ok db \<Longrightarrow> distinct (map fst jobs) \<Longrightarrow>
    \<forall>js \<in> set jobs. \<exists>r. find_runtime (fst js) db = Some r \<and> abandoned r \<Longrightarrow>
    life_ok (fold (recoverJob env now) jobs db)"
proof (induction jobs arbitrary: db)
  case (Cons js jobs)
  obtain r where "find_runtime (fst js) db = Some r" "abandoned r" using Cons.prems(3) by auto
  then have ok: "life_ok (recoverJob env now js db)" by (rule recoverJob_life_ok [OF Cons.prems(1)])
  have other: "fst x \<noteq> fst js" if "x \<in> set jobs" for x
    using that Cons.prems(2) by (metis distinct.simps(2) image_eqI list.set_map list.simps(9))
  show ?case
    using Cons.IH [OF ok] Cons.prems(2,3) other find_runtime_recoverJob by simp
qed simp

lemma find_runtime_distinct:
  "distinct (map rt_job_id (db_runtime db)) \<Longrightarrow> r \<in> set (db_runtime db) \<Longrightarrow>
    find_runtime (rt_job_id r) db = Some r"
proof -
  have "r \<in> set rows \<Longrightarrow> distinct (map rt_job_id rows) \<Longrightarrow> find (\<lambda>x. rt_job_id x = rt_job_id r) rows = Some r"
    for rows by (induction rows) (auto simp: image_iff)
  then show "distinct (map rt_job_id (db_runtime db)) \<Longrightarrow> r \<in> set (db_runtime db) \<Longrightarrow> ?thesis"
    by (simp add: find_runtime_def)
qed

lemma abandonedJobs_found:
  assumes ok: "life_ok db"
  shows "distinct (map fst (abandonedJobs db))"
    "\<forall>js \<in> set (abandonedJobs db). \<exists>r. find_runtime (fst js) db = Some r \<and> abandoned r"
proof -
  have d: "distinct (map rt_job_id (db_runtime db))" using ok by (simp add: life_ok_def)
  have "distinct (map rt_job_id (sort_key rt_job_id (filter abandoned (db_runtime db))))"
    using d by (simp add: distinct_map inj_on_def)
  then show "distinct (map fst (abandonedJobs db))" by (simp add: abandonedJobs_def comp_def)
  show "\<forall>js \<in> set (abandonedJobs db). \<exists>r. find_runtime (fst js) db = Some r \<and> abandoned r"
    using find_runtime_distinct [OF d] by (auto simp: abandonedJobs_def)
qed

lemma RecoverAbandonedJobs_life_ok:
  "life_ok db \<Longrightarrow> life_ok (snd (RecoverAbandonedJobs env now db))"
  by (simp add: RecoverAbandonedJobs_def Let_def recoverJobs_life_ok abandonedJobs_found)

end
