(* ===== verification/LifecycleProperties.thy ===== *)
theory LifecycleProperties
  imports LifecycleLaws TaskProperties
begin

text \<open>
  The properties of the job repository over whole histories: every operation that writes a job,
  its runtime row or its tasks, in any order and at any times, from the empty database.
\<close>

section \<open>Histories of the repository\<close>

datatype repo_op =
    OpCreate Job State
  | OpControl string Control
  | OpOutcome string RunOutcome string
  | OpUpdate Job
  | OpDelete string
  | OpRecover
  | OpPlan plan_op

fun run_repo_op :: "Env \<Rightarrow> int \<Rightarrow> repo_op \<Rightarrow> Db \<Rightarrow> Db" where
  "run_repo_op env now (OpCreate item state) db = snd (CreateWithState env now item state db)"
| "run_repo_op env now (OpControl job control) db = snd (ApplyControl env now job control db)"
| "run_repo_op env now (OpOutcome job out message) db = snd (SetOutcome env now job out message db)"
| "run_repo_op env now (OpUpdate item) db = snd (Update env now item db)"
| "run_repo_op env now (OpDelete job) db = Delete job db"
| "run_repo_op env now OpRecover db = snd (RecoverAbandonedJobs env now db)"
| "run_repo_op env now (OpPlan op) db = snd (run_op env now op db)"

fun run_repo :: "Env \<Rightarrow> (int \<times> repo_op) list \<Rightarrow> Db \<Rightarrow> Db" where
  "run_repo env [] db = db"
| "run_repo env ((now, op) # steps) db = run_repo env steps (run_repo_op env now op db)"

definition empty_db :: Db where
  "empty_db = \<lparr>db_jobs = [], db_runtime = [], db_progress = [], db_tasks = [], db_checkpoints = [],
     db_events = [], db_configs = [], db_event_seq = 0, db_checkpoint_seq = 0\<rparr>"

section \<open>The task operations leave the lifecycle alone\<close>

lemma columns_simps [simp]:
  "lifecycle_columns (set_task_totals s now r) = lifecycle_columns r"
  "lifecycle_columns (set_checkpointed now r) = lifecycle_columns r"
  by (simp_all add: lifecycle_columns_def set_task_totals_def set_checkpointed_def)

definition same_lifecycle :: "Db \<Rightarrow> Db \<Rightarrow> bool" where
  "same_lifecycle db db' \<longleftrightarrow>
     map lifecycle_columns (db_runtime db') = map lifecycle_columns (db_runtime db) \<and>
     db_jobs db' = db_jobs db"

lemma same_lifecycle_refl [simp]: "same_lifecycle db db"
  by (simp add: same_lifecycle_def)

lemma same_lifecycle_frames [simp]:
  "same_lifecycle db (insertJobEvent env j t s g m c n db') = same_lifecycle db db'"
  "same_lifecycle db (insertCheckpoint j k cp n db') = same_lifecycle db db'"
  "same_lifecycle db (updateTaskAggregates j n db') = same_lifecycle db db'"
  "same_lifecycle db (db'\<lparr>db_tasks := ts\<rparr>) = same_lifecycle db db'"
  "db_runtime db' = rows \<Longrightarrow>
     same_lifecycle db (db'\<lparr>db_runtime := update_where p (set_checkpointed now) rows\<rparr>) = same_lifecycle db db'"
  by (simp_all add: same_lifecycle_def insertCheckpoint_def updateTaskAggregates_def Let_def)

lemma prepareTasks_lifecycle:
  "prepareTasks env job m now ds db = Inr db' \<Longrightarrow> same_lifecycle db0 db \<Longrightarrow> same_lifecycle db0 db'"
  by (induction ds arbitrary: db)
    (auto simp: prepareTask_def split: sum.splits option.splits if_splits)

lemma appendTasks_lifecycle:
  "appendTasks env job m now ds keys db = Inr (keys', db') \<Longrightarrow> same_lifecycle db0 db \<Longrightarrow>
    same_lifecycle db0 db'"
  by (induction ds arbitrary: keys db)
    (auto split: option.splits if_splits)

lemma report_stale_lifecycle:
  "same_lifecycle db (fold (report_stale env now) js db') = same_lifecycle db db'"
  by (induction js arbitrary: db') (simp_all add: report_stale_def)

lemma run_op_lifecycle: "same_lifecycle db (snd (run_op env now op db))"
proof (cases op)
  case (OpPrepare job ds m)
  then show ?thesis
    by (auto simp: PrepareJobTasks_def Let_def outcome_of_def dest: prepareTasks_lifecycle [of _ _ _ _ _ _ _ db]
        split: sum.split)
next
  case (OpAppend job ds m)
  then show ?thesis
    by (auto simp: AppendJobTasks_def Let_def outcome_of_def dest: appendTasks_lifecycle [of _ _ _ _ _ _ _ _ _ db]
        split: sum.split prod.split)
next
  case (OpClaim job owner lease)
  then show ?thesis
    by (auto simp: ClaimNextJobTask_def reclaimExpiredTasks_def Let_def split: sum.split option.split)
next
  case OpReclaimStale
  then show ?thesis by (simp add: ReclaimStaleJobTasks_def Let_def report_stale_lifecycle)
next
  case (OpReclaim job)
  then show ?thesis by (simp add: ReclaimExpiredJobTasks_def reclaimExpiredTasks_def Let_def)
next
  case (OpStart job key)
  then show ?thesis by (auto simp: StartJobTask_def Let_def split: sum.split)
next
  case (OpHeartbeat job key owner lease)
  then show ?thesis by (simp add: HeartbeatJobTask_def Let_def)
next
  case (OpRelease job key owner reason)
  then show ?thesis by (simp add: ReleaseJobTask_def Let_def)
next
  case (OpComplete job key owner cp)
  then show ?thesis
    by (auto simp: CompleteJobTaskAs_def finishJobTask_def Let_def split: sum.split)
next
  case (OpFail job key owner e retryable cp)
  then show ?thesis
    by (auto simp: FailJobTaskAs_def finishJobTask_def Let_def split: sum.split)
next
  case (OpSkip job reason)
  then show ?thesis by (auto simp: SkipPendingJobTasks_def Let_def split: sum.split)
next
  case (OpDefer job key until)
  then show ?thesis by (simp add: DeferJobTask_def)
qed

lemma same_lifecycle_ok: "same_lifecycle db db' \<Longrightarrow> life_ok db \<Longrightarrow> life_ok db'"
  by (simp add: same_lifecycle_def life_ok_columns)

section \<open>The invariant of every history\<close>

lemma run_repo_op_life_ok: "life_ok db \<Longrightarrow> life_ok (run_repo_op env now op db)"
  by (cases op) (simp_all add: CreateWithState_life_ok ApplyControl_life_ok SetOutcome_life_ok
      Update_life_ok Delete_life_ok RecoverAbandonedJobs_life_ok same_lifecycle_ok [OF run_op_lifecycle])

lemma run_repo_life_ok: "life_ok db \<Longrightarrow> life_ok (run_repo env steps db)"
  by (induction env steps db rule: run_repo.induct) (simp_all add: run_repo_op_life_ok)

lemma life_ok_empty: "life_ok empty_db"
  by (simp add: life_ok_def empty_db_def queue_numbers_def)

text \<open>
  C1: in every database that any history of job, control, outcome, legacy, deletion, recovery and
  task operations can reach from the empty one: each job has one runtime row; the legacy status of
  a job row is the one of its canonical state; a finish time is set exactly in the terminal states;
  a stop request is pending only in a state that can still honour it; and queued jobs carry
  pairwise distinct positive queue numbers.
\<close>

theorem reachable_jobs_coherent:
  "let db = run_repo env steps empty_db in
    distinct (map rt_job_id (db_runtime db)) \<and>
    distinct (filter (\<lambda>q. 0 < q) (map rt_queue_seq (db_runtime db))) \<and>
    list_all (\<lambda>j. \<exists>r l. find_runtime (jb_id j) db = Some r \<and>
      LegacyStatusForState (rt_state r) = Inr l \<and> jb_status j = string_of_LegacyStatus l) (db_jobs db) \<and>
    list_all (\<lambda>r. State_Valid (rt_state r) \<and>
      ((rt_finished_at r = None) = (\<not> State_Terminal (rt_state r))) \<and>
      stop_fits (rt_state r) (rt_requested_stop r) \<and>
      (if rt_state r = StateQueued then 0 < rt_queue_seq r else True)) (db_runtime db)"
proof -
  define db where "db = run_repo env steps empty_db"
  have ok: "life_ok db" unfolding db_def by (rule run_repo_life_ok [OF life_ok_empty])
  have "\<exists>r l. find_runtime (jb_id j) db = Some r \<and>
      LegacyStatusForState (rt_state r) = Inr l \<and> jb_status j = string_of_LegacyStatus l"
    if "j \<in> set (db_jobs db)" for j
  proof -
    obtain r where r: "find_runtime (jb_id j) db = Some r" "jb_status j = legacy_text (rt_state r)"
      using ok \<open>j \<in> set (db_jobs db)\<close> by (auto simp: life_ok_def projected_def)
    obtain l where "LegacyStatusForState (rt_state r) = Inr l"
      using life_ok_row [OF ok r(1)] LegacyStatusForState_valid by (auto simp: runtime_ok_def)
    then show ?thesis using r by (auto simp: legacy_text_def)
  qed
  then show ?thesis
    using ok by (auto simp: db_def [symmetric] Let_def life_ok_def runtime_ok_def queue_numbers_def list_all_iff)
qed

section \<open>How a state moves\<close>

text \<open>
  The moves of the persisted state: those of the table, and the four the writers add. An executor
  reconfiguring itself puts an active job back in the queue, recovery parks a job that was being
  cancelled, and the legacy update starts a queued job and completes a starting one directly.
\<close>

definition lifecycle_move :: "State \<Rightarrow> State \<Rightarrow> bool" where
  "lifecycle_move s t \<longleftrightarrow> s = t \<or> CanTransition s t \<or> State_Active s \<and> t = StateQueued \<or>
     s = StateCancelling \<and> t = StatePaused \<or> s = StateQueued \<and> t = StateRunning \<or>
     s = StateStarting \<and> t = StateCompleted"

definition row_step :: "RuntimeRow \<Rightarrow> RuntimeRow \<Rightarrow> bool" where
  "row_step r r' \<longleftrightarrow> lifecycle_move (rt_state r) (rt_state r') \<and>
     (rt_state_version r' = rt_state_version r \<and> rt_state r' = rt_state r \<or>
      rt_state_version r' = rt_state_version r + 1)"

definition rows_rel :: "(RuntimeRow \<Rightarrow> RuntimeRow \<Rightarrow> bool) \<Rightarrow> Db \<Rightarrow> Db \<Rightarrow> bool" where
  "rows_rel P db db' \<longleftrightarrow> (\<forall>job r r'. find_runtime job db = Some r \<longrightarrow>
     find_runtime job db' = Some r' \<longrightarrow> P r r')"

abbreviation rows_step :: "Db \<Rightarrow> Db \<Rightarrow> bool" where
  "rows_step \<equiv> rows_rel row_step"

lemma row_step_refl [simp]: "row_step r r"
  by (simp add: row_step_def lifecycle_move_def)

lemma rows_step_refl [simp]: "rows_step db db"
  by (simp add: rows_rel_def)

lemma rows_stepD:
  "rows_rel P db db' \<Longrightarrow> find_runtime k db = Some r \<Longrightarrow> find_runtime k db' = Some r' \<Longrightarrow> P r r'"
  by (simp add: rows_rel_def)

lemma rows_rel_mono: "rows_rel P db db' \<Longrightarrow> (\<And>r r'. P r r' \<Longrightarrow> Q r r') \<Longrightarrow> rows_rel Q db db'"
  by (simp add: rows_rel_def)

lemma rows_step_one:
  assumes "find_runtime job db = Some r" "find_runtime job db' = Some r'" "P r r'"
    "\<And>k. k \<noteq> job \<Longrightarrow> find_runtime k db' = find_runtime k db" "\<And>r. P r r"
  shows "rows_rel P db db'"
proof -
  have "P x x'" if "find_runtime k db = Some x" "find_runtime k db' = Some x'" for k x x'
    using that assms by (cases "k = job") simp_all
  then show ?thesis by (simp add: rows_rel_def)
qed

lemma same_lifecycle_step:
  assumes "same_lifecycle db db'"
  shows "rows_step db db'"
proof -
  have "row_step r r'" if "find_runtime k db = Some r" "find_runtime k db' = Some r'" for k r r'
  proof -
    have "lifecycle_columns r' = lifecycle_columns r"
      using that assms find_runtime_columns [of "db_runtime db'" "db_runtime db" k]
      by (simp add: same_lifecycle_def find_runtime_def)
    then show ?thesis by (simp add: lifecycle_columns_def row_step_def lifecycle_move_def)
  qed
  then show ?thesis by (simp add: rows_rel_def)
qed

lemma ApplyControl_cases:
  assumes ok: "life_ok db"
  obtains (unchanged) "snd (ApplyControl env now job c db) = db"
    | (changed) r d where "find_runtime job db = Some r"
      "DecideControl (rt_state r) (rt_requested_stop r) c = Inr d" "ControlDecision_Changed d"
proof (cases "find_runtime job db")
  case None
  then show ?thesis by (intro unchanged) (simp add: ApplyControl_def readRuntime_None)
next
  case (Some r)
  note rd = readRuntime_Some [OF Some life_ok_row [OF ok Some], of env]
  show ?thesis
  proof (cases "DecideControl (rt_state r) (rt_requested_stop r) c")
    case (Inl e)
    then show ?thesis by (intro unchanged) (simp add: ApplyControl_def rd)
  next
    case (Inr d)
    show ?thesis
    proof (cases "ControlDecision_Changed d")
      case True
      then show ?thesis by (rule changed [OF Some Inr])
    next
      case False
      then show ?thesis using Inr by (intro unchanged) (simp add: ApplyControl_def rd split: sum.split)
    qed
  qed
qed

lemma DecideControl_move:
  assumes "DecideControl s stop c = Inr d" "ControlDecision_Changed d"
  shows "s = CD_NextState d \<or> CanTransition s (CD_NextState d)"
  using assms by (cases rule: DecideControl_cases) (auto simp: job_defs split: if_splits)

lemma ApplyControl_rows_step:
  assumes ok: "life_ok db"
  shows "rows_step db (snd (ApplyControl env now job c db))"
  using ok
proof (cases rule: ApplyControl_cases [of db env now job c])
  case (changed r d)
  show ?thesis
  proof (rule ApplyControl_applied [OF ok changed, of env now])
    fix l qs assume a: "ApplyControl env now job c db =
       (ControlDone (runtime_of env (control_set env now (runtime_of env r) d qs r)) d,
        persist_control env now job (runtime_of env r) d qs l db)"
    note f = find_runtime_replaced [OF changed(1), of "snd (ApplyControl env now job c db)"
        "control_set env now (runtime_of env r) d qs"]
    show ?thesis
      by (rule rows_step_one [OF changed(1) f(1) _ f(2)])
        (use DecideControl_move [OF changed(2,3)] in
          \<open>auto simp: a row_step_def lifecycle_move_def\<close>)
  qed
qed simp

lemma SetOutcome_rows_step:
  assumes ok: "life_ok db"
  shows "rows_step db (snd (SetOutcome env now job out message db))"
  using ok
proof (cases rule: SetOutcome_cases [of db env now job out message])
  case (changed r)
  show ?thesis
  proof (rule SetOutcome_applied [OF ok changed, of env now message])
    fix l qs assume a: "SetOutcome env now job out message db =
       (Inr (runtime_of env (outcome_set env now (runtime_of env r) out message qs r)),
        persist_outcome env now job (runtime_of env r) out message qs l db)"
    note f = find_runtime_replaced [OF changed(1), of "snd (SetOutcome env now job out message db)"
        "outcome_set env now (runtime_of env r) out message qs"]
    show ?thesis
      by (rule rows_step_one [OF changed(1) f(1) _ f(2)])
        (use changed(4) in \<open>auto simp: a row_step_def lifecycle_move_def validOutcomeTransition_def\<close>)
  qed
qed simp

lemma CreateWithState_rows_step: "rows_step db (snd (CreateWithState env now item state db))"
  by (auto simp: CreateWithState_def Let_def rows_rel_def find_runtime_def find_append
      split: sum.split option.splits)

lemma find_runtime_Delete:
  "find_runtime k (Delete job db) = (if k = job then None else find_runtime k db)"
proof -
  have "find (\<lambda>r. rt_job_id r = k) (filter (\<lambda>r. rt_job_id r \<noteq> job) rows) =
      (if k = job then None else find (\<lambda>r. rt_job_id r = k) rows)" for rows :: "RuntimeRow list"
    by (induction rows) auto
  then show ?thesis by (simp add: find_runtime_def Delete_def)
qed

lemma Delete_rows_step: "rows_step db (Delete job db)"
  by (simp add: rows_rel_def find_runtime_Delete)

lemma projectedState_move: "lifecycle_move s (projectedState i s)"
  by (cases i; cases s) (simp_all add: projectedState_def lifecycle_move_def)

lemma projectedState_not_queued: "projectedState i s = StateQueued \<Longrightarrow> s = StateQueued"
  by (cases i) (auto simp: projectedState_def split: if_splits)

definition projected_step :: "RuntimeRow \<Rightarrow> RuntimeRow \<Rightarrow> bool" where
  "projected_step r r' \<longleftrightarrow> row_step r r' \<and> (rt_state r' = StateQueued \<longrightarrow> rt_state r = StateQueued)"

lemma projected_step_refl [simp]: "projected_step r r"
  by (simp add: projected_step_def)

lemma applyLegacyRuntimeProjection_rows_step:
  assumes row: "runtime_ok r" and r: "find_runtime (jb_id item) db = Some r"
    and res: "applyLegacyRuntimeProjection env item i db = Inr db'"
  shows "rows_rel projected_step db db'"
proof (rule applyLegacyRuntimeProjection_applied [OF row r refl res])
  assume "db_runtime db' = db_runtime db"
  then show "rows_rel projected_step db db'" by (simp add: rows_rel_def find_runtime_def)
next
  fix f assume f: "\<And>x. rt_job_id (f x) = rt_job_id x"
      "\<And>x. rt_state (f x) = projectedState i (rt_state r)" "\<And>x. rt_state_version (f x) = rt_state_version x + 1"
    and new: "db_runtime db' = update_where (version_is (jb_id item) (rt_state_version r)) f (db_runtime db)"
  note found = find_runtime_replaced [OF r new f(1)]
  show "rows_rel projected_step db db'"
    by (rule rows_step_one [OF r found(1) _ found(2)])
      (use projectedState_not_queued [of i "rt_state r"] in
        \<open>auto simp: projected_step_def row_step_def f projectedState_move\<close>)
qed

lemma upsertJobFoundation_rows_step:
  assumes ok: "runtime_ok r" and r: "find_runtime (jb_id item) db = Some r"
    and res: "upsertJobFoundation env item db = Inr db'"
  shows "rows_rel projected_step db db'"
proof -
  let ?rts = "update_where (\<lambda>r. rt_job_id r = jb_id item)
    (\<lambda>r. r\<lparr>rt_updated_at := jb_updated_at item, rt_config_snapshot := jb_data item\<rparr>) (db_runtime db)"
  let ?r = "r\<lparr>rt_updated_at := jb_updated_at item, rt_config_snapshot := jb_data item\<rparr>"
  obtain cfs pgs where ap: "applyLegacyRuntimeProjection env item
      (lifecycleStateFromLegacyStatus (jb_status item))
      (db\<lparr>db_runtime := ?rts, db_configs := cfs, db_progress := pgs\<rparr>) = Inr db'"
    using res by (auto simp: upsertJobFoundation_def r Let_def split: sum.splits)
  let ?db = "db\<lparr>db_runtime := ?rts, db_configs := cfs, db_progress := pgs\<rparr>"
  have f: "find_runtime (jb_id item) ?db = Some ?r"
    by (rule find_runtime_updated [OF r]) simp
  have step: "rows_rel projected_step ?db db'"
    by (rule applyLegacyRuntimeProjection_rows_step [OF _ f ap]) (use ok in \<open>simp add: runtime_ok_def\<close>)
  have other: "find_runtime k ?db = find_runtime k db" if "k \<noteq> jb_id item" for k
    using that by (simp add: find_runtime_def find_update_none)
  have "projected_step x x'" if x: "find_runtime k db = Some x" "find_runtime k db' = Some x'" for k x x'
  proof (cases "k = jb_id item")
    case True
    then have "x = r" using x(1) r by simp
    moreover have "projected_step ?r x'" by (rule rows_stepD [OF step _ x(2)]) (use True f in simp)
    ultimately show ?thesis by (simp add: projected_step_def row_step_def)
  next
    case False
    show ?thesis by (rule rows_stepD [OF step _ x(2)]) (simp only: other [OF False] x(1))
  qed
  then show ?thesis by (simp add: rows_rel_def)
qed

lemma Update_rows_step:
  assumes ok: "life_ok db"
  shows "rows_rel projected_step db (snd (Update env now item db))"
proof -
  define row where "row = jobToRow now item"
  define db1 where "db1 = db\<lparr>db_jobs := update_where (\<lambda>x. jb_id x = jb_id row) (set_job row) (db_jobs db)\<rparr>"
  have same: "find_runtime k db1 = find_runtime k db" for k by (simp add: db1_def find_runtime_def)
  show ?thesis
  proof (cases "count_where (\<lambda>r. jb_id r = jb_id row) (db_jobs db) = 0 \<or>
      (\<exists>e. upsertJobFoundation env row db1 = Inl e)")
    case True
    then show ?thesis
      by (auto simp: Update_def row_def [symmetric] db1_def [symmetric] Let_def rows_rel_def same)
  next
    case False
    then obtain x where "x \<in> set (db_jobs db)" "jb_id x = jb_id row"
      by (auto simp: count_where_0)
    then obtain r where r: "find_runtime (jb_id row) db = Some r"
      using ok by (fastforce simp: life_ok_def projected_def)
    obtain db2 where u: "upsertJobFoundation env row db1 = Inr db2"
      using False by (cases "upsertJobFoundation env row db1") auto
    have "rows_rel projected_step db1 db2"
      by (rule upsertJobFoundation_rows_step [OF life_ok_row [OF ok r] _ u]) (simp add: same r)
    then show ?thesis
      using False u by (simp add: Update_def row_def [symmetric] db1_def [symmetric] Let_def rows_rel_def same)
  qed
qed

lemma Update_row_step: "life_ok db \<Longrightarrow> rows_step db (snd (Update env now item db))"
  by (rule rows_rel_mono [OF Update_rows_step]) (simp_all add: projected_step_def)

lemma recoverJob_row:
  assumes r: "find_runtime (fst js) db = Some r" "abandoned r"
  obtains r' where "find_runtime (fst js) (recoverJob env now js db) = Some r'"
    "rt_state r' = StatePaused" "rt_state_version r' = rt_state_version r + 1" "rt_recovery_required r'"
    "rt_requested_stop r' = StopReasonNone"
proof -
  have "find_runtime (fst js) (db\<lparr>db_runtime := update_where (\<lambda>x. rt_job_id x = fst js \<and> abandoned x)
      (set_recovered now) (db_runtime db)\<rparr>) = Some (set_recovered now r)"
    using find_kept [of rt_job_id "set_recovered now" "fst js"] r find_runtime_job [OF r(1)]
    by (simp add: find_runtime_def set_recovered_def)
  then have "\<exists>s. find_runtime (fst js) (recoverJob env now js db) =
      Some (set_task_totals s now (set_recovered now r))"
    using find_kept [of rt_job_id "set_task_totals _ now" "fst js"] find_runtime_job [OF r(1)]
    by (auto simp: recoverJob_def updateTaskAggregates_def Let_def find_runtime_def
        set_task_totals_def set_recovered_def)
  then show thesis by (auto intro: that simp: set_task_totals_def set_recovered_def)
qed

lemma recoverJobs_row:
  "find_runtime k db = Some r \<Longrightarrow> distinct (map fst jobs) \<Longrightarrow>
    \<forall>js \<in> set jobs. \<exists>r. find_runtime (fst js) db = Some r \<and> abandoned r \<Longrightarrow>
    \<exists>r'. find_runtime k (fold (recoverJob env now) jobs db) = Some r' \<and>
      (if k \<in> fst ` set jobs
       then rt_state r' = StatePaused \<and> rt_state_version r' = rt_state_version r + 1 \<and>
         rt_recovery_required r' \<and> rt_requested_stop r' = StopReasonNone
       else r' = r)"
proof (induction jobs arbitrary: db r)
  case (Cons js jobs)
  have other: "fst x \<noteq> fst js" if "x \<in> set jobs" for x
    using that Cons.prems(2) by (metis distinct.simps(2) image_eqI list.set_map list.simps(9))
  have rest: "\<forall>x \<in> set jobs. \<exists>r. find_runtime (fst x) (recoverJob env now js db) = Some r \<and> abandoned r"
    using Cons.prems(3) other by (simp add: find_runtime_recoverJob)
  have d: "distinct (map fst jobs)" using Cons.prems(2) by simp
  show ?case
  proof (cases "k = fst js")
    case True
    then have "abandoned r" using Cons.prems(1,3) by auto
    then obtain r1 where r1: "find_runtime k (recoverJob env now js db) = Some r1"
      "rt_state r1 = StatePaused" "rt_state_version r1 = rt_state_version r + 1" "rt_recovery_required r1"
      "rt_requested_stop r1 = StopReasonNone"
      using recoverJob_row [of js db r env now] Cons.prems(1) True by metis
    have "k \<notin> fst ` set jobs" using Cons.prems(2) True by simp
    then show ?thesis using Cons.IH [OF r1(1) d rest] r1 True by auto
  next
    case False
    then have "find_runtime k (recoverJob env now js db) = Some r"
      using Cons.prems(1) by (simp add: find_runtime_recoverJob)
    from Cons.IH [OF this d rest] show ?thesis using False by auto
  qed
qed simp

lemma abandoned_listed:
  assumes "life_ok db" "find_runtime k db = Some r"
  shows "k \<in> fst ` set (abandonedJobs db) \<longleftrightarrow> abandoned r"
proof
  assume "k \<in> fst ` set (abandonedJobs db)"
  then obtain js where "js \<in> set (abandonedJobs db)" "fst js = k" by auto
  then show "abandoned r" using abandonedJobs_found(2) [OF assms(1)] assms(2) by fastforce
next
  assume "abandoned r"
  then show "k \<in> fst ` set (abandonedJobs db)"
    using find_runtime_job [OF assms(2)] by (force simp: abandonedJobs_def)
qed

lemma RecoverAbandonedJobs_row:
  assumes ok: "life_ok db" and r: "find_runtime k db = Some r"
  shows "\<exists>r'. find_runtime k (snd (RecoverAbandonedJobs env now db)) = Some r' \<and>
      (if abandoned r
       then rt_state r' = StatePaused \<and> rt_state_version r' = rt_state_version r + 1 \<and>
         rt_recovery_required r' \<and> rt_requested_stop r' = StopReasonNone
       else r' = r)"
  using recoverJobs_row [OF r abandonedJobs_found [OF ok], of env now] abandoned_listed [OF ok r]
  by (simp add: RecoverAbandonedJobs_def Let_def)

lemma RecoverAbandonedJobs_rows_step:
  assumes ok: "life_ok db"
  shows "rows_step db (snd (RecoverAbandonedJobs env now db))"
proof -
  have "row_step r r'" if "find_runtime k db = Some r"
    "find_runtime k (snd (RecoverAbandonedJobs env now db)) = Some r'" for k r r'
  proof -
    have "if abandoned r then rt_state r' = StatePaused \<and> rt_state_version r' = rt_state_version r + 1
        else r' = r"
      using RecoverAbandonedJobs_row [OF ok that(1), of env now] that(2) by (auto split: if_splits)
    then show ?thesis
      by (auto simp: row_step_def abandoned_def lifecycle_move_def split: if_splits)
  qed
  then show ?thesis by (simp add: rows_rel_def)
qed

lemma run_repo_op_rows_step: "life_ok db \<Longrightarrow> rows_step db (run_repo_op env now op db)"
  by (cases op) (simp_all add: CreateWithState_rows_step ApplyControl_rows_step SetOutcome_rows_step
      Update_row_step Delete_rows_step RecoverAbandonedJobs_rows_step same_lifecycle_step [OF run_op_lifecycle])

text \<open>A repository with one queued and one running job.\<close>

definition two_jobs :: "(int \<times> repo_op) list" where
  "two_jobs =
     [(10, OpCreate \<lparr>job_ID = ''a'', job_Name = ''first'', job_Date = 5, job_Status = [], job_Data = []\<rparr> StateQueued),
      (11, OpCreate \<lparr>job_ID = ''b'', job_Name = ''second'', job_Date = 6, job_Status = [], job_Data = []\<rparr> StateRunning)]"

definition two_db :: Db where
  "two_db = run_repo plain_env two_jobs empty_db"

definition row_a :: RuntimeRow where
  "row_a = new_runtime ''a'' StateQueued StagePreparingQueries ''job queued'' (Fin 0) 1 (Some 5) None [] 5 10"

definition row_b :: RuntimeRow where
  "row_b = new_runtime ''b'' StateRunning StageSearchingMaps ''job created'' (Fin 0) 0 None None [] 6 11"

lemma two_db_runtime: "db_runtime two_db = [row_a, row_b]"
  by (simp add: two_db_def two_jobs_def CreateWithState_def Let_def jobToRow_def nextQueueSequence_def
      max_queue_seq_def empty_db_def find_job_def find_runtime_def find_progress_def new_runtime_def
      row_a_def row_b_def creationMessage_def lifecycleProgress_def nullableTerminalTime_def new_progress_def)

lemma two_db_rows: "find_runtime ''a'' two_db = Some row_a" "find_runtime ''b'' two_db = Some row_b"
  by (simp_all add: find_runtime_def two_db_runtime) (simp_all add: row_a_def row_b_def new_runtime_def)

lemma two_db_ok: "life_ok two_db"
  unfolding two_db_def by (rule run_repo_life_ok [OF life_ok_empty])

text \<open>
  C14: over every reachable database and for every operation, a job's state moves only along the
  table or by one of four further moves: reconfiguration puts an active job back in the queue,
  recovery pauses a job that was being cancelled, and a legacy update may start a queued job or
  complete a starting one. Every change of state raises the version by exactly one, so no other
  reader can mistake the new state for the old; a terminal job can only be queued again.
\<close>

theorem states_move_by_table:
  assumes "find_runtime job (run_repo env steps empty_db) = Some r"
    "find_runtime job (run_repo_op env now op (run_repo env steps empty_db)) = Some r'"
  shows "lifecycle_move (rt_state r) (rt_state r') \<and>
    (rt_state_version r' = rt_state_version r \<and> rt_state r' = rt_state r \<or>
     rt_state_version r' = rt_state_version r + 1) \<and>
    (if State_Terminal (rt_state r) then rt_state r' \<in> {rt_state r, StateQueued} else True)"
proof -
  have "row_step r r'"
    using run_repo_op_rows_step [OF run_repo_life_ok [OF life_ok_empty], of env steps env now op] assms
    by (rule rows_stepD)
  then show ?thesis
    by (cases "rt_state r") (auto simp: row_step_def lifecycle_move_def)
qed

theorem states_move_by_table_witness:
  "\<exists>r'. find_runtime ''b'' (run_repo_op plain_env 20 (OpControl ''b'' ControlCancel) two_db) = Some r' \<and>
    rt_state r' = StateCancelling \<and> rt_state_version r' = 1"
proof -
  have d: "DecideControl StateRunning StopReasonNone ControlCancel =
      Inr (decideCancel (fresh_decision StateRunning StopReasonNone ControlCancel))"
    by (simp add: DecideControl_def)
  have b: "rt_state row_b = StateRunning" "rt_requested_stop row_b = StopReasonNone" "rt_state_version row_b = 0"
    by (simp_all add: row_b_def new_runtime_def)
  have dec: "DecideControl (rt_state row_b) (rt_requested_stop row_b) ControlCancel =
      Inr (decideCancel (fresh_decision StateRunning StopReasonNone ControlCancel))"
    using d b by simp
  have ch: "ControlDecision_Changed (decideCancel (fresh_decision StateRunning StopReasonNone ControlCancel))"
    by (simp add: job_defs)
  obtain r' where f: "find_runtime ''b'' (run_repo_op plain_env 20 (OpControl ''b'' ControlCancel) two_db) = Some r'"
    "rt_state r' = StateCancelling"
  proof (rule ApplyControl_applied [OF two_db_ok two_db_rows(2) dec ch, of plain_env 20])
    fix l qs assume a: "ApplyControl plain_env 20 ''b'' ControlCancel two_db =
       (ControlDone (runtime_of plain_env (control_set plain_env 20 (runtime_of plain_env row_b)
          (decideCancel (fresh_decision StateRunning StopReasonNone ControlCancel)) qs row_b))
          (decideCancel (fresh_decision StateRunning StopReasonNone ControlCancel)),
        persist_control plain_env 20 ''b'' (runtime_of plain_env row_b)
          (decideCancel (fresh_decision StateRunning StopReasonNone ControlCancel)) qs l two_db)"
    note f = find_runtime_replaced(1) [OF two_db_rows(2), of "snd (ApplyControl plain_env 20 ''b'' ControlCancel two_db)"
        "control_set plain_env 20 (runtime_of plain_env row_b)
          (decideCancel (fresh_decision StateRunning StopReasonNone ControlCancel)) qs"]
    show thesis by (rule that, simp, rule f) (simp_all add: a job_defs)
  qed
  with states_move_by_table [of "''b''" plain_env two_jobs row_b 20 "OpControl ''b'' ControlCancel" r']
  show ?thesis using two_db_rows(2) b by (auto simp: two_db_def)
qed

text \<open>
  C8: applying a command to a job with runtime row \<open>r\<close> is exactly the pure decision on its state
  and pending stop request, carried out atomically: a changing decision is stored in the row of
  that job alone, raises its version, appends one event, leaves tasks alone and returns the stored
  row; it never reports a conflict. A decision that changes nothing, a rejection and an invalid
  command leave the database untouched.
\<close>

theorem ApplyControl_carries_out_decision:
  assumes "life_ok db" "find_runtime job db = Some r"
  shows "case DecideControl (rt_state r) (rt_requested_stop r) c of
      Inl e \<Rightarrow> ApplyControl env now job c db = (ControlFailed (RuntimeError e), db)
    | Inr d \<Rightarrow>
      if ControlDecision_Changed d then
        \<exists>r' db'. ApplyControl env now job c db = (ControlDone (runtime_of env r') d, db') \<and>
          find_runtime job db' = Some r' \<and> rt_state r' = CD_NextState d \<and>
          rt_requested_stop r' = CD_RequestedStop d \<and> rt_state_version r' = rt_state_version r + 1 \<and>
          (\<forall>k. if k = job then True else find_runtime k db' = find_runtime k db) \<and>
          db_tasks db' = db_tasks db \<and> db_event_seq db' = db_event_seq db + 1
      else ApplyControl env now job c db =
        ((case ControlDecision_Error d of
            Inl e \<Rightarrow> ControlRefused (runtime_of env r) d (RuntimeError e)
          | Inr _ \<Rightarrow> ControlDone (runtime_of env r) d), db)"
proof (cases "DecideControl (rt_state r) (rt_requested_stop r) c")
  case (Inl e)
  then show ?thesis
    by (simp add: ApplyControl_def readRuntime_Some [OF assms(2) life_ok_row [OF assms]])
next
  case (Inr d)
  show ?thesis
  proof (cases "ControlDecision_Changed d")
    case True
    show ?thesis
    proof (rule ApplyControl_applied [OF assms Inr True, of env now])
      fix l qs assume a: "ApplyControl env now job c db =
         (ControlDone (runtime_of env (control_set env now (runtime_of env r) d qs r)) d,
          persist_control env now job (runtime_of env r) d qs l db)"
      note f = find_runtime_replaced [OF assms(2), of "persist_control env now job (runtime_of env r) d qs l db"
          "control_set env now (runtime_of env r) d qs"]
      show ?thesis using f a by (simp add: Inr True)
    qed
  next
    case False
    then show ?thesis
      by (simp add: Inr ApplyControl_def readRuntime_Some [OF assms(2) life_ok_row [OF assms]]
          split: sum.split)
  qed
qed

lemma validate_classified: "ClassifyOutcome res = Inr out \<Longrightarrow> validateOutcome out = Inr ()"
  by (cases "RR_Reason res")
    (auto simp: ClassifyOutcome_def validateOutcome_def Let_def split: if_splits sum.splits)

text \<open>
  Every outcome the classifier produces passes the validation of the store. For a running job
  the store accepts it unless it is a cancellation, which a command must request first; for a job
  being cancelled it accepts a cancellation, a failure or a reconfiguration and refuses the rest,
  leaving the database as it was.
\<close>

theorem classified_outcome_stored:
  assumes "ClassifyOutcome res = Inr out" "life_ok db" "find_runtime job db = Some r"
    "rt_state r \<in> {StateRunning, StateCancelling}"
  shows "validateOutcome out = Inr () \<and>
    (if rt_state r = StateRunning \<and> RO_State out \<noteq> StateCancelled \<or>
        rt_state r = StateCancelling \<and> RO_State out \<in> {StateCancelled, StateFailed, StateQueued}
     then \<exists>r' db'. SetOutcome env now job out message db = (Inr (runtime_of env r'), db') \<and>
       find_runtime job db' = Some r' \<and> rt_state r' = RO_State out \<and>
       rt_outcome_reason r' = RO_Reason out \<and> rt_requested_stop r' = StopReasonNone
     else SetOutcome env now job out message db =
       (Inl (RuntimeError (ErrInvalidTransition (rt_state r) (RO_State out))), db))"
proof -
  note v = validate_classified [OF assms(1)] and rd = readRuntime_Some [OF assms(3) life_ok_row [OF assms(2,3)]]
  have state: "RO_State out \<in> {StatePaused, StateCancelled, StatePartial, StateQueued, StateFailed, StateCompleted}"
    "RO_State out = StateQueued \<longleftrightarrow> RO_Reason out = StopReasonReconfigure"
    using assms(1) by (cases "RR_Reason res"; force simp: ClassifyOutcome_def Let_def split: if_splits sum.splits)+
  have n: "\<not> (rt_state r = RO_State out \<and> rt_outcome_reason r = RO_Reason out \<and> rt_requested_stop r = StopReasonNone)"
    using state(1) assms(4) by auto
  show ?thesis
  proof (cases "validOutcomeTransition (rt_state r) out")
    case True
    show ?thesis
    proof (rule SetOutcome_applied [OF assms(2,3) v n True, of env now message])
      fix l qs assume a: "SetOutcome env now job out message db =
         (Inr (runtime_of env (outcome_set env now (runtime_of env r) out message qs r)),
          persist_outcome env now job (runtime_of env r) out message qs l db)"
      note f = find_runtime_replaced [OF assms(3), of "persist_outcome env now job (runtime_of env r) out message qs l db"
          "outcome_set env now (runtime_of env r) out message qs"]
      have "rt_state r = StateRunning \<and> RO_State out \<noteq> StateCancelled \<or>
          rt_state r = StateCancelling \<and> RO_State out \<in> {StateCancelled, StateFailed, StateQueued}"
        using True state assms(4) by (auto simp: validOutcomeTransition_def)
      then show ?thesis using f a v by simp
    qed
  next
    case False
    then have "\<not> (rt_state r = StateRunning \<and> RO_State out \<noteq> StateCancelled \<or>
        rt_state r = StateCancelling \<and> RO_State out \<in> {StateCancelled, StateFailed, StateQueued})"
      using state assms(4) by (auto simp: validOutcomeTransition_def)
    moreover have "SetOutcome env now job out message db =
        (Inl (RuntimeError (ErrInvalidTransition (rt_state r) (RO_State out))), db)"
      using n False by (auto simp: SetOutcome_def v rd)
    ultimately show ?thesis using v by simp
  qed
qed

theorem ApplyControl_carries_out_decision_witness:
  "\<exists>r' db'. snd (ApplyControl plain_env 20 ''a'' ControlPause two_db) = db' \<and>
    find_runtime ''a'' db' = Some r' \<and> rt_state r' = StatePaused \<and> rt_state_version r' = 1"
  using ApplyControl_carries_out_decision [OF two_db_ok two_db_rows(1), of plain_env 20 ControlPause]
  by (auto simp: row_a_def new_runtime_def DecideControl_def job_defs)

theorem classified_outcome_stored_witness:
  "\<exists>r'. find_runtime ''b'' (snd (SetOutcome plain_env 20 ''b''
      \<lparr>RO_State = StatePaused, RO_Reason = StopReasonLowDisk, RO_Recoverable = True,
       RO_HasPartialResults = True\<rparr> [] two_db)) = Some r' \<and> rt_state r' = StatePaused"
proof -
  let ?out = "\<lparr>RO_State = StatePaused, RO_Reason = StopReasonLowDisk, RO_Recoverable = True,
       RO_HasPartialResults = True\<rparr>"
  have "ClassifyOutcome \<lparr>RR_Reason = StopReasonLowDisk,
      RR_Tasks = \<lparr>TS_Total = 3, TS_Completed = 1, TS_Failed = 0, TS_Skipped = 0\<rparr>,
      RR_CommittedRecords = 7, RR_Err = False\<rparr> = Inr ?out"
    by (simp add: ClassifyOutcome_def TaskSummary_Validate_def TaskSummary_Terminal_def word_sless_alt Let_def)
  from classified_outcome_stored [OF this two_db_ok two_db_rows(2), of plain_env 20 "[]"]
  show ?thesis by (auto simp: row_b_def new_runtime_def)
qed

lemma SetOutcome_accepted:
  assumes ok: "life_ok db" and res: "SetOutcome env now job out message db = (Inr runtime, db')"
  obtains (already) r where "find_runtime job db = Some r" "validateOutcome out = Inr ()"
      "rt_state r = RO_State out \<and> rt_outcome_reason r = RO_Reason out \<and> rt_requested_stop r = StopReasonNone"
      "runtime = runtime_of env r" "db' = db"
    | (changed) r where "find_runtime job db = Some r" "validateOutcome out = Inr ()"
      "\<not> (rt_state r = RO_State out \<and> rt_outcome_reason r = RO_Reason out \<and>
        rt_requested_stop r = StopReasonNone)" "validOutcomeTransition (rt_state r) out"
proof -
  have v: "validateOutcome out = Inr ()" using res by (auto simp: SetOutcome_def split: sum.splits)
  obtain r where r: "find_runtime job db = Some r"
    using res v by (cases "find_runtime job db") (auto simp: SetOutcome_def readRuntime_None)
  note rd = readRuntime_Some [OF r life_ok_row [OF ok r], of env]
  show thesis
  proof (cases "rt_state r = RO_State out \<and> rt_outcome_reason r = RO_Reason out \<and>
      rt_requested_stop r = StopReasonNone")
    case True
    then show thesis using res by (intro already [OF r v]) (auto simp: SetOutcome_def v rd)
  next
    case False
    then show thesis
      using res by (intro changed [OF r v]) (auto simp: SetOutcome_def v rd split: if_splits)
  qed
qed

text \<open>
  Recording an outcome is idempotent: once the store accepted an outcome, recording the same
  outcome again, at any later time and with any message, returns the stored row and changes
  nothing, so a runner may retry it.
\<close>

theorem SetOutcome_idempotent:
  assumes "life_ok db" "SetOutcome env now job out message db = (Inr runtime, db')"
  shows "SetOutcome env later job out message' db' = (Inr runtime, db')"
  using assms
proof (cases rule: SetOutcome_accepted)
  case (already r)
  then show ?thesis
    using readRuntime_Some [OF already(1) life_ok_row [OF assms(1) already(1)], of env]
    by (simp add: SetOutcome_def)
next
  case (changed r)
  show ?thesis
  proof (rule SetOutcome_applied [OF assms(1) changed, of env now message])
    fix l qs assume a: "SetOutcome env now job out message db =
         (Inr (runtime_of env (outcome_set env now (runtime_of env r) out message qs r)),
          persist_outcome env now job (runtime_of env r) out message qs l db)"
      and ok: "runtime_ok (outcome_set env now (runtime_of env r) out message qs r)"
    have eq: "runtime = runtime_of env (outcome_set env now (runtime_of env r) out message qs r)"
      "db' = persist_outcome env now job (runtime_of env r) out message qs l db"
      using a assms(2) by simp_all
    have "find_runtime job db' = Some (outcome_set env now (runtime_of env r) out message qs r)"
      by (rule find_runtime_replaced(1) [OF changed(1)]) (simp_all add: eq)
    from readRuntime_Some [OF this ok, of env] show ?thesis
      by (simp add: SetOutcome_def changed(2) eq(1))
  qed
qed

theorem SetOutcome_idempotent_witness:
  "\<exists>runtime db'. SetOutcome plain_env 20 ''b''
      \<lparr>RO_State = StatePaused, RO_Reason = StopReasonLowDisk, RO_Recoverable = True,
       RO_HasPartialResults = True\<rparr> [] two_db = (Inr runtime, db') \<and>
    SetOutcome plain_env 30 ''b''
      \<lparr>RO_State = StatePaused, RO_Reason = StopReasonLowDisk, RO_Recoverable = True,
       RO_HasPartialResults = True\<rparr> ''again'' db' = (Inr runtime, db')"
proof -
  let ?out = "\<lparr>RO_State = StatePaused, RO_Reason = StopReasonLowDisk, RO_Recoverable = True,
       RO_HasPartialResults = True\<rparr>"
  have v: "validateOutcome ?out = Inr ()" by (simp add: validateOutcome_def)
  obtain l qs where a: "SetOutcome plain_env 20 ''b'' ?out [] two_db =
      (Inr (runtime_of plain_env (outcome_set plain_env 20 (runtime_of plain_env row_b) ?out [] qs row_b)),
       persist_outcome plain_env 20 ''b'' (runtime_of plain_env row_b) ?out [] qs l two_db)"
    by (rule SetOutcome_applied [OF two_db_ok two_db_rows(2) v, of plain_env 20 "[]"])
      (auto simp: row_b_def new_runtime_def validOutcomeTransition_def)
  from SetOutcome_idempotent [OF two_db_ok a, of 30 "''again''"] a show ?thesis by blast
qed

section \<open>Recovery\<close>

text \<open>
  C33: after recovery no job is left active: every job that was starting, running or being cancelled
  is paused, marked as needing recovery and without a pending stop request, one version later, and
  every other job's row is as it was. A second recovery finds nothing and changes nothing.
\<close>

theorem RecoverAbandonedJobs_complete:
  assumes "life_ok db"
  shows "let db' = snd (RecoverAbandonedJobs env now db) in
    (\<forall>job. case find_runtime job db of
       None \<Rightarrow> find_runtime job db' = None
     | Some r \<Rightarrow> \<exists>r'. find_runtime job db' = Some r' \<and>
         (if State_Active (rt_state r)
          then rt_state r' = StatePaused \<and> rt_state_version r' = rt_state_version r + 1 \<and>
            rt_recovery_required r' \<and> rt_requested_stop r' = StopReasonNone
          else r' = r)) \<and>
    RecoverAbandonedJobs env later db' = (Inr 0, db')"
proof -
  let ?db = "snd (RecoverAbandonedJobs env now db)"
  have active: "abandoned r \<longleftrightarrow> State_Active (rt_state r)" if "runtime_ok r" for r
    using that by (cases "rt_state r") (simp_all add: abandoned_def)
  have rows: "\<exists>r'. find_runtime k ?db = Some r' \<and> (if State_Active (rt_state r)
      then rt_state r' = StatePaused \<and> rt_state_version r' = rt_state_version r + 1 \<and>
        rt_recovery_required r' \<and> rt_requested_stop r' = StopReasonNone else r' = r)"
    if "find_runtime k db = Some r" for k r
    using RecoverAbandonedJobs_row [OF assms that, of env now] active [OF life_ok_row [OF assms that]] by simp
  have none: "find_runtime k ?db = None" if "find_runtime k db = None" for k
  proof -
    have "find_runtime k (fold (recoverJob env now) jobs x) = None" if "find_runtime k x = None" for jobs x
      using that
    proof (induction jobs arbitrary: x)
      case (Cons js jobs)
      have "map rt_job_id (db_runtime (recoverJob env now js x)) = map rt_job_id (db_runtime x)"
        by (simp add: recoverJob_def updateTaskAggregates_def Let_def keys_kept set_task_totals_def set_recovered_def)
      then have "find_runtime k (recoverJob env now js x) = None"
        using Cons.prems by (simp add: find_runtime_none_jobs)
      then show ?case using Cons.IH by simp
    qed simp
    then show ?thesis using that by (simp add: RecoverAbandonedJobs_def Let_def)
  qed
  have ok: "life_ok ?db" by (rule RecoverAbandonedJobs_life_ok [OF assms])
  have "\<not> abandoned r'" if r': "r' \<in> set (db_runtime ?db)" for r'
  proof -
    have f: "find_runtime (rt_job_id r') ?db = Some r'"
      by (rule find_runtime_distinct [OF _ r']) (use ok in \<open>simp add: life_ok_def\<close>)
    then obtain r where "find_runtime (rt_job_id r') db = Some r" using none by (cases "find_runtime (rt_job_id r') db") auto
    from rows [OF this] show ?thesis
      using f active [OF life_ok_row [OF ok f]] by (auto split: if_splits)
  qed
  then have "abandonedJobs ?db = []" by (simp add: abandonedJobs_def)
  then have "RecoverAbandonedJobs env later ?db = (Inr 0, ?db)"
    by (simp add: RecoverAbandonedJobs_def [of env later])
  moreover have "case find_runtime k db of None \<Rightarrow> find_runtime k ?db = None
      | Some r \<Rightarrow> \<exists>r'. find_runtime k ?db = Some r' \<and> (if State_Active (rt_state r)
          then rt_state r' = StatePaused \<and> rt_state_version r' = rt_state_version r + 1 \<and>
            rt_recovery_required r' \<and> rt_requested_stop r' = StopReasonNone else r' = r)" for k
    using rows [of k] none [of k] by (cases "find_runtime k db") simp_all
  ultimately show ?thesis unfolding Let_def by blast
qed

theorem RecoverAbandonedJobs_complete_witness:
  "\<exists>r'. find_runtime ''b'' (snd (RecoverAbandonedJobs plain_env 50 two_db)) = Some r' \<and>
    rt_state r' = StatePaused \<and> rt_recovery_required r'"
  using RecoverAbandonedJobs_complete [OF two_db_ok, of plain_env 50 60] two_db_rows(2)
  by (auto simp: Let_def row_b_def new_runtime_def dest!: spec [of _ "''b''"])

section \<open>The queue\<close>

lemma set_queued_jobs:
  "(j, r) \<in> set (queued_jobs db) \<longleftrightarrow> j \<in> set (db_jobs db) \<and> r \<in> set (db_runtime db) \<and>
    jb_status j = ''pending'' \<and> rt_job_id r = jb_id j \<and> rt_state r = StateQueued"
  by (auto simp: queued_jobs_def)

lemma set_queue_order [simp]: "set (queue_order rows) = set rows"
  by (simp add: queue_order_def)

lemma last_queued:
  assumes ok: "life_ok db" and j: "j \<in> set (db_jobs db)" and r: "find_runtime (jb_id j) db = Some r"
    and q: "rt_state r = StateQueued" and top: "\<forall>x \<in> set (db_runtime db). x = r \<or> rt_queue_seq x < rt_queue_seq r"
  shows "job_ID (last (Select ''pending'' 0 db)) = jb_id j"
proof -
  obtain r0 where r0: "find_runtime (jb_id j) db = Some r0" "jb_status j = legacy_text (rt_state r0)"
    using ok j by (auto simp: life_ok_def projected_def)
  then have "jb_status j = ''pending''" using r q by (simp add: legacy_text_def)
  then have mem: "(j, r) \<in> set (queued_jobs db)"
    using j q find_runtime_job [OF r] by (simp add: set_queued_jobs)
  let ?rows = "queue_order (queued_jobs db)"
  have ne: "?rows \<noteq> []" using mem by (metis empty_iff set_empty set_queue_order)
  have mx: "rt_queue_seq r \<le> rt_queue_seq (snd (last ?rows))"
  proof -
    have "\<exists>i < length ?rows. ?rows ! i = (j, r)" using mem by (metis in_set_conv_nth set_queue_order)
    then obtain i where i: "i < length ?rows" "?rows ! i = (j, r)" by blast
    have "sorted (map (\<lambda>(j, r). rt_queue_seq r) ?rows)"
      by (simp add: queue_order_def)
    then have "map (\<lambda>(j, r). rt_queue_seq r) ?rows ! i \<le>
        map (\<lambda>(j, r). rt_queue_seq r) ?rows ! (length ?rows - 1)"
      using i(1) by (intro sorted_nth_mono) simp_all
    then show ?thesis using i ne by (simp add: last_conv_nth case_prod_beta)
  qed
  have "last ?rows \<in> set (queued_jobs db)" using ne by (metis last_in_set set_queue_order)
  then have "rt_job_id (snd (last ?rows)) = jb_id (fst (last ?rows))" "snd (last ?rows) \<in> set (db_runtime db)"
    by (metis prod.collapse set_queued_jobs)+
  then have "jb_id (fst (last ?rows)) = jb_id j"
    using top mx find_runtime_job [OF r] by fastforce
  then show ?thesis using ne by (simp add: Select_def Let_def last_map rowToJob_def)
qed

lemma replaced_top:
  assumes ok: "life_ok db" and r: "find_runtime job db = Some r"
    and new: "db_runtime db' = update_where (version_is job (rt_state_version r)) f (db_runtime db)"
    and f: "\<And>x. rt_job_id (f x) = rt_job_id x" "rt_queue_seq (f r) = max_queue_seq db + 1"
  shows "\<forall>x \<in> set (db_runtime db'). x = f r \<or> rt_queue_seq x < rt_queue_seq (f r)"
proof
  fix x assume "x \<in> set (db_runtime db')"
  then obtain y where y: "y \<in> set (db_runtime db)"
    "x = (if version_is job (rt_state_version r) y then f y else y)"
    by (auto simp: new set_update_where)
  show "x = f r \<or> rt_queue_seq x < rt_queue_seq (f r)"
  proof (cases "version_is job (rt_state_version r) y")
    case True
    then have "find_runtime (rt_job_id y) db = Some y" "rt_job_id y = job"
      using find_runtime_distinct [OF _ y(1)] ok by (simp_all add: life_ok_def version_is_def)
    then show ?thesis using y(2) True r by simp
  next
    case False
    then show ?thesis using max_queue_seq_ge [OF y(1)] y(2) f(2) by simp
  qed
qed

definition not_queued :: "string \<Rightarrow> Db \<Rightarrow> bool" where
  "not_queued job db \<longleftrightarrow> (case find_runtime job db of None \<Rightarrow> True | Some r \<Rightarrow> rt_state r \<noteq> StateQueued)"

lemma not_queued_Some: "not_queued job db \<Longrightarrow> find_runtime job db = Some r \<Longrightarrow> rt_state r \<noteq> StateQueued"
  by (simp add: not_queued_def)

lemma not_queued_kept:
  assumes "not_queued job db" "find_runtime job db = None \<Longrightarrow> find_runtime job db' = None"
    "\<And>r r'. find_runtime job db = Some r \<Longrightarrow> find_runtime job db' = Some r' \<Longrightarrow>
      rt_state r' = StateQueued \<Longrightarrow> rt_state r = StateQueued"
  shows "not_queued job db'"
  using assms by (cases "find_runtime job db") (auto simp: not_queued_def split: option.splits)

lemma same_ids_none:
  "map rt_job_id (db_runtime db') = map rt_job_id (db_runtime db) \<Longrightarrow>
    find_runtime job db = None \<Longrightarrow> find_runtime job db' = None"
  by (simp only: find_runtime_none_jobs) simp

lemma set_projected_id [simp]: "rt_job_id (set_projected s g m p q o1 st f u r) = rt_job_id r"
  by (simp add: set_projected_def)

lemma Update_ids:
  assumes ok: "life_ok db"
  shows "map rt_job_id (db_runtime (snd (Update env now item db))) = map rt_job_id (db_runtime db)"
proof -
  have ap: "map rt_job_id (db_runtime d') = map rt_job_id (db_runtime d)"
    if "applyLegacyRuntimeProjection env it i d = Inr d'" for it i d d'
    using that
    by (auto simp: applyLegacyRuntimeProjection_def Let_def keys_kept split: sum.splits if_split_asm)
  have found: "find_runtime (jb_id row) db \<noteq> None"
    if "\<not> count_where (\<lambda>r. jb_id r = jb_id row) (db_jobs db) = 0" for row
    using that ok by (auto simp: count_where_0 life_ok_def projected_def)
  have up: "map rt_job_id (db_runtime d') = map rt_job_id (db_runtime d)"
    if "upsertJobFoundation env it d = Inr d'" "find_runtime (jb_id it) d \<noteq> None" for it d d'
    using that by (auto simp: upsertJobFoundation_def Let_def keys_kept split: sum.splits dest!: ap)
  show ?thesis
    using found [of "jobToRow now item"]
    by (auto simp: Update_def Let_def find_runtime_def split: sum.split dest!: up)
qed

lemma recoverJobs_ids:
  "map rt_job_id (db_runtime (fold (recoverJob env now) jobs db)) = map rt_job_id (db_runtime db)"
proof (induction jobs arbitrary: db)
  case (Cons js jobs)
  have "map rt_job_id (db_runtime (recoverJob env now js db)) = map rt_job_id (db_runtime db)"
    by (simp add: recoverJob_def updateTaskAggregates_def Let_def keys_kept set_task_totals_def set_recovered_def)
  then show ?case using Cons.IH by simp
qed simp

lemma same_lifecycle_ids:
  assumes "same_lifecycle db db'"
  shows "map rt_job_id (db_runtime db') = map rt_job_id (db_runtime db)"
proof -
  have "map rt_job_id rows = map fst (map lifecycle_columns rows)" for rows
    by (simp add: lifecycle_columns_def)
  then show ?thesis using assms by (metis same_lifecycle_def)
qed

lemma enqueued_by_control:
  assumes ok: "life_ok db" and nq: "not_queued job db"
    and r': "find_runtime job (snd (ApplyControl env now k c db)) = Some r'" "rt_state r' = StateQueued"
  shows "\<forall>x \<in> set (db_runtime (snd (ApplyControl env now k c db))). x = r' \<or> rt_queue_seq x < rt_queue_seq r'"
  using ok
proof (cases rule: ApplyControl_cases [of db env now k c])
  case unchanged
  then show ?thesis using nq r' by (simp add: not_queued_def)
next
  case (changed r d)
  show ?thesis
  proof (rule ApplyControl_applied [OF ok changed, of env now])
    fix l qs assume qs: "qs = (if control_requeues (runtime_of env r) d then max_queue_seq db + 1 else 0)"
      and a: "ApplyControl env now k c db =
       (ControlDone (runtime_of env (control_set env now (runtime_of env r) d qs r)) d,
        persist_control env now k (runtime_of env r) d qs l db)"
    note f = find_runtime_replaced [OF changed(1), of "snd (ApplyControl env now k c db)"
        "control_set env now (runtime_of env r) d qs"]
    have "job = k"
    proof (rule ccontr)
      assume "job \<noteq> k"
      then have "find_runtime job (snd (ApplyControl env now k c db)) = find_runtime job db"
        by (intro f(2)) (simp_all add: a)
      then show False using not_queued_Some [OF nq] r' by simp
    qed
    then have eq: "r' = control_set env now (runtime_of env r) d qs r"
      using f(1) r'(1) by (simp add: a)
    have "0 \<le> max_queue_seq db" using ok max_queue_seq_nonneg by (simp add: life_ok_def)
    then have "rt_queue_seq r' = max_queue_seq db + 1"
      using nq r'(2) changed(1) \<open>job = k\<close> by (simp add: eq qs control_requeues_def not_queued_def)
    then show ?thesis
      unfolding eq by (intro replaced_top [OF ok changed(1)]) (simp_all add: a)
  qed
qed

lemma enqueued_by_outcome:
  assumes ok: "life_ok db" and nq: "not_queued job db"
    and r': "find_runtime job (snd (SetOutcome env now k out m db)) = Some r'" "rt_state r' = StateQueued"
  shows "\<forall>x \<in> set (db_runtime (snd (SetOutcome env now k out m db))). x = r' \<or> rt_queue_seq x < rt_queue_seq r'"
  using ok
proof (cases rule: SetOutcome_cases [of db env now k out m])
  case unchanged
  then show ?thesis using nq r' by (simp add: not_queued_def)
next
  case (changed r)
  show ?thesis
  proof (rule SetOutcome_applied [OF ok changed, of env now m])
    fix l qs assume qs: "qs = (if RO_State out = StateQueued then max_queue_seq db + 1 else 0)"
      and a: "SetOutcome env now k out m db =
       (Inr (runtime_of env (outcome_set env now (runtime_of env r) out m qs r)),
        persist_outcome env now k (runtime_of env r) out m qs l db)"
    note f = find_runtime_replaced [OF changed(1), of "snd (SetOutcome env now k out m db)"
        "outcome_set env now (runtime_of env r) out m qs"]
    have "job = k"
    proof (rule ccontr)
      assume "job \<noteq> k"
      then have "find_runtime job (snd (SetOutcome env now k out m db)) = find_runtime job db"
        by (intro f(2)) (simp_all add: a)
      then show False using not_queued_Some [OF nq] r' by simp
    qed
    then have eq: "r' = outcome_set env now (runtime_of env r) out m qs r"
      using f(1) r'(1) by (simp add: a)
    have "0 \<le> max_queue_seq db" using ok max_queue_seq_nonneg by (simp add: life_ok_def)
    then have "rt_queue_seq r' = max_queue_seq db + 1" using r'(2) by (simp add: eq qs)
    then show ?thesis
      unfolding eq by (intro replaced_top [OF ok changed(1)]) (simp_all add: a)
  qed
qed

lemma enqueued_by_create:
  assumes ok: "life_ok db" and nq: "not_queued job db"
    and r': "find_runtime job (snd (CreateWithState env now item s db)) = Some r'" "rt_state r' = StateQueued"
  shows "\<forall>x \<in> set (db_runtime (snd (CreateWithState env now item s db))). x = r' \<or> rt_queue_seq x < rt_queue_seq r'"
proof (cases "db_runtime (snd (CreateWithState env now item s db)) = db_runtime db")
  case True
  then show ?thesis using nq r' by (simp add: not_queued_def find_runtime_def)
next
  case False
  then obtain l qs where l: "LegacyStatusForState s = Inr l"
    and qs: "(if s = StateQueued then nextQueueSequence db else Inr 0) = Inr qs"
    by (cases "LegacyStatusForState s"; cases "if s = StateQueued then nextQueueSequence db else Inr 0")
      (auto simp: CreateWithState_def Let_def split: if_splits)
  define r where "r = new_runtime (job_ID item) s (lifecycleStage s) (creationMessage s) (lifecycleProgress s)
    qs (if s = StateQueued then Some (job_Date item) else None) (nullableTerminalTime s now) (job_Data item)
    (job_Date item) now"
  have rows: "db_runtime (snd (CreateWithState env now item s db)) = db_runtime db @ [r]"
    using False l qs by (auto simp: CreateWithState_def Let_def jobToRow_def r_def split: if_splits sum.splits)
  have "r' = r"
    using r' nq by (auto simp: find_runtime_def not_queued_def find_append rows split: option.splits if_splits)
  then have "qs = max_queue_seq db + 1" "rt_queue_seq r' = qs"
    using r'(2) qs nextQueueSequence_ok [OF ok] by (simp_all add: r_def new_runtime_def)
  then show ?thesis using max_queue_seq_ge [of _ db] by (auto simp: rows \<open>r' = r\<close>)
qed

lemma enqueued_top:
  assumes ok: "life_ok db" and nq: "not_queued job db"
    and r': "find_runtime job (run_repo_op env now op db) = Some r'" "rt_state r' = StateQueued"
  shows "\<forall>x \<in> set (db_runtime (run_repo_op env now op db)). x = r' \<or> rt_queue_seq x < rt_queue_seq r'"
proof -
  have stays: ?thesis if "not_queued job (run_repo_op env now op db)"
    using that r' by (simp add: not_queued_def)
  show ?thesis
  proof (cases op)
    case (OpCreate item s)
    then show ?thesis using enqueued_by_create [OF ok nq] r' by simp
  next
    case (OpControl k c)
    then show ?thesis using enqueued_by_control [OF ok nq] r' by simp
  next
    case (OpOutcome k out m)
    then show ?thesis using enqueued_by_outcome [OF ok nq] r' by simp
  next
    case (OpUpdate item)
    show ?thesis
      by (rule stays, rule not_queued_kept [OF nq same_ids_none])
        (use Update_ids [OF ok] rows_stepD [OF Update_rows_step [OF ok]] in
          \<open>simp_all add: OpUpdate projected_step_def\<close>)
  next
    case (OpDelete k)
    show ?thesis
      by (rule stays, rule not_queued_kept [OF nq]) (auto simp: OpDelete find_runtime_Delete split: if_splits)
  next
    case OpRecover
    show ?thesis
    proof (rule stays, rule not_queued_kept [OF nq same_ids_none])
      fix r r' assume "find_runtime job db = Some r" "find_runtime job (run_repo_op env now op db) = Some r'"
        "rt_state r' = StateQueued"
      then show "rt_state r = StateQueued"
        using RecoverAbandonedJobs_row [OF ok, of job r env now] by (auto simp: OpRecover split: if_splits)
    qed (simp_all add: OpRecover RecoverAbandonedJobs_def Let_def recoverJobs_ids)
  next
    case (OpPlan p)
    note same = run_op_lifecycle [of db env now p]
    show ?thesis
    proof (rule stays, rule not_queued_kept [OF nq same_ids_none])
      fix r r' assume "find_runtime job db = Some r" "find_runtime job (run_repo_op env now op db) = Some r'"
        "rt_state r' = StateQueued"
      then show "rt_state r = StateQueued"
        using same find_runtime_columns [of "db_runtime (snd (run_op env now p db))" "db_runtime db" job]
        by (simp add: OpPlan same_lifecycle_def find_runtime_def lifecycle_columns_def)
    qed (simp_all add: OpPlan same_lifecycle_ids [OF same])
  qed
qed

text \<open>
  The queue is fair: whichever operation puts a job into the queue, be it created, started,
  resumed, restarted or reconfigured, gives it a number above all numbers stored, and the job is
  the last one \<open>Select\<close> returns among the pending jobs, behind all that were already waiting.
\<close>

theorem enqueued_goes_last:
  assumes "life_ok db" "find_runtime job (run_repo_op env now op db) = Some r'"
    "rt_state r' = StateQueued" "not_queued job db" "find_job job (run_repo_op env now op db) = Some j"
  shows "(\<forall>x \<in> set (db_runtime (run_repo_op env now op db)). x = r' \<or> rt_queue_seq x < rt_queue_seq r') \<and>
    job_ID (last (Select ''pending'' 0 (run_repo_op env now op db))) = job"
proof -
  note top = enqueued_top [OF assms(1,4,2,3)]
  have j: "j \<in> set (db_jobs (run_repo_op env now op db))" "jb_id j = job"
    using assms(5) by (auto simp: find_job_def find_Some_iff)
  have "job_ID (last (Select ''pending'' 0 (run_repo_op env now op db))) = jb_id j"
    by (rule last_queued [OF run_repo_op_life_ok [OF assms(1)] j(1) _ assms(3) top]) (simp add: j(2) assms(2))
  with top j(2) show ?thesis by simp
qed

theorem enqueued_goes_last_witness:
  "job_ID (last (Select ''pending'' 0 (run_repo_op plain_env 40 (OpOutcome ''b''
      \<lparr>RO_State = StateQueued, RO_Reason = StopReasonReconfigure, RO_Recoverable = True,
       RO_HasPartialResults = False\<rparr> []) two_db))) = ''b''"
proof -
  let ?out = "\<lparr>RO_State = StateQueued, RO_Reason = StopReasonReconfigure, RO_Recoverable = True,
       RO_HasPartialResults = False\<rparr>"
  have v: "validateOutcome ?out = Inr ()" by (simp add: validateOutcome_def)
  obtain l qs where a: "SetOutcome plain_env 40 ''b'' ?out [] two_db =
      (Inr (runtime_of plain_env (outcome_set plain_env 40 (runtime_of plain_env row_b) ?out [] qs row_b)),
       persist_outcome plain_env 40 ''b'' (runtime_of plain_env row_b) ?out [] qs l two_db)"
    by (rule SetOutcome_applied [OF two_db_ok two_db_rows(2) v, of plain_env 40 "[]"])
      (auto simp: row_b_def new_runtime_def validOutcomeTransition_def)
  let ?db = "run_repo_op plain_env 40 (OpOutcome ''b'' ?out []) two_db"
  have f: "find_runtime ''b'' ?db =
      Some (outcome_set plain_env 40 (runtime_of plain_env row_b) ?out [] qs row_b)"
    by (rule find_runtime_replaced(1) [OF two_db_rows(2)]) (simp_all add: a)
  have "map jb_id (db_jobs two_db) = [''a'', ''b'']"
    by (simp add: two_db_def two_jobs_def CreateWithState_def Let_def jobToRow_def nextQueueSequence_def
        max_queue_seq_def empty_db_def find_job_def find_runtime_def find_progress_def new_runtime_def
        new_progress_def)
  then have "''b'' \<in> set (map jb_id (db_jobs ?db))" by (simp add: a keys_kept)
  then obtain j where j: "find_job ''b'' ?db = Some j"
    by (cases "find_job ''b'' ?db") (auto simp: find_job_def find_None_iff)
  have "not_queued ''b'' two_db" by (simp add: not_queued_def two_db_rows row_b_def new_runtime_def)
  from enqueued_goes_last [OF two_db_ok f _ this j] show ?thesis by simp
qed

end
