(* ===== verification/ExitMonitor.thy ===== *)
theory ExitMonitor
  imports Prelude "HOL-Library.Multiset"
begin

text \<open>
  Completion accounting: \<open>exiter/exiter.go\<close> and \<open>runner/webrunner/task_exiter.go\<close>, with the scrape
  jobs of \<open>gmaps/job.go\<close>, \<open>searchjob.go\<close> and \<open>place.go\<close> as the environment that reports to the
  monitor. A method is split where the source unlocks its mutex: first the locked update, then the
  channel send or cancel call it decided on, so other goroutines can run in between. Counters are
  \<open>int\<close>: they count listings of one run and stay far below the width of a Go \<open>int\<close>.
\<close>

section \<open>The monitor\<close>

text \<open>
  A cancel function is a number; \<open>ex_cancelled\<close> are the ones called so far. \<open>ex_doneCh\<close> tells whether
  the channel of capacity one holds its token.
\<close>

record exiter =
  ex_seedCount :: int
  ex_seedCompleted :: int
  ex_placesFound :: int
  ex_placesCompleted :: int
  ex_cancelFunc :: "nat option"
  ex_doneCh :: bool
  ex_maximumPlaces :: int
  ex_limitReached :: bool
  ex_cancelled :: "nat list"

text \<open>What a method still has to do once it has released the mutex.\<close>

datatype action = ActNone | ActSend | ActCancel nat

fun perform :: "action \<Rightarrow> exiter \<Rightarrow> exiter" where
  "perform ActNone e = e"
| "perform ActSend e = e\<lparr>ex_doneCh := True\<rparr>"
| "perform (ActCancel f) e = e\<lparr>ex_cancelled := f # ex_cancelled e\<rparr>"

definition blank_exiter :: exiter where
  "blank_exiter = \<lparr>ex_seedCount = 0, ex_seedCompleted = 0, ex_placesFound = 0,
     ex_placesCompleted = 0, ex_cancelFunc = None, ex_doneCh = False, ex_maximumPlaces = 0,
     ex_limitReached = False, ex_cancelled = []\<rparr>"

definition WithMaximumPlaces :: "int \<Rightarrow> exiter \<Rightarrow> exiter" where
  "WithMaximumPlaces limit e = (if 0 < limit then e\<lparr>ex_maximumPlaces := limit\<rparr> else e)"

text \<open>A nil option is skipped.\<close>

definition New_exiter :: "(exiter \<Rightarrow> exiter) option list \<Rightarrow> exiter" where
  "New_exiter options =
     fold (\<lambda>opt e. case opt of None \<Rightarrow> e | Some f \<Rightarrow> f e) options blank_exiter"

definition SetSeedCount :: "int \<Rightarrow> exiter \<Rightarrow> exiter" where
  "SetSeedCount val e = e\<lparr>ex_seedCount := val\<rparr>"

definition cancel_locked :: "nat option \<Rightarrow> exiter \<Rightarrow> action \<times> exiter" where
  "cancel_locked fn e =
     (case fn of Some f \<Rightarrow> if ex_limitReached e then ActCancel f else ActNone | None \<Rightarrow> ActNone,
      e\<lparr>ex_cancelFunc := fn\<rparr>)"

definition SetCancelFunc :: "nat option \<Rightarrow> exiter \<Rightarrow> exiter" where
  "SetCancelFunc fn e = (let (a, e') = cancel_locked fn e in perform a e')"

definition ex_finished :: "exiter \<Rightarrow> bool" where
  "ex_finished e \<longleftrightarrow> ex_seedCount e \<le> ex_seedCompleted e \<and> ex_placesFound e \<le> ex_placesCompleted e"

definition seed_locked :: "int \<Rightarrow> exiter \<Rightarrow> action \<times> exiter" where
  "seed_locked val e =
     (let e' = e\<lparr>ex_seedCompleted := ex_seedCompleted e + val\<rparr>
      in (if ex_finished e' then ActSend else ActNone, e'))"

definition IncrSeedCompleted :: "int \<Rightarrow> exiter \<Rightarrow> exiter" where
  "IncrSeedCompleted val e = (let (a, e') = seed_locked val e in perform a e')"

definition IncrPlacesFound :: "int \<Rightarrow> exiter \<Rightarrow> exiter" where
  "IncrPlacesFound val e = e\<lparr>ex_placesFound := ex_placesFound e + val\<rparr>"

definition places_locked :: "int \<Rightarrow> exiter \<Rightarrow> action \<times> exiter" where
  "places_locked val e =
     (let e1 = e\<lparr>ex_placesCompleted := ex_placesCompleted e + val\<rparr>;
          e2 = (if 0 < ex_maximumPlaces e1 \<and> ex_maximumPlaces e1 \<le> ex_placesCompleted e1
            then e1\<lparr>ex_limitReached := True\<rparr> else e1)
      in (case ex_cancelFunc e2 of
            Some f \<Rightarrow> if ex_limitReached e2 then ActCancel f
              else if ex_finished e2 then ActSend else ActNone
          | None \<Rightarrow> if ex_finished e2 then ActSend else ActNone,
          e2))"

definition IncrPlacesCompleted :: "int \<Rightarrow> exiter \<Rightarrow> exiter" where
  "IncrPlacesCompleted val e = (let (a, e') = places_locked val e in perform a e')"

record Snapshot =
  sn_SeedsTotal :: int
  sn_SeedsCompleted :: int
  sn_PlacesFound :: int
  sn_PlacesCompleted :: int
  sn_MaximumPlaces :: int
  sn_LimitReached :: bool

definition SnapshotOf :: "exiter \<Rightarrow> Snapshot" where
  "SnapshotOf e = \<lparr>sn_SeedsTotal = ex_seedCount e, sn_SeedsCompleted = ex_seedCompleted e,
     sn_PlacesFound = ex_placesFound e, sn_PlacesCompleted = ex_placesCompleted e,
     sn_MaximumPlaces = ex_maximumPlaces e, sn_LimitReached = ex_limitReached e\<rparr>"

definition LimitReached :: "exiter \<Rightarrow> bool" where
  "LimitReached e = sn_LimitReached (SnapshotOf e)"

text \<open>\<open>Run\<close> blocks until one of its channels is ready; with both ready either branch may win.\<close>

inductive Run_exiter :: "bool \<Rightarrow> exiter \<Rightarrow> exiter \<Rightarrow> bool" for ctx_done where
  run_ctx: "ctx_done \<Longrightarrow> Run_exiter ctx_done e e"
| run_token: "ex_doneCh e \<Longrightarrow> Run_exiter ctx_done e
    (case ex_cancelFunc e of
       None \<Rightarrow> e\<lparr>ex_doneCh := False\<rparr>
     | Some f \<Rightarrow> perform (ActCancel f) (e\<lparr>ex_doneCh := False\<rparr>))"

inductive_cases Run_exiterE: "Run_exiter ctx_done e e'"

lemmas exiter_defs = seed_locked_def places_locked_def cancel_locked_def ex_finished_def
  IncrPlacesFound_def SetSeedCount_def Let_def

section \<open>The per-task composite\<close>

text \<open>A task's own monitor next to the run's; \<open>None\<close> is a missing run monitor.\<close>

record taskExiter =
  te_own :: exiter
  te_run :: "exiter option"

definition newTaskExiter :: "exiter option \<Rightarrow> int \<Rightarrow> taskExiter" where
  "newTaskExiter run seedCount = \<lparr>te_own = SetSeedCount seedCount (New_exiter []), te_run = run\<rparr>"

definition te_SetSeedCount :: "int \<Rightarrow> taskExiter \<Rightarrow> taskExiter" where
  "te_SetSeedCount val t = t\<lparr>te_own := SetSeedCount val (te_own t)\<rparr>"

definition te_SetCancelFunc :: "nat option \<Rightarrow> taskExiter \<Rightarrow> taskExiter" where
  "te_SetCancelFunc fn t =
     (let own = SetCancelFunc fn (te_own t)
      in case (fn, te_run t) of
           (Some f, Some run) \<Rightarrow>
             if LimitReached run then t\<lparr>te_own := perform (ActCancel f) own\<rparr>
             else t\<lparr>te_own := own\<rparr>
         | _ \<Rightarrow> t\<lparr>te_own := own\<rparr>)"

definition te_IncrSeedCompleted :: "int \<Rightarrow> taskExiter \<Rightarrow> taskExiter" where
  "te_IncrSeedCompleted val t =
     t\<lparr>te_run := map_option (IncrSeedCompleted val) (te_run t),
       te_own := IncrSeedCompleted val (te_own t)\<rparr>"

definition te_IncrPlacesFound :: "int \<Rightarrow> taskExiter \<Rightarrow> taskExiter" where
  "te_IncrPlacesFound val t =
     t\<lparr>te_run := map_option (IncrPlacesFound val) (te_run t),
       te_own := IncrPlacesFound val (te_own t)\<rparr>"

definition te_IncrPlacesCompleted :: "int \<Rightarrow> taskExiter \<Rightarrow> taskExiter" where
  "te_IncrPlacesCompleted val t =
     t\<lparr>te_run := map_option (IncrPlacesCompleted val) (te_run t),
       te_own := IncrPlacesCompleted val (te_own t)\<rparr>"

definition ownSnapshot :: "taskExiter \<Rightarrow> Snapshot" where
  "ownSnapshot t = SnapshotOf (te_own t)"

section \<open>The jobs that report\<close>

text \<open>
  A seed job either fails, which completes it with nothing found, or reports the places it found and
  then completes; the places found are completed in any portions after that
  (\<open>GmapJob.Process\<close>, \<open>SearchJob.Process\<close>, \<open>PlaceJob.Process\<close>). The number is what is outstanding.
\<close>

datatype seed = SeedWaiting | SeedReported int | SeedFinished int

fun outstanding :: "seed \<Rightarrow> int" where
  "outstanding SeedWaiting = 0"
| "outstanding (SeedReported n) = n"
| "outstanding (SeedFinished n) = n"

fun seed_done :: "seed \<Rightarrow> int" where
  "seed_done (SeedFinished _) = 1"
| "seed_done _ = 0"

record run_system =
  sy_monitor :: exiter
  sy_pending :: "action multiset"
  sy_seeds :: "seed list"
  sy_running :: bool

definition with_action :: "action \<times> exiter \<Rightarrow> seed list \<Rightarrow> run_system \<Rightarrow> run_system" where
  "with_action r seeds s =
     s\<lparr>sy_monitor := snd r, sy_pending := add_mset (fst r) (sy_pending s), sy_seeds := seeds\<rparr>"

text \<open>
  One step of the run: a job reports, a method that released the mutex finishes, or \<open>Run\<close> takes the
  token.
\<close>

inductive run_step :: "run_system \<Rightarrow> run_system \<Rightarrow> bool" where
  report: "i < length (sy_seeds s) \<Longrightarrow> sy_seeds s ! i = SeedWaiting \<Longrightarrow> 0 \<le> n \<Longrightarrow>
    run_step s (s\<lparr>sy_monitor := IncrPlacesFound n (sy_monitor s),
      sy_seeds := (sy_seeds s)[i := SeedReported n]\<rparr>)"
| fail: "i < length (sy_seeds s) \<Longrightarrow> sy_seeds s ! i = SeedWaiting \<Longrightarrow>
    run_step s (with_action (seed_locked 1 (sy_monitor s)) ((sy_seeds s)[i := SeedFinished 0]) s)"
| complete: "i < length (sy_seeds s) \<Longrightarrow> sy_seeds s ! i = SeedReported n \<Longrightarrow>
    run_step s (with_action (seed_locked 1 (sy_monitor s)) ((sy_seeds s)[i := SeedFinished n]) s)"
| places: "i < length (sy_seeds s) \<Longrightarrow> sy_seeds s ! i = SeedFinished n \<Longrightarrow> 0 \<le> k \<Longrightarrow> k \<le> n \<Longrightarrow>
    run_step s (with_action (places_locked k (sy_monitor s)) ((sy_seeds s)[i := SeedFinished (n - k)]) s)"
| act: "a \<in># sy_pending s \<Longrightarrow>
    run_step s (s\<lparr>sy_monitor := perform a (sy_monitor s), sy_pending := sy_pending s - {#a#}\<rparr>)"
| token: "sy_running s \<Longrightarrow> Run_exiter False (sy_monitor s) m \<Longrightarrow>
    run_step s (s\<lparr>sy_monitor := m, sy_running := False\<rparr>)"

inductive run_reach :: "run_system \<Rightarrow> run_system \<Rightarrow> bool" where
  start: "run_reach s s"
| step: "run_reach s t \<Longrightarrow> run_step t u \<Longrightarrow> run_reach s u"

text \<open>\<open>webrunner\<close>: a monitor with the record limit, the seed count and the cancel function set.\<close>

definition run_init :: "int \<Rightarrow> nat \<Rightarrow> nat \<Rightarrow> run_system" where
  "run_init limit seeds cancel =
     \<lparr>sy_monitor = SetCancelFunc (Some cancel) (SetSeedCount (int seeds)
        (New_exiter [Some (WithMaximumPlaces limit)])),
      sy_pending = {#}, sy_seeds = replicate seeds SeedWaiting, sy_running = True\<rparr>"

definition all_finished :: "run_system \<Rightarrow> bool" where
  "all_finished s \<longleftrightarrow> (\<forall>x \<in> set (sy_seeds s). x = SeedFinished 0)"

definition over_limit :: "run_system \<Rightarrow> bool" where
  "over_limit s \<longleftrightarrow> 0 < ex_maximumPlaces (sy_monitor s) \<and>
     ex_maximumPlaces (sy_monitor s) \<le> ex_placesCompleted (sy_monitor s)"

section \<open>Counting the jobs\<close>

lemma sum_update:
  "i < length xs \<Longrightarrow> sum_list (map f (xs[i := y])) = sum_list (map f xs) - f (xs ! i) + (f y :: int)"
proof (induction xs arbitrary: i)
  case (Cons x xs)
  then show ?case by (cases i) simp_all
qed simp

lemma set_updateD: "x \<in> set (xs[i := y]) \<Longrightarrow> x = y \<or> x \<in> set xs"
  using set_update_subset_insert by fastforce

lemma seeds_done_le: "sum_list (map seed_done xs) \<le> int (length xs)"
proof (induction xs)
  case (Cons x xs)
  then show ?case by (cases x) simp_all
qed simp

lemma sum_outstanding_nonneg: "\<forall>x \<in> set xs. 0 \<le> outstanding x \<Longrightarrow> 0 \<le> sum_list (map outstanding xs)"
  by (induction xs) simp_all

lemma counts_finished:
  assumes "\<forall>x \<in> set xs. 0 \<le> outstanding x"
  shows "int (length xs) \<le> sum_list (map seed_done xs) \<and> sum_list (map outstanding xs) \<le> 0 \<longleftrightarrow>
    (\<forall>x \<in> set xs. x = SeedFinished 0)"
  using assms
proof (induction xs)
  case (Cons x xs)
  have "sum_list (map seed_done xs) \<le> int (length xs)" "0 \<le> sum_list (map outstanding xs)"
    using seeds_done_le sum_outstanding_nonneg Cons.prems by simp_all
  then show ?case
    using Cons.IH Cons.prems by (cases x) auto
qed simp

section \<open>The invariant of a run\<close>

definition counts_ok :: "run_system \<Rightarrow> bool" where
  "counts_ok s \<longleftrightarrow> ex_seedCount (sy_monitor s) = int (length (sy_seeds s)) \<and>
     ex_seedCompleted (sy_monitor s) = sum_list (map seed_done (sy_seeds s)) \<and>
     ex_placesFound (sy_monitor s) - ex_placesCompleted (sy_monitor s) = sum_list (map outstanding (sy_seeds s)) \<and>
     (\<forall>x \<in> set (sy_seeds s). 0 \<le> outstanding x)"

definition signals_ok :: "nat \<Rightarrow> run_system \<Rightarrow> bool" where
  "signals_ok c s \<longleftrightarrow> ex_cancelFunc (sy_monitor s) = Some c \<and>
     (ex_limitReached (sy_monitor s) \<longleftrightarrow> over_limit s) \<and>
     (ActSend \<in># sy_pending s \<or> ex_doneCh (sy_monitor s) \<longrightarrow> all_finished s) \<and>
     (\<forall>f. ActCancel f \<in># sy_pending s \<or> f \<in> set (ex_cancelled (sy_monitor s)) \<longrightarrow>
        f = c \<and> (all_finished s \<or> over_limit s)) \<and>
     (all_finished s \<and> sy_seeds s \<noteq> [] \<longrightarrow> ActSend \<in># sy_pending s \<or> ex_doneCh (sy_monitor s) \<or>
        ActCancel c \<in># sy_pending s \<or> c \<in> set (ex_cancelled (sy_monitor s))) \<and>
     (sy_running s \<or> c \<in> set (ex_cancelled (sy_monitor s)))"

lemma finished_iff: "counts_ok s \<Longrightarrow> ex_finished (sy_monitor s) \<longleftrightarrow> all_finished s"
  using counts_finished [of "sy_seeds s"] by (auto simp: counts_ok_def ex_finished_def all_finished_def)

lemma all_finished_update:
  "i < length (sy_seeds s) \<Longrightarrow> sy_seeds s ! i \<noteq> SeedFinished 0 \<Longrightarrow> \<not> all_finished s"
  using nth_mem [of i "sy_seeds s"] by (auto simp: all_finished_def)

lemma perform_simps [simp]:
  "ex_seedCount (perform a e) = ex_seedCount e" "ex_seedCompleted (perform a e) = ex_seedCompleted e"
  "ex_placesFound (perform a e) = ex_placesFound e" "ex_placesCompleted (perform a e) = ex_placesCompleted e"
  "ex_cancelFunc (perform a e) = ex_cancelFunc e" "ex_maximumPlaces (perform a e) = ex_maximumPlaces e"
  "ex_limitReached (perform a e) = ex_limitReached e"
  "ex_doneCh (perform a e) \<longleftrightarrow> a = ActSend \<or> ex_doneCh e"
  "set (ex_cancelled (perform a e)) = {f. a = ActCancel f} \<union> set (ex_cancelled e)"
  by (cases a; auto)+

lemma run_step_counts:
  assumes "run_step s t" "counts_ok s"
  shows "counts_ok t"
  using assms
proof (cases rule: run_step.cases)
  case (report i n)
  then show ?thesis using assms(2)
    by (auto simp: counts_ok_def sum_update IncrPlacesFound_def dest!: set_updateD)
next
  case (fail i)
  then show ?thesis using assms(2)
    by (auto simp: counts_ok_def sum_update seed_locked_def with_action_def Let_def dest!: set_updateD)
next
  case (complete i n)
  have "0 \<le> n" using complete assms(2) nth_mem [of i "sy_seeds s"] by (fastforce simp: counts_ok_def)
  then show ?thesis using complete assms(2)
    by (auto simp: counts_ok_def sum_update seed_locked_def with_action_def Let_def dest!: set_updateD)
next
  case (places i n k)
  then show ?thesis using assms(2)
    by (auto simp: counts_ok_def sum_update places_locked_def with_action_def Let_def dest!: set_updateD
        split: option.split)
next
  case (act a)
  then show ?thesis using assms(2) by (auto simp: counts_ok_def)
next
  case (token m)
  then show ?thesis using assms(2)
    by (auto simp: counts_ok_def elim!: Run_exiterE split: option.split)
qed

lemma signals_with_action:
  assumes ok: "signals_ok c s" and t: "t = with_action (a, m) seeds s"
    and m: "ex_cancelFunc m = ex_cancelFunc (sy_monitor s)" "ex_doneCh m = ex_doneCh (sy_monitor s)"
      "ex_cancelled m = ex_cancelled (sy_monitor s)" "ex_limitReached m \<longleftrightarrow> over_limit t"
    and keep: "all_finished s \<Longrightarrow> all_finished t" "over_limit s \<Longrightarrow> over_limit t" "seeds \<noteq> []"
    and a: "a = ActSend \<Longrightarrow> all_finished t" "\<And>f. a = ActCancel f \<Longrightarrow> f = c \<and> over_limit t"
      "all_finished t \<Longrightarrow> a = ActSend \<or> a = ActCancel c"
  shows "signals_ok c t"
proof -
  have t': "sy_monitor t = m" "sy_pending t = add_mset a (sy_pending s)" "sy_seeds t = seeds"
    "sy_running t = sy_running s"
    by (simp_all add: t with_action_def)
  have "ActSend \<in># sy_pending t \<or> ex_doneCh m \<longrightarrow> all_finished t"
    using ok m(2) keep(1) a(1) unfolding signals_ok_def t' by auto
  moreover have "f = c \<and> (all_finished t \<or> over_limit t)"
    if "ActCancel f \<in># sy_pending t \<or> f \<in> set (ex_cancelled m)" for f
    using that ok m(3) keep(1,2) a(2) unfolding signals_ok_def t' by auto
  ultimately show ?thesis
    using ok m a(3) unfolding signals_ok_def t' by auto
qed

lemma over_limit_cong:
  "ex_maximumPlaces (sy_monitor t) = ex_maximumPlaces (sy_monitor s) \<Longrightarrow>
    ex_placesCompleted (sy_monitor t) = ex_placesCompleted (sy_monitor s) \<Longrightarrow> over_limit t = over_limit s"
  by (simp add: over_limit_def)

lemma signals_limit: "signals_ok c s \<Longrightarrow> ex_limitReached (sy_monitor s) = over_limit s"
  and signals_cancel: "signals_ok c s \<Longrightarrow> ex_cancelFunc (sy_monitor s) = Some c"
  by (simp_all add: signals_ok_def)

lemma seed_step_signals:
  assumes s: "counts_ok t" "signals_ok c s" "\<not> all_finished s"
    and t: "t = with_action (seed_locked 1 (sy_monitor s)) ((sy_seeds s)[i := x]) s" "i < length (sy_seeds s)"
  shows "signals_ok c t"
proof -
  let ?m = "snd (seed_locked 1 (sy_monitor s))"
  have m: "sy_monitor t = ?m" by (simp add: t with_action_def)
  have sends: "fst (seed_locked 1 (sy_monitor s)) = (if all_finished t then ActSend else ActNone)"
    using finished_iff [OF s(1)] by (simp add: m seed_locked_def Let_def)
  have limit: "over_limit t = over_limit s"
    by (rule over_limit_cong) (simp_all add: m seed_locked_def Let_def)
  have frame: "ex_cancelFunc ?m = ex_cancelFunc (sy_monitor s)" "ex_doneCh ?m = ex_doneCh (sy_monitor s)"
    "ex_cancelled ?m = ex_cancelled (sy_monitor s)" "ex_limitReached ?m = ex_limitReached (sy_monitor s)"
    by (simp_all add: seed_locked_def Let_def)
  note limit_s = signals_limit [OF s(2)]
  have t': "t = with_action (fst (seed_locked 1 (sy_monitor s)), ?m) ((sy_seeds s)[i := x]) s"
    by (simp add: t(1))
  have ne: "(sy_seeds s)[i := x] \<noteq> []" using t(2) by auto
  show ?thesis
    by (rule signals_with_action [OF s(2) t' frame(1-3) _ _ _ ne])
      (use frame(4) limit_s limit s(3) sends in \<open>auto split: if_splits\<close>)
qed

lemma places_frame:
  "ex_cancelFunc (snd (places_locked k e)) = ex_cancelFunc e"
  "ex_doneCh (snd (places_locked k e)) = ex_doneCh e"
  "ex_cancelled (snd (places_locked k e)) = ex_cancelled e"
  "ex_maximumPlaces (snd (places_locked k e)) = ex_maximumPlaces e"
  "ex_placesCompleted (snd (places_locked k e)) = ex_placesCompleted e + k"
  "ex_limitReached (snd (places_locked k e)) \<longleftrightarrow>
     ex_limitReached e \<or> 0 < ex_maximumPlaces e \<and> ex_maximumPlaces e \<le> ex_placesCompleted e + k"
  by (auto simp: places_locked_def Let_def)

lemma places_action:
  assumes "ex_cancelFunc e = Some c"
  shows "fst (places_locked k e) = (if ex_limitReached (snd (places_locked k e)) then ActCancel c
    else if ex_finished (snd (places_locked k e)) then ActSend else ActNone)"
  using assms by (simp add: places_locked_def Let_def)

lemma places_step_signals:
  assumes s: "counts_ok t" "signals_ok c s" "all_finished s \<Longrightarrow> all_finished t" "0 \<le> k"
    and t: "t = with_action (places_locked k (sy_monitor s)) ((sy_seeds s)[i := x]) s" "i < length (sy_seeds s)"
  shows "signals_ok c t"
proof -
  let ?m = "snd (places_locked k (sy_monitor s))"
  have m: "sy_monitor t = ?m" by (simp add: t with_action_def)
  note c = signals_cancel [OF s(2)] and limit_s = signals_limit [OF s(2)]
  have limit: "ex_limitReached ?m \<longleftrightarrow> over_limit t"
    using limit_s s(4) unfolding over_limit_def m places_frame by linarith
  have grow: "over_limit s \<Longrightarrow> over_limit t" using s(4) by (simp add: over_limit_def m places_frame)
  have a: "fst (places_locked k (sy_monitor s)) =
      (if over_limit t then ActCancel c else if all_finished t then ActSend else ActNone)"
    using places_action [OF c, of k] limit finished_iff [OF s(1)] by (simp add: m)
  have t': "t = with_action (fst (places_locked k (sy_monitor s)), ?m) ((sy_seeds s)[i := x]) s"
    by (simp add: t(1))
  have ne: "(sy_seeds s)[i := x] \<noteq> []" using t(2) by auto
  show ?thesis
    by (rule signals_with_action [OF s(2) t' places_frame(1-3) limit s(3) grow ne])
      (use a in \<open>auto split: if_splits\<close>)
qed

lemma run_step_signals:
  assumes "run_step s t" "counts_ok s" "signals_ok c s"
  shows "signals_ok c t"
  using assms(1)
proof (cases rule: run_step.cases)
  case (report i n)
  have "\<not> all_finished s" "\<not> all_finished t"
    using report all_finished_update [of i s] all_finished_update [of i t] by simp_all
  moreover have "over_limit t = over_limit s"
    by (rule over_limit_cong) (simp_all add: report(1) IncrPlacesFound_def)
  ultimately show ?thesis using assms(3) report(1)
    by (simp add: signals_ok_def IncrPlacesFound_def)
next
  case (fail i)
  then show ?thesis
    using seed_step_signals [OF run_step_counts [OF assms(1,2)] assms(3)] all_finished_update [of i s] by simp
next
  case (complete i n)
  then show ?thesis
    using seed_step_signals [OF run_step_counts [OF assms(1,2)] assms(3)] all_finished_update [of i s] by simp
next
  case (places i n k)
  have "all_finished t" if f: "all_finished s"
  proof -
    have "n = 0" using f places(2,3) all_finished_update by fastforce
    then show ?thesis using f places
      by (auto simp: all_finished_def with_action_def dest!: set_updateD)
  qed
  then show ?thesis
    by (rule places_step_signals [OF run_step_counts [OF assms(1,2)] assms(3) _ places(4) places(1,2)])
next
  case (act a)
  have same: "all_finished t = all_finished s" "over_limit t = over_limit s" "sy_seeds t = sy_seeds s"
    "sy_running t = sy_running s"
    using act by (simp_all add: all_finished_def over_limit_def)
  have m: "ex_cancelFunc (sy_monitor t) = ex_cancelFunc (sy_monitor s)"
    "ex_limitReached (sy_monitor t) = ex_limitReached (sy_monitor s)"
    "ex_doneCh (sy_monitor t) \<longleftrightarrow> a = ActSend \<or> ex_doneCh (sy_monitor s)"
    "set (ex_cancelled (sy_monitor t)) = {f. a = ActCancel f} \<union> set (ex_cancelled (sy_monitor s))"
    by (simp_all add: act)
  have p: "x \<in># sy_pending t \<Longrightarrow> x \<in># sy_pending s" "x \<in># sy_pending s \<Longrightarrow> x = a \<or> x \<in># sy_pending t" for x
    using act by (auto dest: in_diffD) (metis add_mset_remove_trivial_eq insert_noteq_member)
  have "ActSend \<in># sy_pending t \<or> ex_doneCh (sy_monitor t) \<longrightarrow> all_finished s"
    using assms(3) p(1) act(2) unfolding signals_ok_def m by blast
  moreover have "f = c \<and> (all_finished s \<or> over_limit s)"
    if "ActCancel f \<in># sy_pending t \<or> f \<in> set (ex_cancelled (sy_monitor t))" for f
    using that assms(3) p(1) act(2) unfolding signals_ok_def m by blast
  moreover have "all_finished s \<and> sy_seeds s \<noteq> [] \<longrightarrow> ActSend \<in># sy_pending t \<or> ex_doneCh (sy_monitor t) \<or>
      ActCancel c \<in># sy_pending t \<or> c \<in> set (ex_cancelled (sy_monitor t))"
    using assms(3) p(2) unfolding signals_ok_def m by blast
  moreover have "sy_running s \<or> c \<in> set (ex_cancelled (sy_monitor t))"
    using assms(3) unfolding signals_ok_def m by blast
  ultimately show ?thesis
    using signals_limit [OF assms(3)] signals_cancel [OF assms(3)]
    unfolding signals_ok_def same m(1,2) by blast
next
  case (token m)
  have t: "sy_monitor t = m" "sy_pending t = sy_pending s" "sy_seeds t = sy_seeds s"
    by (simp_all add: token)
  have m: "ex_cancelFunc m = Some c" "ex_limitReached m = ex_limitReached (sy_monitor s)"
    "ex_cancelled m = c # ex_cancelled (sy_monitor s)" "ex_maximumPlaces m = ex_maximumPlaces (sy_monitor s)"
    "ex_placesCompleted m = ex_placesCompleted (sy_monitor s)" "\<not> ex_doneCh m" "ex_doneCh (sy_monitor s)"
    using token(3) signals_cancel [OF assms(3)] by (auto elim!: Run_exiterE)
  have same: "all_finished t = all_finished s" "over_limit t = over_limit s"
    by (simp_all add: all_finished_def over_limit_def t m)
  have "all_finished s" using assms(3) m(7) by (simp add: signals_ok_def)
  then show ?thesis
    using assms(3) unfolding signals_ok_def same t m by auto
qed

lemma run_reach_ok:
  assumes "run_reach s t" "counts_ok s" "signals_ok c s"
  shows "counts_ok t \<and> signals_ok c t"
  using assms by (induction rule: run_reach.induct) (auto intro: run_step_counts run_step_signals)

lemma run_init_ok:
  "counts_ok (run_init limit seeds c)" "0 < seeds \<Longrightarrow> signals_ok c (run_init limit seeds c)"
  by (simp_all add: counts_ok_def signals_ok_def run_init_def SetCancelFunc_def cancel_locked_def
      SetSeedCount_def New_exiter_def WithMaximumPlaces_def blank_exiter_def over_limit_def
      all_finished_def sum_list_replicate)

lemma run_reach_seeds: "run_reach s t \<Longrightarrow> length (sy_seeds t) = length (sy_seeds s)"
  by (induction rule: run_reach.induct) (auto elim!: run_step.cases simp: with_action_def)

section \<open>A pool of tasks\<close>

text \<open>The three reports a job makes, on a monitor and on the composite of a task.\<close>

datatype report = ReportSeed int | ReportFound int | ReportPlaces int

fun ex_report :: "report \<Rightarrow> exiter \<Rightarrow> exiter" where
  "ex_report (ReportSeed v) = IncrSeedCompleted v"
| "ex_report (ReportFound v) = IncrPlacesFound v"
| "ex_report (ReportPlaces v) = IncrPlacesCompleted v"

fun te_report :: "report \<Rightarrow> taskExiter \<Rightarrow> taskExiter" where
  "te_report (ReportSeed v) = te_IncrSeedCompleted v"
| "te_report (ReportFound v) = te_IncrPlacesFound v"
| "te_report (ReportPlaces v) = te_IncrPlacesCompleted v"

text \<open>
  The contract of an implementation of \<open>exiter.Exiter\<close>: behind a view it behaves as the monitor.
\<close>

locale exit_reporting =
  fixes view :: "'s \<Rightarrow> 'v" and lift :: "(exiter \<Rightarrow> exiter) \<Rightarrow> 'v \<Rightarrow> 'v"
    and report :: "report \<Rightarrow> 's \<Rightarrow> 's"
  assumes view_report: "view (report r s) = lift (ex_report r) (view s)"
    and lift_id: "lift id v = v"
    and lift_comp: "lift g (lift f v) = lift (\<lambda>e. g (f e)) v"
begin

lemma view_reports: "view (fold report rs s) = lift (fold ex_report rs) (view s)"
proof (induction rs arbitrary: s)
  case Nil
  show ?case unfolding fold.simps(1) lift_id by simp
next
  case (Cons r rs)
  have "fold ex_report (r # rs) = (\<lambda>e. fold ex_report rs (ex_report r e))" by (simp add: fun_eq_iff)
  then show ?case using Cons.IH by (simp add: view_report lift_comp)
qed

end

interpretation plain: exit_reporting "\<lambda>e. e" "\<lambda>f. f" ex_report
  by unfold_locales simp_all

lemma te_report_views: "te_own (te_report r t) = ex_report r (te_own t)"
  "te_run (te_report r t) = map_option (ex_report r) (te_run t)"
  by (cases r; simp add: te_IncrSeedCompleted_def te_IncrPlacesFound_def te_IncrPlacesCompleted_def)+

interpretation own: exit_reporting te_own "\<lambda>f. f" te_report
  by unfold_locales (simp_all add: te_report_views)

interpretation run: exit_reporting te_run map_option te_report
  by unfold_locales (simp_all add: te_report_views option.map_comp comp_def option.map_id)

text \<open>
  The pool: the tasks share the run's monitor. A report of task \<open>i\<close> goes through the composite made
  of its own monitor and the shared one.
\<close>

definition pool_report :: "nat \<times> report \<Rightarrow> exiter \<times> exiter list \<Rightarrow> exiter \<times> exiter list" where
  "pool_report = (\<lambda>(i, r) (shared, owns).
     let t = te_report r \<lparr>te_own = owns ! i, te_run = Some shared\<rparr>
     in (case te_run t of Some shared' \<Rightarrow> shared' | None \<Rightarrow> shared, owns[i := te_own t]))"

lemma pool_reports:
  "\<forall>x \<in> set xs. fst x < length owns \<Longrightarrow> fold pool_report xs (shared, owns) =
    (fold ex_report (map snd xs) shared,
     map (\<lambda>i. fold ex_report (map snd (filter (\<lambda>x. fst x = i) xs)) (owns ! i)) [0..<length owns])"
proof (induction xs arbitrary: shared owns)
  case Nil
  then show ?case by (simp add: map_nth)
next
  case (Cons x xs)
  have one: "pool_report x (shared, owns) =
      (ex_report (snd x) shared, owns[fst x := ex_report (snd x) (owns ! fst x)])"
    by (simp add: pool_report_def Let_def te_report_views case_prod_beta)
  have "fold pool_report xs (ex_report (snd x) shared, owns[fst x := ex_report (snd x) (owns ! fst x)]) =
      (fold ex_report (map snd xs) (ex_report (snd x) shared),
       map (\<lambda>i. fold ex_report (map snd (filter (\<lambda>x. fst x = i) xs))
         (owns[fst x := ex_report (snd x) (owns ! fst x)] ! i)) [0..<length owns])"
    using Cons.IH [of "owns[fst x := ex_report (snd x) (owns ! fst x)]"] Cons.prems by simp
  then show ?case using Cons.prems by (auto simp: one nth_list_update)
qed

section \<open>Properties\<close>

text \<open>
  With tasks running side by side on one pool monitor, whatever the order of their reports, every
  task's own monitor sees exactly its own reports in order, so its completion does not depend on the
  other tasks, while the run's monitor sees all of them, so the run-wide counts and the record limit
  stay global.
\<close>

theorem pool_monitors_separate:
  assumes "list_all (\<lambda>x. fst x < length owns) reports" "i < length owns"
  shows "snd (fold pool_report reports (shared, owns)) ! i =
      fold ex_report (map snd (filter (\<lambda>x. fst x = i) reports)) (owns ! i) \<and>
    fst (fold pool_report reports (shared, owns)) = fold ex_report (map snd reports) shared"
  using assms by (simp add: pool_reports list_all_iff)

theorem pool_monitors_separate_witness:
  "let m = SetSeedCount 1 (New_exiter []) in
   ex_doneCh (snd (fold pool_report
     [(0, ReportFound 2), (1, ReportSeed 1), (0, ReportSeed 1)] (SetSeedCount 2 m, [m, m])) ! 1)"
  using pool_monitors_separate [of "[SetSeedCount 1 (New_exiter []), SetSeedCount 1 (New_exiter [])]"
      "[(0, ReportFound 2), (1, ReportSeed 1), (0, ReportSeed 1)]" 1
      "SetSeedCount 2 (SetSeedCount 1 (New_exiter []))"]
  by (simp add: Let_def IncrSeedCompleted_def exiter_defs New_exiter_def blank_exiter_def)

text \<open>
  C20: in every interleaving of the seed jobs, the listings they report, the calls still under way
  outside the mutex and the waiting monitor, the run is told to stop (the done token is sent, or the
  cancel function is called) only when every seed has completed with no listing outstanding, or the
  record limit is reached; and once all seeds have completed and no call is under way, the token is
  waiting or the run is already cancelled, so a run with a seed never waits for its deadline.
\<close>

theorem run_stops_exactly_when_finished:
  assumes "run_reach (run_init limit seeds c) s" "0 < seeds"
  shows "(ex_doneCh (sy_monitor s) \<longrightarrow> all_finished s) \<and>
    (ex_cancelled (sy_monitor s) \<noteq> [] \<longrightarrow> all_finished s \<or> over_limit s) \<and>
    (all_finished s \<and> sy_pending s = {#} \<longrightarrow> ex_doneCh (sy_monitor s) \<or> c \<in> set (ex_cancelled (sy_monitor s))) \<and>
    (over_limit s \<longleftrightarrow> LimitReached (sy_monitor s))"
proof -
  have ok: "counts_ok s" "signals_ok c s"
    using run_reach_ok [OF assms(1) run_init_ok(1) run_init_ok(2) [OF assms(2)]] by simp_all
  have "sy_seeds s \<noteq> []"
    using run_reach_seeds [OF assms(1)] assms(2) by (auto simp: run_init_def)
  then have "all_finished s \<and> sy_pending s = {#} \<longrightarrow>
      ex_doneCh (sy_monitor s) \<or> c \<in> set (ex_cancelled (sy_monitor s))"
    using ok(2) by (auto simp: signals_ok_def)
  moreover have "ex_cancelled (sy_monitor s) \<noteq> [] \<longrightarrow> all_finished s \<or> over_limit s"
    using ok(2) by (cases "ex_cancelled (sy_monitor s)") (auto simp: signals_ok_def)
  moreover have "ex_doneCh (sy_monitor s) \<longrightarrow> all_finished s" using ok(2) by (simp add: signals_ok_def)
  ultimately show ?thesis
    using signals_limit [OF ok(2)] by (simp add: LimitReached_def SnapshotOf_def)
qed

theorem run_stops_exactly_when_finished_witness:
  "\<exists>s. run_reach (run_init 0 1 7) s \<and> all_finished s \<and> ex_doneCh (sy_monitor s)"
proof -
  define s1 where "s1 = with_action (seed_locked 1 (sy_monitor (run_init 0 1 7)))
    ((sy_seeds (run_init 0 1 7))[0 := SeedFinished 0]) (run_init 0 1 7)"
  define s2 where "s2 = s1\<lparr>sy_monitor := perform ActSend (sy_monitor s1), sy_pending := sy_pending s1 - {#ActSend#}\<rparr>"
  have p: "sy_pending s1 = {#ActSend#}"
    by (simp add: s1_def with_action_def run_init_def exiter_defs SetCancelFunc_def New_exiter_def
        WithMaximumPlaces_def blank_exiter_def)
  have "run_step (run_init 0 1 7) s1"
    unfolding s1_def by (rule run_step.fail) (simp_all add: run_init_def)
  moreover have "run_step s1 s2" unfolding s2_def by (rule run_step.act) (simp add: p)
  ultimately have r: "run_reach (run_init 0 1 7) s2" by (meson run_reach.intros)
  have "all_finished s2" by (simp add: all_finished_def s2_def s1_def with_action_def run_init_def)
  moreover have "sy_pending s2 = {#}" by (simp add: s2_def p)
  moreover have "ex_cancelled (sy_monitor s2) = []"
    by (simp add: s2_def s1_def with_action_def run_init_def exiter_defs SetCancelFunc_def New_exiter_def
        WithMaximumPlaces_def blank_exiter_def)
  ultimately show ?thesis using run_stops_exactly_when_finished [OF r] r by auto
qed

end
