(* ===== verification/Dedup.thy ===== *)
theory Dedup
  imports Database GoStrings
begin

text \<open>
  Listing deduplication: the in-memory set of \<open>deduper/hashmap.go\<close>, its durable wrapper
  \<open>runner/webrunner/durable_deduper.go\<close>, the service in front of the store
  (\<open>web/checkpoint_dedup.go\<close>) and the table \<open>job_listing_keys\<close> of \<open>web/sqlite/listing_keys.go\<close>.
  \<open>DedupProperties\<close> adds the concurrent calls and the restart.
\<close>

section \<open>The in-memory set\<close>

text \<open>FNV-1 with 64 bits: \<open>hash/fnv\<close> multiplies first and then adds the byte.\<close>

definition dedup_hash :: "string \<Rightarrow> uint64" where
  "dedup_hash key =
     foldl (\<lambda>h c. (h * 1099511628211) XOR of_char c) 14695981039346656037 key"

text \<open>The two critical sections of \<open>AddIfNotExists\<close> and their composition.\<close>

definition seen_locked :: "string \<Rightarrow> uint64 set \<Rightarrow> bool" where
  "seen_locked key seen \<longleftrightarrow> dedup_hash key \<in> seen"

definition insert_locked :: "string \<Rightarrow> uint64 set \<Rightarrow> bool \<times> uint64 set" where
  "insert_locked key seen =
     (if dedup_hash key \<in> seen then (False, seen) else (True, insert (dedup_hash key) seen))"

definition AddIfNotExists :: "string \<Rightarrow> uint64 set \<Rightarrow> bool \<times> uint64 set" where
  "AddIfNotExists key seen =
     (if seen_locked key seen then (False, seen) else insert_locked key seen)"

lemma AddIfNotExists_eq:
  "AddIfNotExists key seen = (dedup_hash key \<notin> seen, insert (dedup_hash key) seen)"
  by (auto simp: AddIfNotExists_def seen_locked_def insert_locked_def)

section \<open>The table\<close>

record ListingKeyRow =
  lk_job_id :: string
  lk_key_hash :: string
  lk_created_at :: int

text \<open>\<open>INSERT OR IGNORE\<close> under the primary key \<open>(job_id, key_hash)\<close>.\<close>

definition insert_key :: "int \<Rightarrow> string \<Rightarrow> string \<Rightarrow> ListingKeyRow list \<Rightarrow> ListingKeyRow list" where
  "insert_key now job key rows =
     (if list_ex (\<lambda>r. lk_job_id r = job \<and> lk_key_hash r = key) rows then rows
      else rows @ [\<lparr>lk_job_id = job, lk_key_hash = key, lk_created_at = now\<rparr>])"

text \<open>Batches of \<open>maximumListingKeyBatch\<close> keys: the rows afterwards and how many were inserted.\<close>

function remember_batches ::
  "int \<Rightarrow> string \<Rightarrow> string list \<Rightarrow> int \<Rightarrow> ListingKeyRow list \<Rightarrow> int \<times> ListingKeyRow list" where
  "remember_batches now job keys inserted rows =
     (if keys = [] then (inserted, rows)
      else
        let batch = filter (\<lambda>k. k \<noteq> []) (map TrimSpace (take 500 keys));
            rows' = fold (insert_key now job) batch rows
        in remember_batches now job (drop 500 keys)
             (inserted + (int (length rows') - int (length rows))) rows')"
  by pat_completeness auto
termination
  by (relation "measure (\<lambda>(now, job, keys, inserted, rows). length keys)") auto

declare remember_batches.simps [simp del]

text \<open>
  The foreign key to \<open>jobs\<close> is not covered by \<open>OR IGNORE\<close>: a row for a job that is gone is an error.
\<close>

definition repo_RememberJobListingKeys ::
  "int \<Rightarrow> string \<Rightarrow> string list \<Rightarrow> Db \<Rightarrow> ListingKeyRow list \<Rightarrow> (repo_error + int) \<times> ListingKeyRow list"
where
  "repo_RememberJobListingKeys now job keys db rows =
     (let job' = TrimSpace job
      in if job' = [] \<or> keys = [] then (Inr 0, rows)
         else if find_job job' db = None \<and> list_ex (\<lambda>k. TrimSpace k \<noteq> []) keys
           then (Inl (ErrConstraint ''job_listing_keys.job_id''), rows)
         else let (inserted, rows') = remember_batches now job' keys 0 rows in (Inr inserted, rows'))"

definition repo_JobListingKeys :: "string \<Rightarrow> int \<Rightarrow> ListingKeyRow list \<Rightarrow> string list" where
  "repo_JobListingKeys job limit rows =
     (let job' = TrimSpace job
      in if job' = [] \<or> limit \<le> 0 then []
         else map lk_key_hash (take (nat limit)
           (sort_key lk_created_at (sort_key lk_key_hash (filter (\<lambda>r. lk_job_id r = job') rows)))))"

definition repo_CountJobListingKeys :: "string \<Rightarrow> ListingKeyRow list \<Rightarrow> int" where
  "repo_CountJobListingKeys job rows = count_where (\<lambda>r. lk_job_id r = TrimSpace job) rows"

section \<open>The service\<close>

definition MaximumListingKeysPerJob :: int where "MaximumListingKeysPerJob = 500000"

definition accepted_keys :: "string list \<Rightarrow> string list" where
  "accepted_keys keys = filter (\<lambda>k. k \<noteq> [] \<and> length k \<le> 128) (map TrimSpace keys)"

definition RememberJobListingKeys ::
  "int \<Rightarrow> string \<Rightarrow> string list \<Rightarrow> Db \<Rightarrow> ListingKeyRow list \<Rightarrow> (repo_error + int) \<times> ListingKeyRow list"
where
  "RememberJobListingKeys now job keys db rows =
     (let accepted = accepted_keys keys
      in if accepted = [] then (Inr 0, rows)
         else repo_RememberJobListingKeys now job accepted db rows)"

definition JobListingKeys :: "string \<Rightarrow> int \<Rightarrow> ListingKeyRow list \<Rightarrow> string list" where
  "JobListingKeys job limit rows =
     repo_JobListingKeys job
       (if limit \<le> 0 \<or> MaximumListingKeysPerJob < limit then MaximumListingKeysPerJob else limit) rows"

section \<open>The durable deduper\<close>

record durableDeduper =
  dd_inner :: "uint64 set"
  dd_pending :: "string list"

definition listingKeyDigest :: "Env \<Rightarrow> string \<Rightarrow> string" where
  "listingKeyDigest env key = hex_encode (Sum256 env key)"

text \<open>A read that fails is \<open>Inl\<close>; it leaves the inner set as it was.\<close>

definition newDurableDeduper :: "repo_error + string list \<Rightarrow> uint64 set \<Rightarrow> durableDeduper" where
  "newDurableDeduper keys inner =
     \<lparr>dd_inner = (case keys of Inl _ \<Rightarrow> inner
        | Inr ks \<Rightarrow> fold (\<lambda>k seen. snd (AddIfNotExists k seen)) ks inner),
      dd_pending = []\<rparr>"

definition newJobDeduper :: "bool \<Rightarrow> bool \<Rightarrow> repo_error + string list \<Rightarrow> uint64 set + durableDeduper" where
  "newJobDeduper checkpoints listingState keys =
     (if \<not> checkpoints \<or> \<not> listingState then Inl {} else Inr (newDurableDeduper keys {}))"

definition listingKeyFlushThreshold :: nat where "listingKeyFlushThreshold = 200"

text \<open>The store is an interface of the runner; \<open>remember\<close> is its write.\<close>

definition Flush ::
  "(string list \<Rightarrow> 's \<Rightarrow> (repo_error + int) \<times> 's) \<Rightarrow> durableDeduper \<times> 's \<Rightarrow> durableDeduper \<times> 's" where
  "Flush remember = (\<lambda>(d, st).
     let pending = dd_pending d; d1 = d\<lparr>dd_pending := []\<rparr>
     in if pending = [] then (d1, st)
        else case remember pending st of
               (Inl _, st') \<Rightarrow> (d1\<lparr>dd_pending := pending @ dd_pending d1\<rparr>, st')
             | (Inr _, st') \<Rightarrow> (d1, st'))"

definition durable_AddIfNotExists ::
  "Env \<Rightarrow> (string list \<Rightarrow> 's \<Rightarrow> (repo_error + int) \<times> 's) \<Rightarrow> string \<Rightarrow> durableDeduper \<times> 's \<Rightarrow>
   bool \<times> durableDeduper \<times> 's" where
  "durable_AddIfNotExists env remember key = (\<lambda>(d, st).
     let digest = listingKeyDigest env key;
         (added, inner) = AddIfNotExists digest (dd_inner d);
         d1 = d\<lparr>dd_inner := inner\<rparr>
     in if \<not> added then (False, d1, st)
        else let d2 = d1\<lparr>dd_pending := dd_pending d1 @ [digest]\<rparr>
             in if listingKeyFlushThreshold \<le> length (dd_pending d2) then (True, Flush remember (d2, st))
                else (True, d2, st))"

text \<open>Sequences of calls, each with the environment its writes see: the answers and the final state.\<close>

primrec durable_calls ::
  "Env \<Rightarrow> ('e \<Rightarrow> string list \<Rightarrow> 's \<Rightarrow> (repo_error + int) \<times> 's) \<Rightarrow> ('e \<times> string) list \<Rightarrow> durableDeduper \<times> 's \<Rightarrow>
   bool list \<times> durableDeduper \<times> 's" where
  "durable_calls env remember [] ds = ([], ds)"
| "durable_calls env remember (c # cs) ds =
     (let (b, ds1) = durable_AddIfNotExists env (remember (fst c)) (snd c) ds;
          (bs, ds2) = durable_calls env remember cs ds1
      in (b # bs, ds2))"

primrec memory_calls :: "string list \<Rightarrow> uint64 set \<Rightarrow> bool list \<times> uint64 set" where
  "memory_calls [] seen = ([], seen)"
| "memory_calls (k # ks) seen =
     (let (b, seen1) = AddIfNotExists k seen; (bs, seen2) = memory_calls ks seen1 in (b # bs, seen2))"

section \<open>Laws of the table\<close>

definition recorded :: "string \<Rightarrow> ListingKeyRow list \<Rightarrow> string set" where
  "recorded job rows = lk_key_hash ` {r \<in> set rows. lk_job_id r = TrimSpace job}"

definition keys_unique :: "ListingKeyRow list \<Rightarrow> bool" where
  "keys_unique rows \<longleftrightarrow> distinct (map (\<lambda>r. (lk_job_id r, lk_key_hash r)) rows)"

lemma insert_keys_rows:
  "set (map (\<lambda>r. (lk_job_id r, lk_key_hash r)) (fold (insert_key now job) keys rows)) =
     set (map (\<lambda>r. (lk_job_id r, lk_key_hash r)) rows) \<union> Pair job ` set keys"
proof (induction keys arbitrary: rows)
  case (Cons k ks)
  then show ?case by (auto simp: insert_key_def list_ex_iff image_iff)
qed simp

lemma insert_keys_unique: "keys_unique rows \<Longrightarrow> keys_unique (fold (insert_key now job) keys rows)"
proof (induction keys arbitrary: rows)
  case (Cons k ks)
  have "keys_unique (insert_key now job k rows)"
    using Cons.prems by (auto simp: keys_unique_def insert_key_def list_ex_iff)
  then show ?case using Cons.IH by simp
qed simp

text \<open>Cutting the keys into batches changes nothing: one long insert does the same.\<close>

lemma remember_batches_eq:
  "remember_batches now job keys inserted rows =
     (let rows' = fold (insert_key now job) (filter (\<lambda>k. k \<noteq> []) (map TrimSpace keys)) rows
      in (inserted + (int (length rows') - int (length rows)), rows'))"
proof (induction now job keys inserted rows rule: remember_batches.induct)
  case (1 now job keys inserted rows)
  have split: "fold (insert_key now job) (filter (\<lambda>k. k \<noteq> []) (map TrimSpace keys)) rows =
      fold (insert_key now job) (filter (\<lambda>k. k \<noteq> []) (map TrimSpace (drop 500 keys)))
        (fold (insert_key now job) (filter (\<lambda>k. k \<noteq> []) (map TrimSpace (take 500 keys))) rows)"
    by (subst append_take_drop_id [of 500 keys, symmetric]) (simp only: map_append filter_append fold_append comp_apply)
  show ?case
  proof (cases "keys = []")
    case True
    then show ?thesis by (subst remember_batches.simps) simp
  next
    case False
    show ?thesis
      unfolding remember_batches.simps [of now job keys] Let_def if_not_P [OF False] split
      unfolding 1 [OF False refl refl] Let_def by simp
  qed
qed

lemma recorded_insert_keys:
  "recorded job (fold (insert_key now (TrimSpace job)) keys rows) = recorded job rows \<union> set keys"
proof -
  have r: "recorded job rows = {k. (TrimSpace job, k) \<in> set (map (\<lambda>r. (lk_job_id r, lk_key_hash r)) rows)}" for rows
    by (force simp: recorded_def image_iff)
  show ?thesis unfolding r insert_keys_rows by auto
qed

text \<open>What the service takes as it is.\<close>

definition fit_key :: "string \<Rightarrow> bool" where
  "fit_key k \<longleftrightarrow> TrimSpace k = k \<and> k \<noteq> [] \<and> length k \<le> 128"

lemma accepted_fit: "\<forall>k \<in> set keys. fit_key k \<Longrightarrow> accepted_keys keys = keys"
  by (induction keys) (simp_all add: accepted_keys_def fit_key_def)

lemma remember_error: "RememberJobListingKeys now job keys db rows = (Inl e, rows') \<Longrightarrow> rows' = rows"
  by (auto simp: RememberJobListingKeys_def repo_RememberJobListingKeys_def Let_def split: if_splits prod.splits)

lemma remember_ok:
  assumes "RememberJobListingKeys now job keys db rows = (Inr n, rows')" "\<forall>k \<in> set keys. fit_key k"
    "TrimSpace job \<noteq> []"
  shows "recorded job rows' = recorded job rows \<union> set keys"
    "n = int (length rows') - int (length rows)" "keys_unique rows \<Longrightarrow> keys_unique rows'"
proof -
  have "filter (\<lambda>k. k \<noteq> []) (map TrimSpace keys) = keys"
    using assms(2) by (induction keys) (simp_all add: fit_key_def)
  then have "rows' = fold (insert_key now (TrimSpace job)) keys rows \<and> n = int (length rows') - int (length rows)"
    using assms(1,3) accepted_fit [OF assms(2)]
    by (auto simp: RememberJobListingKeys_def repo_RememberJobListingKeys_def remember_batches_eq Let_def split: if_splits)
  then show "recorded job rows' = recorded job rows \<union> set keys"
    "n = int (length rows') - int (length rows)" "keys_unique rows \<Longrightarrow> keys_unique rows'"
    by (simp_all add: recorded_insert_keys insert_keys_unique)
qed

lemma digest_fit: "length (Sum256 env key) = 32 \<Longrightarrow> fit_key (listingKeyDigest env key)"
  by (simp add: fit_key_def listingKeyDigest_def flip: length_greater_0_conv)

lemma JobListingKeys_recorded:
  assumes "TrimSpace job \<noteq> []" "int (length rows) \<le> MaximumListingKeysPerJob"
  shows "set (JobListingKeys job MaximumListingKeysPerJob rows) = recorded job rows"
proof -
  have "length (filter (\<lambda>r. lk_job_id r = TrimSpace job) rows) \<le> nat MaximumListingKeysPerJob"
    using assms(2) length_filter_le [of "\<lambda>r. lk_job_id r = TrimSpace job" rows] by linarith
  then show ?thesis
    using assms(1)
    by (simp add: JobListingKeys_def repo_JobListingKeys_def recorded_def MaximumListingKeysPerJob_def Let_def)
qed

section \<open>The contract of the store\<close>

text \<open>
  What the wrapper expects of \<open>listingKeyStore\<close>: a write adds the keys, a failed one nothing, and the
  store stays usable. The parameter \<open>e\<close> is whatever a write depends on besides the keys (the clock,
  other tables).
\<close>

locale listing_key_store =
  fixes remember :: "'e \<Rightarrow> string list \<Rightarrow> 's \<Rightarrow> (repo_error + int) \<times> 's"
    and stored :: "'s \<Rightarrow> string set" and ready :: "'s \<Rightarrow> bool" and fit :: "string \<Rightarrow> bool"
  assumes write_ok: "remember e ks st = (Inr n, st') \<Longrightarrow> \<forall>k \<in> set ks. fit k \<Longrightarrow> ready st \<Longrightarrow>
      stored st' = stored st \<union> set ks"
    and write_fails: "remember e ks st = (Inl err, st') \<Longrightarrow> stored st' = stored st"
    and write_ready: "remember e ks st = (r, st') \<Longrightarrow> ready st' = ready st"
begin

text \<open>What is kept somewhere: in the buffer or in the store.\<close>

definition kept :: "durableDeduper \<times> 's \<Rightarrow> string set" where
  "kept ds = set (dd_pending (fst ds)) \<union> stored (snd ds)"

definition sound :: "durableDeduper \<times> 's \<Rightarrow> bool" where
  "sound ds \<longleftrightarrow> ready (snd ds) \<and> (\<forall>k \<in> set (dd_pending (fst ds)). fit k)"

lemma Flush_laws:
  assumes "sound ds"
  shows "kept (Flush (remember e) ds) = kept ds" "dd_inner (fst (Flush (remember e) ds)) = dd_inner (fst ds)"
    "sound (Flush (remember e) ds)"
    "dd_pending (fst (Flush (remember e) ds)) = [] \<or>
     (\<exists>err. fst (remember e (dd_pending (fst ds)) (snd ds)) = Inl err)"
proof -
  obtain d st where ds: "ds = (d, st)" by (cases ds)
  show "kept (Flush (remember e) ds) = kept ds" "dd_inner (fst (Flush (remember e) ds)) = dd_inner (fst ds)"
    "sound (Flush (remember e) ds)"
    "dd_pending (fst (Flush (remember e) ds)) = [] \<or>
     (\<exists>err. fst (remember e (dd_pending (fst ds)) (snd ds)) = Inl err)"
    using assms write_ok [of e "dd_pending d" st] write_fails [of e "dd_pending d" st] write_ready [of e "dd_pending d" st]
    by (cases "remember e (dd_pending d) st"; cases "fst (remember e (dd_pending d) st)";
        force simp: ds Flush_def kept_def sound_def Let_def)+
qed

lemma Add_laws:
  assumes "sound ds" "fit (listingKeyDigest env key)"
  defines "k \<equiv> listingKeyDigest env key"
  shows "fst (durable_AddIfNotExists env (remember e) key ds) = fst (AddIfNotExists k (dd_inner (fst ds)))"
    "dd_inner (fst (snd (durable_AddIfNotExists env (remember e) key ds))) = snd (AddIfNotExists k (dd_inner (fst ds)))"
    "sound (snd (durable_AddIfNotExists env (remember e) key ds))"
    "kept (snd (durable_AddIfNotExists env (remember e) key ds)) = kept ds \<union>
      (if dedup_hash k \<in> dd_inner (fst ds) then {} else {k})"
proof -
  obtain d st where ds: "ds = (d, st)" by (cases ds)
  let ?ds = "(d\<lparr>dd_inner := insert (dedup_hash k) (dd_inner d), dd_pending := dd_pending d @ [k]\<rparr>, st)"
  have fit: "sound ?ds" using assms by (auto simp: sound_def ds)
  have res: "durable_AddIfNotExists env (remember e) key ds =
      (if dedup_hash k \<in> dd_inner d then (False, d, st)
       else (True, if listingKeyFlushThreshold \<le> Suc (length (dd_pending d)) then Flush (remember e) ?ds else ?ds))"
    by (simp add: durable_AddIfNotExists_def AddIfNotExists_eq ds Let_def insert_absorb k_def)
  show "fst (durable_AddIfNotExists env (remember e) key ds) = fst (AddIfNotExists k (dd_inner (fst ds)))"
    "dd_inner (fst (snd (durable_AddIfNotExists env (remember e) key ds))) = snd (AddIfNotExists k (dd_inner (fst ds)))"
    "sound (snd (durable_AddIfNotExists env (remember e) key ds))"
    "kept (snd (durable_AddIfNotExists env (remember e) key ds)) = kept ds \<union>
      (if dedup_hash k \<in> dd_inner (fst ds) then {} else {k})"
    unfolding res using Flush_laws [OF fit, of e] fit assms(1)
    by (auto simp: AddIfNotExists_eq ds insert_absorb sound_def kept_def)
qed

text \<open>While writes succeed the buffer stays below the threshold.\<close>

lemma Add_pending:
  assumes "sound ds" "fit (listingKeyDigest env key)" "\<And>ks st. \<exists>n. fst (remember e ks st) = Inr n"
    "length (dd_pending (fst ds)) < listingKeyFlushThreshold"
  shows "length (dd_pending (fst (snd (durable_AddIfNotExists env (remember e) key ds)))) < listingKeyFlushThreshold"
proof -
  obtain d st where ds: "ds = (d, st)" by (cases ds)
  let ?k = "listingKeyDigest env key"
  let ?ds = "(d\<lparr>dd_inner := insert (dedup_hash ?k) (dd_inner d), dd_pending := dd_pending d @ [?k]\<rparr>, st)"
  have "sound ?ds" using assms by (auto simp: sound_def ds)
  moreover obtain n where "fst (remember e (dd_pending (fst ?ds)) (snd ?ds)) = Inr n" using assms(3) by blast
  ultimately have "dd_pending (fst (Flush (remember e) ?ds)) = []" using Flush_laws(4) [of ?ds e] by simp
  then show ?thesis
    using assms(4)
    by (simp add: durable_AddIfNotExists_def AddIfNotExists_eq ds Let_def listingKeyFlushThreshold_def)
qed

text \<open>A run of calls answers as the in-memory set does, and keeps what it accepted.\<close>

lemma calls_laws:
  assumes "sound ds" "\<forall>c \<in> set cs. fit (listingKeyDigest env (snd c))"
  defines "ks \<equiv> map (\<lambda>c. listingKeyDigest env (snd c)) cs"
  shows "fst (durable_calls env remember cs ds) = fst (memory_calls ks (dd_inner (fst ds))) \<and>
    kept (snd (durable_calls env remember cs ds)) =
      kept ds \<union> set (map fst (filter snd (zip ks (fst (memory_calls ks (dd_inner (fst ds)))))))"
  unfolding ks_def using assms(1,2)
proof (induction cs arbitrary: ds)
  case (Cons c cs)
  obtain b ds1 where add: "durable_AddIfNotExists env (remember (fst c)) (snd c) ds = (b, ds1)" by (cases rule: prod.exhaust)
  have laws: "fst (AddIfNotExists (listingKeyDigest env (snd c)) (dd_inner (fst ds))) = b"
    "snd (AddIfNotExists (listingKeyDigest env (snd c)) (dd_inner (fst ds))) = dd_inner (fst ds1)" "sound ds1"
    "kept ds1 = kept ds \<union> (if b then {listingKeyDigest env (snd c)} else {})"
    using Add_laws [OF Cons.prems(1), of env "snd c" "fst c"] Cons.prems(2) unfolding add
    by (auto simp: AddIfNotExists_eq)
  show ?case
    using Cons.IH [OF laws(3)] Cons.prems(2)
    by (auto simp: add laws(1,2,4) Let_def case_prod_beta prod_eq_iff)
qed simp

lemma calls_pending:
  assumes "sound ds" "\<forall>c \<in> set cs. fit (listingKeyDigest env (snd c))"
    "\<forall>c \<in> set cs. \<forall>ks st. \<exists>n. fst (remember (fst c) ks st) = Inr n"
    "length (dd_pending (fst ds)) < listingKeyFlushThreshold"
  shows "length (dd_pending (fst (snd (durable_calls env remember cs ds)))) < listingKeyFlushThreshold"
  using assms
proof (induction cs arbitrary: ds)
  case (Cons c cs)
  then show ?case
    using Add_laws(3) [of ds env "snd c" "fst c"] Add_pending [of ds env "snd c" "fst c"]
    by (simp add: Let_def case_prod_beta)
qed simp

end

text \<open>The store of the program: the service in front of the table, for one job.\<close>

definition store_write ::
  "string \<Rightarrow> int \<times> Db \<Rightarrow> string list \<Rightarrow> ListingKeyRow list \<Rightarrow> (repo_error + int) \<times> ListingKeyRow list" where
  "store_write job e keys rows = RememberJobListingKeys (fst e) job keys (snd e) rows"

definition store_read :: "string \<Rightarrow> ListingKeyRow list \<Rightarrow> repo_error + string list" where
  "store_read job rows = Inr (JobListingKeys job MaximumListingKeysPerJob rows)"

lemma remember_blank: "TrimSpace job = [] \<Longrightarrow> snd (RememberJobListingKeys now job keys db rows) = rows"
  by (simp add: RememberJobListingKeys_def repo_RememberJobListingKeys_def Let_def)

interpretation listing_keys: listing_key_store "store_write job" "recorded job"
    "\<lambda>rows. TrimSpace job \<noteq> []" fit_key for job
  by unfold_locales (auto simp: store_write_def remember_ok(1) dest: remember_error)

lemma store_write_ok:
  "find_job (TrimSpace job) (snd e) \<noteq> None \<Longrightarrow> \<exists>n. fst (store_write job e ks rows) = Inr n"
  by (auto simp: store_write_def RememberJobListingKeys_def repo_RememberJobListingKeys_def Let_def case_prod_beta)

end
