(* ===== verification/DedupProperties.thy ===== *)
theory DedupProperties
  imports Dedup
begin

text \<open>
  The deduper under concurrency and across restarts. The threads of a run are calls of
  \<open>AddIfNotExists\<close> (one per listing the scrape jobs find) and of \<open>Flush\<close> (one per task checkpoint);
  a step is what a thread does between two releases of the deduper's locks.
\<close>

section \<open>Threads and steps\<close>

text \<open>
  A call carries its digest. \<open>Won\<close> is a call whose identity is in the inner set and not yet in the
  buffer; \<open>MustFlush\<close> and \<open>Writing\<close> are inside \<open>Flush\<close>, on behalf of a call or of a checkpoint.
\<close>

datatype dd_thread =
    Entered string | Missed string | Won string | MustFlush "string option"
  | Writing "string option" "string list" | Answered string bool | Flushed

fun reply :: "string option \<Rightarrow> dd_thread" where
  "reply (Some k) = Answered k True"
| "reply None = Flushed"

record dd_system =
  ds_dedup :: durableDeduper
  ds_rows :: "ListingKeyRow list"
  ds_threads :: "dd_thread list"

text \<open>\<open>put s us t vs\<close>: the thread between \<open>us\<close> and \<open>vs\<close> is now \<open>t\<close>.\<close>

abbreviation put :: "dd_thread list \<Rightarrow> dd_thread \<Rightarrow> dd_thread list \<Rightarrow> dd_system \<Rightarrow> dd_system" where
  "put us t vs s \<equiv> s\<lparr>ds_threads := us @ t # vs\<rparr>"

definition set_dedup :: "(durableDeduper \<Rightarrow> durableDeduper) \<Rightarrow> dd_system \<Rightarrow> dd_system" where
  "set_dedup f s = s\<lparr>ds_dedup := f (ds_dedup s)\<rparr>"

inductive dd_step :: "Env \<Rightarrow> string \<Rightarrow> dd_system \<Rightarrow> dd_system \<Rightarrow> bool" for env job where
  enter: "dd_step env job s (s\<lparr>ds_threads := ds_threads s @ [Entered (listingKeyDigest env key)]\<rparr>)"
| checkpoint: "dd_step env job s (s\<lparr>ds_threads := ds_threads s @ [MustFlush None]\<rparr>)"
| look: "ds_threads s = us @ Entered k # vs \<Longrightarrow>
    dd_step env job s
      (put us (if seen_locked k (dd_inner (ds_dedup s)) then Answered k False else Missed k) vs s)"
| add: "ds_threads s = us @ Missed k # vs \<Longrightarrow> insert_locked k (dd_inner (ds_dedup s)) = (b, seen) \<Longrightarrow>
    dd_step env job s
      (put us (if b then Won k else Answered k False) vs (set_dedup (dd_inner_update (\<lambda>_. seen)) s))"
| buffer: "ds_threads s = us @ Won k # vs \<Longrightarrow> pending = dd_pending (ds_dedup s) @ [k] \<Longrightarrow>
    dd_step env job s
      (put us (if listingKeyFlushThreshold \<le> length pending then MustFlush (Some k) else Answered k True) vs
        (set_dedup (dd_pending_update (\<lambda>_. pending)) s))"
| take_buffer: "ds_threads s = us @ MustFlush k # vs \<Longrightarrow> pending = dd_pending (ds_dedup s) \<Longrightarrow>
    dd_step env job s
      (put us (if pending = [] then reply k else Writing k pending) vs
        (set_dedup (dd_pending_update (\<lambda>_. [])) s))"
| write_ok: "ds_threads s = us @ Writing k batch # vs \<Longrightarrow> store_write job e batch (ds_rows s) = (Inr n, rows) \<Longrightarrow>
    dd_step env job s (put us (reply k) vs (s\<lparr>ds_rows := rows\<rparr>))"
| write_fails: "ds_threads s = us @ Writing k batch # vs \<Longrightarrow>
    dd_step env job s (put us (reply k) vs (set_dedup (dd_pending_update (\<lambda>later. batch @ later)) s))"

inductive dd_reach :: "Env \<Rightarrow> string \<Rightarrow> dd_system \<Rightarrow> dd_system \<Rightarrow> bool" for env job where
  start: "dd_reach env job s s"
| step: "dd_reach env job s t \<Longrightarrow> dd_step env job t u \<Longrightarrow> dd_reach env job s u"

text \<open>A run starts with a deduper seeded from the table and no call under way.\<close>

definition dd_start :: "string \<Rightarrow> ListingKeyRow list \<Rightarrow> dd_system" where
  "dd_start job rows =
     \<lparr>ds_dedup = newDurableDeduper (store_read job rows) {}, ds_rows = rows, ds_threads = []\<rparr>"

section \<open>Who won, and where the winners are\<close>

fun won :: "dd_thread \<Rightarrow> string list" where
  "won (Won k) = [k]"
| "won (MustFlush (Some k)) = [k]"
| "won (Writing (Some k) _) = [k]"
| "won (Answered k True) = [k]"
| "won _ = []"

fun in_flight :: "dd_thread \<Rightarrow> string list" where
  "in_flight (Won k) = [k]"
| "in_flight (Writing _ batch) = batch"
| "in_flight _ = []"

fun lost :: "dd_thread \<Rightarrow> string list" where
  "lost (Answered k False) = [k]"
| "lost _ = []"

fun held :: "dd_thread \<Rightarrow> string list" where
  "held (Entered k) = [k]"
| "held (Missed k) = [k]"
| "held t = won t @ in_flight t"

definition winners :: "dd_system \<Rightarrow> string list" where
  "winners s = concat (map won (ds_threads s))"

text \<open>Accepted identities that are not in the table yet.\<close>

definition unwritten :: "dd_system \<Rightarrow> string set" where
  "unwritten s = set (dd_pending (ds_dedup s)) \<union> set (concat (map in_flight (ds_threads s)))"

definition finished :: "dd_system \<Rightarrow> bool" where
  "finished s \<longleftrightarrow> (\<forall>t \<in> set (ds_threads s). t = Flushed \<or> (\<exists>k b. t = Answered k b))"

lemma reply_simps [simp]: "won (reply k) = won (MustFlush k)" "in_flight (reply k) = []" "lost (reply k) = []"
  "set (held (reply k)) = set (won (MustFlush k))"
  by (cases k; simp)+

lemma won_Writing [simp]: "won (Writing k batch) = won (MustFlush k)"
  by (cases k) simp_all

lemma set_dedup_simps [simp]:
  "ds_dedup (set_dedup f s) = f (ds_dedup s)" "ds_rows (set_dedup f s) = ds_rows s"
  "ds_threads (set_dedup f s) = ds_threads s"
  by (simp_all add: set_dedup_def)

text \<open>\<open>S\<close> and \<open>R\<close> are the hashes and the rows the run started with.\<close>

definition dedup_ok :: "string \<Rightarrow> uint64 set \<Rightarrow> string set \<Rightarrow> dd_system \<Rightarrow> bool" where
  "dedup_ok job S R s \<longleftrightarrow>
     distinct (map dedup_hash (winners s)) \<and> dedup_hash ` set (winners s) \<inter> S = {} \<and>
     dd_inner (ds_dedup s) = S \<union> dedup_hash ` set (winners s) \<and>
     (\<forall>k \<in> set (concat (map lost (ds_threads s))). dedup_hash k \<in> dd_inner (ds_dedup s)) \<and>
     set (winners s) \<subseteq> unwritten s \<union> recorded job (ds_rows s) \<and>
     unwritten s \<subseteq> set (winners s) \<and> recorded job (ds_rows s) \<subseteq> R \<union> set (winners s) \<and>
     R \<subseteq> recorded job (ds_rows s) \<and>
     (\<forall>k \<in> set (concat (map held (ds_threads s))) \<union> set (dd_pending (ds_dedup s)). fit_key k)"

lemma dedup_okD:
  assumes "dedup_ok job S R s"
  shows "distinct (map dedup_hash (winners s))" "dedup_hash ` set (winners s) \<inter> S = {}"
    "dd_inner (ds_dedup s) = S \<union> dedup_hash ` set (winners s)"
    "\<forall>k \<in> set (concat (map lost (ds_threads s))). dedup_hash k \<in> dd_inner (ds_dedup s)"
    "set (winners s) \<subseteq> unwritten s \<union> recorded job (ds_rows s)"
    "unwritten s \<subseteq> set (winners s)" "recorded job (ds_rows s) \<subseteq> R \<union> set (winners s)"
    "R \<subseteq> recorded job (ds_rows s)"
    "\<forall>k \<in> set (concat (map held (ds_threads s))) \<union> set (dd_pending (ds_dedup s)). fit_key k"
  using assms unfolding dedup_ok_def by blast+

text \<open>The invariant as one thread \<open>x\<close> sees it: what the others have is kept together.\<close>

definition others :: "(dd_thread \<Rightarrow> string list) \<Rightarrow> dd_thread list \<Rightarrow> dd_thread list \<Rightarrow> string list" where
  "others f us vs = concat (map f us) @ concat (map f vs)"

definition thread_ok :: "string \<Rightarrow> uint64 set \<Rightarrow> string set \<Rightarrow> dd_thread list \<Rightarrow> dd_thread list \<Rightarrow> dd_thread \<Rightarrow>
    durableDeduper \<Rightarrow> ListingKeyRow list \<Rightarrow> bool" where
  "thread_ok job S R us vs x d rows \<longleftrightarrow>
     distinct (map dedup_hash (won x @ others won us vs)) \<and>
     dedup_hash ` (set (won x) \<union> set (others won us vs)) \<inter> S = {} \<and>
     dd_inner d = S \<union> dedup_hash ` (set (won x) \<union> set (others won us vs)) \<and>
     (\<forall>k \<in> set (lost x) \<union> set (others lost us vs). dedup_hash k \<in> dd_inner d) \<and>
     set (won x) \<union> set (others won us vs) \<subseteq>
       set (dd_pending d) \<union> (set (in_flight x) \<union> set (others in_flight us vs)) \<union> recorded job rows \<and>
     set (dd_pending d) \<union> (set (in_flight x) \<union> set (others in_flight us vs)) \<subseteq>
       set (won x) \<union> set (others won us vs) \<and>
     recorded job rows \<subseteq> R \<union> (set (won x) \<union> set (others won us vs)) \<and>
     R \<subseteq> recorded job rows \<and>
     (\<forall>k \<in> set (held x) \<union> set (others held us vs) \<union> set (dd_pending d). fit_key k)"

lemma set_concat_at: "set (concat (map f (us @ x # vs))) = set (f x) \<union> set (others f us vs)"
  by (auto simp: others_def)

lemma distinct_swap: "distinct (map h (a @ b @ c)) = distinct (map h (b @ a @ c))"
  by auto

lemma dedup_ok_at:
  assumes "ds_threads s = us @ x # vs"
  shows "dedup_ok job S R s \<longleftrightarrow> thread_ok job S R us vs x (ds_dedup s) (ds_rows s)"
proof -
  have "distinct (map dedup_hash (concat (map won (us @ x # vs)))) \<longleftrightarrow>
      distinct (map dedup_hash (won x @ others won us vs))"
    using distinct_swap [of dedup_hash "concat (map won us)" "won x" "concat (map won vs)"]
    by (simp only: others_def map_append concat_append list.map concat.simps append_assoc)
  then show ?thesis
    unfolding dedup_ok_def thread_ok_def winners_def unwritten_def assms set_concat_at by blast
qed

lemma dd_step_ok:
  assumes "dd_step env job s t" "dedup_ok job S R s" "\<forall>key. length (Sum256 env key) = 32" "TrimSpace job \<noteq> []"
  shows "dedup_ok job S R t"
  using assms(1)
proof cases
  case (enter key)
  then show ?thesis
    using assms(2,3) by (auto simp: dedup_ok_def winners_def unwritten_def digest_fit)
next
  case checkpoint
  then show ?thesis
    using assms(2) by (auto simp: dedup_ok_def winners_def unwritten_def)
next
  case (look us k vs)
  then show ?thesis
    using assms(2) unfolding dedup_ok_at [OF look(2)]
    by (auto simp: dedup_ok_at [of _ us _ vs] thread_ok_def seen_locked_def)
next
  case (add us k vs b seen)
  then show ?thesis
    using assms(2) unfolding dedup_ok_at [OF add(2)]
    by (auto simp: dedup_ok_at [of _ us _ vs] thread_ok_def insert_locked_def split: if_splits)
next
  case (buffer us k vs pending)
  then show ?thesis
    using assms(2) unfolding dedup_ok_at [OF buffer(2)]
    by (auto simp: dedup_ok_at [of _ us _ vs] thread_ok_def)
next
  case (take_buffer us k vs pending)
  then show ?thesis
    using assms(2) unfolding dedup_ok_at [OF take_buffer(2)]
    by (auto simp: dedup_ok_at [of _ us _ vs] thread_ok_def)
next
  case (write_ok us k batch vs e n rows)
  have "\<forall>k \<in> set batch. fit_key k"
    using dedup_okD(9) [OF assms(2)] write_ok by (auto elim: ballE)
  then have "recorded job rows = recorded job (ds_rows s) \<union> set batch"
    using write_ok(3) assms(4) by (auto simp: store_write_def dest: remember_ok(1))
  with write_ok show ?thesis
    using assms(2) unfolding dedup_ok_at [OF write_ok(2)]
    by (auto simp: dedup_ok_at [of _ us _ vs] thread_ok_def)
next
  case (write_fails us k batch vs)
  then show ?thesis
    using assms(2) unfolding dedup_ok_at [OF write_fails(2)]
    by (auto simp: dedup_ok_at [of _ us _ vs] thread_ok_def)
qed

lemma dd_reach_ok:
  assumes "dd_reach env job s t" "dedup_ok job S R s" "\<forall>key. length (Sum256 env key) = 32" "TrimSpace job \<noteq> []"
  shows "dedup_ok job S R t"
  using assms by (induction rule: dd_reach.induct) (auto intro: dd_step_ok)

lemma inner_new:
  "dd_inner (newDurableDeduper (Inr ks) seen) = seen \<union> dedup_hash ` set ks"
proof -
  have "fold (\<lambda>k seen. snd (AddIfNotExists k seen)) ks seen = seen \<union> dedup_hash ` set ks"
    by (induction ks arbitrary: seen) (auto simp: AddIfNotExists_eq)
  then show ?thesis by (simp add: newDurableDeduper_def)
qed

lemma inner_seeded:
  assumes "TrimSpace job \<noteq> []" "int (length rows) \<le> MaximumListingKeysPerJob"
  shows "dd_inner (newDurableDeduper (store_read job rows) {}) = dedup_hash ` recorded job rows"
  unfolding store_read_def inner_new using JobListingKeys_recorded [OF assms] by simp

lemma dd_start_ok:
  assumes "TrimSpace job \<noteq> []" "int (length rows) \<le> MaximumListingKeysPerJob"
  shows "dedup_ok job (dedup_hash ` recorded job rows) (recorded job rows) (dd_start job rows)"
  using inner_seeded [OF assms]
  by (simp add: dedup_ok_def dd_start_def winners_def unwritten_def newDurableDeduper_def)

section \<open>A run of two calls\<close>

text \<open>Two calls for one listing that both miss the set before either has inserted.\<close>

definition demo_env :: Env where
  "demo_env = \<lparr>RedactString = \<lambda>s. s, RedactValue = \<lambda>c. c,
     Sum256 = \<lambda>s. take 32 (s @ replicate 32 CHR ''0'')\<rparr>"

definition demo_end :: dd_system where
  "demo_end =
     (let k = listingKeyDigest demo_env ''a'' in
      \<lparr>ds_dedup = \<lparr>dd_inner = {dedup_hash k}, dd_pending = [k]\<rparr>, ds_rows = [],
       ds_threads = [Answered k True, Answered k False]\<rparr>)"

lemma demo_digest: "length (Sum256 demo_env key) = 32"
  by (simp add: demo_env_def)

lemma job_name: "TrimSpace ''j'' = ''j''"
  by (rule TrimSpace_inner) (simp add: printable_def of_char_def)

lemma demo_reach: "dd_reach demo_env ''j'' (dd_start ''j'' []) demo_end"
proof -
  define k where "k = listingKeyDigest demo_env ''a''"
  define st where "st inner pending ts = \<lparr>ds_dedup = \<lparr>dd_inner = inner, dd_pending = pending\<rparr>,
    ds_rows = [], ds_threads = ts\<rparr>" for inner pending ts
  note st = st_def set_dedup_def
  have start: "dd_start ''j'' [] = st {} [] []"
    using inner_seeded [of "''j''" "[]"]
    by (simp add: dd_start_def st_def job_name MaximumListingKeysPerJob_def recorded_def newDurableDeduper_def)
  have "dd_step demo_env ''j'' (st {} [] ts) (st {} [] (ts @ [Entered k]))" for ts
    using dd_step.enter [of demo_env "''j''" "st {} [] ts" "''a''"] by (simp add: st k_def)
  from this [of "[]"] this [of "[Entered k]"]
  have "dd_reach demo_env ''j'' (st {} [] []) (st {} [] [Entered k, Entered k])"
    using dd_reach.start dd_reach.step by simp meson
  moreover have "dd_step demo_env ''j'' (st {} [] [Entered k, Entered k]) (st {} [] [Missed k, Entered k])"
    using dd_step.look [of "st {} [] [Entered k, Entered k]" "[]" k "[Entered k]"] by (simp add: st seen_locked_def)
  moreover have "dd_step demo_env ''j'' (st {} [] [Missed k, Entered k]) (st {} [] [Missed k, Missed k])"
    using dd_step.look [of "st {} [] [Missed k, Entered k]" "[Missed k]" k "[]"] by (simp add: st seen_locked_def)
  moreover have "dd_step demo_env ''j'' (st {} [] [Missed k, Missed k]) (st {dedup_hash k} [] [Won k, Missed k])"
    using dd_step.add [of "st {} [] [Missed k, Missed k]" "[]" k "[Missed k]" True "{dedup_hash k}"]
    by (simp add: st insert_locked_def)
  moreover have "dd_step demo_env ''j'' (st {dedup_hash k} [] [Won k, Missed k])
      (st {dedup_hash k} [] [Won k, Answered k False])"
    using dd_step.add [of "st {dedup_hash k} [] [Won k, Missed k]" "[Won k]" k "[]" False "{dedup_hash k}"]
    by (simp add: st insert_locked_def)
  moreover have "dd_step demo_env ''j'' (st {dedup_hash k} [] [Won k, Answered k False]) demo_end"
    using dd_step.buffer [of "st {dedup_hash k} [] [Won k, Answered k False]" "[]" k "[Answered k False]" "[k]"]
    by (simp add: st demo_end_def listingKeyFlushThreshold_def k_def Let_def)
  ultimately show ?thesis unfolding start by (meson dd_reach.step)
qed

section \<open>Properties\<close>

text \<open>
  C15: the run and restart guarantee of the deduper, as long as the table of recorded identities held at most
  500000 rows, the limit of a read, when the run started; beyond it an identity recorded earlier can be answered
  as new. In every interleaving of calls and flushes, failed writes included, the identities answered
  as new have pairwise different hashes, none of them recorded by an earlier run; a call answered as
  not new lost to one of these or to a recorded one; and every accepted identity is buffered, being
  written, or recorded, so once all calls have returned nothing but the buffer can be lost by a
  crash. Nothing else is ever recorded. Digests have 32 bytes and the job has a name.
\<close>

theorem each_listing_taken_once:
  assumes "dd_reach env job (dd_start job rows) s" "\<forall>key. length (Sum256 env key) = 32" "TrimSpace job \<noteq> []"
    "int (length rows) \<le> MaximumListingKeysPerJob"
  shows "distinct (map dedup_hash (winners s)) \<and>
    (\<forall>k. k \<in> set (winners s) \<longrightarrow> dedup_hash k \<notin> dedup_hash ` recorded job rows) \<and>
    (\<forall>k. Answered k False \<in> set (ds_threads s) \<longrightarrow>
       dedup_hash k \<in> dedup_hash ` (recorded job rows \<union> set (winners s))) \<and>
    recorded job rows \<union> set (winners s) = recorded job (ds_rows s) \<union> unwritten s \<and>
    (finished s \<longrightarrow> unwritten s = set (dd_pending (ds_dedup s)))"
proof -
  have ok: "dedup_ok job (dedup_hash ` recorded job rows) (recorded job rows) s"
    using dd_reach_ok [OF assms(1) dd_start_ok [OF assms(3,4)] assms(2,3)] .
  note inv = dedup_okD [OF ok]
  have "dedup_hash k \<in> dedup_hash ` (recorded job rows \<union> set (winners s))"
    if "Answered k False \<in> set (ds_threads s)" for k
    using inv(3,4) that by (force simp: image_Un)
  moreover have "recorded job rows \<union> set (winners s) = recorded job (ds_rows s) \<union> unwritten s"
    using inv(5-8) by blast
  moreover have "finished s \<longrightarrow> unwritten s = set (dd_pending (ds_dedup s))"
    by (fastforce simp: finished_def unwritten_def)
  ultimately show ?thesis using inv(1,2) by blast
qed

theorem each_listing_taken_once_witness:
  "finished demo_end \<and> winners demo_end = [listingKeyDigest demo_env ''a''] \<and>
   unwritten demo_end = {listingKeyDigest demo_env ''a''}"
proof -
  have "finished demo_end \<longrightarrow> unwritten demo_end = set (dd_pending (ds_dedup demo_end))"
    using each_listing_taken_once [OF demo_reach] demo_digest
    by (simp add: job_name MaximumListingKeysPerJob_def)
  then show ?thesis by (simp add: demo_end_def Let_def winners_def finished_def ex_bool_eq)
qed

text \<open>
  C34: a restart revisits no more than it must, as long as the table holds at most 500000 rows, the limit
  of a read, both at the start of the run and at the restart; beyond it recorded identities are forgotten.
  After a crash at any moment of a run, the deduper built from the table refuses every recorded
  identity, and an identity the interrupted run accepted is accepted again only if its write had
  not been made. Digests have 32 bytes and the job has a name.
\<close>

theorem restart_remembers_recorded:
  assumes "dd_reach env job (dd_start job rows) s" "\<forall>key. length (Sum256 env key) = 32" "TrimSpace job \<noteq> []"
    "int (length rows) \<le> MaximumListingKeysPerJob" "int (length (ds_rows s)) \<le> MaximumListingKeysPerJob"
  defines "restarted \<equiv> newDurableDeduper (store_read job (ds_rows s)) {}"
  shows "(\<forall>k \<in> recorded job (ds_rows s). \<not> fst (AddIfNotExists k (dd_inner restarted))) \<and>
    (\<forall>k \<in> set (winners s). fst (AddIfNotExists k (dd_inner restarted)) \<longrightarrow> k \<in> unwritten s) \<and>
    (\<forall>k. fst (AddIfNotExists k (dd_inner restarted)) \<longleftrightarrow>
       dedup_hash k \<notin> dedup_hash ` recorded job (ds_rows s))"
proof -
  have "dedup_ok job (dedup_hash ` recorded job rows) (recorded job rows) s"
    using dd_reach_ok [OF assms(1) dd_start_ok [OF assms(3,4)] assms(2,3)] .
  then have "set (winners s) \<subseteq> unwritten s \<union> recorded job (ds_rows s)" by (rule dedup_okD)
  moreover have "dd_inner restarted = dedup_hash ` recorded job (ds_rows s)"
    unfolding restarted_def by (rule inner_seeded [OF assms(3,5)])
  ultimately show ?thesis by (auto simp: AddIfNotExists_eq)
qed

theorem restart_remembers_recorded_witness:
  "fst (AddIfNotExists (listingKeyDigest demo_env ''a'')
     (dd_inner (newDurableDeduper (store_read ''j'' (ds_rows demo_end)) {})))"
proof -
  have rows: "ds_rows demo_end = []" by (simp add: demo_end_def Let_def)
  show ?thesis
    using restart_remembers_recorded [OF demo_reach] demo_digest unfolding rows
    by (simp add: job_name MaximumListingKeysPerJob_def recorded_def)
qed

text \<open>
  Whatever happens to its writes, the durable deduper gives to every sequence of calls the
  answers of the plain in-memory set seeded with the recorded identities; what it accepted is in
  the buffer or the table; and while the job exists, so that writes succeed, at most 199 identities
  wait in the buffer.
\<close>

theorem durable_answers_as_memory:
  assumes "\<forall>c \<in> set cs. length (Sum256 env (snd c)) = 32" "TrimSpace job \<noteq> []"
    "int (length rows) \<le> MaximumListingKeysPerJob"
  defines "digests \<equiv> map (\<lambda>c. listingKeyDigest env (snd c)) cs"
    and "result \<equiv> durable_calls env (store_write job) cs (newDurableDeduper (store_read job rows) {}, rows)"
  shows "fst result = fst (memory_calls digests (dedup_hash ` recorded job rows)) \<and>
    set (dd_pending (fst (snd result))) \<union> recorded job (snd (snd result)) =
      recorded job rows \<union> set (map fst (filter snd (zip digests (fst result)))) \<and>
    ((\<forall>c \<in> set cs. find_job (TrimSpace job) (snd (fst c)) \<noteq> None) \<longrightarrow>
       length (dd_pending (fst (snd result))) < 200)"
proof -
  let ?ds = "(newDurableDeduper (store_read job rows) {}, rows)"
  have fit: "\<forall>c \<in> set cs. fit_key (listingKeyDigest env (snd c))" using assms(1) digest_fit by blast
  have sound: "listing_keys.sound job ?ds"
    unfolding listing_keys.sound_def using assms(2) by (simp add: newDurableDeduper_def)
  have inner: "dd_inner (fst ?ds) = dedup_hash ` recorded job rows"
    using inner_seeded [OF assms(2,3)] by simp
  have "listing_keys.kept job ?ds = recorded job rows"
    by (simp add: listing_keys.kept_def newDurableDeduper_def)
  moreover have "length (dd_pending (fst (snd result))) < 200"
    if "\<forall>c \<in> set cs. find_job (TrimSpace job) (snd (fst c)) \<noteq> None"
    using listing_keys.calls_pending [OF sound fit] store_write_ok that
    by (auto simp: result_def listingKeyFlushThreshold_def newDurableDeduper_def)
  ultimately show ?thesis
    using listing_keys.calls_laws [OF sound fit] unfolding inner
    by (simp add: listing_keys.kept_def result_def digests_def)
qed


theorem durable_answers_as_memory_witness:
  "let db = \<lparr>db_jobs = [], db_runtime = [], db_progress = [], db_tasks = [], db_checkpoints = [],
      db_events = [], db_configs = [], db_event_seq = 0, db_checkpoint_seq = 0\<rparr> in
   fst (durable_calls demo_env (store_write ''j'') [((1, db), ''a''), ((2, db), ''a'')]
     (newDurableDeduper (store_read ''j'' []) {}, [])) = [True, False]"
  using durable_answers_as_memory [of "[((1, \<lparr>db_jobs = [], db_runtime = [], db_progress = [],
      db_tasks = [], db_checkpoints = [], db_events = [], db_configs = [], db_event_seq = 0,
      db_checkpoint_seq = 0\<rparr>), ''a''), ((2, \<lparr>db_jobs = [], db_runtime = [], db_progress = [],
      db_tasks = [], db_checkpoints = [], db_events = [], db_configs = [], db_event_seq = 0,
      db_checkpoint_seq = 0\<rparr>), ''a'')]" demo_env "''j''" "[]"]
  by (simp add: demo_digest job_name MaximumListingKeysPerJob_def recorded_def AddIfNotExists_eq Let_def)

end
