(* ===== verification/Capacity.thy ===== *)
theory Capacity
  imports GoFloat
begin

text \<open>
  The rules that size a run: \<open>planTaskPool\<close> of \<open>runner/webrunner/task_pool.go\<close>, the memory and CPU
  budgets of \<open>adaptive_resources.go\<close> and \<open>auto_capacity.go\<close>, and the decisions about the next
  worker count and the failure and block budgets. All of them are pure. Byte counts are
  \<open>uint64\<close> words; counts of workers, browsers, pages and attempts are Go \<open>int\<close>s far from their
  width and are \<open>int\<close> here; durations are \<open>int64\<close> nanoseconds.
\<close>

section \<open>Measurements\<close>

record workerResourceSample =
  rs_CPUPercent :: f64
  rs_MemoryUsedBytes :: uint64
  rs_MemoryAvailableBytes :: uint64
  rs_DiskFreeBytes :: uint64
  rs_BrowserProcesses :: int
  rs_BrowserMemoryBytes :: uint64
  rs_CPUCores :: int

definition recoveryMemoryBytes :: uint64 where "recoveryMemoryBytes = push_bit 30 2"
definition moderateMemoryBytes :: uint64 where "moderateMemoryBytes = push_bit 30 2"
definition severeMemoryBytes :: uint64 where "severeMemoryBytes = push_bit 30 1"
definition perBrowserPlanningCostBytes :: uint64 where "perBrowserPlanningCostBytes = push_bit 20 600"
definition browserBudgetReserveBytes :: uint64 where "browserBudgetReserveBytes = push_bit 20 1536"
definition perWorkerOverheadBytes :: uint64 where "perWorkerOverheadBytes = push_bit 20 256"
definition measuredBrowserFloorBytes :: uint64 where "measuredBrowserFloorBytes = push_bit 20 300"
definition measuredBrowserCeilingBytes :: uint64 where "measuredBrowserCeilingBytes = push_bit 20 1536"

lemmas byte_constants = recoveryMemoryBytes_def moderateMemoryBytes_def severeMemoryBytes_def
  perBrowserPlanningCostBytes_def browserBudgetReserveBytes_def perWorkerOverheadBytes_def
  measuredBrowserFloorBytes_def measuredBrowserCeilingBytes_def

definition MaximumJobTaskWorkers :: int where "MaximumJobTaskWorkers = 16"

definition memoryCeilingExceeded :: "uint64 \<Rightarrow> workerResourceSample \<Rightarrow> bool" where
  "memoryCeilingExceeded cap sample \<longleftrightarrow> 0 < cap \<and> cap \<le> rs_MemoryUsedBytes sample"

section \<open>Budgets derived from a measurement\<close>

definition plannedBrowserCostBytes :: "workerResourceSample \<Rightarrow> uint64" where
  "plannedBrowserCostBytes sample =
     (if rs_BrowserProcesses sample < 2 \<or> rs_BrowserMemoryBytes sample = 0 then perBrowserPlanningCostBytes
      else
        let mean = rs_BrowserMemoryBytes sample div word_of_int (rs_BrowserProcesses sample);
            mean = (if mean < measuredBrowserFloorBytes then measuredBrowserFloorBytes else mean);
            mean = (if measuredBrowserCeilingBytes < mean then measuredBrowserCeilingBytes else mean)
        in if mean < perBrowserPlanningCostBytes then perBrowserPlanningCostBytes else mean)"

definition browserProcessBudget :: "workerResourceSample \<Rightarrow> int" where
  "browserProcessBudget sample =
     (let available = rs_MemoryAvailableBytes sample
      in if available = 0 then 1
         else
           let usable = available - min available browserBudgetReserveBytes;
               budget = uint (usable div plannedBrowserCostBytes sample)
           in if budget < 1 then 1 else budget)"

definition autoCPUWorkerBudget :: "workerResourceSample \<Rightarrow> int" where
  "autoCPUWorkerBudget sample = (if rs_CPUCores sample < 1 then 1 else rs_CPUCores sample)"

definition autoWorkerCeiling :: "workerResourceSample \<Rightarrow> int" where
  "autoWorkerCeiling sample =
     (let available = rs_MemoryAvailableBytes sample
      in if available = 0 then 1
         else
           let usable = available - min available browserBudgetReserveBytes;
               perWorker = plannedBrowserCostBytes sample + perWorkerOverheadBytes;
               cap = uint (usable div perWorker);
               cap = (if autoCPUWorkerBudget sample < cap then autoCPUWorkerBudget sample else cap);
               cap = (if browserProcessBudget sample < cap then browserProcessBudget sample else cap);
               cap = (if MaximumJobTaskWorkers < cap then MaximumJobTaskWorkers else cap)
           in if cap < 1 then 1 else cap)"

definition browserModeWorkerBudget :: "workerResourceSample \<Rightarrow> int" where
  "browserModeWorkerBudget sample = autoWorkerCeiling sample"

definition adaptiveBrowserBudget :: "int \<Rightarrow> int \<Rightarrow> workerResourceSample \<Rightarrow> uint64 \<Rightarrow> int \<times> int" where
  "adaptiveBrowserBudget desiredPool desiredPages sample memoryCeiling =
     (let available = rs_MemoryAvailableBytes sample
      in if memoryCeilingExceeded memoryCeiling sample then (1, 1)
         else if available = 0 then (desiredPool, desiredPages)
         else
           let (pool, pages) =
                 (if available < severeMemoryBytes then (1, 1)
                  else if available < moderateMemoryBytes
                  then (if 0 < desiredPool then max 1 (desiredPool div 2) else 1,
                        if 0 < desiredPages then max 1 (desiredPages div 2) else 1)
                  else (desiredPool, desiredPages))
           in (if 0 < desiredPool \<and> desiredPool < pool then desiredPool else pool,
               if 0 < desiredPages \<and> desiredPages < pages then desiredPages else pages))"

definition adaptiveWorkerConcurrency :: "int \<Rightarrow> workerResourceSample \<Rightarrow> uint64 \<Rightarrow> uint64 \<Rightarrow> int" where
  "adaptiveWorkerConcurrency desired sample lowDiskThreshold memoryCeiling =
     (let effective = (if desired < 1 then 1 else desired);
          effective = (if f64_le (Fin 85) (rs_CPUPercent sample) then max 1 (effective div 2) else effective);
          effective = (if 0 < rs_MemoryAvailableBytes sample \<and> rs_MemoryAvailableBytes sample < push_bit 30 1
            then 1 else effective);
          effective = (if 0 < lowDiskThreshold \<and> rs_DiskFreeBytes sample < lowDiskThreshold * 2
            then 1 else effective)
      in if memoryCeilingExceeded memoryCeiling sample then 1 else effective)"

definition recoveryHasHeadroom :: "workerResourceSample \<Rightarrow> int \<Rightarrow> int \<Rightarrow> uint64 \<Rightarrow> bool" where
  "recoveryHasHeadroom sample blocks allowedBrowsers memoryCeiling =
     (if 0 < blocks then False
      else if memoryCeilingExceeded memoryCeiling sample then False
      else if f64_le (Fin 70) (rs_CPUPercent sample) then False
      else if 0 < rs_MemoryAvailableBytes sample \<and> rs_MemoryAvailableBytes sample < recoveryMemoryBytes then False
      else if 0 < allowedBrowsers \<and> allowedBrowsers + 2 < rs_BrowserProcesses sample then False
      else True)"

section \<open>The plan of a pool\<close>

text \<open>The part of \<open>job.Data\<close> the capacity rules read.\<close>

record JobPoolData =
  po_Concurrency :: int
  po_Adaptive :: bool
  po_TaskWorkers :: int
  po_FastMode :: bool
  po_BrowserPool :: int
  po_PagesBrowser :: int
  po_MemoryCeilingBytes :: uint64
  po_LowDiskBytes :: uint64

record taskPoolPlan =
  pl_Workers :: int
  pl_PerTaskConcurrency :: int
  pl_PerTaskBrowserPool :: int
  pl_PerTaskPages :: int
  pl_BrowserBudgetTotal :: int
  pl_CappedExplicit :: bool
  pl_FastMode :: bool

definition PlannedBrowsers :: "taskPoolPlan \<Rightarrow> int" where
  "PlannedBrowsers p =
     (if pl_FastMode p then 0
      else
        let perWorker = (if pl_PerTaskBrowserPool p \<le> 0
              then let pages = max 1 (pl_PerTaskPages p) in (pl_PerTaskConcurrency p + pages - 1) div pages
              else pl_PerTaskBrowserPool p)
        in pl_Workers p * max 1 perWorker)"

text \<open>The worker count and whether it was lowered against an explicit setting.\<close>

definition plan_workers :: "JobPoolData \<Rightarrow> int \<Rightarrow> int \<Rightarrow> int \<Rightarrow> int \<Rightarrow> int \<times> bool" where
  "plan_workers d effectiveConcurrency pendingTasks browserWorkerBudget browserBudgetTotal =
     (let (workers, capped) =
            (if po_TaskWorkers d \<le> 0
             then let workers = 4;
                      workers = (if effectiveConcurrency < workers then effectiveConcurrency else workers)
                  in (if 0 < browserWorkerBudget \<and> browserWorkerBudget < workers then browserWorkerBudget
                      else workers, False)
             else if 0 < browserWorkerBudget \<and> browserWorkerBudget < po_TaskWorkers d
             then (browserWorkerBudget, True)
             else (po_TaskWorkers d, False));
          (workers, capped) =
            (if 0 < browserBudgetTotal \<and> browserBudgetTotal < workers
             then (browserBudgetTotal, if browserBudgetTotal < po_TaskWorkers d then True else capped)
             else (workers, capped));
          workers = (if MaximumJobTaskWorkers < workers then MaximumJobTaskWorkers else workers);
          workers = (if 0 < pendingTasks \<and> pendingTasks < workers then pendingTasks else workers)
      in (if workers < 1 then 1 else workers, capped))"

text \<open>The browser half: an explicit pool for every worker that keeps the total within the budget.\<close>

definition bound_browsers :: "JobPoolData \<Rightarrow> int \<Rightarrow> taskPoolPlan \<Rightarrow> taskPoolPlan" where
  "bound_browsers d browserBudgetTotal plan =
     (let pages = max 1 (pl_PerTaskPages plan);
          engineDerived = (pl_PerTaskConcurrency plan + pages - 1) div pages;
          pool = (if 0 < pl_PerTaskBrowserPool plan \<and> pl_PerTaskBrowserPool plan < engineDerived
            then pl_PerTaskBrowserPool plan else engineDerived);
          perWorkerCap = max 1 (browserBudgetTotal div pl_Workers plan)
      in if perWorkerCap < pool
         then
           let capped = (0 < po_BrowserPool d \<and> perWorkerCap < po_BrowserPool d div pl_Workers plan);
               needPages = (pl_PerTaskConcurrency plan + perWorkerCap - 1) div perWorkerCap
           in plan\<lparr>pl_CappedExplicit := pl_CappedExplicit plan \<or> capped,
                   pl_PerTaskPages := (if pages < needPages then min needPages 4 else pl_PerTaskPages plan),
                   pl_PerTaskBrowserPool := perWorkerCap\<rparr>
         else plan\<lparr>pl_PerTaskBrowserPool := pool\<rparr>)"

definition planTaskPool :: "JobPoolData \<Rightarrow> int \<Rightarrow> int \<Rightarrow> int \<Rightarrow> int \<Rightarrow> taskPoolPlan" where
  "planTaskPool d effectiveConcurrency pendingTasks browserWorkerBudget browserBudgetTotal =
     (let effective = (if effectiveConcurrency < 1 then 1 else effectiveConcurrency);
          (workers, capped) = plan_workers d effective pendingTasks browserWorkerBudget browserBudgetTotal;
          plan = \<lparr>pl_Workers = workers, pl_PerTaskConcurrency = max 1 (effective div workers),
            pl_PerTaskBrowserPool = (if 0 < po_BrowserPool d then max 1 (po_BrowserPool d div workers) else 0),
            pl_PerTaskPages = po_PagesBrowser d, pl_BrowserBudgetTotal = browserBudgetTotal,
            pl_CappedExplicit = capped, pl_FastMode = po_FastMode d\<rparr>
      in if 0 < browserBudgetTotal then bound_browsers d browserBudgetTotal plan else plan)"

text \<open>
  How a checkpoint run comes to its plan (\<open>executeCheckpointJob\<close>): \<open>cfg\<close> is the runner's configured
  concurrency. A sample that could not be taken is the zero value.
\<close>

definition desired_concurrency :: "JobPoolData \<Rightarrow> int \<Rightarrow> int" where
  "desired_concurrency d cfg =
     (let desired = po_Concurrency d;
          desired = (if desired \<le> 0 then cfg else desired)
      in if desired \<le> 0 then 1 else desired)"

definition plan_run :: "JobPoolData \<Rightarrow> int \<Rightarrow> workerResourceSample \<Rightarrow> int \<Rightarrow> taskPoolPlan" where
  "plan_run d cfg sample pending =
     (let desired = desired_concurrency d cfg;
          effective = (if po_Adaptive d
            then adaptiveWorkerConcurrency desired sample (po_LowDiskBytes d) (po_MemoryCeilingBytes d)
            else desired);
          browserWorkerBudget = (if po_FastMode d then 0 else browserModeWorkerBudget sample);
          browserBudgetTotal = (if po_FastMode d then 0 else browserProcessBudget sample)
      in planTaskPool d effective pending browserWorkerBudget browserBudgetTotal)"

section \<open>Budgets that follow the attempts\<close>

definition decideBlockBudget :: "int \<Rightarrow> int \<Rightarrow> int \<Rightarrow> int \<Rightarrow> int" where
  "decideBlockBudget current desired blocks attempts =
     (let current = (if current < 1 then 1 else current);
          current = (if desired < current then desired else current)
      in if 0 < blocks then max 1 (current div 2)
         else if 3 \<le> attempts \<and> current < desired then current + 1
         else current)"

definition decideFailureBudget :: "int \<Rightarrow> int \<Rightarrow> int \<Rightarrow> int \<Rightarrow> int" where
  "decideFailureBudget current desired failures successes =
     (let current = (if current < 1 then 1 else current);
          current = (if desired < current then desired else current);
          attempts = failures + successes
      in if 2 \<le> failures \<and> attempts \<le> failures * 2 then max 1 (current div 2)
         else if 3 \<le> attempts \<and> failures = 0 \<and> current < desired then current + 1
         else current)"

section \<open>Latencies\<close>

record latencySeries =
  ls_mean :: int64
  ls_best :: int64
  ls_samples :: int

text \<open>\<open>time.Duration\<close> of a \<open>float64\<close>: the product and the sum round, the conversion truncates.\<close>

definition ewma :: "int64 \<Rightarrow> int64 \<Rightarrow> int64" where
  "ewma newest mean =
     int64_of_f64 (f64_add (f64_mul (Fin (1/4)) (f64_of_int (sint newest)))
       (f64_mul (Fin (3/4)) (f64_of_int (sint mean))))"

definition observe :: "int64 \<Rightarrow> latencySeries \<Rightarrow> latencySeries" where
  "observe v s =
     (if v \<le>s 0 then s
      else
        let mean = (if ls_mean s = 0 then v else ewma v (ls_mean s))
        in s\<lparr>ls_samples := ls_samples s + 1, ls_mean := mean,
             ls_best := (if ls_best s = 0 \<or> mean <s ls_best s then mean else ls_best s)\<rparr>)"

definition latencyDegraded :: "int64 \<Rightarrow> int64 \<Rightarrow> int \<Rightarrow> f64 \<Rightarrow> bool" where
  "latencyDegraded mean best samples ratio =
     (if samples < 5 \<or> mean \<le>s 0 \<or> best \<le>s 0 then False
      else f64_le (f64_mul (f64_of_int (sint best)) ratio) (f64_of_int (sint mean)))"

section \<open>The worker controller\<close>

record workerScalingSignals =
  ws_Ceiling :: int
  ws_CeilingReason :: string
  ws_Pending :: int
  ws_Failures :: int
  ws_Successes :: int
  ws_Blocks :: int
  ws_CPUPercent :: f64
  ws_MemoryAvailable :: uint64
  ws_MemoryUsed :: uint64
  ws_MemoryCeiling :: uint64
  ws_BrowserCensus :: int
  ws_AllowedBrowsers :: int
  ws_TaskMean :: int64
  ws_TaskBest :: int64
  ws_TaskSamples :: int
  ws_WriteMean :: int64
  ws_WriteBest :: int64
  ws_WriteSamples :: int
  ws_ScaleCooldownElapsed :: bool
  ws_RecoveryCooldownElapsed :: bool

record workerScalingDecision =
  wd_Workers :: int
  wd_Reason :: string

definition workerReduction :: "int \<Rightarrow> workerScalingSignals \<Rightarrow> bool \<Rightarrow> (int \<times> string) option" where
  "workerReduction current s writeDegraded =
     (if 0 < ws_Blocks s
      then Some (max 1 (current div 2), ''the platform refused an attempt (block or rate limit)'')
      else if 2 \<le> ws_Failures s \<and> ws_Failures s + ws_Successes s \<le> ws_Failures s * 2
      then Some (max 1 (current div 2), ''a majority of the attempts in this window failed'')
      else if 0 < ws_MemoryCeiling s \<and> ws_MemoryCeiling s \<le> ws_MemoryUsed s
      then Some (max 1 (current - 1), ''the configured memory ceiling was reached'')
      else if 0 < ws_MemoryAvailable s \<and> ws_MemoryAvailable s < severeMemoryBytes
      then Some (max 1 (current div 2), ''available memory fell to a critical level'')
      else if 0 < ws_MemoryAvailable s \<and> ws_MemoryAvailable s < moderateMemoryBytes
      then Some (max 1 (current - 1), ''available memory fell under pressure'')
      else if f64_le (Fin 85) (ws_CPUPercent s)
      then Some (max 1 (current - 1), ''the host CPU is saturated'')
      else if writeDegraded
      then Some (max 1 (current - 1), ''database write latency degraded at the current width'')
      else None)"

definition canGrowWorkers :: "int \<Rightarrow> int \<Rightarrow> workerScalingSignals \<Rightarrow> bool \<Rightarrow> bool \<Rightarrow> bool" where
  "canGrowWorkers current cap s taskDegraded writeDegraded =
     (if cap \<le> current then False
      else if ws_Pending s \<le> current then False
      else if 0 < ws_Failures s \<or> 0 < ws_Blocks s then False
      else if ws_Successes s < 3 then False
      else if \<not> ws_RecoveryCooldownElapsed s then False
      else if f64_le (Fin 70) (ws_CPUPercent s) then False
      else if 0 < ws_MemoryAvailable s \<and>
        ws_MemoryAvailable s < recoveryMemoryBytes + perBrowserPlanningCostBytes then False
      else if 0 < ws_AllowedBrowsers s \<and> ws_AllowedBrowsers s + 2 < ws_BrowserCensus s then False
      else \<not> taskDegraded \<and> \<not> writeDegraded)"

definition decideWorkerTarget :: "int \<Rightarrow> workerScalingSignals \<Rightarrow> workerScalingDecision" where
  "decideWorkerTarget current s =
     (let cap = max 1 (ws_Ceiling s); current = max 1 current;
          hold = \<lparr>wd_Workers = current, wd_Reason = []\<rparr>
      in if cap < current
         then \<lparr>wd_Workers = cap,
           wd_Reason = (if ws_CeilingReason s = []
             then ''the current capacity ceiling supports fewer parallel tasks'' else ws_CeilingReason s)\<rparr>
         else
           let writeDegraded = latencyDegraded (ws_WriteMean s) (ws_WriteBest s) (ws_WriteSamples s) (Fin 3);
               taskDegraded = latencyDegraded (ws_TaskMean s) (ws_TaskBest s) (ws_TaskSamples s) (Fin 2)
           in case workerReduction current s writeDegraded of
                Some (reduced, reason) \<Rightarrow> \<lparr>wd_Workers = reduced, wd_Reason = reason\<rparr>
              | None \<Rightarrow>
                  if \<not> ws_ScaleCooldownElapsed s then hold
                  else if \<not> canGrowWorkers current cap s taskDegraded writeDegraded then hold
                  else \<lparr>wd_Workers = current + 1,
                    wd_Reason = ''a clean task window with measured memory, CPU and browser head-room''\<rparr>)"

end
