(* ===== verification/Adaptive.thy ===== *)
theory Adaptive
  imports Capacity JobState Outcome
begin

text \<open>
  The supervisor's adaptation of a running pool: \<open>taskPoolRun\<close> of \<open>runner/webrunner/task_pool.go\<close>,
  its atomic counters, and \<open>adaptTaskPool\<close>, \<open>adaptBrowserBudget\<close>, \<open>adaptWorkerCount\<close> with
  everything they call, the operator's concurrency override of \<open>live_run.go\<close>, and what a worker
  does to the counters between two ticks. One goroutine runs the adaptation, so a tick is one
  function; times are \<open>int\<close> nanoseconds and a zero time is \<open>time.Time\<close> never set, as in the code.
\<close>

section \<open>State\<close>

record dynamicWorkerGroup =
  dg_running :: int
  dg_closed :: bool

text \<open>The worker events the adaptation records, with the numbers their messages show.\<close>

datatype adapt_reason =
    ResourcePressure | PlatformBlockRate | TaskFailureRate | MemoryCeilingReached uint64 uint64 | Recovered

datatype pool_event =
    ConcurrencyBudgetChanged int int adapt_reason
  | BrowserBudgetChanged int int int int
  | MemoryCeilingCrossed bool
  | WorkersScaled int int string
  | OperatorConcurrency int int

record taskPoolRun =
  tp_data :: JobPoolData
  tp_effectiveConcurrency :: int
  tp_desiredConcurrency :: int
  tp_workers :: int
  tp_windowFailures :: int
  tp_windowSuccesses :: int
  tp_windowBlocks :: int
  tp_failureBudget :: int
  tp_blockBudget :: int
  tp_lastReductionAt :: int
  tp_workerTarget :: int
  tp_lastWorkerChangeAt :: int
  tp_scaleCooldown :: int
  tp_workerWindowFailures :: int
  tp_workerWindowSuccesses :: int
  tp_workerWindowBlocks :: int
  tp_group :: dynamicWorkerGroup
  tp_pendingCache :: int
  tp_pendingCachedAt :: int
  tp_taskLatency :: latencySeries
  tp_writeLatency :: latencySeries
  tp_browserBudget :: int
  tp_pagesBudget :: int
  tp_baselineBrowsers :: int
  tp_baselinePages :: int
  tp_memoryCeilingActive :: bool
  tp_stopReason :: StopReason
  tp_events :: "pool_event list"

definition second :: int where "second = 10 ^ 9"

definition recordJobWorkerEvent :: "pool_event \<Rightarrow> taskPoolRun \<Rightarrow> taskPoolRun" where
  "recordJobWorkerEvent e r = r\<lparr>tp_events := tp_events r @ [e]\<rparr>"

section \<open>The stop latch and the cooldowns\<close>

definition requestStop :: "StopReason \<Rightarrow> taskPoolRun \<Rightarrow> bool \<times> taskPoolRun" where
  "requestStop reason r =
     (if reason = StopReasonNone then (False, r)
      else if tp_stopReason r \<noteq> StopReasonNone then (False, r)
      else (True, r\<lparr>tp_stopReason := reason\<rparr>))"

definition currentStop :: "taskPoolRun \<Rightarrow> StopReason" where
  "currentStop r = tp_stopReason r"

definition recoveryCooldownElapsed :: "int \<Rightarrow> taskPoolRun \<Rightarrow> bool" where
  "recoveryCooldownElapsed now r \<longleftrightarrow>
     (if tp_lastReductionAt r = 0 then True else 30 * second \<le> now - tp_lastReductionAt r)"

definition effective_cooldown :: "taskPoolRun \<Rightarrow> int" where
  "effective_cooldown r = (if tp_scaleCooldown r \<le> 0 then 45 * second else tp_scaleCooldown r)"

definition workerScaleCooldownElapsed :: "int \<Rightarrow> taskPoolRun \<Rightarrow> bool" where
  "workerScaleCooldownElapsed now r \<longleftrightarrow>
     (if tp_lastWorkerChangeAt r = 0 then True
      else effective_cooldown r \<le> now - tp_lastWorkerChangeAt r)"

definition resetWorkerWindow :: "taskPoolRun \<Rightarrow> taskPoolRun" where
  "resetWorkerWindow r =
     r\<lparr>tp_workerWindowFailures := 0, tp_workerWindowSuccesses := 0, tp_workerWindowBlocks := 0\<rparr>"

section \<open>Workers coming and going\<close>

definition spawn :: "dynamicWorkerGroup \<Rightarrow> dynamicWorkerGroup option" where
  "spawn g = (if dg_closed g then None else Some (g\<lparr>dg_running := dg_running g + 1\<rparr>))"

text \<open>A worker at the top of its claim loop: \<open>Some\<close> when it has to leave.\<close>

definition retireWorker :: "int \<Rightarrow> taskPoolRun \<Rightarrow> taskPoolRun option" where
  "retireWorker now r =
     (if tp_workers r \<le> 1 then None
      else if tp_workers r \<le> max 1 (tp_workerTarget r) then None
      else Some (r\<lparr>tp_workers := tp_workers r - 1, tp_lastWorkerChangeAt := now\<rparr>))"

text \<open>The loop that starts \<open>n\<close> workers and stops at the first that is refused.\<close>

fun start_workers :: "nat \<Rightarrow> taskPoolRun \<Rightarrow> int \<times> taskPoolRun" where
  "start_workers 0 r = (0, r)"
| "start_workers (Suc n) r =
     (case spawn (tp_group r) of
        None \<Rightarrow> (0, r)
      | Some g \<Rightarrow>
          let (k, r') = start_workers n (r\<lparr>tp_workers := tp_workers r + 1, tp_group := g\<rparr>) in (k + 1, r'))"

section \<open>The worker ceiling of a run\<close>

text \<open>\<open>if ceiling > bound { ceiling = bound; reason = why }\<close>, where the bound applies.\<close>

definition tighten :: "bool \<Rightarrow> int \<Rightarrow> string \<Rightarrow> int \<times> string \<Rightarrow> int \<times> string" where
  "tighten applies bound why cr = (if applies \<and> bound < fst cr then (bound, why) else cr)"

definition workerCeilingForRun :: "taskPoolRun \<Rightarrow> workerResourceSample \<Rightarrow> int \<Rightarrow> int \<times> string" where
  "workerCeilingForRun r sample effectiveConcurrency =
     (let d = tp_data r;
          cr = (max 1 effectiveConcurrency,
            ''the concurrency budget this run is allowed only covers fewer parallel tasks'');
          cr = tighten (0 < po_TaskWorkers d) (po_TaskWorkers d) ''the configured parallel-task count'' cr;
          cr = tighten True MaximumJobTaskWorkers ''the maximum parallel tasks one job may run'' cr;
          cr = tighten (\<not> po_FastMode d) (autoWorkerCeiling sample)
            ''the measured memory and CPU budget now supports fewer parallel tasks'' cr;
          cr = tighten (\<not> po_FastMode d) (browserProcessBudget sample div max 1 (tp_browserBudget r))
            ''available memory now holds fewer simultaneous browsers'' cr
      in (max 1 (fst cr), snd cr))"

lemma fst_tighten: "fst (tighten applies bound why cr) = (if applies then min bound (fst cr) else fst cr)"
  by (auto simp: tighten_def)

text \<open>\<open>read\<close> is the pending count the database would answer, \<open>None\<close> for a failed read.\<close>

definition pendingTasksForScaling :: "int \<Rightarrow> int option \<Rightarrow> taskPoolRun \<Rightarrow> int \<times> taskPoolRun" where
  "pendingTasksForScaling now read r =
     (if tp_pendingCachedAt r \<noteq> 0 \<and> now - tp_pendingCachedAt r < effective_cooldown r
      then (tp_pendingCache r, r)
      else case read of
             None \<Rightarrow> (tp_pendingCache r, r)
           | Some pending \<Rightarrow> (pending, r\<lparr>tp_pendingCache := pending, tp_pendingCachedAt := now\<rparr>))"

definition scaling_signals ::
  "int \<Rightarrow> taskPoolRun \<Rightarrow> workerResourceSample \<Rightarrow> int \<times> string \<Rightarrow> int \<Rightarrow> int \<Rightarrow> int \<Rightarrow> int \<Rightarrow> bool \<Rightarrow>
   workerScalingSignals" where
  "scaling_signals now r sample cr pending failures successes blocks scaleCooldownElapsed =
     \<lparr>ws_Ceiling = fst cr, ws_CeilingReason = snd cr, ws_Pending = pending, ws_Failures = failures,
      ws_Successes = successes, ws_Blocks = blocks, ws_CPUPercent = rs_CPUPercent sample,
      ws_MemoryAvailable = rs_MemoryAvailableBytes sample, ws_MemoryUsed = rs_MemoryUsedBytes sample,
      ws_MemoryCeiling = po_MemoryCeilingBytes (tp_data r), ws_BrowserCensus = rs_BrowserProcesses sample,
      ws_AllowedBrowsers =
        (if po_FastMode (tp_data r) then 0 else max 1 (tp_workers r) * max 1 (tp_browserBudget r)),
      ws_TaskMean = ls_mean (tp_taskLatency r), ws_TaskBest = ls_best (tp_taskLatency r),
      ws_TaskSamples = ls_samples (tp_taskLatency r), ws_WriteMean = ls_mean (tp_writeLatency r),
      ws_WriteBest = ls_best (tp_writeLatency r), ws_WriteSamples = ls_samples (tp_writeLatency r),
      ws_ScaleCooldownElapsed = scaleCooldownElapsed,
      ws_RecoveryCooldownElapsed = recoveryCooldownElapsed now r\<rparr>"

text \<open>What \<open>adaptWorkerCount\<close> does with a decision.\<close>

definition converge :: "int \<Rightarrow> int \<Rightarrow> workerScalingDecision \<Rightarrow> taskPoolRun \<Rightarrow> taskPoolRun" where
  "converge now current decision r =
     (if wd_Workers decision = current then r
      else if wd_Workers decision < current then
        if wd_Workers decision = tp_workerTarget r then r
        else recordJobWorkerEvent (WorkersScaled current (wd_Workers decision) (wd_Reason decision))
          (resetWorkerWindow (r\<lparr>tp_workerTarget := wd_Workers decision, tp_lastWorkerChangeAt := now\<rparr>))
      else
        let (k, r1) = start_workers (nat (wd_Workers decision - current))
              (r\<lparr>tp_workerTarget := wd_Workers decision\<rparr>);
            r2 = r1\<lparr>tp_workerTarget := current + k\<rparr>
        in if k = 0 then r2
           else recordJobWorkerEvent (WorkersScaled current (current + k) (wd_Reason decision))
             (resetWorkerWindow (r2\<lparr>tp_lastWorkerChangeAt := now\<rparr>)))"

text \<open>The outcomes the decision weighs: this tick's before the cooldown is over, else all since the last change.\<close>

definition accumulate :: "int \<Rightarrow> int \<Rightarrow> int \<Rightarrow> taskPoolRun \<Rightarrow> taskPoolRun" where
  "accumulate failures successes blocks r =
     r\<lparr>tp_workerWindowFailures := tp_workerWindowFailures r + failures,
       tp_workerWindowSuccesses := tp_workerWindowSuccesses r + successes,
       tp_workerWindowBlocks := tp_workerWindowBlocks r + blocks\<rparr>"

definition weighed :: "bool \<Rightarrow> int \<times> int \<times> int \<Rightarrow> taskPoolRun \<Rightarrow> (int \<times> int \<times> int) \<times> taskPoolRun" where
  "weighed elapsed tick r =
     (if elapsed
      then ((tp_workerWindowFailures r, tp_workerWindowSuccesses r, tp_workerWindowBlocks r), resetWorkerWindow r)
      else (tick, r))"

definition adaptWorkerCount ::
  "int \<Rightarrow> int option \<Rightarrow> workerResourceSample \<Rightarrow> int \<Rightarrow> int \<Rightarrow> int \<Rightarrow> int \<Rightarrow> taskPoolRun \<Rightarrow> taskPoolRun" where
  "adaptWorkerCount now read sample failures successes blocks effectiveConcurrency r =
     (let current = max 1 (tp_workers r);
          elapsed = workerScaleCooldownElapsed now r;
          (counts, r2) = weighed elapsed (failures, successes, blocks) (accumulate failures successes blocks r);
          (pending, r3) = (if elapsed then pendingTasksForScaling now read r2 else (0, r2));
          signals = scaling_signals now r3 sample (workerCeilingForRun r3 sample effectiveConcurrency)
            pending (fst counts) (fst (snd counts)) (snd (snd counts)) elapsed
      in converge now current (decideWorkerTarget current signals) r3)"

section \<open>The tick\<close>

definition recordMemoryCeilingTransition :: "workerResourceSample \<Rightarrow> uint64 \<Rightarrow> taskPoolRun \<Rightarrow> taskPoolRun" where
  "recordMemoryCeilingTransition sample cap r =
     (if cap = 0 then r
      else
        let exceeded = memoryCeilingExceeded cap sample; r1 = r\<lparr>tp_memoryCeilingActive := exceeded\<rparr>
        in if exceeded = tp_memoryCeilingActive r then r1
           else recordJobWorkerEvent (MemoryCeilingCrossed exceeded) r1)"

definition adaptBrowserBudget :: "workerResourceSample \<Rightarrow> taskPoolRun \<Rightarrow> taskPoolRun" where
  "adaptBrowserBudget sample r =
     (let (pool, pages) = adaptiveBrowserBudget (tp_baselineBrowsers r) (tp_baselinePages r) sample
            (po_MemoryCeilingBytes (tp_data r))
      in if pool = tp_browserBudget r \<and> pages = tp_pagesBudget r then r
         else recordJobWorkerEvent
           (BrowserBudgetChanged (tp_browserBudget r) (tp_pagesBudget r) pool pages)
           (r\<lparr>tp_browserBudget := pool, tp_pagesBudget := pages\<rparr>))"

text \<open>A budget may only rise when recovery is allowed.\<close>

definition gated :: "bool \<Rightarrow> int \<Rightarrow> int \<Rightarrow> int" where
  "gated mayRecover previous next = (if previous < next \<and> \<not> mayRecover then previous else next)"

text \<open>
  The failure and block budgets of a tick and the concurrency they leave together with the resource
  budget. The run is the one the browser budget was adapted in; the window counts were swapped out
  of it before.
\<close>

definition tick_budgets ::
  "int \<Rightarrow> workerResourceSample \<Rightarrow> int \<Rightarrow> int \<Rightarrow> int \<Rightarrow> taskPoolRun \<Rightarrow> int \<times> int \<times> int" where
  "tick_budgets now sample failures successes blocks r =
     (let desired = tp_desiredConcurrency r; cap = po_MemoryCeilingBytes (tp_data r);
          allowedBrowsers = tp_browserBudget r * max 1 (tp_workers r);
          headroom = recoveryHasHeadroom sample blocks allowedBrowsers cap;
          cleanWindow = (failures = 0 \<and> blocks = 0);
          mayRecover = (cleanWindow \<and> headroom \<and> recoveryCooldownElapsed now r);
          failureBudget = gated mayRecover (tp_failureBudget r)
            (decideFailureBudget (tp_failureBudget r) desired failures successes);
          blockBudget = gated mayRecover (tp_blockBudget r)
            (decideBlockBudget (tp_blockBudget r) desired blocks (failures + successes));
          resourceBudget = adaptiveWorkerConcurrency desired sample (po_LowDiskBytes (tp_data r)) cap
      in (failureBudget, blockBudget, min resourceBudget (min failureBudget blockBudget)))"

definition change_reason ::
  "taskPoolRun \<Rightarrow> workerResourceSample \<Rightarrow> int \<Rightarrow> int \<Rightarrow> int \<Rightarrow> adapt_reason" where
  "change_reason r sample blocks previous next =
     (let cap = po_MemoryCeilingBytes (tp_data r);
          resourceBudget = adaptiveWorkerConcurrency (tp_desiredConcurrency r) sample
            (po_LowDiskBytes (tp_data r)) cap
      in if 0 < blocks \<or> tp_blockBudget r < min resourceBudget (tp_failureBudget r) then PlatformBlockRate
         else if tp_failureBudget r < resourceBudget then TaskFailureRate
         else if memoryCeilingExceeded cap sample
         then MemoryCeilingReached (drop_bit 20 cap) (drop_bit 20 (rs_MemoryUsedBytes sample))
         else if previous < next then Recovered
         else ResourcePressure)"

text \<open>The new concurrency and, when it is lower, the time of the reduction.\<close>

definition set_concurrency :: "int \<Rightarrow> workerResourceSample \<Rightarrow> int \<Rightarrow> int \<Rightarrow> taskPoolRun \<Rightarrow> taskPoolRun" where
  "set_concurrency now sample blocks next r =
     (let previous = tp_effectiveConcurrency r
      in if next = previous then r
         else recordJobWorkerEvent
           (ConcurrencyBudgetChanged previous next (change_reason r sample blocks previous next))
           (r\<lparr>tp_lastReductionAt := (if next < previous then now else tp_lastReductionAt r),
              tp_effectiveConcurrency := next\<rparr>))"

definition adaptTaskPool :: "int \<Rightarrow> int option \<Rightarrow> workerResourceSample \<Rightarrow> taskPoolRun \<Rightarrow> taskPoolRun" where
  "adaptTaskPool now read sample r =
     (let failures = tp_windowFailures r; successes = tp_windowSuccesses r; blocks = tp_windowBlocks r;
          r1 = r\<lparr>tp_windowFailures := 0, tp_windowSuccesses := 0, tp_windowBlocks := 0\<rparr>;
          r2 = adaptBrowserBudget sample
            (recordMemoryCeilingTransition sample (po_MemoryCeilingBytes (tp_data r1)) r1);
          (failureBudget, blockBudget, next) = tick_budgets now sample failures successes blocks r2;
          r3 = adaptWorkerCount now read sample failures successes blocks next
            (r2\<lparr>tp_failureBudget := failureBudget, tp_blockBudget := blockBudget\<rparr>)
      in set_concurrency now sample blocks next r3)"

section \<open>What happens between the ticks\<close>

text \<open>The start of a pool (\<open>runTaskPool\<close>), before its workers report anything.\<close>

definition start_pool :: "int \<Rightarrow> JobPoolData \<Rightarrow> taskPoolPlan \<Rightarrow> int \<Rightarrow> int \<Rightarrow> taskPoolRun" where
  "start_pool now d plan desired scaleCooldown =
     \<lparr>tp_data = d, tp_effectiveConcurrency = pl_PerTaskConcurrency plan * pl_Workers plan,
      tp_desiredConcurrency = desired, tp_workers = pl_Workers plan, tp_windowFailures = 0,
      tp_windowSuccesses = 0, tp_windowBlocks = 0, tp_failureBudget = desired, tp_blockBudget = desired,
      tp_lastReductionAt = 0, tp_workerTarget = pl_Workers plan, tp_lastWorkerChangeAt = now,
      tp_scaleCooldown = scaleCooldown, tp_workerWindowFailures = 0, tp_workerWindowSuccesses = 0,
      tp_workerWindowBlocks = 0, tp_group = \<lparr>dg_running = pl_Workers plan, dg_closed = False\<rparr>,
      tp_pendingCache = 0, tp_pendingCachedAt = 0,
      tp_taskLatency = \<lparr>ls_mean = 0, ls_best = 0, ls_samples = 0\<rparr>,
      tp_writeLatency = \<lparr>ls_mean = 0, ls_best = 0, ls_samples = 0\<rparr>,
      tp_browserBudget = pl_PerTaskBrowserPool plan, tp_pagesBudget = pl_PerTaskPages plan,
      tp_baselineBrowsers = pl_PerTaskBrowserPool plan, tp_baselinePages = pl_PerTaskPages plan,
      tp_memoryCeilingActive = False, tp_stopReason = StopReasonNone, tp_events = []\<rparr>"

text \<open>The concurrency part of \<open>pollLiveControls\<close>.\<close>

definition override_concurrency :: "int \<Rightarrow> taskPoolRun \<Rightarrow> taskPoolRun" where
  "override_concurrency requested r =
     (if 0 < requested \<and> requested \<noteq> tp_desiredConcurrency r
      then
        let r1 = r\<lparr>tp_desiredConcurrency := requested\<rparr>;
            r2 = (if po_Adaptive (tp_data r) then r1 else r1\<lparr>tp_effectiveConcurrency := requested\<rparr>)
        in recordJobWorkerEvent (OperatorConcurrency (tp_desiredConcurrency r) requested) r2
      else r)"

text \<open>The concurrency a new task takes, and what the monitor reports as open browsers and pages.\<close>

definition task_concurrency :: "taskPoolRun \<Rightarrow> int" where
  "task_concurrency r = max 1 (tp_effectiveConcurrency r div max 1 (tp_workers r))"

definition liveBrowserFootprint :: "taskPoolRun \<Rightarrow> int \<times> int" where
  "liveBrowserFootprint r =
     (if po_FastMode (tp_data r) then (0, 0)
      else
        let workers = max 1 (tp_workers r); effective = max 1 (tp_effectiveConcurrency r);
            perWorker = (if tp_browserBudget r \<le> 0
              then let pagesPerBrowser = (if tp_pagesBudget r \<le> 0 then 1 else tp_pagesBudget r);
                       perTask = max 1 (effective div workers)
                   in (perTask + pagesPerBrowser - 1) div pagesPerBrowser
              else tp_browserBudget r)
        in (workers * max 1 perWorker, effective))"

end
