(* ===== verification/CapacityProperties.thy ===== *)
theory CapacityProperties
  imports Capacity
begin

text \<open>
  What the capacity rules guarantee: a plan stays within the measured memory, and the worker
  controller shrinks at any sign of trouble and grows by one on corroborated evidence only.
\<close>

section \<open>Budgets\<close>

lemma browserProcessBudget_ge_1: "1 \<le> browserProcessBudget sample"
  by (simp add: browserProcessBudget_def Let_def)

lemma autoWorkerCeiling_bounds: "1 \<le> autoWorkerCeiling sample" "autoWorkerCeiling sample \<le> 16"
  "autoWorkerCeiling sample \<le> browserProcessBudget sample"
  using browserProcessBudget_ge_1 [of sample]
  by (auto simp: autoWorkerCeiling_def MaximumJobTaskWorkers_def Let_def)

lemma planned_cost_ge: "perBrowserPlanningCostBytes \<le> plannedBrowserCostBytes sample"
  by (auto simp: plannedBrowserCostBytes_def Let_def not_less)

text \<open>More than one browser in the budget means that all of them fit above the reserve.\<close>

lemma uint_div_mult_le: "uint ((a :: uint64) div c) * uint c \<le> uint a"
  using uint_ge_0 [of "a mod c"]
  by (simp add: uint_div_distrib uint_mod_distrib minus_mod_eq_div_mult [symmetric])

lemma mult_div_le: "0 < (w :: int) \<Longrightarrow> w * (b div w) \<le> b"
  by (simp add: minus_mod_eq_mult_div [symmetric])

lemma browserProcessBudget_fits:
  assumes "1 < browserProcessBudget sample"
  shows "browserProcessBudget sample * uint (plannedBrowserCostBytes sample) + 1536 * 2 ^ 20
    \<le> uint (rs_MemoryAvailableBytes sample)"
proof -
  let ?a = "rs_MemoryAvailableBytes sample" and ?c = "plannedBrowserCostBytes sample"
  let ?u = "?a - min ?a browserBudgetReserveBytes"
  have b: "browserProcessBudget sample = uint (?u div ?c)" and u: "?u \<noteq> 0"
    using assms by (auto simp: browserProcessBudget_def Let_def split: if_splits)
  then have le: "browserBudgetReserveBytes \<le> ?a" by (auto simp: min_def split: if_splits)
  have "uint browserBudgetReserveBytes = 1536 * 2 ^ 20" by (simp add: browserBudgetReserveBytes_def)
  then have "uint ?u = uint ?a - 1536 * 2 ^ 20"
    using le by (simp add: min_absorb2 [OF le] uint_minus_simple_alt)
  then show ?thesis using uint_div_mult_le [of ?u ?c] b by simp
qed

section \<open>Plans\<close>

lemma plan_workers_bounds:
  assumes "plan_workers d effective pending bw bt = (workers, capped)" "1 \<le> effective"
  shows "1 \<le> workers" "workers \<le> 16" "0 < pending \<Longrightarrow> workers \<le> pending" "0 < bt \<Longrightarrow> workers \<le> bt"
  using assms by (auto simp: plan_workers_def MaximumJobTaskWorkers_def Let_def split: if_splits prod.splits)

lemma ceil_div_pos: "1 \<le> (c :: int) \<Longrightarrow> 1 \<le> pages \<Longrightarrow> 1 \<le> (c + pages - 1) div pages"
  by (simp add: pos_imp_zdiv_pos_iff int_one_le_iff_zero_less)

lemma bound_browsers_pool:
  assumes "1 \<le> pl_PerTaskConcurrency plan" "1 \<le> pl_Workers plan" "pl_Workers plan \<le> bt"
  shows "1 \<le> pl_PerTaskBrowserPool (bound_browsers d bt plan)"
    "pl_Workers plan * pl_PerTaskBrowserPool (bound_browsers d bt plan) \<le> bt"
proof -
  have d: "1 \<le> (pl_PerTaskConcurrency plan + max 1 (pl_PerTaskPages plan) - 1) div max 1 (pl_PerTaskPages plan)"
    using assms(1) by (intro ceil_div_pos) simp_all
  have "1 \<le> bt div pl_Workers plan" using assms(2,3) by (simp add: pos_imp_zdiv_pos_iff int_one_le_iff_zero_less)
  then have cap: "max 1 (bt div pl_Workers plan) = bt div pl_Workers plan" by simp
  show "1 \<le> pl_PerTaskBrowserPool (bound_browsers d bt plan)"
    using d by (auto simp: bound_browsers_def Let_def)
  have "pl_PerTaskBrowserPool (bound_browsers d bt plan) \<le> bt div pl_Workers plan"
    unfolding bound_browsers_def Let_def cap by (auto split: if_splits)
  then have "pl_Workers plan * pl_PerTaskBrowserPool (bound_browsers d bt plan) \<le>
      pl_Workers plan * (bt div pl_Workers plan)"
    using assms(2) by (simp add: mult_left_mono)
  also have "\<dots> \<le> bt" using assms(2) by (intro mult_div_le) simp
  finally show "pl_Workers plan * pl_PerTaskBrowserPool (bound_browsers d bt plan) \<le> bt" .
qed

lemma bound_browsers_frame [simp]:
  "pl_Workers (bound_browsers d bt plan) = pl_Workers plan"
  "pl_PerTaskConcurrency (bound_browsers d bt plan) = pl_PerTaskConcurrency plan"
  "pl_FastMode (bound_browsers d bt plan) = pl_FastMode plan"
  by (simp_all add: bound_browsers_def Let_def)

lemma PlannedBrowsers_pool:
  "1 \<le> pl_PerTaskBrowserPool p \<Longrightarrow> \<not> pl_FastMode p \<Longrightarrow> PlannedBrowsers p = pl_Workers p * pl_PerTaskBrowserPool p"
  by (simp add: PlannedBrowsers_def)

lemma at_least_one: "(if n < 1 then 1 else n) = max 1 (n :: int)"
  by (simp add: max_def)

lemma plan_frame:
  assumes "plan_workers d (max 1 eff) pending bw bt = (workers, capped)"
  shows "pl_Workers (planTaskPool d eff pending bw bt) = workers"
    "pl_PerTaskConcurrency (planTaskPool d eff pending bw bt) = max 1 (max 1 eff div workers)"
    "pl_FastMode (planTaskPool d eff pending bw bt) = po_FastMode d"
  by (simp_all add: planTaskPool_def at_least_one assms Let_def)

lemma plan_browsers:
  assumes "0 < bt" "\<not> po_FastMode d"
  shows "PlannedBrowsers (planTaskPool d eff pending bw bt) \<le> bt"
proof -
  obtain workers capped where w: "plan_workers d (max 1 eff) pending bw bt = (workers, capped)"
    by (cases rule: prod.exhaust)
  have bounds: "1 \<le> workers" "workers \<le> bt" using plan_workers_bounds [OF w] assms(1) by simp_all
  define plan where "plan = \<lparr>pl_Workers = workers, pl_PerTaskConcurrency = max 1 (max 1 eff div workers),
    pl_PerTaskBrowserPool = (if 0 < po_BrowserPool d then max 1 (po_BrowserPool d div workers) else 0),
    pl_PerTaskPages = po_PagesBrowser d, pl_BrowserBudgetTotal = bt, pl_CappedExplicit = capped,
    pl_FastMode = po_FastMode d\<rparr>"
  have "planTaskPool d eff pending bw bt = bound_browsers d bt plan"
    using assms(1) by (simp add: planTaskPool_def at_least_one w plan_def)
  moreover have "1 \<le> pl_PerTaskConcurrency plan" "pl_Workers plan = workers" "\<not> pl_FastMode plan"
    using assms(2) by (simp_all add: plan_def)
  ultimately show ?thesis
    using bound_browsers_pool [of plan bt d] bounds by (simp add: PlannedBrowsers_pool)
qed

text \<open>The simultaneous operations stay within the budget unless every worker is at the minimum of one.\<close>

lemma operations_bounded:
  assumes "1 \<le> (workers :: int)" "1 \<le> eff"
  shows "workers * max 1 (eff div workers) \<le> max eff workers"
proof (cases "eff < workers")
  case True
  then show ?thesis using assms by simp
next
  case False
  then have "1 \<le> eff div workers" using assms by (simp add: pos_imp_zdiv_pos_iff int_one_le_iff_zero_less)
  moreover have "workers * (eff div workers) \<le> eff"
    using assms by (intro mult_div_le) simp
  ultimately show ?thesis by simp
qed

section \<open>The controller\<close>

text \<open>What makes the controller take a worker back.\<close>

definition adverse :: "workerScalingSignals \<Rightarrow> bool" where
  "adverse s \<longleftrightarrow> 0 < ws_Blocks s \<or> (2 \<le> ws_Failures s \<and> ws_Successes s \<le> ws_Failures s) \<or>
     (0 < ws_MemoryCeiling s \<and> ws_MemoryCeiling s \<le> ws_MemoryUsed s) \<or>
     (0 < ws_MemoryAvailable s \<and> ws_MemoryAvailable s < moderateMemoryBytes) \<or>
     f64_le (Fin 85) (ws_CPUPercent s) \<or>
     latencyDegraded (ws_WriteMean s) (ws_WriteBest s) (ws_WriteSamples s) (Fin 3)"

lemma severe_moderate: "m < severeMemoryBytes \<Longrightarrow> m < moderateMemoryBytes"
  by (simp add: byte_constants word_less_def)

lemma workerReduction_iff:
  "(workerReduction c s (latencyDegraded (ws_WriteMean s) (ws_WriteBest s) (ws_WriteSamples s) (Fin 3)) \<noteq> None) \<longleftrightarrow> adverse s"
  using severe_moderate [of "ws_MemoryAvailable s"] by (auto simp: workerReduction_def adverse_def)

lemma workerReduction_bounds:
  assumes "workerReduction c s w = Some (r, reason)" "1 \<le> c"
  shows "1 \<le> r" "r \<le> max 1 (c - 1)" "0 < ws_Blocks s \<Longrightarrow> r = max 1 (c div 2)" "reason \<noteq> []"
  using assms by (auto simp: workerReduction_def split: if_splits)

lemma canGrow_conditions:
  assumes "canGrowWorkers c cap s t w"
  shows "c < cap" "c < ws_Pending s" "ws_Failures s \<le> 0" "ws_Blocks s \<le> 0" "3 \<le> ws_Successes s"
    "ws_RecoveryCooldownElapsed s" "\<not> f64_le (Fin 70) (ws_CPUPercent s)" "\<not> t" "\<not> w"
    "ws_MemoryAvailable s = 0 \<or> recoveryMemoryBytes + perBrowserPlanningCostBytes \<le> ws_MemoryAvailable s"
    "ws_AllowedBrowsers s \<le> 0 \<or> ws_BrowserCensus s \<le> ws_AllowedBrowsers s + 2"
  using assms by (auto simp: canGrowWorkers_def word_gt_0 split: if_splits)

lemma decideWorkerTarget_bounds:
  fixes current :: int and s :: workerScalingSignals
  defines "target \<equiv> wd_Workers (decideWorkerTarget current s)"
  shows "1 \<le> target" "target \<le> max 1 (ws_Ceiling s)" "target \<le> max 1 current + 1"
proof -
  define c where "c = max 1 current"
  define cap where "cap = max 1 (ws_Ceiling s)"
  let ?w = "latencyDegraded (ws_WriteMean s) (ws_WriteBest s) (ws_WriteSamples s) (Fin 3)"
  note decide = decideWorkerTarget_def [of current s, folded c_def cap_def, unfolded Let_def]
  have pos: "1 \<le> c" "1 \<le> cap" by (simp_all add: c_def cap_def)
  have grow: "c + 1 \<le> cap" if "canGrowWorkers c cap s t w" for t w
    using canGrow_conditions(1) [OF that] by simp
  have red: "1 \<le> r \<and> r \<le> max 1 (c - 1)" if "workerReduction c s ?w = Some (r, m)" for r m
    using workerReduction_bounds(1,2) [OF that pos(1)] by simp
  have "1 \<le> target \<and> target \<le> cap \<and> target \<le> c + 1"
    using pos grow red by (auto simp: target_def decide split: option.split)
  then show "1 \<le> target" "target \<le> max 1 (ws_Ceiling s)" "target \<le> max 1 current + 1"
    by (simp_all add: c_def cap_def)
qed

section \<open>Properties\<close>

lemma plan_workers_asked:
  assumes "plan_workers d effective pending bw bt = (workers, capped)" "1 \<le> effective"
  shows "po_TaskWorkers d \<le> 0 \<Longrightarrow> workers \<le> effective" "0 < po_TaskWorkers d \<Longrightarrow> workers \<le> po_TaskWorkers d"
  using assms by (auto simp: plan_workers_def MaximumJobTaskWorkers_def Let_def split: if_splits prod.splits)

text \<open>
  C35: the plan of a run fits the host. There are between one and sixteen workers, never more than the tasks
  when there are any, and never more than an explicit number of workers asks for. The operations that may
  run at once are within the wanted concurrency when the number of workers is left to the plan; when it is
  explicit they are at most the larger of the two numbers, every worker running one at least. In Fast
  mode no browser is planned; otherwise the browsers of all workers together are within the browser
  budget: a single one, which is always allowed, or so many that their planned cost fits into
  the available memory above the reserve.
\<close>

theorem plan_fits_host:
  "let p = plan_run d cfg sample pending; desired = desired_concurrency d cfg in
   1 \<le> pl_Workers p \<and> pl_Workers p \<le> 16 \<and> (0 < pending \<longrightarrow> pl_Workers p \<le> pending) \<and>
   1 \<le> pl_PerTaskConcurrency p \<and>
   (0 < po_TaskWorkers d \<longrightarrow> pl_Workers p \<le> po_TaskWorkers d) \<and>
   pl_Workers p * pl_PerTaskConcurrency p \<le> (if 0 < po_TaskWorkers d then max desired (pl_Workers p) else desired) \<and>
   (if po_FastMode d then PlannedBrowsers p = 0
    else PlannedBrowsers p \<le> browserProcessBudget sample \<and>
      (1 < PlannedBrowsers p \<longrightarrow>
         PlannedBrowsers p * uint (plannedBrowserCostBytes sample) + 1536 * 2 ^ 20
           \<le> uint (rs_MemoryAvailableBytes sample)))"
proof -
  define desired where "desired = desired_concurrency d cfg"
  define eff where "eff = (if po_Adaptive d
    then adaptiveWorkerConcurrency desired sample (po_LowDiskBytes d) (po_MemoryCeilingBytes d) else desired)"
  define bw where "bw = (if po_FastMode d then 0 else browserModeWorkerBudget sample)"
  define bt where "bt = (if po_FastMode d then 0 else browserProcessBudget sample)"
  define p where "p = planTaskPool d eff pending bw bt"
  have p: "plan_run d cfg sample pending = p"
    by (simp add: plan_run_def p_def eff_def bw_def bt_def desired_def Let_def)
  have "1 \<le> desired" by (simp add: desired_def desired_concurrency_def Let_def)
  then have eff: "1 \<le> eff" "eff \<le> desired"
    by (auto simp: eff_def adaptiveWorkerConcurrency_def Let_def)
  obtain workers capped where w: "plan_workers d (max 1 eff) pending bw bt = (workers, capped)"
    by (cases rule: prod.exhaust)
  note frame = plan_frame [OF w, folded p_def]
  have wb: "1 \<le> workers" "workers \<le> 16" "0 < pending \<Longrightarrow> workers \<le> pending"
    using plan_workers_bounds [OF w] by simp_all
  note asked = plan_workers_asked [OF w max.cobounded1]
  have ops: "workers * max 1 (max 1 eff div workers) \<le> (if 0 < po_TaskWorkers d then max desired workers else desired)"
    using operations_bounded [OF wb(1), of eff] eff asked(1) by (auto simp: max_def split: if_splits)
  have browsers: "PlannedBrowsers p \<le> browserProcessBudget sample" if "\<not> po_FastMode d"
    using plan_browsers [of bt d eff pending bw] that browserProcessBudget_ge_1 [of sample] by (simp add: p_def bt_def)
  have fits: "PlannedBrowsers p * uint (plannedBrowserCostBytes sample) + 1536 * 2 ^ 20
      \<le> uint (rs_MemoryAvailableBytes sample)" if "\<not> po_FastMode d" "1 < PlannedBrowsers p"
  proof -
    have "PlannedBrowsers p * uint (plannedBrowserCostBytes sample) \<le>
        browserProcessBudget sample * uint (plannedBrowserCostBytes sample)"
      using browsers [OF that(1)] by (simp add: mult_right_mono)
    then show ?thesis using browserProcessBudget_fits [of sample] browsers [OF that(1)] that(2) by linarith
  qed
  have "PlannedBrowsers p = 0" if "po_FastMode d" using that frame by (simp add: PlannedBrowsers_def)
  then show ?thesis
    using wb ops browsers fits asked(2) unfolding p desired_def [symmetric] Let_def frame by simp
qed

theorem plan_fits_host_witness:
  "let d = \<lparr>po_Concurrency = 8, po_Adaptive = False, po_TaskWorkers = 3, po_FastMode = False, po_BrowserPool = 0, po_PagesBrowser = 0,
        po_MemoryCeilingBytes = 0, po_LowDiskBytes = 0\<rparr>;
      sample = \<lparr>rs_CPUPercent = Fin 10, rs_MemoryUsedBytes = 0, rs_MemoryAvailableBytes = 6 * 2 ^ 30,
        rs_DiskFreeBytes = 0, rs_BrowserProcesses = 0, rs_BrowserMemoryBytes = 0, rs_CPUCores = 4\<rparr>
   in pl_Workers (plan_run d 4 sample 12) \<le> 12 \<and> PlannedBrowsers (plan_run d 4 sample 12) = 6 \<and>
      pl_PerTaskPages (plan_run d 4 sample 12) = 0"
  using plan_fits_host [of "\<lparr>po_Concurrency = 8, po_Adaptive = False, po_TaskWorkers = 3, po_FastMode = False, po_BrowserPool = 0, po_PagesBrowser = 0,
        po_MemoryCeilingBytes = 0, po_LowDiskBytes = 0\<rparr>" 4 "\<lparr>rs_CPUPercent = Fin 10, rs_MemoryUsedBytes = 0,
        rs_MemoryAvailableBytes = 6 * 2 ^ 30, rs_DiskFreeBytes = 0, rs_BrowserProcesses = 0,
        rs_BrowserMemoryBytes = 0, rs_CPUCores = 4\<rparr>" 12]
  by (simp add: plan_run_def planTaskPool_def plan_workers_def bound_browsers_def PlannedBrowsers_def
      desired_concurrency_def browserModeWorkerBudget_def autoWorkerCeiling_def autoCPUWorkerBudget_def
      browserProcessBudget_def plannedBrowserCostBytes_def byte_constants MaximumJobTaskWorkers_def Let_def)

text \<open>
  The worker controller. Its target is between one and the ceiling, it moves up by one at most,
  every adverse signal (a refusal, a majority of failures, memory or CPU pressure, slow writes) takes
  at least one worker back at once, cooldown or not, and it moves up only with both cooldowns over,
  no failure or refusal in the window, three successes, work waiting for the new worker, and measured
  room for its browser.
\<close>

theorem worker_target_decision:
  fixes current :: int and s :: workerScalingSignals
  defines "c \<equiv> max 1 current" and "target \<equiv> wd_Workers (decideWorkerTarget current s)"
  shows "1 \<le> target \<and> target \<le> max 1 (ws_Ceiling s) \<and> target \<le> c + 1 \<and>
    (adverse s \<longrightarrow> target \<le> max 1 (c - 1)) \<and>
    (0 < ws_Blocks s \<and> c \<le> max 1 (ws_Ceiling s) \<longrightarrow> target = max 1 (c div 2)) \<and>
    (c < target \<longrightarrow> ws_ScaleCooldownElapsed s \<and> ws_RecoveryCooldownElapsed s \<and> ws_Failures s \<le> 0 \<and>
       3 \<le> ws_Successes s \<and> c < ws_Pending s \<and> \<not> adverse s \<and> \<not> f64_le (Fin 70) (ws_CPUPercent s) \<and>
       (ws_MemoryAvailable s = 0 \<or> 2 ^ 31 + 600 * 2 ^ 20 \<le> uint (ws_MemoryAvailable s))) \<and>
    (target \<noteq> c \<longrightarrow> wd_Reason (decideWorkerTarget current s) \<noteq> [])"
proof -
  have c: "1 \<le> c" by (simp add: c_def)
  have decide: "decideWorkerTarget current s =
      (let cap = max 1 (ws_Ceiling s);
           w = latencyDegraded (ws_WriteMean s) (ws_WriteBest s) (ws_WriteSamples s) (Fin 3)
       in if cap < c
          then \<lparr>wd_Workers = cap, wd_Reason = (if ws_CeilingReason s = []
            then ''the current capacity ceiling supports fewer parallel tasks'' else ws_CeilingReason s)\<rparr>
          else case workerReduction c s w of
            Some (reduced, reason) \<Rightarrow> \<lparr>wd_Workers = reduced, wd_Reason = reason\<rparr>
          | None \<Rightarrow> if ws_ScaleCooldownElapsed s \<and> canGrowWorkers c cap s
              (latencyDegraded (ws_TaskMean s) (ws_TaskBest s) (ws_TaskSamples s) (Fin 2)) w
            then \<lparr>wd_Workers = c + 1,
              wd_Reason = ''a clean task window with measured memory, CPU and browser head-room''\<rparr>
            else \<lparr>wd_Workers = c, wd_Reason = []\<rparr>)"
    by (auto simp: decideWorkerTarget_def c_def Let_def split: option.split)
  have room: "2 ^ 31 + 600 * 2 ^ 20 \<le> uint m" if "recoveryMemoryBytes + perBrowserPlanningCostBytes \<le> m" for m :: uint64
    using that by (simp add: byte_constants word_le_def)
  consider (clamped) "max 1 (ws_Ceiling s) < c"
    | (reduced) r reason where "\<not> max 1 (ws_Ceiling s) < c" "adverse s" "workerReduction c s
        (latencyDegraded (ws_WriteMean s) (ws_WriteBest s) (ws_WriteSamples s) (Fin 3)) = Some (r, reason)"
    | (steady) "\<not> max 1 (ws_Ceiling s) < c" "\<not> adverse s" "workerReduction c s
        (latencyDegraded (ws_WriteMean s) (ws_WriteBest s) (ws_WriteSamples s) (Fin 3)) = None"
    using workerReduction_iff [of c s] by fastforce
  then show ?thesis
  proof cases
    case clamped
    then show ?thesis by (auto simp: target_def decide Let_def)
  next
    case reduced
    then show ?thesis
      using workerReduction_bounds [OF reduced(3) c] c by (auto simp: target_def decide Let_def)
  next
    case steady
    let ?g = "ws_ScaleCooldownElapsed s \<and> canGrowWorkers c (max 1 (ws_Ceiling s)) s
      (latencyDegraded (ws_TaskMean s) (ws_TaskBest s) (ws_TaskSamples s) (Fin 2))
      (latencyDegraded (ws_WriteMean s) (ws_WriteBest s) (ws_WriteSamples s) (Fin 3))"
    have no_blocks: "\<not> 0 < ws_Blocks s" using steady(2) by (simp add: adverse_def)
    show ?thesis
    proof (cases ?g)
      case True
      then have g: "canGrowWorkers c (max 1 (ws_Ceiling s)) s
        (latencyDegraded (ws_TaskMean s) (ws_TaskBest s) (ws_TaskSamples s) (Fin 2))
        (latencyDegraded (ws_WriteMean s) (ws_WriteBest s) (ws_WriteSamples s) (Fin 3))" by blast
      have "target = c + 1" "wd_Reason (decideWorkerTarget current s) \<noteq> []"
        using True steady by (auto simp: target_def decide Let_def)
      then show ?thesis
        using True steady(2) c no_blocks canGrow_conditions(1-7,10) [OF g] room [of "ws_MemoryAvailable s"] by auto
    next
      case False
      then have "target = c" using steady by (auto simp: target_def decide Let_def)
      then show ?thesis using steady(1,2) c no_blocks by auto
    qed
  qed
qed

theorem worker_target_decision_witness:
  "\<exists>s. ws_Blocks s = 1 \<and> \<not> ws_ScaleCooldownElapsed s \<and> wd_Workers (decideWorkerTarget 4 s) = 2"
proof -
  define s where "s = \<lparr>ws_Ceiling = 6, ws_CeilingReason = [], ws_Pending = 9, ws_Failures = 0, ws_Successes = 5,
    ws_Blocks = 1, ws_CPUPercent = Fin 10, ws_MemoryAvailable = 0, ws_MemoryUsed = 0, ws_MemoryCeiling = 0,
    ws_BrowserCensus = 0, ws_AllowedBrowsers = 0, ws_TaskMean = 0, ws_TaskBest = 0, ws_TaskSamples = 0,
    ws_WriteMean = 0, ws_WriteBest = 0, ws_WriteSamples = 0, ws_ScaleCooldownElapsed = False,
    ws_RecoveryCooldownElapsed = True\<rparr>"
  have "0 < ws_Blocks s \<and> max 1 4 \<le> max 1 (ws_Ceiling s) \<longrightarrow> wd_Workers (decideWorkerTarget 4 s) = max 1 (max 1 4 div 2)"
    using worker_target_decision [of 4 s] by blast
  then show ?thesis by (intro exI [of _ s]) (simp add: s_def)
qed

end
