(* ===== verification/AdaptiveProperties.thy ===== *)
theory AdaptiveProperties
  imports Adaptive CapacityProperties
begin

text \<open>
  What the adaptation keeps over a whole run: the budgets stay between one and the wanted
  concurrency, the planned browsers of the wanted workers stay within measured memory after every
  tick, and trouble in a window never raises a budget.
\<close>

section \<open>The histories of a pool\<close>

inductive pool_step :: "taskPoolRun \<Rightarrow> taskPoolRun \<Rightarrow> bool" where
  tick: "po_Adaptive (tp_data r) \<Longrightarrow> pool_step r (adaptTaskPool now read sample r)"
| success: "pool_step r (r\<lparr>tp_windowSuccesses := tp_windowSuccesses r + 1,
    tp_taskLatency := observe duration (tp_taskLatency r)\<rparr>)"
| failure: "pool_step r (r\<lparr>tp_windowFailures := tp_windowFailures r + 1\<rparr>)"
| block: "pool_step r (r\<lparr>tp_windowBlocks := tp_windowBlocks r + 1\<rparr>)"
| merged: "pool_step r (r\<lparr>tp_writeLatency := observe duration (tp_writeLatency r)\<rparr>)"
| retire: "retireWorker now r = Some r' \<Longrightarrow> pool_step r r'"
| operator: "pool_step r (override_concurrency requested r)"
| stop: "pool_step r (snd (requestStop reason r))"

inductive pool_reach :: "taskPoolRun \<Rightarrow> taskPoolRun \<Rightarrow> bool" where
  start: "pool_reach r r"
| step: "pool_reach r s \<Longrightarrow> pool_step s t \<Longrightarrow> pool_reach r t"

section \<open>Frames\<close>

text \<open>What the worker count adaptation leaves alone.\<close>

definition budgets :: "taskPoolRun \<Rightarrow> JobPoolData \<times> int \<times> int \<times> int \<times> int \<times> int \<times> int" where
  "budgets r = (tp_data r, tp_effectiveConcurrency r, tp_desiredConcurrency r, tp_failureBudget r,
     tp_blockBudget r, tp_browserBudget r, tp_lastReductionAt r)"

text \<open>How the worker counter and the goroutine group stand to each other.\<close>

definition crew :: "taskPoolRun \<Rightarrow> int \<times> bool" where
  "crew r = (dg_running (tp_group r) - tp_workers r, dg_closed (tp_group r))"

definition windows :: "taskPoolRun \<Rightarrow> int \<times> int \<times> int" where
  "windows r = (tp_windowFailures r, tp_windowSuccesses r, tp_windowBlocks r)"

lemma budgets_record [simp]: "budgets (recordJobWorkerEvent e r) = budgets r"
  "windows (recordJobWorkerEvent e r) = windows r" "crew (recordJobWorkerEvent e r) = crew r"
  "tp_workers (recordJobWorkerEvent e r) = tp_workers r"
  "tp_workerTarget (recordJobWorkerEvent e r) = tp_workerTarget r"
  by (simp_all add: recordJobWorkerEvent_def budgets_def windows_def crew_def)

lemma budgets_reset [simp]: "budgets (resetWorkerWindow r) = budgets r"
  "windows (resetWorkerWindow r) = windows r" "crew (resetWorkerWindow r) = crew r"
  "tp_workers (resetWorkerWindow r) = tp_workers r"
  "tp_workerTarget (resetWorkerWindow r) = tp_workerTarget r"
  by (simp_all add: resetWorkerWindow_def budgets_def windows_def crew_def)

lemma start_workers_frame:
  assumes "start_workers n r = (k, r')"
  shows "0 \<le> k" "k \<le> int n" "budgets r' = budgets r" "windows r' = windows r"
    "tp_workers r' = tp_workers r + k" "tp_workerTarget r' = tp_workerTarget r" "crew r' = crew r"
    "snd (crew r) \<Longrightarrow> k = 0"
proof -
  have "0 \<le> k \<and> k \<le> int n \<and> budgets r' = budgets r \<and> windows r' = windows r \<and>
      tp_workers r' = tp_workers r + k \<and> tp_workerTarget r' = tp_workerTarget r \<and> crew r' = crew r \<and>
      (snd (crew r) \<longrightarrow> k = 0)"
    using assms
  proof (induction n arbitrary: r k)
    case (Suc n)
    show ?case
    proof (cases "spawn (tp_group r)")
      case None
      with Suc.prems show ?thesis by auto
    next
      case (Some g)
      obtain k0 where k0: "start_workers n (r\<lparr>tp_workers := tp_workers r + 1, tp_group := g\<rparr>) = (k0, r')"
        "k = k0 + 1"
        using Suc.prems Some by (auto split: prod.splits)
      show ?thesis using Suc.IH [OF k0(1)] k0(2) Some
        by (auto simp: budgets_def windows_def crew_def spawn_def split: if_splits)
    qed
  qed auto
  then show "0 \<le> k" "k \<le> int n" "budgets r' = budgets r" "windows r' = windows r"
    "tp_workers r' = tp_workers r + k" "tp_workerTarget r' = tp_workerTarget r" "crew r' = crew r"
    "snd (crew r) \<Longrightarrow> k = 0" by simp_all
qed

lemma pendingTasks_frame:
  assumes "pendingTasksForScaling now read r = (n, r')"
  shows "budgets r' = budgets r" "windows r' = windows r" "tp_workers r' = tp_workers r"
    "tp_workerTarget r' = tp_workerTarget r" "crew r' = crew r"
  using assms by (auto simp: pendingTasksForScaling_def budgets_def windows_def crew_def split: if_splits option.splits)

section \<open>The worker count\<close>

lemma converge_laws:
  fixes current now :: int
  assumes "1 \<le> tp_workerTarget r" "tp_workerTarget r \<le> tp_workers r" "current = tp_workers r"
    "1 \<le> wd_Workers d" "wd_Workers d \<le> cap" "wd_Workers d \<le> current + 1"
  defines "r' \<equiv> converge now current d r"
  shows "budgets r' = budgets r" "windows r' = windows r" "1 \<le> tp_workerTarget r'"
    "tp_workerTarget r' \<le> tp_workers r'" "tp_workerTarget r' \<le> cap" "crew r' = crew r"
    "tp_workers r \<le> tp_workers r'" "snd (crew r) \<Longrightarrow> tp_workers r' = tp_workers r"
    "cap \<le> tp_workers r \<Longrightarrow> tp_workers r' = tp_workers r"
proof -
  obtain k r1 where start: "start_workers (nat (wd_Workers d - current)) (r\<lparr>tp_workerTarget := wd_Workers d\<rparr>) = (k, r1)"
    by (cases rule: prod.exhaust)
  have k: "0 \<le> k" "k \<le> int (nat (wd_Workers d - current))" "tp_workers r1 = tp_workers r + k"
    "budgets r1 = budgets r" "windows r1 = windows r" "crew r1 = crew r" "snd (crew r) \<Longrightarrow> k = 0"
    using start_workers_frame [OF start] by (simp_all add: budgets_def windows_def crew_def)
  have upd: "budgets (x\<lparr>tp_workerTarget := t\<rparr>) = budgets x" "windows (x\<lparr>tp_workerTarget := t\<rparr>) = windows x"
    "budgets (x\<lparr>tp_lastWorkerChangeAt := t\<rparr>) = budgets x" "windows (x\<lparr>tp_lastWorkerChangeAt := t\<rparr>) = windows x"
    "crew (x\<lparr>tp_workerTarget := t\<rparr>) = crew x" "crew (x\<lparr>tp_lastWorkerChangeAt := t\<rparr>) = crew x"
    for x t by (simp_all add: budgets_def windows_def crew_def)
  show "budgets r' = budgets r" "windows r' = windows r" "crew r' = crew r"
    by (simp_all add: r'_def converge_def start k upd Let_def)
  show "1 \<le> tp_workerTarget r'" "tp_workerTarget r' \<le> tp_workers r'" "tp_workerTarget r' \<le> cap"
    "tp_workers r \<le> tp_workers r'" "snd (crew r) \<Longrightarrow> tp_workers r' = tp_workers r"
    "cap \<le> tp_workers r \<Longrightarrow> tp_workers r' = tp_workers r"
    using assms(1-6) k start by (auto simp: r'_def converge_def Let_def)
qed

lemma tighten_le: "fst (tighten a b w cr) \<le> fst cr"
  by (simp add: fst_tighten)

lemma workerCeiling_bounds:
  fixes eff :: int and r :: taskPoolRun and sample :: workerResourceSample
  defines "cap \<equiv> fst (workerCeilingForRun r sample eff)"
  shows "1 \<le> cap" "cap \<le> max 1 eff" "cap \<le> 16" "0 < po_TaskWorkers (tp_data r) \<Longrightarrow> cap \<le> po_TaskWorkers (tp_data r)"
    "\<not> po_FastMode (tp_data r) \<Longrightarrow> cap \<le> max 1 (browserProcessBudget sample div max 1 (tp_browserBudget r))"
proof -
  define cr0 where "cr0 = (max 1 eff, ''the concurrency budget this run is allowed only covers fewer parallel tasks'')"
  define cr1 where "cr1 = tighten (0 < po_TaskWorkers (tp_data r)) (po_TaskWorkers (tp_data r)) ''the configured parallel-task count'' cr0"
  define cr2 where "cr2 = tighten True MaximumJobTaskWorkers ''the maximum parallel tasks one job may run'' cr1"
  define cr3 where "cr3 = tighten (\<not> po_FastMode (tp_data r)) (autoWorkerCeiling sample)
    ''the measured memory and CPU budget now supports fewer parallel tasks'' cr2"
  define cr4 where "cr4 = tighten (\<not> po_FastMode (tp_data r)) (browserProcessBudget sample div max 1 (tp_browserBudget r))
    ''available memory now holds fewer simultaneous browsers'' cr3"
  have cap: "cap = max 1 (fst cr4)"
    unfolding cap_def workerCeilingForRun_def Let_def cr4_def cr3_def cr2_def cr1_def cr0_def by (rule fst_conv)
  have le: "fst cr4 \<le> fst cr3" "fst cr3 \<le> fst cr2" "fst cr2 \<le> fst cr1" "fst cr1 \<le> fst cr0" "fst cr2 \<le> 16"
    "fst cr0 = max 1 eff"
    unfolding cr4_def cr3_def cr2_def cr1_def cr0_def
    by (rule tighten_le, rule tighten_le, rule tighten_le, rule tighten_le)
      (simp_all add: fst_tighten MaximumJobTaskWorkers_def)
  show "1 \<le> cap" by (simp add: cap)
  show "cap \<le> max 1 eff" using le(1-4,6) unfolding cap by linarith
  show "cap \<le> 16" using le(1,2,5) unfolding cap by linarith
  show "cap \<le> po_TaskWorkers (tp_data r)" if "0 < po_TaskWorkers (tp_data r)"
  proof -
    have "fst cr1 \<le> po_TaskWorkers (tp_data r)" using that by (simp add: cr1_def fst_tighten)
    then show ?thesis using le(1-3) that unfolding cap by linarith
  qed
  show "cap \<le> max 1 (browserProcessBudget sample div max 1 (tp_browserBudget r))" if "\<not> po_FastMode (tp_data r)"
  proof -
    have "fst cr4 \<le> browserProcessBudget sample div max 1 (tp_browserBudget r)"
      using that by (simp add: cr4_def fst_tighten)
    then show ?thesis unfolding cap by (intro max.mono) simp_all
  qed
qed

lemma adaptWorkerCount_laws:
  fixes now f s b eff :: int and read :: "int option" and sample :: workerResourceSample
  assumes "1 \<le> tp_workerTarget r" "tp_workerTarget r \<le> tp_workers r"
  defines "r' \<equiv> adaptWorkerCount now read sample f s b eff r"
  shows "budgets r' = budgets r" "windows r' = windows r" "1 \<le> tp_workerTarget r'"
    "tp_workerTarget r' \<le> tp_workers r'"
    "tp_workerTarget r' \<le> fst (workerCeilingForRun r sample eff)" "crew r' = crew r"
    "tp_workers r \<le> tp_workers r'" "snd (crew r) \<Longrightarrow> tp_workers r' = tp_workers r"
    "fst (workerCeilingForRun r sample eff) \<le> tp_workers r \<Longrightarrow> tp_workers r' = tp_workers r"
proof -
  define elapsed where "elapsed = workerScaleCooldownElapsed now r"
  obtain counts r2 where w: "weighed elapsed (f, s, b) (accumulate f s b r) = (counts, r2)"
    by (cases rule: prod.exhaust)
  obtain pending r3 where p: "(if elapsed then pendingTasksForScaling now read r2 else (0, r2)) = (pending, r3)"
    by (cases rule: prod.exhaust)
  define sig where "sig = scaling_signals now r3 sample (workerCeilingForRun r3 sample eff)
    pending (fst counts) (fst (snd counts)) (snd (snd counts)) elapsed"
  have m: "max 1 (tp_workers r) = tp_workers r" using assms(1,2) by simp
  have r': "r' = converge now (tp_workers r) (decideWorkerTarget (tp_workers r) sig) r3"
    by (simp add: r'_def adaptWorkerCount_def Let_def elapsed_def [symmetric] sig_def m w p)
  have acc: "budgets (accumulate f s b r) = budgets r" "windows (accumulate f s b r) = windows r"
    "tp_workers (accumulate f s b r) = tp_workers r" "tp_workerTarget (accumulate f s b r) = tp_workerTarget r"
    "crew (accumulate f s b r) = crew r"
    by (simp_all add: accumulate_def budgets_def windows_def crew_def)
  have r2: "budgets r2 = budgets r" "windows r2 = windows r" "tp_workers r2 = tp_workers r"
    "tp_workerTarget r2 = tp_workerTarget r" "crew r2 = crew r"
    using w acc by (auto simp: weighed_def split: if_splits)
  have r3: "budgets r3 = budgets r" "windows r3 = windows r" "tp_workers r3 = tp_workers r"
    "tp_workerTarget r3 = tp_workerTarget r" "crew r3 = crew r"
    using p pendingTasks_frame [of now read r2] r2 by (auto split: if_splits)
  have ceil: "workerCeilingForRun r3 sample eff = workerCeilingForRun r sample eff"
    using r3(1) by (simp add: workerCeilingForRun_def budgets_def)
  have "ws_Ceiling sig = fst (workerCeilingForRun r sample eff)" by (simp add: sig_def scaling_signals_def ceil)
  then have d: "wd_Workers (decideWorkerTarget (tp_workers r) sig) \<le> fst (workerCeilingForRun r sample eff)"
    using decideWorkerTarget_bounds(2) [of "tp_workers r" sig] workerCeiling_bounds(1) [of r sample eff] by simp
  have t: "1 \<le> tp_workerTarget r3" "tp_workerTarget r3 \<le> tp_workers r3" "tp_workers r = tp_workers r3"
    using assms(1,2) r3 by simp_all
  have "wd_Workers (decideWorkerTarget (tp_workers r) sig) \<le> tp_workers r + 1"
    using decideWorkerTarget_bounds(3) [of "tp_workers r" sig] m by simp
  note laws = converge_laws [OF t decideWorkerTarget_bounds(1) d this]
  show "budgets r' = budgets r" "windows r' = windows r"
    unfolding r' using laws(1,2) r3(1,2) by simp_all
  show "1 \<le> tp_workerTarget r'" "tp_workerTarget r' \<le> tp_workers r'"
    "tp_workerTarget r' \<le> fst (workerCeilingForRun r sample eff)"
    unfolding r' by (rule laws)+
  show "crew r' = crew r" "tp_workers r \<le> tp_workers r'" "snd (crew r) \<Longrightarrow> tp_workers r' = tp_workers r"
    "fst (workerCeilingForRun r sample eff) \<le> tp_workers r \<Longrightarrow> tp_workers r' = tp_workers r"
    unfolding r' using laws(6-9) r3 by simp_all
qed

section \<open>A tick\<close>

text \<open>The browser half of a tick touches the browser and page budgets only.\<close>

lemma adaptBrowser_frame:
  defines "b \<equiv> \<lambda>sample x. adaptBrowserBudget sample (recordMemoryCeilingTransition sample (po_MemoryCeilingBytes (tp_data x)) x)"
  shows "tp_data (b sample x) = tp_data x" "tp_effectiveConcurrency (b sample x) = tp_effectiveConcurrency x"
    "tp_desiredConcurrency (b sample x) = tp_desiredConcurrency x" "tp_failureBudget (b sample x) = tp_failureBudget x"
    "tp_blockBudget (b sample x) = tp_blockBudget x" "tp_lastReductionAt (b sample x) = tp_lastReductionAt x"
    "tp_workers (b sample x) = tp_workers x" "tp_workerTarget (b sample x) = tp_workerTarget x"
    "windows (b sample x) = windows x" "crew (b sample x) = crew x" "tp_browserBudget (b sample x) = fst (adaptiveBrowserBudget
      (tp_baselineBrowsers x) (tp_baselinePages x) sample (po_MemoryCeilingBytes (tp_data x)))"
  by (simp_all add: b_def adaptBrowserBudget_def recordMemoryCeilingTransition_def recordJobWorkerEvent_def
      windows_def crew_def Let_def case_prod_beta)

text \<open>What every tick establishes, in terms of the run the budgets were decided in.\<close>

lemma adaptTaskPool_laws:
  assumes "1 \<le> tp_workerTarget r" "tp_workerTarget r \<le> tp_workers r"
  obtains r2 fb bb where
    "tick_budgets now sample (tp_windowFailures r) (tp_windowSuccesses r) (tp_windowBlocks r) r2 =
       (fb, bb, tp_effectiveConcurrency (adaptTaskPool now read sample r))"
    "tp_data r2 = tp_data r" "tp_desiredConcurrency r2 = tp_desiredConcurrency r"
    "tp_failureBudget r2 = tp_failureBudget r" "tp_blockBudget r2 = tp_blockBudget r"
    "tp_lastReductionAt r2 = tp_lastReductionAt r"
    "tp_browserBudget r2 = fst (adaptiveBrowserBudget (tp_baselineBrowsers r) (tp_baselinePages r) sample
       (po_MemoryCeilingBytes (tp_data r)))"
    "tp_data (adaptTaskPool now read sample r) = tp_data r"
    "tp_desiredConcurrency (adaptTaskPool now read sample r) = tp_desiredConcurrency r"
    "tp_failureBudget (adaptTaskPool now read sample r) = fb"
    "tp_blockBudget (adaptTaskPool now read sample r) = bb"
    "tp_browserBudget (adaptTaskPool now read sample r) = tp_browserBudget r2"
    "windows (adaptTaskPool now read sample r) = (0, 0, 0)"
    "1 \<le> tp_workerTarget (adaptTaskPool now read sample r)"
    "tp_workerTarget (adaptTaskPool now read sample r) \<le> tp_workers (adaptTaskPool now read sample r)"
    "tp_workerTarget (adaptTaskPool now read sample r) \<le> fst (workerCeilingForRun
       (adaptTaskPool now read sample r) sample (tp_effectiveConcurrency (adaptTaskPool now read sample r)))"
    "crew (adaptTaskPool now read sample r) = crew r" "tp_workers r \<le> tp_workers (adaptTaskPool now read sample r)"
    "snd (crew r) \<Longrightarrow> tp_workers (adaptTaskPool now read sample r) = tp_workers r"
    "fst (workerCeilingForRun (adaptTaskPool now read sample r) sample
       (tp_effectiveConcurrency (adaptTaskPool now read sample r))) \<le> tp_workers r \<Longrightarrow>
     tp_workers (adaptTaskPool now read sample r) = tp_workers r"
proof -
  define r1 where "r1 = r\<lparr>tp_windowFailures := 0, tp_windowSuccesses := 0, tp_windowBlocks := 0\<rparr>"
  define r2 where "r2 = adaptBrowserBudget sample
    (recordMemoryCeilingTransition sample (po_MemoryCeilingBytes (tp_data r1)) r1)"
  obtain fb bb nxt where b: "tick_budgets now sample (tp_windowFailures r) (tp_windowSuccesses r) (tp_windowBlocks r) r2 =
      (fb, bb, nxt)" by (cases rule: prod_cases3)
  define r2' where "r2' = r2\<lparr>tp_failureBudget := fb, tp_blockBudget := bb\<rparr>"
  define r3 where "r3 = adaptWorkerCount now read sample (tp_windowFailures r) (tp_windowSuccesses r)
    (tp_windowBlocks r) nxt r2'"
  have r': "adaptTaskPool now read sample r = set_concurrency now sample (tp_windowBlocks r) nxt r3"
    by (simp add: adaptTaskPool_def r3_def r2'_def b [symmetric] Let_def flip: r1_def)
      (simp add: b flip: r2_def)
  have fr: "tp_data r2 = tp_data r" "tp_desiredConcurrency r2 = tp_desiredConcurrency r"
    "tp_failureBudget r2 = tp_failureBudget r" "tp_blockBudget r2 = tp_blockBudget r"
    "tp_lastReductionAt r2 = tp_lastReductionAt r" "tp_workers r2 = tp_workers r"
    "tp_workerTarget r2 = tp_workerTarget r" "windows r2 = (0, 0, 0)" "crew r2 = crew r"
    "tp_browserBudget r2 = fst (adaptiveBrowserBudget (tp_baselineBrowsers r) (tp_baselinePages r) sample
       (po_MemoryCeilingBytes (tp_data r)))"
    using adaptBrowser_frame [of sample r1] by (simp_all add: r1_def r2_def windows_def crew_def)
  have t: "1 \<le> tp_workerTarget r2'" "tp_workerTarget r2' \<le> tp_workers r2'"
    using assms fr by (simp_all add: r2'_def)
  have set: "tp_data (set_concurrency now sample blocks n x) = tp_data x"
    "tp_desiredConcurrency (set_concurrency now sample blocks n x) = tp_desiredConcurrency x"
    "tp_failureBudget (set_concurrency now sample blocks n x) = tp_failureBudget x"
    "tp_blockBudget (set_concurrency now sample blocks n x) = tp_blockBudget x"
    "tp_browserBudget (set_concurrency now sample blocks n x) = tp_browserBudget x"
    "windows (set_concurrency now sample blocks n x) = windows x"
    "tp_workers (set_concurrency now sample blocks n x) = tp_workers x"
    "tp_workerTarget (set_concurrency now sample blocks n x) = tp_workerTarget x"
    "tp_effectiveConcurrency (set_concurrency now sample blocks n x) = n"
    "crew (set_concurrency now sample blocks n x) = crew x" for blocks n x
    by (auto simp: set_concurrency_def recordJobWorkerEvent_def windows_def crew_def Let_def)
  note w = adaptWorkerCount_laws [OF t, where now = now and read = read and sample = sample and f = "tp_windowFailures r"
      and s = "tp_windowSuccesses r" and b = "tp_windowBlocks r" and eff = nxt, folded r3_def]
  have r3: "tp_data r3 = tp_data r" "tp_desiredConcurrency r3 = tp_desiredConcurrency r" "tp_failureBudget r3 = fb"
    "tp_blockBudget r3 = bb" "tp_browserBudget r3 = tp_browserBudget r2" "windows r3 = (0, 0, 0)"
    using w(1,2) fr by (simp_all add: budgets_def r2'_def windows_def)
  have crew: "crew r2' = crew r" using fr by (simp add: r2'_def crew_def)
  then have r3c: "crew r3 = crew r" "tp_workers r \<le> tp_workers r3" "snd (crew r) \<Longrightarrow> tp_workers r3 = tp_workers r"
    using w(6-8) fr by (simp_all add: r2'_def)
  have ceil: "workerCeilingForRun x sample n = workerCeilingForRun y sample n"
    if "tp_data x = tp_data y" "tp_browserBudget x = tp_browserBudget y" for x y n
    using that by (simp add: workerCeilingForRun_def)
  have "fst (workerCeilingForRun r2' sample nxt) =
      fst (workerCeilingForRun (adaptTaskPool now read sample r) sample nxt)"
    using ceil [of r2' "adaptTaskPool now read sample r"] by (simp add: r' set r3 fr r2'_def)
  then show ?thesis
    using that [of r2 fb bb] b fr r3 w(3-5,9) r3c by (simp add: r' set r2'_def)
qed

section \<open>Budgets\<close>

lemma decideFailureBudget_bounds:
  assumes "1 \<le> current" "1 \<le> desired"
  shows "1 \<le> decideFailureBudget current desired f s" "decideFailureBudget current desired f s \<le> desired"
    "decideFailureBudget current desired f s \<le> current + 1"
    "0 < f \<Longrightarrow> decideFailureBudget current desired f s \<le> current"
    "2 \<le> f \<Longrightarrow> s \<le> f \<Longrightarrow> decideFailureBudget current desired f s \<le> max 1 (current div 2)"
proof -
  have "min current desired div 2 \<le> current div 2" by (intro zdiv_mono1) simp_all
  then show "1 \<le> decideFailureBudget current desired f s" "decideFailureBudget current desired f s \<le> desired"
    "decideFailureBudget current desired f s \<le> current + 1"
    "0 < f \<Longrightarrow> decideFailureBudget current desired f s \<le> current"
    "2 \<le> f \<Longrightarrow> s \<le> f \<Longrightarrow> decideFailureBudget current desired f s \<le> max 1 (current div 2)"
    using assms by (auto simp: decideFailureBudget_def Let_def min_def split: if_splits)
qed

lemma decideBlockBudget_bounds:
  assumes "1 \<le> current" "1 \<le> desired"
  shows "1 \<le> decideBlockBudget current desired b a" "decideBlockBudget current desired b a \<le> desired"
    "decideBlockBudget current desired b a \<le> current + 1"
    "0 < b \<Longrightarrow> decideBlockBudget current desired b a \<le> max 1 (current div 2)"
proof -
  have "min current desired div 2 \<le> current div 2" by (intro zdiv_mono1) simp_all
  then show "1 \<le> decideBlockBudget current desired b a" "decideBlockBudget current desired b a \<le> desired"
    "decideBlockBudget current desired b a \<le> current + 1"
    "0 < b \<Longrightarrow> decideBlockBudget current desired b a \<le> max 1 (current div 2)"
    using assms by (auto simp: decideBlockBudget_def Let_def min_def split: if_splits)
qed

lemma gated_cases: "gated m p n = n \<or> gated m p n = p \<and> p < n \<and> \<not> m"
  by (auto simp: gated_def)

lemma adaptiveWorkerConcurrency_bounds:
  "1 \<le> adaptiveWorkerConcurrency desired sample lowDisk cap"
  "1 \<le> desired \<Longrightarrow> adaptiveWorkerConcurrency desired sample lowDisk cap \<le> desired"
  by (auto simp: adaptiveWorkerConcurrency_def Let_def)

section \<open>The invariant of a run\<close>

definition pool_ok :: "taskPoolRun \<Rightarrow> bool" where
  "pool_ok r \<longleftrightarrow> 1 \<le> tp_desiredConcurrency r \<and> 1 \<le> tp_effectiveConcurrency r \<and> 1 \<le> tp_failureBudget r \<and>
     1 \<le> tp_blockBudget r \<and> 1 \<le> tp_workerTarget r \<and> tp_workerTarget r \<le> tp_workers r \<and>
     0 \<le> tp_windowFailures r \<and> 0 \<le> tp_windowSuccesses r \<and> 0 \<le> tp_windowBlocks r"

text \<open>The budgets of a tick in a run that satisfies the invariant.\<close>

lemma tick_laws:
  fixes now :: int and sample :: workerResourceSample and read :: "int option"
  assumes "pool_ok r"
  defines "r' \<equiv> adaptTaskPool now read sample r"
  shows "pool_ok r'" "tp_data r' = tp_data r" "tp_desiredConcurrency r' = tp_desiredConcurrency r"
    "tp_effectiveConcurrency r' = min (adaptiveWorkerConcurrency (tp_desiredConcurrency r) sample
      (po_LowDiskBytes (tp_data r)) (po_MemoryCeilingBytes (tp_data r))) (min (tp_failureBudget r') (tp_blockBudget r'))"
    "tp_browserBudget r' = fst (adaptiveBrowserBudget (tp_baselineBrowsers r) (tp_baselinePages r) sample
      (po_MemoryCeilingBytes (tp_data r)))"
    "tp_workerTarget r' \<le> fst (workerCeilingForRun r' sample (tp_effectiveConcurrency r'))"
    "\<exists>m. tp_failureBudget r' = gated m (tp_failureBudget r) (decideFailureBudget (tp_failureBudget r)
        (tp_desiredConcurrency r) (tp_windowFailures r) (tp_windowSuccesses r)) \<and>
      tp_blockBudget r' = gated m (tp_blockBudget r) (decideBlockBudget (tp_blockBudget r)
        (tp_desiredConcurrency r) (tp_windowBlocks r) (tp_windowFailures r + tp_windowSuccesses r)) \<and>
      (m \<longrightarrow> tp_windowFailures r = 0 \<and> tp_windowBlocks r = 0 \<and> recoveryCooldownElapsed now r \<and>
        \<not> f64_le (Fin 70) (rs_CPUPercent sample))"
    "crew r' = crew r" "tp_workers r \<le> tp_workers r'" "snd (crew r) \<Longrightarrow> tp_workers r' = tp_workers r"
    "fst (workerCeilingForRun r' sample (tp_effectiveConcurrency r')) \<le> tp_workers r \<Longrightarrow> tp_workers r' = tp_workers r"
proof -
  have t: "1 \<le> tp_workerTarget r" "tp_workerTarget r \<le> tp_workers r" using assms(1) by (simp_all add: pool_ok_def)
  obtain r2 fb bb where laws:
    "tick_budgets now sample (tp_windowFailures r) (tp_windowSuccesses r) (tp_windowBlocks r) r2 =
       (fb, bb, tp_effectiveConcurrency r')"
    "tp_data r2 = tp_data r" "tp_desiredConcurrency r2 = tp_desiredConcurrency r"
    "tp_failureBudget r2 = tp_failureBudget r" "tp_blockBudget r2 = tp_blockBudget r"
    "tp_lastReductionAt r2 = tp_lastReductionAt r"
    "tp_browserBudget r2 = fst (adaptiveBrowserBudget (tp_baselineBrowsers r) (tp_baselinePages r) sample
       (po_MemoryCeilingBytes (tp_data r)))"
    "tp_data r' = tp_data r" "tp_desiredConcurrency r' = tp_desiredConcurrency r"
    "tp_failureBudget r' = fb" "tp_blockBudget r' = bb" "tp_browserBudget r' = tp_browserBudget r2"
    "windows r' = (0, 0, 0)" "1 \<le> tp_workerTarget r'" "tp_workerTarget r' \<le> tp_workers r'"
    "tp_workerTarget r' \<le> fst (workerCeilingForRun r' sample (tp_effectiveConcurrency r'))"
    "crew r' = crew r" "tp_workers r \<le> tp_workers r'" "snd (crew r) \<Longrightarrow> tp_workers r' = tp_workers r"
    "fst (workerCeilingForRun r' sample (tp_effectiveConcurrency r')) \<le> tp_workers r \<Longrightarrow> tp_workers r' = tp_workers r"
    using adaptTaskPool_laws [OF t, of now sample read] unfolding r'_def by blast
  define m where "m \<longleftrightarrow> (tp_windowFailures r = 0 \<and> tp_windowBlocks r = 0) \<and>
    recoveryHasHeadroom sample (tp_windowBlocks r) (tp_browserBudget r2 * max 1 (tp_workers r2))
      (po_MemoryCeilingBytes (tp_data r)) \<and> recoveryCooldownElapsed now r2"
  have b: "fb = gated m (tp_failureBudget r) (decideFailureBudget (tp_failureBudget r)
        (tp_desiredConcurrency r) (tp_windowFailures r) (tp_windowSuccesses r))"
    "bb = gated m (tp_blockBudget r) (decideBlockBudget (tp_blockBudget r)
        (tp_desiredConcurrency r) (tp_windowBlocks r) (tp_windowFailures r + tp_windowSuccesses r))"
    "tp_effectiveConcurrency r' = min (adaptiveWorkerConcurrency (tp_desiredConcurrency r) sample
      (po_LowDiskBytes (tp_data r)) (po_MemoryCeilingBytes (tp_data r))) (min fb bb)"
    using laws(1) unfolding tick_budgets_def Let_def laws(2-5) m_def by auto
  have m: "tp_windowFailures r = 0 \<and> tp_windowBlocks r = 0 \<and> recoveryCooldownElapsed now r \<and>
      \<not> f64_le (Fin 70) (rs_CPUPercent sample)" if m
    using that laws(6) by (auto simp: m_def recoveryHasHeadroom_def recoveryCooldownElapsed_def split: if_splits)
  show "crew r' = crew r" "tp_workers r \<le> tp_workers r'" "snd (crew r) \<Longrightarrow> tp_workers r' = tp_workers r"
    by (rule laws)+
  show "tp_workers r' = tp_workers r" if "fst (workerCeilingForRun r' sample (tp_effectiveConcurrency r')) \<le> tp_workers r"
    using that by (rule laws(20))
  show "tp_data r' = tp_data r" "tp_desiredConcurrency r' = tp_desiredConcurrency r"
    "tp_workerTarget r' \<le> fst (workerCeilingForRun r' sample (tp_effectiveConcurrency r'))"
    "tp_browserBudget r' = fst (adaptiveBrowserBudget (tp_baselineBrowsers r) (tp_baselinePages r) sample
      (po_MemoryCeilingBytes (tp_data r)))"
    using laws(7-9,12,16) by simp_all
  show "tp_effectiveConcurrency r' = min (adaptiveWorkerConcurrency (tp_desiredConcurrency r) sample
      (po_LowDiskBytes (tp_data r)) (po_MemoryCeilingBytes (tp_data r))) (min (tp_failureBudget r') (tp_blockBudget r'))"
    using b(3) laws(10,11) by simp
  have one: "1 \<le> tp_failureBudget r" "1 \<le> tp_blockBudget r" "1 \<le> tp_desiredConcurrency r"
    using assms(1) by (simp_all add: pool_ok_def)
  have "1 \<le> fb" "1 \<le> bb"
    using b(1,2) one decideFailureBudget_bounds(1) [OF one(1,3)] decideBlockBudget_bounds(1) [OF one(2,3)]
    by (auto simp: gated_def)
  then show "pool_ok r'"
    using laws(9-11,13-15) one(3) b(3) adaptiveWorkerConcurrency_bounds(1)
    by (simp add: pool_ok_def windows_def)
  show "\<exists>m. tp_failureBudget r' = gated m (tp_failureBudget r) (decideFailureBudget (tp_failureBudget r)
        (tp_desiredConcurrency r) (tp_windowFailures r) (tp_windowSuccesses r)) \<and>
      tp_blockBudget r' = gated m (tp_blockBudget r) (decideBlockBudget (tp_blockBudget r)
        (tp_desiredConcurrency r) (tp_windowBlocks r) (tp_windowFailures r + tp_windowSuccesses r)) \<and>
      (m \<longrightarrow> tp_windowFailures r = 0 \<and> tp_windowBlocks r = 0 \<and> recoveryCooldownElapsed now r \<and>
        \<not> f64_le (Fin 70) (rs_CPUPercent sample))"
    using b(1,2) m laws(10,11) by (intro exI [of _ m]) simp
qed

lemma pool_step_ok: "pool_step r t \<Longrightarrow> pool_ok r \<Longrightarrow> pool_ok t"
proof (induction rule: pool_step.induct)
  case (tick r now read sample)
  then show ?case using tick_laws(1) by blast
next
  case (retire now r r')
  then show ?case by (auto simp: pool_ok_def retireWorker_def split: if_splits)
next
  case (operator r requested)
  then show ?case by (auto simp: pool_ok_def override_concurrency_def recordJobWorkerEvent_def Let_def)
qed (auto simp: pool_ok_def requestStop_def)

lemma pool_reach_ok: "pool_reach r t \<Longrightarrow> pool_ok r \<Longrightarrow> pool_ok t"
  by (induction rule: pool_reach.induct) (auto intro: pool_step_ok)


lemma start_pool_ok:
  fixes d :: JobPoolData and cfg pending :: int and sample :: workerResourceSample
  defines "plan \<equiv> plan_run d cfg sample pending"
  shows "pool_ok (start_pool now d plan (desired_concurrency d cfg) cooldown)"
proof -
  obtain eff bw bt where plan: "plan = planTaskPool d eff pending bw bt"
    unfolding plan_def plan_run_def Let_def by blast
  obtain workers capped where w: "plan_workers d (max 1 eff) pending bw bt = (workers, capped)"
    by (cases rule: prod.exhaust)
  have "1 \<le> pl_Workers plan" "1 \<le> pl_PerTaskConcurrency plan"
    using plan_frame [OF w] plan_workers_bounds(1) [OF w] by (simp_all add: plan)
  moreover from this have "1 * 1 \<le> pl_PerTaskConcurrency plan * pl_Workers plan"
    by (intro mult_mono) simp_all
  moreover have "1 \<le> desired_concurrency d cfg" by (simp add: desired_concurrency_def Let_def)
  ultimately show ?thesis by (simp add: pool_ok_def start_pool_def)
qed

text \<open>
  The resource budget is not paced: with the failure and block budgets untouched, one tick after
  the pressure clears takes the concurrency back to the full target, whatever it was and however
  recent the reduction, with a failure in the very window.
\<close>

lemma resource_recovery_unpaced:
  assumes "pool_ok r" "tp_failureBudget r = tp_desiredConcurrency r" "tp_blockBudget r = tp_desiredConcurrency r"
    "tp_windowFailures r = 1" "0 < tp_windowSuccesses r" "tp_windowBlocks r = 0"
    "\<not> f64_le (Fin 85) (rs_CPUPercent sample)" "push_bit 30 1 \<le> rs_MemoryAvailableBytes sample"
    "po_LowDiskBytes (tp_data r) = 0" "po_MemoryCeilingBytes (tp_data r) = 0"
  shows "tp_effectiveConcurrency (adaptTaskPool now read sample r) = tp_desiredConcurrency r"
proof -
  let ?d = "tp_desiredConcurrency r"
  have d: "1 \<le> ?d" using assms(1) by (simp add: pool_ok_def)
  obtain m where "tp_failureBudget (adaptTaskPool now read sample r) =
      gated m ?d (decideFailureBudget ?d ?d 1 (tp_windowSuccesses r))"
    "tp_blockBudget (adaptTaskPool now read sample r) = gated m ?d (decideBlockBudget ?d ?d 0 (1 + tp_windowSuccesses r))"
    using tick_laws(7) [OF assms(1), of now read sample] assms by auto
  moreover have "decideFailureBudget ?d ?d 1 (tp_windowSuccesses r) = ?d" "decideBlockBudget ?d ?d 0 (1 + tp_windowSuccesses r) = ?d"
    using d by (simp_all add: decideFailureBudget_def decideBlockBudget_def)
  moreover have "adaptiveWorkerConcurrency ?d sample 0 0 = ?d"
    using d assms(7,8) by (auto simp: adaptiveWorkerConcurrency_def memoryCeilingExceeded_def)
  ultimately show ?thesis
    using tick_laws(4) [OF assms(1), of now read sample] assms(9,10) by (simp add: gated_def)
qed

section \<open>A sample run\<close>

definition demo_data :: JobPoolData where
  "demo_data = \<lparr>po_Concurrency = 8, po_Adaptive = True, po_TaskWorkers = 0, po_FastMode = False, po_BrowserPool = 0,
     po_PagesBrowser = 0, po_MemoryCeilingBytes = 2 ^ 30, po_LowDiskBytes = 0\<rparr>"

definition demo_sample :: workerResourceSample where
  "demo_sample = \<lparr>rs_CPUPercent = Fin 10, rs_MemoryUsedBytes = 2 ^ 31, rs_MemoryAvailableBytes = 2 ^ 33,
     rs_DiskFreeBytes = 0, rs_BrowserProcesses = 0, rs_BrowserMemoryBytes = 0, rs_CPUCores = 8\<rparr>"

definition demo_pool :: taskPoolRun where
  "demo_pool = start_pool 1 demo_data (plan_run demo_data 4 demo_sample 20) (desired_concurrency demo_data 4) 0"

lemma demo_pool_simps: "tp_data demo_pool = demo_data" "tp_blockBudget demo_pool = 8"
  "tp_windowBlocks demo_pool = 0"
  by (simp_all add: demo_pool_def start_pool_def desired_concurrency_def demo_data_def)

section \<open>Properties\<close>

text \<open>
  C18: over every history of a run (ticks with any measurements, finished attempts, merges, retiring
  workers, operator overrides, stop requests), each tick of the adaptation leaves a concurrency
  between one and the wanted one, a worker target between one and sixteen that needs no more
  concurrency than is allowed and respects the configured worker count, and, outside Fast mode, a target whose browsers
  the measured memory holds; past the operator's memory ceiling that is one worker.
\<close>

theorem adaptation_within_limits:
  fixes now t0 cfg pending cooldown :: int and read :: "int option" and sample sample0 :: workerResourceSample
  assumes "pool_reach (start_pool t0 d (plan_run d cfg sample0 pending) (desired_concurrency d cfg) cooldown) r"
  defines "r' \<equiv> adaptTaskPool now read sample r"
  shows "1 \<le> tp_effectiveConcurrency r' \<and> tp_effectiveConcurrency r' \<le> tp_desiredConcurrency r' \<and>
    1 \<le> tp_workerTarget r' \<and> tp_workerTarget r' \<le> 16 \<and> tp_workerTarget r' \<le> tp_effectiveConcurrency r' \<and>
    tp_workerTarget r' \<le> tp_workers r' \<and>
    (0 < po_TaskWorkers (tp_data r) \<longrightarrow> tp_workerTarget r' \<le> po_TaskWorkers (tp_data r)) \<and>
    (\<not> po_FastMode (tp_data r) \<longrightarrow> tp_workerTarget r' * max 1 (tp_browserBudget r') \<le>
       max (max 1 (tp_browserBudget r')) (browserProcessBudget sample)) \<and>
    (memoryCeilingExceeded (po_MemoryCeilingBytes (tp_data r)) sample \<longrightarrow>
       tp_workerTarget r' = 1 \<and> tp_effectiveConcurrency r' = 1 \<and> tp_browserBudget r' = 1)"
proof -
  have ok: "pool_ok r" using pool_reach_ok [OF assms(1) start_pool_ok] .
  note laws = tick_laws [OF ok, of now read sample, folded r'_def]
  have ok': "1 \<le> tp_desiredConcurrency r'" "1 \<le> tp_effectiveConcurrency r'" "1 \<le> tp_workerTarget r'"
    "tp_workerTarget r' \<le> tp_workers r'" "1 \<le> tp_desiredConcurrency r"
    using laws(1) ok by (simp_all add: pool_ok_def)
  have eff: "tp_effectiveConcurrency r' \<le> tp_desiredConcurrency r'"
    using laws(3,4) adaptiveWorkerConcurrency_bounds(2) [OF ok'(5)] by (simp add: min.coboundedI1)
  note ceil = workerCeiling_bounds [of r' sample "tp_effectiveConcurrency r'"]
  have le: "tp_workerTarget r' \<le> 16" "tp_workerTarget r' \<le> tp_effectiveConcurrency r'"
    using laws(6) ceil(2,3) ok'(2) by linarith+
  have workers: "tp_workerTarget r' \<le> po_TaskWorkers (tp_data r)" if "0 < po_TaskWorkers (tp_data r)"
    using laws(2,6) ceil(4) that by simp
  let ?b = "max 1 (tp_browserBudget r')"
  have browsers: "tp_workerTarget r' * ?b \<le> max ?b (browserProcessBudget sample)" if "\<not> po_FastMode (tp_data r)"
  proof -
    have t: "tp_workerTarget r' \<le> max 1 (browserProcessBudget sample div ?b)"
      using laws(2,6) ceil(5) that by simp
    show ?thesis
    proof (cases "browserProcessBudget sample div ?b \<le> 1")
      case True
      then have "tp_workerTarget r' = 1" using t ok'(3) by simp
      then show ?thesis by simp
    next
      case False
      then have "tp_workerTarget r' * ?b \<le> (browserProcessBudget sample div ?b) * ?b"
        using t by (intro mult_right_mono) simp_all
      also have "\<dots> \<le> browserProcessBudget sample" by (subst mult.commute) (intro mult_div_le, simp)
      finally show ?thesis by simp
    qed
  qed
  have "tp_effectiveConcurrency r' = 1 \<and> tp_browserBudget r' = 1"
    if "memoryCeilingExceeded (po_MemoryCeilingBytes (tp_data r)) sample"
    using laws(1,4,5) that by (simp add: adaptiveWorkerConcurrency_def adaptiveBrowserBudget_def pool_ok_def Let_def)
  then show ?thesis using ok' eff le workers browsers by fastforce
qed

theorem adaptation_within_limits_witness:
  "tp_workerTarget (adaptTaskPool 5 None demo_sample demo_pool) = 1"
proof -
  have "memoryCeilingExceeded (po_MemoryCeilingBytes (tp_data demo_pool)) demo_sample"
    by (simp add: memoryCeilingExceeded_def demo_pool_simps demo_data_def demo_sample_def word_le_def word_less_def)
  then show ?thesis
    using adaptation_within_limits [OF pool_reach.start, of 5 None demo_sample 1 demo_data 4 demo_sample 20 0]
    unfolding demo_pool_def by blast
qed

text \<open>
  C36: trouble in a window never raises a budget. A failure or a refusal in the window leaves both
  the failure and the block budget where they were or lower, a refusal halves the block budget, a
  failing majority of at least two halves the failure budget; a budget rises by one step at most, and
  only after a clean window, at least 30 seconds after the last reduction, with the CPU below 70 percent.
\<close>

theorem budgets_rise_only_when_clean:
  fixes now t0 cfg pending cooldown :: int and read :: "int option" and sample sample0 :: workerResourceSample
  assumes "pool_reach (start_pool t0 d (plan_run d cfg sample0 pending) (desired_concurrency d cfg) cooldown) r"
  defines "r' \<equiv> adaptTaskPool now read sample r"
  shows "(0 < tp_windowFailures r \<or> 0 < tp_windowBlocks r \<longrightarrow>
      tp_failureBudget r' \<le> tp_failureBudget r \<and> tp_blockBudget r' \<le> tp_blockBudget r) \<and>
    (0 < tp_windowBlocks r \<longrightarrow> tp_blockBudget r' \<le> max 1 (tp_blockBudget r div 2)) \<and>
    (2 \<le> tp_windowFailures r \<and> tp_windowSuccesses r \<le> tp_windowFailures r \<longrightarrow>
      tp_failureBudget r' \<le> max 1 (tp_failureBudget r div 2)) \<and>
    (tp_failureBudget r < tp_failureBudget r' \<or> tp_blockBudget r < tp_blockBudget r' \<longrightarrow>
      tp_failureBudget r' \<le> tp_failureBudget r + 1 \<and> tp_blockBudget r' \<le> tp_blockBudget r + 1 \<and>
      tp_windowFailures r = 0 \<and> tp_windowBlocks r = 0 \<and> \<not> f64_le (Fin 70) (rs_CPUPercent sample) \<and>
      (tp_lastReductionAt r = 0 \<or> 30 * second \<le> now - tp_lastReductionAt r))"
proof -
  have ok: "pool_ok r" using pool_reach_ok [OF assms(1) start_pool_ok] .
  then have one: "1 \<le> tp_failureBudget r" "1 \<le> tp_blockBudget r" "1 \<le> tp_desiredConcurrency r"
    by (simp_all add: pool_ok_def)
  note f = decideFailureBudget_bounds [OF one(1,3), of "tp_windowFailures r" "tp_windowSuccesses r"]
  note b = decideBlockBudget_bounds [OF one(2,3), of "tp_windowBlocks r" "tp_windowFailures r + tp_windowSuccesses r"]
  obtain m where m: "tp_failureBudget r' = gated m (tp_failureBudget r) (decideFailureBudget (tp_failureBudget r)
        (tp_desiredConcurrency r) (tp_windowFailures r) (tp_windowSuccesses r))"
    "tp_blockBudget r' = gated m (tp_blockBudget r) (decideBlockBudget (tp_blockBudget r)
        (tp_desiredConcurrency r) (tp_windowBlocks r) (tp_windowFailures r + tp_windowSuccesses r))"
    "m \<longrightarrow> tp_windowFailures r = 0 \<and> tp_windowBlocks r = 0 \<and> recoveryCooldownElapsed now r \<and>
        \<not> f64_le (Fin 70) (rs_CPUPercent sample)"
    using tick_laws(7) [OF ok, of now read sample] unfolding r'_def by blast
  have half: "max 1 (x div 2) \<le> x" if "1 \<le> x" for x :: int using that by simp
  show ?thesis
  proof (cases m)
    case True
    then show ?thesis using m f(3) b(3) by (auto simp: gated_def recoveryCooldownElapsed_def split: if_splits)
  next
    case False
    then have "tp_failureBudget r' \<le> tp_failureBudget r" "tp_blockBudget r' \<le> tp_blockBudget r"
      using m(1,2) by (auto simp: gated_def)
    moreover have "tp_blockBudget r' \<le> max 1 (tp_blockBudget r div 2)" if "0 < tp_windowBlocks r"
      using b(4) [OF that] half [OF one(2)] m(2) by (auto simp: gated_def)
    moreover have "tp_failureBudget r' \<le> max 1 (tp_failureBudget r div 2)"
      if "2 \<le> tp_windowFailures r" "tp_windowSuccesses r \<le> tp_windowFailures r"
      using f(5) [OF that] half [OF one(1)] m(1) by (auto simp: gated_def)
    ultimately show ?thesis by auto
  qed
qed


theorem budgets_rise_only_when_clean_witness:
  "tp_blockBudget (adaptTaskPool 5 None demo_sample (demo_pool\<lparr>tp_windowBlocks := 1\<rparr>)) \<le> 4"
proof -
  have "pool_step demo_pool (demo_pool\<lparr>tp_windowBlocks := 1\<rparr>)"
    using pool_step.block [of demo_pool] by (simp add: demo_pool_simps)
  then have "pool_reach demo_pool (demo_pool\<lparr>tp_windowBlocks := 1\<rparr>)" by (blast intro: pool_reach.intros)
  from budgets_rise_only_when_clean [OF this [unfolded demo_pool_def], of 5 None demo_sample]
  show ?thesis unfolding demo_pool_def [symmetric] by (simp add: demo_pool_simps)
qed

end
