(* ===== verification/PoolWorkers.thy ===== *)
theory PoolWorkers
  imports AdaptiveProperties
begin

text \<open>
  The task workers of a pool next to its supervisor: the claim loop of \<open>runTaskWorker\<close> in
  \<open>runner/webrunner/task_pool.go\<close> with its ways out (retirement, a drained plan, a stop), the
  goroutine group \<open>dynamicWorkerGroup\<close>, and the adaptation ticks in between. A step is one
  action of one worker or one tick; the plan is the number of its pending tasks.
\<close>

section \<open>Workers\<close>

text \<open>
  \<open>Claimed\<close> is a worker that holds a lease and has not counted itself in \<open>activeTasks\<close> yet: it is
  sampling the host and choosing proxies.
\<close>

datatype worker = Looking | Claimed | Active | Gone

text \<open>\<open>ps_left\<close> counts the workers that left otherwise than by retirement.\<close>

record pool_system =
  ps_run :: taskPoolRun
  ps_workers :: "worker list"
  ps_pending :: nat
  ps_left :: nat

fun live :: "worker \<Rightarrow> int" where
  "live Gone = 0"
| "live _ = 1"

definition live_workers :: "pool_system \<Rightarrow> int" where
  "live_workers s = sum_list (map live (ps_workers s))"

text \<open>\<open>dynamicWorkerGroup.finish\<close> and the end of \<open>dynamicWorkerGroup.wait\<close>.\<close>

definition finish :: "dynamicWorkerGroup \<Rightarrow> dynamicWorkerGroup" where
  "finish g = g\<lparr>dg_running := dg_running g - 1\<rparr>"

definition wait_ends :: "dynamicWorkerGroup \<Rightarrow> dynamicWorkerGroup option" where
  "wait_ends g = (if 0 < dg_running g then None else Some (g\<lparr>dg_closed := True\<rparr>))"

definition leave :: "taskPoolRun \<Rightarrow> taskPoolRun" where
  "leave r = r\<lparr>tp_group := finish (tp_group r)\<rparr>"

inductive worker_step :: "pool_system \<Rightarrow> pool_system \<Rightarrow> bool" where
  claim: "ps_workers s = us @ Looking # vs \<Longrightarrow> 0 < ps_pending s \<Longrightarrow> currentStop (ps_run s) = StopReasonNone \<Longrightarrow>
    worker_step s (s\<lparr>ps_workers := us @ Claimed # vs, ps_pending := ps_pending s - 1\<rparr>)"
| activate: "ps_workers s = us @ Claimed # vs \<Longrightarrow>
    worker_step s (s\<lparr>ps_workers := us @ Active # vs\<rparr>)"
| conclude: "ps_workers s = us @ w # vs \<Longrightarrow> w = Claimed \<or> w = Active \<Longrightarrow>
    worker_step s (s\<lparr>ps_workers := us @ Looking # vs, ps_pending := ps_pending s + requeued\<rparr>)"
| retire: "ps_workers s = us @ Looking # vs \<Longrightarrow> retireWorker now (ps_run s) = Some r \<Longrightarrow>
    worker_step s (s\<lparr>ps_workers := us @ Gone # vs, ps_run := leave r\<rparr>)"
| stopped: "ps_workers s = us @ Looking # vs \<Longrightarrow> currentStop (ps_run s) \<noteq> StopReasonNone \<Longrightarrow>
    worker_step s (s\<lparr>ps_workers := us @ Gone # vs, ps_run := leave (ps_run s), ps_left := ps_left s + 1\<rparr>)"
| drained: "ps_workers s = us @ Looking # vs \<Longrightarrow> Active \<notin> set (ps_workers s) \<Longrightarrow>
    read_failed \<or> ps_pending s = 0 \<Longrightarrow>
    worker_step s (s\<lparr>ps_workers := us @ Gone # vs, ps_run := leave (ps_run s), ps_left := ps_left s + 1\<rparr>)"
| supervise: "worker_step s (s\<lparr>ps_run := adaptTaskPool now read sample (ps_run s),
    ps_workers := ps_workers s @
      replicate (nat (tp_workers (adaptTaskPool now read sample (ps_run s)) - tp_workers (ps_run s))) Looking\<rparr>)"
| window: "worker_step s (s\<lparr>ps_run := (ps_run s)\<lparr>tp_windowFailures := tp_windowFailures (ps_run s) + f,
    tp_windowSuccesses := tp_windowSuccesses (ps_run s) + c, tp_windowBlocks := tp_windowBlocks (ps_run s) + b\<rparr>\<rparr>)"
  if "0 \<le> f" "0 \<le> c" "0 \<le> b"
| stop: "worker_step s (s\<lparr>ps_run := snd (requestStop reason (ps_run s))\<rparr>)"
| closed: "wait_ends (tp_group (ps_run s)) = Some g \<Longrightarrow>
    worker_step s (s\<lparr>ps_run := (ps_run s)\<lparr>tp_group := g\<rparr>\<rparr>)"

inductive worker_reach :: "pool_system \<Rightarrow> pool_system \<Rightarrow> bool" where
  start: "worker_reach s s"
| step: "worker_reach s t \<Longrightarrow> worker_step t u \<Longrightarrow> worker_reach s u"

definition pool_start :: "taskPoolRun \<Rightarrow> nat \<Rightarrow> pool_system" where
  "pool_start r pending = \<lparr>ps_run = r, ps_workers = replicate (nat (tp_workers r)) Looking,
     ps_pending = pending, ps_left = 0\<rparr>"

section \<open>The invariant\<close>

definition crew_ok :: "pool_system \<Rightarrow> bool" where
  "crew_ok s \<longleftrightarrow> pool_ok (ps_run s) \<and> tp_workers (ps_run s) = live_workers s + int (ps_left s) \<and>
     dg_running (tp_group (ps_run s)) = live_workers s \<and>
     (dg_closed (tp_group (ps_run s)) \<longrightarrow> live_workers s = 0)"

lemma live_sum_nonneg: "0 \<le> sum_list (map live ws)"
proof (induction ws)
  case (Cons w ws)
  then show ?case by (cases w) simp_all
qed simp

lemma live_workers_at:
  "ps_workers s = us @ w # vs \<Longrightarrow> live_workers s = live w + (sum_list (map live us) + sum_list (map live vs))"
  by (simp add: live_workers_def)

lemma sum_list_replicate_live: "sum_list (map live (replicate n Looking)) = int n"
  by (induction n) simp_all

lemma worker_step_ok: "worker_step s t \<Longrightarrow> crew_ok s \<Longrightarrow> crew_ok t"
proof (induction rule: worker_step.induct)
  case (retire s us vs now r)
  have "tp_workers (ps_run s) = 1 + (sum_list (map live us) + sum_list (map live vs)) + int (ps_left s)"
    using retire live_workers_at [OF retire(1)] by (simp add: crew_ok_def)
  then show ?case
    using retire live_workers_at [OF retire(1)] live_sum_nonneg [of us] live_sum_nonneg [of vs]
    by (auto simp: crew_ok_def live_workers_def retireWorker_def leave_def finish_def pool_ok_def split: if_splits)
next
  case (drained s us vs read_failed)
  then show ?case
    using live_workers_at [OF drained(1)] live_sum_nonneg [of us] live_sum_nonneg [of vs]
    by (auto simp: crew_ok_def live_workers_def leave_def finish_def pool_ok_def)
next
  case (stopped s us vs)
  then show ?case
    using live_workers_at [OF stopped(1)] live_sum_nonneg [of us] live_sum_nonneg [of vs]
    by (auto simp: crew_ok_def live_workers_def leave_def finish_def pool_ok_def)
next
  case (supervise s now read sample)
  have ok: "pool_ok (ps_run s)" using supervise by (simp add: crew_ok_def)
  define r' where "r' = adaptTaskPool now read sample (ps_run s)"
  note laws = tick_laws(1,8-10) [OF ok, of now read sample, folded r'_def]
  have "live_workers (s\<lparr>ps_run := r', ps_workers := ps_workers s @
      replicate (nat (tp_workers r' - tp_workers (ps_run s))) Looking\<rparr>) =
      live_workers s + (tp_workers r' - tp_workers (ps_run s))"
    using laws(3) by (simp add: live_workers_def sum_list_replicate_live del: map_replicate)
  then show ?case
    using supervise laws(1,2,4) unfolding r'_def [symmetric] by (auto simp: crew_ok_def crew_def)
next
  case (closed s g)
  then show ?case
    using live_sum_nonneg [of "ps_workers s"]
    by (auto simp: crew_ok_def live_workers_def wait_ends_def pool_ok_def split: if_splits)
qed (auto simp: crew_ok_def live_workers_def pool_ok_def requestStop_def)

lemma worker_reach_ok: "worker_reach s t \<Longrightarrow> crew_ok s \<Longrightarrow> crew_ok t"
  by (induction rule: worker_reach.induct) (auto intro: worker_step_ok)

lemma pool_start_ok:
  assumes "pool_ok r" "dg_running (tp_group r) = tp_workers r" "\<not> dg_closed (tp_group r)"
  shows "crew_ok (pool_start r pending)"
  using assms by (simp add: crew_ok_def pool_start_def live_workers_def sum_list_replicate_live pool_ok_def
      del: map_replicate)

section \<open>An early exit and a retirement\<close>

text \<open>
  A worker that leaves because the plan looks drained stays in the worker counter. Here two workers
  share one task: one leaves while the other holds the task but has not counted itself active. The
  tick then wants one worker; the task comes back to the queue, and the last worker retires, for the
  counter still says two. The pool ends with the task pending.
\<close>

lemma last_worker_can_retire:
  assumes ok: "pool_ok r" and r: "tp_workers r = 2" "currentStop r = StopReasonNone"
    and cap: "memoryCeilingExceeded (po_MemoryCeilingBytes (tp_data r)) sample"
  shows "\<exists>s. worker_reach (pool_start r 1) s \<and> live_workers s = 0 \<and> ps_pending s = 1"
proof -
  define st where "st q ws p d = \<lparr>ps_run = q, ps_workers = ws, ps_pending = p, ps_left = d\<rparr>" for q ws p d
  define r1 where "r1 = leave r"
  define r2 where "r2 = adaptTaskPool 0 None sample r1"
  have ok1: "pool_ok r1" using ok by (simp add: pool_ok_def r1_def leave_def)
  note laws = tick_laws [OF ok1, of 0 None sample, folded r2_def]
  have eff: "tp_effectiveConcurrency r2 = 1"
    using laws(1,4) cap by (simp add: adaptiveWorkerConcurrency_def pool_ok_def r1_def leave_def Let_def)
  have ceil: "fst (workerCeilingForRun r2 sample (tp_effectiveConcurrency r2)) \<le> 1"
    using workerCeiling_bounds(2) [of r2 sample "tp_effectiveConcurrency r2"] eff by simp
  have target: "tp_workerTarget r2 = 1" using laws(1,6) ceil by (simp add: pool_ok_def)
  have workers: "tp_workers r2 = 2" "tp_workers r1 = 2"
    using laws(11) ceil r(1) by (simp_all add: r1_def leave_def)
  obtain r3 where r3: "retireWorker 1 r2 = Some r3"
    using workers target by (simp add: retireWorker_def)
  have "pool_start r 1 = st r [Looking, Looking] 1 0"
    using r(1) by (simp add: pool_start_def st_def numeral_2_eq_2)
  moreover have "worker_step (st r [Looking, Looking] 1 0) (st r [Claimed, Looking] 0 0)"
    using worker_step.claim [of "st r [Looking, Looking] 1 0" "[]" "[Looking]"] r(2) by (simp add: st_def)
  moreover have "worker_step (st r [Claimed, Looking] 0 0) (st r1 [Claimed, Gone] 0 1)"
    using worker_step.drained [of "st r [Claimed, Looking] 0 0" "[Claimed]" "[]"] by (simp add: st_def r1_def)
  moreover have "worker_step (st r1 [Claimed, Gone] 0 1) (st r2 [Claimed, Gone] 0 1)"
    using worker_step.supervise [of "st r1 [Claimed, Gone] 0 1" 0 None sample] workers
    by (simp add: st_def r2_def [symmetric])
  moreover have "worker_step (st r2 [Claimed, Gone] 0 1) (st r2 [Looking, Gone] 1 1)"
    using worker_step.conclude [of "st r2 [Claimed, Gone] 0 1" "[]" Claimed "[Gone]" 1] by (simp add: st_def)
  moreover have "worker_step (st r2 [Looking, Gone] 1 1) (st (leave r3) [Gone, Gone] 1 1)"
    using worker_step.retire [of "st r2 [Looking, Gone] 1 1" "[]" "[Gone]" 1 r3] r3 by (simp add: st_def)
  ultimately have "worker_reach (pool_start r 1) (st (leave r3) [Gone, Gone] 1 1)"
    by (metis worker_reach.intros)
  then show ?thesis by (intro exI [of _ "st (leave r3) [Gone, Gone] 1 1"]) (simp add: st_def live_workers_def)
qed

section \<open>Properties\<close>

text \<open>
  C19: in every interleaving of claiming, finishing, retiring and leaving workers with the ticks of the
  adaptation, the goroutine group counts exactly the workers that are there; retirement alone never
  empties the pool: while no worker has left for a stop or a drained plan, at least one is there and the
  pool is open; and a closed pool has no worker and starts none.
\<close>

theorem retirement_keeps_a_worker:
  fixes t0 cfg planned cooldown :: int and sample0 :: workerResourceSample
  assumes "worker_reach (pool_start (start_pool t0 d (plan_run d cfg sample0 planned)
      (desired_concurrency d cfg) cooldown) pending) s"
  shows "dg_running (tp_group (ps_run s)) = live_workers s \<and>
    tp_workers (ps_run s) = live_workers s + int (ps_left s) \<and>
    (ps_left s = 0 \<longrightarrow> 1 \<le> live_workers s \<and> \<not> dg_closed (tp_group (ps_run s))) \<and>
    (dg_closed (tp_group (ps_run s)) \<longrightarrow> live_workers s = 0 \<and> spawn (tp_group (ps_run s)) = None)"
proof -
  have "crew_ok s"
    using worker_reach_ok [OF assms pool_start_ok [OF start_pool_ok]] by (simp add: start_pool_def)
  moreover from this have "1 \<le> tp_workers (ps_run s)" by (simp add: crew_ok_def pool_ok_def)
  ultimately show ?thesis by (auto simp: crew_ok_def spawn_def)
qed

theorem retirement_keeps_a_worker_witness:
  "\<exists>s. worker_reach (pool_start demo_pool 2) s \<and> ps_pending s = 1 \<and> 1 \<le> live_workers s"
proof -
  have one: "1 \<le> tp_workers demo_pool"
    using start_pool_ok [of 1 demo_data 4 demo_sample 20 0] by (simp add: demo_pool_def pool_ok_def)
  define ws where "ws = replicate (nat (tp_workers demo_pool - 1)) Looking"
  have "replicate (nat (tp_workers demo_pool)) Looking = [] @ Looking # ws"
    using one by (cases "nat (tp_workers demo_pool)") (simp_all add: ws_def nat_diff_distrib)
  then have "worker_step (pool_start demo_pool 2) (\<lparr>ps_run = demo_pool, ps_workers = [] @ Claimed # ws,
      ps_pending = 1, ps_left = 0\<rparr>)" (is "worker_step _ ?s")
    using worker_step.claim [of "pool_start demo_pool 2" "[]" ws]
    by (simp add: pool_start_def currentStop_def demo_pool_def start_pool_def)
  then have "worker_reach (pool_start demo_pool 2) ?s" by (meson worker_reach.intros)
  moreover from retirement_keeps_a_worker [OF this [unfolded demo_pool_def]]
  have "1 \<le> live_workers ?s" by (simp add: demo_pool_def)
  ultimately show ?thesis by (intro exI [of _ ?s]) simp
qed

end
