(* ===== verification/LiveRun.thy ===== *)
theory LiveRun
  imports Adaptive TaskPlan GoFloat GoStrings
begin

text \<open>
  What a run reconfigures between its tasks: \<open>liveRunState\<close> of \<open>runner/webrunner/live_run.go\<close> (the
  extendable deadline, the proxy plan with its per-proxy record, the marks of retry-current) and the
  operator's durable requests it polls, from \<open>web/live_controls.go\<close> and \<open>web/sqlite/live_controls.go\<close>.
  Each method holds a mutex for its whole body, so it is one function here; \<open>int64\<close> values that are
  added to are words, Go \<open>int\<close> counters are \<open>int\<close>.
\<close>

section \<open>State\<close>

record ProxyPlan =
  pn_PoolID :: string
  pn_Strategy :: string
  pn_Proxies :: "string list"
  pn_MaxTasksPerProxy :: int

record proxyRunState =
  ps_tasks :: int
  ps_failed :: bool
  ps_id :: string
  ps_consecutiveFailures :: int
  ps_successes :: int
  ps_failures :: int

record ProxyTaskHealth =
  ph_ProxyID :: string
  ph_ConsecutiveFailures :: int
  ph_Successes :: int
  ph_Failures :: int

text \<open>The two maps keyed by task are the lists of their keys; a cancel function is its task's key.\<close>

record liveRunState =
  lr_deadlineUnixNano :: int64
  lr_appliedExtension :: int64
  lr_proxyPlan :: "ProxyPlan option"
  lr_direct :: bool
  lr_perProxy :: "proxyRunState list"
  lr_rotation :: nat
  lr_taskCancels :: "string list"
  lr_retryFlags :: "string list"

definition fresh_proxy :: proxyRunState where
  "fresh_proxy = \<lparr>ps_tasks = 0, ps_failed = False, ps_id = [], ps_consecutiveFailures = 0,
     ps_successes = 0, ps_failures = 0\<rparr>"

definition failureRate :: "proxyRunState \<Rightarrow> f64" where
  "failureRate r =
     (let attempted = ps_successes r + ps_failures r
      in if attempted = 0 then Fin 0 else f64_div (f64_of_int (ps_failures r)) (f64_of_int attempted))"

definition newLiveRunState :: "int64 \<Rightarrow> liveRunState" where
  "newLiveRunState deadline =
     \<lparr>lr_deadlineUnixNano = deadline, lr_appliedExtension = 0, lr_proxyPlan = None, lr_direct = False,
      lr_perProxy = [], lr_rotation = 0, lr_taskCancels = [], lr_retryFlags = []\<rparr>"

section \<open>The deadline\<close>

definition applyExtension :: "int64 \<Rightarrow> liveRunState \<Rightarrow> int64 \<times> liveRunState" where
  "applyExtension totalExtensionSeconds s =
     (if totalExtensionSeconds \<le>s lr_appliedExtension s then (0, s)
      else
        let delta = totalExtensionSeconds - lr_appliedExtension s
        in (delta, s\<lparr>lr_appliedExtension := totalExtensionSeconds,
              lr_deadlineUnixNano := lr_deadlineUnixNano s + delta * 1000000000\<rparr>))"

section \<open>The proxy plan\<close>

definition setProxyPlan :: "ProxyPlan option \<Rightarrow> bool \<Rightarrow> liveRunState \<Rightarrow> liveRunState" where
  "setProxyPlan plan direct s =
     s\<lparr>lr_direct := direct, lr_proxyPlan := plan, lr_rotation := 0,
       lr_perProxy := (case plan of None \<Rightarrow> [] | Some p \<Rightarrow> replicate (length (pn_Proxies p)) fresh_proxy)\<rparr>"

definition with_health :: "ProxyTaskHealth \<Rightarrow> proxyRunState \<Rightarrow> proxyRunState" where
  "with_health e r =
     r\<lparr>ps_id := ph_ProxyID e, ps_consecutiveFailures := ph_ConsecutiveFailures e,
       ps_successes := ph_Successes e, ps_failures := ph_Failures e\<rparr>"

definition applyProxyHealth :: "(string \<times> ProxyTaskHealth) list \<Rightarrow> liveRunState \<Rightarrow> liveRunState" where
  "applyProxyHealth health s =
     (case lr_proxyPlan s of
        None \<Rightarrow> s
      | Some plan \<Rightarrow>
          s\<lparr>lr_perProxy :=
              map (\<lambda>(url, r). case map_of health url of None \<Rightarrow> r | Some e \<Rightarrow> with_health e r)
                (zip (pn_Proxies plan) (lr_perProxy s)) @ drop (length (pn_Proxies plan)) (lr_perProxy s)\<rparr>)"

definition after_outcome :: "bool \<Rightarrow> proxyRunState \<Rightarrow> proxyRunState" where
  "after_outcome success r =
     (if success then r\<lparr>ps_successes := ps_successes r + 1, ps_consecutiveFailures := 0\<rparr>
      else r\<lparr>ps_failures := ps_failures r + 1, ps_consecutiveFailures := ps_consecutiveFailures r + 1\<rparr>)"

definition in_range :: "int \<Rightarrow> 'a list \<Rightarrow> bool" where
  "in_range index xs \<longleftrightarrow> 0 \<le> index \<and> index < int (length xs)"

definition recordProxyOutcome :: "int \<Rightarrow> bool \<Rightarrow> liveRunState \<Rightarrow> liveRunState" where
  "recordProxyOutcome index success s =
     (if \<not> in_range index (lr_perProxy s) then s
      else s\<lparr>lr_perProxy := (lr_perProxy s)
               [nat index := after_outcome success (lr_perProxy s ! nat index)]\<rparr>)"

definition DirectConnectionPool :: string where
  "DirectConnectionPool = ''direct''"

definition currentPoolID :: "liveRunState \<Rightarrow> string" where
  "currentPoolID s =
     (if lr_direct s then DirectConnectionPool
      else case lr_proxyPlan s of None \<Rightarrow> [] | Some plan \<Rightarrow> pn_PoolID plan)"

section \<open>Assigning proxies to a task\<close>

record taskProxyAssignment =
  pa_override :: bool
  pa_proxies :: "string list"
  pa_index :: int
  pa_statsIndex :: int
  pa_statsProxyID :: string

text \<open>\<open>Index_panic\<close> is the run-time panic of an index out of range.\<close>

datatype assign_error = errNoUsableProxies | Index_panic

definition unattributed :: "bool \<Rightarrow> taskProxyAssignment" where
  "unattributed override =
     \<lparr>pa_override = override, pa_proxies = [], pa_index = -1, pa_statsIndex = -1, pa_statsProxyID = []\<rparr>"

text \<open>A proxy is skipped once it failed or has run as many tasks as the plan allows it.\<close>

definition capped :: "ProxyPlan \<Rightarrow> proxyRunState \<Rightarrow> bool" where
  "capped plan r \<longleftrightarrow> 0 < pn_MaxTasksPerProxy plan \<and> pn_MaxTasksPerProxy plan \<le> ps_tasks r"

definition usable_proxies :: "ProxyPlan \<Rightarrow> proxyRunState list \<Rightarrow> nat list" where
  "usable_proxies plan perProxy =
     filter (\<lambda>i. \<not> ps_failed (perProxy ! i) \<and> \<not> capped plan (perProxy ! i)) [0..<length (pn_Proxies plan)]"

definition healthDifferentiatesLocked :: "proxyRunState list \<Rightarrow> nat list \<Rightarrow> bool" where
  "healthDifferentiatesLocked perProxy usable =
     (if length usable < 2 then False
      else
        let reference = perProxy ! hd usable
        in list_ex (\<lambda>i. ps_consecutiveFailures (perProxy ! i) \<noteq> ps_consecutiveFailures reference
             \<or> failureRate (perProxy ! i) \<noteq> failureRate reference) (tl usable))"

definition healthier :: "proxyRunState list \<Rightarrow> nat \<Rightarrow> nat \<Rightarrow> bool" where
  "healthier perProxy a b \<longleftrightarrow>
     (if ps_consecutiveFailures (perProxy ! a) \<noteq> ps_consecutiveFailures (perProxy ! b)
      then ps_consecutiveFailures (perProxy ! a) < ps_consecutiveFailures (perProxy ! b)
      else f64_less (failureRate (perProxy ! a)) (failureRate (perProxy ! b)))"

definition rotated :: "nat \<Rightarrow> 'a list \<Rightarrow> 'a list" where
  "rotated offset xs = map (\<lambda>position. xs ! ((position + offset) mod length xs)) [0..<length xs]"

text \<open>The candidates of a pool that is not sticky, and the rotation afterwards.\<close>

definition ordered_candidates :: "liveRunState \<Rightarrow> nat list \<Rightarrow> nat list \<times> nat" where
  "ordered_candidates s usable =
     (if healthDifferentiatesLocked (lr_perProxy s) usable
      then (SliceStable (healthier (lr_perProxy s)) usable, lr_rotation s)
      else (rotated (lr_rotation s mod length usable) usable, lr_rotation s + 1))"

text \<open>\<open>hash/fnv\<close>, FNV-1a with 32 bits: the byte is added before the multiplication.\<close>

definition fnv32a :: "string \<Rightarrow> 32 word" where
  "fnv32a key = foldl (\<lambda>h c. (h XOR of_char c) * 16777619) 2166136261 key"

definition sticky_plan :: "ProxyPlan \<Rightarrow> bool" where
  "sticky_plan plan \<longleftrightarrow> pn_Strategy plan = ''sticky_query'' \<or> pn_Strategy plan = ''sticky_cell''"

definition sticky_key :: "ProxyPlan \<Rightarrow> JobTask \<Rightarrow> string" where
  "sticky_key plan task =
     (let key = (if pn_Strategy plan = ''sticky_cell'' \<and> TrimSpace (jt_SourceCell task) \<noteq> []
                 then jt_SourceCell task else jt_Query task)
      in if TrimSpace key = [] then jt_Key task else key)"

definition sticky_choice :: "ProxyPlan \<Rightarrow> JobTask \<Rightarrow> nat list \<Rightarrow> nat" where
  "sticky_choice plan task usable =
     usable ! (unat (fnv32a (sticky_key plan task)) mod length usable)"

definition count_task :: "nat \<Rightarrow> liveRunState \<Rightarrow> liveRunState" where
  "count_task i s =
     s\<lparr>lr_perProxy := (lr_perProxy s)[i := (lr_perProxy s ! i)\<lparr>ps_tasks := ps_tasks (lr_perProxy s ! i) + 1\<rparr>]\<rparr>"

definition assigned :: "ProxyPlan \<Rightarrow> liveRunState \<Rightarrow> nat list \<Rightarrow> int \<Rightarrow> taskProxyAssignment" where
  "assigned plan s candidates index =
     \<lparr>pa_override = True, pa_proxies = map (\<lambda>i. pn_Proxies plan ! i) candidates, pa_index = index,
      pa_statsIndex = int (hd candidates), pa_statsProxyID = ps_id (lr_perProxy s ! hd candidates)\<rparr>"

definition assignTaskProxies ::
  "JobTask \<Rightarrow> liveRunState \<Rightarrow> (assign_error + taskProxyAssignment) \<times> liveRunState" where
  "assignTaskProxies task s =
     (if lr_direct s then (Inr (unattributed True), s)
      else case lr_proxyPlan s of
        None \<Rightarrow> (Inr (unattributed False), s)
      | Some plan \<Rightarrow>
          if length (lr_perProxy s) < length (pn_Proxies plan) then (Inl Index_panic, s)
          else
            let usable = usable_proxies plan (lr_perProxy s)
            in if usable = [] then (Inl errNoUsableProxies, s)
               else if \<not> sticky_plan plan
               then
                 let (candidates, rotation) = ordered_candidates s usable
                 in (Inr (assigned plan s candidates (-1)),
                     count_task (hd candidates) (s\<lparr>lr_rotation := rotation\<rparr>))
               else
                 let chosen = sticky_choice plan task usable
                 in (Inr (assigned plan s [chosen] (int chosen)), count_task chosen s))"

definition markProxyFailed :: "int \<Rightarrow> liveRunState \<Rightarrow> bool \<times> liveRunState" where
  "markProxyFailed index s =
     (case lr_proxyPlan s of
        None \<Rightarrow> (False, s)
      | Some plan \<Rightarrow>
          if \<not> in_range index (lr_perProxy s) then (False, s)
          else
            let perProxy = (lr_perProxy s)[nat index := (lr_perProxy s ! nat index)\<lparr>ps_failed := True\<rparr>]
            in (list_all (\<lambda>r. ps_failed r \<or> capped plan r) perProxy, s\<lparr>lr_perProxy := perProxy\<rparr>))"

section \<open>Retrying the current tasks\<close>

definition registerTaskCancel :: "string \<Rightarrow> liveRunState \<Rightarrow> liveRunState" where
  "registerTaskCancel key s = s\<lparr>lr_taskCancels := List.insert key (lr_taskCancels s)\<rparr>"

definition unregisterTaskCancel :: "string \<Rightarrow> liveRunState \<Rightarrow> liveRunState" where
  "unregisterTaskCancel key s = s\<lparr>lr_taskCancels := removeAll key (lr_taskCancels s)\<rparr>"

text \<open>The cancel functions of all registered tasks are called; the result counts them.\<close>

definition retryCurrentTasks :: "liveRunState \<Rightarrow> int \<times> liveRunState" where
  "retryCurrentTasks s =
     (int (length (lr_taskCancels s)),
      s\<lparr>lr_retryFlags := fold List.insert (lr_taskCancels s) (lr_retryFlags s)\<rparr>)"

definition consumeRetryFlag :: "string \<Rightarrow> liveRunState \<Rightarrow> bool \<times> liveRunState" where
  "consumeRetryFlag key s =
     (if key \<notin> set (lr_retryFlags s) then (False, s)
      else (True, s\<lparr>lr_retryFlags := removeAll key (lr_retryFlags s)\<rparr>))"

end
