(* ===== verification/LiveControls.thy ===== *)
theory LiveControls
  imports LiveRun Progress
begin

text \<open>
  The operator's durable requests to a running job: the service checks of \<open>web/live_controls.go\<close>, the
  four columns of \<open>job_runtime\<close> that \<open>web/sqlite/live_controls.go\<close> keeps them in (no other statement
  touches these columns) with their audit rows, and the supervisor's \<open>pollLiveControls\<close> and
  \<open>switchRunProxyPool\<close> of \<open>live_run.go\<close>. What a pool resolves to is a parameter: its proxies are stored
  encrypted.
\<close>

section \<open>The stored requests\<close>

record JobLiveControls =
  lc_JobID :: string
  lc_ExtendedSeconds :: int64
  lc_ConcurrencyOverride :: int
  lc_ProxyPoolOverride :: string
  lc_RetryCurrentRequested :: bool

datatype live_detail = NoDetail | Seconds int64 | Concurrency int | PoolID string

record LiveAudit =
  la_action :: string
  la_entity :: string
  la_detail :: live_detail

record ControlStore =
  cs_rows :: "JobLiveControls list"
  cs_audit :: "LiveAudit list"

datatype live_error = Live_repo repo_error | ErrInvalidLiveControl string

definition read_controls :: "string \<Rightarrow> ControlStore \<Rightarrow> live_error + JobLiveControls" where
  "read_controls job cs =
     (case find (\<lambda>r. lc_JobID r = job) (cs_rows cs) of
        None \<Rightarrow> Inl (Live_repo (ErrLifecycleNotFound job))
      | Some r \<Rightarrow> Inr r)"

text \<open>One \<open>UPDATE\<close> and its audit row in a transaction.\<close>

definition applyLiveControl ::
  "string \<Rightarrow> string \<Rightarrow> live_detail \<Rightarrow> (JobLiveControls \<Rightarrow> JobLiveControls) \<Rightarrow> ControlStore \<Rightarrow>
   (live_error + unit) \<times> ControlStore" where
  "applyLiveControl job action detail change cs =
     (if count_where (\<lambda>r. lc_JobID r = job) (cs_rows cs) = 0
      then (Inl (Live_repo (ErrLifecycleNotFound job)), cs)
      else (Inr (),
        cs\<lparr>cs_rows := update_where (\<lambda>r. lc_JobID r = job) change (cs_rows cs),
           cs_audit := cs_audit cs @ [\<lparr>la_action = action, la_entity = job, la_detail = detail\<rparr>]\<rparr>))"

definition repo_ExtendJobRuntime :: "string \<Rightarrow> int64 \<Rightarrow> ControlStore \<Rightarrow> (live_error + unit) \<times> ControlStore" where
  "repo_ExtendJobRuntime job seconds =
     applyLiveControl job ''job_runtime_extended'' (Seconds seconds)
       (\<lambda>r. r\<lparr>lc_ExtendedSeconds := lc_ExtendedSeconds r + seconds\<rparr>)"

definition repo_SetJobConcurrencyOverride ::
  "string \<Rightarrow> int \<Rightarrow> ControlStore \<Rightarrow> (live_error + unit) \<times> ControlStore" where
  "repo_SetJobConcurrencyOverride job concurrency =
     applyLiveControl job ''job_concurrency_override'' (Concurrency concurrency)
       (\<lambda>r. r\<lparr>lc_ConcurrencyOverride := concurrency\<rparr>)"

definition repo_SetJobProxyPoolOverride ::
  "string \<Rightarrow> string \<Rightarrow> ControlStore \<Rightarrow> (live_error + unit) \<times> ControlStore" where
  "repo_SetJobProxyPoolOverride job pool =
     applyLiveControl job ''job_proxy_pool_override'' (PoolID pool) (\<lambda>r. r\<lparr>lc_ProxyPoolOverride := pool\<rparr>)"

definition RequestJobRetryCurrent :: "string \<Rightarrow> ControlStore \<Rightarrow> (live_error + unit) \<times> ControlStore" where
  "RequestJobRetryCurrent job =
     applyLiveControl job ''job_retry_current_requested'' NoDetail (\<lambda>r. r\<lparr>lc_RetryCurrentRequested := True\<rparr>)"

definition retry_pending :: "string \<Rightarrow> JobLiveControls \<Rightarrow> bool" where
  "retry_pending job r \<longleftrightarrow> lc_JobID r = job \<and> lc_RetryCurrentRequested r"

definition ConsumeJobRetryCurrent :: "string \<Rightarrow> ControlStore \<Rightarrow> bool \<times> ControlStore" where
  "ConsumeJobRetryCurrent job cs =
     (count_where (retry_pending job) (cs_rows cs) = 1,
      cs\<lparr>cs_rows := update_where (retry_pending job) (\<lambda>r. r\<lparr>lc_RetryCurrentRequested := False\<rparr>) (cs_rows cs)\<rparr>)"

definition ResetJobLiveControls :: "string \<Rightarrow> ControlStore \<Rightarrow> ControlStore" where
  "ResetJobLiveControls job cs =
     cs\<lparr>cs_rows := update_where (\<lambda>r. lc_JobID r = job)
          (\<lambda>r. r\<lparr>lc_ExtendedSeconds := 0, lc_ConcurrencyOverride := 0, lc_ProxyPoolOverride := [],
                 lc_RetryCurrentRequested := False\<rparr>) (cs_rows cs)\<rparr>"

section \<open>The service in front of them\<close>

definition minute :: int64 where "minute = 60 * 1000000000"

definition hour :: int64 where "hour = 3600 * 1000000000"

text \<open>\<open>int64(extra.Seconds())\<close>\<close>

definition whole_seconds :: "int64 \<Rightarrow> int64" where
  "whole_seconds extra = int64_of_f64 (Duration_Seconds extra)"

definition ExtendJobRuntime :: "string \<Rightarrow> int64 \<Rightarrow> ControlStore \<Rightarrow> (live_error + unit) \<times> ControlStore" where
  "ExtendJobRuntime job extra cs =
     (if extra <s minute \<or> 6 * hour <s extra
      then (Inl (ErrInvalidLiveControl ''runtime extension must be between 1m and 6h''), cs)
      else repo_ExtendJobRuntime job (whole_seconds extra) cs)"

definition SetJobConcurrencyOverride :: "string \<Rightarrow> int \<Rightarrow> ControlStore \<Rightarrow> (live_error + unit) \<times> ControlStore" where
  "SetJobConcurrencyOverride job concurrency cs =
     (if concurrency < 0 \<or> 64 < concurrency
      then (Inl (ErrInvalidLiveControl ''concurrency must be between 1 and 64''), cs)
      else repo_SetJobConcurrencyOverride job concurrency cs)"

text \<open>\<open>pool\<close> answers what \<open>ResolveProxyPool\<close> finds, \<open>None\<close> for its error.\<close>

definition SetJobProxyPoolOverride ::
  "(string \<Rightarrow> string list option) \<Rightarrow> string \<Rightarrow> string \<Rightarrow> ControlStore \<Rightarrow> (live_error + unit) \<times> ControlStore" where
  "SetJobProxyPoolOverride pool job requested cs =
     (let poolID = TrimSpace requested
      in if 64 < length poolID \<or> list_ex (\<lambda>c. of_char c \<in> {0 :: nat, 13, 10}) poolID
         then (Inl (ErrInvalidLiveControl ''invalid proxy pool''), cs)
         else if poolID \<noteq> [] \<and> poolID \<noteq> DirectConnectionPool \<and> pool poolID = None
         then (Inl (ErrInvalidLiveControl ''the proxy pool could not be resolved''), cs)
         else if poolID \<noteq> [] \<and> poolID \<noteq> DirectConnectionPool \<and> pool poolID = Some []
         then (Inl (ErrInvalidLiveControl ''the proxy pool has no usable proxies''), cs)
         else repo_SetJobProxyPoolOverride job poolID cs)"

section \<open>The poll\<close>

datatype live_event =
    RuntimeExtended int64 int64
  | PoolSwitchedDirect
  | PoolUnresolved string
  | PoolSwitched string int string
  | RetriedCurrent int

record live_world =
  lw_run :: taskPoolRun
  lw_live :: liveRunState
  lw_store :: ControlStore
  lw_events :: "live_event list"
  lw_cancelled :: bool

definition live_record :: "live_event \<Rightarrow> live_world \<Rightarrow> live_world" where
  "live_record e w = w\<lparr>lw_events := lw_events w @ [e]\<rparr>"

text \<open>
  What the store answers about pools: \<open>ResolveProxyPlan\<close>, \<open>None\<close> for an error, and
  \<open>ProxyTaskHealthByURL\<close>, an empty map for an error.
\<close>

record pool_source =
  src_plan :: "string \<Rightarrow> ProxyPlan option"
  src_health :: "string \<Rightarrow> (string \<times> ProxyTaskHealth) list"

definition switchRunProxyPool :: "pool_source \<Rightarrow> string \<Rightarrow> live_world \<Rightarrow> live_world" where
  "switchRunProxyPool src poolID w =
     (if poolID = DirectConnectionPool
      then live_record PoolSwitchedDirect (w\<lparr>lw_live := setProxyPlan None True (lw_live w)\<rparr>)
      else case src_plan src poolID of
        None \<Rightarrow> live_record (PoolUnresolved poolID) w
      | Some plan \<Rightarrow>
          if pn_Proxies plan = [] then live_record (PoolUnresolved poolID) w
          else live_record (PoolSwitched (pn_PoolID plan) (int (length (pn_Proxies plan))) (pn_Strategy plan))
            (w\<lparr>lw_live := applyProxyHealth (src_health src (pn_PoolID plan))
                 (setProxyPlan (Some plan) False (lw_live w))\<rparr>))"

definition poll_extension :: "int64 \<Rightarrow> live_world \<Rightarrow> live_world" where
  "poll_extension extended w =
     (let (delta, live) = applyExtension extended (lw_live w); w1 = w\<lparr>lw_live := live\<rparr>
      in if 0 <s delta then live_record (RuntimeExtended delta (lr_deadlineUnixNano live)) w1 else w1)"

definition poll_retry :: "string \<Rightarrow> live_world \<Rightarrow> live_world" where
  "poll_retry job w =
     (let (consumed, store) = ConsumeJobRetryCurrent job (lw_store w); w1 = w\<lparr>lw_store := store\<rparr>
      in if consumed
         then let (cancelled, live) = retryCurrentTasks (lw_live w1)
              in live_record (RetriedCurrent cancelled) (w1\<lparr>lw_live := live\<rparr>)
         else w1)"

definition poll_deadline :: "int64 \<Rightarrow> live_world \<Rightarrow> live_world" where
  "poll_deadline now w =
     (if lr_deadlineUnixNano (lw_live w) <s now
      then let (first, run) = requestStop StopReasonRuntimeLimit (lw_run w)
           in w\<lparr>lw_run := run, lw_cancelled := lw_cancelled w \<or> first\<rparr>
      else w)"

definition pollLiveControls :: "int64 \<Rightarrow> pool_source \<Rightarrow> string \<Rightarrow> live_world \<Rightarrow> live_world" where
  "pollLiveControls now src job w =
     (case read_controls job (lw_store w) of
        Inl _ \<Rightarrow> w
      | Inr controls \<Rightarrow>
          let w1 = poll_extension (lc_ExtendedSeconds controls) w;
              w2 = w1\<lparr>lw_run := override_concurrency (lc_ConcurrencyOverride controls) (lw_run w1)\<rparr>;
              w3 = (if lc_ProxyPoolOverride controls \<noteq> [] \<and>
                       lc_ProxyPoolOverride controls \<noteq> currentPoolID (lw_live w2)
                    then switchRunProxyPool src (lc_ProxyPoolOverride controls) w2 else w2);
              w4 = (if lc_RetryCurrentRequested controls then poll_retry job w3 else w3)
          in poll_deadline now w4)"

end
