(* ===== verification/LiveProperties.thy ===== *)
theory LiveProperties
  imports LiveRun
begin

text \<open>
  Histories of a live run state: which proxies a task may be given, whatever the operator, the
  workers and the supervisor did before, and what becomes of the deadline and of retry requests.
\<close>

section \<open>Histories\<close>

datatype live_op =
    SetPlan "ProxyPlan option" bool
  | ApplyHealth "(string \<times> ProxyTaskHealth) list"
  | RecordOutcome int bool
  | Assign JobTask
  | MarkFailed int
  | Extend int64
  | Register string
  | Unregister string
  | RetryCurrent
  | ConsumeRetry string

fun run_live :: "live_op \<Rightarrow> liveRunState \<Rightarrow> liveRunState" where
  "run_live (SetPlan plan direct) s = setProxyPlan plan direct s"
| "run_live (ApplyHealth health) s = applyProxyHealth health s"
| "run_live (RecordOutcome i success) s = recordProxyOutcome i success s"
| "run_live (Assign task) s = snd (assignTaskProxies task s)"
| "run_live (MarkFailed i) s = snd (markProxyFailed i s)"
| "run_live (Extend seconds) s = snd (applyExtension seconds s)"
| "run_live (Register key) s = registerTaskCancel key s"
| "run_live (Unregister key) s = unregisterTaskCancel key s"
| "run_live RetryCurrent s = snd (retryCurrentTasks s)"
| "run_live (ConsumeRetry key) s = snd (consumeRetryFlag key s)"

section \<open>Lists of candidates\<close>

lemma rotated_rotate: "rotated n xs = rotate n xs"
  by (rule nth_equalityI) (simp_all add: rotated_def nth_rotate add.commute)

lemma ordered_candidates_laws:
  assumes "ordered_candidates s usable = (candidates, k)"
  shows "set candidates = set usable" "distinct candidates \<longleftrightarrow> distinct usable"
  using assms by (auto simp: ordered_candidates_def rotated_rotate split: if_splits)

lemma set_usable:
  "i \<in> set (usable_proxies plan per) \<longleftrightarrow>
     i < length (pn_Proxies plan) \<and> \<not> ps_failed (per ! i) \<and> \<not> capped plan (per ! i)"
  by (auto simp: usable_proxies_def)

lemma distinct_usable [simp]: "distinct (usable_proxies plan per)"
  by (simp add: usable_proxies_def)

lemma sticky_choice_usable: "usable \<noteq> [] \<Longrightarrow> sticky_choice plan task usable \<in> set usable"
  by (simp add: sticky_choice_def)

section \<open>The record of the proxies matches the plan\<close>

definition within_cap :: "ProxyPlan \<Rightarrow> proxyRunState \<Rightarrow> bool" where
  "within_cap plan r \<longleftrightarrow> (0 < pn_MaxTasksPerProxy plan \<longrightarrow> ps_tasks r \<le> pn_MaxTasksPerProxy plan)"

definition live_ok :: "liveRunState \<Rightarrow> bool" where
  "live_ok s \<longleftrightarrow>
     (case lr_proxyPlan s of
        None \<Rightarrow> lr_perProxy s = []
      | Some plan \<Rightarrow> length (lr_perProxy s) = length (pn_Proxies plan) \<and>
          list_all (within_cap plan) (lr_perProxy s))"

lemma live_ok_cong:
  "lr_proxyPlan s' = lr_proxyPlan s \<Longrightarrow> lr_perProxy s' = lr_perProxy s \<Longrightarrow> live_ok s \<Longrightarrow> live_ok s'"
  by (auto simp: live_ok_def split: option.splits)

lemma within_cap_frame [simp]:
  "within_cap plan (with_health e r) = within_cap plan r"
  "within_cap plan (after_outcome b r) = within_cap plan r"
  "within_cap plan (r\<lparr>ps_failed := f\<rparr>) = within_cap plan r"
  "within_cap plan fresh_proxy"
  by (simp_all add: within_cap_def with_health_def after_outcome_def fresh_proxy_def)

lemma live_ok_update:
  assumes "live_ok s" "\<And>plan. lr_proxyPlan s = Some plan \<Longrightarrow> i < length (lr_perProxy s) \<Longrightarrow> within_cap plan r"
  shows "live_ok (s\<lparr>lr_perProxy := (lr_perProxy s)[i := r]\<rparr>)"
proof (cases "i < length (lr_perProxy s)")
  case True
  with assms show ?thesis
    by (auto simp: live_ok_def list_all_iff dest!: set_update_subset_insert [THEN subsetD] split: option.splits)
next
  case False
  then have "(lr_perProxy s)[i := r] = lr_perProxy s" by (simp add: list_update_beyond)
  with assms(1) show ?thesis by simp
qed

lemma live_ok_nth:
  "live_ok s \<Longrightarrow> lr_proxyPlan s = Some plan \<Longrightarrow> i < length (lr_perProxy s) \<Longrightarrow> within_cap plan (lr_perProxy s ! i)"
  by (simp add: live_ok_def list_all_iff)

lemma count_task_ok:
  assumes "live_ok s" "lr_proxyPlan s = Some plan" "i \<in> set (usable_proxies plan (lr_perProxy s))"
  shows "live_ok (count_task i s)"
  unfolding count_task_def using assms
  by (intro live_ok_update) (auto simp: set_usable capped_def within_cap_def)

lemma applyProxyHealth_ok: "live_ok s \<Longrightarrow> live_ok (applyProxyHealth health s)"
  by (auto simp: live_ok_def applyProxyHealth_def list_all_iff split: option.splits
      dest!: set_zip_rightD)

definition assignable :: "ProxyPlan \<Rightarrow> JobTask \<Rightarrow> liveRunState \<Rightarrow> nat list \<Rightarrow> int \<Rightarrow> bool" where
  "assignable plan task s candidates index \<longleftrightarrow>
     candidates \<noteq> [] \<and> distinct candidates \<and> set candidates \<subseteq> set (usable_proxies plan (lr_perProxy s)) \<and>
     (if sticky_plan plan then candidates = [nat index] \<and> 0 \<le> index
      else set candidates = set (usable_proxies plan (lr_perProxy s)) \<and> index = -1)"

lemma ordered_assignable:
  assumes "\<not> sticky_plan plan" "usable_proxies plan (lr_perProxy s) \<noteq> []"
  shows "assignable plan task s (fst (ordered_candidates s (usable_proxies plan (lr_perProxy s)))) (-1)"
proof -
  obtain candidates k where c: "ordered_candidates s (usable_proxies plan (lr_perProxy s)) = (candidates, k)"
    by fastforce
  note laws = ordered_candidates_laws [OF c]
  then have "candidates \<noteq> []" using assms(2) by auto
  with laws assms(1) c show ?thesis by (simp add: assignable_def)
qed

lemma sticky_assignable:
  assumes "sticky_plan plan" "usable_proxies plan (lr_perProxy s) \<noteq> []"
  shows "assignable plan task s [sticky_choice plan task (usable_proxies plan (lr_perProxy s))]
           (int (sticky_choice plan task (usable_proxies plan (lr_perProxy s))))"
  using assms sticky_choice_usable by (simp add: assignable_def)

lemma assignTaskProxies_cases:
  assumes "live_ok s" "lr_proxyPlan s = Some plan" "\<not> lr_direct s"
  obtains "usable_proxies plan (lr_perProxy s) = []" "assignTaskProxies task s = (Inl errNoUsableProxies, s)"
  | candidates index k where "usable_proxies plan (lr_perProxy s) \<noteq> []"
      "assignable plan task s candidates index"
      "assignTaskProxies task s = (Inr (assigned plan s candidates index),
         count_task (hd candidates) (s\<lparr>lr_rotation := k\<rparr>))"
proof (cases "usable_proxies plan (lr_perProxy s) = []")
  case True
  then show ?thesis using assms that(1) by (simp add: assignTaskProxies_def live_ok_def)
next
  case False
  show ?thesis
  proof (cases "sticky_plan plan")
    case True
    show ?thesis
      by (rule that(2) [OF False sticky_assignable [OF True False], where k = "lr_rotation s"])
        (use True False assms in \<open>simp add: assignTaskProxies_def live_ok_def Let_def\<close>)
  next
    case sticky: False
    show ?thesis
      by (rule that(2) [OF False ordered_assignable [OF sticky False],
            where k = "snd (ordered_candidates s (usable_proxies plan (lr_perProxy s)))"])
        (use sticky False assms in \<open>simp add: assignTaskProxies_def live_ok_def Let_def case_prod_beta\<close>)
  qed
qed

lemma assignTaskProxies_ok:
  assumes "live_ok s"
  shows "live_ok (snd (assignTaskProxies task s))"
proof (cases "lr_direct s \<or> lr_proxyPlan s = None")
  case True
  with assms show ?thesis by (auto simp: assignTaskProxies_def split: option.split)
next
  case False
  then obtain plan where plan: "lr_proxyPlan s = Some plan" "\<not> lr_direct s" by auto
  from assms plan show ?thesis
  proof (cases rule: assignTaskProxies_cases [where task = task])
    case 1
    with assms show ?thesis by simp
  next
    case (2 candidates index k)
    have "live_ok (s\<lparr>lr_rotation := k\<rparr>)" using assms by (rule live_ok_cong [rotated 2]) simp_all
    moreover have "hd candidates \<in> set (usable_proxies plan (lr_perProxy s))"
      using 2(2) by (auto simp: assignable_def)
    ultimately show ?thesis using 2(3) plan by (simp add: count_task_ok)
  qed
qed

lemma run_live_ok:
  assumes "live_ok s"
  shows "live_ok (run_live op s)"
proof (cases op)
  case (SetPlan plan direct)
  then show ?thesis
    by (simp add: live_ok_def setProxyPlan_def list_all_iff split: option.split)
next
  case (ApplyHealth health)
  then show ?thesis using assms by (simp add: applyProxyHealth_ok)
next
  case (RecordOutcome i success)
  then show ?thesis
    using assms by (auto simp: recordProxyOutcome_def in_range_def intro!: live_ok_update live_ok_nth)
next
  case (Assign task)
  then show ?thesis using assms by (simp add: assignTaskProxies_ok)
next
  case (MarkFailed i)
  then show ?thesis
    using assms by (auto simp: markProxyFailed_def in_range_def Let_def intro!: live_ok_update live_ok_nth
        split: option.split)
qed (use assms in \<open>auto simp: live_ok_def applyExtension_def Let_def registerTaskCancel_def
       unregisterTaskCancel_def retryCurrentTasks_def consumeRetryFlag_def split: option.splits\<close>)

lemma run_live_all_ok: "live_ok s \<Longrightarrow> live_ok (fold run_live ops s)"
  by (induction ops arbitrary: s) (simp_all add: run_live_ok)

lemma newLiveRunState_ok [simp]: "live_ok (newLiveRunState d)"
  by (simp add: live_ok_def newLiveRunState_def)

section \<open>Which proxies a task gets\<close>

text \<open>The documented rule, on the plan and the record of its proxies.\<close>

definition serviceable :: "ProxyPlan \<Rightarrow> liveRunState \<Rightarrow> nat \<Rightarrow> bool" where
  "serviceable plan s i \<longleftrightarrow>
     i < length (pn_Proxies plan) \<and> \<not> ps_failed (lr_perProxy s ! i) \<and>
     (0 < pn_MaxTasksPerProxy plan \<longrightarrow> ps_tasks (lr_perProxy s ! i) < pn_MaxTasksPerProxy plan)"

lemma usable_serviceable: "i \<in> set (usable_proxies plan (lr_perProxy s)) \<longleftrightarrow> serviceable plan s i"
  by (auto simp: set_usable serviceable_def capped_def)

text \<open>
  C16: After any history of a run the proxies of a plan are handed out by its rule. No proxy has
  ever run more tasks than the cap of its plan; a task is refused exactly when every proxy has
  failed or is at the cap, and no assignment reads beyond the record. A sticky plan gives a task
  one serviceable proxy and attributes it, any other plan gives it every serviceable proxy once,
  in some order, and attributes none; the task is counted against the first of them, and no other
  count changes.
\<close>

theorem proxy_assignment_sound:
  assumes "s = fold run_live ops (newLiveRunState d)"
    and "lr_proxyPlan s = Some plan" "\<not> lr_direct s" "assignTaskProxies task s = (result, s')"
  shows "(\<forall>r \<in> set (lr_perProxy s). 0 < pn_MaxTasksPerProxy plan \<longrightarrow> ps_tasks r \<le> pn_MaxTasksPerProxy plan) \<and>
    (result = Inl errNoUsableProxies \<longleftrightarrow> (\<forall>i. \<not> serviceable plan s i)) \<and>
    result \<noteq> Inl Index_panic \<and>
    (\<forall>a. result = Inr a \<longrightarrow> (\<exists>order. order \<noteq> [] \<and> distinct order \<and>
           pa_proxies a = map (\<lambda>i. pn_Proxies plan ! i) order \<and> (\<forall>i \<in> set order. serviceable plan s i) \<and>
           (if sticky_plan plan then pa_index a = int (hd order) \<and> length order = 1
            else pa_index a = -1 \<and> set order = {i. serviceable plan s i}) \<and>
           (\<forall>i < length (pn_Proxies plan).
              ps_tasks (lr_perProxy s' ! i) = ps_tasks (lr_perProxy s ! i) + (if i = hd order then 1 else 0))))"
proof (intro conjI ballI allI impI)
  have ok: "live_ok s" unfolding assms(1) by (intro run_live_all_ok) simp
  then have len: "length (lr_perProxy s) = length (pn_Proxies plan)" using assms(2) by (simp add: live_ok_def)
  show "ps_tasks r \<le> pn_MaxTasksPerProxy plan" if "r \<in> set (lr_perProxy s)" "0 < pn_MaxTasksPerProxy plan" for r
    using ok assms(2) that by (auto simp: live_ok_def list_all_iff within_cap_def)
  have none: "usable_proxies plan (lr_perProxy s) = [] \<longleftrightarrow> (\<forall>i. \<not> serviceable plan s i)"
    by (simp only: usable_serviceable [symmetric]) auto
  note cases = assignTaskProxies_cases [OF ok assms(2,3), where task = task]
  show "result = Inl errNoUsableProxies \<longleftrightarrow> (\<forall>i. \<not> serviceable plan s i)"
    using assms(4) none by (cases rule: cases) auto
  show "result \<noteq> Inl Index_panic" using assms(4) by (cases rule: cases) auto
  fix a assume a: "result = Inr a"
  show "\<exists>order. order \<noteq> [] \<and> distinct order \<and>
           pa_proxies a = map (\<lambda>i. pn_Proxies plan ! i) order \<and> (\<forall>i \<in> set order. serviceable plan s i) \<and>
           (if sticky_plan plan then pa_index a = int (hd order) \<and> length order = 1
            else pa_index a = -1 \<and> set order = {i. serviceable plan s i}) \<and>
           (\<forall>i < length (pn_Proxies plan).
              ps_tasks (lr_perProxy s' ! i) = ps_tasks (lr_perProxy s ! i) + (if i = hd order then 1 else 0))"
  proof (cases rule: cases)
    case 1
    with a assms(4) show ?thesis by simp
  next
    case (2 candidates index k)
    then have "a = assigned plan s candidates index" "s' = count_task (hd candidates) (s\<lparr>lr_rotation := k\<rparr>)"
      using a assms(4) by simp_all
    then show ?thesis
      using 2(2) len
      by (intro exI [where x = candidates])
        (auto simp: assignable_def assigned_def count_task_def usable_serviceable subset_eq nth_list_update)
  qed
qed

definition demo_plan :: ProxyPlan where
  "demo_plan = \<lparr>pn_PoolID = ''p'', pn_Strategy = ''sticky_query'', pn_Proxies = [''x'', ''y'', ''z''],
     pn_MaxTasksPerProxy = 1\<rparr>"

definition demo_task :: JobTask where
  "demo_task =
     \<lparr>jt_ID = ''t'', jt_JobID = ''j'', jt_Key = ''k'', jt_Kind = [], jt_State = taskStateRunning, jt_Sequence = 0,
      jt_Query = ''b'', jt_SourceCell = [], jt_InputID = [], jt_Payload = [], jt_Checkpoint = None,
      jt_Attempts = 1, jt_MaxAttempts = 3, jt_LastError = [], jt_Origin = [], jt_Priority = 0,
      jt_StartedAt = None, jt_FinishedAt = None, jt_UpdatedAt = 0\<rparr>"

lemma demo_hash: "unat (fnv32a (sticky_key demo_plan demo_task)) = 3876335077"
  by (simp add: sticky_key_def demo_plan_def demo_task_def fnv32a_def TrimSpace_inner printable_def of_char_def)

lemma demo_choice [simp]:
  "sticky_choice demo_plan demo_task [0, Suc 0, 2] = 1" "sticky_choice demo_plan demo_task [Suc 0, 2] = 2"
  by (simp_all add: sticky_choice_def demo_hash flip: numeral_2_eq_2 numeral_3_eq_3)

lemma demo_plan_simps [simp]:
  "sticky_plan demo_plan" "length (pn_Proxies demo_plan) = 3" "pn_MaxTasksPerProxy demo_plan = 1"
  by (simp_all add: sticky_plan_def demo_plan_def)

lemma upt3 [simp]: "[0..<3] = [0, 1, 2]" "replicate 3 x = [x, x, x]"
  by (simp_all add: upt_rec eval_nat_numeral)

theorem proxy_assignment_sound_witness:
  "\<exists>a order. fst (assignTaskProxies demo_task
       (fold run_live [SetPlan (Some demo_plan) False, MarkFailed 0] (newLiveRunState 0))) = Inr a \<and>
     pa_proxies a = map (\<lambda>i. pn_Proxies demo_plan ! i) order \<and> pa_index a = int (hd order) \<and> length order = 1"
proof -
  define s where "s = fold run_live [SetPlan (Some demo_plan) False, MarkFailed 0] (newLiveRunState 0)"
  have per: "lr_perProxy s = [fresh_proxy\<lparr>ps_failed := True\<rparr>, fresh_proxy, fresh_proxy]"
    "lr_proxyPlan s = Some demo_plan" "\<not> lr_direct s"
    by (simp_all add: s_def setProxyPlan_def markProxyFailed_def Let_def newLiveRunState_def in_range_def
        upt3)
  have usable: "usable_proxies demo_plan (lr_perProxy s) = [1, 2]"
    by (simp add: per usable_proxies_def upt3 capped_def fresh_proxy_def nth_Cons')
  obtain result s' where r: "assignTaskProxies demo_task s = (result, s')" by fastforce
  then have "result = Inr (assigned demo_plan s [2] 2)"
    using per usable by (auto simp: assignTaskProxies_def Let_def)
  with proxy_assignment_sound [OF s_def per(2,3) r] r show ?thesis
    unfolding s_def by auto
qed

section \<open>Two things a run does not keep\<close>

text \<open>
  A sticky task does not keep its exit: while the proxy of the task is serviceable all along, the
  failure of another one changes the length the hash is reduced by, and a retry leaves through a
  different exit.
\<close>

lemma sticky_exit_moves:
  "\<exists>s. lr_proxyPlan s = Some demo_plan \<and> \<not> lr_direct s \<and> serviceable demo_plan s 1 \<and>
     serviceable demo_plan (snd (markProxyFailed 0 s)) 1 \<and>
     fst (assignTaskProxies demo_task s) = Inr (assigned demo_plan s [1] 1) \<and>
     fst (assignTaskProxies demo_task (snd (markProxyFailed 0 s))) =
       Inr (assigned demo_plan (snd (markProxyFailed 0 s)) [2] 2)"
  by (intro exI [where x = "setProxyPlan (Some demo_plan) False (newLiveRunState 0)"])
    (simp add: setProxyPlan_def markProxyFailed_def Let_def newLiveRunState_def in_range_def assignTaskProxies_def
      usable_proxies_def upt3 capped_def fresh_proxy_def serviceable_def nth_Cons')

text \<open>
  A failure is attributed by position in the plan at the time it is recorded. When the operator
  switched pools while the task ran, the proxy of the new pool at that position is taken out of
  service, here the only one it has, and the run is told that its pool is dead.
\<close>

lemma failure_blames_new_pool:
  assumes "pn_Proxies new = [url]" "pn_MaxTasksPerProxy new = 0"
  shows "\<exists>s a. fst (assignTaskProxies task s) = Inr a \<and>
     (let switched = setProxyPlan (Some new) False (snd (assignTaskProxies task s))
      in serviceable new switched 0 \<and>
         fst (markProxyFailed (pa_index a) switched) \<and>
         fst (assignTaskProxies task (snd (markProxyFailed (pa_index a) switched))) = Inl errNoUsableProxies)"
proof -
  define old where "old = \<lparr>pn_PoolID = [], pn_Strategy = ''sticky_query'', pn_Proxies = [''x''], pn_MaxTasksPerProxy = 0\<rparr>"
  define s where "s = setProxyPlan (Some old) False (newLiveRunState 0)"
  have one: "[0..<1] = [0 :: nat]" by simp
  have "assignTaskProxies task s = (Inr (assigned old s [0] 0), count_task 0 s)"
    by (simp add: assignTaskProxies_def s_def setProxyPlan_def old_def usable_proxies_def capped_def fresh_proxy_def
        sticky_plan_def sticky_choice_def Let_def newLiveRunState_def one)
  moreover have "serviceable new (setProxyPlan (Some new) False t) 0" for t
    using assms by (simp add: serviceable_def setProxyPlan_def fresh_proxy_def)
  moreover have "fst (markProxyFailed 0 (setProxyPlan (Some new) False t))"
    "fst (assignTaskProxies task (snd (markProxyFailed 0 (setProxyPlan (Some new) False t)))) = Inl errNoUsableProxies"
    for t
    using assms by (simp_all add: markProxyFailed_def assignTaskProxies_def setProxyPlan_def in_range_def
        usable_proxies_def Let_def fresh_proxy_def one)
  ultimately show ?thesis
    by (intro exI [where x = s] exI [where x = "assigned old s [0] 0"]) (simp add: assigned_def Let_def)
qed

end
