(* ===== verification/LiveControlsProperties.thy ===== *)
theory LiveControlsProperties
  imports LiveControls LiveProperties
begin

text \<open>
  Histories of a run under the operator's requests: every accepted extension is folded into the
  deadline once, whatever else happens between, and a retry request is consumed by one poll.
\<close>

section \<open>Histories\<close>

datatype control_event =
    AskExtend string int64
  | AskConcurrency string int
  | AskPool string string
  | AskRetry string
  | PoolWork live_op
  | Poll int64

fun deadline_op :: "live_op \<Rightarrow> bool" where
  "deadline_op (Extend _) = True"
| "deadline_op _ = False"

definition with_store :: "(live_error + unit) \<times> ControlStore \<Rightarrow> live_world \<Rightarrow> live_world" where
  "with_store answer w = w\<lparr>lw_store := snd answer\<rparr>"

text \<open>The deadline has no other writer than the poll, so work of the pool is any other operation.\<close>

fun run_control ::
  "pool_source \<Rightarrow> (string \<Rightarrow> string list option) \<Rightarrow> string \<Rightarrow> control_event \<Rightarrow> live_world \<Rightarrow> live_world" where
  "run_control src pool job (AskExtend j extra) w = with_store (ExtendJobRuntime j extra (lw_store w)) w"
| "run_control src pool job (AskConcurrency j n) w = with_store (SetJobConcurrencyOverride j n (lw_store w)) w"
| "run_control src pool job (AskPool j p) w = with_store (SetJobProxyPoolOverride pool j p (lw_store w)) w"
| "run_control src pool job (AskRetry j) w = with_store (RequestJobRetryCurrent j (lw_store w)) w"
| "run_control src pool job (PoolWork op) w =
     (if deadline_op op then w else w\<lparr>lw_live := run_live op (lw_live w)\<rparr>)"
| "run_control src pool job (Poll now) w = pollLiveControls now src job w"

definition valid_extension :: "int64 \<Rightarrow> bool" where
  "valid_extension extra \<longleftrightarrow> 60 * 10 ^ 9 \<le> sint extra \<and> sint extra \<le> 6 * 3600 * 10 ^ 9"

text \<open>The seconds the operator was granted for a job.\<close>

fun granted :: "string \<Rightarrow> control_event list \<Rightarrow> int" where
  "granted job [] = 0"
| "granted job (AskExtend j extra # es) =
     (if j = job \<and> valid_extension extra then sint (whole_seconds extra) else 0) + granted job es"
| "granted job (_ # es) = granted job es"

section \<open>A granted extension is a positive number of seconds\<close>

lemma f64_round_between:
  assumes "of_int a \<le> x" "x \<le> of_int b" "\<bar>a\<bar> \<le> 2 ^ 53" "\<bar>b\<bar> \<le> 2 ^ 53"
  shows "of_int a \<le> f64_round x" "f64_round x \<le> of_int b"
  using f64_round_mono [OF assms(1)] f64_round_mono [OF assms(2)] f64_round_int assms(3,4) by auto

lemma whole_seconds_bounds:
  assumes "valid_extension extra"
  shows "0 \<le> sint (whole_seconds extra)" "sint (whole_seconds extra) \<le> 21601"
proof -
  define n where "n = sint extra"
  define q m where "q = n div 10 ^ 9" and "m = n mod 10 ^ 9"
  have n: "0 \<le> n" "n \<le> 21600 * 10 ^ 9" using assms by (simp_all add: valid_extension_def n_def)
  have q: "0 \<le> q" "q \<le> 21600" using n by (auto simp: q_def)
  have m: "0 \<le> m" "m < 10 ^ 9" by (simp_all add: m_def)
  have gd: "go_div n 1000000000 = q" "go_mod n 1000000000 = m"
    using n by (auto simp: go_div_def go_mod_def q_def m_def sgn_if)
  define f where "f = f64_round (of_int m / of_int 1000000000)"
  have f: "0 \<le> f" "f \<le> 1"
    using f64_round_between [of 0 "of_int m / of_int 1000000000" 1] m by (simp_all add: f_def)
  have frac: "f64_div (f64_of_int m) (Fin 1000000000) = Fin f"
    using m f64_of_rat_small(1) [of "of_int m / 1000000000"] by (simp add: f64_of_int_exact f_def)
  define t where "t = f64_round (of_int q + f)"
  have t: "0 \<le> t" "t \<le> 21601"
    using f64_round_between [of 0 "of_int q + f" 21601] q f by (simp_all add: t_def)
  have "\<bar>of_int q + f\<bar> \<le> 2 ^ 53" using q f by (simp add: abs_of_nonneg)
  then have "Duration_Seconds extra = Fin t"
    using q by (simp add: Duration_Seconds_def duration_units_def n_def [symmetric] gd frac f64_of_int_exact
        f64_of_rat_small(1) t_def)
  moreover have "0 \<le> \<lfloor>t\<rfloor>" "\<lfloor>t\<rfloor> \<le> 21601" using t by (simp_all add: floor_le_iff)
  ultimately have "sint (whole_seconds extra) = \<lfloor>t\<rfloor>"
    using t by (simp add: whole_seconds_def Let_def sint_sbintrunc' signed_take_bit_int_eq_self)
  with t show "0 \<le> sint (whole_seconds extra)" "sint (whole_seconds extra) \<le> 21601"
    by (simp_all add: floor_le_iff)
qed

section \<open>The requests of a job\<close>

text \<open>
  A job has one row; what the deadline has taken in is \<open>lr_appliedExtension\<close>, what was granted so far
  is in the row. Sums of words are exact as long as the granted seconds fit the deadline.
\<close>

definition the_controls :: "string \<Rightarrow> ControlStore \<Rightarrow> JobLiveControls" where
  "the_controls job cs = the (find (\<lambda>r. lc_JobID r = job) (cs_rows cs))"

definition deadline_ok :: "string \<Rightarrow> int64 \<Rightarrow> int \<Rightarrow> live_world \<Rightarrow> bool" where
  "deadline_ok job d given w \<longleftrightarrow>
     find (\<lambda>r. lc_JobID r = job) (cs_rows (lw_store w)) \<noteq> None \<and>
     sint (lc_ExtendedSeconds (the_controls job (lw_store w))) = given \<and>
     0 \<le> sint (lr_appliedExtension (lw_live w)) \<and> sint (lr_appliedExtension (lw_live w)) \<le> given \<and>
     lr_deadlineUnixNano (lw_live w) = d + lr_appliedExtension (lw_live w) * 1000000000"

lemma find_control_row:
  assumes "\<And>r. lc_JobID (change r) = lc_JobID r"
  shows "find (\<lambda>r. lc_JobID r = job) (update_where p change rows) =
     map_option (\<lambda>r. if p r then change r else r) (find (\<lambda>r. lc_JobID r = job) rows)"
  using assms by (induction rows) (auto simp: update_where_def)

lemma find_by_job:
  assumes "find (\<lambda>r. lc_JobID r = job) rows = Some row"
  shows "lc_JobID row = job" "row \<in> set rows"
  using assms by (auto simp: find_Some_iff)

lemma apply_control_rows:
  "cs_rows (snd (applyLiveControl j action detail change cs)) =
     update_where (\<lambda>r. lc_JobID r = j) change (cs_rows cs)"
  by (auto simp: applyLiveControl_def count_where_0 update_where_none)

lemma apply_control_find:
  assumes "\<And>r. lc_JobID (change r) = lc_JobID r"
  shows "find (\<lambda>r. lc_JobID r = job) (cs_rows (snd (applyLiveControl j action detail change cs))) =
     map_option (\<lambda>r. if lc_JobID r = j then change r else r) (find (\<lambda>r. lc_JobID r = job) (cs_rows cs))"
  unfolding apply_control_rows by (rule find_control_row [OF assms])

lemma run_live_deadline:
  assumes "\<not> deadline_op op"
  shows "lr_deadlineUnixNano (run_live op s) = lr_deadlineUnixNano s"
    "lr_appliedExtension (run_live op s) = lr_appliedExtension s"
  using assms by (cases op; auto simp: setProxyPlan_def applyProxyHealth_def recordProxyOutcome_def
      assignTaskProxies_def count_task_def markProxyFailed_def registerTaskCancel_def unregisterTaskCancel_def
      retryCurrentTasks_def consumeRetryFlag_def Let_def case_prod_beta split: option.split)+

text \<open>The seconds an operation adds to the row of the job.\<close>

fun added :: "string \<Rightarrow> control_event \<Rightarrow> int" where
  "added job (AskExtend j extra) = (if j = job \<and> valid_extension extra then sint (whole_seconds extra) else 0)"
| "added job _ = 0"

lemma granted_Cons: "granted job (e # es) = added job e + granted job es"
  by (cases e) simp_all

lemma added_bounds: "0 \<le> added job e" "added job e \<le> 21601"
  by (cases e; simp add: whole_seconds_bounds)+

lemma granted_nonneg: "0 \<le> granted job es"
  by (induction es) (simp_all only: granted_Cons granted.simps(1) add_nonneg_nonneg added_bounds order_refl)

lemma applyExtension_ok:
  assumes "lr_deadlineUnixNano s = d + lr_appliedExtension s * 1000000000"
    and "0 \<le> sint (lr_appliedExtension s)" "sint (lr_appliedExtension s) \<le> sint e"
  shows "lr_deadlineUnixNano (snd (applyExtension e s)) = d + e * 1000000000"
    "lr_appliedExtension (snd (applyExtension e s)) = e"
proof -
  consider "lr_appliedExtension s = e" | "\<not> e \<le>s lr_appliedExtension s"
    using assms(3) by (metis word_sle_eq signed_word_eqI order.antisym)
  then show "lr_deadlineUnixNano (snd (applyExtension e s)) = d + e * 1000000000"
    "lr_appliedExtension (snd (applyExtension e s)) = e"
    using assms(1) by (cases; simp add: applyExtension_def Let_def algebra_simps)+
qed

text \<open>The poll: its five steps leave of deadline and store what each of them says.\<close>

lemma switch_frame:
  "lr_deadlineUnixNano (lw_live (switchRunProxyPool src p w)) = lr_deadlineUnixNano (lw_live w)"
  "lr_appliedExtension (lw_live (switchRunProxyPool src p w)) = lr_appliedExtension (lw_live w)"
  "lw_store (switchRunProxyPool src p w) = lw_store w"
  "lw_cancelled (switchRunProxyPool src p w) = lw_cancelled w"
  "lr_taskCancels (lw_live (switchRunProxyPool src p w)) = lr_taskCancels (lw_live w)"
  "lr_retryFlags (lw_live (switchRunProxyPool src p w)) = lr_retryFlags (lw_live w)"
  by (simp_all add: switchRunProxyPool_def live_record_def setProxyPlan_def applyProxyHealth_def split: option.split)

lemma retry_frame:
  "lr_deadlineUnixNano (lw_live (poll_retry job w)) = lr_deadlineUnixNano (lw_live w)"
  "lr_appliedExtension (lw_live (poll_retry job w)) = lr_appliedExtension (lw_live w)"
  "lw_cancelled (poll_retry job w) = lw_cancelled w"
  by (simp_all add: poll_retry_def live_record_def retryCurrentTasks_def case_prod_beta Let_def)

lemma deadline_frame:
  "lw_live (poll_deadline now w) = lw_live w" "lw_store (poll_deadline now w) = lw_store w"
  by (simp_all add: poll_deadline_def case_prod_beta)

lemma extension_frame:
  "lw_live (poll_extension e w) = snd (applyExtension e (lw_live w))"
  "lw_store (poll_extension e w) = lw_store w" "lw_cancelled (poll_extension e w) = lw_cancelled w"
  by (simp_all add: poll_extension_def live_record_def case_prod_beta Let_def)

lemmas poll_frames = switch_frame retry_frame deadline_frame extension_frame

lemma store_poll_retry:
  "cs_rows (lw_store (poll_retry job w)) =
     update_where (retry_pending job) (\<lambda>r. r\<lparr>lc_RetryCurrentRequested := False\<rparr>) (cs_rows (lw_store w))"
  by (simp add: poll_retry_def ConsumeJobRetryCurrent_def live_record_def case_prod_beta Let_def)

lemma poll_cases:
  assumes "find (\<lambda>r. lc_JobID r = job) (cs_rows (lw_store w)) = Some row"
  obtains w3 where
    "lr_deadlineUnixNano (lw_live w3) = lr_deadlineUnixNano (snd (applyExtension (lc_ExtendedSeconds row) (lw_live w)))"
    "lr_appliedExtension (lw_live w3) = lr_appliedExtension (snd (applyExtension (lc_ExtendedSeconds row) (lw_live w)))"
    "lw_store w3 = lw_store w" "lw_cancelled w3 = lw_cancelled w"
    "lr_taskCancels (lw_live w3) = lr_taskCancels (lw_live w)"
    "lr_retryFlags (lw_live w3) = lr_retryFlags (lw_live w)"
    "pollLiveControls now src job w =
       poll_deadline now (if lc_RetryCurrentRequested row then poll_retry job w3 else w3)"
proof -
  define w2 where "w2 = (poll_extension (lc_ExtendedSeconds row) w)
    \<lparr>lw_run := override_concurrency (lc_ConcurrencyOverride row) (lw_run (poll_extension (lc_ExtendedSeconds row) w))\<rparr>"
  define w3 where "w3 = (if lc_ProxyPoolOverride row \<noteq> [] \<and> lc_ProxyPoolOverride row \<noteq> currentPoolID (lw_live w2)
    then switchRunProxyPool src (lc_ProxyPoolOverride row) w2 else w2)"
  show ?thesis
  proof (rule that [of w3])
    show "pollLiveControls now src job w =
       poll_deadline now (if lc_RetryCurrentRequested row then poll_retry job w3 else w3)"
      using assms by (simp add: pollLiveControls_def read_controls_def Let_def w3_def w2_def)
  qed (simp_all add: w3_def w2_def poll_frames applyExtension_def Let_def)
qed

lemma poll_ok:
  assumes "deadline_ok job d given w"
  shows "deadline_ok job d given (pollLiveControls now src job w)"
    "sint (lr_appliedExtension (lw_live (pollLiveControls now src job w))) = given"
proof -
  obtain row where row: "find (\<lambda>r. lc_JobID r = job) (cs_rows (lw_store w)) = Some row"
    "sint (lc_ExtendedSeconds row) = given"
    using assms by (auto simp: deadline_ok_def the_controls_def)
  have e: "lr_deadlineUnixNano (snd (applyExtension (lc_ExtendedSeconds row) (lw_live w))) =
      d + lc_ExtendedSeconds row * 1000000000"
    "lr_appliedExtension (snd (applyExtension (lc_ExtendedSeconds row) (lw_live w))) = lc_ExtendedSeconds row"
    using assms row by (intro applyExtension_ok; simp add: deadline_ok_def the_controls_def)+
  obtain w3 where w3:
    "lr_deadlineUnixNano (lw_live w3) = d + lc_ExtendedSeconds row * 1000000000"
    "lr_appliedExtension (lw_live w3) = lc_ExtendedSeconds row" "lw_store w3 = lw_store w"
    "pollLiveControls now src job w =
       poll_deadline now (if lc_RetryCurrentRequested row then poll_retry job w3 else w3)"
    using poll_cases [OF row(1), where now = now and src = src] e by metis
  define w' where "w' = (if lc_RetryCurrentRequested row then poll_retry job w3 else w3)"
  have live: "lr_deadlineUnixNano (lw_live w') = d + lc_ExtendedSeconds row * 1000000000"
    "lr_appliedExtension (lw_live w') = lc_ExtendedSeconds row"
    using w3 by (simp_all add: w'_def poll_frames)
  have "\<exists>row'. find (\<lambda>r. lc_JobID r = job) (cs_rows (lw_store w')) = Some row' \<and>
      lc_ExtendedSeconds row' = lc_ExtendedSeconds row"
    using row(1) w3(3) by (auto simp: w'_def store_poll_retry find_control_row)
  then have "deadline_ok job d given w'"
    using live row(2) assms by (auto simp: deadline_ok_def the_controls_def)
  then show "deadline_ok job d given (pollLiveControls now src job w)"
    by (simp add: w3(4) w'_def [symmetric] deadline_ok_def poll_frames)
  show "sint (lr_appliedExtension (lw_live (pollLiveControls now src job w))) = given"
    by (simp add: w3(4) w'_def [symmetric] poll_frames live row(2))
qed

lemma deadline_ok_store:
  assumes "deadline_ok job d given w" "given \<le> given'"
    and "\<And>row. find (\<lambda>r. lc_JobID r = job) (cs_rows (lw_store w)) = Some row \<Longrightarrow>
      sint (lc_ExtendedSeconds row) = given \<Longrightarrow>
      \<exists>row'. find (\<lambda>r. lc_JobID r = job) (cs_rows (snd answer)) = Some row' \<and> sint (lc_ExtendedSeconds row') = given'"
  shows "deadline_ok job d given' (with_store answer w)"
  using assms by (fastforce simp: deadline_ok_def the_controls_def with_store_def)

lemma deadline_ok_apply:
  assumes "deadline_ok job d given w"
    and "\<And>r. lc_JobID (change r) = lc_JobID r" "\<And>r. lc_ExtendedSeconds (change r) = lc_ExtendedSeconds r"
  shows "deadline_ok job d given (with_store (applyLiveControl j action detail change (lw_store w)) w)"
  by (rule deadline_ok_store [OF assms(1)]) (auto simp: apply_control_find [OF assms(2)] assms(3))

lemma deadline_ok_same: "deadline_ok job d given w \<Longrightarrow> deadline_ok job d given (with_store (x, lw_store w) w)"
  by (simp add: with_store_def)

lemma valid_extension_iff: "valid_extension extra \<longleftrightarrow> \<not> extra <s minute \<and> \<not> 6 * hour <s extra"
  by (auto simp: valid_extension_def word_sless_alt minute_def hour_def)

lemma poll_cancels:
  assumes "deadline_ok job d given w" "lw_cancelled (pollLiveControls now src job w)"
  shows "lw_cancelled w \<or> lr_deadlineUnixNano (lw_live (pollLiveControls now src job w)) <s now"
proof -
  obtain row where "find (\<lambda>r. lc_JobID r = job) (cs_rows (lw_store w)) = Some row"
    using assms(1) by (auto simp: deadline_ok_def)
  then show ?thesis
    by (rule poll_cases [where now = now and src = src])
      (use assms(2) in \<open>auto simp: poll_deadline_def retry_frame case_prod_beta split: if_splits\<close>)
qed

text \<open>One event adds its seconds to the row, and keeps the deadline where the last poll left it.\<close>

lemma run_control_ok:
  assumes "deadline_ok job d given w" "given + added job e < 2 ^ 63"
  shows "deadline_ok job d (given + added job e) (run_control src pool job e w)"
proof (cases e)
  case (AskExtend j extra)
  show ?thesis
  proof (cases "valid_extension extra")
    case False
    then have "ExtendJobRuntime j extra (lw_store w) =
        (Inl (ErrInvalidLiveControl ''runtime extension must be between 1m and 6h''), lw_store w)"
      by (auto simp: ExtendJobRuntime_def valid_extension_iff)
    then show ?thesis using AskExtend False assms(1) by (simp add: deadline_ok_same)
  next
    case True
    have run: "ExtendJobRuntime j extra (lw_store w) = repo_ExtendJobRuntime j (whole_seconds extra) (lw_store w)"
      using True by (auto simp: ExtendJobRuntime_def valid_extension_iff)
    have seconds: "sint (x + whole_seconds extra) = given + sint (whole_seconds extra)"
      if "sint x = given" "j = job" for x :: int64
      using that assms whole_seconds_bounds [OF True] True AskExtend
      by (subst sint64_add) (auto simp: deadline_ok_def)
    show ?thesis
      unfolding AskExtend run_control.simps run repo_ExtendJobRuntime_def
      by (rule deadline_ok_store [OF assms(1)])
        (use True AskExtend seconds whole_seconds_bounds [OF True] in
          \<open>auto simp: apply_control_find dest: find_by_job\<close>)
  qed
next
  case (AskConcurrency j n)
  then show ?thesis using assms(1)
    by (auto simp: SetJobConcurrencyOverride_def repo_SetJobConcurrencyOverride_def
        intro!: deadline_ok_apply deadline_ok_same)
next
  case (AskPool j p)
  then show ?thesis using assms(1)
    by (auto simp: SetJobProxyPoolOverride_def repo_SetJobProxyPoolOverride_def Let_def
        intro!: deadline_ok_apply deadline_ok_same)
next
  case (AskRetry j)
  then show ?thesis using assms(1)
    by (auto simp: RequestJobRetryCurrent_def intro!: deadline_ok_apply)
next
  case (PoolWork op)
  then show ?thesis using assms(1) by (auto simp: deadline_ok_def run_live_deadline)
next
  case (Poll now)
  then show ?thesis using assms(1) by (simp add: poll_ok)
qed

lemma run_controls_ok:
  assumes "deadline_ok job d given w" "given + granted job es < 2 ^ 63"
  shows "deadline_ok job d (given + granted job es) (fold (run_control src pool job) es w)"
  using assms
proof (induction es arbitrary: given w)
  case Nil
  then show ?case by simp
next
  case (Cons e es)
  have "given + added job e < 2 ^ 63"
    using Cons.prems(2) granted_nonneg [of job es] by (simp add: granted_Cons)
  from Cons.IH [OF run_control_ok [OF Cons.prems(1) this]] Cons.prems(2) show ?case
    by (simp add: granted_Cons add.assoc)
qed

text \<open>A run as it starts: the requests of an earlier run are cleared, the deadline is set.\<close>

definition live_start :: "string \<Rightarrow> int64 \<Rightarrow> taskPoolRun \<Rightarrow> ControlStore \<Rightarrow> live_world" where
  "live_start job deadline run cs =
     \<lparr>lw_run = run, lw_live = newLiveRunState deadline, lw_store = ResetJobLiveControls job cs,
      lw_events = [], lw_cancelled = False\<rparr>"

lemma live_start_ok:
  assumes "find (\<lambda>r. lc_JobID r = job) (cs_rows cs) = Some row"
  shows "deadline_ok job d 0 (live_start job d run cs)"
  using assms find_by_job(1) [OF assms]
  by (simp add: deadline_ok_def the_controls_def live_start_def newLiveRunState_def ResetJobLiveControls_def find_control_row)

section \<open>Every granted second counts once\<close>

text \<open>
  C17: From the start of a run, through any requests of operators, work of the pool and polls, the
  next poll leaves the deadline at its first value plus all the seconds the operators were granted
  since the start, each once, and it stops the run for its runtime limit only after that moment.
\<close>

theorem extensions_applied_once:
  assumes "find (\<lambda>r. lc_JobID r = job) (cs_rows cs) = Some row"
    and "0 \<le> sint d" "sint d + granted job es * 10 ^ 9 < 2 ^ 63"
    and "w = fold (run_control src pool job) es (live_start job d run cs)"
  shows "sint (lr_deadlineUnixNano (lw_live (pollLiveControls now src job w))) = sint d + granted job es * 10 ^ 9 \<and>
    (lw_cancelled (pollLiveControls now src job w) \<longrightarrow>
      lw_cancelled w \<or> sint d + granted job es * 10 ^ 9 < sint now)"
proof (intro conjI impI)
  have "granted job es * 10 ^ 9 < 2 ^ 63" using assms(2,3) by linarith
  moreover have "granted job es \<le> granted job es * 10 ^ 9" using granted_nonneg [of job es] by simp
  ultimately have fits: "granted job es < 2 ^ 63" by linarith
  have start: "deadline_ok job d (granted job es) w"
    unfolding assms(4)
    using run_controls_ok [OF live_start_ok [OF assms(1), where d = d and run = run],
        where es = es and src = src and pool = pool] fits
    by simp
  note poll = poll_ok [OF start, where now = now and src = src]
  define x where "x = lr_appliedExtension (lw_live (pollLiveControls now src job w))"
  have x: "sint x = granted job es" using poll(2) by (simp add: x_def)
  have eq: "lr_deadlineUnixNano (lw_live (pollLiveControls now src job w)) = d + x * 1000000000"
    using poll(1) by (simp add: deadline_ok_def x_def)
  have m: "sint (x * 1000000000) = granted job es * 10 ^ 9"
    using x assms(2,3) granted_nonneg [of job es] by (subst sint64_mult) simp_all
  show d: "sint (lr_deadlineUnixNano (lw_live (pollLiveControls now src job w))) = sint d + granted job es * 10 ^ 9"
    unfolding eq using m assms(2,3) granted_nonneg [of job es] by (subst sint64_add) simp_all
  assume c: "lw_cancelled (pollLiveControls now src job w)"
  show "lw_cancelled w \<or> sint d + granted job es * 10 ^ 9 < sint now"
    using c d poll_cancels [OF start, where now = now and src = src] by (metis word_sless_alt)
qed

lemma whole_minute: "whole_seconds 60000000000 = 60"
proof -
  have "f64_round 60 = 60" using f64_round_int [of 60] by simp
  then show ?thesis
    by (simp add: whole_seconds_def Duration_Seconds_def duration_units_def go_div_def go_mod_def f64_of_int_exact
        f64_of_rat_small(1) Let_def)
qed

theorem extensions_applied_once_witness:
  "\<forall>src run pool. sint (lr_deadlineUnixNano (lw_live (pollLiveControls 0 src ''j''
       (fold (run_control src pool ''j'')
         [AskExtend ''j'' (60 * 1000000000), Poll 5, AskExtend ''other'' (90 * 1000000000), PoolWork RetryCurrent,
          AskExtend ''j'' 1]
         (live_start ''j'' 1000 run
           \<lparr>cs_rows = [\<lparr>lc_JobID = ''j'', lc_ExtendedSeconds = 7, lc_ConcurrencyOverride = 0,
              lc_ProxyPoolOverride = [], lc_RetryCurrentRequested = False\<rparr>], cs_audit = []\<rparr>))))) =
     1000 + 60 * 10 ^ 9"
proof (intro allI)
  fix src run pool
  let ?row = "\<lparr>lc_JobID = ''j'', lc_ExtendedSeconds = 7, lc_ConcurrencyOverride = 0,
    lc_ProxyPoolOverride = [], lc_RetryCurrentRequested = False\<rparr>"
  let ?es = "[AskExtend ''j'' (60 * 1000000000), Poll 5, AskExtend ''other'' (90 * 1000000000), PoolWork RetryCurrent,
    AskExtend ''j'' 1]"
  have granted: "granted ''j'' ?es = 60" by (simp add: valid_extension_def whole_minute)
  show "sint (lr_deadlineUnixNano (lw_live (pollLiveControls 0 src ''j''
       (fold (run_control src pool ''j'') ?es
         (live_start ''j'' 1000 run \<lparr>cs_rows = [?row], cs_audit = []\<rparr>))))) = 1000 + 60 * 10 ^ 9"
    using extensions_applied_once [where job = "''j''" and d = 1000 and es = ?es and row = ?row, OF _ _ _ refl,
        where cs = "\<lparr>cs_rows = [?row], cs_audit = []\<rparr>" and run = run and src = src and pool = pool and now = 0]
    by (simp only: granted) simp
qed

end
