(* ===== verification/FailureKinds.thy ===== *)
theory FailureKinds
  imports Database GoStrings
begin

text \<open>
  What a failed attempt is called and how long its task waits: \<open>runner/webrunner/failure_kinds.go\<close>,
  the block markers of \<open>adaptive_resources.go\<close>, and \<open>classifyTaskFailure\<close>, \<open>taskFailureBackoff\<close> of
  \<open>live_run.go\<close>. An error is the text it prints and the sentinel errors it wraps, which is all that
  \<open>err.Error()\<close> and \<open>errors.Is\<close> read of it.
\<close>

section \<open>Errors\<close>

datatype sentinel = errEngineShutdownTimeout | errTaskTruncated | context_Canceled

record attempt_error =
  ae_Error :: string
  ae_wraps :: "sentinel list"

definition errors_Is :: "attempt_error \<Rightarrow> sentinel \<Rightarrow> bool" where
  "errors_Is err target \<longleftrightarrow> target \<in> set (ae_wraps err)"

text \<open>
  \<open>strings.ToLower\<close> as far as a search for ASCII text can see it: the ASCII capitals, and the two
  runes beyond ASCII whose lower case is an ASCII letter, the Kelvin sign and the dotted capital I.
  What it makes of any other byte beyond ASCII is again beyond ASCII, so the byte stands for it.
\<close>

definition lower_byte :: "char \<Rightarrow> char" where
  "lower_byte c = (let n = of_char c :: nat in if 65 \<le> n \<and> n \<le> 90 then char_of (n + 32) else c)"

fun ToLower :: "string \<Rightarrow> string" where
  "ToLower [] = []"
| "ToLower [c] = [lower_byte c]"
| "ToLower [c, d] =
     (if [c, d] = map char_of [0xC4 :: nat, 0xB0] then ''i'' else lower_byte c # ToLower [d])"
| "ToLower (c # d # e # s) =
     (if [c, d] = map char_of [0xC4 :: nat, 0xB0] then CHR ''i'' # ToLower (e # s)
      else if [c, d, e] = map char_of [0xE2 :: nat, 0x84, 0xAA] then CHR ''k'' # ToLower s
      else lower_byte c # ToLower (d # e # s))"

section \<open>The names\<close>

text \<open>The fine kinds.\<close>

definition FailureKindBrowserCrash :: string where "FailureKindBrowserCrash = ''browser-crash''"
definition FailureKindBrowserContextFailure :: string where "FailureKindBrowserContextFailure = ''browser-context-failure''"
definition FailureKindEngineShutdownTimeout :: string where "FailureKindEngineShutdownTimeout = ''engine-shutdown-timeout''"
definition FailureKindTaskTruncated :: string where "FailureKindTaskTruncated = ''task-truncated''"
definition FailureKindNavigationFailure :: string where "FailureKindNavigationFailure = ''navigation-failure''"
definition FailureKindNavigationTimeout :: string where "FailureKindNavigationTimeout = ''navigation-timeout''"
definition FailureKindGoogleBlock :: string where "FailureKindGoogleBlock = ''google-block''"
definition FailureKindRateLimit :: string where "FailureKindRateLimit = ''rate-limit''"
definition FailureKindProxyConnect :: string where "FailureKindProxyConnect = ''proxy-connect''"
definition FailureKindProxyAuth :: string where "FailureKindProxyAuth = ''proxy-auth''"
definition FailureKindNetworkDNS :: string where "FailureKindNetworkDNS = ''network-dns''"
definition FailureKindNetworkTLS :: string where "FailureKindNetworkTLS = ''network-tls''"
definition FailureKindNetworkRefused :: string where "FailureKindNetworkRefused = ''network-refused''"
definition FailureKindOperatorCancelled :: string where "FailureKindOperatorCancelled = ''operator-cancelled''"
definition FailureKindResourcePressure :: string where "FailureKindResourcePressure = ''resource-pressure''"
definition FailureKindParsingFailure :: string where "FailureKindParsingFailure = ''parsing-failure''"
definition FailureKindUnknown :: string where "FailureKindUnknown = ''unknown''"

text \<open>The signals that name a wall or a throttle.\<close>

definition googleBlockSignalCaptcha :: string where "googleBlockSignalCaptcha = ''captcha''"
definition googleBlockSignalUnusualTraffic :: string where "googleBlockSignalUnusualTraffic = ''unusual-traffic''"
definition googleBlockSignalSorryRedirect :: string where "googleBlockSignalSorryRedirect = ''sorry-redirect''"
definition googleBlockSignalConsent :: string where "googleBlockSignalConsent = ''consent''"
definition googleBlockSignalForbidden :: string where "googleBlockSignalForbidden = ''http-403''"
definition googleBlockSignalAccessDenied :: string where "googleBlockSignalAccessDenied = ''access-denied''"
definition googleBlockSignalGeneric :: string where "googleBlockSignalGeneric = ''generic-block''"
definition rateLimitSignalHTTP429 :: string where "rateLimitSignalHTTP429 = ''http-429''"
definition rateLimitSignalTooMany :: string where "rateLimitSignalTooMany = ''too-many-requests''"

text \<open>The coarse buckets.\<close>

definition coarseBlocked :: string where "coarseBlocked = ''blocked''"
definition coarseBrowserFailure :: string where "coarseBrowserFailure = ''browser-failure''"
definition coarseProxyFailure :: string where "coarseProxyFailure = ''proxy-failure''"
definition coarseWebsiteTimeout :: string where "coarseWebsiteTimeout = ''website-timeout''"
definition coarseParsingFailure :: string where "coarseParsingFailure = ''parsing-failure''"
definition coarseTaskFailed :: string where "coarseTaskFailed = ''task-failed''"

lemmas coarse_names = coarseBlocked_def coarseBrowserFailure_def coarseProxyFailure_def coarseWebsiteTimeout_def coarseParsingFailure_def coarseTaskFailed_def
lemmas kind_names = coarse_names
  FailureKindBrowserCrash_def FailureKindBrowserContextFailure_def
  FailureKindEngineShutdownTimeout_def FailureKindTaskTruncated_def FailureKindNavigationFailure_def
  FailureKindNavigationTimeout_def FailureKindGoogleBlock_def FailureKindRateLimit_def
  FailureKindProxyConnect_def FailureKindProxyAuth_def FailureKindNetworkDNS_def
  FailureKindNetworkTLS_def FailureKindNetworkRefused_def FailureKindOperatorCancelled_def
  FailureKindResourcePressure_def FailureKindParsingFailure_def FailureKindUnknown_def

record failureClassification =
  fc_Coarse :: string
  fc_Fine :: string
  fc_Signal :: string

definition classification :: "string \<Rightarrow> string \<Rightarrow> string \<Rightarrow> failureClassification" where
  "classification coarse fine signal = \<lparr>fc_Coarse = coarse, fc_Fine = fine, fc_Signal = signal\<rparr>"

definition coarseForKind :: "string \<Rightarrow> string" where
  "coarseForKind fine =
     (if fine \<in> {FailureKindGoogleBlock, FailureKindRateLimit} then coarseBlocked
      else if fine \<in> {FailureKindBrowserCrash, FailureKindBrowserContextFailure, FailureKindEngineShutdownTimeout}
      then coarseBrowserFailure
      else if fine = FailureKindTaskTruncated then coarseTaskFailed
      else if fine \<in> {FailureKindProxyConnect, FailureKindProxyAuth} then coarseProxyFailure
      else if fine = FailureKindNavigationTimeout then coarseWebsiteTimeout
      else if fine = FailureKindParsingFailure then coarseParsingFailure
      else coarseTaskFailed)"

section \<open>The branches of the coarse decision\<close>

definition blockedFailureMarkers :: "string list" where
  "blockedFailureMarkers =
     [''429'', ''too many requests'', ''rate limit'', ''rate-limit'', ''ratelimit'', ''captcha'',
      ''recaptcha'', ''unusual traffic'', ''/sorry/'', ''sorry/index'', ''consent.google'',
      ''http 403'', ''status 403'', ''status code 403'', ''access denied'', ''temporarily blocked'',
      ''blocked by'']"

definition isBlockedFailure :: "string \<Rightarrow> bool" where
  "isBlockedFailure message \<longleftrightarrow> contains_any message blockedFailureMarkers"

definition matchesBrowserFailure :: "string \<Rightarrow> bool" where
  "matchesBrowserFailure message \<longleftrightarrow> contains_any message
     [''browser'', ''playwright'', ''target closed'', ''driver'', ''chromium'']"

definition matchesProxyFailure :: "string \<Rightarrow> bool" where
  "matchesProxyFailure message \<longleftrightarrow> contains_any message
     [''proxy'', ''socks'', ''tunnel'', ''407'']"

definition matchesWebsiteTimeout :: "string \<Rightarrow> bool" where
  "matchesWebsiteTimeout message \<longleftrightarrow> contains_any message
     [''timeout'', ''deadline'']"

definition matchesParsingFailure :: "string \<Rightarrow> bool" where
  "matchesParsingFailure message \<longleftrightarrow> contains_any message
     [''parse'', ''unmarshal'', ''unexpected'']"

section \<open>The refinement inside a branch\<close>

definition googleBlockSignal :: "string \<Rightarrow> string" where
  "googleBlockSignal message =
     (if contains_any message [''captcha'', ''recaptcha''] then googleBlockSignalCaptcha
      else if contains_any message [''unusual traffic''] then googleBlockSignalUnusualTraffic
      else if contains_any message [''/sorry/'', ''sorry/index''] then googleBlockSignalSorryRedirect
      else if contains_any message [''consent''] then googleBlockSignalConsent
      else if contains_any message [''403''] then googleBlockSignalForbidden
      else if contains_any message [''access denied'', ''temporarily blocked'', ''blocked by''] then googleBlockSignalAccessDenied
      else googleBlockSignalGeneric)"

definition refineBlocked :: "string \<Rightarrow> failureClassification" where
  "refineBlocked message =
     (if contains message ''429'' then classification coarseBlocked FailureKindRateLimit rateLimitSignalHTTP429
      else if contains message ''too many requests''
      then classification coarseBlocked FailureKindRateLimit rateLimitSignalTooMany
      else if contains_any message [''rate limit'', ''rate-limit'', ''ratelimit'']
      then classification coarseBlocked FailureKindRateLimit rateLimitSignalTooMany
      else classification coarseBlocked FailureKindGoogleBlock (googleBlockSignal message))"

definition isContextCreationFailure :: "string \<Rightarrow> bool" where
  "isContextCreationFailure message \<longleftrightarrow> contains_any message
     [''newcontext'', ''new context'', ''create context'', ''context creation'',
      ''creating context'', ''failed to create'', ''newpage'', ''new page'']"

definition browserContextSignal :: "string \<Rightarrow> string" where
  "browserContextSignal message =
     (if contains_any message [''newpage'', ''new page''] then ''new-page''
      else ''new-context'')"

definition browserCrashSignal :: "string \<Rightarrow> string" where
  "browserCrashSignal message =
     (if contains_any message [''target page, context or browser has been closed''] then ''target-closed''
      else if contains_any message [''target closed''] then ''target-closed''
      else if contains_any message [''page crashed'', ''crash''] then ''page-crashed''
      else if contains_any message [''single-process''] then ''single-process''
      else if contains_any message [''has been closed'', ''browser closed'', ''connection closed''] then ''browser-closed''
      else if contains_any message [''disconnected'', ''lost connection''] then ''disconnected''
      else if contains_any message [''exited'', ''signal''] then ''process-exited''
      else ''browser-error'')"

definition refineBrowser :: "string \<Rightarrow> failureClassification" where
  "refineBrowser message =
     (if isContextCreationFailure message
      then classification coarseBrowserFailure FailureKindBrowserContextFailure (browserContextSignal message)
      else classification coarseBrowserFailure FailureKindBrowserCrash (browserCrashSignal message))"

definition refineProxy :: "string \<Rightarrow> failureClassification" where
  "refineProxy message =
     (if contains_any message [''407'', ''proxy authentication'', ''authentication required'', ''auth failed'']
      then classification coarseProxyFailure FailureKindProxyAuth ''proxy-auth''
      else classification coarseProxyFailure FailureKindProxyConnect ''proxy-connect'')"

definition timeoutSignal :: "string \<Rightarrow> string" where
  "timeoutSignal message =
     (if contains_any message [''navigat'', ''goto''] then ''navigation''
      else if contains_any message [''inactiv''] then ''inactivity''
      else if contains_any message [''deadline''] then ''deadline''
      else ''timeout'')"

definition parsingSignal :: "string \<Rightarrow> string" where
  "parsingSignal message =
     (if contains_any message [''unmarshal''] then ''unmarshal''
      else if contains_any message [''parse''] then ''parse''
      else ''unexpected'')"

definition isOperatorCancelled :: "attempt_error \<Rightarrow> string \<Rightarrow> bool" where
  "isOperatorCancelled err message \<longleftrightarrow> errors_Is err context_Canceled \<or> contains_any message
     [''context canceled'', ''context cancelled'', ''operation was canceled'',
      ''operation was cancelled'', ''request cancelled'']"

definition isDNSFailure :: "string \<Rightarrow> bool" where
  "isDNSFailure message \<longleftrightarrow> contains_any message
     [''no such host'', ''err_name_not_resolved'', ''name resolution'', ''could not resolve'',
      ''server misbehaving'', ''dns'']"

definition dnsSignal :: "string \<Rightarrow> string" where
  "dnsSignal message =
     (if contains_any message [''err_name_not_resolved''] then ''err-name-not-resolved''
      else ''no-such-host'')"

definition isTLSFailure :: "string \<Rightarrow> bool" where
  "isTLSFailure message \<longleftrightarrow> contains_any message
     [''x509'', ''certificate'', ''tls'', ''err_cert'', ''err_ssl'', ''ssl handshake'']"

definition tlsSignal :: "string \<Rightarrow> string" where
  "tlsSignal message =
     (if contains_any message [''x509'', ''certificate'', ''err_cert''] then ''certificate''
      else ''tls-handshake'')"

definition isRefusedFailure :: "string \<Rightarrow> bool" where
  "isRefusedFailure message \<longleftrightarrow> contains_any message
     [''connection refused'', ''econnrefused'', ''err_connection_refused'', ''connection reset'',
      ''err_connection_reset'', ''err_connection_closed'', ''no route to host'',
      ''network is unreachable'', ''err_internet_disconnected'']"

definition refusedSignal :: "string \<Rightarrow> string" where
  "refusedSignal message =
     (if contains_any message [''reset''] then ''connection-reset''
      else if contains_any message [''no route to host'', ''network is unreachable'', ''err_internet_disconnected''] then ''unreachable''
      else ''connection-refused'')"

definition isResourcePressure :: "string \<Rightarrow> bool" where
  "isResourcePressure message \<longleftrightarrow> contains_any message
     [''cannot allocate memory'', ''out of memory'', ''oom'', ''no space left'',
      ''too many open files'', ''resource temporarily unavailable'', ''cannot fork'',
      ''insufficient resources'']"

definition resourceSignal :: "string \<Rightarrow> string" where
  "resourceSignal message =
     (if contains_any message [''no space left''] then ''disk-full''
      else if contains_any message [''too many open files''] then ''file-descriptors''
      else if contains_any message [''fork''] then ''cannot-fork''
      else ''memory'')"

definition isNavigationFailure :: "string \<Rightarrow> bool" where
  "isNavigationFailure message \<longleftrightarrow> contains_any message
     [''net::err'', ''navigation'', ''goto'', ''frame was detached'', ''navigating'']"

definition refineTaskFailed :: "attempt_error \<Rightarrow> string \<Rightarrow> failureClassification" where
  "refineTaskFailed err message =
     (if isOperatorCancelled err message
      then classification coarseTaskFailed FailureKindOperatorCancelled ''cancelled''
      else if isDNSFailure message
      then classification coarseTaskFailed FailureKindNetworkDNS (dnsSignal message)
      else if isTLSFailure message
      then classification coarseTaskFailed FailureKindNetworkTLS (tlsSignal message)
      else if isRefusedFailure message
      then classification coarseTaskFailed FailureKindNetworkRefused (refusedSignal message)
      else if isResourcePressure message
      then classification coarseTaskFailed FailureKindResourcePressure (resourceSignal message)
      else if isNavigationFailure message
      then classification coarseTaskFailed FailureKindNavigationFailure ''navigation''
      else classification coarseTaskFailed FailureKindUnknown [])"

section \<open>The classifier\<close>

text \<open>A nil error is \<open>None\<close>.\<close>

definition classifyFailureKind :: "attempt_error option \<Rightarrow> failureClassification" where
  "classifyFailureKind error =
     (case error of
        None \<Rightarrow> classification coarseTaskFailed FailureKindUnknown []
      | Some err \<Rightarrow>
          if errors_Is err errEngineShutdownTimeout
          then classification coarseBrowserFailure FailureKindEngineShutdownTimeout ''browser-teardown-blocked''
          else if errors_Is err errTaskTruncated
          then classification coarseTaskFailed FailureKindTaskTruncated ''cancelled-with-places-owed''
          else
            let message = ToLower (ae_Error err)
            in if isBlockedFailure message then refineBlocked message
               else if matchesBrowserFailure message then refineBrowser message
               else if matchesProxyFailure message then refineProxy message
               else if matchesWebsiteTimeout message
               then classification coarseWebsiteTimeout FailureKindNavigationTimeout (timeoutSignal message)
               else if matchesParsingFailure message
               then classification coarseParsingFailure FailureKindParsingFailure (parsingSignal message)
               else refineTaskFailed err message)"

definition classifyTaskFailure :: "attempt_error option \<Rightarrow> string" where
  "classifyTaskFailure err = fc_Coarse (classifyFailureKind err)"

text \<open>What an event says of a failure; the three keys are set over whatever was there.\<close>

definition annotate ::
  "failureClassification \<Rightarrow> (string \<rightharpoonup> event_value) \<Rightarrow> (string \<rightharpoonup> event_value)" where
  "annotate c entries =
     (let known = entries(''failure_kind'' \<mapsto> EvString (fc_Fine c), ''failure_class'' \<mapsto> EvString (fc_Coarse c))
      in if fc_Signal c = [] then known else known(''failure_signal'' \<mapsto> EvString (fc_Signal c)))"

section \<open>The wait before a retry\<close>

text \<open>Durations are \<open>int64\<close> nanoseconds, so the products wrap.\<close>

definition maximumTaskFailureBackoff :: int64 where
  "maximumTaskFailureBackoff = 300 * 1000000000"

definition class_backoff :: "string \<Rightarrow> int64 \<Rightarrow> int64" where
  "class_backoff failureKind attempts =
     (if failureKind = ''blocked'' then 60 * 1000000000 * attempts
      else if failureKind = ''browser-failure'' then 20 * 1000000000 * attempts
      else if failureKind = ''proxy-failure'' then 30 * 1000000000 * attempts
      else if failureKind = ''website-timeout'' then 10 * 1000000000 * attempts
      else if failureKind = ''parsing-failure'' then 5 * 1000000000
      else 10 * 1000000000 * attempts)"

definition taskFailureBackoff :: "string \<Rightarrow> int64 \<Rightarrow> int64" where
  "taskFailureBackoff failureKind attempts =
     (let attempts = (if attempts <s 1 then 1 else attempts);
          backoff = class_backoff failureKind attempts
      in if maximumTaskFailureBackoff <s backoff then maximumTaskFailureBackoff else backoff)"

section \<open>The classification against its specification\<close>

text \<open>The documented decision: the first bucket of this table one of whose markers occurs in the message.\<close>

definition legacy_branches :: "(string \<times> string list) list" where
  "legacy_branches =
     [(''blocked'',
       [''429'', ''too many requests'', ''rate limit'', ''rate-limit'', ''ratelimit'', ''captcha'',
        ''recaptcha'', ''unusual traffic'', ''/sorry/'', ''sorry/index'', ''consent.google'', ''http 403'',
        ''status 403'', ''status code 403'', ''access denied'', ''temporarily blocked'', ''blocked by'']),
      (''browser-failure'', [''browser'', ''playwright'', ''target closed'', ''driver'', ''chromium'']),
      (''proxy-failure'', [''proxy'', ''socks'', ''tunnel'', ''407'']),
      (''website-timeout'', [''timeout'', ''deadline'']),
      (''parsing-failure'', [''parse'', ''unmarshal'', ''unexpected''])]"

definition first_bucket :: "string \<Rightarrow> string" where
  "first_bucket message =
     (case find (\<lambda>(bucket, markers). \<exists>m \<in> set markers. sublist m message) legacy_branches of
        None \<Rightarrow> ''task-failed''
      | Some (bucket, _) \<Rightarrow> bucket)"

text \<open>The fine kinds an error may be given, per bucket.\<close>

definition kinds_of_bucket :: "(string \<times> string list) list" where
  "kinds_of_bucket =
     [(''blocked'', [''google-block'', ''rate-limit'']),
      (''browser-failure'', [''browser-crash'', ''browser-context-failure'', ''engine-shutdown-timeout'']),
      (''proxy-failure'', [''proxy-connect'', ''proxy-auth'']),
      (''website-timeout'', [''navigation-timeout'']),
      (''parsing-failure'', [''parsing-failure'']),
      (''task-failed'', [''task-truncated'', ''operator-cancelled'', ''network-dns'', ''network-tls'',
         ''network-refused'', ''resource-pressure'', ''navigation-failure'', ''unknown''])]"

definition kind_allowed :: "string \<Rightarrow> string \<Rightarrow> bool" where
  "kind_allowed coarse fine \<longleftrightarrow>
     (case map_of kinds_of_bucket coarse of None \<Rightarrow> False | Some kinds \<Rightarrow> fine \<in> set kinds)"

lemma classification_simps [simp]:
  "fc_Coarse (classification c k s) = c" "fc_Fine (classification c k s) = k"
  "fc_Signal (classification c k s) = s"
  by (simp_all add: classification_def)

lemma refine_coarse [simp]:
  "fc_Coarse (refineBlocked m) = coarseBlocked" "fc_Coarse (refineBrowser m) = coarseBrowserFailure"
  "fc_Coarse (refineProxy m) = coarseProxyFailure" "fc_Coarse (refineTaskFailed err m) = coarseTaskFailed"
  by (simp_all add: refineBlocked_def refineBrowser_def refineProxy_def refineTaskFailed_def)

lemma pick_first:
  "(case find (\<lambda>(b, ms). Q ms) [] of None \<Rightarrow> d | Some (b, _) \<Rightarrow> b) = d"
  "(case find (\<lambda>(b, ms). Q ms) ((c, ms) # xs) of None \<Rightarrow> d | Some (b, _) \<Rightarrow> b) =
     (if Q ms then c else (case find (\<lambda>(b, ms). Q ms) xs of None \<Rightarrow> d | Some (b, _) \<Rightarrow> b))"
  by simp_all

lemma first_bucket_eq:
  "first_bucket m =
     (if isBlockedFailure m then coarseBlocked else if matchesBrowserFailure m then coarseBrowserFailure
      else if matchesProxyFailure m then coarseProxyFailure
      else if matchesWebsiteTimeout m then coarseWebsiteTimeout
      else if matchesParsingFailure m then coarseParsingFailure else coarseTaskFailed)"
  unfolding first_bucket_def legacy_branches_def contains_any_iff [symmetric] pick_first
    isBlockedFailure_def blockedFailureMarkers_def matchesBrowserFailure_def matchesProxyFailure_def
    matchesWebsiteTimeout_def matchesParsingFailure_def coarse_names
  by (rule refl)

lemma bucket_kinds_map: "\<forall>(bucket, kinds) \<in> set kinds_of_bucket. \<forall>k \<in> set kinds. coarseForKind k = bucket"
  by (simp add: kinds_of_bucket_def coarseForKind_def kind_names)

lemma kind_allowed_maps: "kind_allowed coarse fine \<Longrightarrow> coarseForKind fine = coarse"
  using bucket_kinds_map by (fastforce simp: kind_allowed_def dest: map_of_SomeD split: option.splits)

lemma allowed_kinds:
  "kind_allowed coarseBlocked FailureKindRateLimit" "kind_allowed coarseBlocked FailureKindGoogleBlock"
  "kind_allowed coarseBrowserFailure FailureKindBrowserContextFailure" "kind_allowed coarseBrowserFailure FailureKindBrowserCrash"
  "kind_allowed coarseBrowserFailure FailureKindEngineShutdownTimeout"
  "kind_allowed coarseProxyFailure FailureKindProxyAuth" "kind_allowed coarseProxyFailure FailureKindProxyConnect"
  "kind_allowed coarseWebsiteTimeout FailureKindNavigationTimeout"
  "kind_allowed coarseParsingFailure FailureKindParsingFailure"
  "kind_allowed coarseTaskFailed FailureKindTaskTruncated" "kind_allowed coarseTaskFailed FailureKindOperatorCancelled"
  "kind_allowed coarseTaskFailed FailureKindNetworkDNS" "kind_allowed coarseTaskFailed FailureKindNetworkTLS"
  "kind_allowed coarseTaskFailed FailureKindNetworkRefused" "kind_allowed coarseTaskFailed FailureKindResourcePressure"
  "kind_allowed coarseTaskFailed FailureKindNavigationFailure" "kind_allowed coarseTaskFailed FailureKindUnknown"
  by (simp_all add: kind_allowed_def kinds_of_bucket_def kind_names)

lemma refine_allowed:
  "kind_allowed coarseBlocked (fc_Fine (refineBlocked m))"
  "kind_allowed coarseBrowserFailure (fc_Fine (refineBrowser m))"
  "kind_allowed coarseProxyFailure (fc_Fine (refineProxy m))"
  "kind_allowed coarseTaskFailed (fc_Fine (refineTaskFailed err m))"
  by (simp_all add: refineBlocked_def refineBrowser_def refineProxy_def refineTaskFailed_def allowed_kinds)

lemma classified_kind: "kind_allowed (fc_Coarse (classifyFailureKind e)) (fc_Fine (classifyFailureKind e))"
  by (simp add: classifyFailureKind_def Let_def refine_allowed allowed_kinds split: option.split)

text \<open>
  C37: Refining a failure never moves it. For every error that is not one of the two sentinels the
  bucket scheduling acts on is the first of the documented table with a marker in the lower-cased
  text of the error; a wedged engine is a browser failure and a truncated task an ordinary one
  whatever their text says; the fine kind is always one of those of the bucket, so that
  \<open>coarseForKind\<close> gives the bucket back.
\<close>

theorem classification_agrees:
  "coarseForKind (fc_Fine (classifyFailureKind e)) = classifyTaskFailure e \<and>
   kind_allowed (classifyTaskFailure e) (fc_Fine (classifyFailureKind e)) \<and>
   classifyTaskFailure e =
     (case e of
        None \<Rightarrow> ''task-failed''
      | Some err \<Rightarrow>
          if errors_Is err errEngineShutdownTimeout then ''browser-failure''
          else if errors_Is err errTaskTruncated then ''task-failed''
          else first_bucket (ToLower (ae_Error err)))"
proof (intro conjI)
  show "kind_allowed (classifyTaskFailure e) (fc_Fine (classifyFailureKind e))"
    unfolding classifyTaskFailure_def by (rule classified_kind)
  then show "coarseForKind (fc_Fine (classifyFailureKind e)) = classifyTaskFailure e"
    by (rule kind_allowed_maps)
  show "classifyTaskFailure e =
     (case e of
        None \<Rightarrow> ''task-failed''
      | Some err \<Rightarrow>
          if errors_Is err errEngineShutdownTimeout then ''browser-failure''
          else if errors_Is err errTaskTruncated then ''task-failed''
          else first_bucket (ToLower (ae_Error err)))"
    unfolding classifyTaskFailure_def classifyFailureKind_def first_bucket_eq Let_def
    by (simp add: coarseBrowserFailure_def coarseTaskFailed_def split: option.split)
qed

section \<open>Bounds of the wait\<close>

text \<open>The seconds a class waits per attempt, with exact integers.\<close>

definition class_seconds :: "string \<Rightarrow> int \<Rightarrow> int" where
  "class_seconds failureKind attempts =
     (if failureKind = ''blocked'' then 60 * attempts
      else if failureKind = ''browser-failure'' then 20 * attempts
      else if failureKind = ''proxy-failure'' then 30 * attempts
      else if failureKind = ''parsing-failure'' then 5
      else 10 * attempts)"

lemma class_backoff_exact:
  assumes "1 \<le> sint a" "sint a * (60 * 10 ^ 9) < 2 ^ 63"
  shows "sint (class_backoff kind a) = 10 ^ 9 * class_seconds kind (sint a)"
proof -
  have unit: "sint (k * a) = sint k * sint a" if "0 \<le> sint k" "sint k \<le> 60 * 10 ^ 9" for k :: int64
  proof (rule sint64_mult)
    have "sint k * sint a \<le> (60 * 10 ^ 9) * sint a"
      using that(2) assms(1) by (intro mult_right_mono) simp_all
    with assms(2) show "sint k * sint a < 2 ^ 63" by (simp add: mult.commute)
    have "0 \<le> sint k * sint a" using that(1) assms(1) by simp
    then show "- (2 ^ 63) \<le> sint k * sint a" by simp
  qed
  show ?thesis by (simp add: class_backoff_def class_seconds_def unit)
qed

lemma taskFailureBackoff_exact:
  assumes "sint a * (60 * 10 ^ 9) < 2 ^ 63"
  shows "sint (taskFailureBackoff kind a) = 10 ^ 9 * min 300 (class_seconds kind (max 1 (sint a)))"
proof -
  define b where "b = (if a <s 1 then 1 else a)"
  have b: "sint b = max 1 (sint a)" by (auto simp: b_def word_sless_alt)
  have "sint (class_backoff kind b) = 10 ^ 9 * class_seconds kind (sint b)"
    using assms b by (intro class_backoff_exact) auto
  moreover have "taskFailureBackoff kind a =
      (if maximumTaskFailureBackoff <s class_backoff kind b then maximumTaskFailureBackoff
       else class_backoff kind b)"
    by (simp only: taskFailureBackoff_def b_def Let_def)
  ultimately show ?thesis
    by (simp add: b [symmetric] word_sless_alt maximumTaskFailureBackoff_def min_def)
qed

lemma class_seconds_bounds:
  assumes "1 \<le> n"
  shows "5 \<le> class_seconds kind n" "class_seconds kind n \<le> class_seconds ''blocked'' n"
    "n \<le> m \<Longrightarrow> class_seconds kind n \<le> class_seconds kind m"
  using assms by (auto simp: class_seconds_def)

text \<open>
  The wait before a retry is at most five minutes for every class and every attempt count, even
  one whose product wraps. As long as sixty seconds per attempt fit an \<open>int64\<close> of nanoseconds it is
  at least five seconds, so a retry is really deferred, it never shrinks from one attempt to a later
  one, and a blocked attempt waits at least as long as any other class.
\<close>

theorem taskFailureBackoff_bounds:
  "sint (taskFailureBackoff kind a) \<le> 300 * 10 ^ 9 \<and>
   (sint a * (60 * 10 ^ 9) < 2 ^ 63 \<longrightarrow>
     5 * 10 ^ 9 \<le> sint (taskFailureBackoff kind a) \<and>
     sint (taskFailureBackoff kind a) \<le> sint (taskFailureBackoff ''blocked'' a) \<and>
     (sint b \<le> sint a \<longrightarrow> sint (taskFailureBackoff kind b) \<le> sint (taskFailureBackoff kind a)))"
proof (intro conjI impI)
  show "sint (taskFailureBackoff kind a) \<le> 300 * 10 ^ 9"
    by (simp add: taskFailureBackoff_def Let_def word_sless_alt maximumTaskFailureBackoff_def)
  assume a: "sint a * (60 * 10 ^ 9) < 2 ^ 63"
  note exact = taskFailureBackoff_exact [OF this]
  have later: "sint (taskFailureBackoff kind b) \<le> sint (taskFailureBackoff kind a)" if "sint b \<le> sint a"
  proof -
    have "sint b * (60 * 10 ^ 9) \<le> sint a * (60 * 10 ^ 9)" using that by (intro mult_right_mono) simp_all
    then have "sint b * (60 * 10 ^ 9) < 2 ^ 63" using a by (rule le_less_trans)
    moreover have "class_seconds kind (max 1 (sint b)) \<le> class_seconds kind (max 1 (sint a))"
      using that by (intro class_seconds_bounds(3)) (auto simp: le_max_iff_disj)
    ultimately show ?thesis
      by (simp only: taskFailureBackoff_exact exact) (simp add: min_le_iff_disj)
  qed
  show "5 * 10 ^ 9 \<le> sint (taskFailureBackoff kind a)"
    "sint (taskFailureBackoff kind a) \<le> sint (taskFailureBackoff ''blocked'' a)"
    "sint b \<le> sint a \<Longrightarrow> sint (taskFailureBackoff kind b) \<le> sint (taskFailureBackoff kind a)"
    using class_seconds_bounds(1,2) [where n = "max 1 (sint a)" and kind = kind] later
    by (auto simp: exact)
qed

theorem taskFailureBackoff_bounds_witness:
  "sint (3 :: int64) * (60 * 10 ^ 9) < 2 ^ 63 \<and>
   5 * 10 ^ 9 \<le> sint (taskFailureBackoff ''proxy-failure'' 3) \<and>
   sint (taskFailureBackoff ''proxy-failure'' 2) \<le> sint (taskFailureBackoff ''proxy-failure'' 3)"
  using taskFailureBackoff_bounds [where a = 3 and b = 2 and kind = "''proxy-failure''"] by simp

end
