(* ===== verification/TaskWorker.thy ===== *)
theory TaskWorker
  imports FailureKinds LiveRun TaskProperties
begin

text \<open>
  One leased task from its claim to a durable conclusion: \<open>executeLeasedTask\<close> of
  \<open>runner/webrunner/task_pool.go\<close> with \<open>concludeInterruptedTask\<close>, \<open>failLeasedTask\<close>, \<open>deferFailedTask\<close>,
  \<open>retryFinishWrite\<close>, \<open>recordProxyTaskOutcome\<close> and \<open>stoppedBecauseContext\<close>. It composes the plan
  (\<open>TaskLease\<close>), the counters of the pool (\<open>Adaptive\<close>), the proxies and retry marks (\<open>LiveRun\<close>) and
  the names of failures (\<open>FailureKinds\<close>).

  What the browser engine did during the attempt is an argument: the result of the run and the
  state the other goroutines left meanwhile. A write to the database may fail without effect, as a
  list of faults says that the writes use up one by one; the coverage engine's answer is the
  operation on the plan it asks for. Worker events are a log, not rows of \<open>job_events\<close>.
\<close>

section \<open>State\<close>

datatype ctx_error = Canceled | DeadlineExceeded

datatype write_error = Storage_fault | Refused repo_error

datatype worker_note =
    Note_low_disk uint64
  | Note_proxies_unavailable
  | Note_truncated int int
  | Note_cell_empty
  | Note_merge_failed
  | Note_keys_flushed
  | Note_stale_complete
  | Note_stale_fail
  | Note_commit_failed
  | Note_attempt_failed string string
  | Note_last_proxy_failed
  | Note_proxy_stat string string bool

record worker_world =
  ww_db :: Db
  ww_faults :: "bool list"
  ww_run :: taskPoolRun
  ww_live :: liveRunState
  ww_activeTasks :: int
  ww_taskFailures :: int
  ww_runErr :: "ctx_error option"
  ww_parentErr :: bool
  ww_notes :: "worker_note list"

definition worker_event :: "worker_note \<Rightarrow> worker_world \<Rightarrow> worker_world" where
  "worker_event n w = w\<lparr>ww_notes := ww_notes w @ [n]\<rparr>"

text \<open>\<open>runCancel()\<close>: the first error of a context stays.\<close>

definition runCancel :: "worker_world \<Rightarrow> worker_world" where
  "runCancel w = w\<lparr>ww_runErr := (case ww_runErr w of None \<Rightarrow> Some Canceled | Some e \<Rightarrow> Some e)\<rparr>"

definition world_currentStop :: "worker_world \<Rightarrow> StopReason" where
  "world_currentStop w = currentStop (ww_run w)"

text \<open>\<open>if run.requestStop(reason) { record; runCancel() }\<close>\<close>

definition stop_run :: "StopReason \<Rightarrow> worker_note \<Rightarrow> worker_world \<Rightarrow> worker_world" where
  "stop_run reason note w =
     (let (first, run) = requestStop reason (ww_run w); w1 = w\<lparr>ww_run := run\<rparr>
      in if first then runCancel (worker_event note w1) else w1)"

section \<open>Writes\<close>

definition write_once :: "(Db \<Rightarrow> (repo_error + unit) \<times> Db) \<Rightarrow> worker_world \<Rightarrow> write_error option \<times> worker_world" where
  "write_once op w =
     (case ww_faults w of
        True # faults \<Rightarrow> (Some Storage_fault, w\<lparr>ww_faults := faults\<rparr>)
      | faults \<Rightarrow>
          let (answer, db) = op (ww_db w); w1 = w\<lparr>ww_db := db, ww_faults := tl faults\<rparr>
          in case answer of Inl e \<Rightarrow> (Some (Refused e), w1) | Inr _ \<Rightarrow> (None, w1))"

fun lease_lost_error :: "write_error option \<Rightarrow> bool" where
  "lease_lost_error (Some (Refused (ErrCheckpointLeaseLost _))) = True"
| "lease_lost_error _ = False"

text \<open>At most \<open>attempts\<close> tries; a lost lease is not tried again. The error is the last one.\<close>

fun retry_write ::
  "nat \<Rightarrow> (Db \<Rightarrow> (repo_error + unit) \<times> Db) \<Rightarrow> worker_world \<Rightarrow> write_error option \<times> worker_world" where
  "retry_write 0 op w = (None, w)"
| "retry_write (Suc n) op w =
     (let (e, w1) = write_once op w
      in if e = None \<or> lease_lost_error e \<or> n = 0 then (e, w1) else retry_write n op w1)"

definition retryFinishWrite ::
  "(Db \<Rightarrow> (repo_error + unit) \<times> Db) \<Rightarrow> worker_world \<Rightarrow> write_error option \<times> worker_world" where
  "retryFinishWrite op w = retry_write 3 op w"

section \<open>The attempt\<close>

record task_counters =
  tc_SeedsCompleted :: int
  tc_PlacesFound :: int
  tc_PlacesCompleted :: int

text \<open>
  \<open>at_runPath\<close>: the run left an output file; \<open>at_leaseLost\<close>: the heartbeat found the lease taken;
  \<open>at_checkpoint\<close> and \<open>at_mergeErr\<close>: what merging that file answers.
\<close>

record attempt =
  at_runPath :: bool
  at_counters :: task_counters
  at_taskErr :: "attempt_error option"
  at_leaseLost :: bool
  at_checkpoint :: JobTaskCheckpoint
  at_mergeErr :: "attempt_error option"
  at_duration :: int64
  at_coverage :: "plan_op option"

text \<open>What a task runs with.\<close>

record task_settings =
  se_Concurrency :: int
  se_Proxies :: "string list option"
  se_BrowserPool :: int
  se_PagesBrowser :: int

definition settings_for :: "taskProxyAssignment \<Rightarrow> taskPoolRun \<Rightarrow> task_settings" where
  "settings_for assignment r =
     \<lparr>se_Concurrency = task_concurrency r,
      se_Proxies = (if pa_override assignment then Some (pa_proxies assignment) else None),
      se_BrowserPool = (if 0 < tp_browserBudget r then tp_browserBudget r else po_BrowserPool (tp_data r)),
      se_PagesBrowser = (if 0 < tp_pagesBudget r then tp_pagesBudget r else po_PagesBrowser (tp_data r))\<rparr>"

section \<open>Concluding a task\<close>

definition stoppedBecauseContext :: "bool \<Rightarrow> ctx_error option \<Rightarrow> StopReason" where
  "stoppedBecauseContext parentErr runErr =
     (if runErr = Some DeadlineExceeded then StopReasonRuntimeLimit
      else if parentErr then StopReasonShutdown
      else if runErr \<noteq> None then StopReasonShutdown
      else StopReasonNone)"

definition recordProxyTaskOutcome :: "taskProxyAssignment \<Rightarrow> bool \<Rightarrow> worker_world \<Rightarrow> worker_world" where
  "recordProxyTaskOutcome a success w =
     (if pa_statsIndex a < 0 \<or> pa_statsProxyID a = [] then w
      else
        let live = recordProxyOutcome (pa_statsIndex a) success (ww_live w)
        in worker_event (Note_proxy_stat (pa_statsProxyID a) (currentPoolID live) success) (w\<lparr>ww_live := live\<rparr>))"

definition count_failure :: "worker_world \<Rightarrow> worker_world" where
  "count_failure w = w\<lparr>ww_run := (ww_run w)\<lparr>tp_windowFailures := tp_windowFailures (ww_run w) + 1\<rparr>\<rparr>"

definition failLeasedTask ::
  "Env \<Rightarrow> int \<Rightarrow> string \<Rightarrow> string \<Rightarrow> JobTask \<Rightarrow> string \<Rightarrow> JobTaskCheckpoint \<Rightarrow> worker_world \<Rightarrow> worker_world" where
  "failLeasedTask env now job owner task taskErr checkpoint w =
     (let retryable = jt_Attempts task < jt_MaxAttempts task;
          (failErr, w1) = retryFinishWrite
            (FailJobTaskAs env now job (jt_Key task) owner (Some taskErr) retryable checkpoint) (count_failure w)
      in if lease_lost_error failErr then worker_event Note_stale_fail w1
         else
           let w2 = (if failErr \<noteq> None then worker_event Note_commit_failed w1 else w1)
           in if retryable then w2 else w2\<lparr>ww_taskFailures := ww_taskFailures w2 + 1\<rparr>)"

text \<open>
  Times of rows are whole seconds and every wait that is not wrapped is a whole number of them.
\<close>

definition deferFailedTask :: "int \<Rightarrow> string \<Rightarrow> JobTask \<Rightarrow> string \<Rightarrow> worker_world \<Rightarrow> worker_world" where
  "deferFailedTask now job task failureKind w =
     (if jt_MaxAttempts task \<le> jt_Attempts task then w
      else
        let wait = taskFailureBackoff failureKind (word_of_int (jt_Attempts task))
        in if wait \<le>s 0 then w
           else snd (write_once (DeferJobTask now job (jt_Key task) (now + sint wait div 10 ^ 9)) w))"

definition try_merge :: "attempt \<Rightarrow> worker_world \<Rightarrow> worker_world" where
  "try_merge a w = (if at_runPath a \<and> at_mergeErr a \<noteq> None then worker_event Note_merge_failed w else w)"

text \<open>A stop reason is its text; the last constructor is any other one.\<close>

fun string_of_StopReason :: "StopReason \<Rightarrow> string" where
  "string_of_StopReason StopReasonNone = []"
| "string_of_StopReason StopReasonCompleted = ''completed''"
| "string_of_StopReason StopReasonPauseRequested = ''pause_requested''"
| "string_of_StopReason StopReasonUserCancelled = ''user_cancelled''"
| "string_of_StopReason StopReasonRuntimeLimit = ''runtime_limit''"
| "string_of_StopReason StopReasonMaximumRecords = ''maximum_records''"
| "string_of_StopReason StopReasonLowDisk = ''low_disk''"
| "string_of_StopReason StopReasonShutdown = ''shutdown''"
| "string_of_StopReason StopReasonReconfigure = ''reconfigure''"
| "string_of_StopReason StopReasonProxiesUnavailable = ''proxies_unavailable''"
| "string_of_StopReason StopReasonTaskFailures = ''task_failures''"
| "string_of_StopReason StopReasonTasksIncomplete = ''tasks_incomplete''"
| "string_of_StopReason StopReasonFatalError = ''fatal_error''"
| "string_of_StopReason (StopReasonOther s) = s"

definition release_message :: "StopReason \<Rightarrow> string" where
  "release_message reason =
     ''Interrupted by '' @ string_of_StopReason reason @ ''; the task resumes from its plan entry''"

definition concludeInterruptedTask ::
  "Env \<Rightarrow> int \<Rightarrow> string \<Rightarrow> string \<Rightarrow> JobTask \<Rightarrow> attempt \<Rightarrow> worker_world \<Rightarrow> worker_world" where
  "concludeInterruptedTask env now job owner task a w =
     (let w1 = worker_event Note_keys_flushed (try_merge a w);
          stopped = world_currentStop w1;
          reason = (if stopped = StopReasonNone
                    then stoppedBecauseContext (ww_parentErr w1) (ww_runErr w1) else stopped);
          w2 = (if stopped = StopReasonNone then w1\<lparr>ww_run := snd (requestStop reason (ww_run w1))\<rparr> else w1)
      in snd (retryFinishWrite (ReleaseJobTask env now job (jt_Key task) owner (release_message reason)) w2))"

definition note_counters :: "task_counters \<Rightarrow> worker_world \<Rightarrow> worker_world" where
  "note_counters c w =
     (if tc_PlacesCompleted c < tc_PlacesFound c
      then worker_event (Note_truncated (tc_PlacesCompleted c) (tc_PlacesFound c)) w
      else if 0 < tc_SeedsCompleted c \<and> tc_PlacesFound c = 0 then worker_event Note_cell_empty w
      else w)"

definition count_success :: "int64 \<Rightarrow> worker_world \<Rightarrow> worker_world" where
  "count_success duration w =
     w\<lparr>ww_run := (ww_run w)
         \<lparr>tp_windowSuccesses := tp_windowSuccesses (ww_run w) + 1,
          tp_taskLatency := observe duration (tp_taskLatency (ww_run w))\<rparr>\<rparr>"

definition coverage_write :: "Env \<Rightarrow> int \<Rightarrow> plan_op option \<Rightarrow> worker_world \<Rightarrow> worker_world" where
  "coverage_write env now answer w =
     (case answer of
        None \<Rightarrow> w
      | Some op \<Rightarrow>
          snd (write_once (\<lambda>db. case run_op env now op db of
              (None, db') \<Rightarrow> (Inr (), db') | (Some e, db') \<Rightarrow> (Inl e, db')) w))"

definition complete_task ::
  "Env \<Rightarrow> int \<Rightarrow> string \<Rightarrow> string \<Rightarrow> JobTask \<Rightarrow> taskProxyAssignment \<Rightarrow> attempt \<Rightarrow> worker_world \<Rightarrow> worker_world" where
  "complete_task env now job owner task assignment a w =
     (let w1 = worker_event Note_keys_flushed (recordProxyTaskOutcome assignment True w);
          (completeErr, w2) = retryFinishWrite
            (CompleteJobTaskAs env now job (jt_Key task) owner (at_checkpoint a)) w1
      in if lease_lost_error completeErr then worker_event Note_stale_complete w2
         else
           let w3 = count_success (at_duration a) w2
           in if completeErr \<noteq> None then worker_event Note_commit_failed w3
              else coverage_write env now (at_coverage a) w3)"

definition blame_proxy :: "string \<Rightarrow> taskProxyAssignment \<Rightarrow> worker_world \<Rightarrow> worker_world" where
  "blame_proxy failureKind assignment w =
     (if (failureKind = coarseProxyFailure \<or> failureKind = coarseBlocked) \<and> 0 \<le> pa_index assignment
      then
        let (dead, live) = markProxyFailed (pa_index assignment) (ww_live w); w1 = w\<lparr>ww_live := live\<rparr>
        in if dead then stop_run StopReasonProxiesUnavailable Note_last_proxy_failed w1 else w1
      else w)"

definition count_block :: "string \<Rightarrow> worker_world \<Rightarrow> worker_world" where
  "count_block failureKind w =
     (if failureKind = coarseBlocked
      then w\<lparr>ww_run := (ww_run w)\<lparr>tp_windowBlocks := tp_windowBlocks (ww_run w) + 1\<rparr>\<rparr> else w)"

text \<open>A failure before or at the merge: attributed to the proxy, failed and deferred.\<close>

definition fail_and_defer ::
  "Env \<Rightarrow> int \<Rightarrow> string \<Rightarrow> string \<Rightarrow> JobTask \<Rightarrow> attempt_error \<Rightarrow> JobTaskCheckpoint \<Rightarrow> worker_world \<Rightarrow> worker_world" where
  "fail_and_defer env now job owner task err checkpoint w =
     deferFailedTask now job task (classifyTaskFailure (Some err))
       (failLeasedTask env now job owner task (ae_Error err) checkpoint w)"

definition failed_attempt ::
  "Env \<Rightarrow> int \<Rightarrow> string \<Rightarrow> string \<Rightarrow> JobTask \<Rightarrow> taskProxyAssignment \<Rightarrow> attempt_error \<Rightarrow> JobTaskCheckpoint \<Rightarrow>
   worker_world \<Rightarrow> worker_world" where
  "failed_attempt env now job owner task assignment err checkpoint w =
     (let c = classifyFailureKind (Some err); kind = fc_Coarse c;
          w1 = recordProxyTaskOutcome assignment False (count_block kind w);
          w2 = blame_proxy kind assignment (worker_event (Note_attempt_failed kind (fc_Fine c)) w1)
      in fail_and_defer env now job owner task err checkpoint w2)"

definition empty_checkpoint :: JobTaskCheckpoint where
  "empty_checkpoint = \<lparr>cp_State = [], cp_RowsAdded = 0, cp_RowsReplaced = 0, cp_DuplicatesSkipped = 0,
     cp_DiskFreeBytes = 0, cp_Truncated = False, cp_TruncationCap = 0\<rparr>"

definition no_output :: attempt_error where
  "no_output = \<lparr>ae_Error = ''task produced no output file'', ae_wraps = []\<rparr>"

definition merge_error :: "attempt_error \<Rightarrow> attempt_error" where
  "merge_error e = e\<lparr>ae_Error := ''merge checkpoint task results: '' @ ae_Error e\<rparr>"

text \<open>What follows the run of a task; the result says whether the worker keeps claiming.\<close>

definition after_attempt ::
  "Env \<Rightarrow> int \<Rightarrow> string \<Rightarrow> string \<Rightarrow> JobTask \<Rightarrow> taskProxyAssignment \<Rightarrow> attempt \<Rightarrow> worker_world \<Rightarrow> bool \<times> worker_world" where
  "after_attempt env now job owner task assignment a w =
     (let w1 = note_counters (at_counters a) (w\<lparr>ww_live := unregisterTaskCancel (jt_Key task) (ww_live w)\<rparr>);
          (retry, live) = consumeRetryFlag (jt_Key task) (ww_live w1);
          w2 = w1\<lparr>ww_live := live\<rparr>;
          stopping = (ww_runErr w2 \<noteq> None \<or> world_currentStop w2 \<noteq> StopReasonNone)
      in if retry \<and> \<not> stopping
         then (True, snd (write_once (ReleaseJobTask env now job (jt_Key task) owner
                ''Requeued by an operator retry-current request'') (try_merge a w2)))
         else if stopping then (False, concludeInterruptedTask env now job owner task a w2)
         else if at_leaseLost a then (True, w2)
         else if \<not> at_runPath a
         then (True, fail_and_defer env now job owner task
                (case at_taskErr a of None \<Rightarrow> no_output | Some e \<Rightarrow> e) empty_checkpoint
                (recordProxyTaskOutcome assignment False w2))
         else case at_mergeErr a of
           Some e \<Rightarrow> (True, fail_and_defer env now job owner task (merge_error e) (at_checkpoint a)
             (recordProxyTaskOutcome assignment False w2))
         | None \<Rightarrow> (case at_taskErr a of
             None \<Rightarrow> (True, complete_task env now job owner task assignment a w2)
           | Some e \<Rightarrow> (True, failed_attempt env now job owner task assignment e (at_checkpoint a) w2)))"

section \<open>The whole task\<close>

text \<open>The attempt sees the world with the task registered and counted, and leaves a later one.\<close>

type_synonym attempt_env = "task_settings \<Rightarrow> worker_world \<Rightarrow> attempt \<times> worker_world"

definition low_disk :: "workerResourceSample option \<Rightarrow> worker_world \<Rightarrow> bool" where
  "low_disk sample w \<longleftrightarrow>
     (case sample of None \<Rightarrow> False
      | Some s \<Rightarrow> 0 < po_LowDiskBytes (tp_data (ww_run w)) \<and> rs_DiskFreeBytes s < po_LowDiskBytes (tp_data (ww_run w)))"

definition low_disk_message :: "workerResourceSample \<Rightarrow> worker_world \<Rightarrow> string" where
  "low_disk_message s w =
     ''available disk '' @ decimal (uint (rs_DiskFreeBytes s)) @ '' bytes is below safety threshold '' @
     decimal (uint (po_LowDiskBytes (tp_data (ww_run w))))"

definition begin_attempt :: "JobTask \<Rightarrow> worker_world \<Rightarrow> worker_world" where
  "begin_attempt task w =
     w\<lparr>ww_activeTasks := ww_activeTasks w + 1, ww_live := registerTaskCancel (jt_Key task) (ww_live w)\<rparr>"

definition end_attempt :: "worker_world \<Rightarrow> worker_world" where
  "end_attempt w = w\<lparr>ww_activeTasks := ww_activeTasks w - 1\<rparr>"

definition executeLeasedTask ::
  "Env \<Rightarrow> int \<Rightarrow> int \<Rightarrow> string \<Rightarrow> string \<Rightarrow> JobTask \<Rightarrow> workerResourceSample option \<Rightarrow> attempt_env \<Rightarrow>
   worker_world \<Rightarrow> bool \<times> worker_world" where
  "executeLeasedTask env now later job owner task sample attempt w =
     (if low_disk sample w
      then
        let w1 = snd (write_once (ReleaseJobTask env now job (jt_Key task) owner (low_disk_message (the sample) w)) w)
        in (False, stop_run StopReasonLowDisk (Note_low_disk (rs_DiskFreeBytes (the sample))) w1)
      else
        case assignTaskProxies task (ww_live w) of
          (Inl _, live) \<Rightarrow>
            let w1 = snd (write_once (ReleaseJobTask env now job (jt_Key task) owner
                  ''every proxy in the pool is failed or at its task cap'') (w\<lparr>ww_live := live\<rparr>))
            in (False, stop_run StopReasonProxiesUnavailable Note_proxies_unavailable w1)
        | (Inr assignment, live) \<Rightarrow>
            let (a, w1) = attempt (settings_for assignment (ww_run w)) (begin_attempt task (w\<lparr>ww_live := live\<rparr>));
                (continue, w2) = after_attempt env later job owner task assignment a w1
            in (continue, end_attempt w2))"

end
