(* ===== verification/TaskWorkerProperties.thy ===== *)
theory TaskWorkerProperties
  imports TaskWorker
begin

text \<open>
  What becomes of a leased task: a worker that still holds the lease never leaves the task behind,
  whichever way its attempt went and even when the database refuses the first writes.
\<close>

section \<open>What the steps leave alone\<close>

lemma worker_event_frame:
  "ww_db (worker_event n w) = ww_db w" "ww_faults (worker_event n w) = ww_faults w"
  "ww_run (worker_event n w) = ww_run w" "ww_runErr (worker_event n w) = ww_runErr w"
  "ww_live (worker_event n w) = ww_live w" "ww_activeTasks (worker_event n w) = ww_activeTasks w"
  by (simp_all add: worker_event_def)

lemma stop_run_frame:
  "ww_db (stop_run reason n w) = ww_db w" "ww_faults (stop_run reason n w) = ww_faults w"
  by (simp_all add: stop_run_def runCancel_def worker_event_frame case_prod_beta Let_def)

lemma proxy_outcome_frame:
  "ww_db (recordProxyTaskOutcome as s w) = ww_db w" "ww_faults (recordProxyTaskOutcome as s w) = ww_faults w"
  by (simp_all add: recordProxyTaskOutcome_def worker_event_frame Let_def)

lemma counting_frame:
  "ww_db (count_failure w) = ww_db w" "ww_faults (count_failure w) = ww_faults w"
  "ww_db (count_success d w) = ww_db w" "ww_faults (count_success d w) = ww_faults w"
  "ww_db (count_block k w) = ww_db w" "ww_faults (count_block k w) = ww_faults w"
  by (simp_all add: count_failure_def count_success_def count_block_def)

lemma blame_frame:
  "ww_db (blame_proxy k as w) = ww_db w" "ww_faults (blame_proxy k as w) = ww_faults w"
  by (simp_all add: blame_proxy_def stop_run_frame case_prod_beta Let_def)

lemma note_frame:
  "ww_db (try_merge a w) = ww_db w" "ww_faults (try_merge a w) = ww_faults w"
  "ww_runErr (try_merge a w) = ww_runErr w" "ww_run (try_merge a w) = ww_run w"
  "ww_db (note_counters c w) = ww_db w" "ww_faults (note_counters c w) = ww_faults w"
  "ww_run (note_counters c w) = ww_run w" "ww_runErr (note_counters c w) = ww_runErr w"
  "ww_live (note_counters c w) = ww_live w"
  by (simp_all add: try_merge_def note_counters_def worker_event_frame)

lemmas world_frames = worker_event_frame stop_run_frame proxy_outcome_frame counting_frame blame_frame note_frame

section \<open>Writes that succeed in the end\<close>

lemma write_once_ok:
  "ww_faults w = [] \<Longrightarrow> op (ww_db w) = (Inr (), db) \<Longrightarrow> write_once op w = (None, w\<lparr>ww_db := db, ww_faults := []\<rparr>)"
  by (simp add: write_once_def)

lemma write_once_fault:
  "ww_faults w = True # faults \<Longrightarrow> write_once op w = (Some Storage_fault, w\<lparr>ww_faults := faults\<rparr>)"
  by (simp add: write_once_def)

lemma retry_write_ok:
  assumes "ww_faults w = replicate k True" "k < n" "op (ww_db w) = (Inr (), db)"
  shows "retry_write n op w = (None, w\<lparr>ww_db := db, ww_faults := []\<rparr>)"
  using assms
proof (induction n arbitrary: k w)
  case 0
  then show ?case by simp
next
  case (Suc n)
  show ?case
  proof (cases k)
    case 0
    with Suc.prems show ?thesis by (simp add: write_once_ok)
  next
    case (Suc j)
    then have "ww_faults w = True # replicate j True" using Suc.prems(1) by simp
    moreover from this have "retry_write n op (w\<lparr>ww_faults := replicate j True\<rparr>) = (None, w\<lparr>ww_db := db, ww_faults := []\<rparr>)"
      using Suc.prems Suc by (subst Suc.IH [of _ j]) simp_all
    ultimately show ?thesis using Suc.prems Suc by (simp add: write_once_fault)
  qed
qed

lemma retryFinishWrite_ok:
  assumes "ww_faults w = replicate k True" "k \<le> 2" "op (ww_db w) = (Inr (), db)"
  shows "retryFinishWrite op w = (None, w\<lparr>ww_db := db, ww_faults := []\<rparr>)"
  using assms retry_write_ok [of w k 3 op db] by (simp add: retryFinishWrite_def)

lemma retry_write_refused:
  assumes "ww_faults w = []" "op (ww_db w) = (Inl e, ww_db w)" "0 < n" "\<not> lease_lost_error (Some (Refused e))"
  shows "retry_write n op w = (Some (Refused e), w)"
  using assms
proof (induction n)
  case (Suc n)
  have "write_once op w = (Some (Refused e), w)" using Suc.prems(1,2) by (simp add: write_once_def)
  then show ?case using Suc by (cases "n = 0") simp_all
qed simp

section \<open>What the writes do to a held task\<close>

definition row_of :: "string \<Rightarrow> JobTask \<Rightarrow> worker_world \<Rightarrow> TaskRow option" where
  "row_of job task w = find_task job (jt_Key task) (ww_db w)"

text \<open>The worker still holds the task as it was claimed.\<close>

definition holds_task :: "string \<Rightarrow> string \<Rightarrow> JobTask \<Rightarrow> Db \<Rightarrow> TaskRow \<Rightarrow> bool" where
  "holds_task job owner task db r \<longleftrightarrow>
     plan_ok db \<and> find_task job (jt_Key task) db = Some r \<and> tk_state r = taskStateRunning \<and>
     tk_lease_owner r = owner \<and> tk_attempts r = jt_Attempts task \<and> tk_max_attempts r = jt_MaxAttempts task"

lemma holds_count:
  assumes "holds_task job owner task db r"
  shows "count_where (held_by job (jt_Key task) owner) (db_tasks db) = 1"
  using assms held_count [of db job "jt_Key task" r owner] by (simp add: holds_task_def)

lemma holds_attempted: "holds_task job owner task db r \<Longrightarrow> 1 \<le> jt_Attempts task"
  using find_task_SomeD(1) [of job "jt_Key task" db r]
  by (auto simp: holds_task_def plan_ok_def list_all_iff task_ok_def)

lemma release_held:
  assumes "holds_task job owner task db r"
  obtains db' where "ReleaseJobTask env now job (jt_Key task) owner reason db = (Inr (), db')"
    "find_task job (jt_Key task) db' = Some (set_released (RedactString env reason) now r)"
proof (rule that [of "snd (ReleaseJobTask env now job (jt_Key task) owner reason db)"])
  have r: "find (\<lambda>r. task_pk r = (job, jt_Key task)) (db_tasks db) = Some r" "held_by job (jt_Key task) owner r"
    using assms find_task_SomeD [of job "jt_Key task" db r]
    by (auto simp: holds_task_def find_task_def held_by_def task_pk_def)
  show "ReleaseJobTask env now job (jt_Key task) owner reason db =
      (Inr (), snd (ReleaseJobTask env now job (jt_Key task) owner reason db))"
    by (simp add: ReleaseJobTask_def Let_def)
  show "find_task job (jt_Key task) (snd (ReleaseJobTask env now job (jt_Key task) owner reason db)) =
      Some (set_released (RedactString env reason) now r)"
    using r by (simp add: ReleaseJobTask_def Let_def holds_count [OF assms] find_task_frame released.find_update)
qed

lemma finish_held:
  assumes "holds_task job owner task db r"
  obtains db' where "finishJobTask env now job (jt_Key task) owner runErr retryable cp db = (Inr (), db')"
    "find_task job (jt_Key task) db' = Some (set_finished (finish_state runErr retryable)
       (case runErr of None \<Rightarrow> [] | Some e \<Rightarrow> RedactString env e)
       (cp\<lparr>cp_State := finish_state runErr retryable\<rparr>) now r)"
proof -
  have plan: "plan_ok db" and r: "find_task job (jt_Key task) db = Some r" "tk_state r = taskStateRunning"
    "tk_lease_owner r = owner"
    using assms by (simp_all add: holds_task_def)
  have held: "held_by job (jt_Key task) owner r"
    using r find_task_SomeD [OF r(1)] by (simp add: held_by_def task_pk_def)
  show ?thesis
    using plan
  proof (cases rule: finishJobTask_cases [of db job "jt_Key task" env now owner runErr retryable cp])
    case (held r' db')
    then show ?thesis
      using r \<open>held_by job (jt_Key task) owner r\<close>
      by (intro that [of db']) (simp_all add: find_task_def finished.find_update)
  qed (use r in simp_all)
qed

section \<open>The three ways to conclude\<close>

text \<open>Given back: pending again, and the attempt is not counted.\<close>

definition given_back :: "JobTask \<Rightarrow> TaskRow \<Rightarrow> bool" where
  "given_back task r \<longleftrightarrow> tk_state r = taskStatePending \<and> tk_attempts r = jt_Attempts task - 1 \<and>
     tk_lease_owner r = [] \<and> tk_lease_expires_at r = None"

definition completed_with :: "JobTask \<Rightarrow> JobTaskCheckpoint \<Rightarrow> TaskRow \<Rightarrow> bool" where
  "completed_with task cp r \<longleftrightarrow> tk_state r = taskStateCompleted \<and>
     tk_checkpoint r = Some (cp\<lparr>cp_State := taskStateCompleted\<rparr>)"

text \<open>Failed: the attempt counts; with attempts left the task waits, at most five minutes, else it is failed.\<close>

definition attempt_used :: "int \<Rightarrow> JobTask \<Rightarrow> TaskRow \<Rightarrow> bool" where
  "attempt_used now task r \<longleftrightarrow> tk_attempts r = jt_Attempts task \<and> tk_lease_owner r = [] \<and>
     (if jt_Attempts task < jt_MaxAttempts task
      then tk_state r = taskStatePending \<and> (\<exists>t. tk_not_before r = Some t \<and> now + 5 \<le> t \<and> t \<le> now + 300)
      else tk_state r = taskStateFailed)"

lemma given_back_released:
  "holds_task job owner task db r \<Longrightarrow> given_back task (set_released reason now r)"
  using holds_attempted [of job owner task db r]
  by (simp add: given_back_def set_released_def give_back_def holds_task_def)

lemma release_concludes:
  assumes "ww_faults w = replicate k True" "k \<le> 2" "holds_task job owner task (ww_db w) r"
  shows "\<exists>r'. row_of job task (snd (retryFinishWrite (ReleaseJobTask env now job (jt_Key task) owner reason) w)) =
     Some r' \<and> given_back task r'"
proof -
  obtain db' where db: "ReleaseJobTask env now job (jt_Key task) owner reason (ww_db w) = (Inr (), db')"
    "find_task job (jt_Key task) db' = Some (set_released (RedactString env reason) now r)"
    using release_held [OF assms(3)] by metis
  show ?thesis
    using retryFinishWrite_ok [where op = "ReleaseJobTask env now job (jt_Key task) owner reason", OF assms(1,2) db(1)]
      db(2) given_back_released [OF assms(3)]
    by (simp add: row_of_def)
qed

lemma interrupted_concludes:
  assumes "ww_faults w = replicate k True" "k \<le> 2" "holds_task job owner task (ww_db w) r"
  shows "\<exists>r'. row_of job task (concludeInterruptedTask env now job owner task a w) = Some r' \<and> given_back task r'"
  unfolding concludeInterruptedTask_def Let_def
  by (rule release_concludes [OF _ assms(2)]) (use assms in \<open>simp_all add: world_frames\<close>)

lemma backoff_seconds:
  assumes "0 \<le> n" "n \<le> 100"
  shows "5 \<le> sint (taskFailureBackoff kind (word_of_int n)) div 10 ^ 9"
    "sint (taskFailureBackoff kind (word_of_int n)) div 10 ^ 9 \<le> 300"
    "\<not> taskFailureBackoff kind (word_of_int n) \<le>s 0"
proof -
  have n: "sint (word_of_int n :: int64) = n"
    using assms by (simp add: sint_sbintrunc' signed_take_bit_int_eq_self)
  then have "sint (taskFailureBackoff kind (word_of_int n)) = 10 ^ 9 * min 300 (class_seconds kind (max 1 n))"
    using assms by (subst taskFailureBackoff_exact) simp_all
  moreover have "5 \<le> class_seconds kind (max 1 n)" by (rule class_seconds_bounds) simp
  ultimately show "5 \<le> sint (taskFailureBackoff kind (word_of_int n)) div 10 ^ 9"
    "sint (taskFailureBackoff kind (word_of_int n)) div 10 ^ 9 \<le> 300"
    "\<not> taskFailureBackoff kind (word_of_int n) \<le>s 0"
    by (simp_all add: word_sle_eq)
qed

lemma defer_pending:
  assumes "find_task job (jt_Key task) db = Some r" "tk_state r = taskStatePending"
  shows "find_task job (jt_Key task) (snd (DeferJobTask now job (jt_Key task) t db)) = Some (set_deferred t now r)"
proof -
  have "task_pk r = (job, jt_Key task)" using find_task_SomeD [OF assms(1)] by (simp add: task_pk_def)
  then show ?thesis
    using assms by (simp add: DeferJobTask_def find_task_def deferred.find_update)
qed

lemma fail_concludes:
  assumes "ww_faults w = replicate k True" "k \<le> 2" "holds_task job owner task (ww_db w) r"
    "jt_MaxAttempts task \<le> 100"
  shows "\<exists>r'. row_of job task (fail_and_defer env now job owner task err cp w) = Some r' \<and> attempt_used now task r'"
proof -
  let ?retry = "jt_Attempts task < jt_MaxAttempts task"
  define state where "state = finish_state (Some (ae_Error err)) ?retry"
  obtain db' where db: "FailJobTaskAs env now job (jt_Key task) owner (Some (ae_Error err)) ?retry cp (ww_db w) = (Inr (), db')"
    "find_task job (jt_Key task) db' =
       Some (set_finished state (RedactString env (ae_Error err)) (cp\<lparr>cp_State := state\<rparr>) now r)"
    using finish_held [OF assms(3), where env = env and now = now and runErr = "Some (ae_Error err)"
        and retryable = ?retry and cp = cp]
    by (auto simp: FailJobTaskAs_def state_def)
  define r1 where "r1 = set_finished state (RedactString env (ae_Error err)) (cp\<lparr>cp_State := state\<rparr>) now r"
  have r1: "tk_attempts r1 = jt_Attempts task" "tk_lease_owner r1 = []"
    "tk_state r1 = (if ?retry then taskStatePending else taskStateFailed)"
    using assms(3) by (simp_all add: r1_def set_finished_def state_def finish_state_def holds_task_def)
  have written: "retryFinishWrite
      (FailJobTaskAs env now job (jt_Key task) owner (Some (ae_Error err)) ?retry cp) (count_failure w) =
      (None, count_failure w\<lparr>ww_db := db', ww_faults := []\<rparr>)"
    by (rule retryFinishWrite_ok [where k = k]) (use assms db in \<open>simp_all add: world_frames\<close>)
  define w1 where "w1 = failLeasedTask env now job owner task (ae_Error err) cp w"
  have w1: "ww_db w1 = db'" "ww_faults w1 = []"
    using written by (simp_all add: w1_def failLeasedTask_def Let_def)
  show ?thesis
  proof (cases ?retry)
    case False
    then show ?thesis
      using w1 db(2) r1 by (simp add: fail_and_defer_def deferFailedTask_def w1_def [symmetric] row_of_def
          attempt_used_def r1_def [symmetric])
  next
    case True
    have n: "0 \<le> jt_Attempts task" "jt_Attempts task \<le> 100"
      using holds_attempted [OF assms(3)] True assms(4) by simp_all
    note wait = backoff_seconds [OF n, of "classifyTaskFailure (Some err)"]
    define t where "t = now + sint (taskFailureBackoff (classifyTaskFailure (Some err)) (word_of_int (jt_Attempts task))) div 10 ^ 9"
    have "write_once (DeferJobTask now job (jt_Key task) t) w1 =
        (None, w1\<lparr>ww_db := snd (DeferJobTask now job (jt_Key task) t db'), ww_faults := []\<rparr>)"
      by (rule write_once_ok) (simp_all add: w1 DeferJobTask_def)
    moreover have "fail_and_defer env now job owner task err cp w = snd (write_once (DeferJobTask now job (jt_Key task) t) w1)"
      using True wait(3) by (simp add: fail_and_defer_def deferFailedTask_def w1_def t_def)
    ultimately have "row_of job task (fail_and_defer env now job owner task err cp w) = Some (set_deferred t now r1)"
      using True db(2) r1(3) defer_pending [of job task db' r1 now t] by (simp add: row_of_def r1_def [symmetric])
    then show ?thesis
      using True r1 wait by (auto simp: attempt_used_def set_deferred_def t_def)
  qed
qed

lemma coverage_keeps_settled:
  assumes "settled_as job key st cp (ww_db w)" "\<And>op. answer = Some op \<Longrightarrow> well_called op"
  shows "settled_as job key st cp (ww_db (coverage_write env now answer w))"
proof (cases answer)
  case (Some op)
  then have "settled_as job key st cp (snd (run_op env now op (ww_db w)))"
    using assms run_op_settled by blast
  with Some assms(1) show ?thesis
    by (auto simp: coverage_write_def write_once_def Let_def case_prod_beta split: list.split bool.split option.splits)
qed (use assms in \<open>simp add: coverage_write_def\<close>)

lemma complete_concludes:
  assumes "ww_faults w = replicate k True" "k \<le> 2" "holds_task job owner task (ww_db w) r"
    "\<And>op. at_coverage a = Some op \<Longrightarrow> well_called op"
  shows "\<exists>r'. row_of job task (complete_task env now job owner task assignment a w) = Some r' \<and>
     completed_with task (at_checkpoint a) r'"
proof -
  obtain db' where db: "CompleteJobTaskAs env now job (jt_Key task) owner (at_checkpoint a) (ww_db w) = (Inr (), db')"
    "find_task job (jt_Key task) db' = Some (set_finished taskStateCompleted []
       ((at_checkpoint a)\<lparr>cp_State := taskStateCompleted\<rparr>) now r)"
    using finish_held [OF assms(3), where env = env and now = now and runErr = None and retryable = False
        and cp = "at_checkpoint a"]
    by (auto simp: CompleteJobTaskAs_def finish_state_def)
  define w1 where "w1 = worker_event Note_keys_flushed (recordProxyTaskOutcome assignment True w)"
  have "retryFinishWrite (CompleteJobTaskAs env now job (jt_Key task) owner (at_checkpoint a)) w1 =
      (None, w1\<lparr>ww_db := db', ww_faults := []\<rparr>)"
    by (rule retryFinishWrite_ok [where k = k]) (use assms db in \<open>simp_all add: w1_def world_frames\<close>)
  then have eq: "complete_task env now job owner task assignment a w =
      coverage_write env now (at_coverage a) (count_success (at_duration a) (w1\<lparr>ww_db := db', ww_faults := []\<rparr>))"
    by (simp add: complete_task_def w1_def Let_def)
  define w2 where "w2 = count_success (at_duration a) (w1\<lparr>ww_db := db', ww_faults := []\<rparr>)"
  have "settled_as job (jt_Key task) taskStateCompleted
      (Some ((at_checkpoint a)\<lparr>cp_State := taskStateCompleted\<rparr>)) (ww_db w2)"
    using db(2) by (simp add: w2_def world_frames settled_as_def set_finished_def settled_def)
  from coverage_keeps_settled [OF this, of "at_coverage a" env now] assms(4) show ?thesis
    by (auto simp: eq w2_def [symmetric] row_of_def settled_as_def completed_with_def)
qed

section \<open>A task is never left behind\<close>

definition stopping :: "worker_world \<Rightarrow> bool" where
  "stopping w \<longleftrightarrow> ww_runErr w \<noteq> None \<or> world_currentStop w \<noteq> StopReasonNone"

definition retry_marked :: "JobTask \<Rightarrow> worker_world \<Rightarrow> bool" where
  "retry_marked task w \<longleftrightarrow> jt_Key task \<in> set (lr_retryFlags (ww_live w))"

definition succeeded :: "attempt \<Rightarrow> bool" where
  "succeeded a \<longleftrightarrow> at_runPath a \<and> at_mergeErr a = None \<and> at_taskErr a = None"

text \<open>The world once the task is unregistered and its retry mark consumed.\<close>

definition settle_world :: "JobTask \<Rightarrow> attempt \<Rightarrow> worker_world \<Rightarrow> worker_world" where
  "settle_world task a w =
     (let w1 = note_counters (at_counters a) (w\<lparr>ww_live := unregisterTaskCancel (jt_Key task) (ww_live w)\<rparr>)
      in w1\<lparr>ww_live := snd (consumeRetryFlag (jt_Key task) (ww_live w1))\<rparr>)"

lemma settle_frame:
  "ww_db (settle_world task a w) = ww_db w" "ww_faults (settle_world task a w) = ww_faults w"
  "stopping (settle_world task a w) = stopping w"
  by (simp_all add: settle_world_def Let_def stopping_def world_currentStop_def world_frames)

lemma after_attempt_eq:
  "after_attempt env now job owner task assignment a w =
     (let w2 = settle_world task a w
      in if retry_marked task w \<and> \<not> stopping w
         then (True, snd (write_once (ReleaseJobTask env now job (jt_Key task) owner
                ''Requeued by an operator retry-current request'') (try_merge a w2)))
         else if stopping w then (False, concludeInterruptedTask env now job owner task a w2)
         else if at_leaseLost a then (True, w2)
         else if \<not> at_runPath a
         then (True, fail_and_defer env now job owner task
                (case at_taskErr a of None \<Rightarrow> no_output | Some e \<Rightarrow> e) empty_checkpoint
                (recordProxyTaskOutcome assignment False w2))
         else case at_mergeErr a of
           Some e \<Rightarrow> (True, fail_and_defer env now job owner task (merge_error e) (at_checkpoint a)
             (recordProxyTaskOutcome assignment False w2))
         | None \<Rightarrow> (case at_taskErr a of
             None \<Rightarrow> (True, complete_task env now job owner task assignment a w2)
           | Some e \<Rightarrow> (True, failed_attempt env now job owner task assignment e (at_checkpoint a) w2)))"
  unfolding after_attempt_def Let_def case_prod_beta settle_world_def retry_marked_def stopping_def
  by (simp add: world_frames world_currentStop_def consumeRetryFlag_def unregisterTaskCancel_def)

text \<open>What follows the attempt, on every path on which the lease was kept.\<close>

lemma after_attempt_concludes:
  assumes "holds_task job owner task (ww_db w) r" "jt_MaxAttempts task \<le> 100" "\<not> at_leaseLost a"
    and "ww_faults w = replicate k True" "k \<le> (if retry_marked task w \<and> \<not> stopping w then 0 else 2)"
    and "\<And>op. at_coverage a = Some op \<Longrightarrow> well_called op"
    and "after_attempt env now job owner task assignment a w = (continue, w')"
  shows "continue = (\<not> stopping w)"
    and "\<exists>r'. row_of job task w' = Some r' \<and>
      (if stopping w \<or> retry_marked task w then given_back task r'
       else if succeeded a then completed_with task (at_checkpoint a) r'
       else attempt_used now task r')"
proof -
  let ?w2 = "settle_world task a w"
  have held: "holds_task job owner task (ww_db ?w2) r" and faults: "ww_faults ?w2 = replicate k True"
    using assms(1,4) by (simp_all add: settle_frame)
  have k: "k \<le> 2" using assms(5) by (auto split: if_splits)
  note eq = assms(7) [unfolded after_attempt_eq Let_def]
  show "continue = (\<not> stopping w)"
    using eq assms(3) by (auto split: if_splits option.splits)
  note fail = fail_concludes [OF _ k _ assms(2), where r = r]
  have failed: "\<exists>r'. row_of job task (fail_and_defer env now job owner task err cp w3) = Some r' \<and> attempt_used now task r'"
    if "ww_db w3 = ww_db ?w2" "ww_faults w3 = ww_faults ?w2" for err cp w3
    by (rule fail) (use held faults that in simp_all)
  consider "stopping w" | "\<not> stopping w" "retry_marked task w"
    | "\<not> stopping w" "\<not> retry_marked task w" "\<not> succeeded a" | "\<not> stopping w" "\<not> retry_marked task w" "succeeded a"
    by blast
  then show "\<exists>r'. row_of job task w' = Some r' \<and>
      (if stopping w \<or> retry_marked task w then given_back task r'
       else if succeeded a then completed_with task (at_checkpoint a) r'
       else attempt_used now task r')"
  proof cases
    case 1
    then show ?thesis using eq interrupted_concludes [OF faults k held] by auto
  next
    case 2
    then have "k = 0" using assms(5) by simp
    moreover obtain db' where "ReleaseJobTask env now job (jt_Key task) owner
        ''Requeued by an operator retry-current request'' (ww_db ?w2) = (Inr (), db')"
      "find_task job (jt_Key task) db' = Some (set_released (RedactString env
         ''Requeued by an operator retry-current request'') now r)"
      using release_held [OF held] by metis
    ultimately show ?thesis
      using 2 eq faults given_back_released [OF held] write_once_ok [of "try_merge a ?w2"]
      by (auto simp: row_of_def world_frames)
  next
    case 3
    then show ?thesis
      using eq assms(3) by (auto simp: succeeded_def failed_attempt_def Let_def world_frames
          split: option.splits if_splits intro!: failed)
  next
    case 4
    then show ?thesis
      using eq assms(3) complete_concludes [OF faults k held assms(6)] by (auto simp: succeeded_def)
  qed
qed

text \<open>Before the attempt: a task that cannot start is given back and the run is asked to stop.\<close>

lemma stop_run_stops:
  assumes "reason \<noteq> StopReasonNone"
  shows "world_currentStop (stop_run reason note w) \<noteq> StopReasonNone"
  using assms by (simp add: stop_run_def requestStop_def world_currentStop_def currentStop_def runCancel_def
      worker_event_def Let_def)

lemma release_once_concludes:
  assumes "holds_task job owner task (ww_db w) r" "ww_faults w = []"
  shows "\<exists>r'. row_of job task (snd (write_once (ReleaseJobTask env now job (jt_Key task) owner reason) w)) = Some r' \<and>
    given_back task r'"
proof -
  obtain db' where db: "ReleaseJobTask env now job (jt_Key task) owner reason (ww_db w) = (Inr (), db')"
    "find_task job (jt_Key task) db' = Some (set_released (RedactString env reason) now r)"
    using release_held [OF assms(1)] by metis
  show ?thesis
    using write_once_ok [where op = "ReleaseJobTask env now job (jt_Key task) owner reason", OF assms(2) db(1)]
      db(2) given_back_released [OF assms(1)] by (simp add: row_of_def)
qed

text \<open>The task can start: the disk is not low and there is a proxy for it, if it needs one.\<close>

definition can_start :: "workerResourceSample option \<Rightarrow> JobTask \<Rightarrow> worker_world \<Rightarrow> bool" where
  "can_start sample task w \<longleftrightarrow> \<not> low_disk sample w \<and> (\<exists>p. fst (assignTaskProxies task (ww_live w)) = Inr p)"

text \<open>What the attempt is, and the world it leaves.\<close>

definition attempted :: "attempt_env \<Rightarrow> JobTask \<Rightarrow> worker_world \<Rightarrow> attempt \<times> worker_world" where
  "attempted attempt task w =
     (case assignTaskProxies task (ww_live w) of
        (Inr p, live) \<Rightarrow> attempt (settings_for p (ww_run w)) (begin_attempt task (w\<lparr>ww_live := live\<rparr>)))"

text \<open>The lease was kept over the attempt, and at most two writes will be refused after it.\<close>

definition lease_kept :: "string \<Rightarrow> string \<Rightarrow> JobTask \<Rightarrow> attempt \<times> worker_world \<Rightarrow> bool" where
  "lease_kept job owner task aw \<longleftrightarrow>
     (\<exists>r. holds_task job owner task (ww_db (snd aw)) r) \<and> \<not> at_leaseLost (fst aw) \<and>
     (\<exists>k. ww_faults (snd aw) = replicate k True \<and>
        k \<le> (if retry_marked task (snd aw) \<and> \<not> stopping (snd aw) then 0 else 2)) \<and>
     (case at_coverage (fst aw) of None \<Rightarrow> True | Some op \<Rightarrow> well_called op)"

text \<open>
  C3: a worker that keeps its lease never leaves a task behind. A task that cannot start for want
  of disk or proxies is given back with its attempt and the run is stopped. After an attempt, a run
  that is stopping, or the operator's request to retry, gives the task back in the same way; a successful
  attempt completes it with the checkpoint of the merge; any other uses the attempt up, and the
  task waits between five seconds and five minutes if it has more, or is failed. The worker goes on
  claiming unless the run is stopping. The completion, the failure and the release of an interrupted
  run survive two writes in a row that the database refuses, since they are tried three times; the
  other three releases (no disk, no proxy, retry requested) are a single write, and for them it is
  assumed that the write succeeds. The maximum of attempts is at most a hundred, and nothing is
  refused when the task starts.
\<close>

theorem leased_task_concluded:
  assumes "executeLeasedTask env now later job owner task sample attempt w = (continue, w')"
    and "holds_task job owner task (ww_db w) r" "ww_faults w = []" "jt_MaxAttempts task \<le> 100"
    and "attempted attempt task w = (a, w1)" "can_start sample task w \<Longrightarrow> lease_kept job owner task (a, w1)"
  shows "\<exists>r'. row_of job task w' = Some r' \<and>
      (if \<not> can_start sample task w
       then \<not> continue \<and> given_back task r' \<and> world_currentStop w' \<noteq> StopReasonNone
       else continue = (\<not> stopping w1) \<and>
         (if stopping w1 \<or> retry_marked task w1 then given_back task r'
          else if succeeded a then completed_with task (at_checkpoint a) r'
          else attempt_used later task r'))"
proof (cases "can_start sample task w")
  case False
  show ?thesis
  proof (cases "low_disk sample w")
    case True
    then show ?thesis
      using assms(1) False release_once_concludes [OF assms(2,3)]
      by (auto simp: executeLeasedTask_def Let_def row_of_def world_frames stop_run_stops)
  next
    case low: False
    then obtain e live where "assignTaskProxies task (ww_live w) = (Inl e, live)"
      using False by (cases "assignTaskProxies task (ww_live w)"; cases "fst (assignTaskProxies task (ww_live w))")
        (auto simp: can_start_def)
    then show ?thesis
      using assms(1) False low release_once_concludes [of job owner task "w\<lparr>ww_live := live\<rparr>" r] assms(2,3)
      by (auto simp: executeLeasedTask_def Let_def row_of_def world_frames stop_run_stops)
  qed
next
  case True
  then obtain p live where p: "assignTaskProxies task (ww_live w) = (Inr p, live)" "\<not> low_disk sample w"
    by (cases "assignTaskProxies task (ww_live w)") (auto simp: can_start_def)
  obtain w2 where w2: "after_attempt env later job owner task p a w1 = (continue, w2)" "w' = end_attempt w2"
    using assms(1,5) p by (auto simp: executeLeasedTask_def attempted_def split: prod.splits)
  obtain r1 k where kept: "holds_task job owner task (ww_db w1) r1" "\<not> at_leaseLost a"
    "ww_faults w1 = replicate k True" "k \<le> (if retry_marked task w1 \<and> \<not> stopping w1 then 0 else 2)"
    "\<And>op. at_coverage a = Some op \<Longrightarrow> well_called op"
    using assms(6) [OF True] by (auto simp: lease_kept_def split: option.splits)
  show ?thesis
    using True after_attempt_concludes [OF kept(1) assms(4) kept(2-5) w2(1)]
    by (simp add: w2(2) row_of_def end_attempt_def)
qed

definition demo_world :: worker_world where
  "demo_world =
     \<lparr>ww_db = sample_db, ww_faults = [],
      ww_run = start_pool 0
        \<lparr>po_Concurrency = 2, po_Adaptive = True, po_TaskWorkers = 1, po_FastMode = True, po_BrowserPool = 1,
         po_PagesBrowser = 1, po_MemoryCeilingBytes = 0, po_LowDiskBytes = 0\<rparr>
        \<lparr>pl_Workers = 1, pl_PerTaskConcurrency = 2, pl_PerTaskBrowserPool = 1, pl_PerTaskPages = 1,
         pl_BrowserBudgetTotal = 1, pl_CappedExplicit = False, pl_FastMode = True\<rparr> 2 0,
      ww_live = newLiveRunState 0, ww_activeTasks = 0, ww_taskFailures = 0, ww_runErr = None, ww_parentErr = False,
      ww_notes = []\<rparr>"

definition leased :: JobTask where
  "leased = scanJobTask plain_env (sample_task ''a'' ''w1'')"

text \<open>An attempt that meets a captcha, after which the database refuses two writes.\<close>

definition blocked_attempt :: attempt where
  "blocked_attempt =
     \<lparr>at_runPath = True, at_counters = \<lparr>tc_SeedsCompleted = 0, tc_PlacesFound = 3, tc_PlacesCompleted = 1\<rparr>,
      at_taskErr = Some \<lparr>ae_Error = ''captcha'', ae_wraps = []\<rparr>, at_leaseLost = False,
      at_checkpoint = sample_checkpoint, at_mergeErr = None, at_duration = 1, at_coverage = None\<rparr>"

theorem leased_task_concluded_witness:
  "\<exists>r'. row_of ''job'' leased (snd (executeLeasedTask plain_env 100 150 ''job'' ''w1'' leased None
       (\<lambda>s w. (blocked_attempt, w\<lparr>ww_faults := [True, True]\<rparr>)) demo_world)) = Some r' \<and>
     attempt_used 150 leased r'"
proof -
  let ?attempt = "\<lambda>s :: task_settings. \<lambda>w :: worker_world. (blocked_attempt, w\<lparr>ww_faults := [True, True]\<rparr>)"
  obtain continue w' where run: "executeLeasedTask plain_env 100 150 ''job'' ''w1'' leased None ?attempt demo_world =
      (continue, w')" by fastforce
  define w1 where "w1 = snd (attempted ?attempt leased demo_world)"
  have attempted: "attempted ?attempt leased demo_world = (blocked_attempt, w1)"
    by (simp add: w1_def attempted_def assignTaskProxies_def demo_world_def newLiveRunState_def)
  have held: "holds_task ''job'' ''w1'' leased sample_db (sample_task ''a'' ''w1'')"
    using sample_db_ok sample_db_find
    by (simp add: holds_task_def leased_def scanJobTask_def sample_task_def)
  have w1: "ww_db w1 = sample_db" "ww_faults w1 = replicate 2 True" "\<not> retry_marked leased w1" "\<not> stopping w1"
    by (simp_all add: w1_def attempted_def assignTaskProxies_def demo_world_def newLiveRunState_def begin_attempt_def
        retry_marked_def stopping_def world_currentStop_def currentStop_def start_pool_def registerTaskCancel_def
        eval_nat_numeral)
  have kept: "lease_kept ''job'' ''w1'' leased (blocked_attempt, w1)"
    using held w1 by (auto simp: lease_kept_def blocked_attempt_def)
  have start: "can_start None leased demo_world"
    by (simp add: can_start_def low_disk_def assignTaskProxies_def demo_world_def newLiveRunState_def)
  have "ww_db demo_world = sample_db" "ww_faults demo_world = []" "jt_MaxAttempts leased \<le> 100"
    by (simp_all add: demo_world_def leased_def scanJobTask_def sample_task_def)
  with leased_task_concluded [OF run _ _ _ attempted kept] held w1 start show ?thesis
    unfolding run by (auto simp: succeeded_def blocked_attempt_def)
qed

section \<open>What the window counts\<close>

text \<open>
  A success is counted although its completion was refused: only a lost lease is told apart, and a
  task that was reclaimed and not taken again is refused with another error, as is a write that
  fails three times.
\<close>

lemma refused_commit_counted:
  assumes "ww_faults w = []" "plan_ok (ww_db w)" "find_task job (jt_Key task) (ww_db w) = Some r"
    "tk_state r = taskStatePending"
  shows "tp_windowSuccesses (ww_run (complete_task env now job owner task assignment a w)) =
      tp_windowSuccesses (ww_run w) + 1"
    "row_of job task (complete_task env now job owner task assignment a w) = Some r"
proof -
  define w1 where "w1 = worker_event Note_keys_flushed (recordProxyTaskOutcome assignment True w)"
  have w1: "ww_db w1 = ww_db w" "ww_faults w1 = []" "ww_run w1 = ww_run w"
    using assms(1) by (simp_all add: w1_def world_frames recordProxyTaskOutcome_def Let_def)
  have "CompleteJobTaskAs env now job (jt_Key task) owner (at_checkpoint a) (ww_db w) =
      (Inl (ErrTaskNotRunning (jt_Key task) (tk_state r)), ww_db w)"
    using assms(3,4) by (simp add: CompleteJobTaskAs_def finishJobTask_def readJobTask_def scanJobTask_def)
  then have "retryFinishWrite (CompleteJobTaskAs env now job (jt_Key task) owner (at_checkpoint a)) w1 =
      (Some (Refused (ErrTaskNotRunning (jt_Key task) (tk_state r))), w1)"
    using w1 by (simp add: retryFinishWrite_def retry_write_refused)
  then have "complete_task env now job owner task assignment a w =
      worker_event Note_commit_failed (count_success (at_duration a) w1)"
    by (simp add: complete_task_def w1_def [symmetric] Let_def)
  then show "tp_windowSuccesses (ww_run (complete_task env now job owner task assignment a w)) =
      tp_windowSuccesses (ww_run w) + 1"
    "row_of job task (complete_task env now job owner task assignment a w) = Some r"
    using w1 assms(3) by (simp_all add: world_frames count_success_def row_of_def)
qed

end
