(* ===== verification/SearchQueries.thy ===== *)
theory SearchQueries
  imports GoStrings GoFloat
begin

text \<open>
  Search queries tied to ZIP areas: \<open>BuildQueries\<close>, \<open>TopZIPs\<close> and \<open>QueryLines\<close> of
  \<open>web/prospect/queries.go\<close>, and \<open>SplitGBPQuery\<close>/\<open>ParseGBPQueryZIP\<close> of \<open>web/coverage.go\<close>, which
  read the ZIP back out of a query. Text is a byte string in UTF-8. The case mappings of Unicode
  (\<open>strings.ToLower\<close>, \<open>strings.ToUpper\<close>) are arguments; the results hold for every choice of them.
\<close>

section \<open>Functions of the package \<open>strings\<close>\<close>

text \<open>The white-space rune at the front of a string, if one is there.\<close>

definition space_at :: "string \<Rightarrow> string option" where
  "space_at s = find (\<lambda>r. r \<noteq> [] \<and> take (length r) s = r) space_runes"

text \<open>\<open>strings.Fields\<close>; \<open>w\<close> is the field being read.\<close>

function fields_from :: "string \<Rightarrow> string \<Rightarrow> string list" where
  "fields_from w [] = (if w = [] then [] else [w])"
| "fields_from w (c # cs) =
     (case space_at (c # cs) of
        None \<Rightarrow> fields_from (w @ [c]) cs
      | Some r \<Rightarrow> (if w = [] then [] else [w]) @ fields_from [] (drop (length r) (c # cs)))"
  by pat_completeness auto
termination
proof (relation "measure (\<lambda>(w, s). length s)")
  fix c cs and r :: string and w :: string
  assume "space_at (c # cs) = Some r"
  then have "r \<noteq> []" by (auto simp: space_at_def find_Some_iff)
  then show "(([], drop (length r) (c # cs)), w, c # cs) \<in> measure (\<lambda>(w, s). length s)"
    by (cases r) auto
qed auto

definition Fields :: "string \<Rightarrow> string list" where
  "Fields s = fields_from [] s"

text \<open>\<open>strings.Join(words, " ")\<close>.\<close>

fun Join_space :: "string list \<Rightarrow> string" where
  "Join_space [] = []"
| "Join_space [w] = w"
| "Join_space (w # v # ws) = w @ '' '' @ Join_space (v # ws)"

fun last_index :: "string \<Rightarrow> string \<Rightarrow> nat option" where
  "last_index sub [] = (if sub = [] then Some 0 else None)"
| "last_index sub (c # cs) =
     (case last_index sub cs of
        Some i \<Rightarrow> Some (Suc i)
      | None \<Rightarrow> if take (length sub) (c # cs) = sub then Some 0 else None)"

definition LastIndex :: "string \<Rightarrow> string \<Rightarrow> int" where
  "LastIndex s sub = (case last_index sub s of None \<Rightarrow> - 1 | Some i \<Rightarrow> int i)"

definition HasPrefix :: "string \<Rightarrow> string \<Rightarrow> bool" where
  "HasPrefix s p \<longleftrightarrow> take (length p) s = p"

definition TrimPrefix :: "string \<Rightarrow> string \<Rightarrow> string" where
  "TrimPrefix s p = (if HasPrefix s p then drop (length p) s else s)"

text \<open>The case mappings of Unicode.\<close>

record Unicode =
  uc_ToLower :: "string \<Rightarrow> string"
  uc_ToUpper :: "string \<Rightarrow> string"

section \<open>Reading a query\<close>

definition ascii_digit :: "char \<Rightarrow> bool" where
  "ascii_digit c \<longleftrightarrow> 48 \<le> (of_char c :: nat) \<and> (of_char c :: nat) \<le> 57"

definition ascii_capital :: "char \<Rightarrow> bool" where
  "ascii_capital c \<longleftrightarrow> 65 \<le> (of_char c :: nat) \<and> (of_char c :: nat) \<le> 90"

definition isFiveDigitZIP :: "string \<Rightarrow> bool" where
  "isFiveDigitZIP z \<longleftrightarrow> length z = 5 \<and> list_all ascii_digit z"

text \<open>The synonym and the ZIP of a query \<open>"<synonym> in <city> <ST> <zip5>"\<close>.\<close>

definition SplitGBPQuery :: "string \<Rightarrow> (string \<times> string) option" where
  "SplitGBPQuery query =
     (let fields = Fields (TrimSpace query)
      in if length fields < 4 then None
      else let z = last fields
      in if length z \<noteq> 5 then None
      else if \<not> list_all ascii_digit z then None
      else let state = fields ! (length fields - 2)
      in if length state \<noteq> 2 \<or> \<not> ascii_capital (state ! 0) \<or> \<not> ascii_capital (state ! 1) then None
      else let joined = Join_space fields; separator = LastIndex joined '' in ''
      in if separator \<le> 0 then None
      else let synonym = TrimSpace (take (nat separator) joined)
      in if synonym = [] then None
      else if TrimSpace (drop (nat separator + 4) joined) = state @ '' '' @ z then None
      else Some (synonym, z))"

definition ParseGBPQueryZIP :: "string \<Rightarrow> string option" where
  "ParseGBPQueryZIP query = map_option snd (SplitGBPQuery query)"

section \<open>Building queries\<close>

record ZIPArea =
  za_ZIP :: string
  za_City :: string
  za_State :: string
  za_Latitude :: f64
  za_Longitude :: f64
  za_Population :: int

text \<open>\<open>fmt.Sprintf("%s in %s %s %s", ...)\<close> with its white space collapsed.\<close>

definition area_query :: "Unicode \<Rightarrow> string \<Rightarrow> ZIPArea \<Rightarrow> string" where
  "area_query uc synonym area =
     Join_space (Fields (synonym @ '' in '' @ za_City area @ '' '' @ uc_ToUpper uc (za_State area)
       @ '' '' @ za_ZIP area))"

definition zip_query :: "string \<Rightarrow> ZIPArea \<Rightarrow> string" where
  "zip_query synonym area = Join_space (Fields (synonym @ '' '' @ za_ZIP area))"

fun clean_synonyms :: "Unicode \<Rightarrow> string list \<Rightarrow> string list \<Rightarrow> string list" where
  "clean_synonyms uc seen [] = []"
| "clean_synonyms uc seen (synonym # rest) =
     (let s = TrimSpace synonym; key = uc_ToLower uc s
      in if s = [] then clean_synonyms uc seen rest
         else if key \<in> set seen then clean_synonyms uc seen rest
         else s # clean_synonyms uc (key # seen) rest)"

text \<open>The first of the queries with the same text is kept.\<close>

fun first_queries :: "string list \<Rightarrow> (string \<times> ZIPArea) list \<Rightarrow> (string \<times> ZIPArea) list" where
  "first_queries seen [] = []"
| "first_queries seen ((q, z) # rest) =
     (if q \<in> set seen then first_queries seen rest else (q, z) # first_queries (q # seen) rest)"

definition BuildQueries ::
  "Unicode \<Rightarrow> string list \<Rightarrow> ZIPArea list \<Rightarrow> bool \<Rightarrow> int + (string \<times> ZIPArea) list" where
  "BuildQueries uc synonyms zips includeCity =
     (let cleaned = clean_synonyms uc [] synonyms; total = int (length cleaned) * int (length zips)
      in if 5000 < total then Inl total
         else Inr (first_queries []
           (concat (map (\<lambda>s. map (\<lambda>z. (if includeCity then area_query uc s z else zip_query s z, z)) zips)
             cleaned))))"

definition QueryLines :: "(string \<times> ZIPArea) list \<Rightarrow> string list" where
  "QueryLines queries = map fst queries"

text \<open>Go compares strings byte by byte.\<close>

fun string_less :: "string \<Rightarrow> string \<Rightarrow> bool" where
  "string_less s [] = False"
| "string_less [] (d # t) = True"
| "string_less (c # s) (d # t) =
     ((of_char c :: nat) < of_char d \<or> c = d \<and> string_less s t)"

definition more_people :: "ZIPArea \<Rightarrow> ZIPArea \<Rightarrow> bool" where
  "more_people a b \<longleftrightarrow>
     (if za_Population a \<noteq> za_Population b then za_Population b < za_Population a
      else string_less (za_ZIP a) (za_ZIP b))"

definition TopZIPs :: "Unicode \<Rightarrow> ZIPArea list \<Rightarrow> string \<Rightarrow> string \<Rightarrow> int \<Rightarrow> ZIPArea list" where
  "TopZIPs uc areas state0 city0 topN =
     (let top1 = (if topN < 1 then 1 else topN);
          top = (if 500 < top1 then 500 else top1);
          st = uc_ToLower uc (TrimSpace state0); ct = uc_ToLower uc (TrimSpace city0);
          filtered = filter (\<lambda>a. (st = [] \<or> uc_ToLower uc (TrimSpace (za_State a)) = st) \<and>
            (ct = [] \<or> uc_ToLower uc (TrimSpace (za_City a)) = ct)) areas
      in take (nat top) (SliceStable more_people filtered))"

section \<open>Fields and joins\<close>

text \<open>A word: a non-empty string in which no white space begins anywhere.\<close>

definition word_ok :: "string \<Rightarrow> bool" where
  "word_ok w \<longleftrightarrow> w \<noteq> [] \<and> (\<forall>u v. w = u @ v \<longrightarrow> space_at v = None)"

lemma space_eq_char_of: "CHR '' '' = char_of (n :: nat) \<longleftrightarrow> n mod 256 = 32"
  using char_of_eq_iff [of n "CHR '' ''"] by (auto simp: take_bit_eq_mod eq_commute [of "CHR '' ''"])

lemma space_at_None: "space_at s = None \<longleftrightarrow> (\<forall>r \<in> set space_runes. r \<noteq> [] \<longrightarrow> take (length r) s \<noteq> r)"
  by (auto simp: space_at_def find_None_iff)

lemma space_at_Nil [simp]: "space_at [] = None"
  by (simp add: space_at_None)

lemma space_at_prefix: "space_at (v @ t) = None \<Longrightarrow> space_at v = None"
  by (auto simp: space_at_None)

lemma space_runes_inner: "r \<in> set space_runes \<Longrightarrow> CHR '' '' \<notin> set (tl r)"
  by (auto simp: space_runes_def space_eq_char_of)

lemma space_at_in_word:
  assumes "space_at v = None" "v \<noteq> []"
  shows "space_at (v @ CHR '' '' # t) = None"
  unfolding space_at_None
proof (intro ballI impI notI)
  fix r assume r: "r \<in> set space_runes" "r \<noteq> []" "take (length r) (v @ CHR '' '' # t) = r"
  show False
  proof (cases "length r \<le> length v")
    case True
    then have "take (length r) v = r" using r(3) by simp
    then show ?thesis using assms(1) r(1,2) by (auto simp: space_at_None)
  next
    case False
    obtain n where n: "length r - length v = Suc n" using False by (cases "length r - length v") auto
    obtain c v' where v: "v = c # v'" using assms(2) by (cases v) auto
    have "length r = Suc (Suc (length v' + n))" using n v False by simp
    from r(3) [unfolded this v] have "r = c # v' @ CHR '' '' # take n t" by simp
    then have "CHR '' '' \<in> set (tl r)" by simp
    then show ?thesis using space_runes_inner r(1) by blast
  qed
qed

lemma space_at_space: "space_at (CHR '' '' # t) = Some '' ''"
  by (simp add: space_at_def space_runes_def space_eq_char_of) (simp add: char_of_eq_iff)

lemma word_ok_drop: "word_ok (c # w) \<Longrightarrow> w = [] \<or> word_ok w"
  by (auto simp: word_ok_def)

lemma space_runes_prefix_free:
  "\<forall>r \<in> set space_runes. \<forall>q \<in> set space_runes. take (length r) q = r \<longrightarrow> r = q"
  by code_simp

lemma space_at_append: "space_at s = Some r \<Longrightarrow> space_at (s @ t) = Some r"
proof -
  assume "space_at s = Some r"
  then have r: "r \<in> set space_runes" "r \<noteq> []" "take (length r) s = r"
    by (auto simp: space_at_def find_Some_iff)
  then have rt: "take (length r) (s @ t) = r" by (cases "length s < length r") auto
  then obtain q where q: "space_at (s @ t) = Some q"
    using r(1,2) space_at_None [of "s @ t"] by auto
  then have q': "q \<in> set space_runes" "take (length q) (s @ t) = q"
    by (auto simp: space_at_def find_Some_iff)
  have "take (length r) q = r \<or> take (length q) r = q"
    using rt q'(2) by (metis min.commute min_def take_take)
  then have "r = q" using space_runes_prefix_free r(1) q'(1) by metis
  with q show ?thesis by simp
qed

lemma fields_append:
  "fields_from acc (s @ CHR '' '' # t) = fields_from acc s @ fields_from [] t"
proof (induction acc s rule: fields_from.induct)
  case (2 w c cs)
  show ?case
  proof (cases "space_at (c # cs)")
    case None
    then have "space_at (c # cs @ CHR '' '' # t) = None" using space_at_in_word [of "c # cs"] by simp
    then show ?thesis using None 2(1) by simp
  next
    case (Some r)
    then have "space_at (c # cs @ CHR '' '' # t) = Some r" using space_at_append [of "c # cs"] by simp
    moreover have "length r \<le> length (c # cs)"
      using Some unfolding space_at_def by (auto simp: find_Some_iff) (metis length_Cons length_take min.cobounded1)
    moreover have "drop (length r) (c # cs @ CHR '' '' # t) = drop (length r) (c # cs) @ CHR '' '' # t"
      using calculation(2) drop_append [of "length r" "c # cs" "CHR '' '' # t"] by simp
    ultimately show ?thesis using Some 2(2) [OF Some] by simp
  qed
qed (simp add: space_at_space)

lemma Fields_append: "Fields (s @ CHR '' '' # t) = Fields s @ Fields t"
  by (simp add: Fields_def fields_append)

lemma fields_last:
  assumes "w = [] \<or> word_ok w"
  shows "fields_from acc w = (if acc @ w = [] then [] else [acc @ w])"
  using assms
proof (induction w arbitrary: acc)
  case (Cons c w)
  then have "space_at (c # w) = None" by (auto simp: word_ok_def)
  then show ?case using Cons.IH [of "acc @ [c]"] word_ok_drop Cons.prems by fastforce
qed simp

lemma Fields_word [simp]: "word_ok w \<Longrightarrow> Fields w = [w]"
  using fields_last [of w "[]"] by (auto simp: Fields_def word_ok_def)

lemma Fields_Join_space: "(\<And>w. w \<in> set ws \<Longrightarrow> word_ok w) \<Longrightarrow> Fields (Join_space ws) = ws"
  by (induction ws rule: Join_space.induct) (simp_all add: Fields_append, simp add: Fields_def)

lemma fields_words:
  assumes "\<And>u v. acc = u @ v \<Longrightarrow> v \<noteq> [] \<Longrightarrow> space_at (v @ s) = None"
  shows "w \<in> set (fields_from acc s) \<Longrightarrow> word_ok w"
  using assms
proof (induction acc s rule: fields_from.induct)
  case (1 acc)
  have "w = acc" "acc \<noteq> []" using 1(1) by (simp_all split: if_splits)
  moreover have "space_at v = None" if "acc = u @ v" for u v
    using 1(2) [OF that] by (cases "v = []") simp_all
  ultimately show ?case by (simp add: word_ok_def)
next
  case (2 acc c cs)
  show ?case
  proof (cases "space_at (c # cs)")
    case None
    have "space_at (v @ cs) = None" if "acc @ [c] = u @ v" "v \<noteq> []" for u v
      using that None 2(4) [of u "butlast v"]
      by (cases v rule: rev_cases; cases "butlast v = []") auto
    then show ?thesis using 2(1) [OF None] 2(3) None by auto
  next
    case (Some r)
    have "space_at v = None" if "acc = u @ v" for u v
      using 2(4) [OF that] space_at_prefix by (cases "v = []") auto
    then have "word_ok acc" if "acc \<noteq> []" using that by (simp add: word_ok_def)
    then show ?thesis using 2(2) [OF Some] 2(3) Some by (auto split: if_splits)
  qed
qed

lemma Fields_words: "w \<in> set (Fields s) \<Longrightarrow> word_ok w"
  unfolding Fields_def by (rule fields_words) auto

lemma word_ok_printable: "w \<noteq> [] \<Longrightarrow> list_all printable w \<Longrightarrow> word_ok w"
proof -
  assume w: "w \<noteq> []" "list_all printable w"
  have "space_at v = None" if "w = u @ v" for u v
    unfolding space_at_None
  proof (intro ballI impI notI)
    fix r assume r: "r \<in> set space_runes" "r \<noteq> []" "take (length r) v = r"
    then have "hd r \<in> set v" by (metis in_set_takeD list.set_sel(1))
    then show False using w(2) that space_runes_ends [OF r(1)] by (auto simp: list_all_iff)
  qed
  then show ?thesis using w(1) by (simp add: word_ok_def)
qed

section \<open>Trimming and searching a joined string\<close>

lemma Join_space_last:
  "ws \<noteq> [] \<Longrightarrow> Join_space ws = last ws \<or> (\<exists>p. Join_space ws = p @ CHR '' '' # last ws)"
  by (induction ws rule: Join_space.induct) auto

lemma Join_space_append:
  "us \<noteq> [] \<Longrightarrow> vs \<noteq> [] \<Longrightarrow> Join_space (us @ vs) = Join_space us @ CHR '' '' # Join_space vs"
  by (induction us rule: Join_space.induct) (auto simp: neq_Nil_conv)

lemma trim_front_id: "(\<And>r. r \<in> set runes \<Longrightarrow> r \<noteq> [] \<Longrightarrow> take (length r) s \<noteq> r) \<Longrightarrow> trim_front runes s = s"
  by (subst trim_front.simps) (auto split: option.split simp: find_Some_iff)

lemma no_space_at_end:
  assumes "word_ok w" "r \<in> set space_runes" "r \<noteq> []" "s = w \<or> s = p @ CHR '' '' # w"
  shows "s \<noteq> u @ r"
proof
  assume eq: "s = u @ r"
  have r: "space_at r \<noteq> None" using assms(2,3) by (auto simp: space_at_None)
  have "\<exists>v. w = v @ r" if "length r \<le> length w"
  proof -
    have "drop (length s - length r) s = r" using eq by simp
    then have "drop (length w - length r) w = r" using assms(4) that by (auto simp: Suc_diff_le)
    then show ?thesis by (metis append_take_drop_id)
  qed
  then have long: "length w < length r" using assms(1) r by (force simp: word_ok_def)
  then have s: "s = p @ CHR '' '' # w" using assms(4) eq by auto
  have "length s = length u + length r" using eq by simp
  then have "length u \<le> length p" using s long by simp
  moreover have "r = drop (length u) s" using eq by simp
  ultimately have "r = drop (length u) p @ CHR '' '' # w" using s by simp
  then obtain x where x: "r = x @ CHR '' '' # w" by blast
  then have "x = []" using space_runes_inner [OF assms(2)] by (cases x) auto
  then have "space_at (CHR '' '' # w) \<noteq> None \<and> r = '' '' @ w" using x by (simp add: space_at_space)
  moreover have "'' '' \<in> set space_runes"
    using find_Some_iff [THEN iffD1, OF space_at_space [of "[]", unfolded space_at_def]] by auto
  moreover have "take (length '' '') r = '' ''" using calculation by simp
  ultimately have "'' '' = r" using space_runes_prefix_free assms(2) by blast
  with \<open>x = []\<close> x assms(1) show False by (simp add: word_ok_def)
qed

lemma TrimSpace_Join:
  assumes "\<And>w. w \<in> set ws \<Longrightarrow> word_ok w"
  shows "TrimSpace (Join_space ws) = Join_space ws"
proof (cases ws)
  case (Cons w0 ws')
  let ?s = "Join_space ws"
  have "space_at ?s = None"
  proof (cases ws')
    case Nil
    then show ?thesis using Cons assms [of w0] by (auto simp: word_ok_def)
  next
    case (Cons v vs)
    have "word_ok w0" using assms \<open>ws = w0 # ws'\<close> by simp
    then show ?thesis using Cons \<open>ws = w0 # ws'\<close> space_at_in_word [of w0] by (auto simp: word_ok_def)
  qed
  then have front: "trim_front space_runes ?s = ?s" by (intro trim_front_id) (auto simp: space_at_None)
  have "take (length q) (rev ?s) \<noteq> q" if q: "q \<in> set (map rev space_runes)" "q \<noteq> []" for q
  proof
    assume "take (length q) (rev ?s) = q"
    then have "rev ?s = q @ drop (length q) (rev ?s)" by (metis append_take_drop_id)
    then have "?s = rev (drop (length q) (rev ?s)) @ rev q" by (metis rev_append rev_rev_ident)
    moreover have "rev q \<in> set space_runes" "rev q \<noteq> []" using q by auto
    moreover have "word_ok (last ws)" using assms Cons by simp
    ultimately show False using no_space_at_end Join_space_last [of ws] Cons by (metis list.distinct(1))
  qed
  then have "trim_front (map rev space_runes) (rev ?s) = rev ?s" by (intro trim_front_id) auto
  with front show ?thesis by (simp add: TrimSpace_def)
qed (simp add: TrimSpace_inner)

lemma last_index_None: "last_index sub s = None \<longleftrightarrow> \<not> sublist sub s"
proof (induction s)
  case (Cons c cs)
  have "prefix sub (c # cs) \<longleftrightarrow> take (length sub) (c # cs) = sub"
    by (metis append_eq_conv_conj prefix_def append_take_drop_id)
  then show ?case using Cons by (auto simp: sublist_Cons_right simp del: take_Cons' split: option.split)
qed simp

lemma last_index_at:
  assumes "sub \<noteq> []" "\<not> sublist sub (tl (sub @ b))"
  shows "last_index sub (a @ sub @ b) = Some (length a)"
proof (induction a)
  case Nil
  obtain c cs where "sub = c # cs" using assms(1) by (cases sub) auto
  then show ?case using assms(2) last_index_None [of sub "cs @ b"] by simp
qed simp

lemma sublist_skip: "hd m \<notin> set w \<Longrightarrow> m \<noteq> [] \<Longrightarrow> sublist m (w @ s) \<Longrightarrow> sublist m s"
  by (induction w) (auto simp: sublist_Cons_right prefix_Cons neq_Nil_conv)

lemma same_word:
  "CHR '' '' \<notin> set w \<Longrightarrow> CHR '' '' \<notin> set v \<Longrightarrow> w @ CHR '' '' # s = v @ CHR '' '' # t \<Longrightarrow> w = v"
proof (induction w arbitrary: v)
  case Nil
  then show ?case by (cases v) auto
next
  case (Cons c w)
  then show ?case by (cases v) auto
qed

text \<open>Between spaces a joined string shows only its words.\<close>

lemma word_between_spaces:
  assumes "\<And>w. w \<in> set ws \<Longrightarrow> CHR '' '' \<notin> set w" "CHR '' '' \<notin> set v"
    "sublist (CHR '' '' # v @ '' '') (CHR '' '' # Join_space ws)"
  shows "v \<in> set ws"
  using assms(1,3)
proof (induction ws rule: Join_space.induct)
  case 1
  then show ?case using assms(2) by (auto dest!: sublist_length_le)
next
  case (2 w)
  have "CHR '' '' \<in> set (v @ '' '')" by simp
  moreover have "CHR '' '' \<notin> set w" using 2 by simp
  moreover have "\<not> sublist (CHR '' '' # v @ '' '') w"
    using \<open>CHR '' '' \<notin> set w\<close> set_mono_sublist by fastforce
  moreover have "\<not> prefix (v @ '' '') w"
    using \<open>CHR '' '' \<notin> set w\<close> set_mono_prefix [of "v @ '' ''" w] by auto
  ultimately show ?case using 2(2) by (auto simp: sublist_Cons_right)
next
  case (3 w u ws)
  have w: "CHR '' '' \<notin> set w" using 3 by simp
  have "prefix (v @ '' '') (w @ CHR '' '' # Join_space (u # ws)) \<or>
      sublist (CHR '' '' # v @ '' '') (w @ CHR '' '' # Join_space (u # ws))"
    using 3(3) by (auto simp: sublist_Cons_right)
  then show ?case
  proof
    assume "prefix (v @ '' '') (w @ CHR '' '' # Join_space (u # ws))"
    then have "w = v" using same_word [OF w assms(2)] by (auto simp: prefix_def)
    then show ?case by simp
  next
    assume "sublist (CHR '' '' # v @ '' '') (w @ CHR '' '' # Join_space (u # ws))"
    then have "sublist (CHR '' '' # v @ '' '') (CHR '' '' # Join_space (u # ws))"
      using sublist_skip [of "CHR '' '' # v @ '' ''" w] w by simp
    then show ?case using 3 by simp
  qed
qed

lemma word_no_space: "word_ok w \<Longrightarrow> CHR '' '' \<notin> set w"
  unfolding word_ok_def by (metis in_set_conv_decomp option.distinct(1) space_at_space)

section \<open>A generated query gives its ZIP back\<close>

lemma ascii_printable: "ascii_digit c \<or> ascii_capital c \<Longrightarrow> printable c"
  by (auto simp: ascii_digit_def ascii_capital_def printable_def)

definition area_ok :: "Unicode \<Rightarrow> ZIPArea \<Rightarrow> bool" where
  "area_ok uc area \<longleftrightarrow> isFiveDigitZIP (za_ZIP area) \<and>
     length (uc_ToUpper uc (za_State area)) = 2 \<and> list_all ascii_capital (uc_ToUpper uc (za_State area)) \<and>
     Fields (za_City area) \<noteq> [] \<and> ''in'' \<notin> set (Fields (za_City area))"

lemma query_words:
  assumes "area_ok uc area"
  shows "area_query uc synonym area =
    Join_space (Fields synonym @ ''in'' # Fields (za_City area) @
      [uc_ToUpper uc (za_State area), za_ZIP area])"
proof -
  let ?st = "uc_ToUpper uc (za_State area)"
  have "word_ok ?st" "word_ok (za_ZIP area)"
    using assms ascii_printable
    by (auto intro!: word_ok_printable simp: area_ok_def isFiveDigitZIP_def list_all_iff)
  moreover have "word_ok ''in''" by (rule word_ok_printable) (simp_all add: printable_def)
  moreover have "Fields (''in'' @ CHR '' '' # t) = Fields ''in'' @ Fields t" for t by (rule Fields_append)
  ultimately have "Fields (synonym @ '' '' @ ''in'' @ '' '' @ za_City area @ '' '' @ ?st @ '' '' @ za_ZIP area) =
      Fields synonym @ ''in'' # Fields (za_City area) @ [?st, za_ZIP area]"
    by (simp add: Fields_append)
  then show ?thesis by (simp add: area_query_def)
qed

lemma split_query:
  assumes "Fields (TrimSpace q) = ws" "4 \<le> length ws" "last ws = z" "length z = 5"
    "list_all ascii_digit z" "ws ! (length ws - 2) = st" "length st = 2" "ascii_capital (st ! 0)"
    "ascii_capital (st ! 1)" "LastIndex (Join_space ws) '' in '' = int n"
    "take n (Join_space ws) = front" "drop (n + 4) (Join_space ws) = rest" "0 < n"
    "TrimSpace front = front" "front \<noteq> []" "TrimSpace rest \<noteq> st @ '' '' @ z"
  shows "SplitGBPQuery q = Some (front, z)"
  using assms by (simp add: SplitGBPQuery_def Let_def)

lemma SplitGBPQuery_area_query:
  assumes "Fields synonym \<noteq> []" "area_ok uc area"
  shows "SplitGBPQuery (area_query uc synonym area) = Some (Join_space (Fields synonym), za_ZIP area)"
proof -
  let ?st = "uc_ToUpper uc (za_State area)" and ?z = "za_ZIP area"
  let ?S = "Fields synonym" and ?C = "Fields (za_City area)"
  let ?tail = "?C @ [?st, ?z]"
  let ?ws = "?S @ ''in'' # ?tail"
  have st: "word_ok ?st" "word_ok ?z"
    using assms(2) ascii_printable
    by (auto intro!: word_ok_printable simp: area_ok_def isFiveDigitZIP_def list_all_iff)
  have "word_ok ''in''" by (rule word_ok_printable) (simp_all add: printable_def)
  with st have words: "word_ok w" if "w \<in> set ?ws" for w using that Fields_words by auto
  have q: "area_query uc synonym area = Join_space ?ws" by (rule query_words [OF assms(2)])
  have "TrimSpace (Join_space ?ws) = Join_space ?ws" "Fields (Join_space ?ws) = ?ws"
    by (rule TrimSpace_Join Fields_Join_space, rule words, assumption)+
  then have fields: "Fields (TrimSpace (area_query uc synonym area)) = ?ws"
    by (simp only: q)
  have C: "?C \<noteq> []" "''in'' \<notin> set ?C" using assms(2) by (simp_all add: area_ok_def)
  have joined: "Join_space ?ws = Join_space ?S @ '' in '' @ Join_space ?tail"
    using assms(1) Join_space_append [of ?S "''in'' # ?tail"] Join_space_append [of "[''in'']" ?tail]
    by simp
  have "\<not> sublist '' in '' (tl ('' in '' @ Join_space ?tail))"
  proof
    assume "sublist '' in '' (tl ('' in '' @ Join_space ?tail))"
    then have between: "sublist (CHR '' '' # ''in'' @ '' '') (CHR '' '' # Join_space ?tail)"
      by (simp add: sublist_Cons_right)
    have "CHR '' '' \<notin> set w" if "w \<in> set ?tail" for w
      by (rule word_no_space, rule words) (use that in auto)
    from word_between_spaces [OF this _ between] have "''in'' \<in> set ?tail" by simp
    moreover have "list_all ascii_capital ?st" "length ?z = 5"
      using assms(2) by (simp_all add: area_ok_def isFiveDigitZIP_def)
    moreover have "\<not> list_all ascii_capital ''in''" by (simp add: ascii_capital_def)
    ultimately have "?st \<noteq> ''in''" "?z \<noteq> ''in''" by metis (use \<open>length ?z = 5\<close> in auto)
    then show False using \<open>''in'' \<in> set ?tail\<close> C(2) by (metis Un_iff empty_iff empty_set set_ConsD set_append)
  qed
  then have idx: "LastIndex (Join_space ?ws) '' in '' = int (length (Join_space ?S))"
    using last_index_at [of "'' in ''" "Join_space ?tail" "Join_space ?S"]
    by (simp add: LastIndex_def joined)
  have S: "Join_space ?S \<noteq> []"
  proof -
    have "last ?S \<noteq> []"
      using assms(1) Fields_words [of "last ?S" synonym] by (simp add: word_ok_def)
    then show ?thesis using Join_space_last [OF assms(1)] by auto
  qed
  have tail: "Join_space ?tail = Join_space ?C @ CHR '' '' # ?st @ '' '' @ ?z"
    using C(1) by (simp add: Join_space_append)
  have "TrimSpace (Join_space ?tail) = Join_space ?tail"
    by (rule TrimSpace_Join, rule words) auto
  then have "TrimSpace (Join_space ?tail) \<noteq> ?st @ '' '' @ ?z"
    unfolding tail by (metis add_Suc_right length_Cons length_append less_add_Suc2 less_irrefl)
  moreover have "TrimSpace (Join_space ?S) = Join_space ?S"
    by (rule TrimSpace_Join, rule words) auto
  moreover have "length ?z = 5" "list_all ascii_digit ?z" "length ?st = 2"
      "ascii_capital (?st ! 0)" "ascii_capital (?st ! 1)"
    using assms(2) by (auto simp: area_ok_def isFiveDigitZIP_def list_all_length)
  moreover have "?ws ! (length ?ws - 2) = ?st" "4 \<le> length ?ws" "last ?ws = ?z"
    using assms(1) C(1) by (auto simp: nth_append neq_Nil_conv)
  moreover have "take (length (Join_space ?S)) (Join_space ?ws) = Join_space ?S"
      "drop (length (Join_space ?S) + 4) (Join_space ?ws) = Join_space ?tail"
    by (simp_all add: joined)
  ultimately show ?thesis
    by (intro split_query [OF fields _ _ _ _ _ _ _ _ idx]) (use S in simp_all)
qed

section \<open>The queries of a plan\<close>

lemma trim_front_suffix: "\<exists>u. s = u @ trim_front runes s"
proof (induction runes s rule: trim_front.induct)
  case (1 runes s)
  show ?case
  proof (cases "find (\<lambda>r. r \<noteq> [] \<and> take (length r) s = r) runes")
    case None
    then show ?thesis by (subst trim_front.simps) simp
  next
    case (Some r)
    from 1 [OF Some] obtain u where "drop (length r) s = u @ trim_front runes (drop (length r) s)" ..
    then have "s = (take (length r) s @ u) @ trim_front runes (drop (length r) s)"
      by (metis append.assoc append_take_drop_id)
    moreover have "trim_front runes s = trim_front runes (drop (length r) s)"
      by (subst trim_front.simps) (simp add: Some)
    ultimately show ?thesis by metis
  qed
qed

lemma trim_front_space: "space_at (trim_front space_runes s) = None"
proof (induction "space_runes" s rule: trim_front.induct)
  case (1 s)
  then show ?case by (subst trim_front.simps) (simp add: space_at_def split: option.split)
qed

lemma space_at_TrimSpace: "space_at (TrimSpace s) = None"
proof -
  let ?t = "trim_front space_runes s"
  obtain u where "rev ?t = u @ trim_front (map rev space_runes) (rev ?t)"
    using trim_front_suffix by blast
  then have "?t = TrimSpace s @ rev u" unfolding TrimSpace_def by (metis rev_append rev_rev_ident)
  then show ?thesis using trim_front_space [of s] space_at_prefix by metis
qed

lemma fields_acc: "acc \<noteq> [] \<Longrightarrow> fields_from acc s \<noteq> []"
  by (induction acc s rule: fields_from.induct) (auto split: option.split)

lemma Fields_trimmed: "TrimSpace s \<noteq> [] \<Longrightarrow> Fields (TrimSpace s) \<noteq> []"
  using space_at_TrimSpace [of s] fields_acc by (cases "TrimSpace s") (simp_all add: Fields_def)

lemma clean_synonyms_laws:
  "t \<in> set (clean_synonyms uc seen ss) \<Longrightarrow> t \<noteq> [] \<and> (\<exists>s \<in> set ss. t = TrimSpace s)"
  by (induction ss arbitrary: seen) (auto simp: Let_def split: if_splits)

lemma clean_synonyms_kept:
  "s \<in> set ss \<Longrightarrow> TrimSpace s \<noteq> [] \<Longrightarrow> uc_ToLower uc (TrimSpace s) \<notin> set seen \<Longrightarrow>
   \<exists>t \<in> set (clean_synonyms uc seen ss). uc_ToLower uc t = uc_ToLower uc (TrimSpace s)"
proof (induction ss arbitrary: seen)
  case (Cons a ss)
  let ?key = "uc_ToLower uc (TrimSpace a)"
  consider "?key = uc_ToLower uc (TrimSpace s)" "TrimSpace a \<noteq> []" | "?key \<noteq> uc_ToLower uc (TrimSpace s)"
    | "TrimSpace a = []" by blast
  then show ?case
    by cases (use Cons.prems Cons.IH [of seen] Cons.IH [of "?key # seen"] in \<open>auto simp: Let_def\<close>)
qed simp

lemma first_queries_laws:
  "distinct (map fst (first_queries seen qs))"
  "set (map fst (first_queries seen qs)) = fst ` set qs - set seen"
  "set (first_queries seen qs) \<subseteq> set qs"
  "length (first_queries seen qs) \<le> length qs"
proof (induction qs arbitrary: seen)
  case (Cons p qs)
  obtain q z where p: "p = (q, z)" by (cases p)
  { case 1 then show ?case using Cons.IH(1,2) by (auto simp: p) }
  { case 2 then show ?case using Cons.IH(2) by (auto simp: p) }
  { case 3 then show ?case using Cons.IH(3) by (auto simp: p) }
  { case 4 then show ?case using Cons.IH(4) by (auto simp: p le_SucI) }
qed auto

definition area_pairs :: "Unicode \<Rightarrow> string list \<Rightarrow> ZIPArea list \<Rightarrow> (string \<times> ZIPArea) list" where
  "area_pairs uc cleaned zips = concat (map (\<lambda>s. map (\<lambda>z. (area_query uc s z, z)) zips) cleaned)"

lemma area_pairs_laws:
  "set (area_pairs uc cleaned zips) = {(area_query uc s z, z) |s z. s \<in> set cleaned \<and> z \<in> set zips}"
  "length (area_pairs uc cleaned zips) = length cleaned * length zips"
  by (auto simp: area_pairs_def length_concat o_def sum_list_triv)

text \<open>
  C38: a plan built with cities in its queries has at most 5000 queries and no text twice. Each query
  belongs to an area of the plan and a synonym of the list, and splitting it again, as the adaptive
  engine does, gives back exactly that synonym, its words separated by single spaces, and the ZIP of
  the area. Every area is searched for every synonym that is not blank, in one of its
  spellings in the list when several differ only in case. The areas must have well-formed fields.
\<close>

theorem BuildQueries_complete:
  assumes "BuildQueries uc synonyms zips True = Inr queries" "list_all (area_ok uc) zips"
  shows "distinct (QueryLines queries) \<and> length queries \<le> 5000 \<and>
    (\<forall>(q, z) \<in> set queries. z \<in> set zips \<and> ParseGBPQueryZIP q = Some (za_ZIP z) \<and>
      (\<exists>s \<in> set synonyms. TrimSpace s \<noteq> [] \<and> q = area_query uc (TrimSpace s) z \<and>
         SplitGBPQuery q = Some (Join_space (Fields (TrimSpace s)), za_ZIP z))) \<and>
    (\<forall>s \<in> set synonyms. \<forall>z \<in> set zips. TrimSpace s \<noteq> [] \<longrightarrow>
      (\<exists>t \<in> set synonyms. uc_ToLower uc (TrimSpace t) = uc_ToLower uc (TrimSpace s) \<and>
        area_query uc (TrimSpace t) z \<in> set (QueryLines queries)))"
proof -
  let ?c = "clean_synonyms uc [] synonyms"
  have q: "queries = first_queries [] (area_pairs uc ?c zips)" and n: "length ?c * length zips \<le> 5000"
    using assms(1) by (auto simp: BuildQueries_def area_pairs_def Let_def simp flip: of_nat_mult
        split: if_splits)
  note laws = first_queries_laws [of "[]" "area_pairs uc ?c zips", folded q]
  have "length queries \<le> 5000" using laws(4) n by (simp add: area_pairs_laws)
  moreover have "z \<in> set zips \<and> ParseGBPQueryZIP t = Some (za_ZIP z) \<and>
      (\<exists>s \<in> set synonyms. TrimSpace s \<noteq> [] \<and> t = area_query uc (TrimSpace s) z \<and>
         SplitGBPQuery t = Some (Join_space (Fields (TrimSpace s)), za_ZIP z))"
    if tz: "(t, z) \<in> set queries" for t z
  proof -
    obtain s where s: "s \<in> set ?c" "z \<in> set zips" "t = area_query uc s z"
      using tz laws(3) by (auto simp: area_pairs_laws)
    obtain s0 where s0: "s0 \<in> set synonyms" "s = TrimSpace s0" "s \<noteq> []" "Fields s \<noteq> []"
      using clean_synonyms_laws [OF s(1)] Fields_trimmed by auto
    then have "SplitGBPQuery t = Some (Join_space (Fields s), za_ZIP z)"
      using s assms(2) SplitGBPQuery_area_query by (simp add: list_all_iff)
    then show ?thesis using s s0 by (auto simp: ParseGBPQueryZIP_def)
  qed
  moreover have "\<exists>t \<in> set synonyms. uc_ToLower uc (TrimSpace t) = uc_ToLower uc (TrimSpace s) \<and>
      area_query uc (TrimSpace t) z \<in> set (QueryLines queries)"
    if given: "s \<in> set synonyms" "z \<in> set zips" "TrimSpace s \<noteq> []" for s z
  proof -
    obtain t where t: "t \<in> set ?c" "uc_ToLower uc t = uc_ToLower uc (TrimSpace s)"
      using clean_synonyms_kept [OF given(1,3), of uc "[]"] by auto
    then have "(area_query uc t z, z) \<in> set (area_pairs uc ?c zips)"
      using given(2) by (auto simp: area_pairs_laws)
    then have "area_query uc t z \<in> set (QueryLines queries)"
      using laws(2) by (force simp: QueryLines_def)
    then show ?thesis using t clean_synonyms_laws [OF t(1)] by auto
  qed
  ultimately show ?thesis using laws(1) by (auto simp: QueryLines_def)
qed

text \<open>The case mappings on ASCII text, and an area.\<close>

definition ascii :: Unicode where
  "ascii = \<lparr>uc_ToLower = map (\<lambda>c. if ascii_capital c then char_of (of_char c + 32 :: nat) else c),
     uc_ToUpper = map (\<lambda>c. if ascii_capital (char_of (of_char c + 224 :: nat))
       then char_of (of_char c + 224 :: nat) else c)\<rparr>"

definition mission :: ZIPArea where
  "mission = \<lparr>za_ZIP = ''94110'', za_City = ''Mission'', za_State = ''CA'',
     za_Latitude = Fin (37748 / 1000), za_Longitude = Fin (- 122415 / 1000), za_Population = 69333\<rparr>"

lemma mission_fields [simp]: "za_ZIP mission = ''94110''" "za_City mission = ''Mission''"
  by (simp_all add: mission_def)

lemma mission_ok [simp]: "area_ok ascii mission" "uc_ToUpper ascii (za_State mission) = ''CA''"
proof -
  have "Fields ''Mission'' = [''Mission'']"
    by (intro Fields_word word_ok_printable) (simp_all add: printable_def)
  then show "area_ok ascii mission" "uc_ToUpper ascii (za_State mission) = ''CA''"
    by (simp_all add: area_ok_def mission_def isFiveDigitZIP_def ascii_def ascii_digit_def ascii_capital_def)
qed

lemma mission_query: "area_query ascii ''dentist'' mission = ''dentist in Mission CA 94110''"
proof -
  have "Fields ''Mission'' = [''Mission'']" "Fields ''dentist'' = [''dentist'']"
    by (intro Fields_word word_ok_printable; simp add: printable_def)+
  then show ?thesis using query_words [of ascii mission "''dentist''"] by simp
qed

lemma BuildQueries_complete_witness:
  "BuildQueries ascii [''dentist'', ''dentist''] [mission] True = Inr [(''dentist in Mission CA 94110'', mission)] \<and>
   SplitGBPQuery ''dentist in Mission CA 94110'' = Some (''dentist'', ''94110'')"
proof -
  have words: "TrimSpace ''dentist'' = ''dentist''" "Fields ''dentist'' = [''dentist'']"
    by (rule TrimSpace_inner) (simp add: printable_def, intro Fields_word word_ok_printable, simp_all add: printable_def)
  then have built: "BuildQueries ascii [''dentist'', ''dentist''] [mission] True =
      Inr [(''dentist in Mission CA 94110'', mission)]"
    by (simp add: BuildQueries_def Let_def mission_query)
  moreover have "SplitGBPQuery ''dentist in Mission CA 94110'' = Some (''dentist'', ''94110'')"
    using BuildQueries_complete [OF built] words by (simp flip: mission_query)
  ultimately show ?thesis by simp
qed

end
