(* ===== verification/CoverageReport.thy ===== *)
theory CoverageReport
  imports SearchQueries TaskPlan "HOL-Library.Multiset"
begin

text \<open>
  The adaptive coverage settings, the evidence of a saturation window and the coverage report:
  \<open>web/coverage.go\<close> and \<open>web/coverage_confidence.go\<close>, with the reads of \<open>web/sqlite/coverage.go\<close>
  they are built from. A nil \<open>*CoverageOptions\<close> is \<open>None\<close>; times are Unix seconds, as stored.
\<close>

section \<open>Settings\<close>

record CoverageOptions =
  co_AutoStop :: bool
  co_SaturationWindow :: int
  co_MinNewRatio :: f64
  co_MaxExpansions :: int
  co_ExpansionMinNew :: int
  co_StopOnEmptyWindow :: "bool option"

definition DefaultCoverageSaturationWindow :: int where "DefaultCoverageSaturationWindow = 8"
definition DefaultCoverageExpansionMinNew :: int where "DefaultCoverageExpansionMinNew = 10"
definition minCoverageSaturationWindow :: int where "minCoverageSaturationWindow = 3"
definition maxCoverageSaturationWindow :: int where "maxCoverageSaturationWindow = 50"
definition maxCoverageExpansions :: int where "maxCoverageExpansions = 500"
definition maxCoverageExpansionMinNew :: int where "maxCoverageExpansionMinNew = 100000"
definition DefaultCoverageMinNewRatio :: f64 where "DefaultCoverageMinNewRatio = f64_of_rat (1 / 10)"
definition minCoverageMinNewRatio :: f64 where "minCoverageMinNewRatio = f64_of_rat (1 / 100)"
definition maxCoverageMinNewRatio :: f64 where "maxCoverageMinNewRatio = f64_of_rat (9 / 10)"

lemmas coverage_bounds = DefaultCoverageSaturationWindow_def DefaultCoverageExpansionMinNew_def
  minCoverageSaturationWindow_def maxCoverageSaturationWindow_def maxCoverageExpansions_def
  maxCoverageExpansionMinNew_def

datatype option_error = ErrCoverageWindow | ErrCoverageRatio | ErrCoverageExpansions | ErrCoverageThreshold

definition CoverageOptions_Validate :: "CoverageOptions option \<Rightarrow> option_error + unit" where
  "CoverageOptions_Validate opt =
     (case opt of
        None \<Rightarrow> Inr ()
      | Some c \<Rightarrow>
          if co_SaturationWindow c \<noteq> 0 \<and>
            (co_SaturationWindow c < minCoverageSaturationWindow \<or>
             maxCoverageSaturationWindow < co_SaturationWindow c) then Inl ErrCoverageWindow
          else if co_MinNewRatio c \<noteq> Fin 0 \<and>
            (f64_less (co_MinNewRatio c) minCoverageMinNewRatio \<or>
             f64_less maxCoverageMinNewRatio (co_MinNewRatio c)) then Inl ErrCoverageRatio
          else if co_MaxExpansions c < 0 \<or> maxCoverageExpansions < co_MaxExpansions c
          then Inl ErrCoverageExpansions
          else if co_ExpansionMinNew c < 0 \<or> maxCoverageExpansionMinNew < co_ExpansionMinNew c
          then Inl ErrCoverageThreshold
          else Inr ())"

definition WindowOrDefault :: "CoverageOptions option \<Rightarrow> int" where
  "WindowOrDefault opt =
     (case opt of
        None \<Rightarrow> DefaultCoverageSaturationWindow
      | Some c \<Rightarrow> if co_SaturationWindow c = 0 then DefaultCoverageSaturationWindow
          else co_SaturationWindow c)"

definition MinNewRatioOrDefault :: "CoverageOptions option \<Rightarrow> f64" where
  "MinNewRatioOrDefault opt =
     (case opt of
        None \<Rightarrow> DefaultCoverageMinNewRatio
      | Some c \<Rightarrow> if co_MinNewRatio c = Fin 0 then DefaultCoverageMinNewRatio else co_MinNewRatio c)"

definition StopOnEmptyWindowOrDefault :: "CoverageOptions option \<Rightarrow> bool" where
  "StopOnEmptyWindowOrDefault opt =
     (case opt of
        None \<Rightarrow> False
      | Some c \<Rightarrow> (case co_StopOnEmptyWindow c of None \<Rightarrow> co_AutoStop c | Some b \<Rightarrow> b))"

definition ExpansionMinNewOrDefault :: "CoverageOptions option \<Rightarrow> int" where
  "ExpansionMinNewOrDefault opt =
     (case opt of
        None \<Rightarrow> DefaultCoverageExpansionMinNew
      | Some c \<Rightarrow> if co_ExpansionMinNew c = 0 then DefaultCoverageExpansionMinNew
          else co_ExpansionMinNew c)"

definition maxExpansions :: "CoverageOptions option \<Rightarrow> int" where
  "maxExpansions opt = (case opt of None \<Rightarrow> 0 | Some c \<Rightarrow> co_MaxExpansions c)"

lemma WindowOrDefault_pos:
  "CoverageOptions_Validate opt = Inr () \<Longrightarrow> 3 \<le> WindowOrDefault opt"
  by (auto simp: CoverageOptions_Validate_def WindowOrDefault_def coverage_bounds
      split: option.splits if_splits)

section \<open>The saturation window\<close>

record CoverageSample =
  cs_RowsAdded :: int
  cs_RowsReplaced :: int
  cs_DuplicatesSkipped :: int
  cs_Succeeded :: bool
  cs_Empty :: bool

definition NewCoverageSample :: "int \<Rightarrow> int \<Rightarrow> int \<Rightarrow> bool \<Rightarrow> CoverageSample" where
  "NewCoverageSample rowsAdded rowsReplaced duplicatesSkipped succeeded =
     \<lparr>cs_RowsAdded = rowsAdded, cs_RowsReplaced = rowsReplaced,
      cs_DuplicatesSkipped = duplicatesSkipped, cs_Succeeded = succeeded,
      cs_Empty = (succeeded \<and> rowsAdded \<le> 0 \<and> duplicatesSkipped \<le> 0)\<rparr>"

definition CoverageSampleNetNew :: "CoverageSample \<Rightarrow> int" where
  "CoverageSampleNetNew s =
     (let netNew = cs_RowsAdded s - cs_RowsReplaced s in if netNew < 0 then 0 else netNew)"

text \<open>\<open>coverageNetNewRatio\<close> of the report, and the same quotient over a window.\<close>

definition coverageNetNewRatio :: "int \<Rightarrow> int \<Rightarrow> int \<Rightarrow> f64" where
  "coverageNetNewRatio netNew refound duplicates =
     (let tot = netNew + refound + duplicates
      in if tot \<le> 0 then Fin 1 else f64_div (f64_of_int netNew) (f64_of_int tot))"

definition CoverageWindowRatio :: "CoverageSample list \<Rightarrow> f64" where
  "CoverageWindowRatio samples =
     (let netNew = sum_list (map CoverageSampleNetNew samples);
          refound = sum_list (map cs_RowsReplaced samples);
          duplicates = sum_list (map cs_DuplicatesSkipped samples);
          tot = netNew + refound + duplicates
      in if tot \<le> 0 then Fin 1 else f64_div (f64_of_int netNew) (f64_of_int tot))"

record CoverageWindowEvidence =
  ev_Samples :: int
  ev_Successful :: int
  ev_Empty :: int

definition CoverageWindowEvidenceOf :: "CoverageSample list \<Rightarrow> CoverageWindowEvidence" where
  "CoverageWindowEvidenceOf samples =
     \<lparr>ev_Samples = int (length samples), ev_Successful = count_where cs_Succeeded samples,
      ev_Empty = count_where (\<lambda>s. cs_Succeeded s \<and> cs_Empty s) samples\<rparr>"

definition ZeroYield :: "CoverageWindowEvidence \<Rightarrow> int \<Rightarrow> bool" where
  "ZeroYield e window \<longleftrightarrow> \<not> (window \<le> 0 \<or> ev_Samples e < window) \<and>
     ev_Successful e = ev_Samples e \<and> ev_Empty e = ev_Samples e"

lemma count_where_all: "count_where p xs = int (length xs) \<longleftrightarrow> list_all p xs"
  by (auto simp: count_where_def list_all_iff) (metis filter_id_conv length_filter_less nat_less_le)

lemma ZeroYield_iff:
  "ZeroYield (CoverageWindowEvidenceOf samples) window \<longleftrightarrow>
     0 < window \<and> window \<le> int (length samples) \<and> list_all (\<lambda>s. cs_Succeeded s \<and> cs_Empty s) samples"
  by (auto simp: ZeroYield_def CoverageWindowEvidenceOf_def count_where_all list_all_iff)

section \<open>Reading the plan\<close>

definition CoverageExpansionOriginPrefix :: string where
  "CoverageExpansionOriginPrefix = ''expansion:''"
definition CoverageRefinementOriginPrefix :: string where
  "CoverageRefinementOriginPrefix = ''refine:''"

definition isCoverageAppendedOrigin :: "string \<Rightarrow> bool" where
  "isCoverageAppendedOrigin origin \<longleftrightarrow>
     HasPrefix origin CoverageExpansionOriginPrefix \<or> HasPrefix origin CoverageRefinementOriginPrefix"

record CoverageTaskRow =
  ct_TaskKey :: string
  ct_Query :: string
  ct_Origin :: string
  ct_State :: string
  ct_LastError :: string
  ct_Attempts :: int
  ct_Priority :: int
  ct_Sequence :: int
  ct_RowsAdded :: int
  ct_RowsReplaced :: int
  ct_DuplicatesSkipped :: int
  ct_Truncated :: bool
  ct_StartedAt :: "int option"
  ct_FinishedAt :: "int option"

text \<open>\<open>COALESCE(json_extract(checkpoint, ...), 0)\<close>: a task without a checkpoint counts zero.\<close>

definition checkpoint_count :: "(JobTaskCheckpoint \<Rightarrow> int) \<Rightarrow> TaskRow \<Rightarrow> int" where
  "checkpoint_count field r = (case tk_checkpoint r of None \<Rightarrow> 0 | Some cp \<Rightarrow> field cp)"

definition coverage_row :: "Env \<Rightarrow> TaskRow \<Rightarrow> CoverageTaskRow" where
  "coverage_row env r =
     \<lparr>ct_TaskKey = tk_key r, ct_Query = tk_query r, ct_Origin = tk_origin r, ct_State = tk_state r,
      ct_LastError = RedactString env (tk_last_error r), ct_Attempts = tk_attempts r,
      ct_Priority = tk_priority r, ct_Sequence = tk_sequence r,
      ct_RowsAdded = checkpoint_count cp_RowsAdded r,
      ct_RowsReplaced = checkpoint_count cp_RowsReplaced r,
      ct_DuplicatesSkipped = checkpoint_count cp_DuplicatesSkipped r,
      ct_Truncated = (case tk_checkpoint r of None \<Rightarrow> False | Some cp \<Rightarrow> cp_Truncated cp),
      ct_StartedAt = tk_started_at r, ct_FinishedAt = tk_finished_at r\<rparr>"

definition JobCoverageTasks :: "Env \<Rightarrow> string \<Rightarrow> Db \<Rightarrow> repo_error + CoverageTaskRow list" where
  "JobCoverageTasks env job db =
     (case requireJob job db of
        Inl e \<Rightarrow> Inl e
      | Inr _ \<Rightarrow> Inr (map (coverage_row env)
          (sort_key tk_sequence (sort_key tk_created_at (sort_key tk_key
            (filter (\<lambda>r. tk_job_id r = job) (db_tasks db)))))))"

record CoverageSeedState =
  se_Queries :: "string list"
  se_MaxSequence :: int
  se_ExpansionTasks :: int

definition seed_row :: "TaskRow \<Rightarrow> CoverageSeedState \<Rightarrow> CoverageSeedState" where
  "seed_row r st =
     st\<lparr>se_Queries := se_Queries st @ [tk_query r],
        se_MaxSequence := (if se_MaxSequence st < tk_sequence r then tk_sequence r else se_MaxSequence st),
        se_ExpansionTasks := (if isCoverageAppendedOrigin (tk_origin r)
          then se_ExpansionTasks st + 1 else se_ExpansionTasks st)\<rparr>"

definition JobCoverageSeedState :: "string \<Rightarrow> Db \<Rightarrow> repo_error + CoverageSeedState" where
  "JobCoverageSeedState job db =
     (case requireJob job db of
        Inl e \<Rightarrow> Inl e
      | Inr _ \<Rightarrow> Inr (fold seed_row (filter (\<lambda>r. tk_job_id r = job) (db_tasks db))
          \<lparr>se_Queries = [], se_MaxSequence = - 1, se_ExpansionTasks = 0\<rparr>))"

section \<open>The report\<close>

record CoverageTotals =
  to_TasksTotal :: int
  to_TasksDone :: int
  to_TasksFailed :: int
  to_TasksSkipped :: int
  to_RowsAdded :: int
  to_RowsReplaced :: int
  to_DuplicatesSkipped :: int
  to_ExpansionsAdded :: int
  to_RefinementsAdded :: int
  to_TasksTruncated :: int

record CoverageSaturation =
  sa_Enabled :: bool
  sa_Window :: int
  sa_MinNewRatio :: f64
  sa_CurrentNewRatio :: f64
  sa_Stopped :: bool
  sa_Reason :: string
  sa_StopOnEmptyWindow :: bool
  sa_WindowSamples :: int
  sa_SuccessfulSamples :: int
  sa_EmptySamples :: int

record CoverageQueryRow =
  cq_TaskKey :: string
  cq_Query :: string
  cq_ZIP :: string
  cq_Origin :: string
  cq_State :: string
  cq_Attempts :: int
  cq_RowsAdded :: int
  cq_DuplicatesSkipped :: int
  cq_Seconds :: f64
  cq_RowsReplaced :: int
  cq_Truncated :: bool

record CoverageTrendPoint =
  tr_Seq :: int
  tr_RowsAdded :: int
  tr_DuplicatesSkipped :: int
  tr_FinishedAt :: int

definition CoverageSkipReason :: string where "CoverageSkipReason = ''coverage-saturated''"
definition CoverageEmptySkipReason :: string where "CoverageEmptySkipReason = ''coverage-exhausted''"
definition CoverageSaturationReasonDuplicates :: string where
  "CoverageSaturationReasonDuplicates = ''duplicate-saturation''"
definition CoverageSaturationReasonEmpty :: string where "CoverageSaturationReasonEmpty = ''empty-area''"

lemmas coverage_reasons = CoverageSkipReason_def CoverageEmptySkipReason_def
  CoverageSaturationReasonDuplicates_def CoverageSaturationReasonEmpty_def

definition report_totals :: "CoverageTaskRow list \<Rightarrow> CoverageTotals" where
  "report_totals rows =
     \<lparr>to_TasksTotal = int (length rows),
      to_TasksDone = count_where (\<lambda>r. ct_State r = taskStateCompleted) rows,
      to_TasksFailed = count_where (\<lambda>r. ct_State r = taskStateFailed) rows,
      to_TasksSkipped = count_where (\<lambda>r. ct_State r = taskStateSkipped) rows,
      to_RowsAdded = sum_list (map ct_RowsAdded rows),
      to_RowsReplaced = sum_list (map ct_RowsReplaced rows),
      to_DuplicatesSkipped = sum_list (map ct_DuplicatesSkipped rows),
      to_ExpansionsAdded = count_where (\<lambda>r. HasPrefix (ct_Origin r) CoverageExpansionOriginPrefix) rows,
      to_RefinementsAdded = count_where (\<lambda>r. HasPrefix (ct_Origin r) CoverageRefinementOriginPrefix) rows,
      to_TasksTruncated = count_where ct_Truncated rows\<rparr>"

text \<open>The skipped rows leave the reason of the stop; the last of them wins.\<close>

definition stop_note :: "CoverageTaskRow \<Rightarrow> bool \<times> string \<Rightarrow> bool \<times> string" where
  "stop_note r note =
     (if ct_State r = taskStateSkipped then
        (if ct_LastError r = CoverageSkipReason then (True, CoverageSaturationReasonDuplicates)
         else if ct_LastError r = CoverageEmptySkipReason then (True, CoverageSaturationReasonEmpty)
         else note)
      else note)"

definition row_seconds :: "CoverageTaskRow \<Rightarrow> f64" where
  "row_seconds r =
     (case (ct_StartedAt r, ct_FinishedAt r) of
        (Some a, Some b) \<Rightarrow> if a < b then f64_of_int (b - a) else Fin 0
      | _ \<Rightarrow> Fin 0)"

definition query_row :: "CoverageTaskRow \<Rightarrow> CoverageQueryRow" where
  "query_row r =
     \<lparr>cq_TaskKey = ct_TaskKey r, cq_Query = ct_Query r,
      cq_ZIP = (case ParseGBPQueryZIP (ct_Query r) of None \<Rightarrow> [] | Some z \<Rightarrow> z),
      cq_Origin = ct_Origin r, cq_State = ct_State r, cq_Attempts = ct_Attempts r,
      cq_RowsAdded = ct_RowsAdded r, cq_DuplicatesSkipped = ct_DuplicatesSkipped r,
      cq_Seconds = row_seconds r, cq_RowsReplaced = ct_RowsReplaced r, cq_Truncated = ct_Truncated r\<rparr>"

definition finished_before :: "CoverageTaskRow \<Rightarrow> CoverageTaskRow \<Rightarrow> bool" where
  "finished_before a b \<longleftrightarrow>
     (if ct_FinishedAt a = ct_FinishedAt b then ct_Sequence a < ct_Sequence b
      else the (ct_FinishedAt a) < the (ct_FinishedAt b))"

definition completed_rows :: "CoverageTaskRow list \<Rightarrow> CoverageTaskRow list" where
  "completed_rows rows =
     SliceStable finished_before
       (filter (\<lambda>r. ct_State r = taskStateCompleted \<and> ct_FinishedAt r \<noteq> None) rows)"

definition report_trend :: "CoverageTaskRow list \<Rightarrow> CoverageTrendPoint list" where
  "report_trend completed =
     map (\<lambda>(i, r). \<lparr>tr_Seq = int i + 1, tr_RowsAdded = ct_RowsAdded r,
        tr_DuplicatesSkipped = ct_DuplicatesSkipped r, tr_FinishedAt = the (ct_FinishedAt r)\<rparr>)
       (enumerate 0 completed)"

definition coverageWindowSamples :: "CoverageTaskRow list \<Rightarrow> int \<Rightarrow> CoverageSample list" where
  "coverageWindowSamples completed window =
     (if window \<le> 0 \<or> completed = [] then []
      else let start = int (length completed) - window; first = (if start < 0 then 0 else start)
        in map (\<lambda>r. NewCoverageSample (ct_RowsAdded r) (ct_RowsReplaced r) (ct_DuplicatesSkipped r) True)
          (drop (nat first) completed))"

definition report_saturation :: "CoverageOptions option \<Rightarrow> CoverageTaskRow list \<Rightarrow> CoverageSaturation" where
  "report_saturation options rows =
     (let (stopped, reason) = fold stop_note rows (False, []);
          window = WindowOrDefault options;
          samples = coverageWindowSamples (completed_rows rows) window;
          evidence = CoverageWindowEvidenceOf samples
      in \<lparr>sa_Enabled = (case options of None \<Rightarrow> False | Some c \<Rightarrow> co_AutoStop c), sa_Window = window,
          sa_MinNewRatio = MinNewRatioOrDefault options,
          sa_CurrentNewRatio = CoverageWindowRatio samples, sa_Stopped = stopped, sa_Reason = reason,
          sa_StopOnEmptyWindow = StopOnEmptyWindowOrDefault options,
          sa_WindowSamples = ev_Samples evidence, sa_SuccessfulSamples = ev_Successful evidence,
          sa_EmptySamples = ev_Empty evidence\<rparr>)"

section \<open>Confidence of the cells\<close>

record CoverageCellConfidence =
  cc_Cell :: string
  cc_ZIP :: string
  cc_Rating :: string
  cc_Reason :: string
  cc_Queries :: "string list"
  cc_Tasks :: int
  cc_Completed :: int
  cc_Failed :: int
  cc_Skipped :: int
  cc_Pending :: int
  cc_Attempts :: int
  cc_RowsAdded :: int
  cc_RowsReplaced :: int
  cc_DuplicatesSkipped :: int
  cc_NetNew :: int
  cc_NetNewRatio :: f64
  cc_Truncated :: bool
  cc_TruncatedAfterRefinement :: bool
  cc_Refined :: bool
  cc_RefinementTasks :: int
  cc_ExpansionTasks :: int
  cc_Expanded :: bool
  cc_FromExpansion :: bool

record CoverageConfidenceRollup =
  ru_Cells :: int
  ru_Complete :: int
  ru_LikelyTruncated :: int
  ru_LowConfidence :: int
  ru_UnexploredAdjacent :: int
  ru_TruncatedCells :: int
  ru_RefinedCells :: int
  ru_ExpandedCells :: int
  ru_ExpansionBudget :: int
  ru_ExpansionsUsed :: int
  ru_ExpansionBudgetLeft :: int

text \<open>
  The map of accumulators is a list in the order of insertion, the key being \<open>ac_cell\<close>;
  \<open>querySeen\<close> is the set of \<open>ac_queries\<close>.
\<close>

record coverageCellAccumulator =
  ac_cell :: string
  ac_zip :: string
  ac_order :: int
  ac_queries :: "string list"
  ac_confidence :: CoverageCellConfidence

definition new_cell :: "string \<Rightarrow> string \<Rightarrow> CoverageCellConfidence" where
  "new_cell key z =
     \<lparr>cc_Cell = key, cc_ZIP = z, cc_Rating = [], cc_Reason = [], cc_Queries = [], cc_Tasks = 0,
      cc_Completed = 0, cc_Failed = 0, cc_Skipped = 0, cc_Pending = 0, cc_Attempts = 0,
      cc_RowsAdded = 0, cc_RowsReplaced = 0, cc_DuplicatesSkipped = 0, cc_NetNew = 0,
      cc_NetNewRatio = Fin 0, cc_Truncated = False, cc_TruncatedAfterRefinement = False,
      cc_Refined = False, cc_RefinementTasks = 0, cc_ExpansionTasks = 0, cc_Expanded = False,
      cc_FromExpansion = False\<rparr>"

definition ensure_cell ::
  "string \<Rightarrow> string \<Rightarrow> int \<Rightarrow> coverageCellAccumulator list \<Rightarrow> coverageCellAccumulator list" where
  "ensure_cell key z order cells =
     (if list_ex (\<lambda>a. ac_cell a = key) cells then cells
      else cells @ [\<lparr>ac_cell = key, ac_zip = z, ac_order = order, ac_queries = [],
        ac_confidence = new_cell key z\<rparr>])"

definition update_cell ::
  "string \<Rightarrow> (coverageCellAccumulator \<Rightarrow> coverageCellAccumulator) \<Rightarrow>
   coverageCellAccumulator list \<Rightarrow> coverageCellAccumulator list" where
  "update_cell key f cells = map (\<lambda>a. if ac_cell a = key then f a else a) cells"

definition count_row :: "CoverageTaskRow \<Rightarrow> CoverageCellConfidence \<Rightarrow> CoverageCellConfidence" where
  "count_row r c =
     (let c1 = c\<lparr>cc_Tasks := cc_Tasks c + 1, cc_Attempts := cc_Attempts c + ct_Attempts r,
            cc_RowsAdded := cc_RowsAdded c + ct_RowsAdded r,
            cc_RowsReplaced := cc_RowsReplaced c + ct_RowsReplaced r,
            cc_DuplicatesSkipped := cc_DuplicatesSkipped c + ct_DuplicatesSkipped r\<rparr>;
          c2 = (if ct_State r = taskStateCompleted then c1\<lparr>cc_Completed := cc_Completed c1 + 1\<rparr>
            else if ct_State r = taskStateFailed then c1\<lparr>cc_Failed := cc_Failed c1 + 1\<rparr>
            else if ct_State r = taskStateSkipped then c1\<lparr>cc_Skipped := cc_Skipped c1 + 1\<rparr>
            else c1\<lparr>cc_Pending := cc_Pending c1 + 1\<rparr>);
          refined = HasPrefix (ct_Origin r) CoverageRefinementOriginPrefix;
          c3 = (if ct_Truncated r
            then c2\<lparr>cc_Truncated := True,
              cc_TruncatedAfterRefinement := (refined \<or> cc_TruncatedAfterRefinement c2)\<rparr>
            else c2)
      in if HasPrefix (ct_Origin r) CoverageExpansionOriginPrefix then c3\<lparr>cc_FromExpansion := True\<rparr>
         else c3)"

definition note_query :: "CoverageTaskRow \<Rightarrow> coverageCellAccumulator \<Rightarrow> coverageCellAccumulator" where
  "note_query r a =
     (let query = TrimSpace (ct_Query r)
      in if query \<noteq> [] \<and> query \<notin> set (ac_queries a) then a\<lparr>ac_queries := ac_queries a @ [query]\<rparr> else a)"

definition cell_key :: "CoverageTaskRow \<Rightarrow> string \<times> string" where
  "cell_key r =
     (let z = ParseGBPQueryZIP (ct_Query r);
          key = (case z of None \<Rightarrow> TrimSpace (ct_Query r) | Some z \<Rightarrow> z)
      in (if key = [] then ct_TaskKey r else key, case z of None \<Rightarrow> [] | Some z \<Rightarrow> z))"

definition collect_row ::
  "nat \<times> CoverageTaskRow \<Rightarrow> coverageCellAccumulator list \<Rightarrow> coverageCellAccumulator list" where
  "collect_row ir cells =
     (let (i, r) = ir; (key, z) = cell_key r;
          cells1 = update_cell key (\<lambda>a. (note_query r a)
              \<lparr>ac_confidence := count_row r (ac_confidence a)\<rparr>) (ensure_cell key z (int i) cells)
      in if HasPrefix (ct_Origin r) CoverageRefinementOriginPrefix then
           (let parent = TrimPrefix (ct_Origin r) CoverageRefinementOriginPrefix
            in update_cell parent (\<lambda>a. a\<lparr>ac_confidence := (ac_confidence a)
                   \<lparr>cc_RefinementTasks := cc_RefinementTasks (ac_confidence a) + 1,
                    cc_TruncatedAfterRefinement :=
                      (ct_Truncated r \<or> cc_TruncatedAfterRefinement (ac_confidence a))\<rparr>\<rparr>)
                 (ensure_cell parent z (int i) cells1))
         else if HasPrefix (ct_Origin r) CoverageExpansionOriginPrefix then
           (let parent = TrimPrefix (ct_Origin r) CoverageExpansionOriginPrefix
            in if parent \<noteq> [] \<and> parent \<noteq> key
               then update_cell parent (\<lambda>a. a\<lparr>ac_confidence := (ac_confidence a)
                   \<lparr>cc_ExpansionTasks := cc_ExpansionTasks (ac_confidence a) + 1\<rparr>\<rparr>)
                 (ensure_cell parent parent (int i) cells1)
               else cells1)
         else cells1)"

definition collectCoverageCells :: "CoverageTaskRow list \<Rightarrow> coverageCellAccumulator list" where
  "collectCoverageCells rows = fold collect_row (enumerate 0 rows) []"

definition coverageNetNew :: "int \<Rightarrow> int \<Rightarrow> int" where
  "coverageNetNew rowsAdded rowsReplaced =
     (if rowsAdded \<le> rowsReplaced then 0 else rowsAdded - rowsReplaced)"

definition CoverageConfidenceComplete :: string where "CoverageConfidenceComplete = ''complete''"
definition CoverageConfidenceLikelyTruncated :: string where
  "CoverageConfidenceLikelyTruncated = ''likely-truncated''"
definition CoverageConfidenceLowConfidence :: string where
  "CoverageConfidenceLowConfidence = ''low-confidence''"
definition CoverageConfidenceUnexploredAdjacent :: string where
  "CoverageConfidenceUnexploredAdjacent = ''unexplored-adjacent''"

lemmas coverage_ratings = CoverageConfidenceComplete_def CoverageConfidenceLikelyTruncated_def
  CoverageConfidenceLowConfidence_def CoverageConfidenceUnexploredAdjacent_def

definition coverageRefoundConfidenceCeiling :: f64 where
  "coverageRefoundConfidenceCeiling = f64_of_rat (1 / 10)"

definition rateCoverageNeighbourhood ::
  "CoverageOptions option \<Rightarrow> CoverageCellConfidence \<Rightarrow> int \<Rightarrow> (string \<times> string) option" where
  "rateCoverageNeighbourhood options cell budgetLeft =
     (if cc_Expanded cell \<or> cc_FromExpansion cell then None
      else if cc_NetNew cell < ExpansionMinNewOrDefault options then None
      else if maxExpansions options \<le> 0
      then Some (CoverageConfidenceUnexploredAdjacent, ''expansion-disabled'')
      else if budgetLeft \<le> 0
      then Some (CoverageConfidenceUnexploredAdjacent, ''expansion-budget-exhausted'')
      else Some (CoverageConfidenceUnexploredAdjacent, ''neighbours-redundant''))"

definition rateCoverageCell ::
  "CoverageOptions option \<Rightarrow> CoverageCellConfidence \<Rightarrow> CoverageSaturation \<Rightarrow> int \<Rightarrow> string \<times> string" where
  "rateCoverageCell options cell saturation budgetLeft =
     (if cc_Completed cell = 0 then
        (CoverageConfidenceLowConfidence,
         if 0 < cc_Skipped cell \<and> sa_Stopped saturation then ''plan-stopped-before-cell''
         else if 0 < cc_Failed cell then ''no-successful-attempt'' else ''not-attempted'')
      else if cc_Truncated cell \<and> cc_TruncatedAfterRefinement cell
      then (CoverageConfidenceLikelyTruncated, ''truncated-after-refinement'')
      else if cc_Truncated cell \<and> \<not> cc_Refined cell
      then (CoverageConfidenceLikelyTruncated, ''truncated-unrefined'')
      else case rateCoverageNeighbourhood options cell budgetLeft of
        Some verdict \<Rightarrow> verdict
      | None \<Rightarrow>
          (CoverageConfidenceComplete,
           if cc_Truncated cell \<and> cc_Refined cell then ''refined-and-cleared''
           else if 0 < cc_Failed cell then ''retried-attempts''
           else if f64_less (cc_NetNewRatio cell) coverageRefoundConfidenceCeiling
           then ''mostly-refound'' else ''swept-clean''))"

definition cell_before :: "coverageCellAccumulator \<Rightarrow> coverageCellAccumulator \<Rightarrow> bool" where
  "cell_before a b \<longleftrightarrow>
     (if ac_order a \<noteq> ac_order b then ac_order a < ac_order b else string_less (ac_cell a) (ac_cell b))"

definition rated_cell ::
  "CoverageOptions option \<Rightarrow> CoverageSaturation \<Rightarrow> int \<Rightarrow> coverageCellAccumulator \<Rightarrow>
   CoverageCellConfidence" where
  "rated_cell options saturation budgetLeft a =
     (let c = ac_confidence a; netNew = coverageNetNew (cc_RowsAdded c) (cc_RowsReplaced c);
          c1 = c\<lparr>cc_Queries := ac_queries a, cc_NetNew := netNew,
            cc_NetNewRatio := coverageNetNewRatio netNew (cc_RowsReplaced c) (cc_DuplicatesSkipped c),
            cc_Refined := (0 < cc_RefinementTasks c), cc_Expanded := (0 < cc_ExpansionTasks c)\<rparr>;
          (rating, reason) = rateCoverageCell options c1 saturation budgetLeft
      in c1\<lparr>cc_Rating := rating, cc_Reason := reason\<rparr>)"

definition count_cell :: "CoverageCellConfidence \<Rightarrow> CoverageConfidenceRollup \<Rightarrow> CoverageConfidenceRollup" where
  "count_cell c r =
     (let r1 = (if cc_Rating c = CoverageConfidenceLikelyTruncated
            then r\<lparr>ru_LikelyTruncated := ru_LikelyTruncated r + 1\<rparr>
          else if cc_Rating c = CoverageConfidenceLowConfidence
            then r\<lparr>ru_LowConfidence := ru_LowConfidence r + 1\<rparr>
          else if cc_Rating c = CoverageConfidenceUnexploredAdjacent
            then r\<lparr>ru_UnexploredAdjacent := ru_UnexploredAdjacent r + 1\<rparr>
          else r\<lparr>ru_Complete := ru_Complete r + 1\<rparr>);
          r2 = (if cc_Truncated c then r1\<lparr>ru_TruncatedCells := ru_TruncatedCells r1 + 1\<rparr> else r1);
          r3 = (if cc_Refined c then r2\<lparr>ru_RefinedCells := ru_RefinedCells r2 + 1\<rparr> else r2);
          r4 = (if cc_Expanded c then r3\<lparr>ru_ExpandedCells := ru_ExpandedCells r3 + 1\<rparr> else r3)
      in r4\<lparr>ru_Cells := ru_Cells r4 + 1\<rparr>)"

definition buildCoverageConfidence ::
  "CoverageOptions option \<Rightarrow> CoverageTaskRow list \<Rightarrow> CoverageSaturation \<Rightarrow>
   CoverageConfidenceRollup \<times> CoverageCellConfidence list" where
  "buildCoverageConfidence options rows saturation =
     (let ordered = SliceStable cell_before (collectCoverageCells rows);
          budget = maxExpansions options;
          used = sum_list (map (\<lambda>a. cc_ExpansionTasks (ac_confidence a) + cc_RefinementTasks (ac_confidence a))
            ordered);
          left = max 0 (budget - used);
          rollup = \<lparr>ru_Cells = 0, ru_Complete = 0, ru_LikelyTruncated = 0, ru_LowConfidence = 0,
            ru_UnexploredAdjacent = 0, ru_TruncatedCells = 0, ru_RefinedCells = 0, ru_ExpandedCells = 0,
            ru_ExpansionBudget = budget, ru_ExpansionsUsed = used, ru_ExpansionBudgetLeft = left\<rparr>;
          cells = map (rated_cell options saturation left)
            (filter (\<lambda>a. cc_Tasks (ac_confidence a) \<noteq> 0) ordered)
      in (fold count_cell cells rollup, cells))"

record CoverageReport =
  re_Totals :: CoverageTotals
  re_Saturation :: CoverageSaturation
  re_ByQuery :: "CoverageQueryRow list"
  re_Trend :: "CoverageTrendPoint list"
  re_Confidence :: "CoverageConfidenceRollup \<times> CoverageCellConfidence list"

definition buildCoverageReport :: "CoverageOptions option \<Rightarrow> CoverageTaskRow list \<Rightarrow> CoverageReport" where
  "buildCoverageReport options rows =
     (let saturation = report_saturation options rows
      in \<lparr>re_Totals = report_totals rows, re_Saturation = saturation,
          re_ByQuery = map query_row rows, re_Trend = report_trend (completed_rows rows),
          re_Confidence = buildCoverageConfidence options rows saturation\<rparr>)"

section \<open>Every task is accounted for in one cell\<close>

definition cell_balanced :: "CoverageCellConfidence \<Rightarrow> bool" where
  "cell_balanced c \<longleftrightarrow>
     cc_Completed c + cc_Failed c + cc_Skipped c + cc_Pending c = cc_Tasks c \<and>
     0 \<le> cc_Completed c \<and> 0 \<le> cc_Failed c \<and> 0 \<le> cc_Skipped c \<and> 0 \<le> cc_Pending c"

definition cells_ok :: "nat \<Rightarrow> coverageCellAccumulator list \<Rightarrow> bool" where
  "cells_ok n cells \<longleftrightarrow>
     distinct (map ac_cell cells) \<and> (\<forall>a \<in> set cells. cell_balanced (ac_confidence a)) \<and>
     (\<forall>a \<in> set cells. cc_Cell (ac_confidence a) = ac_cell a) \<and>
     sum_list (map (cc_Tasks \<circ> ac_confidence) cells) = int n"

lemma update_cell_absent: "\<not> list_ex (\<lambda>a. ac_cell a = key) cells \<Longrightarrow> update_cell key f cells = cells"
  by (induction cells) (auto simp: update_cell_def)

lemma ensure_cell_ok: "cells_ok n cells \<Longrightarrow> cells_ok n (ensure_cell key z i cells)"
  by (auto simp: cells_ok_def ensure_cell_def new_cell_def cell_balanced_def list_ex_iff)

lemma ensure_cell_mem: "\<exists>a \<in> set (ensure_cell key z i cells). ac_cell a = key"
  by (auto simp: ensure_cell_def list_ex_iff)

lemma update_cell_tasks:
  assumes "distinct (map ac_cell cells)" "\<exists>a \<in> set cells. ac_cell a = key"
    "\<And>a. ac_cell (f a) = ac_cell a" "\<And>a. cc_Tasks (ac_confidence (f a)) = cc_Tasks (ac_confidence a) + d"
  shows "sum_list (map (cc_Tasks \<circ> ac_confidence) (update_cell key f cells)) =
    sum_list (map (cc_Tasks \<circ> ac_confidence) cells) + d"
  using assms(1,2)
proof (induction cells)
  case (Cons a cells)
  show ?case
  proof (cases "ac_cell a = key")
    case True
    then have "update_cell key f cells = cells"
      using Cons.prems by (intro update_cell_absent) (auto simp: list_ex_iff, metis image_eqI)
    then show ?thesis using True assms(4) by (simp add: update_cell_def)
  qed (use Cons in \<open>auto simp: update_cell_def\<close>)
qed simp

lemma update_cell_ok:
  assumes "cells_ok n cells" "\<exists>a \<in> set cells. ac_cell a = key"
    "\<And>a. ac_cell (f a) = ac_cell a" "\<And>a. cc_Cell (ac_confidence (f a)) = cc_Cell (ac_confidence a)"
    "\<And>a. cell_balanced (ac_confidence a) \<Longrightarrow> cell_balanced (ac_confidence (f a))"
    "\<And>a. cc_Tasks (ac_confidence (f a)) = cc_Tasks (ac_confidence a) + int d"
  shows "cells_ok (n + d) (update_cell key f cells)"
proof -
  have "map ac_cell (update_cell key f cells) = map ac_cell cells"
    using assms(3) by (auto simp: update_cell_def)
  then have "distinct (map ac_cell (update_cell key f cells))" using assms(1) by (simp add: cells_ok_def)
  moreover have "sum_list (map (cc_Tasks \<circ> ac_confidence) (update_cell key f cells)) = int (n + d)"
    using update_cell_tasks [OF _ assms(2,3,6)] assms(1) by (simp add: cells_ok_def)
  moreover have "\<forall>a \<in> set (update_cell key f cells).
      cell_balanced (ac_confidence a) \<and> cc_Cell (ac_confidence a) = ac_cell a"
    using assms(1,3-5) by (auto simp: cells_ok_def update_cell_def)
  ultimately show ?thesis by (simp add: cells_ok_def)
qed

lemma count_row_laws:
  "cc_Tasks (count_row r c) = cc_Tasks c + 1" "cc_Cell (count_row r c) = cc_Cell c"
  "cell_balanced c \<Longrightarrow> cell_balanced (count_row r c)"
  by (auto simp: count_row_def Let_def cell_balanced_def)

lemma note_query_laws [simp]:
  "ac_cell (note_query r a) = ac_cell a" "ac_confidence (note_query r a) = ac_confidence a"
  by (simp_all add: note_query_def Let_def)

lemma collect_row_ok: "cells_ok n cells \<Longrightarrow> cells_ok (Suc n) (collect_row (i, r) cells)"
proof -
  assume ok: "cells_ok n cells"
  obtain key z where k: "cell_key r = (key, z)" by (cases "cell_key r")
  let ?cells1 = "update_cell key (\<lambda>a. (note_query r a)\<lparr>ac_confidence := count_row r (ac_confidence a)\<rparr>)
      (ensure_cell key z (int i) cells)"
  have "cells_ok (n + 1) ?cells1"
    by (rule update_cell_ok [OF ensure_cell_ok [OF ok] ensure_cell_mem]) (simp_all add: count_row_laws)
  then have one: "cells_ok (Suc n) ?cells1" by simp
  have more: "cells_ok (Suc n) (update_cell p (\<lambda>a. a\<lparr>ac_confidence := g (ac_confidence a)\<rparr>)
      (ensure_cell p z' (int i) ?cells1))"
    if "\<And>c. cc_Tasks (g c) = cc_Tasks c" "\<And>c. cc_Cell (g c) = cc_Cell c"
      "\<And>c. cell_balanced c \<Longrightarrow> cell_balanced (g c)" for p z' g
    using update_cell_ok [OF ensure_cell_ok [OF one] ensure_cell_mem, where d = 0] that by simp
  show ?thesis
    using one
      more [of "\<lambda>c. c\<lparr>cc_RefinementTasks := cc_RefinementTasks c + 1,
          cc_TruncatedAfterRefinement := (ct_Truncated r \<or> cc_TruncatedAfterRefinement c)\<rparr>"]
      more [of "\<lambda>c. c\<lparr>cc_ExpansionTasks := cc_ExpansionTasks c + 1\<rparr>"]
    by (simp add: collect_row_def k Let_def cell_balanced_def)
qed

lemma collect_ok: "cells_ok (length rows) (collectCoverageCells rows)"
proof -
  have "cells_ok (m + length rows) (fold collect_row (enumerate i rows) cells)"
    if "cells_ok m cells" for m i cells
    using that
  proof (induction rows arbitrary: m i cells)
    case (Cons r rows)
    then show ?case using Cons.IH [OF collect_row_ok [OF Cons.prems]] by simp
  qed simp
  from this [of 0 "[]"] show ?thesis by (simp add: cells_ok_def collectCoverageCells_def)
qed

lemma mset_stable_insert: "mset (stable_insert lt x ys) = add_mset x (mset ys)"
  by (induction ys) auto

lemma mset_SliceStable: "mset (SliceStable lt xs) = mset xs"
  by (induction xs) (simp_all add: SliceStable_def mset_stable_insert)

lemma sum_SliceStable: "sum_list (map f (SliceStable lt xs)) = (sum_list (map f xs) :: int)"
  by (metis mset_SliceStable mset_map sum_mset_sum_list)

lemma distinct_map_SliceStable: "distinct (map f (SliceStable lt xs)) \<longleftrightarrow> distinct (map f xs)"
  by (metis mset_SliceStable mset_map mset_eq_imp_distinct_iff)

lemma count_cell_laws:
  "ru_Cells (fold count_cell cells r) = ru_Cells r + int (length cells)"
  "ru_Complete (fold count_cell cells r) + ru_LikelyTruncated (fold count_cell cells r) +
     ru_LowConfidence (fold count_cell cells r) + ru_UnexploredAdjacent (fold count_cell cells r) =
   ru_Complete r + ru_LikelyTruncated r + ru_LowConfidence r + ru_UnexploredAdjacent r + int (length cells)"
  by (induction cells arbitrary: r) (simp_all add: count_cell_def Let_def)

lemma rated_cell_laws [simp]:
  "cc_Cell (rated_cell options sat left a) = cc_Cell (ac_confidence a)"
  "cc_Tasks (rated_cell options sat left a) = cc_Tasks (ac_confidence a)"
  "cc_Completed (rated_cell options sat left a) = cc_Completed (ac_confidence a)"
  "cell_balanced (rated_cell options sat left a) = cell_balanced (ac_confidence a)"
  by (simp_all add: rated_cell_def Let_def cell_balanced_def case_prod_beta)

lemma rated_cell_verdict:
  "cc_Rating (rated_cell options sat left a) = CoverageConfidenceLowConfidence \<longleftrightarrow>
     cc_Completed (ac_confidence a) = 0"
  "cc_Rating (rated_cell options sat left a) = CoverageConfidenceComplete \<Longrightarrow>
     cc_Truncated (rated_cell options sat left a) \<Longrightarrow>
     cc_Refined (rated_cell options sat left a) \<and>
     \<not> cc_TruncatedAfterRefinement (rated_cell options sat left a)"
  by (auto simp: rated_cell_def rateCoverageCell_def rateCoverageNeighbourhood_def Let_def
      case_prod_beta coverage_ratings split: if_splits option.splits)

lemma confidence_form:
  "\<exists>left r0 cells. buildCoverageConfidence options rows sat = (fold count_cell cells r0, cells) \<and>
     cells = map (rated_cell options sat left) (filter (\<lambda>a. cc_Tasks (ac_confidence a) \<noteq> 0)
       (SliceStable cell_before (collectCoverageCells rows))) \<and>
     ru_Cells r0 = 0 \<and> ru_Complete r0 = 0 \<and> ru_LikelyTruncated r0 = 0 \<and> ru_LowConfidence r0 = 0 \<and>
     ru_UnexploredAdjacent r0 = 0"
  unfolding buildCoverageConfidence_def Let_def by (intro exI conjI, rule refl, rule refl) simp_all

section \<open>The counters of a cell\<close>

text \<open>What the rows of one cell add up to.\<close>

definition cell_sum :: "(CoverageTaskRow \<Rightarrow> int) \<Rightarrow> string \<Rightarrow> CoverageTaskRow list \<Rightarrow> int" where
  "cell_sum w key rows = sum_list (map w (filter (\<lambda>r. fst (cell_key r) = key) rows))"

lemma cell_sum_append: "cell_sum w key (rows @ [r]) = cell_sum w key rows + (if fst (cell_key r) = key then w r else 0)"
  by (simp add: cell_sum_def)

lemma cell_sum_absent: "key \<notin> (fst \<circ> cell_key) ` set rows \<Longrightarrow> cell_sum w key rows = 0"
proof -
  assume "key \<notin> (fst \<circ> cell_key) ` set rows"
  then have "filter (\<lambda>r. fst (cell_key r) = key) rows = []" by (auto simp: filter_empty_conv)
  then show ?thesis by (simp add: cell_sum_def)
qed

lemma cell_sum_total:
  assumes "distinct ks" "(fst \<circ> cell_key) ` set rows \<subseteq> set ks"
  shows "sum_list (map (\<lambda>k. cell_sum w k rows) ks) = sum_list (map w rows)"
  using assms(2)
proof (induction rows rule: rev_induct)
  case Nil
  then show ?case by (simp add: cell_sum_def)
next
  case (snoc r rows)
  have "sum_list (map (\<lambda>k. if fst (cell_key r) = k then w r else 0) ks) = w r"
    using snoc.prems assms(1) by (simp add: sum_list_distinct_conv_sum_set)
  then show ?case using snoc by (simp add: cell_sum_append sum_list_addf)
qed

text \<open>A counter of a cell that counts a weight of its rows, and nothing else.\<close>

definition counts :: "(CoverageCellConfidence \<Rightarrow> int) \<Rightarrow> (CoverageTaskRow \<Rightarrow> int) \<Rightarrow> bool" where
  "counts f w \<longleftrightarrow> (\<forall>r c. f (count_row r c) = f c + w r) \<and> (\<forall>k z. f (new_cell k z) = 0) \<and>
     (\<forall>c n b. f (c\<lparr>cc_RefinementTasks := n, cc_TruncatedAfterRefinement := b\<rparr>) = f c) \<and>
     (\<forall>c n. f (c\<lparr>cc_ExpansionTasks := n\<rparr>) = f c) \<and>
     (\<forall>options sat left a. f (rated_cell options sat left a) = f (ac_confidence a))"

lemma counters:
  "counts cc_Tasks (\<lambda>r. 1)"
  "counts cc_Completed (\<lambda>r. if ct_State r = taskStateCompleted then 1 else 0)"
  "counts cc_Failed (\<lambda>r. if ct_State r = taskStateFailed then 1 else 0)"
  "counts cc_Skipped (\<lambda>r. if ct_State r = taskStateSkipped then 1 else 0)"
  "counts cc_RowsAdded ct_RowsAdded" "counts cc_RowsReplaced ct_RowsReplaced"
  "counts cc_DuplicatesSkipped ct_DuplicatesSkipped"
  by (simp_all add: counts_def count_row_def new_cell_def rated_cell_def Let_def case_prod_beta)

definition tallied ::
  "(CoverageCellConfidence \<Rightarrow> int) \<Rightarrow> (CoverageTaskRow \<Rightarrow> int) \<Rightarrow> CoverageTaskRow list \<Rightarrow> coverageCellAccumulator list \<Rightarrow> bool" where
  "tallied f w rows cells \<longleftrightarrow> (fst \<circ> cell_key) ` set rows \<subseteq> ac_cell ` set cells \<and>
     (\<forall>a \<in> set cells. f (ac_confidence a) = cell_sum w (ac_cell a) rows)"

lemma tallied_ensure: "tallied f w rows cells \<Longrightarrow> f (new_cell key z) = 0 \<Longrightarrow> tallied f w rows (ensure_cell key z i cells)"
proof -
  assume t: "tallied f w rows cells" "f (new_cell key z) = 0"
  have "cell_sum w key rows = 0" if "\<not> list_ex (\<lambda>a. ac_cell a = key) cells"
    using that t(1) by (intro cell_sum_absent) (force simp: tallied_def list_ex_iff)
  then show ?thesis using t by (auto simp: tallied_def ensure_cell_def)
qed

lemma update_cell_keys: "(\<And>a. ac_cell (h a) = ac_cell a) \<Longrightarrow> ac_cell ` set (update_cell key h cells) = ac_cell ` set cells"
  unfolding update_cell_def set_map image_image by (rule image_cong) simp_all

lemma tallied_update:
  assumes "tallied f w rows cells" "\<And>c. f (g c) = f c"
  shows "tallied f w rows (update_cell key (\<lambda>a. a\<lparr>ac_confidence := g (ac_confidence a)\<rparr>) cells)"
proof -
  have "ac_cell ` set (update_cell key (\<lambda>a. a\<lparr>ac_confidence := g (ac_confidence a)\<rparr>) cells) = ac_cell ` set cells"
    by (rule update_cell_keys) simp
  then show ?thesis using assms by (auto simp: tallied_def) (auto simp: update_cell_def)
qed

lemma tallied_count:
  assumes "tallied f w rows cells" "\<And>c. f (count_row r c) = f c + w r" "key = fst (cell_key r)"
    "\<exists>a \<in> set cells. ac_cell a = key"
  shows "tallied f w (rows @ [r])
    (update_cell key (\<lambda>a. (note_query r a)\<lparr>ac_confidence := count_row r (ac_confidence a)\<rparr>) cells)"
proof -
  let ?cells = "update_cell key (\<lambda>a. (note_query r a)\<lparr>ac_confidence := count_row r (ac_confidence a)\<rparr>) cells"
  have "ac_cell ` set ?cells = ac_cell ` set cells"
    by (rule update_cell_keys) simp
  moreover have "f (ac_confidence a) = cell_sum w (ac_cell a) (rows @ [r])" if a: "a \<in> set ?cells" for a
  proof -
    obtain b where b: "b \<in> set cells" "a = (if ac_cell b = key
        then (note_query r b)\<lparr>ac_confidence := count_row r (ac_confidence b)\<rparr> else b)"
      using a by (auto simp only: update_cell_def set_map)
    moreover have "f (ac_confidence b) = cell_sum w (ac_cell b) rows" using assms(1) b(1) by (simp add: tallied_def)
    ultimately show ?thesis using assms(2,3) by (simp add: cell_sum_append)
  qed
  moreover have "(fst \<circ> cell_key) ` set (rows @ [r]) \<subseteq> ac_cell ` set cells"
  proof -
    have "key \<in> ac_cell ` set cells" using assms(4) by force
    then show ?thesis using assms(1,3) by (simp add: tallied_def)
  qed
  ultimately show ?thesis by (simp add: tallied_def)
qed

lemma collect_row_tallied:
  assumes "counts f w" "tallied f w rows cells"
  shows "tallied f w (rows @ [r]) (collect_row (i, r) cells)"
proof -
  obtain key z where k: "cell_key r = (key, z)" by (cases "cell_key r")
  let ?cells1 = "update_cell key (\<lambda>a. (note_query r a)\<lparr>ac_confidence := count_row r (ac_confidence a)\<rparr>)
      (ensure_cell key z (int i) cells)"
  note c = assms(1) [unfolded counts_def]
  have "tallied f w rows (ensure_cell key z (int i) cells)" using assms(2) c by (intro tallied_ensure) auto
  then have one: "tallied f w (rows @ [r]) ?cells1"
    using c ensure_cell_mem by (intro tallied_count) (auto simp: k)
  have more: "tallied f w (rows @ [r]) (update_cell p (\<lambda>a. a\<lparr>ac_confidence := g (ac_confidence a)\<rparr>)
      (ensure_cell p z' (int i) ?cells1))" if "\<And>c. f (g c) = f c" for p z' g
    using one c that by (intro tallied_update tallied_ensure) auto
  show ?thesis
    using one c
      more [of "\<lambda>c. c\<lparr>cc_RefinementTasks := cc_RefinementTasks c + 1,
          cc_TruncatedAfterRefinement := (ct_Truncated r \<or> cc_TruncatedAfterRefinement c)\<rparr>"]
      more [of "\<lambda>c. c\<lparr>cc_ExpansionTasks := cc_ExpansionTasks c + 1\<rparr>"]
    by (simp add: collect_row_def k Let_def)
qed

lemma collect_tallied:
  assumes "counts f w"
  shows "tallied f w rows (collectCoverageCells rows)"
proof -
  have "tallied f w (done @ rows) (fold collect_row (enumerate i rows) cells)" if "tallied f w done cells" for "done" i cells
    using that
  proof (induction rows arbitrary: "done" i cells)
    case (Cons r rows)
    then show ?case using Cons.IH [OF collect_row_tallied [OF assms Cons.prems]] by simp
  qed simp
  from this [of "[]" "[]"] show ?thesis by (simp add: tallied_def collectCoverageCells_def)
qed

lemma sum_indicator: "sum_list (map (\<lambda>r. if p r then 1 else 0) rows) = count_where p rows"
  by (induction rows) (simp_all add: count_where_def)

text \<open>The cells that count a task are those of the keys of the tasks.\<close>

lemma counted_keys:
  "ac_cell ` {a \<in> set (collectCoverageCells rows). cc_Tasks (ac_confidence a) \<noteq> 0} = (fst \<circ> cell_key) ` set rows"
proof (intro equalityI subsetI)
  note tasks = collect_tallied [OF counters(1), of rows, unfolded tallied_def]
  fix k
  {
    assume "k \<in> ac_cell ` {a \<in> set (collectCoverageCells rows). cc_Tasks (ac_confidence a) \<noteq> 0}"
    then have "cell_sum (\<lambda>r. 1) k rows \<noteq> 0" using tasks by auto
    then show "k \<in> (fst \<circ> cell_key) ` set rows" using cell_sum_absent by blast
  next
    assume "k \<in> (fst \<circ> cell_key) ` set rows"
    then obtain r where r: "r \<in> set rows" "k = fst (cell_key r)" by auto
    then obtain a where "a \<in> set (collectCoverageCells rows)" "ac_cell a = k" using tasks by force
    moreover have "cell_sum (\<lambda>r. 1) k rows \<noteq> 0"
      using r by (auto simp: cell_sum_def sum_list_triv filter_empty_conv)
    ultimately show "k \<in> ac_cell ` {a \<in> set (collectCoverageCells rows). cc_Tasks (ac_confidence a) \<noteq> 0}"
      using tasks by force
  }
qed

text \<open>The ratings.\<close>

definition CoverageConfidenceRatings :: "string list" where
  "CoverageConfidenceRatings = [CoverageConfidenceComplete, CoverageConfidenceLikelyTruncated,
     CoverageConfidenceLowConfidence, CoverageConfidenceUnexploredAdjacent]"

lemma rated_cell_rating: "cc_Rating (rated_cell options sat left a) \<in> set CoverageConfidenceRatings"
  by (auto simp: rated_cell_def rateCoverageCell_def rateCoverageNeighbourhood_def Let_def case_prod_beta
      CoverageConfidenceRatings_def split: option.splits)

lemma count_cell_ratings:
  "\<forall>c \<in> set cells. cc_Rating c \<in> set CoverageConfidenceRatings \<Longrightarrow>
   ru_Complete (fold count_cell cells r) = ru_Complete r + count_where (\<lambda>c. cc_Rating c = CoverageConfidenceComplete) cells \<and>
   ru_LikelyTruncated (fold count_cell cells r) = ru_LikelyTruncated r + count_where (\<lambda>c. cc_Rating c = CoverageConfidenceLikelyTruncated) cells \<and>
   ru_LowConfidence (fold count_cell cells r) = ru_LowConfidence r + count_where (\<lambda>c. cc_Rating c = CoverageConfidenceLowConfidence) cells \<and>
   ru_UnexploredAdjacent (fold count_cell cells r) = ru_UnexploredAdjacent r + count_where (\<lambda>c. cc_Rating c = CoverageConfidenceUnexploredAdjacent) cells"
  by (induction cells arbitrary: r)
    (auto simp: count_cell_def Let_def CoverageConfidenceRatings_def coverage_ratings count_where_def)

text \<open>
  C39: the confidence of a coverage report accounts for every task of the plan in exactly one cell. There
  is one cell for each key of a task, its ZIP or, without one, its query; a cell counts exactly the
  tasks with its key, each as completed, failed, skipped or pending; and the tasks, the completed,
  failed and skipped ones, the rows added and replaced and the duplicates of the cells add up to the
  totals of the report. Every cell has one of the four ratings, and the rollup counts the cells of each:
  low-confidence exactly when no task of it completed, and complete only when a cut-off result set was
  looked at again and no second look was cut off too.
\<close>

theorem confidence_accounts_for_every_task:
  assumes "re_Confidence (buildCoverageReport options rows) = (rollup, cells)"
  defines "totals \<equiv> re_Totals (buildCoverageReport options rows)"
  shows "distinct (map cc_Cell cells) \<and> set (map cc_Cell cells) = (fst \<circ> cell_key) ` set rows \<and>
    (\<forall>c \<in> set cells. cc_Tasks c = cell_sum (\<lambda>r. 1) (cc_Cell c) rows \<and>
      cc_Completed c + cc_Failed c + cc_Skipped c + cc_Pending c = cc_Tasks c \<and>
      cc_Rating c \<in> set CoverageConfidenceRatings \<and>
      (cc_Rating c = CoverageConfidenceLowConfidence \<longleftrightarrow> cc_Completed c = 0) \<and>
      (cc_Rating c = CoverageConfidenceComplete \<longrightarrow> cc_Truncated c \<longrightarrow>
        cc_Refined c \<and> \<not> cc_TruncatedAfterRefinement c)) \<and>
    sum_list (map cc_Tasks cells) = int (length rows) \<and> to_TasksTotal totals = int (length rows) \<and>
    sum_list (map cc_Completed cells) = to_TasksDone totals \<and>
    sum_list (map cc_Failed cells) = to_TasksFailed totals \<and>
    sum_list (map cc_Skipped cells) = to_TasksSkipped totals \<and>
    sum_list (map cc_RowsAdded cells) = to_RowsAdded totals \<and>
    sum_list (map cc_RowsReplaced cells) = to_RowsReplaced totals \<and>
    sum_list (map cc_DuplicatesSkipped cells) = to_DuplicatesSkipped totals \<and>
    ru_Cells rollup = int (length cells) \<and>
    ru_Complete rollup = count_where (\<lambda>c. cc_Rating c = CoverageConfidenceComplete) cells \<and>
    ru_LikelyTruncated rollup = count_where (\<lambda>c. cc_Rating c = CoverageConfidenceLikelyTruncated) cells \<and>
    ru_LowConfidence rollup = count_where (\<lambda>c. cc_Rating c = CoverageConfidenceLowConfidence) cells \<and>
    ru_UnexploredAdjacent rollup = count_where (\<lambda>c. cc_Rating c = CoverageConfidenceUnexploredAdjacent) cells"
proof -
  let ?all = "SliceStable cell_before (collectCoverageCells rows)"
  let ?some = "filter (\<lambda>a. cc_Tasks (ac_confidence a) \<noteq> 0) ?all"
  obtain sat left r0 where cells: "cells = map (rated_cell options sat left) ?some"
    and rollup: "rollup = fold count_cell cells r0" "ru_Cells r0 = 0" "ru_Complete r0 = 0"
      "ru_LikelyTruncated r0 = 0" "ru_LowConfidence r0 = 0" "ru_UnexploredAdjacent r0 = 0"
    using assms(1) confidence_form [of options rows "report_saturation options rows"]
    by (simp only: buildCoverageReport_def Let_def CoverageReport.simps) (metis prod.inject)
  note ok = collect_ok [of rows, unfolded cells_ok_def]
  have mem: "cell_balanced (ac_confidence a) \<and> cc_Cell (ac_confidence a) = ac_cell a" if "a \<in> set ?all" for a
    using ok that by simp
  have names: "map cc_Cell cells = map ac_cell ?some" using mem by (auto simp: cells)
  then have dist: "distinct (map cc_Cell cells)"
    using ok by (simp add: distinct_map_filter distinct_map_SliceStable)
  have part: "f c = cell_sum w (cc_Cell c) rows" if "counts f w" "c \<in> set cells" for f w c
    using that(2) collect_tallied [OF that(1), of rows] that(1) mem by (auto simp: cells tallied_def counts_def)
  have keys: "set (map cc_Cell cells) = (fst \<circ> cell_key) ` set rows"
    unfolding names by (rule trans [OF _ counted_keys [of rows]]) auto
  have sums: "sum_list (map f cells) = sum_list (map w rows)" if "counts f w" for f w
  proof -
    have "map f cells = map (\<lambda>k. cell_sum w k rows) (map cc_Cell cells)" using part [OF that] by simp
    then show ?thesis using cell_sum_total [OF dist, of rows w] keys by (simp only: order_refl)
  qed
  have rated: "cc_Rating c \<in> set CoverageConfidenceRatings \<and> cell_balanced c \<and>
      (cc_Rating c = CoverageConfidenceLowConfidence \<longleftrightarrow> cc_Completed c = 0) \<and>
      (cc_Rating c = CoverageConfidenceComplete \<longrightarrow> cc_Truncated c \<longrightarrow>
        cc_Refined c \<and> \<not> cc_TruncatedAfterRefinement c)" if "c \<in> set cells" for c
    using that mem rated_cell_verdict rated_cell_rating by (auto simp: cells)
  show ?thesis
    using dist keys part [OF counters(1)] rated counters [THEN sums] rollup(2-) count_cell_laws(1) [of cells r0]
      count_cell_ratings [of cells r0]
    by (simp add: rollup(1) totals_def buildCoverageReport_def Let_def report_totals_def sum_indicator
        sum_list_triv cell_balanced_def)
qed

definition sample_row :: "string \<Rightarrow> string \<Rightarrow> bool \<Rightarrow> CoverageTaskRow" where
  "sample_row query st truncated =
     \<lparr>ct_TaskKey = query, ct_Query = query, ct_Origin = [], ct_State = st, ct_LastError = [],
      ct_Attempts = 1, ct_Priority = 0, ct_Sequence = 0, ct_RowsAdded = 4, ct_RowsReplaced = 1,
      ct_DuplicatesSkipped = 0, ct_Truncated = truncated, ct_StartedAt = None, ct_FinishedAt = None\<rparr>"

lemma confidence_accounts_for_every_task_witness:
  "\<exists>rollup cells. re_Confidence (buildCoverageReport None
     [sample_row ''a'' taskStateCompleted True, sample_row ''b'' taskStateFailed False]) = (rollup, cells) \<and>
   sum_list (map cc_Tasks cells) = 2 \<and> sum_list (map cc_Completed cells) = 1 \<and>
   sum_list (map cc_RowsAdded cells) = 8 \<and> distinct (map cc_Cell cells)"
proof -
  obtain rollup cells where c: "re_Confidence (buildCoverageReport None
     [sample_row ''a'' taskStateCompleted True, sample_row ''b'' taskStateFailed False]) = (rollup, cells)"
    by (rule prod.exhaust)
  show ?thesis using confidence_accounts_for_every_task [OF c] c
    by (auto simp: buildCoverageReport_def Let_def report_totals_def sample_row_def count_where_def)
qed

end
