(* ===== verification/CoverageEngine.thy ===== *)
theory CoverageEngine
  imports CoverageReport TaskLease ExitMonitor
begin

text \<open>
  The mid-run coverage engine of \<open>runner/webrunner/coverage.go\<close>, \<open>coverage_rank.go\<close> and
  \<open>coverage_refine.go\<close>, and the durable side of its decisions. Every method of the engine runs under
  its mutex, so it is one step of the record. A candidate of work is data: what its closures \<open>build\<close>
  and \<open>onFund\<close> do is \<open>build_work\<close> and \<open>fund_work\<close>.
\<close>

section \<open>The environment\<close>

record expansionTaskPayload =
  ep_SeedID :: string
  ep_Sequence :: int
  ep_Query :: string
  ep_Coordinates :: string
  ep_ZIP :: string
  ep_ParentZIP :: string
  ep_Expansion :: bool
  ep_Refinement :: bool
  ep_Zoom :: int

text \<open>
  Arguments of the model: the embedded dataset, the UUID of package \<open>github.com/google/uuid\<close>, the
  JSON codec of a payload, and the elementary functions of package \<open>math\<close>, whose last bit is not
  specified. No result depends on a law of them.
\<close>

record CoverageEnv =
  cv_unicode :: Unicode
  cv_zipAreas :: "ZIPArea list"
  cv_NewSHA1 :: "string \<Rightarrow> string"
  cv_Marshal :: "expansionTaskPayload \<Rightarrow> string option"
  cv_Unmarshal :: "string \<Rightarrow> expansionTaskPayload option"
  cv_Sin :: "f64 \<Rightarrow> f64"
  cv_Cos :: "f64 \<Rightarrow> f64"
  cv_Asin :: "f64 \<Rightarrow> f64"
  cv_Sqrt :: "f64 \<Rightarrow> f64"

definition toRadians :: "f64 \<Rightarrow> f64" where
  "toRadians degrees = f64_div (f64_mul degrees math_Pi) (Fin 180)"

definition haversineKM :: "CoverageEnv \<Rightarrow> f64 \<Rightarrow> f64 \<Rightarrow> f64 \<Rightarrow> f64 \<Rightarrow> f64" where
  "haversineKM env lat1 lon1 lat2 lon2 =
     (let dLat = toRadians (f64_sub lat2 lat1); dLon = toRadians (f64_sub lon2 lon1);
          sLat = cv_Sin env (f64_div dLat (Fin 2)); sLon = cv_Sin env (f64_div dLon (Fin 2));
          a = f64_add (f64_mul sLat sLat)
            (f64_mul (f64_mul (f64_mul (cv_Cos env (toRadians lat1)) (cv_Cos env (toRadians lat2))) sLon) sLon)
      in f64_mul (Fin 12742) (cv_Asin env (math_Min (Fin 1) (cv_Sqrt env a))))"

definition area_distance :: "CoverageEnv \<Rightarrow> ZIPArea \<Rightarrow> ZIPArea \<Rightarrow> f64" where
  "area_distance env a b =
     haversineKM env (za_Latitude a) (za_Longitude a) (za_Latitude b) (za_Longitude b)"

text \<open>\<open>fmt.Sprintf("%.6f", x)\<close>: the exact value, halves to even.\<close>

definition six_digits :: "nat \<Rightarrow> string" where
  "six_digits n = replicate (6 - length (digits n)) (CHR ''0'') @ digits n"

fun format_f6 :: "f64 \<Rightarrow> string" where
  "format_f6 (Fin x) =
     (let n = nat (round_half_even (\<bar>x\<bar> * 1000000))
      in (if x < 0 then ''-'' else []) @ digits (n div 1000000) @ ''.'' @ six_digits (n mod 1000000))"
| "format_f6 PosInf = ''+Inf''"
| "format_f6 NegInf = ''-Inf''"
| "format_f6 NaN = ''NaN''"

section \<open>Yields\<close>

definition gmapsFeedPageSize :: int where "gmapsFeedPageSize = 20"
definition gmapsFeedResultCeiling :: int where "gmapsFeedResultCeiling = 120"
definition maximumMapsZoom :: int where "maximumMapsZoom = 21"
definition coverageRefinementZoomStep :: int where "coverageRefinementZoomStep = 2"
definition coverageMaxRefinementsPerTask :: int where "coverageMaxRefinementsPerTask = 1"
definition coverageMaxRefinementDepth :: int where "coverageMaxRefinementDepth = 2"
definition coverageMinimumZIPSeparationKM :: f64 where "coverageMinimumZIPSeparationKM = Fin 1"
definition coverageExpansionYieldDiscount :: f64 where "coverageExpansionYieldDiscount = Fin (1 / 2)"
definition coverageExpansionMinYieldShare :: f64 where
  "coverageExpansionMinYieldShare = f64_of_rat (1 / 5)"
definition coverageExpansionBatch :: nat where "coverageExpansionBatch = 3"

lemmas coverage_limits = gmapsFeedPageSize_def gmapsFeedResultCeiling_def maximumMapsZoom_def
  coverageRefinementZoomStep_def coverageMaxRefinementsPerTask_def coverageMaxRefinementDepth_def
  coverageExpansionBatch_def

definition effectiveQueryResultCap :: "int \<Rightarrow> int" where
  "effectiveQueryResultCap depth0 =
     (let depth = (if depth0 < 1 then 1 else depth0); resultCap = depth * gmapsFeedPageSize
      in if gmapsFeedResultCeiling < resultCap then gmapsFeedResultCeiling else resultCap)"

definition coverageTaskYield :: "JobTaskCheckpoint \<Rightarrow> int" where
  "coverageTaskYield cp = cp_RowsAdded cp + cp_DuplicatesSkipped cp"

definition coverageNetNewRows :: "JobTaskCheckpoint \<Rightarrow> int" where
  "coverageNetNewRows cp =
     (if cp_RowsAdded cp \<le> cp_RowsReplaced cp then 0 else cp_RowsAdded cp - cp_RowsReplaced cp)"

definition markCoverageTruncation :: "bool \<Rightarrow> int \<Rightarrow> JobTaskCheckpoint \<Rightarrow> JobTaskCheckpoint" where
  "markCoverageTruncation engine depth cp =
     (if \<not> engine then cp
      else let resultCap = effectiveQueryResultCap depth
        in cp\<lparr>cp_TruncationCap := resultCap, cp_Truncated := (resultCap \<le> coverageTaskYield cp)\<rparr>)"

record coverageCellYield =
  cy_netNew :: int
  cy_refound :: int
  cy_duplicates :: int
  cy_tasks :: int

definition no_yield :: coverageCellYield where
  "no_yield = \<lparr>cy_netNew = 0, cy_refound = 0, cy_duplicates = 0, cy_tasks = 0\<rparr>"

definition yield_share :: "coverageCellYield \<Rightarrow> f64" where
  "yield_share y =
     (let tot = cy_netNew y + cy_refound y + cy_duplicates y
      in if tot \<le> 0 then Fin 1 else f64_div (f64_of_int (cy_netNew y)) (f64_of_int tot))"

definition expectedRefinementYield :: "JobTaskCheckpoint \<Rightarrow> f64" where
  "expectedRefinementYield cp =
     (let observed = coverageTaskYield cp
      in if observed \<le> 0 then Fin 0
         else f64_mul (f64_div (f64_of_int (coverageNetNewRows cp)) (f64_of_int observed))
           (f64_of_int gmapsFeedPageSize))"

section \<open>The engine\<close>

text \<open>
  \<open>coverageEngine\<close> with its \<open>coverageBlindspotState\<close>; \<open>known\<close> and \<open>expandedParents\<close> are sets kept as
  lists. The index over the dataset is built from it once and never changes, so it is not state.
\<close>

record coverageEngine =
  ce_jobID :: string
  ce_options :: CoverageOptions
  ce_window :: "CoverageSample list"
  ce_known :: "string list"
  ce_nextSequence :: int
  ce_expansionsAdded :: int
  ce_saturated :: bool
  ce_cellYield :: "string \<Rightarrow> coverageCellYield"
  ce_expansionProbes :: int
  ce_expansionProbeNetNew :: int
  ce_planZoom :: int
  ce_searchRadiusKM :: f64
  ce_refinedTasks :: "string \<Rightarrow> int"
  ce_expandedParents :: "string list"

record coverageDecision =
  cd_recorded :: bool
  cd_saturatedNow :: bool
  cd_reason :: string
  cd_ratio :: f64
  cd_windowSize :: int
  cd_evidence :: CoverageWindowEvidence
  cd_expansions :: "JobTaskDefinition list"
  cd_refinements :: "JobTaskDefinition list"
  cd_parentZIP :: string

definition known_zips :: "string list \<Rightarrow> string list" where
  "known_zips queries =
     fold (\<lambda>q known. case ParseGBPQueryZIP q of None \<Rightarrow> known | Some z \<Rightarrow> List.insert z known) queries []"

definition newCoverageEngine :: "string \<Rightarrow> CoverageOptions \<Rightarrow> CoverageSeedState \<Rightarrow> coverageEngine" where
  "newCoverageEngine job options seed =
     \<lparr>ce_jobID = job, ce_options = options, ce_window = [], ce_known = known_zips (se_Queries seed),
      ce_nextSequence = se_MaxSequence seed + 1, ce_expansionsAdded = se_ExpansionTasks seed,
      ce_saturated = False, ce_cellYield = (\<lambda>_. no_yield), ce_expansionProbes = 0,
      ce_expansionProbeNetNew = 0, ce_planZoom = 0, ce_searchRadiusKM = Fin 0,
      ce_refinedTasks = (\<lambda>_. 0), ce_expandedParents = []\<rparr>"

definition withPlanZoom :: "int \<Rightarrow> coverageEngine \<Rightarrow> coverageEngine" where
  "withPlanZoom zoom e = e\<lparr>ce_planZoom := zoom\<rparr>"

definition withSearchRadius :: "int \<Rightarrow> coverageEngine \<Rightarrow> coverageEngine" where
  "withSearchRadius metres e = e\<lparr>ce_searchRadiusKM := f64_div (f64_of_int metres) (Fin 1000)\<rparr>"

definition zipSeparationFloorLocked :: "coverageEngine \<Rightarrow> f64" where
  "zipSeparationFloorLocked e =
     (if f64_less coverageMinimumZIPSeparationKM (ce_searchRadiusKM e) then ce_searchRadiusKM e
      else coverageMinimumZIPSeparationKM)"

text \<open>The last area of a ZIP in the dataset is the one the index keeps.\<close>

definition zipAreaLocked :: "CoverageEnv \<Rightarrow> string \<Rightarrow> ZIPArea option" where
  "zipAreaLocked env z = find (\<lambda>a. za_ZIP a = z) (rev (cv_zipAreas env))"

definition overlapsCoveredZIPLocked :: "CoverageEnv \<Rightarrow> coverageEngine \<Rightarrow> ZIPArea \<Rightarrow> bool" where
  "overlapsCoveredZIPLocked env e candidate \<longleftrightarrow>
     list_ex (\<lambda>z. z = za_ZIP candidate \<or>
       (case zipAreaLocked env z of
          None \<Rightarrow> False
        | Some covered \<Rightarrow>
            f64_less (area_distance env covered candidate) (zipSeparationFloorLocked e)))
       (ce_known e)"

definition parentExpansionSpentLocked :: "string \<Rightarrow> coverageEngine \<Rightarrow> bool" where
  "parentExpansionSpentLocked parent e \<longleftrightarrow> parent \<in> set (ce_expandedParents e)"

definition claimParentExpansionLocked :: "string \<Rightarrow> coverageEngine \<Rightarrow> coverageEngine" where
  "claimParentExpansionLocked parent e =
     e\<lparr>ce_expandedParents := List.insert parent (ce_expandedParents e)\<rparr>"

definition recordYieldLocked :: "JobTask \<Rightarrow> JobTaskCheckpoint \<Rightarrow> coverageEngine \<Rightarrow> coverageEngine" where
  "recordYieldLocked task cp e =
     (let netNew = coverageNetNewRows cp;
          e1 = (case ParseGBPQueryZIP (jt_Query task) of
              None \<Rightarrow> e
            | Some z \<Rightarrow>
                let y = ce_cellYield e z
                in e\<lparr>ce_cellYield := (ce_cellYield e)(z :=
                  \<lparr>cy_netNew = cy_netNew y + netNew, cy_refound = cy_refound y + cp_RowsReplaced cp,
                   cy_duplicates = cy_duplicates y + cp_DuplicatesSkipped cp, cy_tasks = cy_tasks y + 1\<rparr>)\<rparr>)
      in if HasPrefix (jt_Origin task) CoverageExpansionOriginPrefix
         then e1\<lparr>ce_expansionProbes := ce_expansionProbes e1 + 1,
           ce_expansionProbeNetNew := ce_expansionProbeNetNew e1 + netNew\<rparr>
         else e1)"

definition expectedExpansionYieldLocked :: "int \<Rightarrow> coverageEngine \<Rightarrow> f64" where
  "expectedExpansionYieldLocked parentNetNew e =
     (if 0 < ce_expansionProbes e
      then f64_div (f64_of_int (ce_expansionProbeNetNew e)) (f64_of_int (ce_expansionProbes e))
      else f64_mul (f64_of_int parentNetNew) coverageExpansionYieldDiscount)"

definition expansionWarrantedLocked :: "string \<Rightarrow> coverageEngine \<Rightarrow> bool" where
  "expansionWarrantedLocked z e \<longleftrightarrow>
     (let y = ce_cellYield e z
      in \<not> cy_netNew y < ExpansionMinNewOrDefault (Some (ce_options e)) \<and>
         f64_le coverageExpansionMinYieldShare (yield_share y))"

section \<open>Refinements\<close>

definition resolveSeedZoom :: "int \<Rightarrow> int \<Rightarrow> int" where
  "resolveSeedZoom planZoom payloadZoom = (if 0 < payloadZoom then payloadZoom else planZoom)"

definition refinementZoom :: "int \<Rightarrow> int" where
  "refinementZoom planZoom =
     (if planZoom < 1 \<or> maximumMapsZoom \<le> planZoom then 0
      else let zoom = planZoom + coverageRefinementZoomStep
        in if maximumMapsZoom < zoom then maximumMapsZoom else zoom)"

definition refinementBaseZoom :: "CoverageEnv \<Rightarrow> JobTask \<Rightarrow> int \<Rightarrow> int" where
  "refinementBaseZoom env task planZoom =
     (if \<not> HasPrefix (jt_Origin task) CoverageRefinementOriginPrefix then planZoom
      else case cv_Unmarshal env (jt_Payload task) of
        None \<Rightarrow> planZoom + coverageRefinementZoomStep
      | Some payload \<Rightarrow>
          if ep_Zoom payload \<le> 0 then planZoom + coverageRefinementZoomStep else ep_Zoom payload)"

definition refinementDepthOf :: "CoverageEnv \<Rightarrow> JobTask \<Rightarrow> int \<Rightarrow> int" where
  "refinementDepthOf env task planZoom =
     (if \<not> HasPrefix (jt_Origin task) CoverageRefinementOriginPrefix then 0
      else let base = refinementBaseZoom env task planZoom
        in if planZoom < 1 \<or> base \<le> planZoom then 1
           else (base - planZoom + coverageRefinementZoomStep - 1) div coverageRefinementZoomStep)"

text \<open>The definitions of appended tasks; \<open>0x1F\<close> separates the parts of an identity.\<close>

definition identity :: "string list \<Rightarrow> string" where
  "identity parts = concat (map (\<lambda>p. char_of (31 :: nat) # p) parts)"

definition coordinates :: "ZIPArea \<Rightarrow> string" where
  "coordinates area = format_f6 (za_Latitude area) @ '','' @ format_f6 (za_Longitude area)"

definition appended_task :: "string \<Rightarrow> int \<Rightarrow> string \<Rightarrow> string option \<Rightarrow> string \<Rightarrow> JobTaskDefinition" where
  "appended_task key sequence query payload origin =
     \<lparr>jd_Key = key, jd_Kind = ''map-query'', jd_Sequence = sequence, jd_Query = query,
      jd_SourceCell = [], jd_InputID = [],
      jd_Payload = (case payload of None \<Rightarrow> ''{}'' | Some p \<Rightarrow> p), jd_Origin = origin, jd_Priority = 1\<rparr>"

definition expansionTaskDefinition ::
  "CoverageEnv \<Rightarrow> string \<Rightarrow> string \<Rightarrow> string \<Rightarrow> ZIPArea \<Rightarrow> int \<Rightarrow> JobTaskDefinition" where
  "expansionTaskDefinition env job synonym parentZIP area sequence =
     (let query = area_query (cv_unicode env) synonym area;
          key = ''exp-'' @ cv_NewSHA1 env (''coverage-expansion'' @ identity [job, query])
      in appended_task key sequence query
          (cv_Marshal env \<lparr>ep_SeedID = key, ep_Sequence = sequence, ep_Query = query,
             ep_Coordinates = coordinates area, ep_ZIP = za_ZIP area, ep_ParentZIP = parentZIP,
             ep_Expansion = True, ep_Refinement = False, ep_Zoom = 0\<rparr>)
          (CoverageExpansionOriginPrefix @ parentZIP))"

definition refinementTaskDefinition ::
  "CoverageEnv \<Rightarrow> string \<Rightarrow> string \<Rightarrow> ZIPArea \<Rightarrow> int \<Rightarrow> int \<Rightarrow> JobTaskDefinition" where
  "refinementTaskDefinition env job synonym area zoom sequence =
     (let query = area_query (cv_unicode env) synonym area;
          key = ''ref-'' @ cv_NewSHA1 env
            (''coverage-refinement'' @ identity [job, query, decimal zoom @ ''z''])
      in appended_task key sequence query
          (cv_Marshal env \<lparr>ep_SeedID = key, ep_Sequence = sequence, ep_Query = query,
             ep_Coordinates = coordinates area, ep_ZIP = za_ZIP area, ep_ParentZIP = za_ZIP area,
             ep_Expansion = True, ep_Refinement = True, ep_Zoom = zoom\<rparr>)
          (CoverageRefinementOriginPrefix @ za_ZIP area))"

section \<open>Candidates\<close>

datatype work =
    Refine (wk_synonym: string) (wk_area: ZIPArea) (wk_zoom: int) (wk_task: string)
  | Expand (wk_synonym: string) (wk_parent: string) (wk_area: ZIPArea)

record coverageWorkCandidate =
  wc_score :: f64
  wc_work :: work

fun is_refinement :: "work \<Rightarrow> bool" where
  "is_refinement (Refine _ _ _ _) = True"
| "is_refinement (Expand _ _ _) = False"

fun build_work :: "CoverageEnv \<Rightarrow> string \<Rightarrow> work \<Rightarrow> int \<Rightarrow> JobTaskDefinition" where
  "build_work env job (Refine synonym area zoom task) sequence =
     refinementTaskDefinition env job synonym area zoom sequence"
| "build_work env job (Expand synonym parent area) sequence =
     expansionTaskDefinition env job synonym parent area sequence"

fun fund_work :: "work \<Rightarrow> coverageEngine \<Rightarrow> coverageEngine" where
  "fund_work (Refine synonym area zoom task) e =
     e\<lparr>ce_refinedTasks := (ce_refinedTasks e)(task := ce_refinedTasks e task + 1)\<rparr>"
| "fund_work (Expand synonym parent area) e =
     claimParentExpansionLocked parent (e\<lparr>ce_known := List.insert (za_ZIP area) (ce_known e)\<rparr>)"

definition refinementCandidateLocked ::
  "CoverageEnv \<Rightarrow> JobTask \<Rightarrow> JobTaskCheckpoint \<Rightarrow> coverageEngine \<Rightarrow> coverageWorkCandidate option" where
  "refinementCandidateLocked env task cp e =
     (let depth = refinementDepthOf env task (ce_planZoom e)
      in if \<not> cp_Truncated cp then None
         else if coverageMaxRefinementDepth \<le> depth then None
         else if 0 < depth \<and> coverageNetNewRows cp < ExpansionMinNewOrDefault (Some (ce_options e)) then None
         else if coverageMaxRefinementsPerTask \<le> ce_refinedTasks e (jt_Key task) then None
         else case SplitGBPQuery (jt_Query task) of
           None \<Rightarrow> None
         | Some (synonym, z) \<Rightarrow>
             let zoom = refinementZoom (refinementBaseZoom env task (ce_planZoom e))
             in if zoom = 0 then None
                else case zipAreaLocked env z of
                  None \<Rightarrow> None
                | Some area \<Rightarrow> Some \<lparr>wc_score = expectedRefinementYield cp,
                    wc_work = Refine synonym area zoom (jt_Key task)\<rparr>)"

definition coverageZIPTooClose :: "CoverageEnv \<Rightarrow> ZIPArea list \<Rightarrow> ZIPArea \<Rightarrow> f64 \<Rightarrow> bool" where
  "coverageZIPTooClose env picked candidate separation \<longleftrightarrow>
     list_ex (\<lambda>a. f64_less (area_distance env a candidate) separation) picked"

text \<open>Neighbours, nearest first, those at the same distance by ZIP; the dataset names a ZIP once.\<close>

definition nearer :: "f64 \<times> ZIPArea \<Rightarrow> f64 \<times> ZIPArea \<Rightarrow> bool" where
  "nearer a b \<longleftrightarrow>
     (if f64_eq (fst a) (fst b) then string_less (za_ZIP (snd a)) (za_ZIP (snd b))
      else f64_less (fst a) (fst b))"

definition neighbours_of :: "CoverageEnv \<Rightarrow> ZIPArea \<Rightarrow> coverageEngine \<Rightarrow> (f64 \<times> ZIPArea) list" where
  "neighbours_of env parent e =
     map (\<lambda>a. (area_distance env parent a, a))
       (filter (\<lambda>a. \<not> (za_State a \<noteq> za_State parent \<or> za_ZIP a = za_ZIP parent) \<and>
           za_ZIP a \<notin> set (ce_known e) \<and> \<not> overlapsCoveredZIPLocked env e a)
         (cv_zipAreas env))"

fun choose_batch :: "CoverageEnv \<Rightarrow> f64 \<Rightarrow> ZIPArea list \<Rightarrow> ZIPArea list \<Rightarrow> ZIPArea list" where
  "choose_batch env separation chosen [] = chosen"
| "choose_batch env separation chosen (a # as) =
     (if coverageExpansionBatch \<le> length chosen then chosen
      else if coverageZIPTooClose env chosen a separation then choose_batch env separation chosen as
      else choose_batch env separation (chosen @ [a]) as)"

definition expansionCandidatesLocked ::
  "CoverageEnv \<Rightarrow> JobTask \<Rightarrow> JobTaskCheckpoint \<Rightarrow> coverageDecision \<Rightarrow> coverageEngine \<Rightarrow>
   coverageWorkCandidate list \<times> coverageDecision \<times> coverageEngine" where
  "expansionCandidatesLocked env task cp decision e =
     (case SplitGBPQuery (jt_Query task) of
        None \<Rightarrow> ([], decision, e)
      | Some (synonym, parentZIP) \<Rightarrow>
          if \<not> expansionWarrantedLocked parentZIP e then ([], decision, e)
          else case zipAreaLocked env parentZIP of
            None \<Rightarrow> ([], decision, e)
          | Some parent \<Rightarrow>
              let e1 = e\<lparr>ce_known := List.insert parentZIP (ce_known e)\<rparr>
              in if parentExpansionSpentLocked parentZIP e1 then ([], decision, e1)
                 else let neighbours = neighbours_of env parent e1
                   in if neighbours = [] then ([], decision, e1)
                      else let score = expectedExpansionYieldLocked (coverageNetNewRows cp) e1;
                          chosen = choose_batch env (zipSeparationFloorLocked e1) []
                            (map snd (SliceStable nearer neighbours))
                        in (map (\<lambda>a. \<lparr>wc_score = score, wc_work = Expand synonym parentZIP a\<rparr>) chosen,
                            decision\<lparr>cd_parentZIP := parentZIP\<rparr>, e1))"

section \<open>Funding and recording\<close>

definition ranked_before :: "coverageWorkCandidate \<Rightarrow> coverageWorkCandidate \<Rightarrow> bool" where
  "ranked_before a b \<longleftrightarrow>
     (if \<not> f64_eq (wc_score a) (wc_score b) then f64_less (wc_score b) (wc_score a)
      else is_refinement (wc_work a) \<and> \<not> is_refinement (wc_work b))"

fun fund_candidates ::
  "CoverageEnv \<Rightarrow> coverageWorkCandidate list \<Rightarrow> coverageDecision \<Rightarrow> coverageEngine \<Rightarrow>
   coverageDecision \<times> coverageEngine" where
  "fund_candidates env [] decision e = (decision, e)"
| "fund_candidates env (c # cs) decision e =
     (if co_MaxExpansions (ce_options e) \<le> ce_expansionsAdded e then (decision, e)
      else let d = build_work env (ce_jobID e) (wc_work c) (ce_nextSequence e);
          e1 = fund_work (wc_work c) (e\<lparr>ce_nextSequence := ce_nextSequence e + 1,
            ce_expansionsAdded := ce_expansionsAdded e + 1\<rparr>)
        in fund_candidates env cs
          (if is_refinement (wc_work c)
           then decision\<lparr>cd_refinements := cd_refinements decision @ [d]\<rparr>
           else decision\<lparr>cd_expansions := cd_expansions decision @ [d]\<rparr>) e1)"

definition planAppendedWorkLocked ::
  "CoverageEnv \<Rightarrow> JobTask \<Rightarrow> JobTaskCheckpoint \<Rightarrow> coverageDecision \<Rightarrow> coverageEngine \<Rightarrow>
   coverageDecision \<times> coverageEngine" where
  "planAppendedWorkLocked env task cp decision e =
     (if co_MaxExpansions (ce_options e) \<le> 0 \<or> co_MaxExpansions (ce_options e) \<le> ce_expansionsAdded e
      then (decision, e)
      else let refinement = (case refinementCandidateLocked env task cp e of None \<Rightarrow> [] | Some c \<Rightarrow> [c]);
          (expansions, decision1, e1) = expansionCandidatesLocked env task cp decision e
        in fund_candidates env (SliceStable ranked_before (refinement @ expansions)) decision1 e1)"

definition last_n :: "int \<Rightarrow> 'a list \<Rightarrow> 'a list" where
  "last_n n xs = (if n < int (length xs) then drop (nat (int (length xs) - n)) xs else xs)"

definition engine_record ::
  "CoverageEnv \<Rightarrow> JobTask \<Rightarrow> JobTaskCheckpoint \<Rightarrow> bool \<Rightarrow> coverageEngine \<Rightarrow>
   coverageDecision \<times> coverageEngine" where
  "engine_record env task cp succeeded e =
     (let opt = Some (ce_options e); windowSize = WindowOrDefault opt;
          e1 = (if succeeded \<and> jt_Origin task = []
            then e\<lparr>ce_window := last_n windowSize (ce_window e @
              [NewCoverageSample (cp_RowsAdded cp) (cp_RowsReplaced cp) (cp_DuplicatesSkipped cp) True])\<rparr>
            else e);
          decision = \<lparr>cd_recorded = succeeded, cd_saturatedNow = False, cd_reason = [],
            cd_ratio = CoverageWindowRatio (ce_window e1), cd_windowSize = int (length (ce_window e1)),
            cd_evidence = CoverageWindowEvidenceOf (ce_window e1), cd_expansions = [],
            cd_refinements = [], cd_parentZIP = []\<rparr>
      in if \<not> succeeded \<or> ce_saturated e1 then (decision, e1)
         else if StopOnEmptyWindowOrDefault opt \<and> ZeroYield (cd_evidence decision) windowSize
         then (decision\<lparr>cd_saturatedNow := True, cd_reason := CoverageSaturationReasonEmpty\<rparr>,
               e1\<lparr>ce_saturated := True\<rparr>)
         else if co_AutoStop (ce_options e) \<and> windowSize \<le> int (length (ce_window e1)) \<and>
           f64_less (cd_ratio decision) (MinNewRatioOrDefault opt)
         then (decision\<lparr>cd_saturatedNow := True, cd_reason := CoverageSaturationReasonDuplicates\<rparr>,
               e1\<lparr>ce_saturated := True\<rparr>)
         else planAppendedWorkLocked env task cp decision (recordYieldLocked task cp e1))"

definition recordCompletion ::
  "CoverageEnv \<Rightarrow> JobTask \<Rightarrow> JobTaskCheckpoint \<Rightarrow> coverageEngine \<Rightarrow> coverageDecision \<times> coverageEngine" where
  "recordCompletion env task cp e = engine_record env task cp True e"

definition recordFailedAttempt ::
  "CoverageEnv \<Rightarrow> JobTask \<Rightarrow> JobTaskCheckpoint \<Rightarrow> coverageEngine \<Rightarrow> coverageDecision \<times> coverageEngine" where
  "recordFailedAttempt env task cp e = engine_record env task cp False e"

section \<open>The service\<close>

datatype append_error =
    ErrJobIDRequired
  | ErrSkipReasonRequired
  | ErrMaxAttempts
  | ErrAppendedKey int
  | ErrAppendedKind int
  | ErrDuplicateAppendedKey string
  | ErrAppendedSequence string
  | ErrAppendedOrigin string
  | ErrAppendedPriority string
  | ErrAppendedPayload string
  | ErrRepository repo_error

fun check_appended ::
  "int \<Rightarrow> string list \<Rightarrow> JobTaskDefinition list \<Rightarrow> append_error + JobTaskDefinition list" where
  "check_appended index seen [] = Inr []"
| "check_appended index seen (d0 # ds) =
     (let d = d0\<lparr>jd_Key := TrimSpace (jd_Key d0), jd_Kind := TrimSpace (jd_Kind d0)\<rparr>;
          d1 = (if jd_Payload d = [] then d\<lparr>jd_Payload := ''{}''\<rparr> else d)
      in if jd_Key d = [] \<or> 256 < length (jd_Key d) then Inl (ErrAppendedKey (index + 1))
         else if jd_Kind d = [] \<or> 64 < length (jd_Kind d) then Inl (ErrAppendedKind (index + 1))
         else if jd_Key d \<in> set seen then Inl (ErrDuplicateAppendedKey (jd_Key d))
         else if jd_Sequence d < 0 then Inl (ErrAppendedSequence (jd_Key d))
         else if 128 < length (jd_Origin d) then Inl (ErrAppendedOrigin (jd_Key d))
         else if jd_Priority d < 0 \<or> 1000 < jd_Priority d then Inl (ErrAppendedPriority (jd_Key d))
         else if 64 * 1024 < length (jd_Payload d1) then Inl (ErrAppendedPayload (jd_Key d))
         else case check_appended (index + 1) (jd_Key d # seen) ds of
           Inl e \<Rightarrow> Inl e
         | Inr rest \<Rightarrow> Inr (d1 # rest))"

definition service_AppendJobTasks ::
  "Env \<Rightarrow> int \<Rightarrow> string \<Rightarrow> JobTaskDefinition list \<Rightarrow> int \<Rightarrow> Db \<Rightarrow> (append_error + JobTask list) \<times> Db" where
  "service_AppendJobTasks env now job definitions maxAttempts db =
     (if TrimSpace job = [] then (Inl ErrJobIDRequired, db)
      else if definitions = [] then (Inr [], db)
      else if maxAttempts < 1 \<or> 100 < maxAttempts then (Inl ErrMaxAttempts, db)
      else case check_appended 0 [] definitions of
        Inl e \<Rightarrow> (Inl e, db)
      | Inr checked \<Rightarrow>
          (case AppendJobTasks env now job checked maxAttempts db of
             (Inl e, db') \<Rightarrow> (Inl (ErrRepository e), db')
           | (Inr tasks, db') \<Rightarrow> (Inr tasks, db')))"

definition service_SkipPendingJobTasks ::
  "Env \<Rightarrow> int \<Rightarrow> string \<Rightarrow> string \<Rightarrow> Db \<Rightarrow> (append_error + int) \<times> Db" where
  "service_SkipPendingJobTasks env now job reason db =
     (if TrimSpace job = [] then (Inl ErrJobIDRequired, db)
      else if TrimSpace reason = [] then (Inl ErrSkipReasonRequired, db)
      else case SkipPendingJobTasks env now job reason db of
        (Inl e, db') \<Rightarrow> (Inl (ErrRepository e), db')
      | (Inr n, db') \<Rightarrow> (Inr n, db'))"

section \<open>Carrying out a decision\<close>

datatype coverage_event =
    Ev_stop_failed string append_error
  | Ev_stopped string string int f64 int
  | Ev_append_failed string append_error
  | Ev_refined int "string list" int int
  | Ev_expanded int "string list" string int

record coverage_settings =
  st_job :: string
  st_options :: CoverageOptions
  st_Zoom :: int
  st_Radius :: int
  st_RetryConfigured :: bool
  st_RetryCount :: int

text \<open>\<open>run.coverage\<close> is nil when the plan could not be read at the start of the run.\<close>

record coverage_world =
  wo_db :: Db
  wo_engine :: "coverageEngine option"
  wo_exit :: exiter
  wo_events :: "coverage_event list"

definition note_event :: "coverage_event \<Rightarrow> coverage_world \<Rightarrow> coverage_world" where
  "note_event ev w = w\<lparr>wo_events := wo_events w @ [ev]\<rparr>"

definition coverageStopEvent :: "string \<Rightarrow> string \<times> string" where
  "coverageStopEvent reason =
     (if reason = CoverageSaturationReasonEmpty then (CoverageEmptySkipReason, ''coverage-exhausted'')
      else (CoverageSkipReason, ''coverage-saturated''))"

definition applySaturationStop ::
  "Env \<Rightarrow> int \<Rightarrow> string \<Rightarrow> coverageDecision \<Rightarrow> coverage_world \<Rightarrow> coverage_world" where
  "applySaturationStop env now job decision w =
     (let (skipReason, eventType) = coverageStopEvent (cd_reason decision);
          (answer, db) = service_SkipPendingJobTasks env now job skipReason (wo_db w);
          w1 = w\<lparr>wo_db := db\<rparr>
      in case answer of
           Inl e \<Rightarrow> note_event (Ev_stop_failed eventType e) w1
         | Inr skipped \<Rightarrow> note_event (Ev_stopped eventType (cd_reason decision) (cd_windowSize decision)
             (cd_ratio decision) skipped) w1)"

definition appended_attempts :: "coverage_settings \<Rightarrow> int" where
  "appended_attempts st = (if st_RetryConfigured st then max 1 (st_RetryCount st + 1) else 1)"

definition append_work ::
  "Env \<Rightarrow> int \<Rightarrow> coverage_settings \<Rightarrow> JobTaskDefinition list \<Rightarrow> string \<Rightarrow> (JobTask list \<Rightarrow> coverage_event) \<Rightarrow>
   coverage_world \<Rightarrow> coverage_world" where
  "append_work env now st definitions eventType success w =
     (if definitions = [] then w
      else let (answer, db) = service_AppendJobTasks env now (st_job st) definitions
          (appended_attempts st) (wo_db w); w1 = w\<lparr>wo_db := db\<rparr>
        in case answer of
             Inl e \<Rightarrow> note_event (Ev_append_failed eventType e) w1
           | Inr inserted \<Rightarrow>
               if inserted = [] then w1
               else note_event (success inserted)
                 (w1\<lparr>wo_exit := SetSeedCount (sn_SeedsTotal (SnapshotOf (wo_exit w1)) + int (length inserted))
                    (wo_exit w1)\<rparr>))"

definition appendCoverageRefinements ::
  "Env \<Rightarrow> int \<Rightarrow> coverage_settings \<Rightarrow> JobTaskCheckpoint \<Rightarrow> coverageDecision \<Rightarrow> coverage_world \<Rightarrow>
   coverage_world" where
  "appendCoverageRefinements env now st cp decision w =
     append_work env now st (cd_refinements decision) ''coverage-refined''
       (\<lambda>inserted. Ev_refined (int (length inserted)) (map jt_Origin inserted) (cp_TruncationCap cp)
         (coverageTaskYield cp)) w"

definition inserted_zips :: "JobTask list \<Rightarrow> string list" where
  "inserted_zips tasks = List.map_filter (\<lambda>t. ParseGBPQueryZIP (jt_Query t)) tasks"

definition applyCoverage ::
  "CoverageEnv \<Rightarrow> Env \<Rightarrow> int \<Rightarrow> coverage_settings \<Rightarrow> JobTask \<Rightarrow> JobTaskCheckpoint \<Rightarrow> coverage_world \<Rightarrow>
   coverage_world" where
  "applyCoverage cenv env now st task cp w =
     (case wo_engine w of
        None \<Rightarrow> w
      | Some engine \<Rightarrow>
          let (decision, engine') = recordCompletion cenv task cp engine;
              w1 = w\<lparr>wo_engine := Some engine'\<rparr>
          in if cd_saturatedNow decision then applySaturationStop env now (st_job st) decision w1
             else append_work env now st (cd_expansions decision) ''coverage-expanded''
               (\<lambda>inserted. Ev_expanded (int (length inserted)) (inserted_zips inserted)
                 (cd_parentZIP decision) (cp_RowsAdded cp))
               (appendCoverageRefinements env now st cp decision w1))"

definition applyCoverageFailure ::
  "CoverageEnv \<Rightarrow> JobTask \<Rightarrow> JobTaskCheckpoint \<Rightarrow> coverage_world \<Rightarrow> coverage_world" where
  "applyCoverageFailure cenv task cp w =
     (case wo_engine w of
        None \<Rightarrow> w
      | Some engine \<Rightarrow> w\<lparr>wo_engine := Some (snd (recordFailedAttempt cenv task cp engine))\<rparr>)"

text \<open>The start of a run in \<open>executeCheckpointJob\<close>: the engine is seeded from the durable plan.\<close>

definition start_coverage :: "coverage_settings \<Rightarrow> Db \<Rightarrow> coverageEngine option" where
  "start_coverage st db =
     (case JobCoverageSeedState (st_job st) db of
        Inl _ \<Rightarrow> None
      | Inr seed \<Rightarrow> Some (withSearchRadius (st_Radius st) (withPlanZoom (st_Zoom st)
          (newCoverageEngine (st_job st) (st_options st) seed))))"

end
