(* ===== verification/CoverageProperties.thy ===== *)
theory CoverageProperties
  imports CoverageEngine TaskProperties
begin

text \<open>
  What holds of the coverage engine over all histories of finished and failed attempts, and of the
  plan it appends to across restarts of the process.
\<close>

section \<open>Histories of an engine\<close>

type_synonym attempt_step = "JobTask \<times> JobTaskCheckpoint \<times> bool"

fun run_engine ::
  "CoverageEnv \<Rightarrow> attempt_step list \<Rightarrow> coverageEngine \<Rightarrow> coverageDecision list \<times> coverageEngine" where
  "run_engine env [] e = ([], e)"
| "run_engine env ((task, cp, ok) # steps) e =
     (let (d, e1) = engine_record env task cp ok e; (ds, e2) = run_engine env steps e1 in (d # ds, e2))"

lemma run_engine_append:
  "run_engine env (xs @ ys) e =
     (let (ds, e1) = run_engine env xs e; (es, e2) = run_engine env ys e1 in (ds @ es, e2))"
  by (induction xs arbitrary: e) (auto simp: Let_def case_prod_beta)

lemma run_engine_length: "length (fst (run_engine env steps e)) = length steps"
  by (induction steps arbitrary: e) (auto simp: Let_def case_prod_beta)

text \<open>The decision of a step is taken by the engine the steps before it leave.\<close>

lemma run_engine_at:
  assumes "i < length steps" "steps ! i = (task, cp, ok)"
  shows "fst (run_engine env steps e) ! i =
      fst (engine_record env task cp ok (snd (run_engine env (take i steps) e)))"
    "snd (run_engine env (take (Suc i) steps) e) =
      snd (engine_record env task cp ok (snd (run_engine env (take i steps) e)))"
proof -
  have s: "steps = take i steps @ (task, cp, ok) # drop (Suc i) steps"
    using assms by (metis id_take_nth_drop)
  have len: "length (fst (run_engine env (take i steps) e)) = i"
    using assms(1) by (simp add: run_engine_length)
  show "fst (run_engine env steps e) ! i =
      fst (engine_record env task cp ok (snd (run_engine env (take i steps) e)))"
    by (subst s) (simp add: run_engine_append Let_def case_prod_beta nth_append len del: append_take_drop_id)
  have "take (Suc i) steps = take i steps @ [(task, cp, ok)]"
    using assms by (simp add: take_Suc_conv_app_nth)
  then show "snd (run_engine env (take (Suc i) steps) e) =
      snd (engine_record env task cp ok (snd (run_engine env (take i steps) e)))"
    by (simp add: run_engine_append Let_def case_prod_beta)
qed

section \<open>What the steps leave alone\<close>

lemma fund_work_frame [simp]:
  "ce_options (fund_work w e) = ce_options e" "ce_window (fund_work w e) = ce_window e"
  "ce_saturated (fund_work w e) = ce_saturated e" "ce_jobID (fund_work w e) = ce_jobID e"
  "ce_nextSequence (fund_work w e) = ce_nextSequence e"
  "ce_expansionsAdded (fund_work w e) = ce_expansionsAdded e"
  "ce_searchRadiusKM (fund_work w e) = ce_searchRadiusKM e"
  by (cases w; simp add: claimParentExpansionLocked_def)+

lemma recordYieldLocked_frame [simp]:
  "ce_options (recordYieldLocked t cp e) = ce_options e" "ce_window (recordYieldLocked t cp e) = ce_window e"
  "ce_saturated (recordYieldLocked t cp e) = ce_saturated e" "ce_jobID (recordYieldLocked t cp e) = ce_jobID e"
  "ce_known (recordYieldLocked t cp e) = ce_known e"
  "ce_nextSequence (recordYieldLocked t cp e) = ce_nextSequence e"
  "ce_expansionsAdded (recordYieldLocked t cp e) = ce_expansionsAdded e"
  "ce_expandedParents (recordYieldLocked t cp e) = ce_expandedParents e"
  "ce_searchRadiusKM (recordYieldLocked t cp e) = ce_searchRadiusKM e"
  by (simp_all add: recordYieldLocked_def Let_def split: option.split)

text \<open>An attempt earns no expansion, or a batch in the neighbourhood of its ZIP.\<close>

lemma expansionCandidates_cases:
  assumes "expansionCandidatesLocked env task cp d e = (cs, d', e')"
  obtains (none) zs where "cs = []" "d' = d" "e' = e\<lparr>ce_known := zs\<rparr>" "set (ce_known e) \<subseteq> set zs"
  | (batch) synonym parentZIP parent score where
      "SplitGBPQuery (jt_Query task) = Some (synonym, parentZIP)"
      "zipAreaLocked env parentZIP = Some parent" "parentZIP \<notin> set (ce_expandedParents e)"
      "e' = e\<lparr>ce_known := List.insert parentZIP (ce_known e)\<rparr>" "d' = d\<lparr>cd_parentZIP := parentZIP\<rparr>"
      "cs = map (\<lambda>a. \<lparr>wc_score = score, wc_work = Expand synonym parentZIP a\<rparr>)
        (choose_batch env (zipSeparationFloorLocked e') []
          (map snd (SliceStable nearer (neighbours_of env parent e'))))"
proof -
  have same: thesis if "(cs, d', e') = ([], d, e)"
    using that none [of "ce_known e"] by simp
  show thesis
  proof (cases "SplitGBPQuery (jt_Query task)")
    case None
    then show thesis using assms same by (simp add: expansionCandidatesLocked_def)
  next
    case (Some sp)
    obtain synonym parentZIP where sp: "sp = (synonym, parentZIP)" by (cases sp)
    let ?e1 = "e\<lparr>ce_known := List.insert parentZIP (ce_known e)\<rparr>"
    note eq = assms [unfolded expansionCandidatesLocked_def Some sp option.case prod.case Let_def]
    show thesis
    proof (cases "expansionWarrantedLocked parentZIP e")
      case False
      then show thesis using eq same by simp
    next
      case warranted: True
      show thesis
      proof (cases "zipAreaLocked env parentZIP")
        case None
        then show thesis using eq same warranted by simp
      next
        case parent: (Some parent)
        note eq1 = eq [unfolded parent option.case, simplified warranted simp_thms if_True if_False]
        show thesis
        proof (cases "parentExpansionSpentLocked parentZIP ?e1 \<or> neighbours_of env parent ?e1 = []")
          case True
          then show thesis using eq1 none [of "List.insert parentZIP (ce_known e)"] by (auto split: if_splits)
        next
          case False
          then show thesis
            using eq1 batch [OF Some [unfolded sp] parent] by (auto simp: parentExpansionSpentLocked_def)
        qed
      qed
    qed
  qed
qed

lemma expansionCandidates_engine:
  assumes "expansionCandidatesLocked env task cp d e = (cs, d', e')"
  shows "\<exists>zs. e' = e\<lparr>ce_known := zs\<rparr> \<and> set (ce_known e) \<subseteq> set zs"
    "cd_expansions d' = cd_expansions d \<and> cd_refinements d' = cd_refinements d \<and>
     cd_saturatedNow d' = cd_saturatedNow d"
  using assms by (cases rule: expansionCandidates_cases; fastforce)+

lemma fund_frame:
  assumes "fund_candidates env cs d e = (d', e')"
  shows "ce_options e' = ce_options e \<and> ce_window e' = ce_window e \<and> ce_saturated e' = ce_saturated e \<and>
    ce_jobID e' = ce_jobID e \<and> ce_searchRadiusKM e' = ce_searchRadiusKM e \<and>
    cd_saturatedNow d' = cd_saturatedNow d \<and>
    ce_expansionsAdded e' - ce_expansionsAdded e =
      int (length (cd_expansions d') + length (cd_refinements d')) -
      int (length (cd_expansions d) + length (cd_refinements d)) \<and>
    ce_expansionsAdded e' \<le> max (ce_expansionsAdded e) (co_MaxExpansions (ce_options e))"
  using assms
proof (induction cs arbitrary: d e)
  case (Cons c cs)
  show ?case
  proof (cases "co_MaxExpansions (ce_options e) \<le> ce_expansionsAdded e")
    case True
    then show ?thesis using Cons.prems by simp
  next
    case False
    from Cons.IH [OF Cons.prems [unfolded fund_candidates.simps if_not_P [OF False] Let_def]] False
    show ?thesis by (auto split: if_splits)
  qed
qed simp

lemma planAppendedWork_frame:
  assumes "planAppendedWorkLocked env task cp d e = (d', e')"
    "cd_expansions d = []" "cd_refinements d = []"
  shows "ce_options e' = ce_options e \<and> ce_window e' = ce_window e \<and> ce_saturated e' = ce_saturated e \<and>
    ce_jobID e' = ce_jobID e \<and> cd_saturatedNow d' = cd_saturatedNow d \<and>
    ce_searchRadiusKM e' = ce_searchRadiusKM e \<and>
    ce_expansionsAdded e' = ce_expansionsAdded e + int (length (cd_expansions d') + length (cd_refinements d')) \<and>
    ce_expansionsAdded e' \<le> max (ce_expansionsAdded e) (co_MaxExpansions (ce_options e))"
proof (cases "co_MaxExpansions (ce_options e) \<le> 0 \<or> co_MaxExpansions (ce_options e) \<le> ce_expansionsAdded e")
  case True
  then show ?thesis using assms by (auto simp: planAppendedWorkLocked_def)
next
  case False
  obtain cs d1 e1 where c: "expansionCandidatesLocked env task cp d e = (cs, d1, e1)"
    by (metis prod_cases3)
  obtain zs where "e1 = e\<lparr>ce_known := zs\<rparr>" using expansionCandidates_engine(1) [OF c] by blast
  moreover have "\<exists>cs'. fund_candidates env cs' d1 e1 = (d', e')"
    using assms(1) False c by (auto simp: planAppendedWorkLocked_def)
  then obtain cs' where "fund_candidates env cs' d1 e1 = (d', e')" ..
  ultimately show ?thesis
    using assms(2,3) expansionCandidates_engine(2) [OF c] fund_frame [of env cs' d1 e1 d' e'] by simp
qed

section \<open>Saturation\<close>

definition plan_samples :: "attempt_step list \<Rightarrow> CoverageSample list" where
  "plan_samples steps =
     map (\<lambda>(task, cp, ok). NewCoverageSample (cp_RowsAdded cp) (cp_RowsReplaced cp) (cp_DuplicatesSkipped cp) True)
       (filter (\<lambda>(task, cp, ok). ok \<and> jt_Origin task = []) steps)"

text \<open>The two stop rules, on a window.\<close>

definition stops :: "CoverageOptions \<Rightarrow> CoverageSample list \<Rightarrow> bool" where
  "stops options window \<longleftrightarrow>
     StopOnEmptyWindowOrDefault (Some options) \<and>
       ZeroYield (CoverageWindowEvidenceOf window) (WindowOrDefault (Some options)) \<or>
     co_AutoStop options \<and> WindowOrDefault (Some options) \<le> int (length window) \<and>
       f64_less (CoverageWindowRatio window) (MinNewRatioOrDefault (Some options))"

lemma engine_record_stop:
  assumes "engine_record env task cp ok e = (d, e')"
  shows "ce_options e' = ce_options e"
    "ce_window e' = (if ok \<and> jt_Origin task = [] then last_n (WindowOrDefault (Some (ce_options e)))
        (ce_window e @ plan_samples [(task, cp, ok)]) else ce_window e)"
    "cd_saturatedNow d \<longleftrightarrow> ok \<and> \<not> ce_saturated e \<and> stops (ce_options e) (ce_window e')"
    "ce_saturated e' \<longleftrightarrow> ce_saturated e \<or> cd_saturatedNow d"
    "cd_saturatedNow d \<Longrightarrow>
       cd_reason d = CoverageSaturationReasonEmpty \<and> StopOnEmptyWindowOrDefault (Some (ce_options e)) \<and>
         ZeroYield (CoverageWindowEvidenceOf (ce_window e')) (WindowOrDefault (Some (ce_options e))) \<or>
       cd_reason d = CoverageSaturationReasonDuplicates \<and> co_AutoStop (ce_options e) \<and>
         WindowOrDefault (Some (ce_options e)) \<le> int (length (ce_window e')) \<and>
         f64_less (CoverageWindowRatio (ce_window e')) (MinNewRatioOrDefault (Some (ce_options e)))"
proof -
  let ?opt = "Some (ce_options e)"
  let ?w = "WindowOrDefault ?opt"
  let ?e1 = "if ok \<and> jt_Origin task = [] then e\<lparr>ce_window := last_n ?w (ce_window e @
      [NewCoverageSample (cp_RowsAdded cp) (cp_RowsReplaced cp) (cp_DuplicatesSkipped cp) True])\<rparr> else e"
  have e1: "ce_options ?e1 = ce_options e" "ce_saturated ?e1 = ce_saturated e"
    "ce_window ?e1 = (if ok \<and> jt_Origin task = [] then last_n ?w (ce_window e @ plan_samples [(task, cp, ok)])
      else ce_window e)"
    by (auto simp: plan_samples_def)
  have R: "ce_options e' = ce_options e \<and> ce_window e' = ce_window ?e1 \<and>
    (cd_saturatedNow d \<longleftrightarrow> ok \<and> \<not> ce_saturated e \<and> stops (ce_options e) (ce_window ?e1)) \<and>
    (ce_saturated e' \<longleftrightarrow> ce_saturated e \<or> cd_saturatedNow d) \<and>
    (cd_saturatedNow d \<longrightarrow>
       cd_reason d = CoverageSaturationReasonEmpty \<and> StopOnEmptyWindowOrDefault ?opt \<and>
         ZeroYield (CoverageWindowEvidenceOf (ce_window ?e1)) ?w \<or>
       cd_reason d = CoverageSaturationReasonDuplicates \<and> co_AutoStop (ce_options e) \<and>
         ?w \<le> int (length (ce_window ?e1)) \<and>
         f64_less (CoverageWindowRatio (ce_window ?e1)) (MinNewRatioOrDefault ?opt))"
  proof -
    obtain e1 where E: "e1 = ?e1" by simp
    note eq = assms [unfolded engine_record_def Let_def, folded E]
    note e1 = e1 [folded E]
    show ?thesis
    proof (cases "\<not> ok \<or> ce_saturated e \<or> stops (ce_options e) (ce_window e1)")
      case True
      then show ?thesis using eq e1(1,2) unfolding E [symmetric] stops_def by (auto split: if_splits)
    next
      case False
      let ?d = "\<lparr>cd_recorded = ok, cd_saturatedNow = False, cd_reason = [],
        cd_ratio = CoverageWindowRatio (ce_window e1), cd_windowSize = int (length (ce_window e1)),
        cd_evidence = CoverageWindowEvidenceOf (ce_window e1), cd_expansions = [],
        cd_refinements = [], cd_parentZIP = []\<rparr>"
      have "planAppendedWorkLocked env task cp ?d (recordYieldLocked task cp e1) = (d, e')"
        using eq False e1(2) unfolding stops_def by (auto split: if_splits)
      from planAppendedWork_frame [OF this] False e1(1,2) show ?thesis unfolding E [symmetric] by simp
    qed
  qed
  have w: "ce_window ?e1 = ce_window e'" using R by metis
  show "ce_options e' = ce_options e"
    "ce_window e' = (if ok \<and> jt_Origin task = [] then last_n (WindowOrDefault (Some (ce_options e)))
        (ce_window e @ plan_samples [(task, cp, ok)]) else ce_window e)"
    "cd_saturatedNow d \<longleftrightarrow> ok \<and> \<not> ce_saturated e \<and> stops (ce_options e) (ce_window e')"
    "ce_saturated e' \<longleftrightarrow> ce_saturated e \<or> cd_saturatedNow d"
    "cd_saturatedNow d \<Longrightarrow>
       cd_reason d = CoverageSaturationReasonEmpty \<and> StopOnEmptyWindowOrDefault (Some (ce_options e)) \<and>
         ZeroYield (CoverageWindowEvidenceOf (ce_window e')) (WindowOrDefault (Some (ce_options e))) \<or>
       cd_reason d = CoverageSaturationReasonDuplicates \<and> co_AutoStop (ce_options e) \<and>
         WindowOrDefault (Some (ce_options e)) \<le> int (length (ce_window e')) \<and>
         f64_less (CoverageWindowRatio (ce_window e')) (MinNewRatioOrDefault (Some (ce_options e)))"
    using R [unfolded w] e1(3) [unfolded w] by blast+
qed

text \<open>After a history the window holds the newest plan samples, and an open run has no reason to stop.\<close>

definition engine_ok :: "CoverageOptions \<Rightarrow> attempt_step list \<Rightarrow> coverageEngine \<Rightarrow> bool" where
  "engine_ok options steps e \<longleftrightarrow>
     ce_options e = options \<and>
     ce_window e = last_n (WindowOrDefault (Some options)) (plan_samples steps) \<and>
     (\<not> ce_saturated e \<longrightarrow> \<not> stops options (ce_window e))"

lemma last_n_drop: "0 \<le> n \<Longrightarrow> last_n n xs = drop (length xs - nat n) xs"
  by (auto simp: last_n_def nat_diff_distrib')

lemma last_n_last_n: "0 \<le> n \<Longrightarrow> last_n n (last_n n xs @ [x]) = last_n n (xs @ [x])"
  by (cases "length xs \<le> nat n") (auto simp: last_n_drop Suc_diff_le)

lemma last_n_length: "0 \<le> n \<Longrightarrow> int (length (last_n n xs)) = min n (int (length xs))"
  by (auto simp: last_n_def)

lemma plan_samples_append: "plan_samples (xs @ ys) = plan_samples xs @ plan_samples ys"
  by (simp add: plan_samples_def)

lemma engine_record_ok:
  assumes "engine_ok options steps e" "engine_record env task cp ok e = (d, e')"
    "0 \<le> WindowOrDefault (Some options)"
  shows "engine_ok options (steps @ [(task, cp, ok)]) e'"
proof -
  note r = engine_record_stop [OF assms(2)]
  have o: "ce_options e = options" using assms(1) by (simp add: engine_ok_def)
  have "ce_window e' = last_n (WindowOrDefault (Some options)) (plan_samples (steps @ [(task, cp, ok)]))"
    using assms(1,3) r(2) last_n_last_n by (auto simp: engine_ok_def plan_samples_append plan_samples_def)
  moreover have "\<not> stops options (ce_window e')" if "\<not> ce_saturated e'"
    using assms(1) r(2-4) that o by (auto simp: engine_ok_def split: if_splits)
  ultimately show ?thesis using r(1) o by (simp add: engine_ok_def)
qed

lemma engine_ok_fresh:
  assumes "3 \<le> WindowOrDefault (Some options)"
  shows "engine_ok options [] (withSearchRadius radius (withPlanZoom zoom (newCoverageEngine job options seed)))"
  using assms by (auto simp: engine_ok_def newCoverageEngine_def withPlanZoom_def withSearchRadius_def
      plan_samples_def last_n_def stops_def ZeroYield_iff)

lemma run_engine_ok:
  "engine_ok options h e \<Longrightarrow> 0 \<le> WindowOrDefault (Some options) \<Longrightarrow>
   engine_ok options (h @ steps) (snd (run_engine env steps e))"
proof (induction steps arbitrary: h e)
  case (Cons s steps)
  obtain task cp ok where s: "s = (task, cp, ok)" by (cases s)
  obtain d e1 where d: "engine_record env task cp ok e = (d, e1)" by fastforce
  from Cons.IH [OF engine_record_ok [OF Cons.prems(1) d Cons.prems(2)] Cons.prems(2)] show ?case
    by (simp add: s d Let_def case_prod_beta)
qed simp

lemma run_engine_saturated:
  "ce_saturated e \<Longrightarrow> ce_saturated (snd (run_engine env steps e))"
proof (induction steps arbitrary: e)
  case (Cons s steps)
  obtain task cp ok where s: "s = (task, cp, ok)" by (cases s)
  obtain d e1 where d: "engine_record env task cp ok e = (d, e1)" by fastforce
  then have "ce_saturated e1" using engine_record_stop(4) Cons.prems by blast
  from Cons.IH [OF this] show ?case by (simp add: s d Let_def case_prod_beta)
qed simp

lemma stopped_once:
  assumes "i < j" "j < length steps" "cd_saturatedNow (fst (run_engine env steps e) ! i)"
  shows "\<not> cd_saturatedNow (fst (run_engine env steps e) ! j)"
proof -
  obtain ti ci oi where si: "steps ! i = (ti, ci, oi)" by (cases "steps ! i")
  obtain tj cj oj where sj: "steps ! j = (tj, cj, oj)" by (cases "steps ! j")
  have i: "i < length steps" using assms by simp
  have "ce_saturated (snd (run_engine env (take (Suc i) steps) e))"
    using assms(3) run_engine_at [OF i si] engine_record_stop(4) by (metis prod.collapse)
  moreover have "take j steps = take (Suc i) steps @ drop (Suc i) (take j steps)"
    using assms(1) by (metis Suc_leI append_take_drop_id min.absorb1 take_take)
  ultimately have "ce_saturated (snd (run_engine env (take j steps) e))"
    using run_engine_saturated by (metis (no_types, lifting) run_engine_append case_prod_beta snd_conv)
  then show ?thesis
    using run_engine_at(1) [OF assms(2) sj] engine_record_stop(3) by (metis prod.collapse)
qed

lemma stop_form:
  assumes "engine_ok options [] e" "3 \<le> WindowOrDefault (Some options)" "i < length steps"
    "steps ! i = (task, cp, ok)" "cd_saturatedNow (fst (run_engine env steps e) ! i)"
  shows "ok \<and> jt_Origin task = []"
    "int (length (last_n (WindowOrDefault (Some options)) (plan_samples (take (Suc i) steps)))) =
       WindowOrDefault (Some options)"
proof -
  let ?W = "WindowOrDefault (Some options)"
  let ?e = "snd (run_engine env (take i steps) e)"
  obtain d e' where d: "engine_record env task cp ok ?e = (d, e')" by fastforce
  have before: "engine_ok options (take i steps) ?e"
    using run_engine_ok [OF assms(1), of "take i steps"] assms(2) by simp
  have now: "cd_saturatedNow d" using assms(5) run_engine_at(1) [OF assms(3,4), of env e] d by simp
  note r = engine_record_stop [OF d]
  have o: "ce_options ?e = options" using before by (simp add: engine_ok_def)
  show "ok \<and> jt_Origin task = []"
  proof (rule ccontr)
    assume "\<not> (ok \<and> jt_Origin task = [])"
    then have "ce_window e' = ce_window ?e" using r(2) by auto
    then show False using r(3) now before o by (auto simp: engine_ok_def)
  qed
  have "engine_ok options (take i steps @ [(task, cp, ok)]) e'"
    using engine_record_ok [OF before d] assms(2) by simp
  moreover have "take i steps @ [(task, cp, ok)] = take (Suc i) steps"
    using assms(3,4) by (simp add: take_Suc_conv_app_nth)
  ultimately have w: "ce_window e' = last_n ?W (plan_samples (take (Suc i) steps))"
    by (simp add: engine_ok_def)
  have "?W \<le> int (length (ce_window e'))"
    using r(3) now o by (auto simp: stops_def ZeroYield_iff)
  then show "int (length (last_n ?W (plan_samples (take (Suc i) steps)))) = ?W"
    using w last_n_length [of ?W "plan_samples (take (Suc i) steps)"] assms(2) by simp
qed

text \<open>
  C4: an adaptive stop is announced at most once in a run, at the completion of one of the
  operator's own queries and never at a failed attempt or at a probe of the engine. At that moment
  the window is full and holds exactly the newest completed plan queries: either all of them came
  back with neither new nor duplicate rows and the empty-window rule is on, or duplicate stopping
  is on and the share of new rows among them is below the configured ratio.
\<close>

theorem saturation_stop_sound:
  assumes "CoverageOptions_Validate (Some options) = Inr ()" "i < length steps"
    "steps ! i = (task, cp, ok)"
    "ds = fst (run_engine env steps (withSearchRadius radius (withPlanZoom zoom
       (newCoverageEngine job options seed))))"
    "cd_saturatedNow (ds ! i)"
    "window = last_n (WindowOrDefault (Some options)) (plan_samples (take (Suc i) steps))"
  shows "(\<forall>j < length steps. cd_saturatedNow (ds ! j) \<longrightarrow> j = i) \<and> ok \<and> jt_Origin task = [] \<and>
    int (length window) = WindowOrDefault (Some options) \<and>
    (cd_reason (ds ! i) = CoverageSaturationReasonEmpty \<and> StopOnEmptyWindowOrDefault (Some options) \<and>
       (\<forall>s \<in> set window. cs_RowsAdded s \<le> 0 \<and> cs_DuplicatesSkipped s \<le> 0) \<or>
     cd_reason (ds ! i) = CoverageSaturationReasonDuplicates \<and> co_AutoStop options \<and>
       f64_less (CoverageWindowRatio window) (MinNewRatioOrDefault (Some options)))"
proof -
  let ?init = "withSearchRadius radius (withPlanZoom zoom (newCoverageEngine job options seed))"
  let ?e = "snd (run_engine env (take i steps) ?init)"
  have W: "3 \<le> WindowOrDefault (Some options)" by (rule WindowOrDefault_pos [OF assms(1)])
  have fresh: "engine_ok options [] ?init" by (rule engine_ok_fresh [OF W])
  have stop: "cd_saturatedNow (fst (run_engine env steps ?init) ! i)" using assms(4,5) by simp
  obtain d e' where d: "engine_record env task cp ok ?e = (d, e')" by fastforce
  have before: "engine_ok options (take i steps) ?e"
    using run_engine_ok [OF fresh, of "take i steps"] W by simp
  have di: "ds ! i = d" using assms(4) run_engine_at(1) [OF assms(2,3), of env ?init] d by simp
  have "engine_ok options (take (Suc i) steps) e'"
    using engine_record_ok [OF before d] W assms(2,3) by (simp add: take_Suc_conv_app_nth)
  then have w: "ce_window e' = window" using assms(6) by (simp add: engine_ok_def)
  have o: "ce_options ?e = options" using before by (simp add: engine_ok_def)
  have form: "ok \<and> jt_Origin task = []" "int (length window) = WindowOrDefault (Some options)"
    using stop_form [OF fresh W assms(2,3) stop] assms(6) by simp_all
  have once: "j = i" if "j < length steps" "cd_saturatedNow (ds ! j)" for j
  proof (rule linorder_cases [of i j])
    assume "i < j"
    with stopped_once [OF this that(1) stop] that(2) show ?thesis unfolding assms(4) by blast
  next
    assume "j < i"
    with stopped_once [OF this assms(2), of env ?init] that(2) stop show ?thesis
      unfolding assms(4) by blast
  qed simp
  have "cs_RowsAdded s \<le> 0 \<and> cs_DuplicatesSkipped s \<le> 0"
    if "list_all (\<lambda>s. cs_Succeeded s \<and> cs_Empty s) window" "s \<in> set window" for s
  proof -
    have "s \<in> set (plan_samples (take (Suc i) steps))"
      using that(2) assms(6) by (auto simp: last_n_def split: if_splits dest: in_set_dropD)
    then show ?thesis using that by (auto simp: plan_samples_def NewCoverageSample_def list_all_iff)
  qed
  then have empty: "\<forall>s \<in> set window. cs_RowsAdded s \<le> 0 \<and> cs_DuplicatesSkipped s \<le> 0"
    if "ZeroYield (CoverageWindowEvidenceOf window) (WindowOrDefault (Some options))"
    using that by (simp add: ZeroYield_iff)
  have "cd_saturatedNow d" using assms(5) di by simp
  from engine_record_stop(5) [OF d this, unfolded o w] empty show ?thesis
    unfolding di using form once [unfolded di] by blast
qed

section \<open>Where expansions go\<close>

lemma choose_batch_laws:
  "set (choose_batch env sep chosen as) \<subseteq> set chosen \<union> set as"
  "distinct (map za_ZIP (chosen @ as)) \<Longrightarrow> distinct (map za_ZIP (choose_batch env sep chosen as))"
  "length (choose_batch env sep chosen as) \<le> max (length chosen) coverageExpansionBatch"
proof (induction env sep chosen as rule: choose_batch.induct)
  case (2 env sep chosen a as)
  { case 1 then show ?case using 2 by auto }
  { case 2 then show ?case using "2.IH"(2,5) by auto }
  { case 3 then show ?case using "2.IH"(3,6) by (auto simp: max_def split: if_splits) }
qed simp_all

text \<open>The ZIPs of the expansions among some candidates.\<close>

definition expand_zips :: "coverageWorkCandidate list \<Rightarrow> string list" where
  "expand_zips cs = map (za_ZIP \<circ> wk_area \<circ> wc_work) (filter (\<lambda>c. \<not> is_refinement (wc_work c)) cs)"

definition well_formed_work :: "CoverageEnv \<Rightarrow> work \<Rightarrow> bool" where
  "well_formed_work env w \<longleftrightarrow> is_refinement w \<or>
     Fields (wk_synonym w) \<noteq> [] \<and> area_ok (cv_unicode env) (wk_area w)"

definition zip_of_task :: "JobTaskDefinition \<Rightarrow> string option" where
  "zip_of_task x = ParseGBPQueryZIP (jd_Query x)"

lemma zip_of_expansion:
  "Fields synonym \<noteq> [] \<Longrightarrow> area_ok (cv_unicode env) area \<Longrightarrow>
   zip_of_task (expansionTaskDefinition env job synonym parent area sequence) = Some (za_ZIP area)"
  by (simp add: zip_of_task_def expansionTaskDefinition_def appended_task_def Let_def
      ParseGBPQueryZIP_def SplitGBPQuery_area_query)

lemma build_work_sequence [simp]: "jd_Sequence (build_work env job w sequence) = sequence"
  by (cases w) (simp_all add: expansionTaskDefinition_def refinementTaskDefinition_def appended_task_def Let_def)

definition sequences :: "coverageDecision \<Rightarrow> int list" where
  "sequences d = map jd_Sequence (cd_refinements d @ cd_expansions d)"

lemma fund_ground:
  assumes "fund_candidates env cs d e = (d', e')" "\<forall>c \<in> set cs. well_formed_work env (wc_work c)"
    "distinct (expand_zips cs)"
  shows "\<exists>zs. map zip_of_task (cd_expansions d') = map zip_of_task (cd_expansions d) @ map Some zs \<and>
    distinct zs \<and> set zs \<subseteq> set (expand_zips cs) \<and> set (ce_known e') = set (ce_known e) \<union> set zs \<and>
    ce_nextSequence e \<le> ce_nextSequence e' \<and>
    mset (sequences d') = mset (sequences d) + mset [ce_nextSequence e .. ce_nextSequence e' - 1]"
  using assms
proof (induction cs arbitrary: d e)
  case (Cons c cs)
  show ?case
  proof (cases "co_MaxExpansions (ce_options e) \<le> ce_expansionsAdded e")
    case True
    then have "d' = d" "e' = e" using Cons.prems(1) by simp_all
    then show ?thesis by (intro exI [of _ "[]"]) simp
  next
    case False
    let ?x = "build_work env (ce_jobID e) (wc_work c) (ce_nextSequence e)"
    let ?d1 = "if is_refinement (wc_work c) then d\<lparr>cd_refinements := cd_refinements d @ [?x]\<rparr>
        else d\<lparr>cd_expansions := cd_expansions d @ [?x]\<rparr>"
    let ?g = "fund_work (wc_work c) (e\<lparr>ce_nextSequence := ce_nextSequence e + 1,
        ce_expansionsAdded := ce_expansionsAdded e + 1\<rparr>)"
    have run: "fund_candidates env cs ?d1 ?g = (d', e')"
      using Cons.prems(1) False by (simp add: Let_def)
    have "distinct (expand_zips cs)" using Cons.prems(3) by (simp add: expand_zips_def split: if_splits)
    from Cons.IH [OF run _ this] Cons.prems(2) obtain zs where
      zs: "map zip_of_task (cd_expansions d') = map zip_of_task (cd_expansions ?d1) @ map Some zs"
        "distinct zs" "set zs \<subseteq> set (expand_zips cs)" "set (ce_known e') = set (ce_known ?g) \<union> set zs"
        "ce_nextSequence ?g \<le> ce_nextSequence e'"
        "mset (sequences d') = mset (sequences ?d1) + mset [ce_nextSequence ?g .. ce_nextSequence e' - 1]"
      by auto
    have next': "ce_nextSequence ?g = ce_nextSequence e + 1" by simp
    have "[ce_nextSequence e .. ce_nextSequence e' - 1] =
        ce_nextSequence e # [ce_nextSequence e + 1 .. ce_nextSequence e' - 1]"
      using zs(5) next' by (subst upto_rec1) simp_all
    then have seqs: "mset (sequences d') =
        mset (sequences d) + mset [ce_nextSequence e .. ce_nextSequence e' - 1]"
      using zs(6) by (simp add: sequences_def next')
    show ?thesis
    proof (cases "wc_work c")
      case (Refine syn a zoom key)
      then have "set (expand_zips (c # cs)) = set (expand_zips cs)" "ce_known ?g = ce_known e"
        by (simp_all add: expand_zips_def)
      then show ?thesis using zs seqs Refine next' by (intro exI [of _ zs]) simp
    next
      case (Expand syn parent a)
      have c: "expand_zips (c # cs) = za_ZIP a # expand_zips cs" by (simp add: expand_zips_def Expand)
      then have fresh: "za_ZIP a \<notin> set zs" using Cons.prems(3) zs(3) by auto
      have x: "zip_of_task ?x = Some (za_ZIP a)"
        using Cons.prems(2) by (simp add: Expand well_formed_work_def zip_of_expansion)
      have known: "set (ce_known ?g) = insert (za_ZIP a) (set (ce_known e))"
        by (simp add: Expand claimParentExpansionLocked_def)
      show ?thesis
        using zs seqs fresh x known c next' by (intro exI [of _ "za_ZIP a # zs"]) (auto simp: Expand)
    qed
  qed
qed (intro exI [of _ "[]"], simp)

text \<open>A ZIP is new ground for some covered ZIPs: not one of them, and not within the floor of one.\<close>

definition new_ground :: "CoverageEnv \<Rightarrow> f64 \<Rightarrow> string set \<Rightarrow> string \<Rightarrow> bool" where
  "new_ground env separation covered z \<longleftrightarrow> z \<notin> covered \<and>
     (\<forall>k \<in> covered. \<forall>c. zipAreaLocked env k = Some c \<longrightarrow>
       (\<exists>a \<in> set (cv_zipAreas env). za_ZIP a = z \<and> \<not> f64_less (area_distance env c a) separation))"

lemma new_ground_mono: "new_ground env s K z \<Longrightarrow> K' \<subseteq> K \<Longrightarrow> new_ground env s K' z"
  by (auto simp: new_ground_def)

lemma neighbours_new_ground:
  assumes "a \<in> snd ` set (neighbours_of env parent e)"
  shows "a \<in> set (cv_zipAreas env)" "za_State a = za_State parent"
    "new_ground env (zipSeparationFloorLocked e) (set (ce_known e)) (za_ZIP a)"
  using assms
  by (fastforce simp: neighbours_of_def new_ground_def overlapsCoveredZIPLocked_def list_ex_iff
      split: option.splits)+

lemma SplitGBPQuery_synonym: "SplitGBPQuery q = Some (synonym, z) \<Longrightarrow> Fields synonym \<noteq> []"
  unfolding SplitGBPQuery_def Let_def by (auto simp: Fields_trimmed split: if_splits)

lemma expand_zips_SliceStable: "mset (expand_zips (SliceStable lt cs)) = mset (expand_zips cs)"
  by (simp add: expand_zips_def mset_filter mset_SliceStable flip: mset_map) (simp add: mset_SliceStable mset_filter)

definition dataset_ok :: "CoverageEnv \<Rightarrow> bool" where
  "dataset_ok env \<longleftrightarrow> list_all (area_ok (cv_unicode env)) (cv_zipAreas env) \<and>
     distinct (map za_ZIP (cv_zipAreas env))"

lemma expansionCandidates_ground:
  assumes "expansionCandidatesLocked env task cp d e = (cs, d', e')" "dataset_ok env"
  shows "(\<forall>c \<in> set cs. well_formed_work env (wc_work c)) \<and> distinct (expand_zips cs) \<and>
    (\<forall>z \<in> set (expand_zips cs). new_ground env (zipSeparationFloorLocked e) (set (ce_known e)) z)"
  using assms(1)
proof (cases rule: expansionCandidates_cases)
  case (batch synonym parentZIP parent score)
  let ?ns = "map snd (SliceStable nearer (neighbours_of env parent e'))"
  let ?chosen = "choose_batch env (zipSeparationFloorLocked e') [] ?ns"
  have zs: "expand_zips cs = map za_ZIP ?chosen" by (simp add: batch(6) expand_zips_def filter_map o_def)
  have mem: "a \<in> snd ` set (neighbours_of env parent e')" if "a \<in> set ?chosen" for a
    using that choose_batch_laws(1) [of env "zipSeparationFloorLocked e'" "[]" ?ns] by auto
  have "area_ok (cv_unicode env) a" if "a \<in> set ?chosen" for a
    using neighbours_new_ground(1) [OF mem [OF that]] assms(2) by (simp add: dataset_ok_def list_all_iff)
  then have "\<forall>c \<in> set cs. well_formed_work env (wc_work c)"
    using SplitGBPQuery_synonym [OF batch(1)] by (auto simp: batch(6) well_formed_work_def)
  moreover have "map (za_ZIP \<circ> snd) (neighbours_of env parent e') = map za_ZIP
      (filter (\<lambda>a. \<not> (za_State a \<noteq> za_State parent \<or> za_ZIP a = za_ZIP parent) \<and>
         za_ZIP a \<notin> set (ce_known e') \<and> \<not> overlapsCoveredZIPLocked env e' a) (cv_zipAreas env))"
    by (simp add: neighbours_of_def)
  then have "distinct (map (za_ZIP \<circ> snd) (neighbours_of env parent e'))"
    using assms(2) by (simp add: dataset_ok_def distinct_map_filter)
  then have "distinct (map za_ZIP ?ns)" by (simp add: distinct_map_SliceStable)
  then have "distinct (expand_zips cs)"
    using choose_batch_laws(2) [where chosen = "[]"] by (simp add: zs)
  moreover have "new_ground env (zipSeparationFloorLocked e) (set (ce_known e)) z"
    if z: "z \<in> set (expand_zips cs)" for z
  proof -
    obtain a where a: "a \<in> set ?chosen" "z = za_ZIP a" using z by (auto simp: zs)
    have "zipSeparationFloorLocked e' = zipSeparationFloorLocked e" "set (ce_known e) \<subseteq> set (ce_known e')"
      by (auto simp: batch(4) zipSeparationFloorLocked_def)
    with neighbours_new_ground(3) [OF mem [OF a(1)]] show ?thesis using new_ground_mono a(2) by metis
  qed
  ultimately show ?thesis by blast
qed (simp_all add: expand_zips_def)

text \<open>What one step may do to the known ZIPs and the sequences.\<close>

definition ground_step :: "CoverageEnv \<Rightarrow> coverageDecision \<Rightarrow> coverageEngine \<Rightarrow> coverageEngine \<Rightarrow> bool" where
  "ground_step env d e e' \<longleftrightarrow>
     ce_searchRadiusKM e' = ce_searchRadiusKM e \<and> set (ce_known e) \<subseteq> set (ce_known e') \<and>
     ce_nextSequence e \<le> ce_nextSequence e' \<and>
     mset (sequences d) = mset [ce_nextSequence e .. ce_nextSequence e' - 1] \<and>
     (\<exists>zs. map zip_of_task (cd_expansions d) = map Some zs \<and> distinct zs \<and> set zs \<subseteq> set (ce_known e') \<and>
       (\<forall>z \<in> set zs. new_ground env (zipSeparationFloorLocked e) (set (ce_known e)) z))"

lemma ground_step_still:
  "cd_expansions d = [] \<Longrightarrow> cd_refinements d = [] \<Longrightarrow> ce_searchRadiusKM e' = ce_searchRadiusKM e \<Longrightarrow>
   ce_known e' = ce_known e \<Longrightarrow> ce_nextSequence e' = ce_nextSequence e \<Longrightarrow> ground_step env d e e'"
  by (simp add: ground_step_def sequences_def)

lemma planAppendedWork_ground:
  assumes "planAppendedWorkLocked env task cp d e = (d', e')" "dataset_ok env"
    "cd_expansions d = []" "cd_refinements d = []"
  shows "ground_step env d' e e'"
proof (cases "co_MaxExpansions (ce_options e) \<le> 0 \<or> co_MaxExpansions (ce_options e) \<le> ce_expansionsAdded e")
  case True
  then have "d' = d" "e' = e" using assms(1) by (auto simp: planAppendedWorkLocked_def)
  then show ?thesis using assms(3,4) by (simp add: ground_step_still)
next
  case False
  obtain cs d1 e1 where c: "expansionCandidatesLocked env task cp d e = (cs, d1, e1)"
    by (metis prod_cases3)
  obtain known where e1: "e1 = e\<lparr>ce_known := known\<rparr>" "set (ce_known e) \<subseteq> set known"
    using expansionCandidates_engine(1) [OF c] by blast
  let ?r = "case refinementCandidateLocked env task cp e of None \<Rightarrow> [] | Some c \<Rightarrow> [c]"
  let ?all = "SliceStable ranked_before (?r @ cs)"
  have f: "fund_candidates env ?all d1 e1 = (d', e')"
    using assms(1) False c by (simp add: planAppendedWorkLocked_def Let_def)
  have r: "is_refinement (wc_work c)" if "c \<in> set ?r" for c
    using that by (auto simp: refinementCandidateLocked_def Let_def split: option.splits if_splits)
  have "expand_zips ?r = []" using r by (simp add: expand_zips_def filter_empty_conv)
  then have m: "mset (expand_zips ?all) = mset (expand_zips cs)"
    by (simp add: expand_zips_SliceStable) (simp add: expand_zips_def)
  have "distinct (expand_zips ?all)"
    using m expansionCandidates_ground [OF c assms(2)] mset_eq_imp_distinct_iff by blast
  moreover have "\<forall>c \<in> set ?all. well_formed_work env (wc_work c)"
    using expansionCandidates_ground [OF c assms(2)] r by (auto simp: well_formed_work_def)
  ultimately obtain zs where zs:
      "map zip_of_task (cd_expansions d') = map zip_of_task (cd_expansions d1) @ map Some zs"
      "distinct zs" "set zs \<subseteq> set (expand_zips ?all)" "set (ce_known e') = set (ce_known e1) \<union> set zs"
      "ce_nextSequence e1 \<le> ce_nextSequence e'"
      "mset (sequences d') = mset (sequences d1) + mset [ce_nextSequence e1 .. ce_nextSequence e' - 1]"
    using fund_ground [OF f] by blast
  have d1: "cd_expansions d1 = []" "sequences d1 = []"
    using expansionCandidates_engine(2) [OF c] assms(3,4) by (simp_all add: sequences_def)
  have "set zs \<subseteq> set (expand_zips cs)" using zs(3) mset_eq_setD [OF m] by simp
  then have "\<forall>z \<in> set zs. new_ground env (zipSeparationFloorLocked e) (set (ce_known e)) z"
    using expansionCandidates_ground [OF c assms(2)] by auto
  then show ?thesis
    using zs d1 e1 fund_frame [OF f] unfolding ground_step_def by auto
qed

text \<open>A step either appends nothing, or plans work after recording the yield.\<close>

lemma engine_record_cases:
  assumes "engine_record env task cp ok e = (d, e')"
  obtains (still) w b where "cd_expansions d = []" "cd_refinements d = []"
      "e' = e\<lparr>ce_window := w, ce_saturated := b\<rparr>"
  | (plan) w d0 where "cd_expansions d0 = []" "cd_refinements d0 = []"
      "planAppendedWorkLocked env task cp d0 (recordYieldLocked task cp (e\<lparr>ce_window := w\<rparr>)) = (d, e')"
proof -
  let ?W = "WindowOrDefault (Some (ce_options e))"
  obtain w where w: "(if ok \<and> jt_Origin task = [] then e\<lparr>ce_window := last_n ?W (ce_window e @
      [NewCoverageSample (cp_RowsAdded cp) (cp_RowsReplaced cp) (cp_DuplicatesSkipped cp) True])\<rparr> else e) =
      e\<lparr>ce_window := w\<rparr>" by (metis coverageEngine.surjective coverageEngine.update_convs(3))
  note eq = assms [unfolded engine_record_def Let_def w]
  have set_sat: "e\<lparr>ce_window := w, ce_saturated := ce_saturated e\<rparr> = e\<lparr>ce_window := w\<rparr>" by simp
  show thesis
  proof (cases "\<not> ok \<or> ce_saturated e \<or> stops (ce_options e) w")
    case True
    then show thesis
      using eq still [where w = w and b = "ce_saturated e", unfolded set_sat] still [where w = w and b = True]
      by (auto simp: stops_def split: if_splits)
  next
    case False
    let ?d = "\<lparr>cd_recorded = ok, cd_saturatedNow = False, cd_reason = [],
      cd_ratio = CoverageWindowRatio w, cd_windowSize = int (length w),
      cd_evidence = CoverageWindowEvidenceOf w, cd_expansions = [],
      cd_refinements = [], cd_parentZIP = []\<rparr>"
    have "planAppendedWorkLocked env task cp ?d (recordYieldLocked task cp (e\<lparr>ce_window := w\<rparr>)) = (d, e')"
      using eq False unfolding stops_def by (auto split: if_splits)
    then show thesis using plan [of ?d] by simp
  qed
qed

lemma engine_record_ground:
  assumes "engine_record env task cp ok e = (d, e')" "dataset_ok env"
  shows "ground_step env d e e'"
  using assms(1)
proof (cases rule: engine_record_cases)
  case (plan w d0)
  have "zipSeparationFloorLocked (recordYieldLocked task cp (e\<lparr>ce_window := w\<rparr>)) = zipSeparationFloorLocked e"
    by (simp add: zipSeparationFloorLocked_def)
  then show ?thesis
    using planAppendedWork_ground [OF plan(3) assms(2) plan(1,2)] by (simp add: ground_step_def)
qed (simp add: ground_step_still)

lemma engine_record_budget:
  assumes "engine_record env task cp ok e = (d, e')"
  shows "ce_expansionsAdded e' = ce_expansionsAdded e + int (length (cd_expansions d) + length (cd_refinements d)) \<and>
    ce_expansionsAdded e' \<le> max (ce_expansionsAdded e) (co_MaxExpansions (ce_options e))"
  using assms
proof (cases rule: engine_record_cases)
  case (plan w d0)
  then show ?thesis using planAppendedWork_frame [OF plan(3,1,2)] by simp
qed simp

lemma run_engine_ground:
  assumes "run_engine env steps e = (ds, e')" "dataset_ok env"
  shows "\<exists>zs. map zip_of_task (concat (map cd_expansions ds)) = map Some zs \<and> distinct zs \<and>
      (\<forall>z \<in> set zs. new_ground env (zipSeparationFloorLocked e) (set (ce_known e)) z) \<and>
      ce_nextSequence e \<le> ce_nextSequence e' \<and>
      mset (concat (map sequences ds)) = mset [ce_nextSequence e .. ce_nextSequence e' - 1]"
  using assms(1)
proof (induction steps arbitrary: e ds)
  case Nil
  then show ?case by (intro exI [of _ "[]"]) simp
next
  case (Cons s steps)
  obtain task cp ok where s: "s = (task, cp, ok)" by (cases s)
  obtain d e1 where d: "engine_record env task cp ok e = (d, e1)" by fastforce
  obtain ds' where ds: "run_engine env steps e1 = (ds', e')" "ds = d # ds'"
    using Cons.prems by (auto simp: s d Let_def split: prod.splits)
  from engine_record_ground [OF d assms(2)] obtain xs where xs:
      "map zip_of_task (cd_expansions d) = map Some xs" "distinct xs" "set xs \<subseteq> set (ce_known e1)"
      "\<forall>z \<in> set xs. new_ground env (zipSeparationFloorLocked e) (set (ce_known e)) z"
    and g: "ce_searchRadiusKM e1 = ce_searchRadiusKM e" "set (ce_known e) \<subseteq> set (ce_known e1)"
      "ce_nextSequence e \<le> ce_nextSequence e1"
      "mset (sequences d) = mset [ce_nextSequence e .. ce_nextSequence e1 - 1]"
    by (auto simp: ground_step_def)
  have fl: "zipSeparationFloorLocked e1 = zipSeparationFloorLocked e"
    using g(1) by (simp add: zipSeparationFloorLocked_def)
  from Cons.IH [OF ds(1), unfolded fl] obtain zs where zs:
      "map zip_of_task (concat (map cd_expansions ds')) = map Some zs" "distinct zs"
      "\<forall>z \<in> set zs. new_ground env (zipSeparationFloorLocked e) (set (ce_known e1)) z"
      "ce_nextSequence e1 \<le> ce_nextSequence e'"
      "mset (concat (map sequences ds')) = mset [ce_nextSequence e1 .. ce_nextSequence e' - 1]"
    by blast
  have "set xs \<inter> set zs = {}" using xs(3) zs(3) by (auto simp: new_ground_def)
  moreover have "\<forall>z \<in> set zs. new_ground env (zipSeparationFloorLocked e) (set (ce_known e)) z"
    using zs(3) g(2) new_ground_mono by blast
  moreover have "[ce_nextSequence e .. ce_nextSequence e' - 1] =
      [ce_nextSequence e .. ce_nextSequence e1 - 1] @ [ce_nextSequence e1 .. ce_nextSequence e' - 1]"
    using upto_split1 [of "ce_nextSequence e" "ce_nextSequence e1" "ce_nextSequence e' - 1"]
      upto_split2 [of "ce_nextSequence e" "ce_nextSequence e1 - 1" "ce_nextSequence e' - 1"] g(3) zs(4)
    by (cases "ce_nextSequence e1 = ce_nextSequence e") auto
  ultimately show ?case
    using xs zs g ds(2) by (intro exI [of _ "xs @ zs"]) auto
qed

lemma known_zips_set: "set (known_zips qs) = {z. \<exists>q \<in> set qs. ParseGBPQueryZIP q = Some z}"
proof -
  have "set (fold (\<lambda>q known. case ParseGBPQueryZIP q of None \<Rightarrow> known | Some z \<Rightarrow> List.insert z known) qs ks) =
      set ks \<union> {z. \<exists>q \<in> set qs. ParseGBPQueryZIP q = Some z}" for ks
    by (induction qs arbitrary: ks) (auto split: option.splits)
  then show ?thesis by (simp add: known_zips_def)
qed

text \<open>An expansion is a query in the state of the task that earned it, on new ground.\<close>

definition lies_apart :: "CoverageEnv \<Rightarrow> string set \<Rightarrow> f64 \<Rightarrow> ZIPArea \<Rightarrow> bool" where
  "lies_apart env covered separation a \<longleftrightarrow>
     (\<forall>k \<in> covered. k \<noteq> za_ZIP a \<and>
        (\<forall>c. zipAreaLocked env k = Some c \<longrightarrow> \<not> f64_less (area_distance env c a) separation))"

lemma lies_apart_mono: "lies_apart env K s a \<Longrightarrow> K' \<subseteq> K \<Longrightarrow> lies_apart env K' s a"
  by (auto simp: lies_apart_def)

definition funded_at :: "CoverageEnv \<Rightarrow> JobTask \<Rightarrow> string set \<Rightarrow> f64 \<Rightarrow> JobTaskDefinition \<Rightarrow> bool" where
  "funded_at env task covered separation x \<longleftrightarrow>
     (\<exists>synonym parentZIP parent. SplitGBPQuery (jt_Query task) = Some (synonym, parentZIP) \<and>
        zipAreaLocked env parentZIP = Some parent \<and>
        (\<exists>a \<in> set (cv_zipAreas env). za_State a = za_State parent \<and>
           jd_Query x = area_query (cv_unicode env) synonym a \<and> ParseGBPQueryZIP (jd_Query x) = Some (za_ZIP a) \<and>
           lies_apart env covered separation a))"

lemma funded_at_mono: "funded_at env task K s x \<Longrightarrow> K' \<subseteq> K \<Longrightarrow> funded_at env task K' s x"
  unfolding funded_at_def using lies_apart_mono by blast

lemma fund_expansions:
  "fund_candidates env cs d e = (d', e') \<Longrightarrow> x \<in> set (cd_expansions d') \<Longrightarrow>
   x \<in> set (cd_expansions d) \<or>
   (\<exists>c \<in> set cs. \<exists>synonym parent a job n. wc_work c = Expand synonym parent a \<and>
      x = expansionTaskDefinition env job synonym parent a n)"
proof (induction cs arbitrary: d e)
  case (Cons c cs)
  show ?case
  proof (cases "co_MaxExpansions (ce_options e) \<le> ce_expansionsAdded e")
    case True
    then show ?thesis using Cons.prems by simp
  next
    case False
    note run = Cons.prems(1) [unfolded fund_candidates.simps if_not_P [OF False] Let_def]
    show ?thesis using Cons.IH [OF run Cons.prems(2)] by (cases "wc_work c") auto
  qed
qed simp

lemma neighbours_apart:
  assumes "a \<in> snd ` set (neighbours_of env parent e)" "k \<in> set (ce_known e)"
  shows "k \<noteq> za_ZIP a" "zipAreaLocked env k = Some c \<Longrightarrow>
    \<not> f64_less (area_distance env c a) (zipSeparationFloorLocked e)"
  using assms by (fastforce simp: neighbours_of_def overlapsCoveredZIPLocked_def list_ex_iff)+

lemma planAppendedWork_funded:
  assumes "planAppendedWorkLocked env task cp d e = (d', e')" "dataset_ok env" "cd_expansions d = []"
    "x \<in> set (cd_expansions d')"
  shows "funded_at env task (set (ce_known e)) (zipSeparationFloorLocked e) x"
proof -
  obtain cs d1 e1 where c: "expansionCandidatesLocked env task cp d e = (cs, d1, e1)"
    by (metis prod_cases3)
  let ?r = "case refinementCandidateLocked env task cp e of None \<Rightarrow> [] | Some c \<Rightarrow> [c]"
  have f: "fund_candidates env (SliceStable ranked_before (?r @ cs)) d1 e1 = (d', e')"
    using assms(1,3,4) c by (auto simp: planAppendedWorkLocked_def Let_def split: if_splits)
  have "cd_expansions d1 = []" using expansionCandidates_engine(2) [OF c] assms(3) by simp
  then obtain w synonym parentZIP a job n where w: "w \<in> set cs" "wc_work w = Expand synonym parentZIP a"
    "x = expansionTaskDefinition env job synonym parentZIP a n"
    using fund_expansions [OF f assms(4)]
    by (fastforce simp: refinementCandidateLocked_def Let_def split: option.splits if_splits)
  from c show ?thesis
  proof (cases rule: expansionCandidates_cases)
    case (batch syn pz parent score)
    have x: "synonym = syn" "parentZIP = pz" "a \<in> snd ` set (neighbours_of env parent e1)"
      using w(1,2) choose_batch_laws(1) [of env "zipSeparationFloorLocked e1" "[]"
          "map snd (SliceStable nearer (neighbours_of env parent e1))"]
      by (auto simp: batch(6))
    have "area_ok (cv_unicode env) a"
      using neighbours_new_ground(1) [OF x(3)] assms(2) by (simp add: dataset_ok_def list_all_iff)
    then have "zip_of_task x = Some (za_ZIP a)"
      unfolding w(3) using SplitGBPQuery_synonym [OF batch(1)] by (simp add: zip_of_expansion x)
    moreover have "jd_Query x = area_query (cv_unicode env) syn a"
      by (simp add: w(3) expansionTaskDefinition_def appended_task_def Let_def x)
    moreover have "set (ce_known e) \<subseteq> set (ce_known e1)" "zipSeparationFloorLocked e1 = zipSeparationFloorLocked e"
      by (auto simp: batch(4) zipSeparationFloorLocked_def)
    then have "lies_apart env (set (ce_known e)) (zipSeparationFloorLocked e) a"
      using neighbours_apart [OF x(3)] by (auto simp: lies_apart_def dest: subsetD)
    ultimately show ?thesis
      using batch(1,2) neighbours_new_ground(1,2) [OF x(3)] unfolding funded_at_def zip_of_task_def by blast
  qed (use w(1) in simp)
qed

lemma engine_record_funded:
  assumes "engine_record env task cp ok e = (d, e')" "dataset_ok env" "x \<in> set (cd_expansions d)"
  shows "funded_at env task (set (ce_known e)) (zipSeparationFloorLocked e) x"
  using assms(1)
proof (cases rule: engine_record_cases)
  case (plan w d0)
  have "zipSeparationFloorLocked (recordYieldLocked task cp (e\<lparr>ce_window := w\<rparr>)) = zipSeparationFloorLocked e"
    by (simp add: zipSeparationFloorLocked_def)
  then show ?thesis using planAppendedWork_funded [OF plan(3) assms(2) plan(1) assms(3)] by simp
qed (use assms(3) in simp)

lemma run_engine_known:
  assumes "dataset_ok env"
  shows "ce_searchRadiusKM (snd (run_engine env steps e)) = ce_searchRadiusKM e \<and>
    set (ce_known e) \<union> {z. \<exists>x \<in> set (concat (map cd_expansions (fst (run_engine env steps e)))). zip_of_task x = Some z} \<subseteq>
      set (ce_known (snd (run_engine env steps e)))"
proof (induction steps arbitrary: e)
  case (Cons s steps)
  obtain task cp ok where s: "s = (task, cp, ok)" by (cases s)
  obtain d e1 where d: "engine_record env task cp ok e = (d, e1)" by fastforce
  from engine_record_ground [OF d assms] obtain xs where
    "map zip_of_task (cd_expansions d) = map Some xs" "set xs \<subseteq> set (ce_known e1)"
    and g: "ce_searchRadiusKM e1 = ce_searchRadiusKM e" "set (ce_known e) \<subseteq> set (ce_known e1)"
    by (auto simp: ground_step_def)
  then have "zip_of_task x = Some z \<Longrightarrow> x \<in> set (cd_expansions d) \<Longrightarrow> z \<in> set (ce_known e1)" for x z
    by (metis imageE image_eqI list.set_map option.inject subsetD)
  then have "{z. \<exists>x \<in> set (cd_expansions d). zip_of_task x = Some z} \<subseteq> set (ce_known e1)" by blast
  then show ?case using Cons.IH [of e1] g
    by (simp add: s d Let_def case_prod_beta bex_Un Collect_disj_eq) blast
qed simp

lemma run_engine_take: "fst (run_engine env (take i steps) e) = take i (fst (run_engine env steps e))"
proof -
  have "fst (run_engine env (take i steps @ drop i steps) e) =
      fst (run_engine env (take i steps) e) @ fst (run_engine env (drop i steps) (snd (run_engine env (take i steps) e)))"
    by (simp only: run_engine_append Let_def case_prod_beta fst_conv)
  moreover have "length (fst (run_engine env (take i steps) e)) = min (length steps) i" by (simp add: run_engine_length)
  moreover have "length (fst (run_engine env steps e)) = length steps" by (rule run_engine_length)
  ultimately show ?thesis by (cases "i \<le> length steps") simp_all
qed

text \<open>
  C21: whatever finishes or fails in a run, every neighbourhood search the engine appends is the query, with the
  synonym of the task that earned it, of an area of the dataset in the state of that task's ZIP; its ZIP
  is not one that the plan had at the start of the run or that an earlier attempt of the run added,
  and by the distance the engine computes it lies no closer to any of these than the separation
  floor. No two searches of a run go to the same ZIP, and all tasks it appends, zoomed-in ones
  included, get pairwise different sequence numbers above every number of the plan. The dataset
  must name each ZIP once, in areas whose fields make a query that parses again.
\<close>

theorem expansions_break_new_ground:
  assumes "dataset_ok env"
    "run_engine env steps (withSearchRadius radius (withPlanZoom zoom
       (newCoverageEngine job options seed))) = (ds, e')"
  shows "(\<forall>i < length steps. \<forall>x \<in> set (cd_expansions (ds ! i)).
        funded_at env (fst (steps ! i))
          {k. \<exists>q \<in> set (se_Queries seed) \<union> jd_Query ` set (concat (map cd_expansions (take i ds))). ParseGBPQueryZIP q = Some k}
          (zipSeparationFloorLocked e') x) \<and>
      (\<exists>zs. map (ParseGBPQueryZIP \<circ> jd_Query) (concat (map cd_expansions ds)) = map Some zs \<and> distinct zs) \<and>
      distinct (concat (map sequences ds)) \<and>
      (\<forall>n \<in> set (concat (map sequences ds)). se_MaxSequence seed < n)"
proof -
  let ?init = "withSearchRadius radius (withPlanZoom zoom (newCoverageEngine job options seed))"
  obtain zs where zs: "map zip_of_task (concat (map cd_expansions ds)) = map Some zs" "distinct zs"
      "mset (concat (map sequences ds)) = mset [ce_nextSequence ?init .. ce_nextSequence e' - 1]"
    using run_engine_ground [OF assms(2,1)] by blast
  have init: "ce_known ?init = known_zips (se_Queries seed)" "ce_nextSequence ?init = se_MaxSequence seed + 1"
    by (simp_all add: newCoverageEngine_def withPlanZoom_def withSearchRadius_def)
  have "distinct (concat (map sequences ds))"
    using zs(3) distinct_upto mset_eq_imp_distinct_iff by blast
  moreover have "\<forall>n \<in> set (concat (map sequences ds)). se_MaxSequence seed < n"
    using mset_eq_setD [OF zs(3)] init(2) by auto
  moreover have "funded_at env (fst (steps ! i))
      {k. \<exists>q \<in> set (se_Queries seed) \<union> jd_Query ` set (concat (map cd_expansions (take i ds))). ParseGBPQueryZIP q = Some k}
      (zipSeparationFloorLocked e') x"
    if i: "i < length steps" "x \<in> set (cd_expansions (ds ! i))" for i x
  proof -
    obtain task cp ok where step: "steps ! i = (task, cp, ok)" by (cases "steps ! i")
    let ?e = "snd (run_engine env (take i steps) ?init)"
    obtain d e1 where d: "engine_record env task cp ok ?e = (d, e1)" by fastforce
    have "ds ! i = d" using run_engine_at(1) [OF i(1) step, of env ?init] d assms(2) by simp
    then have x: "funded_at env task (set (ce_known ?e)) (zipSeparationFloorLocked ?e) x"
      using engine_record_funded [OF d assms(1)] i(2) by simp
    have "zipSeparationFloorLocked ?e = zipSeparationFloorLocked e'"
      using run_engine_known [OF assms(1), of "take i steps" ?init] run_engine_known [OF assms(1), of steps ?init]
      by (simp add: zipSeparationFloorLocked_def assms(2))
    moreover have "{k. \<exists>q \<in> set (se_Queries seed) \<union> jd_Query ` set (concat (map cd_expansions (take i ds))).
        ParseGBPQueryZIP q = Some k} \<subseteq> set (ce_known ?e)"
      using run_engine_known [OF assms(1), of "take i steps" ?init]
      unfolding run_engine_take assms(2) init known_zips_set zip_of_task_def fst_conv by blast
    ultimately show ?thesis using funded_at_mono [OF x] by (simp add: step)
  qed
  moreover have "ParseGBPQueryZIP \<circ> jd_Query = zip_of_task" by (simp add: fun_eq_iff zip_of_task_def)
  ultimately show ?thesis using zs(1,2) by auto
qed

section \<open>The budget across restarts\<close>

definition appended_row :: "string \<Rightarrow> TaskRow \<Rightarrow> bool" where
  "appended_row job r \<longleftrightarrow> tk_job_id r = job \<and> isCoverageAppendedOrigin (tk_origin r)"

text \<open>The tasks of a job's plan that the engine appended.\<close>

definition appended_tasks :: "string \<Rightarrow> Db \<Rightarrow> int" where
  "appended_tasks job db = count_where (appended_row job) (db_tasks db)"

datatype run_step =
    RunCompleted int JobTask JobTaskCheckpoint
  | RunFailed JobTask JobTaskCheckpoint
  | RunRestart
  | RunPlan int plan_op

fun coverage_step ::
  "CoverageEnv \<Rightarrow> Env \<Rightarrow> coverage_settings \<Rightarrow> run_step \<Rightarrow> coverage_world \<Rightarrow> coverage_world" where
  "coverage_step cenv env st (RunCompleted now task cp) w = applyCoverage cenv env now st task cp w"
| "coverage_step cenv env st (RunFailed task cp) w = applyCoverageFailure cenv task cp w"
| "coverage_step cenv env st RunRestart w = w\<lparr>wo_engine := start_coverage st (wo_db w)\<rparr>"
| "coverage_step cenv env st (RunPlan now op) w = w\<lparr>wo_db := snd (run_op env now op (wo_db w))\<rparr>"

definition coverage_run ::
  "CoverageEnv \<Rightarrow> Env \<Rightarrow> coverage_settings \<Rightarrow> run_step list \<Rightarrow> coverage_world \<Rightarrow> coverage_world" where
  "coverage_run cenv env st steps w = fold (coverage_step cenv env st) steps w"

text \<open>Nothing but the engine calls \<open>AppendJobTasks\<close>.\<close>

fun other_plan_op :: "run_step \<Rightarrow> bool" where
  "other_plan_op (RunPlan now op) = (case op of OpAppend _ _ _ \<Rightarrow> False | _ \<Rightarrow> True)"
| "other_plan_op _ = True"

lemma appended_update:
  "(\<And>r. tk_job_id (f r) = tk_job_id r \<and> tk_origin (f r) = tk_origin r) \<Longrightarrow>
   count_where (appended_row job) (update_where p f rows) = count_where (appended_row job) rows"
  by (induction rows) (auto simp: appended_row_def count_where_def)

lemma appended_set_clauses [simp]:
  "count_where (appended_row job) (update_where p (set_reclaimed n) rows) = count_where (appended_row job) rows"
  "count_where (appended_row job) (update_where p (set_claimed ow u n) rows) = count_where (appended_row job) rows"
  "count_where (appended_row job) (update_where p (set_started n) rows) = count_where (appended_row job) rows"
  "count_where (appended_row job) (update_where p (set_heartbeat n u) rows) = count_where (appended_row job) rows"
  "count_where (appended_row job) (update_where p (set_released t n) rows) = count_where (appended_row job) rows"
  "count_where (appended_row job) (update_where p (set_skipped t n) rows) = count_where (appended_row job) rows"
  "count_where (appended_row job) (update_where p (set_deferred u n) rows) = count_where (appended_row job) rows"
  "count_where (appended_row job) (update_where p (set_prepared env d m n) rows) = count_where (appended_row job) rows"
  by (rule appended_update; simp add: set_reclaimed_def set_claimed_def set_started_def set_heartbeat_def
      set_released_def set_skipped_def set_deferred_def set_prepared_def)+

lemma appended_set_finished [simp]:
  "count_where (appended_row job) (update_where p (set_finished a b c d) rows) =
   count_where (appended_row job) rows"
  by (rule appended_update) (simp add: set_finished_def)

lemma count_where_snoc: "count_where p (xs @ [x]) = count_where p xs + (if p x then 1 else 0)"
  by (simp add: count_where_def)

lemma plan_task_not_appended [simp]: "\<not> appended_row job (new_task env j d m now [] n)"
  by (simp add: new_task_def appended_row_def isCoverageAppendedOrigin_def HasPrefix_def
      CoverageExpansionOriginPrefix_def CoverageRefinementOriginPrefix_def)

lemma prepareTasks_appended:
  "prepareTasks env j m now ds db = Inr db' \<Longrightarrow> appended_tasks job db' = appended_tasks job db"
proof (induction ds arbitrary: db)
  case (Cons d ds)
  then obtain db1 where "prepareTask env j m now d db = Inr db1" "prepareTasks env j m now ds db1 = Inr db'"
    by (auto split: sum.splits)
  moreover from this(1) have "appended_tasks job db1 = appended_tasks job db"
    by (auto simp: prepareTask_def appended_tasks_def count_where_snoc split: option.splits if_splits)
  ultimately show ?case using Cons.IH by simp
qed simp

lemma appendTasks_appended:
  "appendTasks env j m now ds keys db = Inr (keys', db') \<Longrightarrow>
   appended_tasks job db' \<le> appended_tasks job db + (if j = job then int (length ds) else 0)"
proof (induction ds arbitrary: keys db)
  case (Cons d ds)
  show ?case
  proof (cases "find_task j (jd_Key d) db")
    case None
    let ?db = "db\<lparr>db_tasks := db_tasks db @ [new_task env j d m now (jd_Origin d) (jd_Priority d)]\<rparr>"
    have "appendTasks env j m now ds (keys @ [jd_Key d]) ?db = Inr (keys', db')"
      using Cons.prems None by (simp split: if_splits)
    from Cons.IH [OF this] show ?thesis
      by (auto simp: appended_tasks_def count_where_snoc appended_row_def new_task_def split: if_splits)
  next
    case (Some r)
    then show ?thesis using Cons.IH [of keys db] Cons.prems by auto
  qed
qed simp

lemma appended_tasks_frame [simp]:
  "appended_tasks job (updateTaskAggregates j now db) = appended_tasks job db"
  "appended_tasks job (insertJobEvent env j t s g m c n db) = appended_tasks job db"
  "appended_tasks job (insertCheckpoint j t c' n db) = appended_tasks job db"
  "appended_tasks job (db\<lparr>db_runtime := rts\<rparr>) = appended_tasks job db"
  "appended_tasks job (fold (report_stale env now) sjs db) = appended_tasks job db"
  by (simp_all add: appended_tasks_def)

lemma AppendJobTasks_appended:
  "appended_tasks job (snd (AppendJobTasks env now j ds m db)) \<le>
   appended_tasks job db + (if j = job then int (length ds) else 0)"
proof (cases "appendTasks env j m now ds [] db")
  case (Inr kd)
  obtain keys db1 where "kd = (keys, db1)" by (cases kd)
  then show ?thesis
    using Inr appendTasks_appended [of env j m now ds "[]" db keys db1 job]
    by (auto simp: AppendJobTasks_def Let_def split: sum.split)
qed (auto simp: AppendJobTasks_def split: sum.split)

lemma run_op_appended:
  assumes "other_plan_op (RunPlan now op)"
  shows "appended_tasks job (snd (run_op env now op db)) = appended_tasks job db"
proof (cases op)
  case (OpPrepare j ds m)
  then show ?thesis
    using prepareTasks_appended [of env j m now ds db] by (auto simp: PrepareJobTasks_def Let_def split: sum.split)
next
  case (OpClaim j ow lease)
  then show ?thesis
    by (auto simp: ClaimNextJobTask_def Let_def reclaimExpiredTasks_snd appended_tasks_def claim_pool_tasks
        split: option.split sum.split)
next
  case (OpReclaim j)
  then show ?thesis by (simp add: ReclaimExpiredJobTasks_def reclaimExpiredTasks_snd claim_pool_tasks appended_tasks_def)
next
  case OpReclaimStale
  then show ?thesis by (simp add: ReclaimStaleJobTasks_def Let_def appended_tasks_def)
next
  case (OpAppend j ds m)
  then show ?thesis using assms by simp
qed (simp_all add: StartJobTask_def HeartbeatJobTask_def ReleaseJobTask_def CompleteJobTaskAs_def
    FailJobTaskAs_def finishJobTask_def SkipPendingJobTasks_def DeferJobTask_def Let_def
    appended_tasks_def split: sum.split)

lemma check_appended_length: "check_appended i seen ds = Inr cs \<Longrightarrow> length cs = length ds"
  by (induction ds arbitrary: i seen cs) (auto simp: Let_def split: if_splits sum.splits)

lemma service_append_appended:
  "appended_tasks job (snd (service_AppendJobTasks env now j ds m db)) \<le> appended_tasks job db + int (length ds)"
proof (cases "check_appended 0 [] ds")
  case (Inr cs)
  then have "length cs = length ds" by (rule check_appended_length)
  then show ?thesis
    using AppendJobTasks_appended [of job env now j cs m db] Inr
    by (auto simp: service_AppendJobTasks_def split: prod.split sum.split if_splits)
qed (auto simp: service_AppendJobTasks_def)

lemma append_work_laws:
  "appended_tasks job (wo_db (append_work env now st ds t f w)) \<le>
     appended_tasks job (wo_db w) + int (length ds)"
  "wo_engine (append_work env now st ds t f w) = wo_engine w"
  using service_append_appended [of job env now "st_job st" ds "appended_attempts st" "wo_db w"]
  by (auto simp: append_work_def Let_def note_event_def split: prod.split sum.split)

lemma saturation_stop_laws [simp]:
  "appended_tasks job (wo_db (applySaturationStop env now j d w)) = appended_tasks job (wo_db w)"
  "wo_engine (applySaturationStop env now j d w) = wo_engine w"
proof -
  have "appended_tasks job (snd (service_SkipPendingJobTasks env now j reason db)) = appended_tasks job db"
    for reason db
    using run_op_appended [of now "OpSkip j reason" job env db]
    by (auto simp: service_SkipPendingJobTasks_def split: prod.split sum.split)
  then show "appended_tasks job (wo_db (applySaturationStop env now j d w)) = appended_tasks job (wo_db w)"
    "wo_engine (applySaturationStop env now j d w) = wo_engine w"
    by (simp_all add: applySaturationStop_def Let_def note_event_def case_prod_beta split: sum.split)
qed

lemma seed_counts:
  "JobCoverageSeedState job db = Inr seed \<Longrightarrow> se_ExpansionTasks seed = appended_tasks job db"
proof -
  have "se_ExpansionTasks (fold seed_row rows st) = se_ExpansionTasks st +
      count_where (\<lambda>r. isCoverageAppendedOrigin (tk_origin r)) rows" for rows st
    by (induction rows arbitrary: st) (auto simp: seed_row_def count_where_def)
  moreover have "count_where (\<lambda>r. isCoverageAppendedOrigin (tk_origin r))
      (filter (\<lambda>r. tk_job_id r = job) (db_tasks db)) = appended_tasks job db"
    by (simp add: appended_tasks_def count_where_def appended_row_def [abs_def] conj_commute)
  ultimately show "JobCoverageSeedState job db = Inr seed \<Longrightarrow> se_ExpansionTasks seed = appended_tasks job db"
    by (auto simp: JobCoverageSeedState_def split: sum.splits)
qed

text \<open>The engine has counted at least what the plan holds, and never more than \<open>bound\<close>.\<close>

definition budget_ok :: "coverage_settings \<Rightarrow> int \<Rightarrow> coverage_world \<Rightarrow> bool" where
  "budget_ok st bound w \<longleftrightarrow> appended_tasks (st_job st) (wo_db w) \<le> bound \<and>
     (\<forall>e. wo_engine w = Some e \<longrightarrow> ce_options e = st_options st \<and>
       appended_tasks (st_job st) (wo_db w) \<le> ce_expansionsAdded e \<and> ce_expansionsAdded e \<le> bound)"

lemma start_coverage_ok:
  "appended_tasks (st_job st) (wo_db w) \<le> bound \<Longrightarrow>
   budget_ok st bound (w\<lparr>wo_engine := start_coverage st (wo_db w)\<rparr>)"
  by (auto simp: budget_ok_def start_coverage_def withSearchRadius_def withPlanZoom_def
      newCoverageEngine_def dest!: seed_counts split: sum.splits)

lemma coverage_step_ok:
  assumes "budget_ok st bound w" "co_MaxExpansions (st_options st) \<le> bound" "other_plan_op s"
  shows "budget_ok st bound (coverage_step cenv env st s w)"
proof (cases s)
  case (RunCompleted now task cp)
  show ?thesis
  proof (cases "wo_engine w")
    case None
    then show ?thesis using assms(1) RunCompleted by (simp add: applyCoverage_def)
  next
    case (Some e)
    obtain d e' where d: "engine_record cenv task cp True e = (d, e')" by fastforce
    let ?w1 = "w\<lparr>wo_engine := Some e'\<rparr>"
    let ?w2 = "appendCoverageRefinements env now st cp d ?w1"
    have b: "appended_tasks (st_job st) (wo_db w) \<le> ce_expansionsAdded e" "ce_expansionsAdded e \<le> bound"
        "ce_options e = st_options st"
      using assms(1) Some by (auto simp: budget_ok_def)
    have e': "ce_options e' = st_options st" "ce_expansionsAdded e' \<le> bound"
      "ce_expansionsAdded e' = ce_expansionsAdded e + int (length (cd_expansions d) + length (cd_refinements d))"
      using engine_record_stop(1) [OF d] engine_record_budget [OF d] b assms(2) by auto
    have two: "appended_tasks (st_job st) (wo_db ?w2) \<le> appended_tasks (st_job st) (wo_db w) + int (length (cd_refinements d))"
      "wo_engine ?w2 = Some e'"
      unfolding appendCoverageRefinements_def
      using append_work_laws(1) [of "st_job st" env now st "cd_refinements d" _ _ ?w1]
      by (auto simp: append_work_laws(2))
    have three: "appended_tasks (st_job st) (wo_db (append_work env now st (cd_expansions d) t f ?w2)) \<le>
        ce_expansionsAdded e'" for t f
      using append_work_laws(1) [of "st_job st" env now st "cd_expansions d" t f ?w2] two(1) b(1) e'(3)
      by simp
    have "coverage_step cenv env st s w = (if cd_saturatedNow d
        then applySaturationStop env now (st_job st) d ?w1
        else append_work env now st (cd_expansions d) ''coverage-expanded''
          (\<lambda>inserted. Ev_expanded (int (length inserted)) (inserted_zips inserted) (cd_parentZIP d)
            (cp_RowsAdded cp)) ?w2)"
      using RunCompleted Some d by (simp add: applyCoverage_def recordCompletion_def)
    then show ?thesis
      using e' three b two(2) order_trans [OF three e'(2)]
      by (auto simp: budget_ok_def append_work_laws(2))
  qed
next
  case (RunFailed task cp)
  show ?thesis
  proof (cases "wo_engine w")
    case (Some e)
    obtain d e' where d: "engine_record cenv task cp False e = (d, e')" by fastforce
    then have "ce_expansionsAdded e' = ce_expansionsAdded e" "ce_options e' = ce_options e"
      using engine_record_stop(1) [OF d] by (auto simp: engine_record_def Let_def)
    then show ?thesis
      using assms(1) Some d RunFailed by (auto simp: applyCoverageFailure_def recordFailedAttempt_def budget_ok_def)
  qed (use assms(1) RunFailed in \<open>simp add: applyCoverageFailure_def\<close>)
next
  case RunRestart
  have "appended_tasks (st_job st) (wo_db w) \<le> bound" using assms(1) by (simp add: budget_ok_def)
  from start_coverage_ok [OF this] RunRestart show ?thesis by simp
next
  case (RunPlan now op)
  then show ?thesis
    using assms(1) run_op_appended [OF assms(3) [unfolded RunPlan], of "st_job st" env "wo_db w"]
    by (simp add: budget_ok_def)
qed

lemma coverage_run_ok:
  "budget_ok st bound w \<Longrightarrow> co_MaxExpansions (st_options st) \<le> bound \<Longrightarrow> list_all other_plan_op steps \<Longrightarrow>
   budget_ok st bound (coverage_run cenv env st steps w)"
  unfolding coverage_run_def by (induction steps arbitrary: w) (simp_all add: coverage_step_ok)

text \<open>
  C11: over any history of completed and failed attempts, restarts of the process and other
  operations on the plan, the tasks in the plan of a job that the coverage engine appended are never more
  than the larger of \<open>MaxExpansions\<close> and the number of them the plan had at the start: a restart
  seeds the engine with the count of the plan and does not hand out a new budget. Other operations are all
  of the plan but \<open>AppendJobTasks\<close>, which only the engine calls.
\<close>

theorem appended_work_bounded:
  assumes "wo_engine w = start_coverage st (wo_db w)" "list_all other_plan_op steps"
  shows "appended_tasks (st_job st) (wo_db (coverage_run cenv env st steps w)) \<le>
    max (appended_tasks (st_job st) (wo_db w)) (co_MaxExpansions (st_options st))"
proof -
  let ?bound = "max (appended_tasks (st_job st) (wo_db w)) (co_MaxExpansions (st_options st))"
  have "w = w\<lparr>wo_engine := start_coverage st (wo_db w)\<rparr>" using assms(1) by simp
  then have "budget_ok st ?bound w" using start_coverage_ok [of st w ?bound] by simp
  from coverage_run_ok [OF this _ assms(2)] show ?thesis by (simp add: budget_ok_def)
qed

section \<open>The window of the report\<close>

definition row_sample :: "CoverageTaskRow \<Rightarrow> CoverageSample" where
  "row_sample r = NewCoverageSample (ct_RowsAdded r) (ct_RowsReplaced r) (ct_DuplicatesSkipped r) True"

lemma coverageWindowSamples_last:
  "0 < window \<Longrightarrow> coverageWindowSamples completed window = last_n window (map row_sample completed)"
  by (auto simp: coverageWindowSamples_def Let_def row_sample_def last_n_def drop_map)

text \<open>
  C40: as long as no task the engine appended has completed, so that the completed rows of the plan
  are the plan queries the engine saw, the window the report rebuilds from the database is the
  window of the running engine: ratio and sample counts agree.
\<close>

theorem report_window_agrees:
  assumes "CoverageOptions_Validate (Some options) = Inr ()"
    "run_engine env steps (withSearchRadius radius (withPlanZoom zoom
       (newCoverageEngine job options seed))) = (ds, e')"
    "map row_sample (completed_rows rows) = plan_samples steps"
  shows "sa_CurrentNewRatio (report_saturation (Some options) rows) = CoverageWindowRatio (ce_window e') \<and>
    sa_WindowSamples (report_saturation (Some options) rows) = int (length (ce_window e')) \<and>
    sa_EmptySamples (report_saturation (Some options) rows) = ev_Empty (CoverageWindowEvidenceOf (ce_window e'))"
proof -
  let ?init = "withSearchRadius radius (withPlanZoom zoom (newCoverageEngine job options seed))"
  have W: "3 \<le> WindowOrDefault (Some options)" by (rule WindowOrDefault_pos [OF assms(1)])
  have "engine_ok options [] ?init" by (rule engine_ok_fresh [OF W])
  from run_engine_ok [OF this, of steps env] W assms(2)
  have "ce_window e' = last_n (WindowOrDefault (Some options)) (plan_samples steps)"
    by (simp add: engine_ok_def)
  then have "coverageWindowSamples (completed_rows rows) (WindowOrDefault (Some options)) = ce_window e'"
    using W assms(3) by (simp add: coverageWindowSamples_last)
  then show ?thesis
    by (simp add: report_saturation_def Let_def case_prod_beta CoverageWindowEvidenceOf_def)
qed

section \<open>Witnesses\<close>

definition sample_options :: CoverageOptions where
  "sample_options = \<lparr>co_AutoStop = True, co_SaturationWindow = 3, co_MinNewRatio = Fin 0,
     co_MaxExpansions = 0, co_ExpansionMinNew = 0, co_StopOnEmptyWindow = None\<rparr>"

definition sample_seed :: CoverageSeedState where
  "sample_seed = \<lparr>se_Queries = [], se_MaxSequence = 0, se_ExpansionTasks = 0\<rparr>"

definition sample_env :: CoverageEnv where
  "sample_env = \<lparr>cv_unicode = ascii, cv_zipAreas = [mission], cv_NewSHA1 = (\<lambda>s. s),
     cv_Marshal = (\<lambda>p. None), cv_Unmarshal = (\<lambda>s. None), cv_Sin = (\<lambda>x. x), cv_Cos = (\<lambda>x. x),
     cv_Asin = (\<lambda>x. x), cv_Sqrt = (\<lambda>x. x)\<rparr>"

definition task_of_origin :: "string \<Rightarrow> JobTask" where
  "task_of_origin origin =
     \<lparr>jt_ID = [], jt_JobID = ''job'', jt_Key = ''k'', jt_Kind = [], jt_State = [], jt_Sequence = 0,
      jt_Query = [], jt_SourceCell = [], jt_InputID = [], jt_Payload = [], jt_Checkpoint = None,
      jt_Attempts = 1, jt_MaxAttempts = 1, jt_LastError = [], jt_Origin = origin, jt_Priority = 0,
      jt_StartedAt = None, jt_FinishedAt = None, jt_UpdatedAt = 0\<rparr>"

lemma no_query [simp]: "SplitGBPQuery [] = None" "ParseGBPQueryZIP [] = None"
  by (simp_all add: ParseGBPQueryZIP_def SplitGBPQuery_def TrimSpace_inner Fields_def)

lemmas engine_eval = engine_record_def Let_def last_n_def NewCoverageSample_def planAppendedWorkLocked_def
  recordYieldLocked_def sample_options_def sample_seed_def sample_checkpoint_def task_of_origin_def
  StopOnEmptyWindowOrDefault_def WindowOrDefault_def newCoverageEngine_def withPlanZoom_def
  withSearchRadius_def ZeroYield_iff HasPrefix_def CoverageExpansionOriginPrefix_def

lemma saturation_stop_sound_witness:
  "cd_reason (fst (run_engine sample_env (replicate 3 (task_of_origin [], sample_checkpoint, True))
     (withSearchRadius 0 (withPlanZoom 0 (newCoverageEngine ''job'' sample_options sample_seed)))) ! 2) =
   CoverageSaturationReasonEmpty"
proof -
  let ?steps = "replicate 3 (task_of_origin [], sample_checkpoint, True)"
  let ?ds = "fst (run_engine sample_env ?steps
     (withSearchRadius 0 (withPlanZoom 0 (newCoverageEngine ''job'' sample_options sample_seed))))"
  have d: "cd_saturatedNow (?ds ! 2)" "cd_reason (?ds ! 2) = CoverageSaturationReasonEmpty"
    by (simp_all add: engine_eval numeral_3_eq_3 numeral_2_eq_2)
  have "CoverageOptions_Validate (Some sample_options) = Inr ()"
    by (simp add: CoverageOptions_Validate_def sample_options_def coverage_bounds)
  from saturation_stop_sound [OF this _ _ refl d(1) refl] d(2) show ?thesis by simp
qed

text \<open>
  A run that funds a search: two areas, far apart, and a task in one of them that brings eight new rows.
\<close>

definition harbor :: ZIPArea where
  "harbor = \<lparr>za_ZIP = ''94111'', za_City = ''Harbor'', za_State = ''CA'',
     za_Latitude = Fin 38, za_Longitude = Fin (- 122), za_Population = 5000\<rparr>"

lemma harbor_fields [simp]: "za_ZIP harbor = ''94111''" "za_State harbor = za_State mission"
  by (simp_all add: harbor_def mission_def)

lemma harbor_ok [simp]: "area_ok ascii harbor"
proof -
  have "Fields ''Harbor'' = [''Harbor'']"
    by (intro Fields_word word_ok_printable) (simp_all add: printable_def)
  then show ?thesis
    by (simp add: area_ok_def harbor_def isFiveDigitZIP_def ascii_def ascii_digit_def ascii_capital_def)
qed

definition probe_env :: CoverageEnv where
  "probe_env = sample_env\<lparr>cv_zipAreas := [mission, harbor], cv_NewSHA1 := (\<lambda>s. ''id''), cv_Asin := (\<lambda>x. Fin 1)\<rparr>"

definition probe_options :: CoverageOptions where
  "probe_options = sample_options\<lparr>co_AutoStop := False, co_MaxExpansions := 1, co_ExpansionMinNew := 1\<rparr>"

definition probe_seed :: CoverageSeedState where
  "probe_seed = \<lparr>se_Queries = [''dentist in Mission CA 94110''], se_MaxSequence = 0, se_ExpansionTasks = 0\<rparr>"

definition probe_task :: JobTask where
  "probe_task = (task_of_origin [])\<lparr>jt_Query := ''dentist in Mission CA 94110''\<rparr>"

definition probe_checkpoint :: JobTaskCheckpoint where
  "probe_checkpoint = sample_checkpoint\<lparr>cp_RowsAdded := 8\<rparr>"

definition probe_engine :: coverageEngine where
  "probe_engine = withSearchRadius 0 (withPlanZoom 0 (newCoverageEngine ''job'' probe_options probe_seed))"

lemma probe_query [simp]:
  "SplitGBPQuery ''dentist in Mission CA 94110'' = Some (''dentist'', ''94110'')"
  "ParseGBPQueryZIP ''dentist in Mission CA 94110'' = Some ''94110''"
proof -
  have "Fields ''dentist'' = [''dentist'']"
    by (intro Fields_word word_ok_printable) (simp_all add: printable_def)
  then show "SplitGBPQuery ''dentist in Mission CA 94110'' = Some (''dentist'', ''94110'')"
    using SplitGBPQuery_area_query [of "''dentist''" ascii mission] by (simp add: mission_query)
  then show "ParseGBPQueryZIP ''dentist in Mission CA 94110'' = Some ''94110''"
    by (simp add: ParseGBPQueryZIP_def)
qed

lemma probe_distance: "area_distance probe_env a b = Fin 12742"
proof -
  have "f64_of_rat (of_int 12742) = Fin (of_int 12742)"
    using f64_of_int_exact [of 12742] by (simp only: f64_of_int_def) simp
  then show ?thesis by (simp add: area_distance_def haversineKM_def Let_def probe_env_def sample_env_def)
qed

lemma probe_floor: "ce_searchRadiusKM e = ce_searchRadiusKM probe_engine \<Longrightarrow> zipSeparationFloorLocked e = Fin 1"
  using f64_of_int_exact [of 0]
  by (simp add: zipSeparationFloorLocked_def probe_engine_def withSearchRadius_def
      coverageMinimumZIPSeparationKM_def f64_of_int_def)

lemma probe_share: "f64_le coverageExpansionMinYieldShare
    (yield_share \<lparr>cy_netNew = 8, cy_refound = 0, cy_duplicates = 0, cy_tasks = 1\<rparr>)"
proof -
  have "f64_of_rat 1 = Fin 1" using f64_of_int_exact [of 1] by (simp add: f64_of_int_def)
  moreover have "f64_of_int 8 = Fin 8" using f64_of_int_exact [of 8] by simp
  moreover have "f64_round (1 / 5) \<le> 1" using f64_round_mono [of "1 / 5" 1] f64_round_int [of 1] by simp
  ultimately show ?thesis
    using f64_of_rat_small(1) [of "1 / 5"] by (simp add: coverageExpansionMinYieldShare_def yield_share_def)
qed

lemma probe_funds:
  obtains d e' where "engine_record probe_env probe_task probe_checkpoint True probe_engine = (d, e')"
    "\<not> cd_saturatedNow d" "cd_refinements d = []"
    "cd_expansions d = [expansionTaskDefinition probe_env ''job'' ''dentist'' ''94110'' harbor 1]"
proof -
  have known: "known_zips [''dentist in Mission CA 94110''] = [''94110'']" by (simp add: known_zips_def)
  have area: "zipAreaLocked probe_env ''94110'' = Some mission"
    by (simp add: zipAreaLocked_def probe_env_def sample_env_def)
  obtain w d0 where plan: "engine_record probe_env probe_task probe_checkpoint True probe_engine =
      planAppendedWorkLocked probe_env probe_task probe_checkpoint d0
        (recordYieldLocked probe_task probe_checkpoint (probe_engine\<lparr>ce_window := w\<rparr>))"
    "cd_expansions d0 = []" "cd_refinements d0 = []" "\<not> cd_saturatedNow d0"
    by (simp add: engine_record_def Let_def last_n_def NewCoverageSample_def probe_engine_def probe_options_def sample_options_def
        probe_task_def task_of_origin_def WindowOrDefault_def newCoverageEngine_def withPlanZoom_def withSearchRadius_def ZeroYield_iff)
  define e where "e = recordYieldLocked probe_task probe_checkpoint (probe_engine\<lparr>ce_window := w\<rparr>)"
  have e: "ce_options e = probe_options" "ce_known e = [''94110'']" "ce_expandedParents e = []" "ce_expansionsAdded e = 0"
    "ce_jobID e = ''job''" "ce_nextSequence e = 1" "ce_searchRadiusKM e = ce_searchRadiusKM probe_engine"
    "ce_cellYield e ''94110'' = \<lparr>cy_netNew = 8, cy_refound = 0, cy_duplicates = 0, cy_tasks = 1\<rparr>"
    by (simp_all add: e_def probe_engine_def newCoverageEngine_def withPlanZoom_def withSearchRadius_def probe_seed_def known)
      (simp add: recordYieldLocked_def Let_def probe_task_def probe_checkpoint_def sample_checkpoint_def task_of_origin_def
        no_yield_def coverageNetNewRows_def HasPrefix_def CoverageExpansionOriginPrefix_def)
  have "e\<lparr>ce_known := ce_known e\<rparr> = e" by simp
  then have known_same: "e\<lparr>ce_known := List.insert ''94110'' (ce_known e)\<rparr> = e" unfolding e(2) by simp
  have warranted: "expansionWarrantedLocked ''94110'' e"
    using probe_share by (simp add: expansionWarrantedLocked_def e Let_def ExpansionMinNewOrDefault_def probe_options_def)
  have neighbours: "neighbours_of probe_env mission e = [(Fin 12742, harbor)]"
    by (simp add: neighbours_of_def overlapsCoveredZIPLocked_def e area probe_distance probe_floor)
      (simp add: probe_env_def)
  have "expansionCandidatesLocked probe_env probe_task probe_checkpoint d0 e =
      ([\<lparr>wc_score = expectedExpansionYieldLocked (coverageNetNewRows probe_checkpoint) e, wc_work = Expand ''dentist'' ''94110'' harbor\<rparr>],
       d0\<lparr>cd_parentZIP := ''94110''\<rparr>, e)"
    by (simp add: expansionCandidatesLocked_def probe_task_def warranted area known_same parentExpansionSpentLocked_def e(3)
        neighbours SliceStable_def coverageZIPTooClose_def coverageExpansionBatch_def)
  moreover have "refinementCandidateLocked probe_env probe_task probe_checkpoint e = None"
    by (simp add: refinementCandidateLocked_def Let_def probe_checkpoint_def sample_checkpoint_def)
  moreover have "SliceStable ranked_before [c] = [c]" for c by (simp add: SliceStable_def)
  moreover have "co_MaxExpansions probe_options = 1" by (simp add: probe_options_def)
  ultimately show thesis
    using that plan unfolding e_def [symmetric]
    by (simp add: planAppendedWorkLocked_def e)
qed

lemma expansions_break_new_ground_witness:
  "\<exists>x. concat (map cd_expansions (fst (run_engine probe_env [(probe_task, probe_checkpoint, True)] probe_engine))) = [x] \<and>
     funded_at probe_env probe_task {''94110''} (Fin 1) x"
proof -
  obtain d e' where d: "engine_record probe_env probe_task probe_checkpoint True probe_engine = (d, e')"
    "cd_expansions d = [expansionTaskDefinition probe_env ''job'' ''dentist'' ''94110'' harbor 1]"
    by (rule probe_funds)
  have "dataset_ok probe_env" by (simp add: dataset_ok_def probe_env_def sample_env_def)
  moreover have "run_engine probe_env [(probe_task, probe_checkpoint, True)] (withSearchRadius 0 (withPlanZoom 0
      (newCoverageEngine ''job'' probe_options probe_seed))) = ([d], e')"
    using d(1) by (simp add: probe_engine_def)
  moreover have "ce_searchRadiusKM e' = ce_searchRadiusKM probe_engine"
    using engine_record_ground [OF d(1)] calculation(1) by (simp add: ground_step_def)
  ultimately show ?thesis
    using expansions_break_new_ground [of probe_env "[(probe_task, probe_checkpoint, True)]" 0 0 "''job''"
        probe_options probe_seed "[d]" e'] d
    by (simp add: probe_floor probe_seed_def)
qed

definition probe_settings :: coverage_settings where
  "probe_settings = \<lparr>st_job = ''job'', st_options = probe_options, st_Zoom = 0, st_Radius = 0,
     st_RetryConfigured = False, st_RetryCount = 0\<rparr>"

definition probe_db :: Db where
  "probe_db = sample_db\<lparr>db_jobs := [\<lparr>jb_id = ''job'', jb_name = [], jb_status = [], jb_data = [],
     jb_created_at = 1, jb_updated_at = 1\<rparr>],
     db_tasks := [(sample_task ''a'' ''w1'')\<lparr>tk_query := ''dentist in Mission CA 94110''\<rparr>]\<rparr>"

definition probe_world :: coverage_world where
  "probe_world = \<lparr>wo_db = probe_db, wo_engine = Some probe_engine, wo_exit = blank_exiter, wo_events = []\<rparr>"

lemma probe_appends:
  obtains t db where "service_AppendJobTasks plain_env 5 ''job''
      [expansionTaskDefinition probe_env ''job'' ''dentist'' ''94110'' harbor 1] 1 probe_db = (Inr [t], db)"
    "appended_tasks ''job'' db = 1"
proof -
  have trimmed: "TrimSpace ''job'' = ''job''" "TrimSpace ''exp-id'' = ''exp-id''" "TrimSpace ''map-query'' = ''map-query''"
    by (rule TrimSpace_inner; simp add: printable_def)+
  obtain x where x: "x = expansionTaskDefinition probe_env ''job'' ''dentist'' ''94110'' harbor 1" by blast
  then have fs: "jd_Key x = ''exp-id''" "jd_Kind x = ''map-query''" "jd_Sequence x = 1" "jd_Priority x = 1"
    "jd_Payload x = ''{}''" "jd_Origin x = CoverageExpansionOriginPrefix @ ''94110''"
    by (simp_all add: expansionTaskDefinition_def appended_task_def Let_def probe_env_def sample_env_def)
  have "check_appended 0 [] [x] = Inr [x\<lparr>jd_Key := jd_Key x, jd_Kind := jd_Kind x\<rparr>]"
    by (simp add: fs trimmed Let_def CoverageExpansionOriginPrefix_def)
  then have checked: "check_appended 0 [] [x] = Inr [x]" by (cases x) simp
  let ?row = "new_task plain_env ''job'' x 1 5 (jd_Origin x) (jd_Priority x)"
  let ?db1 = "probe_db\<lparr>db_tasks := db_tasks probe_db @ [?row]\<rparr>"
  have "appendTasks plain_env ''job'' 1 5 [x] [] probe_db = Inr ([''exp-id''], ?db1)"
    by (simp add: fs find_task_def probe_db_def sample_task_def task_pk_def durableTaskID_def hex_encode_def plain_env_def)
  moreover have "readJobTasks plain_env ''job'' [''exp-id''] (updateTaskAggregates ''job'' 5 ?db1) = Inr [scanJobTask plain_env ?row]"
    by (simp add: fs readJobTask_def find_task_def probe_db_def sample_task_def task_pk_def new_task_def)
  moreover have "requireJob ''job'' probe_db = Inr ()" by (simp add: requireJob_def find_job_def probe_db_def)
  ultimately have "service_AppendJobTasks plain_env 5 ''job'' [x] 1 probe_db =
      (Inr [scanJobTask plain_env ?row], updateTaskAggregates ''job'' 5 ?db1)"
    by (simp add: service_AppendJobTasks_def trimmed checked AppendJobTasks_def del: appendTasks.simps readJobTasks.simps check_appended.simps)
  moreover have "appended_tasks ''job'' (updateTaskAggregates ''job'' 5 ?db1) = 1"
    by (simp add: appended_tasks_def count_where_def appended_row_def fs new_task_def probe_db_def sample_task_def
        isCoverageAppendedOrigin_def HasPrefix_def CoverageExpansionOriginPrefix_def CoverageRefinementOriginPrefix_def)
  ultimately show thesis using that by (simp add: x)
qed

lemma appended_work_bounded_witness:
  "appended_tasks ''job'' (wo_db (coverage_run probe_env plain_env probe_settings
     [RunCompleted 5 probe_task probe_checkpoint] probe_world)) = 1 \<and>
   appended_tasks ''job'' (wo_db (coverage_run probe_env plain_env probe_settings
     [RunCompleted 5 probe_task probe_checkpoint, RunRestart, RunCompleted 6 probe_task probe_checkpoint] probe_world)) \<le> 1"
proof
  obtain d e' where d: "engine_record probe_env probe_task probe_checkpoint True probe_engine = (d, e')"
    "\<not> cd_saturatedNow d" "cd_refinements d = []"
    "cd_expansions d = [expansionTaskDefinition probe_env ''job'' ''dentist'' ''94110'' harbor 1]" by (rule probe_funds)
  obtain t db where "service_AppendJobTasks plain_env 5 ''job''
      [expansionTaskDefinition probe_env ''job'' ''dentist'' ''94110'' harbor 1] 1 probe_db = (Inr [t], db)"
    "appended_tasks ''job'' db = 1" by (rule probe_appends)
  then show "appended_tasks ''job'' (wo_db (coverage_run probe_env plain_env probe_settings
     [RunCompleted 5 probe_task probe_checkpoint] probe_world)) = 1"
    by (simp add: coverage_run_def applyCoverage_def recordCompletion_def probe_world_def d appendCoverageRefinements_def
        append_work_def probe_settings_def appended_attempts_def note_event_def)
  have "JobCoverageSeedState ''job'' probe_db = Inr probe_seed"
    by (simp add: JobCoverageSeedState_def requireJob_def find_job_def probe_db_def sample_task_def seed_row_def probe_seed_def
        isCoverageAppendedOrigin_def HasPrefix_def CoverageExpansionOriginPrefix_def CoverageRefinementOriginPrefix_def)
  then have start: "wo_engine probe_world = start_coverage probe_settings (wo_db probe_world)"
    by (simp add: start_coverage_def probe_world_def probe_settings_def probe_engine_def)
  have "appended_tasks ''job'' probe_db = 0"
    by (simp add: appended_tasks_def appended_row_def count_where_def probe_db_def sample_task_def
        isCoverageAppendedOrigin_def HasPrefix_def CoverageExpansionOriginPrefix_def CoverageRefinementOriginPrefix_def)
  then show "appended_tasks ''job'' (wo_db (coverage_run probe_env plain_env probe_settings
     [RunCompleted 5 probe_task probe_checkpoint, RunRestart, RunCompleted 6 probe_task probe_checkpoint] probe_world)) \<le> 1"
    using appended_work_bounded [OF start, of "[RunCompleted 5 probe_task probe_checkpoint, RunRestart,
        RunCompleted 6 probe_task probe_checkpoint]" probe_env plain_env]
    by (simp add: probe_settings_def probe_world_def probe_options_def)
qed

definition done_row :: "string \<Rightarrow> int \<Rightarrow> int \<Rightarrow> int \<Rightarrow> CoverageTaskRow" where
  "done_row origin added duplicates finished =
     \<lparr>ct_TaskKey = ''k'', ct_Query = [], ct_Origin = origin, ct_State = taskStateCompleted, ct_LastError = [],
      ct_Attempts = 1, ct_Priority = 0, ct_Sequence = 0, ct_RowsAdded = added, ct_RowsReplaced = 0,
      ct_DuplicatesSkipped = duplicates, ct_Truncated = False, ct_StartedAt = None,
      ct_FinishedAt = Some finished\<rparr>"

lemma report_window_agrees_witness:
  "sa_WindowSamples (report_saturation (Some sample_options) [done_row [] 4 0 7]) = 1"
proof -
  let ?steps = "[(task_of_origin [], sample_checkpoint\<lparr>cp_RowsAdded := 4\<rparr>, True)]"
  obtain ds e' where run: "run_engine sample_env ?steps (withSearchRadius 0 (withPlanZoom 0
      (newCoverageEngine ''job'' sample_options sample_seed))) = (ds, e')" by fastforce
  have "CoverageOptions_Validate (Some sample_options) = Inr ()"
    by (simp add: CoverageOptions_Validate_def sample_options_def coverage_bounds)
  moreover have "map row_sample (completed_rows [done_row [] 4 0 7]) = plan_samples ?steps"
    by (simp add: completed_rows_def done_row_def SliceStable_def row_sample_def plan_samples_def
        task_of_origin_def sample_checkpoint_def)
  moreover have "length (ce_window e') = 1" using run by (auto simp: engine_eval)
  ultimately show ?thesis using report_window_agrees [OF _ run] by simp
qed

text \<open>
  Once a probe of the engine has completed, the two part: the report counts its four duplicates,
  the engine does not.
\<close>

lemma report_counts_probes:
  "sa_WindowSamples (report_saturation (Some sample_options)
     [done_row [] 4 0 7, done_row (CoverageExpansionOriginPrefix @ ''94110'') 0 4 8]) = 2"
  "length (ce_window (snd (run_engine sample_env
     [(task_of_origin [], sample_checkpoint\<lparr>cp_RowsAdded := 4\<rparr>, True),
      (task_of_origin (CoverageExpansionOriginPrefix @ ''94110''),
         sample_checkpoint\<lparr>cp_DuplicatesSkipped := 4\<rparr>, True)]
     (withSearchRadius 0 (withPlanZoom 0 (newCoverageEngine ''job'' sample_options sample_seed)))))) = 1"
  by (simp add: report_saturation_def Let_def case_prod_beta coverageWindowSamples_last completed_rows_def
      done_row_def SliceStable_def finished_before_def WindowOrDefault_def sample_options_def last_n_def
      CoverageWindowEvidenceOf_def)
    (simp add: engine_eval)

end
