(* ===== verification/GoTime.thy ===== *)
theory GoTime
  imports GoStrings
begin

text \<open>
  The part of package \<open>time\<close> that the scheduler uses. An instant is the number of nanoseconds since the
  Unix epoch, negative before it. A location is what \<open>lookup\<close> answers for a Unix second: the offset
  east of UTC in seconds and the bounds of the period in which it is in force. \<open>Date\<close> resolves a wall
  clock the way the library does: it takes the offset in force at the wall clock read as UTC, and when
  the result lies outside the period of that offset, the offset in force at the result.
\<close>

section \<open>The calendar\<close>

definition leap :: "int \<Rightarrow> bool" where
  "leap y \<longleftrightarrow> y mod 4 = 0 \<and> (y mod 100 \<noteq> 0 \<or> y mod 400 = 0)"

text \<open>Days are counted from 1 January 1970; \<open>year_start y\<close> is 1 January of the year \<open>y\<close>.\<close>

definition year_start :: "int \<Rightarrow> int" where
  "year_start y = 365 * (y - 1970) + (y - 1) div 4 - (y - 1) div 100 + (y - 1) div 400 - 477"

lemma div_pred:
  fixes y k :: int assumes "0 < k"
  shows "(y - 1) div k = y div k - (if y mod k = 0 then 1 else 0)"
proof (cases "y mod k = 0")
  case True
  then obtain q where q: "y = k * q" by (auto simp: mod_eq_0_iff_dvd)
  have "(y - 1) div k = q - 1"
    by (rule int_div_pos_eq [of _ _ _ "k - 1"]) (use assms q in \<open>simp_all add: algebra_simps\<close>)
  then show ?thesis using assms q True by simp
next
  case False
  have "0 \<le> y mod k" "y mod k < k" using assms by simp_all
  have "(y - 1) div k = y div k"
    by (rule int_div_pos_eq [of _ _ _ "y mod k - 1"])
      (use False \<open>0 \<le> y mod k\<close> \<open>y mod k < k\<close> mult_div_mod_eq [of k y] in linarith)+
  then show ?thesis using False by simp
qed

lemma year_start_Suc: "year_start (y + 1) = year_start y + (if leap y then 366 else 365)"
proof -
  have "y mod 100 = 0 \<Longrightarrow> y mod 4 = 0" "y mod 400 = 0 \<Longrightarrow> y mod 100 = 0" by presburger+
  then show ?thesis
    unfolding year_start_def leap_def by (simp add: div_pred [of 4] div_pred [of 100] div_pred [of 400])
qed

lemma year_start_less: "year_start y < year_start (y + 1)"
  by (simp add: year_start_Suc)

function year_down :: "int \<Rightarrow> int \<Rightarrow> int" where
  "year_down d y = (if d < year_start y then year_down d (y - 1) else y)"
  by pat_completeness auto
termination
  by (relation "measure (\<lambda>(d, y). nat (year_start y - d))")
    (use year_start_less [of "y - 1" for y] in \<open>auto simp: nat_less_eq_zless\<close>)

function year_up :: "int \<Rightarrow> int \<Rightarrow> int" where
  "year_up d y = (if year_start (y + 1) \<le> d then year_up d (y + 1) else y)"
  by pat_completeness auto
termination
  by (relation "measure (\<lambda>(d, y). nat (d - year_start y))")
    (use year_start_less in \<open>auto simp: nat_less_eq_zless intro: less_le_trans\<close>)

declare year_down.simps [simp del] year_up.simps [simp del]

definition year_of :: "int \<Rightarrow> int" where
  "year_of d = year_up d (year_down d (1970 + d div 366))"

lemma year_down_le: "year_start (year_down d y) \<le> d"
  by (induction d y rule: year_down.induct) (subst year_down.simps, simp)

lemma year_up_bounds: "year_start y \<le> d \<Longrightarrow> year_start (year_up d y) \<le> d \<and> d < year_start (year_up d y + 1)"
  by (induction d y rule: year_up.induct) (subst year_up.simps, subst (2) year_up.simps, simp)

lemma year_of_bounds: "year_start (year_of d) \<le> d" "d < year_start (year_of d + 1)"
  using year_up_bounds [OF year_down_le] by (simp_all add: year_of_def)

definition month_days :: "bool \<Rightarrow> int list" where
  "month_days l = [31, if l then 29 else 28, 31, 30, 31, 30, 31, 31, 30, 31, 30, 31]"

text \<open>The days before the month with the number \<open>m\<close>, counted from 0.\<close>

definition month_offset :: "bool \<Rightarrow> int \<Rightarrow> int" where
  "month_offset l m = sum_list (take (nat m) (month_days l))"

text \<open>Months are counted through: \<open>i\<close> is the month \<open>i mod 12\<close> of the year \<open>i div 12\<close>.\<close>

definition month_begin :: "int \<Rightarrow> int" where
  "month_begin i = year_start (i div 12) + month_offset (leap (i div 12)) (i mod 12)"

definition month_of :: "int \<Rightarrow> int" where
  "month_of d = (let y = year_of d; r = d - year_start y
     in 12 * y + int (length (takeWhile (\<lambda>m. month_offset (leap y) (m + 1) \<le> r) [0..10])))"

lemma twelve_cases:
  fixes m :: int assumes "0 \<le> m" "m < 12"
  obtains "m = 0" | "m = 1" | "m = 2" | "m = 3" | "m = 4" | "m = 5" | "m = 6" | "m = 7" | "m = 8"
    | "m = 9" | "m = 10" | "m = 11"
proof -
  have "m \<in> set [0..11]" using assms by simp
  then have "m \<in> set [0, 1, 2, 3, 4, 5, 6, 7, 8, 9, 10, 11]" by (simp add: upto.simps)
  then show ?thesis using that by auto
qed

lemma month_offset_values:
  "month_offset l 0 = 0" "month_offset l 1 = 31"
  "month_offset l 2 = (if l then 60 else 59)" "month_offset l 3 = (if l then 91 else 90)"
  "month_offset l 4 = (if l then 121 else 120)" "month_offset l 5 = (if l then 152 else 151)"
  "month_offset l 6 = (if l then 182 else 181)" "month_offset l 7 = (if l then 213 else 212)"
  "month_offset l 8 = (if l then 244 else 243)" "month_offset l 9 = (if l then 274 else 273)"
  "month_offset l 10 = (if l then 305 else 304)" "month_offset l 11 = (if l then 335 else 334)"
  "month_offset l 12 = (if l then 366 else 365)"
  by (simp_all add: month_offset_def month_days_def)

lemma month_begin_Suc:
  "\<exists>k. month_begin (i + 1) = month_begin i + k \<and> 28 \<le> k \<and> k \<le> 31"
proof -
  have r: "0 \<le> i mod 12" "i mod 12 < 12" by simp_all
  show ?thesis
  proof (cases "i mod 12 = 11")
    case True
    then have "(i + 1) div 12 = i div 12 + 1" "(i + 1) mod 12 = 0" by presburger+
    then show ?thesis
      by (simp add: month_begin_def True month_offset_values year_start_Suc)
  next
    case False
    then have "(i + 1) div 12 = i div 12" "(i + 1) mod 12 = i mod 12 + 1" using r by presburger+
    then show ?thesis
      by (rule_tac twelve_cases [OF r])
        (use False in \<open>simp_all add: month_begin_def month_offset_values\<close>)
  qed
qed

lemma month_begin_mono: "i < j \<Longrightarrow> month_begin i + 28 \<le> month_begin j"
proof (induction j rule: int_gr_induct [of i])
  case base then show ?case using month_begin_Suc [of i] by auto
next
  case (step j) then show ?case using month_begin_Suc [of j] by auto
qed

lemma month_begin_less_iff: "month_begin i < month_begin j \<longleftrightarrow> i < j"
  using month_begin_mono [of i j] month_begin_mono [of j i] by (cases i j rule: linorder_cases) auto

lemma month_of_bounds: "month_begin (month_of d) \<le> d" "d < month_begin (month_of d + 1)"
proof -
  define y where "y = year_of d"
  define r where "r = d - year_start y"
  define k where "k = int (length (takeWhile (\<lambda>m. month_offset (leap y) (m + 1) \<le> r) [0..10]))"
  have r: "0 \<le> r" "r < (if leap y then 366 else 365)"
    using year_of_bounds [of d] by (simp_all add: r_def y_def year_start_Suc)
  have upto: "[0..10::int] = [0, 1, 2, 3, 4, 5, 6, 7, 8, 9, 10]" by (simp add: upto.simps)
  have k: "0 \<le> k \<and> k < 12 \<and> month_offset (leap y) k \<le> r \<and> r < month_offset (leap y) (k + 1)"
    using r unfolding k_def upto by (cases "leap y") (auto simp: month_offset_values)
  have m: "month_of d = 12 * y + k" by (simp add: month_of_def Let_def y_def [symmetric] r_def [symmetric] k_def)
  have "(12 * y + k) div 12 = y" "(12 * y + k) mod 12 = k" using k by simp_all
  moreover have "month_begin (12 * y + k + 1) = year_start y + month_offset (leap y) (k + 1)"
  proof (cases "k = 11")
    case True
    have "(12 * y + 11 + 1) div 12 = y + 1" "(12 * y + 11 + 1) mod 12 = 0" by simp_all
    then show ?thesis using year_start_Suc [of y]
      by (simp add: month_begin_def True month_offset_values add.commute)
  next
    case False
    then have "(12 * y + k + 1) div 12 = y" "(12 * y + k + 1) mod 12 = k + 1" using k by presburger+
    then show ?thesis by (simp add: month_begin_def)
  qed
  ultimately show "month_begin (month_of d) \<le> d" "d < month_begin (month_of d + 1)"
    using k by (simp_all add: m month_begin_def [of "12 * y + k"] r_def)
qed

lemma month_of_unique: "month_begin i \<le> d \<Longrightarrow> d < month_begin (i + 1) \<Longrightarrow> month_of d = i"
proof -
  assume d: "month_begin i \<le> d" "d < month_begin (i + 1)"
  have "month_of d < i + 1" using le_less_trans [OF month_of_bounds(1) d(2)] month_begin_less_iff by blast
  moreover have "i < month_of d + 1" using le_less_trans [OF d(1) month_of_bounds(2)] month_begin_less_iff by blast
  ultimately show ?thesis by simp
qed

lemma month_of_mono: "d \<le> e \<Longrightarrow> month_of d \<le> month_of e"
proof -
  assume "d \<le> e"
  then have "month_begin (month_of d) < month_begin (month_of e + 1)"
    using month_of_bounds [of d] month_of_bounds [of e] by linarith
  then show ?thesis by (simp add: month_begin_less_iff)
qed

text \<open>\<open>t.Date()\<close>: year, month from 1 and day of the month from 1.\<close>

definition civil :: "int \<Rightarrow> int \<times> int \<times> int" where
  "civil d = (let i = month_of d in (i div 12, i mod 12 + 1, d - month_begin i + 1))"

text \<open>The day number of a date; months and days out of range are normalised.\<close>

definition day_number :: "int \<Rightarrow> int \<Rightarrow> int \<Rightarrow> int" where
  "day_number y m d = month_begin (12 * y + m - 1) + d - 1"

lemma day_number_civil: "civil d = (y, m, k) \<Longrightarrow> day_number y m (k + j) = d + j"
  by (auto simp: civil_def day_number_def Let_def)

section \<open>Instants and locations\<close>

type_synonym Instant = int
type_synonym Location = "int \<Rightarrow> int \<times> int \<times> int"

definition Second :: int where "Second = 1000000000"
definition Minute :: int where "Minute = 60 * Second"
definition Hour :: int where "Hour = 3600 * Second"

text \<open>\<open>time.Time{}\<close>, the first of January of the year 1.\<close>

definition ZeroTime :: Instant where "ZeroTime = - 62135596800 * Second"

definition Unix :: "Instant \<Rightarrow> int" where "Unix t = t div Second"

definition zone_offset :: "Location \<Rightarrow> int \<Rightarrow> int" where "zone_offset loc u = fst (loc u)"

text \<open>The wall clock of an instant, in seconds.\<close>

definition wall :: "Location \<Rightarrow> Instant \<Rightarrow> int" where
  "wall loc t = Unix t + zone_offset loc (Unix t)"

definition clock_day :: "int \<Rightarrow> int" where "clock_day w = w div 86400"
definition clock_hour :: "int \<Rightarrow> int" where "clock_hour w = w mod 86400 div 3600"
definition clock_minute :: "int \<Rightarrow> int" where "clock_minute w = w mod 3600 div 60"
definition clock_second :: "int \<Rightarrow> int" where "clock_second w = w mod 60"
definition clock_weekday :: "int \<Rightarrow> int" where "clock_weekday w = (clock_day w + 4) mod 7"

definition resolve :: "Location \<Rightarrow> int \<Rightarrow> int" where
  "resolve loc w =
     (let (offset, start, stop) = loc w; utc = w - offset
      in if offset = 0 then w
         else if utc < start \<or> stop \<le> utc then w - zone_offset loc utc else utc)"

definition Date :: "Location \<Rightarrow> int \<Rightarrow> int \<Rightarrow> int \<Rightarrow> int \<Rightarrow> int \<Rightarrow> int \<Rightarrow> int \<Rightarrow> Instant" where
  "Date loc y m d hour minute sec nsec =
     resolve loc (86400 * day_number y m d + 3600 * hour + 60 * minute + sec) * Second + nsec"

definition AddDate :: "Location \<Rightarrow> int \<Rightarrow> int \<Rightarrow> int \<Rightarrow> Instant \<Rightarrow> Instant" where
  "AddDate loc years months days t =
     (let w = wall loc t; (y, m, d) = civil (clock_day w)
      in Date loc (y + years) (m + months) (d + days) (clock_hour w) (clock_minute w) (clock_second w)
           (t mod Second))"

text \<open>\<open>Truncate\<close> rounds towards the past after the zero time.\<close>

definition Truncate_minute :: "Instant \<Rightarrow> Instant" where
  "Truncate_minute t = t - t mod Minute"

text \<open>A location whose offset never changes.\<close>

definition fixed_offset :: "int \<Rightarrow> Location \<Rightarrow> bool" where
  "fixed_offset off loc \<longleftrightarrow> (\<forall>u. zone_offset loc u = off)"

lemma resolve_fixed: "fixed_offset off loc \<Longrightarrow> resolve loc w = w - off"
proof -
  assume f: "fixed_offset off loc"
  obtain o1 a b where w: "loc w = (o1, a, b)" by (cases "loc w")
  then have "o1 = off" using f by (metis fixed_offset_def zone_offset_def fst_conv)
  then show ?thesis using f w by (simp add: resolve_def fixed_offset_def Let_def)
qed

lemma wall_fixed: "fixed_offset off loc \<Longrightarrow> wall loc t = Unix t + off"
  by (simp add: wall_def fixed_offset_def)

lemma Unix_whole [simp]: "Unix (s * Second) = s" "Unix (s * Second + n) = s + n div Second"
  by (simp_all add: Unix_def Second_def)

lemma whole_after: "t < s * Second \<longleftrightarrow> Unix t < s"
proof -
  have "t = Second * Unix t + t mod Second" "0 \<le> t mod Second" "t mod Second < Second"
    by (simp_all add: Unix_def Second_def)
  then show ?thesis unfolding Second_def by (smt (verit))
qed

lemma Date_fixed:
  "fixed_offset off loc \<Longrightarrow>
   Date loc y m d h mi s 0 = (86400 * day_number y m d + 3600 * h + 60 * mi + s - off) * Second"
  by (simp add: Date_def resolve_fixed)

text \<open>A wall clock is its day, hour, minute and second.\<close>

lemma clock_unique:
  assumes "w = 86400 * d + 3600 * h + 60 * m + s" "0 \<le> h" "h < 24" "0 \<le> m" "m < 60" "0 \<le> s" "s < 60"
  shows "clock_day w = d" "clock_hour w = h" "clock_minute w = m" "clock_second w = s"
proof -
  have r: "0 \<le> 3600 * h + 60 * m + s" "3600 * h + 60 * m + s < 86400" "0 \<le> 60 * m + s" "60 * m + s < 3600"
    using assms by linarith+
  have "w div 86400 = d" by (rule int_div_pos_eq [OF _ r(1,2)]) (simp add: assms(1))
  moreover have "w mod 86400 = 3600 * h + 60 * m + s"
    by (rule int_mod_pos_eq [OF _ r(1,2)]) (simp add: assms(1))
  moreover have "w mod 3600 = 60 * m + s"
    by (rule int_mod_pos_eq [OF _ r(3,4), of _ "24 * d + h"]) (simp add: assms(1))
  moreover have "w mod 60 = s"
    by (rule int_mod_pos_eq [OF _ assms(6,7), of _ "1440 * d + 60 * h + m"]) (simp add: assms(1))
  moreover have "(3600 * h + 60 * m + s) div 3600 = h" by (rule int_div_pos_eq [OF _ r(3,4)]) simp
  moreover have "(60 * m + s) div 60 = m" by (rule int_div_pos_eq [OF _ assms(6,7)]) simp
  ultimately show "clock_day w = d" "clock_hour w = h" "clock_minute w = m" "clock_second w = s"
    by (simp_all only: clock_day_def clock_hour_def clock_minute_def clock_second_def)
qed

lemma clock_parts:
  obtains d h m s where "w = 86400 * d + 3600 * h + 60 * m + s" "0 \<le> h" "h < 24" "0 \<le> m" "m < 60"
    "0 \<le> s" "s < 60" "clock_day w = d" "clock_hour w = h" "clock_minute w = m" "clock_second w = s"
proof -
  define r where "r = w mod 86400"
  define q where "q = r mod 3600"
  have r: "0 \<le> r" "r < 86400" "0 \<le> q" "q < 3600" by (simp_all add: r_def q_def)
  have "w = 86400 * (w div 86400) + r" "r = 3600 * (r div 3600) + q" "q = 60 * (q div 60) + q mod 60"
    by (simp_all add: r_def q_def)
  then have w: "w = 86400 * (w div 86400) + 3600 * (r div 3600) + 60 * (q div 60) + q mod 60" by linarith
  have b: "0 \<le> r div 3600" "r div 3600 < 24" "0 \<le> q div 60" "q div 60 < 60" "0 \<le> q mod 60" "q mod 60 < 60"
    using r by (simp_all add: div_less_iff_less_mult pos_imp_zdiv_nonneg_iff)
  show ?thesis using that [OF w b clock_unique [OF w b]] .
qed

lemma clock_bounds:
  "0 \<le> clock_hour w" "clock_hour w < 24" "0 \<le> clock_minute w" "clock_minute w < 60"
  "0 \<le> clock_second w" "clock_second w < 60" "0 \<le> clock_weekday w" "clock_weekday w < 7"
proof -
  show "0 \<le> clock_hour w" "clock_hour w < 24" "0 \<le> clock_minute w" "clock_minute w < 60"
    "0 \<le> clock_second w" "clock_second w < 60"
    by (rule clock_parts [of w]; simp)+
qed (simp_all add: clock_weekday_def)

lemma AddDate_days_fixed:
  assumes "fixed_offset off loc"
  shows "AddDate loc 0 0 k t = t + 86400 * k * Second"
proof -
  obtain y m d where c: "civil (clock_day (wall loc t)) = (y, m, d)" by (cases "civil (clock_day (wall loc t))")
  have "86400 * (clock_day (wall loc t) + k) + 3600 * clock_hour (wall loc t)
      + 60 * clock_minute (wall loc t) + clock_second (wall loc t) = wall loc t + 86400 * k" (is "?w = _")
    by (rule clock_parts [of "wall loc t"]) simp
  moreover have "AddDate loc 0 0 k t = resolve loc ?w * Second + t mod Second"
    by (simp add: AddDate_def c Let_def Date_def day_number_civil [OF c])
  ultimately have "AddDate loc 0 0 k t = resolve loc (wall loc t + 86400 * k) * Second + t mod Second"
    by metis
  also have "\<dots> = t + 86400 * k * Second"
    by (simp add: resolve_fixed [OF assms] wall_fixed [OF assms] Unix_def algebra_simps)
  finally show ?thesis .
qed

end
