(* ===== verification/ScheduleTime.thy ===== *)
theory ScheduleTime
  imports GoTime SearchQueries
begin

text \<open>
  When a schedule fires next: \<open>NextScheduleTime\<close>, \<open>nextCronTime\<close> and \<open>parseCronField\<close> of
  \<open>web/schedules.go\<close>, and the rules of automatic retries. What \<open>time.LoadLocation\<close> makes of a time
  zone's name is an argument.
\<close>

section \<open>Schedules\<close>

record ScheduleSpec =
  sp_Recurrence :: string
  sp_FirstRunAt :: Instant
  sp_Weekdays :: "int list"
  sp_CustomCron :: string
  sp_OverlapPolicy :: string
  sp_MissedPolicy :: string
  sp_IncrementalMode :: string

definition ScheduleOverlapQueue :: string where "ScheduleOverlapQueue = ''queue''"
definition ScheduleOverlapSkip :: string where "ScheduleOverlapSkip = ''skip''"
definition ScheduleOverlapReplace :: string where "ScheduleOverlapReplace = ''replace''"

datatype schedule_error =
    ErrUnknownTimezone string
  | ErrWeekly
  | ErrMonthly
  | ErrRecurrence string
  | ErrCronFields
  | ErrCronField string string int int
  | ErrCronEmpty string
  | ErrCronNever

section \<open>Cron expressions\<close>

text \<open>\<open>strconv.Atoi\<close>: an optional sign and decimal digits, within 64 bits.\<close>

fun digits_value :: "int \<Rightarrow> string \<Rightarrow> int option" where
  "digits_value acc [] = Some acc"
| "digits_value acc (c # cs) =
     (if ascii_digit c then digits_value (10 * acc + (int (of_char c) - 48)) cs else None)"

definition Atoi :: "string \<Rightarrow> int option" where
  "Atoi s =
     (let (neg, ds) = (case s of
          [] \<Rightarrow> (False, [])
        | c # cs \<Rightarrow> if c = CHR ''-'' then (True, cs) else if c = CHR ''+'' then (False, cs) else (False, s))
      in if ds = [] then None
         else case digits_value 0 ds of
           None \<Rightarrow> None
         | Some n \<Rightarrow> let v = (if neg then - n else n)
             in if - (2 ^ 63) \<le> v \<and> v < 2 ^ 63 then Some v else None)"

text \<open>\<open>strings.Split(s, ",")\<close>\<close>

fun Split_comma :: "string \<Rightarrow> string list" where
  "Split_comma [] = [[]]"
| "Split_comma (c # cs) =
     (if c = CHR '','' then [] # Split_comma cs
      else case Split_comma cs of [] \<Rightarrow> [[c]] | p # ps \<Rightarrow> (c # p) # ps)"

record cronField =
  cr_any :: bool
  cr_allowed :: "int list"

fun parse_parts :: "string \<Rightarrow> int \<Rightarrow> int \<Rightarrow> string list \<Rightarrow> schedule_error + int list" where
  "parse_parts field lo hi [] = Inr []"
| "parse_parts field lo hi (p # ps) =
     (case Atoi p of
        None \<Rightarrow> Inl (ErrCronField field p lo hi)
      | Some n \<Rightarrow>
          if n < lo \<or> hi < n then Inl (ErrCronField field p lo hi)
          else case parse_parts field lo hi ps of Inl e \<Rightarrow> Inl e | Inr ns \<Rightarrow> Inr (n # ns))"

definition parseCronField :: "string \<Rightarrow> string \<Rightarrow> int \<Rightarrow> int \<Rightarrow> schedule_error + cronField" where
  "parseCronField field v lo hi =
     (if v = ''*'' then Inr \<lparr>cr_any = True, cr_allowed = [lo..hi]\<rparr>
      else case parse_parts field lo hi (Split_comma v) of
        Inl e \<Rightarrow> Inl e
      | Inr ns \<Rightarrow> if ns = [] then Inl (ErrCronEmpty field)
          else Inr \<lparr>cr_any = False, cr_allowed = ns\<rparr>)"

record cron =
  cr_minute :: cronField
  cr_hour :: cronField
  cr_monthDay :: cronField
  cr_month :: cronField
  cr_weekday :: cronField

definition parse_cron :: "string \<Rightarrow> schedule_error + cron" where
  "parse_cron expression =
     (case Fields expression of
        [f0, f1, f2, f3, f4] \<Rightarrow>
          (case parseCronField ''minute'' f0 0 59 of Inl e \<Rightarrow> Inl e | Inr minute \<Rightarrow>
          (case parseCronField ''hour'' f1 0 23 of Inl e \<Rightarrow> Inl e | Inr hour \<Rightarrow>
          (case parseCronField ''day'' f2 1 31 of Inl e \<Rightarrow> Inl e | Inr monthDay \<Rightarrow>
          (case parseCronField ''month'' f3 1 12 of Inl e \<Rightarrow> Inl e | Inr month \<Rightarrow>
          (case parseCronField ''weekday'' f4 0 6 of Inl e \<Rightarrow> Inl e | Inr weekday \<Rightarrow>
             Inr \<lparr>cr_minute = minute, cr_hour = hour, cr_monthDay = monthDay, cr_month = month,
               cr_weekday = weekday\<rparr>)))))
      | _ \<Rightarrow> Inl ErrCronFields)"

definition cron_matches :: "cron \<Rightarrow> Location \<Rightarrow> Instant \<Rightarrow> bool" where
  "cron_matches c loc t =
     (let w = wall loc t; (y, m, d) = civil (clock_day w);
          monthDayOK = (d \<in> set (cr_allowed (cr_monthDay c)));
          weekdayOK = (clock_weekday w \<in> set (cr_allowed (cr_weekday c)));
          dayOK = (if \<not> cr_any (cr_monthDay c) \<and> \<not> cr_any (cr_weekday c)
            then monthDayOK \<or> weekdayOK else monthDayOK \<and> weekdayOK)
      in clock_minute w \<in> set (cr_allowed (cr_minute c)) \<and> clock_hour w \<in> set (cr_allowed (cr_hour c))
         \<and> m \<in> set (cr_allowed (cr_month c)) \<and> dayOK)"

function scan_minutes :: "cron \<Rightarrow> Location \<Rightarrow> Instant \<Rightarrow> Instant \<Rightarrow> schedule_error + Instant" where
  "scan_minutes c loc deadline candidate =
     (if candidate < deadline then
        (if cron_matches c loc candidate then Inr candidate
         else scan_minutes c loc deadline (candidate + Minute))
      else Inl ErrCronNever)"
  by pat_completeness auto
termination
  by (relation "measure (\<lambda>(c, loc, deadline, candidate). nat (deadline - candidate))")
    (auto simp: Minute_def Second_def)

declare scan_minutes.simps [simp del]

definition nextCronTime :: "string \<Rightarrow> Location \<Rightarrow> Instant \<Rightarrow> schedule_error + Instant" where
  "nextCronTime expression loc after =
     (case parse_cron expression of
        Inl e \<Rightarrow> Inl e
      | Inr c \<Rightarrow>
          let candidate = Truncate_minute after + Minute
          in scan_minutes c loc (AddDate loc 5 0 0 candidate) candidate)"

section \<open>The next occurrence\<close>

definition daysInMonth :: "Location \<Rightarrow> int \<Rightarrow> int \<Rightarrow> int" where
  "daysInMonth loc y m =
     (let (y', m', d) = civil (clock_day (wall loc (Date loc y (m + 1) 0 12 0 0 0))) in d)"

definition weekday_set :: "ScheduleSpec \<Rightarrow> int \<Rightarrow> int list" where
  "weekday_set spec firstday =
     (let days = filter (\<lambda>d. 0 \<le> d \<and> d \<le> 6) (sp_Weekdays spec) in if days = [] then [firstday] else days)"

text \<open>The candidate of the day \<open>offset\<close> days on, if its weekday is wanted, and of the month \<open>offset\<close> months on.\<close>

definition weekly_candidate :: "Location \<Rightarrow> int list \<Rightarrow> int \<Rightarrow> int \<Rightarrow> Instant \<Rightarrow> int \<Rightarrow> Instant option" where
  "weekly_candidate loc days hour minute after offset =
     (let day = wall loc (AddDate loc 0 0 offset after); (y, m, d) = civil (clock_day day)
      in if clock_weekday day \<notin> set days then None else Some (Date loc y m d hour minute 0 0))"

definition monthly_candidate :: "Location \<Rightarrow> int \<Rightarrow> int \<Rightarrow> int \<Rightarrow> Instant \<Rightarrow> int \<Rightarrow> Instant option" where
  "monthly_candidate loc firstDay hour minute after offset =
     (let (y, m, d) = civil (clock_day (wall loc after));
          base = Date loc y (m + offset) 1 hour minute 0 0;
          (by, bm, bd) = civil (clock_day (wall loc base));
          day = min firstDay (daysInMonth loc by bm)
      in Some (Date loc by bm day hour minute 0 0))"

fun first_after :: "(int \<Rightarrow> Instant option) \<Rightarrow> Instant \<Rightarrow> int list \<Rightarrow> Instant option" where
  "first_after candidate after [] = None"
| "first_after candidate after (offset # offsets) =
     (case candidate offset of
        None \<Rightarrow> first_after candidate after offsets
      | Some t \<Rightarrow> if after < t then Some t else first_after candidate after offsets)"

definition NextScheduleTime ::
  "(string \<Rightarrow> Location option) \<Rightarrow> ScheduleSpec \<Rightarrow> string \<Rightarrow> Instant \<Rightarrow> schedule_error + Instant" where
  "NextScheduleTime LoadLocation spec timezone after =
     (case LoadLocation timezone of
        None \<Rightarrow> Inl (ErrUnknownTimezone timezone)
      | Some loc \<Rightarrow>
      (let first = sp_FirstRunAt spec; fw = wall loc first; (fy, fm, fd) = civil (clock_day fw);
           w = wall loc after; (y, m, d) = civil (clock_day w)
       in if after < first then Inr first
       else if sp_Recurrence spec = ''once'' then Inr ZeroTime
       else if sp_Recurrence spec = ''hourly'' then
         (let candidate = Date loc y m d (clock_hour w) (clock_minute fw) 0 0
          in Inr (if \<not> after < candidate then candidate + Hour else candidate))
       else if sp_Recurrence spec = ''daily'' then
         (let candidate = Date loc y m d (clock_hour fw) (clock_minute fw) 0 0
          in Inr (if \<not> after < candidate then AddDate loc 0 0 1 candidate else candidate))
       else if sp_Recurrence spec = ''weekly'' then
         (case first_after (weekly_candidate loc (weekday_set spec (clock_weekday fw)) (clock_hour fw)
             (clock_minute fw) after) after [0..7] of
            None \<Rightarrow> Inl ErrWeekly
          | Some t \<Rightarrow> Inr t)
       else if sp_Recurrence spec = ''monthly'' then
         (case first_after (monthly_candidate loc fd (clock_hour fw) (clock_minute fw) after) after [0..14] of
            None \<Rightarrow> Inl ErrMonthly
          | Some t \<Rightarrow> Inr t)
       else if sp_Recurrence spec = ''cron'' then nextCronTime (sp_CustomCron spec) loc after
       else Inl (ErrRecurrence (sp_Recurrence spec))))"

section \<open>Automatic retries\<close>

definition MaxScheduleRetryCount :: int where "MaxScheduleRetryCount = 10"
definition MinScheduleRetryBackoffSeconds :: int where "MinScheduleRetryBackoffSeconds = 10"
definition MaxScheduleRetryBackoffSeconds :: int where "MaxScheduleRetryBackoffSeconds = 3600"

definition ScheduleRetryAllowed :: "int \<Rightarrow> int \<Rightarrow> bool" where
  "ScheduleRetryAllowed retryCount failedAttempt =
     (let count = (if MaxScheduleRetryCount < retryCount then MaxScheduleRetryCount else retryCount);
          attempt = (if failedAttempt < 1 then 1 else failedAttempt)
      in 0 < count \<and> attempt \<le> count)"

definition ScheduleRetryDelay :: "int \<Rightarrow> int \<Rightarrow> int" where
  "ScheduleRetryDelay backoffSeconds failedAttempt =
     (let b1 = (if backoffSeconds < MinScheduleRetryBackoffSeconds then MinScheduleRetryBackoffSeconds
            else backoffSeconds);
          b2 = (if MaxScheduleRetryBackoffSeconds < b1 then MaxScheduleRetryBackoffSeconds else b1);
          a1 = (if failedAttempt < 1 then 1 else failedAttempt);
          a2 = (if MaxScheduleRetryCount < a1 then MaxScheduleRetryCount else a1)
      in b2 * a2 * Second)"

end
