(* ===== verification/Schedules.thy ===== *)
theory Schedules
  imports ScheduleTime JobRepository
begin

text \<open>
  The scheduler's store, \<open>web/sqlite/schedules.go\<close>, and the poll pass of \<open>web/schedules.go\<close> that drives
  it. The tables of the scheduler stand beside the job tables of \<open>Database\<close>; a configuration column
  is the value it encodes, or \<open>None\<close> when it does not decode. Arguments of the model: \<open>LoadLocation\<close>,
  the JSON codec of a job's data, its parameters and validation, and \<open>uuid.NewString\<close>, whose answers are
  numbered, and the text of an error.
\<close>

section \<open>Rows\<close>

record ScheduleRow =
  sh_id :: string
  sh_name :: string
  sh_template_id :: "string option"
  sh_cron_expression :: string
  sh_timezone :: string
  sh_enabled :: bool
  sh_overlap_policy :: string
  sh_missed_run_policy :: string
  sh_configuration :: "ScheduleSpec option"
  sh_next_run_at :: "int option"
  sh_last_run_at :: "int option"
  sh_retry_count :: int
  sh_retry_backoff_seconds :: int
  sh_auto_export_format :: string
  sh_runs_retention_days :: int
  sh_created_at :: int
  sh_updated_at :: int

record RunRow =
  sr_id :: int
  sr_schedule_id :: string
  sr_job_id :: "string option"
  sr_state :: string
  sr_scheduled_for :: int
  sr_started_at :: "int option"
  sr_finished_at :: "int option"
  sr_attempt :: int
  sr_error :: string

record TemplateRow =
  tp_id :: string
  tp_name :: string
  tp_configuration :: string

record AuditRow =
  au_action :: string
  au_entity_id :: string
  au_error :: string
  au_created_at :: int

text \<open>\<open>sd_run_seq\<close> is the AUTOINCREMENT counter of \<open>schedule_runs\<close>, \<open>sd_uuids\<close> counts the identifiers drawn.\<close>

record Store =
  sd_db :: Db
  sd_schedules :: "ScheduleRow list"
  sd_runs :: "RunRow list"
  sd_run_seq :: int
  sd_templates :: "TemplateRow list"
  sd_audit :: "AuditRow list"
  sd_uuids :: nat

text \<open>What the scheduler reads of a job's data; the other fields are carried along.\<close>

record TemplateData =
  td_IncrementalMode :: string
  td_TemplateID :: string
  td_rest :: string

datatype store_error =
    ErrScheduleNotFound
  | ErrDecodeSchedule string
  | ErrNext schedule_error
  | ErrNoFutureOccurrence
  | ErrInvalidConfiguration string
  | ErrDecodeTemplate
  | ErrEncodeJob
  | ErrStore repo_error

record ScheduleEnv =
  sv_env :: Env
  sv_LoadLocation :: "string \<Rightarrow> Location option"
  sv_Unmarshal :: "string \<Rightarrow> TemplateData option"
  sv_Marshal :: "TemplateData \<Rightarrow> string option"
  sv_ApplyJobParameters :: "TemplateData \<Rightarrow> string + TemplateData"
  sv_Validate :: "TemplateData \<Rightarrow> string option"
  sv_NewString :: "nat \<Rightarrow> string"
  sv_ErrorText :: "store_error \<Rightarrow> string"

section \<open>Reading\<close>

record ScheduleRecord =
  sc_ID :: string
  sc_Name :: string
  sc_TemplateID :: string
  sc_TemplateName :: string
  sc_Timezone :: string
  sc_Enabled :: bool
  sc_Spec :: ScheduleSpec
  sc_RetryCount :: int
  sc_RetryBackoffSeconds :: int
  sc_AutoExportFormat :: string
  sc_RunsRetentionDays :: int
  sc_NextRunAt :: "Instant option"
  sc_LastRunAt :: "Instant option"
  sc_CreatedAt :: Instant
  sc_UpdatedAt :: Instant

definition of_unix :: "int \<Rightarrow> Instant" where "of_unix u = u * Second"

definition template_name :: "string option \<Rightarrow> Store \<Rightarrow> string" where
  "template_name tid st =
     (case tid of
        None \<Rightarrow> []
      | Some t \<Rightarrow> (case find (\<lambda>r. tp_id r = t) (sd_templates st) of None \<Rightarrow> [] | Some r \<Rightarrow> tp_name r))"

definition scanSchedule :: "Store \<Rightarrow> ScheduleRow \<Rightarrow> store_error + ScheduleRecord" where
  "scanSchedule st r =
     (case sh_configuration r of
        None \<Rightarrow> Inl (ErrDecodeSchedule (sh_id r))
      | Some spec \<Rightarrow> Inr
          \<lparr>sc_ID = sh_id r, sc_Name = sh_name r,
           sc_TemplateID = (case sh_template_id r of None \<Rightarrow> [] | Some t \<Rightarrow> t),
           sc_TemplateName = template_name (sh_template_id r) st, sc_Timezone = sh_timezone r,
           sc_Enabled = sh_enabled r, sc_Spec = spec, sc_RetryCount = sh_retry_count r,
           sc_RetryBackoffSeconds = sh_retry_backoff_seconds r,
           sc_AutoExportFormat = sh_auto_export_format r,
           sc_RunsRetentionDays = sh_runs_retention_days r,
           sc_NextRunAt = map_option of_unix (sh_next_run_at r),
           sc_LastRunAt = map_option of_unix (sh_last_run_at r),
           sc_CreatedAt = of_unix (sh_created_at r), sc_UpdatedAt = of_unix (sh_updated_at r)\<rparr>)"

definition find_schedule :: "string \<Rightarrow> Store \<Rightarrow> ScheduleRow option" where
  "find_schedule sid st = find (\<lambda>r. sh_id r = sid) (sd_schedules st)"

definition getSchedule :: "string \<Rightarrow> Store \<Rightarrow> store_error + ScheduleRecord" where
  "getSchedule sid st =
     (case find_schedule sid st of None \<Rightarrow> Inl ErrScheduleNotFound | Some r \<Rightarrow> scanSchedule st r)"

fun scan_all :: "('a \<Rightarrow> 'e + 'b) \<Rightarrow> 'a list \<Rightarrow> 'e + 'b list" where
  "scan_all scan [] = Inr []"
| "scan_all scan (r # rs) =
     (case scan r of
        Inl e \<Rightarrow> Inl e
      | Inr x \<Rightarrow> (case scan_all scan rs of Inl e \<Rightarrow> Inl e | Inr xs \<Rightarrow> Inr (x # xs)))"

text \<open>\<open>ORDER BY enabled DESC, next_run_at, name\<close>; NULL comes first.\<close>

definition ListSchedules :: "Store \<Rightarrow> store_error + ScheduleRecord list" where
  "ListSchedules st =
     scan_all (scanSchedule st)
       (sort_key (\<lambda>r. \<not> sh_enabled r) (sort_key (\<lambda>r. sh_next_run_at r \<noteq> None)
         (sort_key (\<lambda>r. case sh_next_run_at r of None \<Rightarrow> 0 | Some t \<Rightarrow> t)
           (sort_key sh_name (sd_schedules st)))))"

record ScheduleRunRecord =
  rr_ID :: int
  rr_ScheduleID :: string
  rr_ScheduleName :: string
  rr_JobID :: string
  rr_State :: string
  rr_ScheduledFor :: Instant
  rr_StartedAt :: "Instant option"
  rr_FinishedAt :: "Instant option"
  rr_Attempt :: int
  rr_Error :: string

text \<open>The join of a run with its schedule and, where there is one, the runtime row of its job.\<close>

definition run_runtime :: "Store \<Rightarrow> RunRow \<Rightarrow> RuntimeRow option" where
  "run_runtime st r = (case sr_job_id r of None \<Rightarrow> None | Some job \<Rightarrow> find_runtime job (sd_db st))"

definition coalesce :: "'a option \<Rightarrow> 'a option \<Rightarrow> 'a option" where
  "coalesce a b = (case a of None \<Rightarrow> b | Some _ \<Rightarrow> a)"

definition scanScheduleRun :: "Store \<Rightarrow> RunRow \<times> ScheduleRow \<Rightarrow> ScheduleRunRecord" where
  "scanScheduleRun st rs =
     (let (r, s) = rs; rt = run_runtime st r
      in \<lparr>rr_ID = sr_id r, rr_ScheduleID = sr_schedule_id r, rr_ScheduleName = sh_name s,
          rr_JobID = (case sr_job_id r of None \<Rightarrow> [] | Some job \<Rightarrow> job),
          rr_State = (case rt of None \<Rightarrow> sr_state r | Some x \<Rightarrow> string_of_State (rt_state x)),
          rr_ScheduledFor = of_unix (sr_scheduled_for r),
          rr_StartedAt = map_option of_unix
            (coalesce (case rt of None \<Rightarrow> None | Some x \<Rightarrow> rt_started_at x) (sr_started_at r)),
          rr_FinishedAt = map_option of_unix
            (coalesce (case rt of None \<Rightarrow> None | Some x \<Rightarrow> rt_finished_at x) (sr_finished_at r)),
          rr_Attempt = sr_attempt r, rr_Error = sr_error r\<rparr>)"

definition runs_with_schedules :: "Store \<Rightarrow> (RunRow \<times> ScheduleRow) list" where
  "runs_with_schedules st =
     List.map_filter (\<lambda>r. map_option (\<lambda>s. (r, s)) (find_schedule (sr_schedule_id r) st)) (sd_runs st)"

definition newest_first :: "(RunRow \<times> ScheduleRow) list \<Rightarrow> (RunRow \<times> ScheduleRow) list" where
  "newest_first rows = sort_key (\<lambda>(r, s). - sr_scheduled_for r) (sort_key (\<lambda>(r, s). - sr_id r) rows)"

definition ListScheduleRuns :: "int \<Rightarrow> Store \<Rightarrow> ScheduleRunRecord list" where
  "ListScheduleRuns limit st =
     map (scanScheduleRun st) (take (nat (if limit < 1 \<or> 500 < limit then 100 else limit))
       (newest_first (runs_with_schedules st)))"

definition ListScheduleRunsForSchedule :: "string \<Rightarrow> int \<Rightarrow> Store \<Rightarrow> ScheduleRunRecord list" where
  "ListScheduleRunsForSchedule sid limit st =
     map (scanScheduleRun st) (take (nat (if limit < 1 \<or> 200 < limit then 50 else limit))
       (newest_first (filter (\<lambda>(r, s). sr_schedule_id r = sid) (runs_with_schedules st))))"

section \<open>Saving, switching and deleting a schedule\<close>

definition SaveSchedule :: "int \<Rightarrow> ScheduleRecord \<Rightarrow> Store \<Rightarrow> (store_error + unit) \<times> Store" where
  "SaveSchedule now s st =
     (let createdAt = (if sc_CreatedAt s = ZeroTime then of_unix now else sc_CreatedAt s);
          updatedAt = (if sc_UpdatedAt s = ZeroTime then createdAt else sc_UpdatedAt s);
          spec = sc_Spec s;
          row = \<lparr>sh_id = sc_ID s, sh_name = sc_Name s, sh_template_id = Some (sc_TemplateID s),
            sh_cron_expression = (if sp_Recurrence spec = ''cron'' then sp_CustomCron spec else sp_Recurrence spec),
            sh_timezone = sc_Timezone s, sh_enabled = sc_Enabled s,
            sh_overlap_policy = sp_OverlapPolicy spec, sh_missed_run_policy = sp_MissedPolicy spec,
            sh_configuration = Some spec, sh_next_run_at = map_option Unix (sc_NextRunAt s),
            sh_last_run_at = None, sh_retry_count = sc_RetryCount s,
            sh_retry_backoff_seconds = sc_RetryBackoffSeconds s,
            sh_auto_export_format = sc_AutoExportFormat s,
            sh_runs_retention_days = sc_RunsRetentionDays s, sh_created_at = Unix createdAt,
            sh_updated_at = Unix updatedAt\<rparr>
      in if \<not> list_ex (\<lambda>t. tp_id t = sc_TemplateID s) (sd_templates st)
         then (Inl (ErrStore (ErrConstraint ''schedules.template_id'')), st)
         else (Inr (), st\<lparr>sd_schedules :=
           (if find_schedule (sc_ID s) st = None then sd_schedules st @ [row]
            else update_where (\<lambda>r. sh_id r = sc_ID s)
              (\<lambda>r. row\<lparr>sh_last_run_at := sh_last_run_at r, sh_created_at := sh_created_at r\<rparr>)
              (sd_schedules st))\<rparr>))"

definition SetScheduleEnabled ::
  "ScheduleEnv \<Rightarrow> Instant \<Rightarrow> string \<Rightarrow> bool \<Rightarrow> Store \<Rightarrow> (store_error + unit) \<times> Store" where
  "SetScheduleEnabled env now sid enabled st =
     (case (if \<not> enabled then Inr None
            else case getSchedule sid st of
              Inl e \<Rightarrow> Inl e
            | Inr s \<Rightarrow> (case NextScheduleTime (sv_LoadLocation env) (sc_Spec s) (sc_Timezone s) now of
                  Inl e \<Rightarrow> Inl (ErrNext e)
                | Inr next \<Rightarrow> if next = ZeroTime then Inl ErrNoFutureOccurrence else Inr (Some (Unix next)))) of
        Inl e \<Rightarrow> (Inl e, st)
      | Inr nextRun \<Rightarrow>
          if find_schedule sid st = None then (Inl ErrScheduleNotFound, st)
          else (Inr (), st\<lparr>sd_schedules := update_where (\<lambda>r. sh_id r = sid)
            (\<lambda>r. r\<lparr>sh_enabled := enabled, sh_next_run_at := nextRun, sh_updated_at := Unix now\<rparr>)
            (sd_schedules st)\<rparr>))"

definition DeleteSchedule :: "string \<Rightarrow> Store \<Rightarrow> (store_error + unit) \<times> Store" where
  "DeleteSchedule sid st =
     (if find_schedule sid st = None then (Inl ErrScheduleNotFound, st)
      else (Inr (), st\<lparr>sd_schedules := filter (\<lambda>r. sh_id r \<noteq> sid) (sd_schedules st),
        sd_runs := filter (\<lambda>r. sr_schedule_id r \<noteq> sid) (sd_runs st)\<rparr>))"

section \<open>Creating the job of a run\<close>

definition two_digits :: "int \<Rightarrow> string" where
  "two_digits n = (if n < 10 then CHR ''0'' # decimal n else decimal n)"

definition four_digits :: "int \<Rightarrow> string" where
  "four_digits n = (let ds = decimal n in replicate (4 - length ds) (CHR ''0'') @ ds)"

text \<open>\<open>Format("2006-01-02 15:04")\<close> of an instant in UTC.\<close>

definition format_minute :: "Instant \<Rightarrow> string" where
  "format_minute t =
     (let w = Unix t; (y, m, d) = civil (clock_day w)
      in four_digits y @ ''-'' @ two_digits m @ ''-'' @ two_digits d @ '' '' @
         two_digits (clock_hour w) @ '':'' @ two_digits (clock_minute w))"

definition ValidIncrementalMode :: "string \<Rightarrow> bool" where
  "ValidIncrementalMode mode \<longleftrightarrow>
     mode \<in> {[], ''new_only'', ''new_changed'', ''volatile_fields'', ''stale_contacts''}"

definition getTemplateConfiguration :: "ScheduleEnv \<Rightarrow> string \<Rightarrow> Store \<Rightarrow> store_error + TemplateData" where
  "getTemplateConfiguration env tid st =
     (case find (\<lambda>r. tp_id r = tid) (sd_templates st) of
        None \<Rightarrow> Inl (ErrInvalidConfiguration ''scrape template is unavailable'')
      | Some r \<Rightarrow> (case sv_Unmarshal env (tp_configuration r) of None \<Rightarrow> Inl ErrDecodeTemplate | Some d \<Rightarrow> Inr d))"

definition schedule_data :: "ScheduleEnv \<Rightarrow> ScheduleRecord \<Rightarrow> Store \<Rightarrow> store_error + TemplateData" where
  "schedule_data env s st =
     (case getTemplateConfiguration env (sc_TemplateID s) st of
        Inl e \<Rightarrow> Inl e
      | Inr template \<Rightarrow>
      (let mode = TrimSpace (sp_IncrementalMode (sc_Spec s))
       in if mode \<noteq> [] \<and> \<not> ValidIncrementalMode mode
          then Inl (ErrInvalidConfiguration (''unsupported incremental mode '' @ mode))
          else case sv_ApplyJobParameters env
              (if mode \<noteq> [] then template\<lparr>td_IncrementalMode := mode\<rparr> else template) of
            Inl e \<Rightarrow> Inl (ErrInvalidConfiguration e)
          | Inr template1 \<Rightarrow> Inr (template1\<lparr>td_TemplateID := sc_TemplateID s\<rparr>)))"

definition run_name :: "ScheduleRecord \<Rightarrow> Instant \<Rightarrow> int \<Rightarrow> string" where
  "run_name s scheduledFor attempt =
     sc_Name s @ '' - '' @ format_minute scheduledFor @
     (if 1 < attempt then '' (retry '' @ decimal (attempt - 1) @ '')'' else [])"

definition job_error :: "ScheduleEnv \<Rightarrow> Job \<Rightarrow> TemplateData \<Rightarrow> string option" where
  "job_error env job data =
     (if job_ID job = [] then Some ''missing id'' else if job_Name job = [] then Some ''missing name''
      else if job_Status job = [] then Some ''missing status'' else sv_Validate env data)"

definition createScheduleJob ::
  "ScheduleEnv \<Rightarrow> int \<Rightarrow> ScheduleRecord \<Rightarrow> Instant \<Rightarrow> int \<Rightarrow> Store \<Rightarrow> store_error + Job \<times> Store" where
  "createScheduleJob env now s scheduledFor attempt st =
     (case schedule_data env s st of
        Inl e \<Rightarrow> Inl e
      | Inr data \<Rightarrow>
      (let job = \<lparr>job_ID = sv_NewString env (sd_uuids st), job_Name = run_name s scheduledFor attempt,
             job_Date = now, job_Status = ''pending'', job_Data = []\<rparr>
       in case job_error env job data of
        Some e \<Rightarrow> Inl (ErrInvalidConfiguration (''scheduled template is invalid: '' @ e))
      | None \<Rightarrow>
      (case sv_Marshal env data of
        None \<Rightarrow> Inl ErrEncodeJob
      | Some encoded \<Rightarrow>
      (let item = jobToRow now (job\<lparr>job_Data := encoded\<rparr>)
       in if find_job (jb_id item) (sd_db st) \<noteq> None then Inl (ErrStore (ErrConstraint ''jobs.id''))
          else case upsertJobFoundation (sv_env env) item
              ((sd_db st)\<lparr>db_jobs := db_jobs (sd_db st) @ [item]\<rparr>) of
            Inl e \<Rightarrow> Inl (ErrStore e)
          | Inr db \<Rightarrow> Inr (job\<lparr>job_Data := encoded\<rparr>, st\<lparr>sd_db := db, sd_uuids := Suc (sd_uuids st)\<rparr>)))))"

definition insert_run :: "string \<Rightarrow> string option \<Rightarrow> string \<Rightarrow> int \<Rightarrow> int option \<Rightarrow> int \<Rightarrow> string \<Rightarrow> Store \<Rightarrow> Store" where
  "insert_run sid job state scheduledFor finishedAt attempt error st =
     st\<lparr>sd_run_seq := sd_run_seq st + 1,
        sd_runs := sd_runs st @
          [\<lparr>sr_id = sd_run_seq st + 1, sr_schedule_id = sid, sr_job_id = job, sr_state = state,
            sr_scheduled_for = scheduledFor, sr_started_at = None, sr_finished_at = finishedAt,
            sr_attempt = attempt, sr_error = error\<rparr>]\<rparr>"

definition enqueueSchedule ::
  "ScheduleEnv \<Rightarrow> int \<Rightarrow> ScheduleRecord \<Rightarrow> Instant \<Rightarrow> Store \<Rightarrow> store_error + Job \<times> Store" where
  "enqueueSchedule env now s scheduledFor st =
     (case createScheduleJob env now s scheduledFor 1 st of
        Inl e \<Rightarrow> Inl e
      | Inr (job, st1) \<Rightarrow>
          Inr (job, insert_run (sc_ID s) (Some (job_ID job)) ''queued'' (Unix scheduledFor) None 1 [] st1))"

definition RunScheduleNow :: "ScheduleEnv \<Rightarrow> Instant \<Rightarrow> string \<Rightarrow> Store \<Rightarrow> (store_error + Job) \<times> Store" where
  "RunScheduleNow env now sid st =
     (case getSchedule sid st of
        Inl e \<Rightarrow> (Inl e, st)
      | Inr s \<Rightarrow>
      (case enqueueSchedule env (Unix now) s now st of
        Inl e \<Rightarrow> (Inl e, st)
      | Inr (job, st1) \<Rightarrow>
          (Inr job, st1\<lparr>sd_schedules := update_where (\<lambda>r. sh_id r = sid)
            (\<lambda>r. r\<lparr>sh_last_run_at := Some (Unix now), sh_updated_at := Unix now\<rparr>) (sd_schedules st1)\<rparr>)))"

section \<open>The pass over the due schedules\<close>

definition due :: "int \<Rightarrow> ScheduleRow \<Rightarrow> bool" where
  "due now r \<longleftrightarrow> sh_enabled r \<and> (case sh_next_run_at r of None \<Rightarrow> False | Some t \<Rightarrow> t \<le> now)"

definition dueSchedules :: "int \<Rightarrow> int \<Rightarrow> Store \<Rightarrow> (string \<times> int) list" where
  "dueSchedules now limit st =
     map (\<lambda>r. (sh_id r, the (sh_next_run_at r))) (take (nat limit)
       (sort_key (\<lambda>r. the (sh_next_run_at r)) (sort_key sh_id (filter (due now) (sd_schedules st)))))"

definition quarantineDueSchedule ::
  "ScheduleEnv \<Rightarrow> string \<Rightarrow> int \<Rightarrow> int \<Rightarrow> string \<Rightarrow> Store \<Rightarrow> Store" where
  "quarantineDueSchedule env sid dueAt now cause st =
     (let hit = (\<lambda>r. sh_id r = sid \<and> sh_enabled r \<and> sh_next_run_at r = Some dueAt);
          message = RedactString (sv_env env) cause
      in if count_where hit (sd_schedules st) = 0 then st
         else (insert_run sid None ''failed'' dueAt (Some now) 1 message
             (st\<lparr>sd_schedules := update_where hit
               (\<lambda>r. r\<lparr>sh_enabled := False, sh_next_run_at := None, sh_last_run_at := Some now,
                 sh_updated_at := now\<rparr>) (sd_schedules st)\<rparr>))
           \<lparr>sd_audit := sd_audit st @ [\<lparr>au_action = ''schedule_quarantined'', au_entity_id = sid,
             au_error = message, au_created_at = now\<rparr>]\<rparr>)"

definition active_states :: "State set" where
  "active_states = {StateQueued, StateStarting, StateRunning, StatePaused, StateCancelling}"

definition run_active :: "Store \<Rightarrow> RunRow \<Rightarrow> bool" where
  "run_active st r \<longleftrightarrow> (case run_runtime st r of None \<Rightarrow> False | Some x \<Rightarrow> rt_state x \<in> active_states)"

definition scheduleHasActiveJob :: "string \<Rightarrow> Store \<Rightarrow> bool" where
  "scheduleHasActiveJob sid st \<longleftrightarrow>
     0 < count_where (\<lambda>r. sr_schedule_id r = sid \<and> run_active st r) (sd_runs st)"

definition skip_reason :: "Instant \<Rightarrow> ScheduleRecord \<Rightarrow> int \<Rightarrow> Store \<Rightarrow> string" where
  "skip_reason now s dueAt st =
     (if sp_MissedPolicy (sc_Spec s) = ''skip'' \<and> Minute < now - of_unix dueAt
      then ''missed while the scheduler was offline''
      else if sp_OverlapPolicy (sc_Spec s) = ''skip'' \<and> scheduleHasActiveJob (sc_ID s) st
      then ''previous scheduled job is still active'' else [])"

definition advance_schedule :: "int \<Rightarrow> string \<Rightarrow> int \<Rightarrow> bool \<Rightarrow> Instant \<Rightarrow> Store \<Rightarrow> Store" where
  "advance_schedule now sid dueAt enabled next st =
     st\<lparr>sd_schedules := update_where (\<lambda>r. sh_id r = sid \<and> sh_next_run_at r = Some dueAt)
       (\<lambda>r. r\<lparr>sh_enabled := enabled, sh_next_run_at := (if enabled then Some (Unix next) else None),
          sh_last_run_at := Some now, sh_updated_at := now\<rparr>) (sd_schedules st)\<rparr>"

text \<open>One due schedule: the job it started, if any, or the error that ends the whole pass.\<close>

definition start_one ::
  "ScheduleEnv \<Rightarrow> Instant \<Rightarrow> string \<times> int \<Rightarrow> Store \<Rightarrow> store_error + Job option \<times> Store" where
  "start_one env now item st =
     (let (sid, dueAt) = item
      in case getSchedule sid st of
           Inl ErrScheduleNotFound \<Rightarrow> Inr (None, st)
         | Inl e \<Rightarrow> Inr (None, quarantineDueSchedule env sid dueAt (Unix now) (sv_ErrorText env e) st)
         | Inr s \<Rightarrow>
      (case NextScheduleTime (sv_LoadLocation env) (sc_Spec s) (sc_Timezone s) now of
           Inl e \<Rightarrow> Inr (None, quarantineDueSchedule env sid dueAt (Unix now) (sv_ErrorText env (ErrNext e)) st)
         | Inr next \<Rightarrow>
      (let enabled = sc_Enabled s \<and> next \<noteq> ZeroTime; reason = skip_reason now s dueAt st
       in if reason \<noteq> [] then
            Inr (None, advance_schedule (Unix now) sid dueAt enabled next
              (insert_run sid None ''skipped'' dueAt (Some (Unix now)) 1 reason st))
          else case enqueueSchedule env (Unix now) s (of_unix dueAt) st of
            Inl (ErrInvalidConfiguration e) \<Rightarrow>
              Inr (None, quarantineDueSchedule env sid dueAt (Unix now)
                (sv_ErrorText env (ErrInvalidConfiguration e)) st)
          | Inl e \<Rightarrow> Inl e
          | Inr (job, st1) \<Rightarrow> Inr (Some job, advance_schedule (Unix now) sid dueAt enabled next st1))))"

fun start_each ::
  "ScheduleEnv \<Rightarrow> Instant \<Rightarrow> (string \<times> int) list \<Rightarrow> Store \<Rightarrow> store_error + Job list \<times> Store" where
  "start_each env now [] st = Inr ([], st)"
| "start_each env now (item # items) st =
     (case start_one env now item st of
        Inl e \<Rightarrow> Inl e
      | Inr (job, st1) \<Rightarrow>
          (case start_each env now items st1 of
             Inl e \<Rightarrow> Inl e
           | Inr (jobs, st2) \<Rightarrow> Inr ((case job of None \<Rightarrow> jobs | Some j \<Rightarrow> j # jobs), st2)))"

definition pass_limit :: "int \<Rightarrow> int" where
  "pass_limit limit = (if limit < 1 \<or> 100 < limit then 10 else limit)"

definition StartDueSchedules ::
  "ScheduleEnv \<Rightarrow> Instant \<Rightarrow> int \<Rightarrow> Store \<Rightarrow> (store_error + Job list) \<times> Store" where
  "StartDueSchedules env now limit st =
     (case start_each env now (dueSchedules (Unix now) (pass_limit limit) st) st of
        Inl e \<Rightarrow> (Inl e, st)
      | Inr (jobs, st') \<Rightarrow> (Inr jobs, st'))"

section \<open>Settling finished runs\<close>

record ScheduleRunCompletion =
  co_RunID :: int
  co_ScheduleID :: string
  co_JobID :: string
  co_State :: string
  co_Attempt :: int
  co_AutoExportFormat :: string
  co_RetryQueued :: bool
  co_NextRetryAt :: "Instant option"

definition finished_states :: "State set" where
  "finished_states = {StateCompleted, StatePartial, StateFailed, StateCancelled}"

text \<open>The queued runs of existing schedules whose job is over, in the order of their identifiers.\<close>

definition finishedRuns :: "Store \<Rightarrow> (RunRow \<times> ScheduleRow \<times> RuntimeRow) list" where
  "finishedRuns st =
     sort_key (\<lambda>(r, s, x). sr_id r)
       (List.map_filter (\<lambda>r.
          case (find_schedule (sr_schedule_id r) st, run_runtime st r) of
            (Some s, Some x) \<Rightarrow>
              if sr_state r = ''queued'' \<and> rt_state x \<in> finished_states then Some (r, s, x) else None
          | _ \<Rightarrow> None) (sd_runs st))"

definition set_settled :: "string \<Rightarrow> int option \<Rightarrow> int \<Rightarrow> string \<Rightarrow> RunRow \<Rightarrow> RunRow" where
  "set_settled state startedAt finishedAt message r =
     r\<lparr>sr_state := state, sr_started_at := startedAt, sr_finished_at := Some finishedAt, sr_error := message\<rparr>"

definition settle_run ::
  "ScheduleEnv \<Rightarrow> Instant \<Rightarrow> RunRow \<times> ScheduleRow \<times> RuntimeRow \<Rightarrow> Store \<Rightarrow> ScheduleRunCompletion \<times> Store" where
  "settle_run env now rsx st =
     (let (r, s, x) = rsx; state = string_of_State (rt_state x);
          message = (if rt_state x \<in> {StateFailed, StateCancelled}
            then RedactString (sv_env env) (rt_message x) else []);
          finishedAt = (case rt_finished_at x of None \<Rightarrow> Unix now | Some t \<Rightarrow> t);
          st1 = st\<lparr>sd_runs := update_where (\<lambda>q. sr_id q = sr_id r \<and> sr_state q = ''queued'')
            (set_settled state (rt_started_at x) finishedAt message) (sd_runs st)\<rparr>;
          retry = (rt_state x = StateFailed \<and> ScheduleRetryAllowed (sh_retry_count s) (sr_attempt r));
          retryAt = now + ScheduleRetryDelay (sh_retry_backoff_seconds s) (sr_attempt r)
      in (\<lparr>co_RunID = sr_id r, co_ScheduleID = sr_schedule_id r,
           co_JobID = (case sr_job_id r of None \<Rightarrow> [] | Some job \<Rightarrow> job), co_State = state,
           co_Attempt = sr_attempt r, co_AutoExportFormat = sh_auto_export_format s,
           co_RetryQueued = retry, co_NextRetryAt = (if retry then Some retryAt else None)\<rparr>,
          if retry then insert_run (sr_schedule_id r) None ''retry_pending'' (Unix retryAt) None
            (sr_attempt r + 1) [] st1
          else st1))"

fun settle_each ::
  "ScheduleEnv \<Rightarrow> Instant \<Rightarrow> (RunRow \<times> ScheduleRow \<times> RuntimeRow) list \<Rightarrow> Store \<Rightarrow>
   ScheduleRunCompletion list \<times> Store" where
  "settle_each env now [] st = ([], st)"
| "settle_each env now (x # xs) st =
     (let (c, st1) = settle_run env now x st; (cs, st2) = settle_each env now xs st1 in (c # cs, st2))"

definition CompleteScheduleRuns ::
  "ScheduleEnv \<Rightarrow> Instant \<Rightarrow> Store \<Rightarrow> ScheduleRunCompletion list \<times> Store" where
  "CompleteScheduleRuns env now st = settle_each env now (finishedRuns st) st"

section \<open>Retries\<close>

definition dueRetries :: "int \<Rightarrow> int \<Rightarrow> Store \<Rightarrow> RunRow list" where
  "dueRetries now limit st =
     take (nat limit) (sort_key sr_scheduled_for (sort_key sr_id
       (filter (\<lambda>r. sr_state r = ''retry_pending'' \<and> sr_scheduled_for r \<le> now) (sd_runs st))))"

definition retry_one ::
  "ScheduleEnv \<Rightarrow> Instant \<Rightarrow> RunRow \<Rightarrow> Store \<Rightarrow> store_error + Job option \<times> Store" where
  "retry_one env now r st =
     (case getSchedule (sr_schedule_id r) st of
        Inl ErrScheduleNotFound \<Rightarrow> Inr (None, st)
      | Inl e \<Rightarrow> Inl e
      | Inr s \<Rightarrow>
      (case createScheduleJob env (Unix now) s (of_unix (sr_scheduled_for r)) (sr_attempt r) st of
        Inl (ErrInvalidConfiguration e) \<Rightarrow>
          Inr (None, st\<lparr>sd_runs := update_where (\<lambda>q. sr_id q = sr_id r)
            (\<lambda>q. q\<lparr>sr_state := ''failed'', sr_finished_at := Some (Unix now),
               sr_error := RedactString (sv_env env) (sv_ErrorText env (ErrInvalidConfiguration e))\<rparr>) (sd_runs st)\<rparr>)
      | Inl e \<Rightarrow> Inl e
      | Inr (job, st1) \<Rightarrow>
          Inr (Some job, st1\<lparr>sd_runs := update_where (\<lambda>q. sr_id q = sr_id r)
              (\<lambda>q. q\<lparr>sr_job_id := Some (job_ID job), sr_state := ''queued'', sr_error := []\<rparr>) (sd_runs st1),
            sd_schedules := update_where (\<lambda>q. sh_id q = sr_schedule_id r)
              (\<lambda>q. q\<lparr>sh_last_run_at := Some (Unix now), sh_updated_at := Unix now\<rparr>) (sd_schedules st1)\<rparr>)))"

fun retry_each ::
  "ScheduleEnv \<Rightarrow> Instant \<Rightarrow> RunRow list \<Rightarrow> Store \<Rightarrow> store_error + Job list \<times> Store" where
  "retry_each env now [] st = Inr ([], st)"
| "retry_each env now (r # rs) st =
     (case retry_one env now r st of
        Inl e \<Rightarrow> Inl e
      | Inr (job, st1) \<Rightarrow>
          (case retry_each env now rs st1 of
             Inl e \<Rightarrow> Inl e
           | Inr (jobs, st2) \<Rightarrow> Inr ((case job of None \<Rightarrow> jobs | Some j \<Rightarrow> j # jobs), st2)))"

definition StartDueScheduleRetries ::
  "ScheduleEnv \<Rightarrow> Instant \<Rightarrow> int \<Rightarrow> Store \<Rightarrow> (store_error + Job list) \<times> Store" where
  "StartDueScheduleRetries env now limit st =
     (case retry_each env now (dueRetries (Unix now) (pass_limit limit) st) st of
        Inl e \<Rightarrow> (Inl e, st)
      | Inr (jobs, st') \<Rightarrow> (Inr jobs, st'))"

section \<open>Retention\<close>

definition expired_run :: "int \<Rightarrow> Store \<Rightarrow> RunRow \<Rightarrow> bool" where
  "expired_run now st r \<longleftrightarrow>
     (case find_schedule (sr_schedule_id r) st of
        None \<Rightarrow> False
      | Some s \<Rightarrow> 0 < sh_runs_retention_days s \<and> sr_state r \<noteq> ''queued'' \<and> sr_state r \<noteq> ''retry_pending'' \<and>
          (case sr_finished_at r of None \<Rightarrow> sr_scheduled_for r | Some t \<Rightarrow> t)
            < now - sh_runs_retention_days s * 86400)"

definition PruneScheduleRuns :: "Instant \<Rightarrow> Store \<Rightarrow> int \<times> Store" where
  "PruneScheduleRuns now st =
     (let expired = expired_run (Unix now) st;
          jobs = List.map_filter sr_job_id (filter expired (sd_runs st))
      in (count_where expired (sd_runs st),
          st\<lparr>sd_db := (sd_db st)\<lparr>db_events := filter (\<lambda>e. \<not> (ev_job_id e \<in> set jobs \<and> ev_job_id e \<noteq> []))
              (db_events (sd_db st))\<rparr>,
             sd_runs := filter (\<lambda>r. \<not> expired r) (sd_runs st)\<rparr>))"

section \<open>What foreign keys do\<close>

text \<open>
  The job tables or the templates change, by any other part of the program. A job or template that is
  gone is forgotten by the rows that refer to it (\<open>ON DELETE SET NULL\<close>).
\<close>

definition set_jobs :: "Db \<Rightarrow> Store \<Rightarrow> Store" where
  "set_jobs db st =
     st\<lparr>sd_db := db,
        sd_runs := map (\<lambda>r. r\<lparr>sr_job_id := (case sr_job_id r of
             None \<Rightarrow> None | Some j \<Rightarrow> if find_job j db = None then None else Some j)\<rparr>) (sd_runs st)\<rparr>"

definition set_templates :: "TemplateRow list \<Rightarrow> Store \<Rightarrow> Store" where
  "set_templates ts st =
     st\<lparr>sd_templates := ts,
        sd_schedules := map (\<lambda>r. r\<lparr>sh_template_id := (case sh_template_id r of
             None \<Rightarrow> None | Some t \<Rightarrow> if t \<in> tp_id ` set ts then Some t else None)\<rparr>) (sd_schedules st)\<rparr>"

section \<open>The poll pass\<close>

definition ListDueReplaceableScheduleJobs :: "Instant \<Rightarrow> Store \<Rightarrow> string list" where
  "ListDueReplaceableScheduleJobs now st =
     remdups (sort (List.map_filter (\<lambda>r.
       case find_schedule (sr_schedule_id r) st of
         None \<Rightarrow> None
       | Some s \<Rightarrow> if due (Unix now) s \<and> sh_overlap_policy s = ScheduleOverlapReplace \<and> run_active st r
           then sr_job_id r else None) (sd_runs st)))"

text \<open>Rejected commands and jobs that are gone are not errors of the pass.\<close>

definition cancel_error :: "control_result \<Rightarrow> bool" where
  "cancel_error res = (case res of
      ControlFailed (ErrLifecycleNotFound _) \<Rightarrow> False
    | ControlFailed (RuntimeError (ErrControlRejected _ _)) \<Rightarrow> False
    | ControlRefused _ _ (RuntimeError (ErrControlRejected _ _)) \<Rightarrow> False
    | ControlFailed _ \<Rightarrow> True | ControlRefused _ _ _ \<Rightarrow> True | ControlDone _ _ \<Rightarrow> False)"

definition cancel_one :: "ScheduleEnv \<Rightarrow> int \<Rightarrow> string \<Rightarrow> string list \<times> Store \<Rightarrow> string list \<times> Store" where
  "cancel_one env now job es =
     (let (errors, st) = es; (res, db) = ApplyControl (sv_env env) now job ControlCancel (sd_db st)
      in (if cancel_error res then errors @ [job] else errors, st\<lparr>sd_db := db\<rparr>))"

definition cancelReplacedScheduleJobs :: "ScheduleEnv \<Rightarrow> Instant \<Rightarrow> Store \<Rightarrow> string list \<times> Store" where
  "cancelReplacedScheduleJobs env now st =
     fold (cancel_one env (Unix now)) (ListDueReplaceableScheduleJobs now st) ([], st)"

definition auto_exports :: "ScheduleRunCompletion list \<Rightarrow> ScheduleRunCompletion list" where
  "auto_exports completions =
     filter (\<lambda>c. co_State c = ''completed'' \<and> co_AutoExportFormat c \<noteq> []) completions"

text \<open>
  \<open>Service.StartDueSchedules\<close>: the exports to build, the jobs whose cancelling failed, and the error of
  the retries beside the answer. Building an export and deleting expired ones is not modelled.
\<close>

record poll_answer =
  po_jobs :: "store_error + Job list"
  po_exports :: "ScheduleRunCompletion list"
  po_cancel_errors :: "string list"
  po_retry_error :: "store_error option"

definition poll_schedules :: "ScheduleEnv \<Rightarrow> Instant \<Rightarrow> int \<Rightarrow> Store \<Rightarrow> poll_answer \<times> Store" where
  "poll_schedules env now limit st =
     (let (completions, st1) = CompleteScheduleRuns env now st;
          (cancelErrs, st2) = cancelReplacedScheduleJobs env now st1;
          (answer, st3) = StartDueSchedules env now limit st2;
          exports = auto_exports completions
      in case answer of
           Inl e \<Rightarrow> (\<lparr>po_jobs = Inl e, po_exports = exports, po_cancel_errors = cancelErrs,
             po_retry_error = None\<rparr>, st3)
         | Inr jobs \<Rightarrow>
             (let (retried, st4) = StartDueScheduleRetries env now limit st3;
                  (pruned, st5) = PruneScheduleRuns now st4
              in (\<lparr>po_jobs = Inr (jobs @ (case retried of Inl _ \<Rightarrow> [] | Inr js \<Rightarrow> js)), po_exports = exports,
                   po_cancel_errors = cancelErrs,
                   po_retry_error = (case retried of Inl e \<Rightarrow> Some e | Inr _ \<Rightarrow> None)\<rparr>, st5)))"

end
