(* ===== verification/ScheduleTimeProperties.thy ===== *)
theory ScheduleTimeProperties
  imports ScheduleTime
begin

text \<open>
  \<open>NextScheduleTime\<close> against its meaning: the next occurrence is the earliest later moment at which the
  wall clock of the schedule reads what its recurrence asks for.
\<close>

section \<open>What a recurrence asks for\<close>

text \<open>On wall-clock seconds; \<open>fw\<close> is the wall clock of the first run.\<close>

definition month_length :: "int \<Rightarrow> int" where
  "month_length i = month_begin (i + 1) - month_begin i"

definition time_of_day :: "int \<Rightarrow> int \<Rightarrow> bool" where
  "time_of_day fw w \<longleftrightarrow>
     clock_hour w = clock_hour fw \<and> clock_minute w = clock_minute fw \<and> clock_second w = 0"

definition occurs :: "ScheduleSpec \<Rightarrow> int \<Rightarrow> int \<Rightarrow> bool" where
  "occurs spec fw w \<longleftrightarrow>
     (if sp_Recurrence spec = ''hourly'' then clock_minute w = clock_minute fw \<and> clock_second w = 0
      else if sp_Recurrence spec = ''daily'' then time_of_day fw w
      else if sp_Recurrence spec = ''weekly''
      then time_of_day fw w \<and> clock_weekday w \<in> set (weekday_set spec (clock_weekday fw))
      else if sp_Recurrence spec = ''monthly''
      then time_of_day fw w \<and>
        (let (y, m, d) = civil (clock_day w); (fy, fm, fd) = civil (clock_day fw)
         in d = min fd (month_length (month_of (clock_day w))))
      else False)"

definition earliest :: "(int \<Rightarrow> bool) \<Rightarrow> int \<Rightarrow> int \<Rightarrow> bool" where
  "earliest P now w \<longleftrightarrow> now < w \<and> P w \<and> (\<forall>v. now < v \<and> v < w \<longrightarrow> \<not> P v)"

text \<open>Occurrences enumerated by an increasing function.\<close>

lemma earliest_enum:
  assumes P: "\<And>v. P v \<longleftrightarrow> (\<exists>i \<in> I. v = f i)" and mono: "\<And>i j. i \<in> I \<Longrightarrow> j \<in> I \<Longrightarrow> f i < f j \<Longrightarrow> i < j"
    and "i \<in> I" "now < f i" and before: "\<And>j. j \<in> I \<Longrightarrow> j < i \<Longrightarrow> f j \<le> (now::int)"
  shows "earliest P now (f (i::int))"
  unfolding earliest_def
proof (intro conjI allI impI)
  show "now < f i" "P (f i)" using assms(3,4) P by auto
  fix v assume "now < v \<and> v < f i"
  then show "\<not> P v" using P mono before \<open>i \<in> I\<close> by (metis not_less)
qed

lemma time_of_day_iff:
  "time_of_day fw w \<longleftrightarrow> w = 86400 * clock_day w + 3600 * clock_hour fw + 60 * clock_minute fw"
proof
  assume "time_of_day fw w"
  then show "w = 86400 * clock_day w + 3600 * clock_hour fw + 60 * clock_minute fw"
    by (rule_tac clock_parts [of w]) (simp add: time_of_day_def)
next
  assume "w = 86400 * clock_day w + 3600 * clock_hour fw + 60 * clock_minute fw"
  then have "w = 86400 * clock_day w + 3600 * clock_hour fw + 60 * clock_minute fw + 0" by simp
  from clock_unique(2-4) [OF this] clock_bounds [of fw] show "time_of_day fw w"
    by (simp add: time_of_day_def)
qed

lemma clock_day_at:
  "clock_day (86400 * d + 3600 * clock_hour fw + 60 * clock_minute fw) = d"
  using clock_unique(1) [of _ d "clock_hour fw" "clock_minute fw" 0] clock_bounds [of fw] by simp

section \<open>In a zone with a fixed offset\<close>

lemma hourly_earliest:
  assumes "c = 86400 * clock_day w + 3600 * clock_hour w + 60 * clock_minute fw"
  shows "earliest (\<lambda>v. clock_minute v = clock_minute fw \<and> clock_second v = 0) w (if w < c then c else c + 3600)"
proof -
  let ?P = "\<lambda>v. clock_minute v = clock_minute fw \<and> clock_second v = 0"
  let ?f = "\<lambda>q. 3600 * q + 60 * clock_minute fw"
  obtain d h m s where w: "w = 86400 * d + 3600 * h + 60 * m + s" "0 \<le> m" "m < 60" "0 \<le> s" "s < 60"
    "clock_day w = d" "clock_hour w = h" by (rule clock_parts [of w])
  have b: "0 \<le> clock_minute fw" "clock_minute fw < 60" by (simp_all add: clock_bounds)
  have P: "?P v \<longleftrightarrow> (\<exists>q \<in> UNIV. v = ?f q)" for v
  proof
    assume "?P v"
    then show "\<exists>q \<in> UNIV. v = ?f q"
      by (rule_tac clock_parts [of v]) (auto intro!: exI [of _ "24 * clock_day v + clock_hour v"])
  next
    assume "\<exists>q \<in> UNIV. v = ?f q"
    then obtain q where "v = ?f q" by blast
    then have "v = 86400 * (q div 24) + 3600 * (q mod 24) + 60 * clock_minute fw + 0"
      using div_mult_mod_eq [of q 24] by linarith
    from clock_unique(3,4) [OF this] b show "?P v" by simp
  qed
  have c: "c = ?f (24 * d + h)" using assms w by simp
  show ?thesis
  proof (cases "w < c")
    case True
    have "earliest ?P w (?f (24 * d + h))"
      by (rule earliest_enum [where I = UNIV and f = ?f, OF P]) (use True c w b in auto)
    then show ?thesis using True c by simp
  next
    case False
    have "earliest ?P w (?f (24 * d + h + 1))"
      by (rule earliest_enum [where I = UNIV and f = ?f, OF P]) (use False c w b in auto)
    then show ?thesis using False c by (simp add: algebra_simps)
  qed
qed

lemma daily_earliest:
  assumes "c = 86400 * clock_day w + 3600 * clock_hour fw + 60 * clock_minute fw"
  shows "earliest (time_of_day fw) w (if w < c then c else c + 86400)"
proof -
  let ?f = "\<lambda>d. 86400 * d + 3600 * clock_hour fw + 60 * clock_minute fw"
  obtain d h m s where w: "w = 86400 * d + 3600 * h + 60 * m + s" "0 \<le> h" "h < 24" "0 \<le> m" "m < 60"
    "0 \<le> s" "s < 60" "clock_day w = d" by (rule clock_parts [of w])
  note b = clock_bounds [of fw]
  have P: "time_of_day fw v \<longleftrightarrow> (\<exists>d \<in> UNIV. v = ?f d)" for v
    using clock_day_at [of _ fw] by (auto simp: time_of_day_iff)
  show ?thesis
  proof (cases "w < c")
    case True
    have "earliest (time_of_day fw) w (?f d)"
      by (rule earliest_enum [where I = UNIV and f = ?f, OF P]) (use True assms w b in auto)
    then show ?thesis using True assms w by simp
  next
    case False
    have "earliest (time_of_day fw) w (?f (d + 1))"
      by (rule earliest_enum [where I = UNIV and f = ?f, OF P]) (use False assms w b in auto)
    then show ?thesis using False assms w by (simp add: algebra_simps)
  qed
qed

lemma first_after_upto:
  assumes "k \<in> set [a..n]" "c k = Some u" "after < u"
  shows "\<exists>i t. first_after c after [a..n] = Some t \<and> a \<le> i \<and> i \<le> k \<and> c i = Some t \<and> after < t \<and>
    (\<forall>j v. a \<le> j \<longrightarrow> j < i \<longrightarrow> c j = Some v \<longrightarrow> v \<le> after)"
  using assms
proof (induction a n rule: upto.induct)
  case (1 a n)
  have le: "a \<le> n" using "1.prems" by simp
  then have cons: "[a..n] = a # [a + 1..n]" by (simp add: upto.simps)
  show ?case
  proof (cases "\<exists>t. c a = Some t \<and> after < t")
    case True
    then obtain t where "c a = Some t" "after < t" by blast
    then show ?thesis using "1.prems" by (intro exI [of _ a] exI [of _ t]) (auto simp: cons)
  next
    case False
    then have "k \<noteq> a" using "1.prems" by auto
    then have "k \<in> set [a + 1..n]" using "1.prems" by auto
    from "1.IH" [OF le this "1.prems"(2,3)] obtain i t where
      "first_after c after [a + 1..n] = Some t" "a + 1 \<le> i" "i \<le> k" "c i = Some t" "after < t"
      "\<forall>j v. a + 1 \<le> j \<longrightarrow> j < i \<longrightarrow> c j = Some v \<longrightarrow> v \<le> after" by blast
    moreover have "first_after c after [a..n] = first_after c after [a + 1..n]"
      using False by (simp add: cons split: option.split)
    moreover have "v \<le> after" if "a \<le> j" "j < i" "c j = Some v" for j v
    proof (cases "j = a")
      case True then show ?thesis using False that by auto
    next
      case False
      then have "a + 1 \<le> j" using that by simp
      then show ?thesis using calculation(6) that by blast
    qed
    ultimately show ?thesis by (intro exI [of _ i] exI [of _ t]) auto
  qed
qed

lemma wall_whole: "fixed_offset off loc \<Longrightarrow> wall loc (s * Second) = s + off"
  by (simp add: wall_fixed)

lemma clock_weekday_cong: "clock_day v = clock_day w \<Longrightarrow> clock_weekday v = clock_weekday w"
  by (simp add: clock_weekday_def)

lemma day_number_civil': "civil d = (y, m, k) \<Longrightarrow> day_number y m k = d"
  using day_number_civil [of d y m k 0] by simp

lemma clock_day_shift: "clock_day (w + 86400 * k) = clock_day w + k"
  by (simp add: clock_day_def)

lemma weekly_candidate_fixed:
  assumes "fixed_offset off loc"
  shows "weekly_candidate loc W h m after k =
    (let d = clock_day (wall loc after) + k
     in if (d + 4) mod 7 \<in> set W then Some ((86400 * d + 3600 * h + 60 * m - off) * Second) else None)"
proof -
  have w: "wall loc (AddDate loc 0 0 k after) = wall loc after + 86400 * k"
    by (simp add: AddDate_days_fixed [OF assms] wall_fixed [OF assms] Unix_def Second_def algebra_simps
        flip: mult.assoc)
  obtain y mo d where c: "civil (clock_day (wall loc after) + k) = (y, mo, d)"
    by (cases "civil (clock_day (wall loc after) + k)")
  show ?thesis
    by (simp add: weekly_candidate_def w clock_weekday_def clock_day_shift c Date_fixed [OF assms]
        day_number_civil' [OF c] Let_def)
qed

lemma weekly_earliest:
  assumes "fixed_offset off loc" and W: "x \<in> set W" "0 \<le> x" "x < 7"
  shows "\<exists>s. first_after (weekly_candidate loc W (clock_hour fw) (clock_minute fw) after) after [0..7] = Some (s * Second)
    \<and> earliest (\<lambda>v. time_of_day fw v \<and> clock_weekday v \<in> set W) (wall loc after) (s + off)"
proof -
  let ?f = "\<lambda>d. 86400 * d + 3600 * clock_hour fw + 60 * clock_minute fw"
  let ?I = "{d. (d + 4) mod 7 \<in> set W}"
  let ?c = "weekly_candidate loc W (clock_hour fw) (clock_minute fw) after"
  obtain D h m s where w: "wall loc after = 86400 * D + 3600 * h + 60 * m + s" "0 \<le> h" "h < 24" "0 \<le> m"
    "m < 60" "0 \<le> s" "s < 60" "clock_day (wall loc after) = D" by (rule clock_parts [of "wall loc after"])
  note b = clock_bounds [of fw]
  have c: "?c k = (if D + k \<in> ?I then Some ((?f (D + k) - off) * Second) else None)" for k
    by (simp add: weekly_candidate_fixed [OF assms(1)] w(8) Let_def)
  have P: "time_of_day fw v \<and> clock_weekday v \<in> set W \<longleftrightarrow> (\<exists>d \<in> ?I. v = ?f d)" for v
    using clock_day_at [of _ fw] by (auto simp: time_of_day_iff clock_weekday_def)
  have later: "after < (?f d - off) * Second \<longleftrightarrow> wall loc after < ?f d" for d
    by (simp add: whole_after wall_fixed [OF assms(1)] less_diff_eq)
  define k where "k = (x - D - 5) mod 7 + 1"
  have k: "1 \<le> k" "k \<le> 7" by (simp_all add: k_def)
  have "(D + k + 4) mod 7 = (D + 5 + (x - D - 5) mod 7) mod 7" by (simp add: k_def algebra_simps)
  also have "\<dots> = (D + 5 + (x - D - 5)) mod 7" by (simp only: mod_add_right_eq)
  finally have "(D + k + 4) mod 7 = x mod 7" by simp
  then have kI: "D + k \<in> ?I" using W by simp
  then have "?c k = Some ((?f (D + k) - off) * Second)" by (simp add: c)
  moreover have "after < (?f (D + k) - off) * Second"
  proof -
    have "86400 * D + 86400 \<le> 86400 * (D + k)" using k by simp
    then have "wall loc after < ?f (D + k)" using w(1,3,5,7) b(1,3) by linarith
    then show ?thesis unfolding later .
  qed
  ultimately obtain i t where i: "first_after ?c after [0..7] = Some t" "0 \<le> i" "?c i = Some t" "after < t"
    "\<And>j v. 0 \<le> j \<Longrightarrow> j < i \<Longrightarrow> ?c j = Some v \<Longrightarrow> v \<le> after"
    using first_after_upto [of k 0 7 ?c] k by force
  have iI: "D + i \<in> ?I" and t: "t = (?f (D + i) - off) * Second" using i(3) by (auto simp: c split: if_splits)
  have "earliest (\<lambda>v. time_of_day fw v \<and> clock_weekday v \<in> set W) (wall loc after) (?f (D + i))"
  proof (rule earliest_enum [where I = ?I and f = ?f, OF P _ iI])
    show "wall loc after < ?f (D + i)" using i(4) unfolding t later .
  next
    fix j assume j: "j \<in> ?I" "j < D + i"
    show "?f j \<le> wall loc after"
    proof (cases "j < D")
      case True then show ?thesis using w b by linarith
    next
      case False
      then have "(?f j - off) * Second \<le> after" using i(5) [of "j - D"] j by (simp add: c)
      then show ?thesis using later [of j] by linarith
    qed
  qed auto
  then show ?thesis using i(1) t by (intro exI [of _ "?f (D + i) - off"]) simp
qed

lemma civil_iff: "civil d = (y, m, k) \<longleftrightarrow>
  (let i = month_of d in y = i div 12 \<and> m = i mod 12 + 1 \<and> k = d - month_begin i + 1)"
  by (auto simp: civil_def Let_def)

lemma day_number_month: "day_number (i div 12) (i mod 12 + 1) k = month_begin i + k - 1"
  by (simp add: day_number_def)

lemma month_length_bounds: "28 \<le> month_length i" "month_length i \<le> 31"
  using month_begin_Suc [of i] by (auto simp: month_length_def)

lemma daysInMonth_fixed:
  assumes "fixed_offset off loc"
  shows "daysInMonth loc (i div 12) (i mod 12 + 1) = month_length i"
proof -
  have "day_number (i div 12) (i mod 12 + 1 + 1) 0 = month_begin (i + 1) - 1"
    by (simp add: day_number_def algebra_simps)
  then have "wall loc (Date loc (i div 12) (i mod 12 + 1 + 1) 0 12 0 0 0)
      = 86400 * (month_begin (i + 1) - 1) + 3600 * 12 + 60 * 0 + 0"
    by (simp add: Date_fixed [OF assms] wall_whole [OF assms])
  from clock_unique(1) [OF this]
  have d: "clock_day (wall loc (Date loc (i div 12) (i mod 12 + 1 + 1) 0 12 0 0 0)) = month_begin (i + 1) - 1"
    by simp
  have "month_of (month_begin (i + 1) - 1) = i"
    by (rule month_of_unique) (use month_length_bounds [of i] in \<open>simp_all add: month_length_def\<close>)
  then have "civil (month_begin (i + 1) - 1) = (i div 12, i mod 12 + 1, month_length i)"
    by (simp add: civil_def Let_def month_length_def)
  then show ?thesis unfolding daysInMonth_def d by simp
qed

lemma monthly_candidate_fixed:
  assumes "fixed_offset off loc" "0 \<le> h" "h < 24" "0 \<le> mi" "mi < 60"
  shows "monthly_candidate loc fd h mi after k =
    (let i = month_of (clock_day (wall loc after)) + k
     in Some ((86400 * (month_begin i + min fd (month_length i) - 1) + 3600 * h + 60 * mi - off) * Second))"
proof -
  define i where "i = month_of (clock_day (wall loc after))"
  have "day_number (i div 12) (i mod 12 + 1 + k) 1 = month_begin (i + k)"
    by (simp add: day_number_def algebra_simps)
  then have "wall loc (Date loc (i div 12) (i mod 12 + 1 + k) 1 h mi 0 0)
      = 86400 * month_begin (i + k) + 3600 * h + 60 * mi + 0"
    by (simp add: Date_fixed [OF assms(1)] wall_whole [OF assms(1)])
  from clock_unique(1) [OF this]
  have d: "clock_day (wall loc (Date loc (i div 12) (i mod 12 + 1 + k) 1 h mi 0 0)) = month_begin (i + k)"
    using assms by simp
  have "month_of (month_begin (i + k)) = i + k"
    by (rule month_of_unique) (use month_length_bounds [of "i + k"] in \<open>simp_all add: month_length_def\<close>)
  then have "civil (clock_day (wall loc (Date loc (i div 12) (i mod 12 + 1 + k) 1 h mi 0 0)))
      = ((i + k) div 12, (i + k) mod 12 + 1, 1)"
    by (simp add: d civil_def Let_def)
  moreover have "civil (clock_day (wall loc after))
      = (i div 12, i mod 12 + 1, clock_day (wall loc after) - month_begin i + 1)"
    by (simp add: civil_def Let_def i_def)
  ultimately show ?thesis
    by (simp add: monthly_candidate_def Let_def daysInMonth_fixed [OF assms(1)] Date_fixed [OF assms(1)]
        day_number_month flip: i_def)
qed

lemma monthly_iff:
  assumes "1 \<le> fd"
  shows "time_of_day fw v \<and> (let (y, m, d) = civil (clock_day v) in d = min fd (month_length (month_of (clock_day v))))
    \<longleftrightarrow> (\<exists>i. v = 86400 * (month_begin i + min fd (month_length i) - 1) + 3600 * clock_hour fw
          + 60 * clock_minute fw)"
    (is "?L \<longleftrightarrow> (\<exists>i. v = ?f i)")
proof
  assume ?L
  then have "v = ?f (month_of (clock_day v))"
    by (simp add: time_of_day_iff civil_def Let_def)
  then show "\<exists>i. v = ?f i" by blast
next
  assume "\<exists>i. v = ?f i"
  then obtain i where v: "v = ?f i" by blast
  then have d: "clock_day v = month_begin i + min fd (month_length i) - 1" by (simp only: clock_day_at)
  have "month_of (clock_day v) = i"
    by (rule month_of_unique) (use assms month_length_bounds [of i] in \<open>auto simp: d month_length_def\<close>)
  then show ?L using v d by (simp add: time_of_day_iff civil_def Let_def)
qed

lemma monthly_earliest:
  assumes "fixed_offset off loc" "1 \<le> fd"
  shows "\<exists>s. first_after (monthly_candidate loc fd (clock_hour fw) (clock_minute fw) after) after [0..14] = Some (s * Second)
    \<and> earliest (\<lambda>v. time_of_day fw v \<and>
        (let (y, m, d) = civil (clock_day v) in d = min fd (month_length (month_of (clock_day v)))))
        (wall loc after) (s + off)"
proof -
  let ?f = "\<lambda>i. 86400 * (month_begin i + min fd (month_length i) - 1) + 3600 * clock_hour fw
    + 60 * clock_minute fw"
  let ?P = "\<lambda>v. time_of_day fw v \<and>
    (let (y, m, d) = civil (clock_day v) in d = min fd (month_length (month_of (clock_day v))))"
  let ?c = "monthly_candidate loc fd (clock_hour fw) (clock_minute fw) after"
  obtain D h m s where w: "wall loc after = 86400 * D + 3600 * h + 60 * m + s" "0 \<le> h" "h < 24" "0 \<le> m"
    "m < 60" "0 \<le> s" "s < 60" "clock_day (wall loc after) = D" by (rule clock_parts [of "wall loc after"])
  note b = clock_bounds [of fw]
  define i0 where "i0 = month_of D"
  have i0: "month_begin i0 \<le> D" "D < month_begin (i0 + 1)" by (simp_all add: i0_def month_of_bounds)
  have c: "?c k = Some ((?f (i0 + k) - off) * Second)" for k
    by (simp add: monthly_candidate_fixed [OF assms(1)] b w(8) Let_def flip: i0_def)
  have P: "?P v \<longleftrightarrow> (\<exists>i \<in> UNIV. v = ?f i)" for v
    using monthly_iff [OF assms(2), of fw v] by simp
  have later: "after < (?f i - off) * Second \<longleftrightarrow> wall loc after < ?f i" for i
    by (simp add: whole_after wall_fixed [OF assms(1)] less_diff_eq)
  have within: "86400 * month_begin i \<le> ?f i \<and> ?f i < 86400 * month_begin (i + 1)" for i
    using month_length_bounds [of i] assms(2) b unfolding month_length_def min_def by (auto simp: not_le)
  have "wall loc after < 86400 * month_begin (i0 + 1)" using w i0 by linarith
  then have "wall loc after < ?f (i0 + 1)" using within [of "i0 + 1"] by linarith
  then have "after < (?f (i0 + 1) - off) * Second" unfolding later .
  then obtain i t where i: "first_after ?c after [0..14] = Some t" "0 \<le> i" "?c i = Some t" "after < t"
    "\<And>j v. 0 \<le> j \<Longrightarrow> j < i \<Longrightarrow> ?c j = Some v \<Longrightarrow> v \<le> after"
    using first_after_upto [of 1 0 14 ?c] c [of 1] by force
  have t: "t = (?f (i0 + i) - off) * Second" using i(3) by (simp add: c)
  have mono: "?f j < ?f k \<Longrightarrow> j < k" for j k
  proof (rule ccontr)
    assume "?f j < ?f k" "\<not> j < k"
    then have "month_begin (k + 1) \<le> month_begin j \<or> j = k"
      using month_begin_less_iff [of j "k + 1"] by linarith
    then show False using within [of j] within [of k] \<open>?f j < ?f k\<close> by auto
  qed
  have "earliest ?P (wall loc after) (?f (i0 + i))"
  proof (rule earliest_enum [where I = UNIV and f = ?f, OF P mono])
    show "wall loc after < ?f (i0 + i)" using i(4) unfolding t later .
  next
    fix j assume j: "j < i0 + i"
    show "?f j \<le> wall loc after"
    proof (cases "j < i0")
      case True
      then have "month_begin (j + 1) \<le> month_begin i0" using month_begin_less_iff [of i0 "j + 1"] by linarith
      then show ?thesis using within [of j] w i0 by linarith
    next
      case False
      then have "(?f j - off) * Second \<le> after" using i(5) [of "j - i0"] j by (simp add: c)
      then show ?thesis using later [of j] by linarith
    qed
  qed simp_all
  then show ?thesis using i(1) t by (intro exI [of _ "?f (i0 + i) - off"]) simp
qed

section \<open>The next occurrence\<close>

lemma earliest_shift:
  "earliest (\<lambda>u. P (u + off)) (now - off) (s::int) \<longleftrightarrow> earliest P now (s + off)"
proof
  assume l: "earliest (\<lambda>u. P (u + off)) (now - off) s"
  show "earliest P now (s + off)"
    unfolding earliest_def
  proof (intro conjI allI impI)
    show "now < s + off" "P (s + off)" using l by (simp_all add: earliest_def)
    fix v assume "now < v \<and> v < s + off"
    then have "now - off < v - off \<and> v - off < s" by linarith
    then show "\<not> P v" using l unfolding earliest_def by (metis diff_add_cancel)
  qed
next
  assume "earliest P now (s + off)"
  then show "earliest (\<lambda>u. P (u + off)) (now - off) s" by (auto simp: earliest_def)
qed

lemma weekday_set_within: "0 \<le> x \<Longrightarrow> x < 7 \<Longrightarrow> \<exists>y \<in> set (weekday_set spec x). 0 \<le> y \<and> y < 7"
proof -
  assume x: "0 \<le> x" "x < 7"
  show ?thesis
  proof (cases "filter (\<lambda>d. 0 \<le> d \<and> d \<le> 6) (sp_Weekdays spec)")
    case Nil then show ?thesis using x by (simp add: weekday_set_def)
  next
    case (Cons y ys)
    then have "y \<in> set (filter (\<lambda>d. 0 \<le> d \<and> d \<le> 6) (sp_Weekdays spec))" by (simp only: list.set_intros)
    then have "0 \<le> y" "y < 7" by simp_all
    then show ?thesis using Cons by (auto simp: weekday_set_def Let_def)
  qed
qed

definition simple_recurrence :: "ScheduleSpec \<Rightarrow> bool" where
  "simple_recurrence spec \<longleftrightarrow> sp_Recurrence spec \<in> {''hourly'', ''daily'', ''weekly'', ''monthly''}"

lemma occurs_eqs:
  "sp_Recurrence spec = ''hourly'' \<Longrightarrow>
     occurs spec fw = (\<lambda>w. clock_minute w = clock_minute fw \<and> clock_second w = 0)"
  "sp_Recurrence spec = ''daily'' \<Longrightarrow> occurs spec fw = time_of_day fw"
  "sp_Recurrence spec = ''weekly'' \<Longrightarrow>
     occurs spec fw = (\<lambda>w. time_of_day fw w \<and> clock_weekday w \<in> set (weekday_set spec (clock_weekday fw)))"
  "sp_Recurrence spec = ''monthly'' \<Longrightarrow> civil (clock_day fw) = (fy, fm, fd) \<Longrightarrow>
     occurs spec fw = (\<lambda>w. time_of_day fw w \<and>
       (let (y, m, d) = civil (clock_day w) in d = min fd (month_length (month_of (clock_day w)))))"
  by (simp_all add: fun_eq_iff occurs_def)

lemma next_in_wall_time:
  assumes zone: "LoadLocation timezone = Some loc" "fixed_offset off loc"
    and due: "sp_FirstRunAt spec \<le> after" "simple_recurrence spec"
  shows "\<exists>s. NextScheduleTime LoadLocation spec timezone after = Inr (s * Second) \<and>
    earliest (occurs spec (wall loc (sp_FirstRunAt spec))) (wall loc after) (s + off)"
proof -
  define fw where "fw = wall loc (sp_FirstRunAt spec)"
  define w where "w = wall loc after"
  obtain fy fm fd where cf: "civil (clock_day fw) = (fy, fm, fd)" by (cases "civil (clock_day fw)")
  obtain y m d where cw: "civil (clock_day w) = (y, m, d)" by (cases "civil (clock_day w)")
  note day = day_number_civil' [OF cw]
  have later: "after < (x - off) * Second \<longleftrightarrow> w < x" for x
    by (simp add: whole_after w_def wall_fixed [OF zone(2)] less_diff_eq)
  have fd: "1 \<le> fd" using cf month_of_bounds [of "clock_day fw"] by (auto simp: civil_def Let_def)
  have ap: "\<not> after < sp_FirstRunAt spec" using due by simp
  note unfold = NextScheduleTime_def zone(1) cf cw ap Let_def fw_def [symmetric] w_def [symmetric]
  from due(2) consider "sp_Recurrence spec = ''hourly''" | "sp_Recurrence spec = ''daily''"
    | "sp_Recurrence spec = ''weekly''" | "sp_Recurrence spec = ''monthly''"
    by (auto simp: simple_recurrence_def)
  then show ?thesis
  proof cases
    case 1
    define c where "c = 86400 * clock_day w + 3600 * clock_hour w + 60 * clock_minute fw"
    have date: "Date loc y m d (clock_hour w) (clock_minute fw) 0 0 = (c - off) * Second"
      by (simp add: Date_fixed [OF zone(2)] day c_def)
    have hour: "(c - off) * Second + Hour = (c + 3600 - off) * Second" by (simp add: Hour_def algebra_simps)
    show ?thesis
      using hourly_earliest [of c w fw] 1 unfolding fw_def [symmetric] occurs_eqs(1) [OF 1]
      by (intro exI [of _ "(if w < c then c else c + 3600) - off"])
        (auto simp: unfold date hour later c_def [symmetric])
  next
    case 2
    define c where "c = 86400 * clock_day w + 3600 * clock_hour fw + 60 * clock_minute fw"
    have date: "Date loc y m d (clock_hour fw) (clock_minute fw) 0 0 = (c - off) * Second"
      by (simp add: Date_fixed [OF zone(2)] day c_def)
    have tomorrow: "AddDate loc 0 0 1 ((c - off) * Second) = (c + 86400 - off) * Second"
      by (simp add: AddDate_days_fixed [OF zone(2)] algebra_simps)
    show ?thesis
      using daily_earliest [of c w fw] 2 unfolding fw_def [symmetric] occurs_eqs(2) [OF 2]
      by (intro exI [of _ "(if w < c then c else c + 86400) - off"])
        (auto simp: unfold date tomorrow later c_def [symmetric])
  next
    case 3
    obtain x where x: "x \<in> set (weekday_set spec (clock_weekday fw))" "0 \<le> x" "x < 7"
      using weekday_set_within [of "clock_weekday fw" spec] clock_bounds [of fw] by blast
    from weekly_earliest [OF zone(2) x, of fw after] 3 show ?thesis
      unfolding fw_def [symmetric] occurs_eqs(3) [OF 3] by (auto simp: unfold)
  next
    case 4
    from monthly_earliest [OF zone(2) fd, of fw after] 4 show ?thesis
      unfolding fw_def [symmetric] occurs_eqs(4) [OF 4 cf] by (auto simp: unfold)
  qed
qed

text \<open>
  C7: the next run of an hourly, daily, weekly or monthly schedule is exactly the next occurrence. In a
  time zone whose offset does not change, from the first run on, \<open>NextScheduleTime\<close> returns a whole
  second after the given moment at which the zone's wall clock reads the minute (and the hour, a chosen
  weekday, or the day of the month, cut to the month's length) of the first run, and no earlier second
  after that moment reads so. It never reports that a schedule cannot be calculated.
\<close>

theorem next_run_is_next_occurrence:
  assumes "LoadLocation timezone = Some loc" "fixed_offset off loc"
    and "sp_FirstRunAt spec \<le> after" "simple_recurrence spec"
  shows "\<exists>s. NextScheduleTime LoadLocation spec timezone after = Inr (s * Second) \<and> after < s * Second \<and>
    earliest (\<lambda>u. occurs spec (wall loc (sp_FirstRunAt spec)) (wall loc (u * Second))) (Unix after) s"
proof -
  have "\<exists>s. NextScheduleTime LoadLocation spec timezone after = Inr (s * Second) \<and>
      earliest (occurs spec (wall loc (sp_FirstRunAt spec))) (wall loc after) (s + off)"
    by (rule next_in_wall_time) (use assms in auto)
  then obtain s where
    s: "NextScheduleTime LoadLocation spec timezone after = Inr (s * Second)"
    "earliest (occurs spec (wall loc (sp_FirstRunAt spec))) (wall loc after) (s + off)" by blast
  have "wall loc (u * Second) = u + off" for u by (rule wall_whole [OF assms(2)])
  moreover have "Unix after = wall loc after - off" by (simp add: wall_fixed [OF assms(2)])
  ultimately have "earliest (\<lambda>u. occurs spec (wall loc (sp_FirstRunAt spec)) (wall loc (u * Second)))
      (Unix after) s"
    using s(2) by (simp only: earliest_shift)
  moreover from this have "after < s * Second" unfolding whole_after by (simp add: earliest_def)
  ultimately show ?thesis using s(1) by blast
qed

section \<open>Cron schedules\<close>

text \<open>No whole minute strictly between the two moments matches.\<close>

definition unmatched :: "cron \<Rightarrow> Location \<Rightarrow> Instant \<Rightarrow> Instant \<Rightarrow> bool" where
  "unmatched c loc a b \<longleftrightarrow> (\<forall>u. u mod Minute = 0 \<and> a < u \<and> u < b \<longrightarrow> \<not> cron_matches c loc u)"

lemma Minute_pos: "0 < Minute"
  by (simp add: Minute_def Second_def)

lemma whole_minute_step: "a mod Minute = 0 \<Longrightarrow> u mod Minute = 0 \<Longrightarrow> a < u \<Longrightarrow> a + Minute \<le> u"
proof -
  assume "a mod Minute = 0" "u mod Minute = 0" and less: "a < u"
  then obtain j k where a: "a = Minute * j" and u: "u = Minute * k" by (metis mod_eq_0_iff_dvd dvdE)
  have "j < k" using less Minute_pos by (simp add: a u)
  then have "Minute * (j + 1) \<le> Minute * k" using Minute_pos by (simp only: mult_le_cancel_left_pos)
  then show ?thesis by (simp add: a u algebra_simps)
qed

lemma unmatched_step:
  "a mod Minute = 0 \<Longrightarrow> \<not> cron_matches c loc (a + Minute) \<Longrightarrow> unmatched c loc (a + Minute) b \<Longrightarrow>
   unmatched c loc a b"
  unfolding unmatched_def by (metis whole_minute_step order_le_less)

definition cron_answer :: "cron \<Rightarrow> Location \<Rightarrow> Instant \<Rightarrow> Instant \<Rightarrow> schedule_error + Instant \<Rightarrow> bool" where
  "cron_answer c loc after deadline answer \<longleftrightarrow>
     (case answer of
        Inr t \<Rightarrow> after < t \<and> t < deadline \<and> t mod Minute = 0 \<and> cron_matches c loc t \<and> unmatched c loc after t
      | Inl e \<Rightarrow> e = ErrCronNever \<and> unmatched c loc after deadline)"

lemma unmatched_none: "a mod Minute = 0 \<Longrightarrow> b \<le> a + Minute \<Longrightarrow> unmatched c loc a b"
  unfolding unmatched_def using whole_minute_step by (metis not_le order_trans)

lemma scan_minutes_answer:
  "candidate = a + Minute \<Longrightarrow> a mod Minute = 0 \<Longrightarrow>
   cron_answer c loc a deadline (scan_minutes c loc deadline candidate)"
proof (induction c loc deadline candidate arbitrary: a rule: scan_minutes.induct)
  case (1 c loc deadline candidate)
  note simps = scan_minutes.simps [of c loc deadline candidate]
  consider "\<not> candidate < deadline" | "candidate < deadline" "cron_matches c loc candidate"
    | "candidate < deadline" "\<not> cron_matches c loc candidate" by blast
  then show ?case
  proof cases
    case 1
    then have "scan_minutes c loc deadline candidate = Inl ErrCronNever" by (simp add: simps)
    moreover have "deadline \<le> a + Minute" using 1 "1.prems" by simp
    ultimately show ?thesis using "1.prems" by (simp add: cron_answer_def unmatched_none)
  next
    case 2
    then have "scan_minutes c loc deadline candidate = Inr candidate" by (simp add: simps)
    then show ?thesis using 2 "1.prems" Minute_pos by (simp add: cron_answer_def unmatched_none)
  next
    case 3
    have whole: "candidate mod Minute = 0" using "1.prems" by simp
    have "cron_answer c loc candidate deadline (scan_minutes c loc deadline (candidate + Minute))"
      by (rule "1.IH" [OF 3 refl whole])
    moreover have "scan_minutes c loc deadline candidate = scan_minutes c loc deadline (candidate + Minute)"
      using 3 by (simp add: simps)
    ultimately show ?thesis
      using 3 "1.prems" Minute_pos unmatched_step [of a c loc]
      by (auto simp: cron_answer_def split: sum.splits)
  qed
qed

lemma cron_answered:
  assumes "parse_cron expression = Inr c"
  shows "cron_answer c loc after (AddDate loc 5 0 0 (Truncate_minute after + Minute))
    (nextCronTime expression loc after)"
proof -
  define a where "a = Truncate_minute after"
  have whole: "a mod Minute = 0" by (simp add: a_def Truncate_minute_def)
  have r: "a + after mod Minute = after" "0 \<le> after mod Minute" "after mod Minute < Minute"
    using Minute_pos by (simp_all add: a_def Truncate_minute_def)
  then have le: "a \<le> after" "after < a + Minute" by linarith+
  have weaken: "unmatched c loc a b \<Longrightarrow> unmatched c loc after b" for b
    using le(1) by (auto simp: unmatched_def)
  have later: "after < t" if "a < t" "t mod Minute = 0" for t
    using whole_minute_step [OF whole that(2,1)] le(2) by linarith
  have "cron_answer c loc a (AddDate loc 5 0 0 (a + Minute)) (nextCronTime expression loc after)"
    using scan_minutes_answer [OF refl whole] by (simp add: nextCronTime_def assms Let_def flip: a_def)
  then show ?thesis unfolding a_def [symmetric]
    using weaken later by (auto simp: cron_answer_def split: sum.splits)
qed

text \<open>
  A cron schedule runs at the first matching minute. In any time zone, for every expression that
  parses, \<open>nextCronTime\<close> returns a whole minute after the given moment, less than five years after it,
  whose wall clock the expression matches, and no whole minute in between matches; the only failure is
  that no minute of those five years matches.
\<close>

theorem cron_runs_at_first_match:
  assumes "parse_cron expression = Inr c"
  shows "cron_answer c loc after (AddDate loc 5 0 0 (Truncate_minute after + Minute))
    (nextCronTime expression loc after)"
  using assms by (rule cron_answered)

section \<open>At a change of the clocks\<close>

text \<open>New York around the end of daylight saving time in 2025: the offset goes from four to five hours.\<close>

definition new_york :: Location where
  "new_york u = (if u < 1762063200 then (- 14400, 1741503600, 1762063200)
     else (- 18000, 1762063200, 1772953200))"

definition hourly_at_half :: ScheduleSpec where
  "hourly_at_half = \<lparr>sp_Recurrence = ''hourly'', sp_FirstRunAt = 1761960600 * Second, sp_Weekdays = [],
     sp_CustomCron = [], sp_OverlapPolicy = ''queue'', sp_MissedPolicy = ''skip'', sp_IncrementalMode = []\<rparr>"

text \<open>
  In the repeated hour the wall clock that \<open>time.Date\<close> takes for half past one is the first of the two,
  and an hour later is the second: at five seconds past the second one the answer lies in the past, so
  the schedule stays due until two o'clock and the scheduler enqueues a job in every pass.
\<close>

lemma hourly_behind_at_clock_change:
  "NextScheduleTime (\<lambda>_. Some new_york) hourly_at_half ''America/New_York'' (1762065005 * Second)
     = Inr (1762065000 * Second)"
  by code_simp

text \<open>Santiago at the start of daylight saving time in 2025: midnight of 7 September does not exist.\<close>

definition santiago :: Location where
  "santiago u = (if u < 1757217600 then (- 14400, 1743908400, 1757217600)
     else (- 10800, 1757217600, 1775358000))"

definition daily_after_midnight :: ScheduleSpec where
  "daily_after_midnight = hourly_at_half\<lparr>sp_Recurrence := ''daily'', sp_FirstRunAt := 1757046600 * Second\<rparr>"

text \<open>
  The run of half past midnight is computed for half past eleven of the evening before, and from then
  to midnight the answer lies in the past.
\<close>

lemma daily_behind_at_clock_change:
  "NextScheduleTime (\<lambda>_. Some santiago) daily_after_midnight ''America/Santiago'' (1757215805 * Second)
     = Inr (1757215800 * Second)"
  by code_simp

definition utc :: Location where
  "utc u = (0, - (2 ^ 62), 2 ^ 62)"

lemma next_run_is_next_occurrence_witness:
  "\<exists>s. NextScheduleTime (\<lambda>_. Some utc) hourly_at_half ''UTC'' (1762065005 * Second) = Inr (s * Second) \<and>
    1762065005 * Second < s * Second \<and>
    earliest (\<lambda>u. occurs hourly_at_half (wall utc (1761960600 * Second)) (wall utc (u * Second)))
      (Unix (1762065005 * Second)) s"
  using next_run_is_next_occurrence [of "\<lambda>_. Some utc" "''UTC''" utc 0 hourly_at_half "1762065005 * Second"]
  by (simp add: fixed_offset_def zone_offset_def utc_def hourly_at_half_def simple_recurrence_def Second_def)

lemma cron_runs_at_first_match_witness:
  "cron_answer \<lparr>cr_minute = \<lparr>cr_any = False, cr_allowed = [7]\<rparr>, cr_hour = \<lparr>cr_any = False, cr_allowed = [4]\<rparr>,
       cr_monthDay = \<lparr>cr_any = False, cr_allowed = [1, 15]\<rparr>,
       cr_month = \<lparr>cr_any = False, cr_allowed = [11]\<rparr>,
       cr_weekday = \<lparr>cr_any = False, cr_allowed = [0]\<rparr>\<rparr>
     new_york (1762065005 * Second) (AddDate new_york 5 0 0 (Truncate_minute (1762065005 * Second) + Minute))
     (nextCronTime ''7 4 1,15 11 0'' new_york (1762065005 * Second))"
proof (rule cron_runs_at_first_match)
  have "Fields (Join_space [''7'', ''4'', ''1,15'', ''11'', ''0'']) = [''7'', ''4'', ''1,15'', ''11'', ''0'']"
    by (rule Fields_Join_space, rule word_ok_printable) (auto simp: printable_def)
  then have "Fields ''7 4 1,15 11 0'' = [''7'', ''4'', ''1,15'', ''11'', ''0'']" by simp
  moreover have "parseCronField ''minute'' ''7'' 0 59 = Inr \<lparr>cr_any = False, cr_allowed = [7]\<rparr>"
    "parseCronField ''hour'' ''4'' 0 23 = Inr \<lparr>cr_any = False, cr_allowed = [4]\<rparr>"
    "parseCronField ''day'' ''1,15'' 1 31 = Inr \<lparr>cr_any = False, cr_allowed = [1, 15]\<rparr>"
    "parseCronField ''month'' ''11'' 1 12 = Inr \<lparr>cr_any = False, cr_allowed = [11]\<rparr>"
    "parseCronField ''weekday'' ''0'' 0 6 = Inr \<lparr>cr_any = False, cr_allowed = [0]\<rparr>"
    by code_simp+
  ultimately show "parse_cron ''7 4 1,15 11 0'' = Inr \<lparr>cr_minute = \<lparr>cr_any = False, cr_allowed = [7]\<rparr>,
      cr_hour = \<lparr>cr_any = False, cr_allowed = [4]\<rparr>, cr_monthDay = \<lparr>cr_any = False, cr_allowed = [1, 15]\<rparr>,
      cr_month = \<lparr>cr_any = False, cr_allowed = [11]\<rparr>, cr_weekday = \<lparr>cr_any = False, cr_allowed = [0]\<rparr>\<rparr>"
    by (simp add: parse_cron_def)
qed

end
