(* ===== verification/ScheduleProperties.thy ===== *)
theory ScheduleProperties
  imports Schedules ScheduleTimeProperties
begin

text \<open>
  The scheduler over its store: every due schedule is served once in a pass, the overlap policy, the
  bound on automatic retries and the single report of each outcome.
\<close>

section \<open>What the operations leave alone\<close>

lemma createScheduleJob_frame:
  assumes "createScheduleJob env now s t k st = Inr (job, st')"
  shows "sd_schedules st' = sd_schedules st" "sd_runs st' = sd_runs st" "sd_run_seq st' = sd_run_seq st"
    "sd_templates st' = sd_templates st"
  using assms by (auto simp: createScheduleJob_def Let_def split: sum.splits option.splits if_splits)

lemma insert_run_simps [simp]:
  "sd_schedules (insert_run sid job state t0 fin k err st) = sd_schedules st"
  "sd_db (insert_run sid job state t0 fin k err st) = sd_db st"
  "sd_templates (insert_run sid job state t0 fin k err st) = sd_templates st"
  "sd_run_seq (insert_run sid job state t0 fin k err st) = sd_run_seq st + 1"
  "sd_runs (insert_run sid job state t0 fin k err st) = sd_runs st @
     [\<lparr>sr_id = sd_run_seq st + 1, sr_schedule_id = sid, sr_job_id = job, sr_state = state,
       sr_scheduled_for = t0, sr_started_at = None, sr_finished_at = fin, sr_attempt = k, sr_error = err\<rparr>]"
  by (simp_all add: insert_run_def)

lemma advance_schedule_simps [simp]:
  "sd_runs (advance_schedule now sid d e n st) = sd_runs st"
  "sd_db (advance_schedule now sid d e n st) = sd_db st"
  "sd_templates (advance_schedule now sid d e n st) = sd_templates st"
  "sd_run_seq (advance_schedule now sid d e n st) = sd_run_seq st"
  by (simp_all add: advance_schedule_def)

lemma find_schedule_id: "find_schedule sid st = Some r \<Longrightarrow> r \<in> set (sd_schedules st) \<and> sh_id r = sid"
  by (auto simp: find_schedule_def find_Some_iff)

lemma find_schedule_row:
  "distinct (map sh_id (sd_schedules st)) \<Longrightarrow> r \<in> set (sd_schedules st) \<Longrightarrow> find_schedule (sh_id r) st = Some r"
  unfolding find_schedule_def
proof (induction "sd_schedules st" arbitrary: st)
  case (Cons a rows)
  then show ?case using Cons.hyps(1) [of "st\<lparr>sd_schedules := rows\<rparr>"]
    by (cases "a = r") (auto simp: Cons.hyps(2) [symmetric] image_iff)
qed simp

section \<open>A pass serves every due schedule once\<close>

text \<open>
  A schedule for which the next occurrence is known to lie ahead: its first run is a whole second, and
  unless it is a cron schedule, its time zone, if known, has a fixed offset.
\<close>

definition steady :: "ScheduleEnv \<Rightarrow> ScheduleRow \<Rightarrow> bool" where
  "steady env r \<longleftrightarrow>
     (case sh_configuration r of
        None \<Rightarrow> True
      | Some spec \<Rightarrow> sp_FirstRunAt spec mod Second = 0 \<and>
          (sp_Recurrence spec = ''cron'' \<or>
           (case sv_LoadLocation env (sh_timezone r) of None \<Rightarrow> True | Some loc \<Rightarrow> \<exists>off. fixed_offset off loc)))"

definition later :: "Instant \<Rightarrow> schedule_error + Instant \<Rightarrow> bool" where
  "later now answer \<longleftrightarrow> (case answer of Inl e \<Rightarrow> True | Inr t \<Rightarrow> t = ZeroTime \<or> Unix now < Unix t)"

lemma Unix_less_whole: "now < t \<Longrightarrow> t mod Second = 0 \<Longrightarrow> Unix now < Unix t"
proof -
  assume l: "now < t" "t mod Second = 0"
  then have "t = Unix t * Second" using div_mult_mod_eq [of t Second] by (simp add: Unix_def)
  then show ?thesis using l(1) whole_after [of now "Unix t"] by simp
qed

lemma minute_whole: "t mod Minute = 0 \<Longrightarrow> t mod Second = 0"
  unfolding Minute_def by (metis dvd_mult_left mod_eq_0_iff_dvd mult.commute)

lemma next_is_later:
  assumes "steady env r" "sh_configuration r = Some spec"
  shows "later now (NextScheduleTime (sv_LoadLocation env) spec (sh_timezone r) now)"
proof (cases "sv_LoadLocation env (sh_timezone r)")
  case None
  then show ?thesis by (simp add: later_def NextScheduleTime_def)
next
  case (Some loc)
  have first: "sp_FirstRunAt spec mod Second = 0" using assms by (simp add: steady_def)
  show ?thesis
  proof (cases "now < sp_FirstRunAt spec")
    case True
    then have "NextScheduleTime (sv_LoadLocation env) spec (sh_timezone r) now = Inr (sp_FirstRunAt spec)"
      by (simp add: NextScheduleTime_def Some Let_def split_def)
    then show ?thesis using Unix_less_whole [OF True first] by (simp add: later_def)
  next
    case False
    consider "simple_recurrence spec" | "sp_Recurrence spec = ''once''" | "sp_Recurrence spec = ''cron''"
      | "\<not> simple_recurrence spec" "sp_Recurrence spec \<noteq> ''once''" "sp_Recurrence spec \<noteq> ''cron''" by blast
    then show ?thesis
    proof cases
      case 1
      then have "sp_Recurrence spec \<noteq> ''cron''" by (auto simp: simple_recurrence_def)
      then obtain off where "fixed_offset off loc" using assms Some by (auto simp: steady_def)
      then have "\<exists>s. NextScheduleTime (sv_LoadLocation env) spec (sh_timezone r) now = Inr (s * Second) \<and>
          earliest (occurs spec (wall loc (sp_FirstRunAt spec))) (wall loc now) (s + off)"
        using next_in_wall_time [of "sv_LoadLocation env" "sh_timezone r" loc off spec now]
          Some False 1 \<open>fixed_offset off loc\<close> by simp
      then obtain s where "NextScheduleTime (sv_LoadLocation env) spec (sh_timezone r) now = Inr (s * Second)"
        "wall loc now < s + off" by (auto simp: earliest_def)
      then show ?thesis using \<open>fixed_offset off loc\<close> by (simp add: later_def wall_fixed)
    next
      case 2
      then show ?thesis using False by (simp add: later_def NextScheduleTime_def Some Let_def split_def)
    next
      case 3
      have eq: "NextScheduleTime (sv_LoadLocation env) spec (sh_timezone r) now
          = nextCronTime (sp_CustomCron spec) loc now"
        using 3 False by (simp add: NextScheduleTime_def Some Let_def split_def)
      show ?thesis
      proof (cases "parse_cron (sp_CustomCron spec)")
        case (Inl e) then show ?thesis by (simp add: eq later_def nextCronTime_def)
      next
        case (Inr c)
        from cron_answered [OF this, of loc now] show ?thesis
          by (auto simp: eq later_def cron_answer_def intro!: Unix_less_whole minute_whole split: sum.splits)
      qed
    next
      case 4
      then show ?thesis using False
        by (auto simp: later_def NextScheduleTime_def Some Let_def split_def simple_recurrence_def)
    qed
  qed
qed

text \<open>What a pass does with one due schedule.\<close>

definition served :: "string \<times> int \<Rightarrow> Store \<Rightarrow> Store \<Rightarrow> bool" where
  "served item st st' \<longleftrightarrow>
     (\<exists>run. sd_runs st' = sd_runs st @ [run] \<and> sr_schedule_id run = fst item \<and> sr_scheduled_for run = snd item \<and>
       sr_attempt run = 1)"

definition others_kept :: "string \<Rightarrow> Store \<Rightarrow> Store \<Rightarrow> bool" where
  "others_kept sid st st' \<longleftrightarrow>
     (\<exists>f. sd_schedules st' = update_where (\<lambda>r. sh_id r = sid) f (sd_schedules st) \<and> (\<forall>r. sh_id (f r) = sh_id r))"

lemma update_where_subset:
  "update_where p f rows = update_where q (\<lambda>r. if p r then f r else r) rows" if "\<And>r. p r \<Longrightarrow> q r"
  using that by (induction rows) auto

lemma enqueueSchedule_run:
  assumes "enqueueSchedule env now s t0 st = Inr (job, st1)"
  shows "sd_runs st1 = sd_runs st @
    [\<lparr>sr_id = sd_run_seq st + 1, sr_schedule_id = sc_ID s, sr_job_id = Some (job_ID job), sr_state = ''queued'',
      sr_scheduled_for = Unix t0, sr_started_at = None, sr_finished_at = None, sr_attempt = 1, sr_error = []\<rparr>]"
    "sd_schedules st1 = sd_schedules st" "sd_run_seq st1 = sd_run_seq st + 1"
proof -
  obtain st0 where c: "createScheduleJob env now s t0 1 st = Inr (job, st0)"
    and st1: "st1 = insert_run (sc_ID s) (Some (job_ID job)) ''queued'' (Unix t0) None 1 [] st0"
    using assms by (auto simp: enqueueSchedule_def split: sum.splits prod.splits)
  show "sd_runs st1 = sd_runs st @
    [\<lparr>sr_id = sd_run_seq st + 1, sr_schedule_id = sc_ID s, sr_job_id = Some (job_ID job), sr_state = ''queued'',
      sr_scheduled_for = Unix t0, sr_started_at = None, sr_finished_at = None, sr_attempt = 1, sr_error = []\<rparr>]"
    "sd_schedules st1 = sd_schedules st" "sd_run_seq st1 = sd_run_seq st + 1"
    by (simp_all add: st1 createScheduleJob_frame [OF c])
qed

lemma due_next: "due now r \<Longrightarrow> sh_enabled r \<and> sh_next_run_at r = Some (the (sh_next_run_at r))"
  by (auto simp: due_def split: option.splits)

lemma one_schedule_changed:
  assumes "distinct (map sh_id (sd_schedules st))" "r \<in> set (sd_schedules st)"
    and st': "sd_schedules st' = update_where p f (sd_schedules st)"
    and p: "p r" "\<And>q. p q \<Longrightarrow> sh_id q = sh_id r" and f: "\<And>q. sh_id (f q) = sh_id q" "\<not> due now (f r)"
  shows "others_kept (sh_id r) st st' \<and> (\<forall>q \<in> set (sd_schedules st'). sh_id q = sh_id r \<longrightarrow> \<not> due now q)"
proof
  have "sd_schedules st' = update_where (\<lambda>q. sh_id q = sh_id r) (\<lambda>q. if p q then f q else q) (sd_schedules st)"
    unfolding st' by (rule update_where_subset) (rule p(2))
  then show "others_kept (sh_id r) st st'"
    unfolding others_kept_def using f(1) by (intro exI [of _ "\<lambda>q. if p q then f q else q"]) simp
  have only: "q = r" if "q \<in> set (sd_schedules st)" "sh_id q = sh_id r" for q
    using that assms(1,2) by (metis find_schedule_row option.inject)
  show "\<forall>q \<in> set (sd_schedules st'). sh_id q = sh_id r \<longrightarrow> \<not> due now q"
    using only p(1) f by (force simp: st' set_update_where)
qed

lemma quarantine_served:
  assumes "r \<in> set (sd_schedules st)" "due now r" "distinct (map sh_id (sd_schedules st))"
  defines "d \<equiv> the (sh_next_run_at r)"
  shows "served (sh_id r, d) st (quarantineDueSchedule env (sh_id r) d now cause st) \<and>
    others_kept (sh_id r) st (quarantineDueSchedule env (sh_id r) d now cause st) \<and>
    (\<forall>q \<in> set (sd_schedules (quarantineDueSchedule env (sh_id r) d now cause st)).
      sh_id q = sh_id r \<longrightarrow> \<not> due now q)"
proof -
  let ?hit = "\<lambda>q. sh_id q = sh_id r \<and> sh_enabled q \<and> sh_next_run_at q = Some d"
  let ?set = "\<lambda>q. q\<lparr>sh_enabled := False, sh_next_run_at := None, sh_last_run_at := Some now, sh_updated_at := now\<rparr>"
  have hit: "?hit r" using due_next [OF assms(2)] by (simp add: d_def)
  then have n: "count_where ?hit (sd_schedules st) \<noteq> 0" using assms(1) by (auto simp: count_where_0)
  show ?thesis
    unfolding quarantineDueSchedule_def Let_def if_not_P [OF n]
    by (intro conjI [OF _ one_schedule_changed [where p = ?hit and f = ?set, OF assms(3,1) _ hit]])
      (auto simp: served_def due_def)
qed

lemma advance_served:
  assumes "r \<in> set (sd_schedules st)" "due (Unix now) r" "distinct (map sh_id (sd_schedules st))"
    and "sd_schedules st1 = sd_schedules st" "enabled \<Longrightarrow> Unix now < Unix nx"
  defines "d \<equiv> the (sh_next_run_at r)"
  shows "others_kept (sh_id r) st (advance_schedule (Unix now) (sh_id r) d enabled nx st1) \<and>
    (\<forall>q \<in> set (sd_schedules (advance_schedule (Unix now) (sh_id r) d enabled nx st1)).
      sh_id q = sh_id r \<longrightarrow> \<not> due (Unix now) q)"
proof -
  let ?hit = "\<lambda>q. sh_id q = sh_id r \<and> sh_next_run_at q = Some d"
  let ?set = "\<lambda>q. q\<lparr>sh_enabled := enabled, sh_next_run_at := (if enabled then Some (Unix nx) else None),
    sh_last_run_at := Some (Unix now), sh_updated_at := Unix now\<rparr>"
  have hit: "?hit r" using due_next [OF assms(2)] by (simp add: d_def)
  show ?thesis
    unfolding advance_schedule_def
    by (rule one_schedule_changed [where p = ?hit and f = ?set, OF assms(3,1) _ hit]) (use assms(4,5) in \<open>auto simp: due_def\<close>)
qed

lemma start_one_served:
  assumes ids: "distinct (map sh_id (sd_schedules st))"
    and r: "r \<in> set (sd_schedules st)" "due (Unix now) r" "steady env r"
    and res: "start_one env now (sh_id r, the (sh_next_run_at r)) st = Inr (job, st')"
  shows "served (sh_id r, the (sh_next_run_at r)) st st' \<and> others_kept (sh_id r) st st' \<and>
    (\<forall>q \<in> set (sd_schedules st'). sh_id q = sh_id r \<longrightarrow> \<not> due (Unix now) q)"
proof -
  let ?d = "the (sh_next_run_at r)"
  note quarantine = quarantine_served [OF r(1,2) ids]
  have f: "find_schedule (sh_id r) st = Some r" by (rule find_schedule_row [OF ids r(1)])
  show ?thesis
  proof (cases "sh_configuration r")
    case None
    then have "getSchedule (sh_id r) st = Inl (ErrDecodeSchedule (sh_id r))"
      by (simp add: getSchedule_def f scanSchedule_def)
    then show ?thesis using res quarantine by (auto simp: start_one_def)
  next
    case (Some spec)
    then obtain s where s: "getSchedule (sh_id r) st = Inr s" "sc_ID s = sh_id r" "sc_Spec s = spec"
      "sc_Timezone s = sh_timezone r" "sc_Enabled s = sh_enabled r"
      by (simp add: getSchedule_def f scanSchedule_def)
    have ahead: "later now (NextScheduleTime (sv_LoadLocation env) spec (sh_timezone r) now)"
      by (rule next_is_later [OF r(3) Some])
    show ?thesis
    proof (cases "NextScheduleTime (sv_LoadLocation env) spec (sh_timezone r) now")
      case (Inl e)
      then show ?thesis using res quarantine by (auto simp: start_one_def s)
    next
      case (Inr nx)
      define enabled where "enabled = (sh_enabled r \<and> nx \<noteq> ZeroTime)"
      have ahead': "enabled \<Longrightarrow> Unix now < Unix nx" using ahead Inr by (simp add: later_def enabled_def)
      note advance = advance_served [where enabled = enabled and nx = nx, OF r(1,2) ids _ ahead']
      define reason where "reason = skip_reason now s ?d st"
      show ?thesis
      proof (cases "reason = []")
        case False
        then have "st' = advance_schedule (Unix now) (sh_id r) ?d enabled nx
            (insert_run (sh_id r) None ''skipped'' ?d (Some (Unix now)) 1 reason st)"
          using res by (simp add: start_one_def s Inr Let_def flip: reason_def enabled_def)
        then show ?thesis using advance [OF insert_run_simps(1)] by (simp add: served_def)
      next
        case True
        show ?thesis
        proof (cases "enqueueSchedule env (Unix now) s (of_unix ?d) st")
          case (Inl e)
          then show ?thesis using res quarantine True
            by (auto simp: start_one_def s Inr Let_def simp flip: reason_def enabled_def split: store_error.splits)
        next
          case q: (Inr js)
          obtain j st1 where js: "js = (j, st1)" by (cases js)
          then have st': "st' = advance_schedule (Unix now) (sh_id r) ?d enabled nx st1"
            using res True q by (simp add: start_one_def s Inr Let_def flip: reason_def enabled_def)
          note run = enqueueSchedule_run [OF q [unfolded js]]
          show ?thesis unfolding st' using advance [OF run(2)] run(1) by (simp add: served_def s of_unix_def)
        qed
      qed
    qed
  qed
qed

definition item_of :: "ScheduleRow \<Rightarrow> string \<times> int" where
  "item_of r = (sh_id r, the (sh_next_run_at r))"

definition run_item :: "RunRow \<Rightarrow> string \<times> int" where
  "run_item r = (sr_schedule_id r, sr_scheduled_for r)"

lemma others_kept_ids: "others_kept sid st st' \<Longrightarrow> map sh_id (sd_schedules st') = map sh_id (sd_schedules st)"
  unfolding others_kept_def update_where_def by (auto intro: map_cong)

lemma others_kept_row:
  "others_kept sid st st' \<Longrightarrow> sh_id q \<noteq> sid \<Longrightarrow> q \<in> set (sd_schedules st') \<longleftrightarrow> q \<in> set (sd_schedules st)"
  unfolding others_kept_def by (auto simp: set_update_where image_iff)

lemma start_each_serves:
  assumes "start_each env now (map item_of rows) st = Inr (jobs, st')"
    and "distinct (map sh_id (sd_schedules st))" "set rows \<subseteq> set (sd_schedules st)" "distinct (map sh_id rows)"
    and "\<forall>r \<in> set rows. due (Unix now) r \<and> steady env r"
  shows "(\<exists>new. sd_runs st' = sd_runs st @ new \<and> map run_item new = map item_of rows) \<and>
    (\<forall>q \<in> set (sd_schedules st'). sh_id q \<in> sh_id ` set rows \<longrightarrow> \<not> due (Unix now) q) \<and>
    (\<forall>q. sh_id q \<notin> sh_id ` set rows \<longrightarrow> q \<in> set (sd_schedules st') \<longleftrightarrow> q \<in> set (sd_schedules st))"
  using assms
proof (induction rows arbitrary: st jobs)
  case (Cons r rows)
  from Cons.prems(1) obtain job st1 jobs1 where one: "start_one env now (item_of r) st = Inr (job, st1)"
    and rest: "start_each env now (map item_of rows) st1 = Inr (jobs1, st')"
    by (auto split: sum.splits)
  have r: "r \<in> set (sd_schedules st)" "due (Unix now) r" "steady env r" using Cons.prems by auto
  note step = start_one_served [OF Cons.prems(2) r one [unfolded item_of_def]]
  have kept: "others_kept (sh_id r) st st1" using step by blast
  have ids: "distinct (map sh_id (sd_schedules st1))"
    using Cons.prems(2) others_kept_ids [OF kept] by simp
  have new_rows: "set rows \<subseteq> set (sd_schedules st1)"
  proof
    fix q assume q: "q \<in> set rows"
    then have "sh_id q \<in> sh_id ` set rows" by (rule imageI)
    then have "sh_id q \<noteq> sh_id r" using Cons.prems(4) by (auto simp only: list.map distinct.simps list.set_map)
    then show "q \<in> set (sd_schedules st1)" using others_kept_row [OF kept] q Cons.prems(3) by auto
  qed
  have "(\<exists>new. sd_runs st' = sd_runs st1 @ new \<and> map run_item new = map item_of rows) \<and>
    (\<forall>q \<in> set (sd_schedules st'). sh_id q \<in> sh_id ` set rows \<longrightarrow> \<not> due (Unix now) q) \<and>
    (\<forall>q. sh_id q \<notin> sh_id ` set rows \<longrightarrow> q \<in> set (sd_schedules st') \<longleftrightarrow> q \<in> set (sd_schedules st1))"
    by (rule Cons.IH [OF rest ids new_rows]) (use Cons.prems(4,5) in auto)
  then obtain new where new: "sd_runs st' = sd_runs st1 @ new" "map run_item new = map item_of rows"
    and not_due: "\<And>q. q \<in> set (sd_schedules st') \<Longrightarrow> sh_id q \<in> sh_id ` set rows \<Longrightarrow> \<not> due (Unix now) q"
    and same: "\<And>q. sh_id q \<notin> sh_id ` set rows \<Longrightarrow> q \<in> set (sd_schedules st') \<longleftrightarrow> q \<in> set (sd_schedules st1)"
    by blast
  from step obtain run where run: "sd_runs st1 = sd_runs st @ [run]" "run_item run = item_of r"
    by (auto simp: served_def run_item_def item_of_def)
  have out: "sh_id r \<notin> sh_id ` set rows" using Cons.prems(4) by simp
  show ?case
  proof (intro conjI ballI allI impI)
    show "\<exists>new. sd_runs st' = sd_runs st @ new \<and> map run_item new = map item_of (r # rows)"
      using new run by (intro exI [of _ "run # new"]) simp
  next
    fix q :: ScheduleRow
    assume q: "q \<in> set (sd_schedules st')" "sh_id q \<in> sh_id ` set (r # rows)"
    show "\<not> due (Unix now) q"
    proof (cases "sh_id q = sh_id r")
      case True
      then have "q \<in> set (sd_schedules st1)" using same [of q] q(1) out by simp
      then show ?thesis using step True by blast
    next
      case False
      then show ?thesis using not_due q by auto
    qed
  next
    fix q :: ScheduleRow
    assume "sh_id q \<notin> sh_id ` set (r # rows)"
    then show "q \<in> set (sd_schedules st') \<longleftrightarrow> q \<in> set (sd_schedules st)"
      using same [of q] others_kept_row [OF kept] by auto
  qed
qed simp

section \<open>A store to evaluate on\<close>

text \<open>A schedule due once, whose job fails for want of a browser and is retried.\<close>

definition demo_spec :: ScheduleSpec where
  "demo_spec = \<lparr>sp_Recurrence = ''once'', sp_FirstRunAt = 1000 * Second, sp_Weekdays = [], sp_CustomCron = [],
     sp_OverlapPolicy = ''queue'', sp_MissedPolicy = ''run'', sp_IncrementalMode = []\<rparr>"

definition demo_row :: ScheduleRow where
  "demo_row = \<lparr>sh_id = ''s'', sh_name = ''n'', sh_template_id = Some ''t'', sh_cron_expression = ''once'',
     sh_timezone = ''UTC'', sh_enabled = True, sh_overlap_policy = ''queue'', sh_missed_run_policy = ''run'',
     sh_configuration = Some demo_spec, sh_next_run_at = Some 1000, sh_last_run_at = None, sh_retry_count = 3,
     sh_retry_backoff_seconds = 60, sh_auto_export_format = [], sh_runs_retention_days = 0, sh_created_at = 0,
     sh_updated_at = 0\<rparr>"

definition demo_env :: ScheduleEnv where
  "demo_env = \<lparr>sv_env = \<lparr>RedactString = (\<lambda>s. s), RedactValue = (\<lambda>c. c), Sum256 = (\<lambda>s. s)\<rparr>, sv_LoadLocation = (\<lambda>_. Some utc),
     sv_Unmarshal = (\<lambda>s. Some \<lparr>td_IncrementalMode = [], td_TemplateID = [], td_rest = s\<rparr>),
     sv_Marshal = (\<lambda>d. Some (td_rest d)), sv_ApplyJobParameters = Inr, sv_Validate = (\<lambda>_. None),
     sv_NewString = (\<lambda>n. replicate (Suc n) (CHR ''j'')), sv_ErrorText = (\<lambda>_. ''error'')\<rparr>"

definition no_jobs :: Db where
  "no_jobs = \<lparr>db_jobs = [], db_runtime = [], db_progress = [], db_tasks = [], db_checkpoints = [],
     db_events = [], db_configs = [], db_event_seq = 0, db_checkpoint_seq = 0\<rparr>"

definition demo_templates :: "TemplateRow list" where
  "demo_templates = [\<lparr>tp_id = ''t'', tp_name = ''x'', tp_configuration = ''{}''\<rparr>]"

definition demo_store :: Store where
  "demo_store = \<lparr>sd_db = no_jobs, sd_schedules = [demo_row], sd_runs = [], sd_run_seq = 0,
     sd_templates = demo_templates, sd_audit = [], sd_uuids = 0\<rparr>"


lemma demo_env_simps:
  "sv_LoadLocation demo_env z = Some utc"
  "sv_Unmarshal demo_env c = Some \<lparr>td_IncrementalMode = [], td_TemplateID = [], td_rest = c\<rparr>"
  "sv_Marshal demo_env d = Some (td_rest d)" "sv_ApplyJobParameters demo_env d = Inr d" "sv_Validate demo_env d = None"
  "sv_NewString demo_env n = replicate (Suc n) (CHR ''j'')" "RedactString (sv_env demo_env) = (\<lambda>s. s)"
  by (simp_all add: demo_env_def)

lemma demo_created:
  assumes "sd_db st = no_jobs" "sd_templates st = demo_templates" "sc_TemplateID s = ''t''"
    "sp_IncrementalMode (sc_Spec s) = []" "sc_Name s \<noteq> []"
  obtains job st1 where "createScheduleJob demo_env now s t0 k st = Inr (job, st1)"
    "job_ID job = replicate (Suc (sd_uuids st)) (CHR ''j'')" "\<exists>db. st1 = st\<lparr>sd_db := db, sd_uuids := Suc (sd_uuids st)\<rparr>"
proof -
  have trim: "TrimSpace [] = []" by code_simp
  have state: "lifecycleStateFromLegacyStatus ''pending'' = StateQueued" by code_simp
  have valid: "ParseState ''queued'' = Inr StateQueued" "Stage_Valid StagePreparingQueries" "StopReason_Valid StopReasonNone"
    "LegacyStatusForState StateQueued = Inr LegacyStatusPending" "string_of_LegacyStatus LegacyStatusPending = ''pending''"
    by code_simp+
  have d: "schedule_data demo_env s st = Inr \<lparr>td_IncrementalMode = [], td_TemplateID = ''t'', td_rest = ''{}''\<rparr>"
    using assms by (simp add: schedule_data_def getTemplateConfiguration_def demo_templates_def demo_env_simps trim)
  have "\<exists>job st1. createScheduleJob demo_env now s t0 k st = Inr (job, st1) \<and>
      job_ID job = replicate (Suc (sd_uuids st)) (CHR ''j'') \<and> (\<exists>db. st1 = st\<lparr>sd_db := db, sd_uuids := Suc (sd_uuids st)\<rparr>)"
    using assms(1,5) by (auto simp: createScheduleJob_def d job_error_def demo_env_simps run_name_def jobToRow_def find_job_def
      find_runtime_def find_progress_def upsertJobFoundation_def applyLegacyRuntimeProjection_def
      nextQueueSequence_def max_queue_seq_def no_jobs_def Let_def new_runtime_def new_progress_def
      state valid readRuntime_def projectedState_def)
  then show ?thesis using that by blast
qed


definition demo_runtime :: RuntimeRow where
  "demo_runtime = (new_runtime ''j'' StateQueued StagePreparingQueries [] (lifecycleProgress StateQueued) 1 None None [] 0 0)
     \<lparr>rt_state := StateFailed, rt_message := ''no browser''\<rparr>"

definition demo_run :: "string \<Rightarrow> RunRow" where
  "demo_run state = \<lparr>sr_id = 1, sr_schedule_id = ''s'', sr_job_id = Some ''j'', sr_state = state, sr_scheduled_for = 1000,
     sr_started_at = None, sr_finished_at = None, sr_attempt = 1, sr_error = []\<rparr>"

definition failed_jobs :: Db where
  "failed_jobs = no_jobs\<lparr>db_runtime := [demo_runtime],
     db_jobs := [\<lparr>jb_id = ''j'', jb_name = ''n'', jb_status = ''failed'', jb_data = ''{}'', jb_created_at = 1003,
       jb_updated_at = 1003\<rparr>]\<rparr>"

definition demo_running :: Store where
  "demo_running = demo_store\<lparr>sd_db := failed_jobs,
     sd_schedules := [demo_row\<lparr>sh_enabled := False, sh_next_run_at := None, sh_last_run_at := Some 1003,
       sh_updated_at := 1003\<rparr>], sd_runs := [demo_run ''queued''], sd_run_seq := 1, sd_uuids := 1\<rparr>"

definition demo_settled :: Store where
  "demo_settled = demo_running\<lparr>sd_db := no_jobs, sd_run_seq := 2, sd_runs :=
     [(demo_run ''failed'')\<lparr>sr_job_id := None, sr_finished_at := Some 1100, sr_error := ''no browser''\<rparr>,
      \<lparr>sr_id = 2, sr_schedule_id = ''s'', sr_job_id = None, sr_state = ''retry_pending'', sr_scheduled_for = 1160,
       sr_started_at = None, sr_finished_at = None, sr_attempt = 2, sr_error = []\<rparr>]\<rparr>"

lemma demo_started:
  obtains job db where
    "StartDueSchedules demo_env (1003 * Second) 10 demo_store = (Inr [job], demo_running\<lparr>sd_db := db\<rparr>)"
proof -
  obtain s where s: "getSchedule ''s'' demo_store = Inr s" "sc_ID s = ''s''" "sc_TemplateID s = ''t''"
    "sc_Spec s = demo_spec" "sc_Name s = ''n''" "sc_Timezone s = ''UTC''" "sc_Enabled s"
    by (simp add: getSchedule_def find_schedule_def demo_store_def demo_row_def scanSchedule_def)
  have nx: "NextScheduleTime (sv_LoadLocation demo_env) demo_spec ''UTC'' (1003 * Second) = Inr ZeroTime"
    by code_simp
  have reason: "skip_reason (1003 * Second) s 1000 demo_store = []"
    by (simp add: skip_reason_def s demo_spec_def)
  obtain job st0 where c: "createScheduleJob demo_env 1003 s (of_unix 1000) 1 demo_store = Inr (job, st0)"
    and id: "job_ID job = ''j''" and ex: "\<exists>db. st0 = demo_store\<lparr>sd_db := db, sd_uuids := 1\<rparr>"
    by (rule demo_created [of demo_store s 1003 "of_unix 1000" 1]) (simp_all add: demo_store_def s demo_spec_def)
  obtain db where st0: "st0 = demo_store\<lparr>sd_db := db, sd_uuids := 1\<rparr>" using ex by blast
  have "start_one demo_env (1003 * Second) (''s'', 1000) demo_store = Inr (Some job, advance_schedule 1003 ''s'' 1000 False
      ZeroTime (insert_run ''s'' (Some ''j'') ''queued'' 1000 None 1 [] st0))"
    by (simp add: start_one_def s nx reason enqueueSchedule_def c [unfolded of_unix_def] id of_unix_def)
  then have one: "start_one demo_env (1003 * Second) (''s'', 1000) demo_store = Inr (Some job, demo_running\<lparr>sd_db := db\<rparr>)"
    by (simp add: st0 insert_run_def advance_schedule_def demo_running_def demo_store_def demo_row_def demo_run_def)
  have due: "dueSchedules 1003 10 demo_store = [(''s'', 1000)]" by code_simp
  show thesis by (rule that) (simp add: StartDueSchedules_def pass_limit_def due one)
qed

lemma demo_completed:
  obtains c st where "CompleteScheduleRuns demo_env (1100 * Second) demo_running = ([c], st)" "co_RunID c = 1"
    "set_jobs no_jobs st = demo_settled"
proof -
  have f: "finishedRuns demo_running = [(demo_run ''queued'', hd (sd_schedules demo_running), demo_runtime)]"
    by (simp add: finishedRuns_def demo_running_def demo_run_def find_schedule_def demo_row_def run_runtime_def
      find_runtime_def failed_jobs_def demo_runtime_def new_runtime_def finished_states_def List.map_filter_simps)
  have retry: "ScheduleRetryAllowed 3 1" "ScheduleRetryDelay 60 1 = 60 * Second" by code_simp+
  have gone: "find_job j no_jobs = None" for j by (simp add: find_job_def no_jobs_def)
  have "\<exists>c st. CompleteScheduleRuns demo_env (1100 * Second) demo_running = ([c], st) \<and> co_RunID c = 1 \<and>
    set_jobs no_jobs st = demo_settled"
    unfolding CompleteScheduleRuns_def f
    by (simp add: settle_run_def Let_def demo_running_def demo_run_def demo_row_def demo_runtime_def new_runtime_def
      retry insert_run_def set_settled_def demo_settled_def demo_env_simps set_jobs_def gone)
  then show thesis using that by blast
qed

lemma demo_retried:
  obtains job st where "StartDueScheduleRetries demo_env (1200 * Second) 10 demo_settled = (Inr [job], st)"
proof -
  let ?r = "\<lparr>sr_id = 2, sr_schedule_id = ''s'', sr_job_id = None, sr_state = ''retry_pending'', sr_scheduled_for = 1160,
       sr_started_at = None, sr_finished_at = None, sr_attempt = 2, sr_error = []\<rparr>"
  have due: "dueRetries 1200 10 demo_settled = [?r]"
    by (simp add: dueRetries_def demo_settled_def demo_run_def)
  obtain s where s: "getSchedule ''s'' demo_settled = Inr s" "sc_TemplateID s = ''t''" "sc_Spec s = demo_spec"
    "sc_Name s = ''n''"
    by (simp add: getSchedule_def find_schedule_def demo_settled_def demo_running_def demo_row_def scanSchedule_def)
  obtain job st0 where "createScheduleJob demo_env 1200 s (of_unix 1160) 2 demo_settled = Inr (job, st0)"
    by (rule demo_created [of demo_settled s 1200 "of_unix 1160" 2])
      (simp_all add: demo_settled_def demo_running_def demo_store_def s demo_spec_def)
  then obtain st1 where "retry_one demo_env (1200 * Second) ?r demo_settled = Inr (Some job, st1)"
    by (simp add: retry_one_def s)
  then show thesis by (intro that) (simp add: StartDueScheduleRetries_def pass_limit_def due)
qed

section \<open>The pass over the due schedules\<close>

text \<open>
  C22: a pass of the scheduler serves every due schedule exactly once. The runs a successful pass adds
  are, in order, one for each of the first due schedules up to its limit, recorded for the moment it was
  due; and afterwards none of these schedules is due any more at the same moment, so the next pass does
  not start it again. Schedules have different identifiers, and every due one is steady: the first run
  of its configuration is a whole second, and it is a cron schedule or its time zone, when it can be
  loaded, has a fixed offset. At a change of the clocks the last part fails.
\<close>

theorem pass_serves_due_schedules_once:
  assumes "distinct (map sh_id (sd_schedules st))"
    and "\<forall>r \<in> set (sd_schedules st). due (Unix now) r \<longrightarrow> steady env r"
    and "StartDueSchedules env now limit st = (Inr jobs, st')"
  shows "(\<exists>new. sd_runs st' = sd_runs st @ new \<and>
      map run_item new = dueSchedules (Unix now) (pass_limit limit) st) \<and>
    (\<forall>q \<in> set (sd_schedules st'). sh_id q \<in> fst ` set (dueSchedules (Unix now) (pass_limit limit) st) \<longrightarrow>
      \<not> due (Unix now) q)"
proof -
  define rows where "rows = take (nat (pass_limit limit)) (sort_key (\<lambda>r. the (sh_next_run_at r))
    (sort_key sh_id (filter (due (Unix now)) (sd_schedules st))))"
  have items: "dueSchedules (Unix now) (pass_limit limit) st = map item_of rows"
    by (simp add: dueSchedules_def rows_def item_of_def)
  have each: "start_each env now (map item_of rows) st = Inr (jobs, st')"
    using assms(3) by (auto simp: StartDueSchedules_def items split: sum.splits prod.splits)
  have sub: "set rows \<subseteq> set (filter (due (Unix now)) (sd_schedules st))"
    unfolding rows_def by (metis set_take_subset set_sort)
  have "distinct (map sh_id rows)"
    unfolding rows_def using assms(1)
    by (auto simp: distinct_map intro: inj_on_subset dest!: set_take_subset [THEN subsetD])
  then have "(\<exists>new. sd_runs st' = sd_runs st @ new \<and> map run_item new = map item_of rows) \<and>
    (\<forall>q \<in> set (sd_schedules st'). sh_id q \<in> sh_id ` set rows \<longrightarrow> \<not> due (Unix now) q) \<and>
    (\<forall>q. sh_id q \<notin> sh_id ` set rows \<longrightarrow> q \<in> set (sd_schedules st') \<longleftrightarrow> q \<in> set (sd_schedules st))"
    by (intro start_each_serves [OF each assms(1)]) (use sub assms(2) in auto)
  moreover have "fst ` set (map item_of rows) = sh_id ` set rows" by (force simp: item_of_def)
  ultimately show ?thesis by (simp add: items)
qed

lemma pass_serves_due_schedules_once_witness:
  "\<exists>job st'. StartDueSchedules demo_env (1003 * Second) 10 demo_store = (Inr [job], st') \<and>
    (\<exists>new. sd_runs st' = sd_runs demo_store @ new \<and>
      map run_item new = dueSchedules (Unix (1003 * Second)) (pass_limit 10) demo_store) \<and>
    (\<forall>q \<in> set (sd_schedules st').
      sh_id q \<in> fst ` set (dueSchedules (Unix (1003 * Second)) (pass_limit 10) demo_store) \<longrightarrow>
      \<not> due (Unix (1003 * Second)) q)"
proof -
  obtain job db where r:
    "StartDueSchedules demo_env (1003 * Second) 10 demo_store = (Inr [job], demo_running\<lparr>sd_db := db\<rparr>)"
    by (rule demo_started)
  have "distinct (map sh_id (sd_schedules demo_store))"
    "\<forall>r \<in> set (sd_schedules demo_store). due (Unix (1003 * Second)) r \<longrightarrow> steady demo_env r"
    by (auto simp: demo_store_def steady_def demo_row_def demo_spec_def demo_env_simps fixed_offset_def
      zone_offset_def utc_def)
  from pass_serves_due_schedules_once [OF this r] r show ?thesis by blast
qed

text \<open>
  The poll pass cancels the active job of a due schedule that replaces its runs before it looks at the
  missed-run policy: after an outage the job is cancelled and the new run is skipped, so that nothing
  takes its place.
\<close>

lemma replaced_job_without_replacement:
  assumes "distinct (map sh_id (sd_schedules st))" "r \<in> set (sd_schedules st)" "due (Unix now) r"
    and "sh_overlap_policy r = ScheduleOverlapReplace" "sh_configuration r = Some spec" "sp_MissedPolicy spec = ''skip''"
    and "Minute < now - of_unix (the (sh_next_run_at r))"
    and "NextScheduleTime (sv_LoadLocation env) spec (sh_timezone r) now = Inr nx"
    and "q \<in> set (sd_runs st)" "sr_schedule_id q = sh_id r" "sr_job_id q = Some job" "run_active st q"
  shows "job \<in> set (ListDueReplaceableScheduleJobs now st)"
    "\<exists>st'. start_one env now (sh_id r, the (sh_next_run_at r)) st = Inr (None, st')"
proof -
  have f: "find_schedule (sh_id r) st = Some r" by (rule find_schedule_row [OF assms(1,2)])
  show "job \<in> set (ListDueReplaceableScheduleJobs now st)"
    using assms f by (auto simp: ListDueReplaceableScheduleJobs_def List.map_filter_def intro!: rev_image_eqI [of q])
  obtain s where s: "getSchedule (sh_id r) st = Inr s" "sc_Spec s = spec" "sc_Timezone s = sh_timezone r"
    by (simp add: getSchedule_def f scanSchedule_def assms(5))
  have "skip_reason now s (the (sh_next_run_at r)) st = ''missed while the scheduler was offline''"
    using assms(6,7) by (simp add: skip_reason_def s)
  then show "\<exists>st'. start_one env now (sh_id r, the (sh_next_run_at r)) st = Inr (None, st')"
    by (simp add: start_one_def s assms(8))
qed

section \<open>The life of a run\<close>

text \<open>A run is open while it waits for its job or for a retry; otherwise it is settled.\<close>

definition open_run :: "RunRow \<Rightarrow> bool" where
  "open_run r \<longleftrightarrow> sr_state r = ''queued'' \<or> sr_state r = ''retry_pending''"

text \<open>Runs only appear with new identifiers, and a settled run is never opened again.\<close>

definition evolves :: "Store \<Rightarrow> Store \<Rightarrow> bool" where
  "evolves st st' \<longleftrightarrow> sd_run_seq st \<le> sd_run_seq st' \<and>
     (\<forall>r' \<in> set (sd_runs st'). sd_run_seq st < sr_id r' \<or>
       (\<exists>r \<in> set (sd_runs st). sr_id r = sr_id r' \<and> (open_run r' \<longrightarrow> open_run r)))"

text \<open>Identifiers are unique and handed out in order; an open run has an attempt left to count.\<close>

definition runs_ok :: "Store \<Rightarrow> bool" where
  "runs_ok st \<longleftrightarrow> distinct (map sr_id (sd_runs st)) \<and>
     (\<forall>r \<in> set (sd_runs st). sr_id r \<le> sd_run_seq st \<and> (open_run r \<longrightarrow> sr_attempt r \<le> MaxScheduleRetryCount + 1))"

text \<open>The automatic attempts a run can still lead to.\<close>

definition attempts_left :: "RunRow \<Rightarrow> int" where
  "attempts_left r =
     (if sr_state r = ''queued'' then max 0 (MaxScheduleRetryCount + 1 - sr_attempt r)
      else if sr_state r = ''retry_pending'' then max 0 (MaxScheduleRetryCount + 2 - sr_attempt r)
      else 0)"

definition retry_budget :: "Store \<Rightarrow> int" where
  "retry_budget st = sum_list (map attempts_left (sd_runs st))"

lemma attempts_left_nonneg [simp]: "0 \<le> attempts_left r"
  by (simp add: attempts_left_def)

lemma retry_budget_nonneg [simp]: "0 \<le> retry_budget st"
  unfolding retry_budget_def by (rule sum_list_nonneg) auto

lemma evolves_refl [simp]: "evolves st st"
  by (auto simp: evolves_def)

lemma evolves_trans:
  assumes "evolves a b" "evolves b c" shows "evolves a c"
  unfolding evolves_def
proof (intro conjI ballI)
  show "sd_run_seq a \<le> sd_run_seq c" using assms by (auto simp: evolves_def)
next
  fix r assume "r \<in> set (sd_runs c)"
  then consider "sd_run_seq b < sr_id r"
    | q where "q \<in> set (sd_runs b)" "sr_id q = sr_id r" "open_run r \<longrightarrow> open_run q"
    using assms(2) unfolding evolves_def by blast
  then show "sd_run_seq a < sr_id r \<or> (\<exists>p \<in> set (sd_runs a). sr_id p = sr_id r \<and> (open_run r \<longrightarrow> open_run p))"
  proof cases
    case 1
    then show ?thesis using assms(1) by (auto simp: evolves_def)
  next
    case (2 q)
    then consider "sd_run_seq a < sr_id q"
      | p where "p \<in> set (sd_runs a)" "sr_id p = sr_id q" "open_run q \<longrightarrow> open_run p"
      using assms(1) unfolding evolves_def by blast
    then show ?thesis using 2 by cases auto
  qed
qed

text \<open>The three ways in which the table of runs changes.\<close>

lemma append_run:
  assumes "sd_runs st' = sd_runs st @ [r]" "sd_run_seq st' = sd_run_seq st + 1" "sr_id r = sd_run_seq st + 1"
    and "open_run r \<Longrightarrow> sr_attempt r \<le> MaxScheduleRetryCount + 1"
  shows "evolves st st'" "runs_ok st \<Longrightarrow> runs_ok st'" "retry_budget st' = retry_budget st + attempts_left r"
proof -
  show "evolves st st'" "retry_budget st' = retry_budget st + attempts_left r"
    using assms by (auto simp: evolves_def retry_budget_def)
  assume ok: "runs_ok st"
  then have "sr_id r \<notin> sr_id ` set (sd_runs st)" using assms(3) by (force simp: runs_ok_def)
  then show "runs_ok st'" using ok assms by (auto simp: runs_ok_def)
qed

lemma sum_update_one:
  assumes "distinct (map key rows)" "r \<in> set rows"
  shows "sum_list (map w (update_where (\<lambda>q. key q = key r \<and> g q) f rows)) =
    sum_list (map w rows) + (if g r then w (f r) - w r else (0::int))"
  using assms
proof (induction rows)
  case (Cons a rows)
  show ?case
  proof (cases "a = r")
    case True
    then have "update_where (\<lambda>q. key q = key r \<and> g q) f rows = rows"
    proof (intro update_where_none ballI notI)
      fix q assume "q \<in> set rows" "key q = key r \<and> g q"
      then have "key r \<in> key ` set rows" by (auto intro: rev_image_eqI)
      then show False using Cons.prems(1) True by simp
    qed
    then show ?thesis using True by simp
  next
    case False
    then have "r \<in> set rows" using Cons.prems(2) by simp
    then have "key r \<in> key ` set rows" by (rule imageI)
    then have "key a \<noteq> key r" using Cons.prems(1) by auto
    note \<open>key a \<noteq> key r\<close> \<open>r \<in> set rows\<close>
    then show ?thesis using Cons by simp
  qed
qed simp

lemma update_run:
  assumes ok: "runs_ok st" and r: "r \<in> set (sd_runs st)" "open_run r"
    and st': "sd_runs st' = update_where (\<lambda>q. sr_id q = sr_id r \<and> g q) f (sd_runs st)" "sd_run_seq st' = sd_run_seq st"
    and f: "\<And>q. sr_id (f q) = sr_id q" "open_run (f r) \<Longrightarrow> sr_attempt (f r) \<le> MaxScheduleRetryCount + 1"
    and "g r"
  shows "evolves st st'" "runs_ok st'"
    "retry_budget st' = retry_budget st + attempts_left (f r) - attempts_left r"
    "q \<in> set (sd_runs st') \<Longrightarrow> sr_id q = sr_id r \<Longrightarrow> q = f r"
    "q \<in> set (sd_runs st) \<Longrightarrow> sr_id q \<noteq> sr_id r \<Longrightarrow> q \<in> set (sd_runs st')"
proof -
  have d: "distinct (map sr_id (sd_runs st))" using ok by (simp add: runs_ok_def)
  have only: "q = r" if "q \<in> set (sd_runs st)" "sr_id q = sr_id r" for q
    using d r(1) that by (auto simp: distinct_map inj_on_def)
  show "evolves st st'"
    using only r f(1) by (force simp: evolves_def st' set_update_where)
  have "map sr_id (sd_runs st') = map sr_id (sd_runs st)"
    unfolding st' using f(1) by (simp add: update_where_def)
  then show "runs_ok st'"
    using ok f only by (auto simp: runs_ok_def st' set_update_where)
  show "retry_budget st' = retry_budget st + attempts_left (f r) - attempts_left r"
    unfolding retry_budget_def st'(1) using sum_update_one [OF d r(1), of attempts_left g f] \<open>g r\<close> by simp
  show "q = f r" if "q \<in> set (sd_runs st')" "sr_id q = sr_id r"
    using that only f(1) \<open>g r\<close> by (auto simp: st' set_update_where split: if_splits)
  show "q \<in> set (sd_runs st')" if "q \<in> set (sd_runs st)" "sr_id q \<noteq> sr_id r"
    using that by (force simp: st' set_update_where)
qed

lemma filter_runs:
  assumes "sd_runs st' = filter p (sd_runs st)" "sd_run_seq st' = sd_run_seq st"
  shows "evolves st st'" "runs_ok st \<Longrightarrow> runs_ok st'" "retry_budget st' \<le> retry_budget st"
proof -
  show "evolves st st'" using assms by (auto simp: evolves_def)
  show "runs_ok st \<Longrightarrow> runs_ok st'" using assms by (auto simp: runs_ok_def distinct_map_filter)
  have "sum_list (map attempts_left (filter p rows)) \<le> sum_list (map attempts_left rows)" for rows
    by (induction rows) (auto intro: add_increasing)
  then show "retry_budget st' \<le> retry_budget st" by (simp add: retry_budget_def assms)
qed

lemma settled_stays:
  "evolves st st' \<Longrightarrow> k \<le> sd_run_seq st \<Longrightarrow> (\<And>q. q \<in> set (sd_runs st) \<Longrightarrow> sr_id q = k \<Longrightarrow> \<not> open_run q) \<Longrightarrow>
   q \<in> set (sd_runs st') \<Longrightarrow> sr_id q = k \<Longrightarrow> \<not> open_run q"
  unfolding evolves_def by (metis not_le)

lemma finished_not_open: "x \<in> finished_states \<Longrightarrow> sr_state r = string_of_State x \<Longrightarrow> \<not> open_run r"
  by (auto simp: finished_states_def open_run_def)

lemma retry_allowed_attempt: "ScheduleRetryAllowed count k \<Longrightarrow> k \<le> MaxScheduleRetryCount"
  by (auto simp: ScheduleRetryAllowed_def Let_def split: if_splits)

definition run_of :: "RunRow \<times> ScheduleRow \<times> RuntimeRow \<Rightarrow> RunRow" where
  "run_of x = fst x"

lemma settle_run_effect:
  assumes ok: "runs_ok st" and r: "run_of x \<in> set (sd_runs st)" "sr_state (run_of x) = ''queued''"
    and x: "rt_state (snd (snd x)) \<in> finished_states"
    and res: "settle_run env now x st = (c, st')"
  shows "evolves st st' \<and> runs_ok st' \<and> retry_budget st' \<le> retry_budget st \<and> co_RunID c = sr_id (run_of x) \<and>
    (\<forall>q \<in> set (sd_runs st'). sr_id q = sr_id (run_of x) \<longrightarrow> \<not> open_run q) \<and>
    (\<forall>q \<in> set (sd_runs st). sr_id q \<noteq> sr_id (run_of x) \<longrightarrow> q \<in> set (sd_runs st'))"
proof -
  obtain r s rt where split: "x = (r, s, rt)" by (cases x)
  define f where "f = set_settled (string_of_State (rt_state rt)) (rt_started_at rt)
    (case rt_finished_at rt of None \<Rightarrow> Unix now | Some t \<Rightarrow> t)
    (if rt_state rt \<in> {StateFailed, StateCancelled} then RedactString (sv_env env) (rt_message rt) else [])"
  define st1 where "st1 = st\<lparr>sd_runs := update_where (\<lambda>q. sr_id q = sr_id r \<and> sr_state q = ''queued'') f (sd_runs st)\<rparr>"
  define retry where "retry = (rt_state rt = StateFailed \<and> ScheduleRetryAllowed (sh_retry_count s) (sr_attempt r))"
  define retryAt where "retryAt = now + ScheduleRetryDelay (sh_retry_backoff_seconds s) (sr_attempt r)"
  have r': "r \<in> set (sd_runs st)" "open_run r" "sr_state r = ''queued''"
    using r by (simp_all add: split run_of_def open_run_def)
  have closed: "\<not> open_run (f r)"
    using x by (intro finished_not_open [of "rt_state rt"]) (simp_all add: split f_def set_settled_def)
  have st1: "sd_runs st1 = update_where (\<lambda>q. sr_id q = sr_id r \<and> sr_state q = ''queued'') f (sd_runs st)"
    "sd_run_seq st1 = sd_run_seq st" by (simp_all add: st1_def)
  note upd = update_run [where g = "\<lambda>q. sr_state q = ''queued''" and f = f, OF ok r'(1,2) st1]
  have f: "sr_id (f q) = sr_id q" for q by (simp add: f_def set_settled_def)
  have e1: "evolves st st1" "runs_ok st1" "retry_budget st1 = retry_budget st + attempts_left (f r) - attempts_left r"
    and rows: "\<And>q. q \<in> set (sd_runs st1) \<Longrightarrow> sr_id q = sr_id r \<Longrightarrow> q = f r"
    "\<And>q. q \<in> set (sd_runs st) \<Longrightarrow> sr_id q \<noteq> sr_id r \<Longrightarrow> q \<in> set (sd_runs st1)"
    using upd f closed r'(3) by blast+
  have zero: "attempts_left (f r) = 0" using closed by (auto simp: open_run_def attempts_left_def)
  have c: "co_RunID c = sr_id r" and st': "st' = (if retry then insert_run (sr_schedule_id r) None ''retry_pending''
      (Unix retryAt) None (sr_attempt r + 1) [] st1 else st1)"
    using res by (auto simp: split settle_run_def Let_def f_def st1_def retry_def retryAt_def)
  have le: "sr_id r \<le> sd_run_seq st" using ok r'(1) by (auto simp: runs_ok_def)
  show ?thesis
  proof (cases retry)
    case False
    then show ?thesis using e1 rows closed c zero attempts_left_nonneg [of r] by (auto simp: st' split run_of_def)
  next
    case True
    define new where "new = \<lparr>sr_id = sd_run_seq st1 + 1, sr_schedule_id = sr_schedule_id r, sr_job_id = None,
      sr_state = ''retry_pending'', sr_scheduled_for = Unix retryAt, sr_started_at = None, sr_finished_at = None,
      sr_attempt = sr_attempt r + 1, sr_error = []\<rparr>"
    have k: "sr_attempt r \<le> MaxScheduleRetryCount"
      using True by (auto simp: retry_def intro: retry_allowed_attempt)
    have add: "sd_runs st' = sd_runs st1 @ [new]" "sd_run_seq st' = sd_run_seq st1 + 1"
      "sr_id new = sd_run_seq st1 + 1"
      using True by (simp_all add: st' new_def)
    note app = append_run [OF add]
    have "attempts_left new = attempts_left r"
      using k by (simp add: new_def attempts_left_def r'(3))
    then have "retry_budget st' \<le> retry_budget st" using app(3) e1(3) k zero by (simp add: new_def)
    moreover have "evolves st st'" "runs_ok st'"
      using app k e1 by (auto simp: new_def intro: evolves_trans)
    ultimately show ?thesis
      using rows closed c add le st1(2) by (auto simp: split run_of_def new_def)
  qed
qed

lemma settle_each_effect:
  assumes "runs_ok st" "distinct (map (sr_id \<circ> run_of) xs)"
    and "\<forall>x \<in> set xs. run_of x \<in> set (sd_runs st) \<and> sr_state (run_of x) = ''queued'' \<and> rt_state (snd (snd x)) \<in> finished_states"
    and "settle_each env now xs st = (cs, st')"
  shows "evolves st st' \<and> runs_ok st' \<and> retry_budget st' \<le> retry_budget st \<and>
    map co_RunID cs = map (sr_id \<circ> run_of) xs \<and>
    (\<forall>q \<in> set (sd_runs st'). sr_id q \<in> co_RunID ` set cs \<longrightarrow> \<not> open_run q)"
  using assms
proof (induction xs arbitrary: st cs)
  case (Cons x xs)
  obtain c st1 where one: "settle_run env now x st = (c, st1)" by (cases "settle_run env now x st")
  obtain cs1 where rest: "settle_each env now xs st1 = (cs1, st')" and cs: "cs = c # cs1"
    using Cons.prems(4) by (auto simp: one split: prod.splits)
  note step = settle_run_effect [OF Cons.prems(1) _ _ _ one]
  have s: "evolves st st1" "runs_ok st1" "retry_budget st1 \<le> retry_budget st" "co_RunID c = sr_id (run_of x)"
    "\<And>q. q \<in> set (sd_runs st1) \<Longrightarrow> sr_id q = sr_id (run_of x) \<Longrightarrow> \<not> open_run q"
    "\<And>q. q \<in> set (sd_runs st) \<Longrightarrow> sr_id q \<noteq> sr_id (run_of x) \<Longrightarrow> q \<in> set (sd_runs st1)"
    using step Cons.prems(3) by auto
  have out: "sr_id (run_of x) \<notin> (sr_id \<circ> run_of) ` set xs" using Cons.prems(2) by simp
  have "run_of y \<in> set (sd_runs st1)" if "y \<in> set xs" for y
  proof (rule s(6))
    show "run_of y \<in> set (sd_runs st)" using Cons.prems(3) that by simp
    show "sr_id (run_of y) \<noteq> sr_id (run_of x)" using out that by (auto simp: image_iff)
  qed
  then have ih: "evolves st1 st' \<and> runs_ok st' \<and> retry_budget st' \<le> retry_budget st1 \<and>
    map co_RunID cs1 = map (sr_id \<circ> run_of) xs \<and>
    (\<forall>q \<in> set (sd_runs st'). sr_id q \<in> co_RunID ` set cs1 \<longrightarrow> \<not> open_run q)"
    by (intro Cons.IH [OF s(2) _ _ rest]) (use Cons.prems(2,3) in auto)
  have "sr_id (run_of x) \<le> sd_run_seq st1"
    using Cons.prems(1,3) s(1) by (force simp: runs_ok_def evolves_def)
  then have "\<not> open_run q" if "q \<in> set (sd_runs st')" "sr_id q = sr_id (run_of x)" for q
    using settled_stays [of st1 st' "sr_id (run_of x)" q] ih s(5) that by blast
  then show ?case using ih s by (auto simp: cs intro: evolves_trans)
qed simp

lemma finishedRuns_rows:
  assumes "runs_ok st"
  shows "distinct (map (sr_id \<circ> run_of) (finishedRuns st))"
    "\<forall>x \<in> set (finishedRuns st). run_of x \<in> set (sd_runs st) \<and> sr_state (run_of x) = ''queued'' \<and>
      rt_state (snd (snd x)) \<in> finished_states"
proof -
  define pick where "pick = (\<lambda>r. case (find_schedule (sr_schedule_id r) st, run_runtime st r) of
      (Some s, Some x) \<Rightarrow> if sr_state r = ''queued'' \<and> rt_state x \<in> finished_states then Some (r, s, x) else None
    | _ \<Rightarrow> None)"
  have pick: "run_of y = r \<and> sr_state r = ''queued'' \<and> rt_state (snd (snd y)) \<in> finished_states"
    if "pick r = Some y" for r y
    using that by (auto simp: pick_def run_of_def split: option.splits if_splits)
  have eq: "finishedRuns st = sort_key (\<lambda>(r, s, x). sr_id r) (List.map_filter pick (sd_runs st))"
    by (simp add: finishedRuns_def pick_def)
  show "\<forall>x \<in> set (finishedRuns st). run_of x \<in> set (sd_runs st) \<and> sr_state (run_of x) = ''queued'' \<and>
      rt_state (snd (snd x)) \<in> finished_states"
    using pick by (fastforce simp: eq List.map_filter_def)
  have "distinct (map (sr_id \<circ> run_of) (List.map_filter pick rows)) \<and>
      set (map (sr_id \<circ> run_of) (List.map_filter pick rows)) \<subseteq> sr_id ` set rows"
    if "distinct (map sr_id rows)" for rows
    using that
  proof (induction rows)
    case (Cons a rows)
    then show ?case by (cases "pick a") (auto simp: List.map_filter_simps dest!: pick)
  qed (simp add: List.map_filter_simps)
  then have "distinct (map (sr_id \<circ> run_of) (List.map_filter pick (sd_runs st)))"
    using assms by (simp add: runs_ok_def)
  then show "distinct (map (sr_id \<circ> run_of) (finishedRuns st))" by (simp add: eq distinct_map)
qed

lemma CompleteScheduleRuns_effect:
  assumes "runs_ok st" "CompleteScheduleRuns env now st = (cs, st')"
  shows "evolves st st' \<and> runs_ok st' \<and> retry_budget st' \<le> retry_budget st \<and> distinct (map co_RunID cs) \<and>
    (\<forall>q \<in> set (sd_runs st'). sr_id q \<in> co_RunID ` set cs \<longrightarrow> \<not> open_run q) \<and>
    (\<forall>k \<in> co_RunID ` set cs. k \<le> sd_run_seq st \<and> (\<exists>q \<in> set (sd_runs st). sr_id q = k \<and> open_run q))"
proof -
  note f = finishedRuns_rows [OF assms(1)]
  note e = settle_each_effect [OF assms(1) f assms(2) [unfolded CompleteScheduleRuns_def]]
  then have ids: "map co_RunID cs = map (sr_id \<circ> run_of) (finishedRuns st)" by blast
  then have "co_RunID ` set cs = (sr_id \<circ> run_of) ` set (finishedRuns st)" by (metis list.set_map)
  then have "\<forall>k \<in> co_RunID ` set cs. k \<le> sd_run_seq st \<and> (\<exists>q \<in> set (sd_runs st). sr_id q = k \<and> open_run q)"
    using f(2) assms(1) by (auto simp: runs_ok_def open_run_def)
  then show ?thesis using e f(1) ids by simp
qed

text \<open>A change of the table of runs that adds at most \<open>n\<close> to the budget of automatic attempts.\<close>

definition run_step :: "int \<Rightarrow> Store \<Rightarrow> Store \<Rightarrow> bool" where
  "run_step n st st' \<longleftrightarrow> evolves st st' \<and> runs_ok st' \<and> retry_budget st' \<le> retry_budget st + n"

lemma run_step_trans: "run_step m a b \<Longrightarrow> run_step n b c \<Longrightarrow> run_step (m + n) a c"
  by (auto simp: run_step_def intro: evolves_trans)

lemma run_step_mono: "run_step m a b \<Longrightarrow> m \<le> n \<Longrightarrow> run_step n a b"
  by (auto simp: run_step_def)

lemma run_step_same:
  "runs_ok st \<Longrightarrow> sd_runs st' = sd_runs st \<Longrightarrow> sd_run_seq st' = sd_run_seq st \<Longrightarrow> run_step 0 st st'"
  by (auto simp: run_step_def evolves_def runs_ok_def retry_budget_def)

lemma run_step_later:
  "run_step n st st1 \<Longrightarrow> sd_runs st' = sd_runs st1 \<Longrightarrow> sd_run_seq st' = sd_run_seq st1 \<Longrightarrow> run_step n st st'"
  using run_step_trans [of n st st1 0 st'] run_step_same [of st1 st'] by (simp add: run_step_def)

lemma run_step_append:
  assumes "runs_ok st" "sd_runs st' = sd_runs st @ [r]" "sd_run_seq st' = sd_run_seq st + 1"
    "sr_id r = sd_run_seq st + 1" "sr_attempt r = 1"
  shows "run_step (attempts_left r) st st'"
  using append_run [OF assms(2,3,4)] assms(1,5) by (simp add: run_step_def MaxScheduleRetryCount_def)

lemma enqueueSchedule_step:
  assumes "runs_ok st" "enqueueSchedule env now s t0 st = Inr (job, st1)"
  shows "run_step MaxScheduleRetryCount st st1"
proof -
  note q = enqueueSchedule_run [OF assms(2)]
  show ?thesis using run_step_append [OF assms(1) q(1,3)] by (simp add: attempts_left_def MaxScheduleRetryCount_def)
qed

lemma insert_run_step:
  assumes "runs_ok st" "state \<noteq> ''queued''" "state \<noteq> ''retry_pending''"
  shows "run_step 0 st (insert_run sid job state t0 fin 1 err st)"
proof -
  have "run_step (attempts_left \<lparr>sr_id = sd_run_seq st + 1, sr_schedule_id = sid, sr_job_id = job, sr_state = state,
      sr_scheduled_for = t0, sr_started_at = None, sr_finished_at = fin, sr_attempt = 1, sr_error = err\<rparr>)
      st (insert_run sid job state t0 fin 1 err st)"
    by (rule run_step_append [OF assms(1) insert_run_simps(5,4)]) simp_all
  then show ?thesis using assms(2,3) by (simp add: attempts_left_def)
qed

lemma quarantine_step:
  assumes "runs_ok st" shows "run_step 0 st (quarantineDueSchedule env sid d now cause st)"
proof -
  have "run_step 0 st (insert_run sid None ''failed'' d (Some now) 1 (RedactString (sv_env env) cause) st)"
    by (rule insert_run_step) (use assms in auto)
  then show ?thesis
    using run_step_same [OF assms] by (auto simp: quarantineDueSchedule_def Let_def elim!: run_step_later)
qed

lemma start_one_step:
  assumes ok: "runs_ok st" and res: "start_one env now item st = Inr (job, st')"
  shows "run_step (if job = None then 0 else MaxScheduleRetryCount) st st'"
proof -
  obtain sid d where item: "item = (sid, d)" by (cases item)
  have skip: "run_step 0 st (advance_schedule (Unix now) sid d e n
      (insert_run sid None ''skipped'' d (Some (Unix now)) 1 reason st))" for e n reason
    by (rule run_step_later [OF insert_run_step [OF ok]]) simp_all
  have start: "run_step MaxScheduleRetryCount st (advance_schedule (Unix now) sid d e n st1)"
    if "enqueueSchedule env (Unix now) s t0 st = Inr (j, st1)" for e n s t0 j st1
    by (rule run_step_later [OF enqueueSchedule_step [OF ok that]]) simp_all
  have idle: "run_step 0 st st" by (rule run_step_same) (use ok in simp_all)
  show ?thesis
    using res quarantine_step [OF ok] skip start idle
    by (auto simp: start_one_def item Let_def split: sum.splits store_error.splits prod.splits if_splits)
qed

definition opt_count :: "'a option \<Rightarrow> nat" where
  "opt_count x = (case x of None \<Rightarrow> 0 | Some _ \<Rightarrow> 1)"

lemma start_each_step:
  "runs_ok st \<Longrightarrow> start_each env now items st = Inr (jobs, st') \<Longrightarrow>
   run_step (MaxScheduleRetryCount * int (length jobs)) st st'"
proof (induction items arbitrary: st jobs)
  case Nil
  then show ?case using run_step_same [of st st] by simp
next
  case (Cons item items)
  obtain job st1 where one: "start_one env now item st = Inr (job, st1)"
    using Cons.prems(2) by (auto split: sum.splits)
  obtain jobs1 where rest: "start_each env now items st1 = Inr (jobs1, st')"
    and jobs: "jobs = (case job of None \<Rightarrow> jobs1 | Some j \<Rightarrow> j # jobs1)"
    using Cons.prems(2) one by (auto split: sum.splits)
  note s = start_one_step [OF Cons.prems(1) one]
  then have "runs_ok st1" by (simp add: run_step_def)
  note run_step_trans [OF s Cons.IH [OF this rest]]
  then show ?case by (cases job) (simp_all add: jobs algebra_simps)
qed

section \<open>Starting a retry\<close>

lemma retry_one_effect:
  assumes ok: "runs_ok st" and r: "r \<in> set (sd_runs st)" "sr_state r = ''retry_pending''"
    and res: "retry_one env now r st = Inr (job, st')"
  shows "run_step (- int (opt_count job)) st st' \<and>
    (\<forall>q \<in> set (sd_runs st). sr_id q \<noteq> sr_id r \<longrightarrow> q \<in> set (sd_runs st'))"
proof -
  have opn: "open_run r" using r(2) by (simp add: open_run_def)
  then have k: "sr_attempt r \<le> MaxScheduleRetryCount + 1" using ok r(1) by (simp add: runs_ok_def)
  have idle: "run_step 0 st st" by (rule run_step_same) (use ok in simp_all)
  let ?fail = "\<lambda>e q. q\<lparr>sr_state := ''failed'', sr_finished_at := Some (Unix now), sr_error := e\<rparr>"
  let ?start = "\<lambda>id q. q\<lparr>sr_job_id := Some id, sr_state := ''queued'', sr_error := []\<rparr>"
  have closed: "\<not> open_run (?fail e r)" "attempts_left (?fail e r) = 0" for e
    by (simp_all add: open_run_def attempts_left_def)
  have one_less: "attempts_left (?start id r) = attempts_left r - 1" for id
    using k by (simp add: attempts_left_def r(2))
  have fail: "run_step 0 st st1 \<and> (\<forall>q \<in> set (sd_runs st). sr_id q \<noteq> sr_id r \<longrightarrow> q \<in> set (sd_runs st1))"
    if "sd_runs st1 = update_where (\<lambda>q. sr_id q = sr_id r \<and> True) (?fail e) (sd_runs st)"
      "sd_run_seq st1 = sd_run_seq st" for e st1
    using update_run [where g = "\<lambda>q. True" and f = "?fail e", OF ok r(1) opn that] closed [of e] attempts_left_nonneg [of r]
    by (simp add: run_step_def)
  have start: "run_step (- 1) st st1 \<and> (\<forall>q \<in> set (sd_runs st). sr_id q \<noteq> sr_id r \<longrightarrow> q \<in> set (sd_runs st1))"
    if "sd_runs st1 = update_where (\<lambda>q. sr_id q = sr_id r \<and> True) (?start id) (sd_runs st)"
      "sd_run_seq st1 = sd_run_seq st" for id st1
    using update_run [where g = "\<lambda>q. True" and f = "?start id", OF ok r(1) opn that] k one_less
    by (simp add: run_step_def)
  show ?thesis
  proof (cases job)
    case (Some j)
    then obtain s st1 where c: "createScheduleJob env (Unix now) s (of_unix (sr_scheduled_for r)) (sr_attempt r) st = Inr (j, st1)"
      and st': "sd_runs st' = update_where (\<lambda>q. sr_id q = sr_id r) (?start (job_ID j)) (sd_runs st1)"
        "sd_run_seq st' = sd_run_seq st1"
      using res by (auto simp: retry_one_def split: sum.splits store_error.splits prod.splits)
    then show ?thesis using start [of st' "job_ID j"] by (simp add: Some opt_count_def createScheduleJob_frame [OF c])
  next
    case None
    then consider "st' = st"
      | e where "sd_runs st' = update_where (\<lambda>q. sr_id q = sr_id r) (?fail e) (sd_runs st)" "sd_run_seq st' = sd_run_seq st"
      using res by (auto simp: retry_one_def split: sum.splits store_error.splits prod.splits)
    then show ?thesis using None fail [of st'] idle by cases (auto simp: opt_count_def)
  qed
qed

lemma retry_each_step:
  "runs_ok st \<Longrightarrow> distinct (map sr_id rs) \<Longrightarrow> \<forall>r \<in> set rs. r \<in> set (sd_runs st) \<and> sr_state r = ''retry_pending'' \<Longrightarrow>
   retry_each env now rs st = Inr (jobs, st') \<Longrightarrow> run_step (- int (length jobs)) st st'"
proof (induction rs arbitrary: st jobs)
  case Nil
  then show ?case using run_step_same [of st st] by simp
next
  case (Cons r rs)
  obtain job st1 where one: "retry_one env now r st = Inr (job, st1)"
    using Cons.prems(4) by (auto split: sum.splits)
  obtain jobs1 where rest: "retry_each env now rs st1 = Inr (jobs1, st')"
    and jobs: "jobs = (case job of None \<Rightarrow> jobs1 | Some j \<Rightarrow> j # jobs1)"
    using Cons.prems(4) one by (auto split: sum.splits)
  have e: "run_step (- int (opt_count job)) st st1"
    "\<And>q. q \<in> set (sd_runs st) \<Longrightarrow> sr_id q \<noteq> sr_id r \<Longrightarrow> q \<in> set (sd_runs st1)"
    using retry_one_effect [OF Cons.prems(1) _ _ one] Cons.prems(3) by auto
  have "sr_id q \<noteq> sr_id r" if "q \<in> set rs" for q
    using Cons.prems(2) that by (auto simp: image_iff)
  then have "run_step (- int (length jobs1)) st1 st'"
    using Cons.prems(2,3) e by (intro Cons.IH [OF _ _ _ rest]) (auto simp: run_step_def)
  from run_step_trans [OF e(1) this] show ?case by (cases job) (simp_all add: jobs opt_count_def)
qed

lemma dueRetries_rows:
  assumes "runs_ok st"
  shows "distinct (map sr_id (dueRetries now limit st))"
    "\<forall>r \<in> set (dueRetries now limit st). r \<in> set (sd_runs st) \<and> sr_state r = ''retry_pending''"
  using assms unfolding dueRetries_def runs_ok_def
  by (auto simp: distinct_map intro: inj_on_subset dest!: in_set_takeD)

end
