(* ===== verification/ScheduleHistory.thy ===== *)
theory ScheduleHistory
  imports ScheduleProperties
begin

text \<open>
  Histories of the scheduler's store: any sequence of its operations, with the job tables and the
  templates changing in any way between them. Automatic retries are bounded over a whole history, and
  the outcome of a run is reported once.
\<close>

section \<open>Histories\<close>

text \<open>
  The operations that reach the scheduler's tables, each one transaction of the code, at the moment it
  runs. \<open>Jobs\<close> and \<open>Templates\<close> stand for everything the rest of the program does to those tables; the
  cancelling of replaced jobs is such a change.
\<close>

datatype sched_op =
    Jobs Db
  | Templates "TemplateRow list"
  | Save int ScheduleRecord
  | Enable Instant string bool
  | Delete string
  | RunNow Instant string
  | StartDue Instant int
  | Complete Instant
  | StartRetries Instant int
  | Prune Instant

text \<open>What a history has done: the runs fired, the retries started and the runs reported as finished.\<close>

record sched_log =
  lg_fired :: nat
  lg_retried :: nat
  lg_reported :: "int list"

definition count_inr :: "'e + 'a list \<Rightarrow> nat" where
  "count_inr x = (case x of Inl e \<Rightarrow> 0 | Inr ys \<Rightarrow> length ys)"

fun sched_step :: "ScheduleEnv \<Rightarrow> sched_op \<Rightarrow> Store \<Rightarrow> sched_log \<times> Store" where
  "sched_step env (Jobs db) st = (\<lparr>lg_fired = 0, lg_retried = 0, lg_reported = []\<rparr>, set_jobs db st)"
| "sched_step env (Templates ts) st =
     (\<lparr>lg_fired = 0, lg_retried = 0, lg_reported = []\<rparr>, set_templates ts st)"
| "sched_step env (Save now s) st =
     (\<lparr>lg_fired = 0, lg_retried = 0, lg_reported = []\<rparr>, snd (SaveSchedule now s st))"
| "sched_step env (Enable now sid on) st =
     (\<lparr>lg_fired = 0, lg_retried = 0, lg_reported = []\<rparr>, snd (SetScheduleEnabled env now sid on st))"
| "sched_step env (Delete sid) st =
     (\<lparr>lg_fired = 0, lg_retried = 0, lg_reported = []\<rparr>, snd (DeleteSchedule sid st))"
| "sched_step env (RunNow now sid) st =
     (let (answer, st') = RunScheduleNow env now sid st
      in (\<lparr>lg_fired = (case answer of Inl e \<Rightarrow> 0 | Inr job \<Rightarrow> 1), lg_retried = 0, lg_reported = []\<rparr>, st'))"
| "sched_step env (StartDue now limit) st =
     (let (answer, st') = StartDueSchedules env now limit st
      in (\<lparr>lg_fired = count_inr answer, lg_retried = 0, lg_reported = []\<rparr>, st'))"
| "sched_step env (Complete now) st =
     (let (completions, st') = CompleteScheduleRuns env now st
      in (\<lparr>lg_fired = 0, lg_retried = 0, lg_reported = map co_RunID completions\<rparr>, st'))"
| "sched_step env (StartRetries now limit) st =
     (let (answer, st') = StartDueScheduleRetries env now limit st
      in (\<lparr>lg_fired = 0, lg_retried = count_inr answer, lg_reported = []\<rparr>, st'))"
| "sched_step env (Prune now) st =
     (\<lparr>lg_fired = 0, lg_retried = 0, lg_reported = []\<rparr>, snd (PruneScheduleRuns now st))"

fun sched_run :: "ScheduleEnv \<Rightarrow> sched_op list \<Rightarrow> Store \<Rightarrow> sched_log \<times> Store" where
  "sched_run env [] st = (\<lparr>lg_fired = 0, lg_retried = 0, lg_reported = []\<rparr>, st)"
| "sched_run env (op # ops) st =
     (let (lg, st1) = sched_step env op st; (rest, st2) = sched_run env ops st1
      in (\<lparr>lg_fired = lg_fired lg + lg_fired rest, lg_retried = lg_retried lg + lg_retried rest,
           lg_reported = lg_reported lg @ lg_reported rest\<rparr>, st2))"

section \<open>One operation\<close>

definition reported_now :: "int list \<Rightarrow> Store \<Rightarrow> Store \<Rightarrow> bool" where
  "reported_now ids st st' \<longleftrightarrow> distinct ids \<and>
     (\<forall>k \<in> set ids. k \<le> sd_run_seq st \<and> (\<exists>q \<in> set (sd_runs st). sr_id q = k \<and> open_run q) \<and>
       (\<forall>q \<in> set (sd_runs st'). sr_id q = k \<longrightarrow> \<not> open_run q))"

definition step_effect :: "sched_log \<Rightarrow> Store \<Rightarrow> Store \<Rightarrow> bool" where
  "step_effect lg st st' \<longleftrightarrow>
     run_step (MaxScheduleRetryCount * int (lg_fired lg) - int (lg_retried lg)) st st' \<and>
     reported_now (lg_reported lg) st st'"

lemma quiet_step:
  "run_step (MaxScheduleRetryCount * int f - int r) st st' \<Longrightarrow>
   step_effect \<lparr>lg_fired = f, lg_retried = r, lg_reported = []\<rparr> st st'"
  by (simp add: step_effect_def reported_now_def)

lemma same_runs_step:
  "runs_ok st \<Longrightarrow> sd_runs st' = sd_runs st \<Longrightarrow> sd_run_seq st' = sd_run_seq st \<Longrightarrow>
   step_effect \<lparr>lg_fired = 0, lg_retried = 0, lg_reported = []\<rparr> st st'"
  by (rule quiet_step) (simp add: run_step_same)

lemma attempts_left_job: "attempts_left (r\<lparr>sr_job_id := j\<rparr>) = attempts_left r"
  by (simp add: attempts_left_def)

lemma set_jobs_step:
  assumes "runs_ok st"
  shows "step_effect \<lparr>lg_fired = 0, lg_retried = 0, lg_reported = []\<rparr> st (set_jobs db st)"
proof (rule quiet_step)
  have "evolves st (set_jobs db st)" by (force simp: evolves_def set_jobs_def open_run_def)
  moreover have "runs_ok (set_jobs db st)"
    using assms by (auto simp: runs_ok_def set_jobs_def open_run_def comp_def)
  moreover have "retry_budget (set_jobs db st) = retry_budget st"
    by (simp add: retry_budget_def set_jobs_def comp_def attempts_left_job)
  ultimately show "run_step (MaxScheduleRetryCount * int 0 - int 0) st (set_jobs db st)" by (simp add: run_step_def)
qed

lemma filtered_step:
  assumes "runs_ok st" "sd_runs st' = filter p (sd_runs st)" "sd_run_seq st' = sd_run_seq st"
  shows "step_effect \<lparr>lg_fired = 0, lg_retried = 0, lg_reported = []\<rparr> st st'"
  using filter_runs [OF assms(2,3)] assms(1) by (intro quiet_step) (simp add: run_step_def)

lemma SaveSchedule_runs:
  "sd_runs (snd (SaveSchedule now s st)) = sd_runs st" "sd_run_seq (snd (SaveSchedule now s st)) = sd_run_seq st"
  by (simp_all add: SaveSchedule_def Let_def)

lemma SetScheduleEnabled_runs:
  "sd_runs (snd (SetScheduleEnabled env now sid on st)) = sd_runs st"
  "sd_run_seq (snd (SetScheduleEnabled env now sid on st)) = sd_run_seq st"
  by (simp_all add: SetScheduleEnabled_def split: sum.split)

lemma RunNow_step:
  assumes "runs_ok st" "RunScheduleNow env now sid st = (answer, st')"
  shows "run_step (MaxScheduleRetryCount * (case answer of Inl e \<Rightarrow> 0 | Inr job \<Rightarrow> 1)) st st'"
proof (cases answer)
  case (Inl e)
  then have "st' = st" using assms(2) by (auto simp: RunScheduleNow_def split: sum.splits)
  then show ?thesis using assms(1) Inl by (simp add: run_step_same)
next
  case (Inr job)
  then obtain s st1 where "enqueueSchedule env (Unix now) s now st = Inr (job, st1)"
    "sd_runs st' = sd_runs st1" "sd_run_seq st' = sd_run_seq st1"
    using assms(2) by (auto simp: RunScheduleNow_def split: sum.splits)
  then show ?thesis using run_step_later [OF enqueueSchedule_step [OF assms(1)]] Inr by simp
qed

lemma StartDue_step:
  assumes "runs_ok st" "StartDueSchedules env now limit st = (answer, st')"
  shows "run_step (MaxScheduleRetryCount * int (count_inr answer)) st st'"
  using assms start_each_step [OF assms(1)]
  by (auto simp: StartDueSchedules_def count_inr_def run_step_same split: sum.splits prod.splits)

lemma StartRetries_step:
  assumes "runs_ok st" "StartDueScheduleRetries env now limit st = (answer, st')"
  shows "run_step (- int (count_inr answer)) st st'"
  using assms(2) retry_each_step [OF assms(1) dueRetries_rows [OF assms(1)]] assms(1)
  by (auto simp: StartDueScheduleRetries_def count_inr_def run_step_same split: sum.splits prod.splits)

lemma Complete_step:
  assumes "runs_ok st" "CompleteScheduleRuns env now st = (cs, st')"
  shows "step_effect \<lparr>lg_fired = 0, lg_retried = 0, lg_reported = map co_RunID cs\<rparr> st st'"
proof -
  have "evolves st st' \<and> runs_ok st' \<and> retry_budget st' \<le> retry_budget st \<and> distinct (map co_RunID cs) \<and>
    (\<forall>q \<in> set (sd_runs st'). sr_id q \<in> co_RunID ` set cs \<longrightarrow> \<not> open_run q) \<and>
    (\<forall>k \<in> co_RunID ` set cs. k \<le> sd_run_seq st \<and> (\<exists>q \<in> set (sd_runs st). sr_id q = k \<and> open_run q))"
    by (rule CompleteScheduleRuns_effect [OF assms])
  then show ?thesis by (auto simp: step_effect_def run_step_def reported_now_def)
qed

lemma sched_step_effect:
  assumes ok: "runs_ok st" and res: "sched_step env op st = (lg, st')"
  shows "step_effect lg st st'"
proof (cases op)
  case (RunNow now sid)
  obtain answer st1 where r: "RunScheduleNow env now sid st = (answer, st1)" by fastforce
  show ?thesis using RunNow_step [OF ok r] res
    by (cases answer) (auto simp: RunNow r intro!: quiet_step)
next
  case (StartDue now limit)
  obtain answer st1 where r: "StartDueSchedules env now limit st = (answer, st1)" by fastforce
  show ?thesis using StartDue_step [OF ok r] res by (auto simp: StartDue r intro!: quiet_step)
next
  case (StartRetries now limit)
  obtain answer st1 where r: "StartDueScheduleRetries env now limit st = (answer, st1)" by fastforce
  show ?thesis using StartRetries_step [OF ok r] res by (auto simp: StartRetries r intro!: quiet_step)
next
  case (Complete now)
  obtain cs st1 where r: "CompleteScheduleRuns env now st = (cs, st1)" by fastforce
  show ?thesis using Complete_step [OF ok r] res by (auto simp: Complete r)
next
  case (Delete sid)
  show ?thesis
  proof (cases "find_schedule sid st = None")
    case True
    then show ?thesis using same_runs_step [OF ok] res by (auto simp: Delete DeleteSchedule_def)
  next
    case False
    then show ?thesis using filtered_step [OF ok, of st' "\<lambda>r. sr_schedule_id r \<noteq> sid"] res
      by (auto simp: Delete DeleteSchedule_def)
  qed
next
  case (Prune now)
  show ?thesis using filtered_step [OF ok, of st' "\<lambda>r. \<not> expired_run (Unix now) st r"] res
    by (auto simp: Prune PruneScheduleRuns_def Let_def)
next
  case (Jobs db)
  then show ?thesis using set_jobs_step [OF ok] res by auto
qed (use res same_runs_step [OF ok] in \<open>auto simp: SaveSchedule_runs SetScheduleEnabled_runs set_templates_def\<close>)

section \<open>Whole histories\<close>

lemma sched_run_budget:
  "runs_ok st \<Longrightarrow> sched_run env ops st = (lg, st') \<Longrightarrow>
   run_step (MaxScheduleRetryCount * int (lg_fired lg) - int (lg_retried lg)) st st'"
proof (induction ops arbitrary: st lg)
  case Nil
  then show ?case using run_step_same [of st st] by auto
next
  case (Cons op ops)
  obtain l1 st1 where one: "sched_step env op st = (l1, st1)" by fastforce
  obtain l2 where rest: "sched_run env ops st1 = (l2, st')"
    and lg: "lg = \<lparr>lg_fired = lg_fired l1 + lg_fired l2, lg_retried = lg_retried l1 + lg_retried l2,
      lg_reported = lg_reported l1 @ lg_reported l2\<rparr>"
    using Cons.prems(2) by (auto simp: one split: prod.splits)
  have e: "run_step (MaxScheduleRetryCount * int (lg_fired l1) - int (lg_retried l1)) st st1"
    using sched_step_effect [OF Cons.prems(1) one] by (simp add: step_effect_def)
  then have "runs_ok st1" by (simp add: run_step_def)
  from run_step_trans [OF e Cons.IH [OF this rest]] show ?case
    by (simp add: lg algebra_simps)
qed

lemma sched_run_reports:
  "runs_ok st \<Longrightarrow> sched_run env ops st = (lg, st') \<Longrightarrow>
   distinct (lg_reported lg) \<and>
   (\<forall>k \<in> set (lg_reported lg). sd_run_seq st < k \<or> (\<exists>q \<in> set (sd_runs st). sr_id q = k \<and> open_run q))"
proof (induction ops arbitrary: st lg)
  case Nil
  then show ?case by auto
next
  case (Cons op ops)
  obtain l1 st1 where one: "sched_step env op st = (l1, st1)" by fastforce
  obtain l2 where rest: "sched_run env ops st1 = (l2, st')"
    and lg: "lg_reported lg = lg_reported l1 @ lg_reported l2"
    using Cons.prems(2) by (auto simp: one split: prod.splits)
  have e: "evolves st st1" "runs_ok st1" and now: "reported_now (lg_reported l1) st st1"
    using sched_step_effect [OF Cons.prems(1) one] by (simp_all add: step_effect_def run_step_def)
  note ih = Cons.IH [OF e(2) rest]
  have seq: "sd_run_seq st \<le> sd_run_seq st1" using e(1) by (simp add: evolves_def)
  have "k \<notin> set (lg_reported l2)" if "k \<in> set (lg_reported l1)" for k
  proof
    assume "k \<in> set (lg_reported l2)"
    then have "sd_run_seq st1 < k \<or> (\<exists>q \<in> set (sd_runs st1). sr_id q = k \<and> open_run q)" using ih by blast
    moreover have "k \<le> sd_run_seq st" "\<not> (\<exists>q \<in> set (sd_runs st1). sr_id q = k \<and> open_run q)"
      using now that by (auto simp: reported_now_def)
    ultimately show False using seq by linarith
  qed
  moreover have "sd_run_seq st < k \<or> (\<exists>q \<in> set (sd_runs st). sr_id q = k \<and> open_run q)"
    if "k \<in> set (lg_reported l2)" for k
  proof -
    from ih that consider "sd_run_seq st1 < k" | q where "q \<in> set (sd_runs st1)" "sr_id q = k" "open_run q" by blast
    then show ?thesis
    proof cases
      case (2 q)
      then consider "sd_run_seq st < sr_id q"
        | p where "p \<in> set (sd_runs st)" "sr_id p = sr_id q" "open_run p \<or> q = p"
        using e(1) by (auto simp: evolves_def)
      then show ?thesis using 2 by cases auto
    qed (use seq in simp)
  qed
  ultimately show ?case using ih now by (auto simp: lg reported_now_def)
qed

lemma fresh_runs_ok: "sd_runs st = [] \<Longrightarrow> runs_ok st \<and> retry_budget st = 0"
  by (simp add: runs_ok_def retry_budget_def)

lemma demo_store_runs: "sd_runs demo_store = []"
  by (simp add: demo_store_def)

lemma demo_history:
  obtains st' where "sched_run demo_env [StartDue (1003 * Second) 10, Jobs failed_jobs,
     Complete (1100 * Second), Jobs no_jobs, StartRetries (1200 * Second) 10] demo_store =
     (\<lparr>lg_fired = 1, lg_retried = 1, lg_reported = [1]\<rparr>, st')"
proof -
  obtain job db where a: "StartDueSchedules demo_env (1003 * Second) 10 demo_store = (Inr [job], demo_running\<lparr>sd_db := db\<rparr>)"
    by (rule demo_started)
  obtain c st1 where b: "CompleteScheduleRuns demo_env (1100 * Second) demo_running = ([c], st1)" "co_RunID c = 1"
    "set_jobs no_jobs st1 = demo_settled"
    by (rule demo_completed)
  obtain job' st where d: "StartDueScheduleRetries demo_env (1200 * Second) 10 demo_settled = (Inr [job'], st)"
    by (rule demo_retried)
  have jobs: "set_jobs failed_jobs (demo_running\<lparr>sd_db := db\<rparr>) = demo_running"
    by (simp add: set_jobs_def demo_running_def demo_run_def failed_jobs_def find_job_def)
  show thesis by (rule that) (simp add: a b d jobs count_inr_def)
qed

text \<open>
  C5: automatic retries come to an end. Over any history of the scheduler that starts without runs,
  with the jobs and templates changing in any way between its operations and whatever retry counts the
  schedules carry, the retries started are at most ten for each run fired by a pass or by hand.
\<close>

theorem retries_bounded:
  assumes "sd_runs st = []" "sched_run env ops st = (lg, st')"
  shows "int (lg_retried lg) \<le> MaxScheduleRetryCount * int (lg_fired lg)"
proof -
  have "run_step (MaxScheduleRetryCount * int (lg_fired lg) - int (lg_retried lg)) st st'"
    using fresh_runs_ok [OF assms(1)] by (intro sched_run_budget [OF _ assms(2)]) simp
  then show ?thesis using fresh_runs_ok [OF assms(1)] retry_budget_nonneg [of st'] unfolding run_step_def by linarith
qed

lemma retries_bounded_witness:
  "\<exists>lg st'. sched_run demo_env
     [StartDue (1003 * Second) 10, Jobs failed_jobs,
      Complete (1100 * Second), Jobs no_jobs, StartRetries (1200 * Second) 10] demo_store = (lg, st') \<and>
    lg_retried lg = 1 \<and> int (lg_retried lg) \<le> MaxScheduleRetryCount * int (lg_fired lg)"
  using demo_history retries_bounded [of demo_store demo_env]
  by (metis demo_store_runs sched_log.select_convs(2))

text \<open>
  C23: the outcome of a run is reported once. Over any history of the scheduler that starts without runs
  no run is completed twice, so that no export is built twice and no failed run is retried twice.
\<close>

theorem outcome_reported_once:
  assumes "sd_runs st = []" "sched_run env ops st = (lg, st')"
  shows "distinct (lg_reported lg)"
  using fresh_runs_ok [OF assms(1)] sched_run_reports [OF _ assms(2)] by simp

lemma outcome_reported_once_witness:
  "\<exists>lg st'. sched_run demo_env
     [StartDue (1003 * Second) 10, Jobs failed_jobs,
      Complete (1100 * Second), Jobs no_jobs, StartRetries (1200 * Second) 10] demo_store = (lg, st') \<and>
    lg_reported lg = [1] \<and> distinct (lg_reported lg)"
  using demo_history outcome_reported_once [of demo_store demo_env]
  by (metis demo_store_runs sched_log.select_convs(3))

section \<open>The tables stay well formed\<close>

text \<open>
  What a row of \<open>schedule_runs\<close> may be: waiting for its job, waiting for its retry, or over, with the
  moment it ended.
\<close>

definition settled_states :: "string set" where
  "settled_states = {''skipped'', ''completed'', ''partial'', ''failed'', ''cancelled''}"

definition run_wf :: "RunRow \<Rightarrow> bool" where
  "run_wf r \<longleftrightarrow>
     sr_state r = ''queued'' \<and> sr_finished_at r = None \<and> 1 \<le> sr_attempt r \<or>
     sr_state r = ''retry_pending'' \<and> sr_job_id r = None \<and> sr_finished_at r = None \<and> 2 \<le> sr_attempt r \<or>
     sr_state r \<in> settled_states \<and> sr_finished_at r \<noteq> None \<and> 1 \<le> sr_attempt r"

definition tables_wf :: "Store \<Rightarrow> bool" where
  "tables_wf st \<longleftrightarrow> distinct (map sh_id (sd_schedules st)) \<and> distinct (map sr_id (sd_runs st)) \<and>
     (\<forall>r \<in> set (sd_runs st). sr_id r \<le> sd_run_seq st \<and> sr_schedule_id r \<in> sh_id ` set (sd_schedules st) \<and> run_wf r)"

lemma wf_frame:
  "tables_wf st \<Longrightarrow> map sh_id (sd_schedules st') = map sh_id (sd_schedules st) \<Longrightarrow> sd_runs st' = sd_runs st \<Longrightarrow>
   sd_run_seq st' = sd_run_seq st \<Longrightarrow> tables_wf st'"
  unfolding tables_wf_def by (metis list.set_map)

lemma wf_insert:
  assumes "tables_wf st" "sid \<in> sh_id ` set (sd_schedules st)"
    "run_wf \<lparr>sr_id = sd_run_seq st + 1, sr_schedule_id = sid, sr_job_id = job, sr_state = state,
       sr_scheduled_for = t0, sr_started_at = None, sr_finished_at = fin, sr_attempt = k, sr_error = err\<rparr>"
  shows "tables_wf (insert_run sid job state t0 fin k err st)"
proof -
  have "sd_run_seq st + 1 \<notin> sr_id ` set (sd_runs st)" using assms(1) by (force simp: tables_wf_def)
  then show ?thesis using assms by (auto simp: tables_wf_def)
qed

lemma map_update_where: "(\<And>x. p x \<Longrightarrow> key (f x) = key x) \<Longrightarrow> map key (update_where p f rows) = map key rows"
  by (induction rows) auto

lemma wf_update:
  assumes "tables_wf st" "sd_runs st' = update_where p f (sd_runs st)" "sd_run_seq st' = sd_run_seq st"
    and "map sh_id (sd_schedules st') = map sh_id (sd_schedules st)"
    and "\<And>q. sr_id (f q) = sr_id q" "\<And>q. sr_schedule_id (f q) = sr_schedule_id q"
    and "\<And>q. q \<in> set (sd_runs st) \<Longrightarrow> p q \<Longrightarrow> run_wf q \<Longrightarrow> run_wf (f q)"
  shows "tables_wf st'"
proof -
  have "sh_id ` set (sd_schedules st') = sh_id ` set (sd_schedules st)" using assms(4) by (metis list.set_map)
  then show ?thesis
    using assms(1,4,7) by (auto simp: tables_wf_def assms(2,3,5,6) map_update_where set_update_where split: if_splits)
qed

lemma find_schedule_id_in: "find_schedule sid st = Some r \<Longrightarrow> sid \<in> sh_id ` set (sd_schedules st)"
  by (auto dest!: find_schedule_id)

lemma getSchedule_id_in: "getSchedule sid st = Inr s \<Longrightarrow> sid \<in> sh_id ` set (sd_schedules st) \<and> sc_ID s = sid"
  by (auto simp: getSchedule_def scanSchedule_def dest: find_schedule_id split: option.splits)

lemma wf_advance: "tables_wf st \<Longrightarrow> tables_wf (advance_schedule now sid d e n st)"
  by (erule wf_frame) (simp_all add: advance_schedule_def map_update_where)

lemma wf_quarantine:
  assumes "tables_wf st" shows "tables_wf (quarantineDueSchedule env sid d now cause st)"
proof -
  let ?hit = "\<lambda>r. sh_id r = sid \<and> sh_enabled r \<and> sh_next_run_at r = Some d"
  let ?off = "\<lambda>r. r\<lparr>sh_enabled := False, sh_next_run_at := None, sh_last_run_at := Some now, sh_updated_at := now\<rparr>"
  let ?st = "st\<lparr>sd_schedules := update_where ?hit ?off (sd_schedules st)\<rparr>"
  have off: "tables_wf ?st" by (rule wf_frame [OF assms]) (simp_all add: map_update_where)
  show ?thesis
  proof (cases "count_where ?hit (sd_schedules st) = 0")
    case False
    have "map sh_id (sd_schedules ?st) = map sh_id (sd_schedules st)" by (simp add: map_update_where)
    from arg_cong [OF this, of set] have ids: "sh_id ` set (sd_schedules ?st) = sh_id ` set (sd_schedules st)"
      by (simp only: list.set_map)
    have "\<exists>r \<in> set (sd_schedules st). ?hit r" using False by (auto simp: count_where_0)
    then have "sid \<in> sh_id ` set (sd_schedules ?st)" unfolding ids by auto
    then have "tables_wf (insert_run sid None ''failed'' d (Some now) 1 (RedactString (sv_env env) cause) ?st)"
      by (rule wf_insert [OF off]) (simp add: run_wf_def settled_states_def)
    then show ?thesis
      unfolding quarantineDueSchedule_def Let_def if_not_P [OF False] by (rule wf_frame) simp_all
  qed (use assms in \<open>simp add: quarantineDueSchedule_def Let_def\<close>)
qed

lemma wf_enqueue:
  assumes "tables_wf st" "enqueueSchedule env now s t0 st = Inr (job, st1)" "sc_ID s \<in> sh_id ` set (sd_schedules st)"
  shows "tables_wf st1"
proof -
  obtain st0 where c: "createScheduleJob env now s t0 1 st = Inr (job, st0)"
    and st1: "st1 = insert_run (sc_ID s) (Some (job_ID job)) ''queued'' (Unix t0) None 1 [] st0"
    using assms(2) by (auto simp: enqueueSchedule_def split: sum.splits prod.splits)
  have "tables_wf st0" by (rule wf_frame [OF assms(1)]) (simp_all add: createScheduleJob_frame [OF c])
  then show ?thesis unfolding st1
    by (rule wf_insert) (use assms(3) in \<open>simp_all add: createScheduleJob_frame [OF c] run_wf_def\<close>)
qed

lemma wf_start_one:
  assumes wf: "tables_wf st" and res: "start_one env now item st = Inr (job, st')"
  shows "tables_wf st'"
proof -
  obtain sid d where item: "item = (sid, d)" by (cases item)
  have skip: "tables_wf (advance_schedule (Unix now) sid d e n (insert_run sid None ''skipped'' d (Some (Unix now)) 1 why st))"
    if "getSchedule sid st = Inr s" for e n why s
    by (intro wf_advance wf_insert wf)
      (use getSchedule_id_in [OF that] in \<open>simp_all add: run_wf_def settled_states_def\<close>)
  have start: "tables_wf (advance_schedule (Unix now) sid d e n st1)"
    if "getSchedule sid st = Inr s" "enqueueSchedule env (Unix now) s t0 st = Inr (j, st1)" for e n s t0 j st1
    by (intro wf_advance wf_enqueue [OF wf that(2)]) (use getSchedule_id_in [OF that(1)] in simp)
  show ?thesis
    using res wf wf_quarantine [OF wf] skip start
    by (auto simp: start_one_def item Let_def split: sum.splits store_error.splits prod.splits if_splits)
qed

lemma wf_start_each: "tables_wf st \<Longrightarrow> start_each env now items st = Inr (jobs, st') \<Longrightarrow> tables_wf st'"
proof (induction items arbitrary: st jobs)
  case (Cons item items)
  then obtain job st1 jobs1 where "start_one env now item st = Inr (job, st1)"
    "start_each env now items st1 = Inr (jobs1, st')"
    by (auto split: sum.splits)
  then show ?case using Cons.IH wf_start_one Cons.prems(1) by blast
qed simp

lemma wf_settle_run:
  assumes wf: "tables_wf st" and x: "rt_state (snd (snd x)) \<in> finished_states"
    "sr_schedule_id (run_of x) \<in> sh_id ` set (sd_schedules st)" "1 \<le> sr_attempt (run_of x)"
    and res: "settle_run env now x st = (c, st')"
  shows "tables_wf st' \<and> sd_schedules st' = sd_schedules st"
proof -
  obtain r s rt where split: "x = (r, s, rt)" by (cases x)
  define f where "f = set_settled (string_of_State (rt_state rt)) (rt_started_at rt)
    (case rt_finished_at rt of None \<Rightarrow> Unix now | Some t \<Rightarrow> t)
    (if rt_state rt \<in> {StateFailed, StateCancelled} then RedactString (sv_env env) (rt_message rt) else [])"
  define st1 where "st1 = st\<lparr>sd_runs := update_where (\<lambda>q. sr_id q = sr_id r \<and> sr_state q = ''queued'') f (sd_runs st)\<rparr>"
  have keep: "sr_id (f q) = sr_id q" "sr_schedule_id (f q) = sr_schedule_id q" for q
    by (simp_all add: f_def set_settled_def)
  have "rt_state rt \<in> finished_states" using x(1) by (simp add: split)
  then have closed: "run_wf (f q)" if "run_wf q" for q
    using that by (auto simp: f_def run_wf_def set_settled_def finished_states_def settled_states_def)
  have wf1: "tables_wf st1"
    by (rule wf_update [OF wf, where f = f and p = "\<lambda>q. sr_id q = sr_id r \<and> sr_state q = ''queued''"])
      (simp_all add: st1_def closed keep)
  have st': "st' = (if rt_state rt = StateFailed \<and> ScheduleRetryAllowed (sh_retry_count s) (sr_attempt r)
    then insert_run (sr_schedule_id r) None ''retry_pending''
      (Unix (now + ScheduleRetryDelay (sh_retry_backoff_seconds s) (sr_attempt r))) None (sr_attempt r + 1) [] st1
    else st1)"
    using res by (auto simp: split settle_run_def Let_def f_def st1_def)
  show ?thesis
    using wf1 x(2,3) unfolding st'
    by (auto simp: split run_of_def run_wf_def st1_def [THEN arg_cong, of sd_schedules] intro!: wf_insert)
qed

lemma wf_settle_each:
  "tables_wf st \<Longrightarrow>
   \<forall>x \<in> set xs. rt_state (snd (snd x)) \<in> finished_states \<and>
     sr_schedule_id (run_of x) \<in> sh_id ` set (sd_schedules st) \<and> 1 \<le> sr_attempt (run_of x) \<Longrightarrow>
   settle_each env now xs st = (cs, st') \<Longrightarrow> tables_wf st'"
proof (induction xs arbitrary: st cs)
  case (Cons x xs)
  obtain c st1 where one: "settle_run env now x st = (c, st1)" by fastforce
  obtain cs1 where rest: "settle_each env now xs st1 = (cs1, st')"
    using Cons.prems(3) by (auto simp: one split: prod.splits)
  have "tables_wf st1" "sd_schedules st1 = sd_schedules st"
    using wf_settle_run [OF Cons.prems(1) _ _ _ one] Cons.prems(2) by auto
  then show ?case using Cons.IH [OF _ _ rest] Cons.prems(2) by simp
qed simp

lemma wf_ok: "tables_wf st \<Longrightarrow> r \<in> set (sd_runs st) \<Longrightarrow>
  sr_schedule_id r \<in> sh_id ` set (sd_schedules st) \<and> 1 \<le> sr_attempt r \<and> run_wf r"
  by (auto simp: tables_wf_def run_wf_def)

lemma finishedRuns_members:
  "x \<in> set (finishedRuns st) \<Longrightarrow> run_of x \<in> set (sd_runs st) \<and> rt_state (snd (snd x)) \<in> finished_states"
  by (auto simp: finishedRuns_def List.map_filter_def run_of_def split: option.splits if_splits)

lemma wf_Complete: "tables_wf st \<Longrightarrow> CompleteScheduleRuns env now st = (cs, st') \<Longrightarrow> tables_wf st'"
  unfolding CompleteScheduleRuns_def
  by (erule wf_settle_each [rotated 2]) (auto dest!: finishedRuns_members wf_ok)

lemma wf_retry_one:
  assumes wf: "tables_wf st" and pending: "sr_state r = ''retry_pending''" "r \<in> set (sd_runs st)"
    and res: "retry_one env now r st = Inr (job, st')"
  shows "tables_wf st' \<and> (\<forall>q \<in> set (sd_runs st). sr_id q \<noteq> sr_id r \<longrightarrow> q \<in> set (sd_runs st'))"
proof -
  let ?hit = "\<lambda>q. sr_id q = sr_id r"
  have r: "2 \<le> sr_attempt r" "r \<in> set (sd_runs st)" "sr_finished_at r = None"
    using wf_ok [OF wf pending(2)] pending by (simp_all add: run_wf_def settled_states_def)
  have only: "q = r" if "q \<in> set (sd_runs st)" "sr_id q = sr_id r" for q
    using wf r(2) that by (auto simp: tables_wf_def distinct_map inj_on_def)
  have other: "\<forall>q \<in> set (sd_runs st). sr_id q \<noteq> sr_id r \<longrightarrow> q \<in> set (update_where ?hit f (sd_runs st))" for f
    by (force simp: set_update_where)
  have step: "tables_wf st1 \<and> (\<forall>q \<in> set (sd_runs st). sr_id q \<noteq> sr_id r \<longrightarrow> q \<in> set (sd_runs st1))"
    if "sd_runs st1 = update_where ?hit f (sd_runs st)" "sd_run_seq st1 = sd_run_seq st"
      "map sh_id (sd_schedules st1) = map sh_id (sd_schedules st)"
      "\<And>q. sr_id (f q) = sr_id q" "\<And>q. sr_schedule_id (f q) = sr_schedule_id q" "run_wf (f r)" for f st1
    using wf_update [OF wf that(1-5)] only that(1,6) other [of f] by auto
  show ?thesis
  proof (cases job)
    case (Some j)
    let ?start = "\<lambda>q. q\<lparr>sr_job_id := Some (job_ID j), sr_state := ''queued'', sr_error := []\<rparr>"
    obtain s st1 where c: "createScheduleJob env (Unix now) s (of_unix (sr_scheduled_for r)) (sr_attempt r) st = Inr (j, st1)"
      and st': "sd_runs st' = update_where ?hit ?start (sd_runs st1)" "sd_run_seq st' = sd_run_seq st1"
        "sd_schedules st' = update_where (\<lambda>q. sh_id q = sr_schedule_id r)
              (\<lambda>q. q\<lparr>sh_last_run_at := Some (Unix now), sh_updated_at := Unix now\<rparr>) (sd_schedules st1)"
      using res Some by (auto simp: retry_one_def split: sum.splits store_error.splits prod.splits)
    note same = createScheduleJob_frame [OF c]
    show ?thesis
      by (rule step [of st' ?start])
        (use r in \<open>simp_all add: st' same map_update_where run_wf_def\<close>)
  next
    case None
    then consider "st' = st"
      | e where "sd_runs st' = update_where ?hit (\<lambda>q. q\<lparr>sr_state := ''failed'', sr_finished_at := Some (Unix now), sr_error := e\<rparr>) (sd_runs st)"
        "sd_run_seq st' = sd_run_seq st" "sd_schedules st' = sd_schedules st"
      using res by (auto simp: retry_one_def split: sum.splits store_error.splits prod.splits)
    then show ?thesis
    proof cases
      case (2 e)
      show ?thesis by (rule step [of st' "\<lambda>q. q\<lparr>sr_state := ''failed'', sr_finished_at := Some (Unix now), sr_error := e\<rparr>"])
        (use 2 r(1) in \<open>simp_all add: run_wf_def settled_states_def\<close>)
    qed (use wf in simp)
  qed
qed

lemma wf_retry_each:
  "tables_wf st \<Longrightarrow> distinct (map sr_id rs) \<Longrightarrow> \<forall>r \<in> set rs. r \<in> set (sd_runs st) \<and> sr_state r = ''retry_pending'' \<Longrightarrow>
   retry_each env now rs st = Inr (jobs, st') \<Longrightarrow> tables_wf st'"
proof (induction rs arbitrary: st jobs)
  case (Cons r rs)
  obtain job st1 jobs1 where one: "retry_one env now r st = Inr (job, st1)"
    and rest: "retry_each env now rs st1 = Inr (jobs1, st')"
    using Cons.prems(4) by (auto split: sum.splits)
  have e: "tables_wf st1" "\<And>q. q \<in> set (sd_runs st) \<Longrightarrow> sr_id q \<noteq> sr_id r \<Longrightarrow> q \<in> set (sd_runs st1)"
    using wf_retry_one [OF Cons.prems(1) _ _ one] Cons.prems(3) by auto
  have "sr_id q \<noteq> sr_id r" if "q \<in> set rs" for q
    using Cons.prems(2) that by (auto simp: image_iff)
  then show ?case using Cons.prems(2,3) e by (intro Cons.IH [OF e(1) _ _ rest]) auto
qed simp

lemma dueRetries_wf:
  assumes "tables_wf st"
  shows "distinct (map sr_id (dueRetries now limit st))"
    "\<forall>r \<in> set (dueRetries now limit st). r \<in> set (sd_runs st) \<and> sr_state r = ''retry_pending''"
proof -
  show "distinct (map sr_id (dueRetries now limit st))"
    using assms unfolding dueRetries_def tables_wf_def
    by (auto simp: distinct_map intro: inj_on_subset dest!: in_set_takeD)
  show "\<forall>r \<in> set (dueRetries now limit st). r \<in> set (sd_runs st) \<and> sr_state r = ''retry_pending''"
    by (auto simp: dueRetries_def dest!: in_set_takeD)
qed

lemma wf_filter:
  "tables_wf st \<Longrightarrow> sd_runs st' = filter p (sd_runs st) \<Longrightarrow> sd_run_seq st' = sd_run_seq st \<Longrightarrow>
   distinct (map sh_id (sd_schedules st')) \<Longrightarrow>
   (\<And>r. r \<in> set (sd_runs st) \<Longrightarrow> p r \<Longrightarrow> sr_schedule_id r \<in> sh_id ` set (sd_schedules st')) \<Longrightarrow> tables_wf st'"
  by (auto simp: tables_wf_def distinct_map_filter)

lemma wf_Save:
  assumes wf: "tables_wf st" shows "tables_wf (snd (SaveSchedule now s st))"
proof (cases "list_ex (\<lambda>t. tp_id t = sc_TemplateID s) (sd_templates st)")
  case True
  then consider rows where "find_schedule (sc_ID s) st = None" "snd (SaveSchedule now s st) = st\<lparr>sd_schedules := rows\<rparr>"
      "map sh_id rows = map sh_id (sd_schedules st) @ [sc_ID s]"
    | rows where "snd (SaveSchedule now s st) = st\<lparr>sd_schedules := rows\<rparr>" "map sh_id rows = map sh_id (sd_schedules st)"
    by (cases "find_schedule (sc_ID s) st = None") (auto simp: SaveSchedule_def Let_def map_update_where)
  then show ?thesis
  proof cases
    case 1
    have "sc_ID s \<notin> set (map sh_id (sd_schedules st))" using 1(1) by (auto simp: find_schedule_def find_None_iff)
    moreover have "sh_id ` set rows = insert (sc_ID s) (sh_id ` set (sd_schedules st))"
      using arg_cong [OF 1(3), of set] by simp
    ultimately show ?thesis using wf by (auto simp: 1(2,3) tables_wf_def)
  next
    case 2
    show ?thesis by (rule wf_frame [OF wf]) (simp_all add: 2)
  qed
qed (use wf in \<open>simp add: SaveSchedule_def Let_def\<close>)

lemma wf_Delete: "tables_wf st \<Longrightarrow> tables_wf (snd (DeleteSchedule sid st))"
  by (auto simp: DeleteSchedule_def tables_wf_def distinct_map_filter)

lemma wf_SetEnabled: "tables_wf st \<Longrightarrow> tables_wf (snd (SetScheduleEnabled env now sid on st))"
  by (auto simp: SetScheduleEnabled_def map_update_where split: sum.split elim: wf_frame)

lemma wf_sched_step:
  assumes wf: "tables_wf st" and res: "sched_step env op st = (lg, st')"
  shows "tables_wf st'"
proof (cases op)
  case (RunNow now sid)
  obtain answer st1 where r: "RunScheduleNow env now sid st = (answer, st1)" by fastforce
  have st': "st' = st1" using res by (simp add: RunNow r)
  show ?thesis
  proof (cases answer)
    case (Inl e)
    then show ?thesis using r wf by (auto simp: st' RunScheduleNow_def split: sum.splits)
  next
    case (Inr job)
    then obtain s st0 where g: "getSchedule sid st = Inr s" and q: "enqueueSchedule env (Unix now) s now st = Inr (job, st0)"
      and st1: "st1 = st0\<lparr>sd_schedules := update_where (\<lambda>r. sh_id r = sid)
            (\<lambda>r. r\<lparr>sh_last_run_at := Some (Unix now), sh_updated_at := Unix now\<rparr>) (sd_schedules st0)\<rparr>"
      using r by (auto simp: RunScheduleNow_def split: sum.splits)
    have "tables_wf st0" by (rule wf_enqueue [OF wf q]) (use getSchedule_id_in [OF g] in simp)
    then show ?thesis unfolding st' st1 by (rule wf_frame) (simp_all add: map_update_where)
  qed
next
  case (StartDue now limit)
  then show ?thesis using res wf wf_start_each [OF wf]
    by (auto simp: StartDueSchedules_def split: sum.splits prod.splits)
next
  case (StartRetries now limit)
  then show ?thesis using res wf wf_retry_each [OF wf dueRetries_wf [OF wf]]
    by (auto simp: StartDueScheduleRetries_def split: sum.splits prod.splits)
next
  case (Complete now)
  then show ?thesis using res wf_Complete [OF wf] by (auto split: prod.splits)
next
  case (Prune now)
  have "st' = snd (PruneScheduleRuns now st)" using res by (simp add: Prune)
  then show ?thesis
    by (intro wf_filter [OF wf, where p = "\<lambda>r. \<not> expired_run (Unix now) st r"])
      (use wf in \<open>auto simp: PruneScheduleRuns_def Let_def tables_wf_def\<close>)
next
  case (Jobs db)
  have st': "st' = set_jobs db st" using res by (simp add: Jobs)
  let ?f = "\<lambda>r. r\<lparr>sr_job_id := (case sr_job_id r of None \<Rightarrow> None | Some j \<Rightarrow>
    if find_job j db = None then None else Some j)\<rparr>"
  show ?thesis
    by (rule wf_update [OF wf, where f = ?f and p = "\<lambda>_. True"])
      (auto simp: st' set_jobs_def update_where_def run_wf_def)
next
  case (Templates ts)
  show ?thesis by (rule wf_frame [OF wf]) (use res in \<open>auto simp: Templates set_templates_def\<close>)
qed (use res wf_Save [OF wf] wf_SetEnabled [OF wf] wf_Delete [OF wf] in auto)

lemma wf_sched_run: "tables_wf st \<Longrightarrow> sched_run env ops st = (lg, st') \<Longrightarrow> tables_wf st'"
proof (induction ops arbitrary: st lg)
  case (Cons op ops)
  obtain l1 st1 where one: "sched_step env op st = (l1, st1)" by fastforce
  obtain l2 where "sched_run env ops st1 = (l2, st')"
    using Cons.prems(2) by (auto simp: one split: prod.splits)
  then show ?case by (rule Cons.IH [OF wf_sched_step [OF Cons.prems(1) one]])
qed simp

text \<open>
  C24: the scheduler's tables stay well typed. Over any history, starting without runs and with distinct
  schedules, every row of \<open>schedule_runs\<close> belongs to a stored schedule and is in one of three shapes: queued
  with no end, waiting for a retry as a second or later attempt without a job, or settled in
  one of five states with the moment it ended; identifiers are never handed out twice.
\<close>

theorem schedule_tables_well_typed:
  assumes "sd_runs st = []" "distinct (map sh_id (sd_schedules st))" "sched_run env ops st = (lg, st')"
  shows "tables_wf st'"
  by (rule wf_sched_run [OF _ assms(3)]) (simp add: tables_wf_def assms(1,2))

lemma schedule_tables_well_typed_witness:
  "\<exists>lg st'. sched_run demo_env
     [StartDue (1003 * Second) 10, Jobs failed_jobs,
      Complete (1100 * Second), Jobs no_jobs, StartRetries (1200 * Second) 10] demo_store = (lg, st') \<and>
    lg_retried lg = 1 \<and> tables_wf st'"
proof -
  have "distinct (map sh_id (sd_schedules demo_store))" by (simp add: demo_store_def)
  then show ?thesis
    using demo_history schedule_tables_well_typed [OF demo_store_runs, of demo_env]
    by (metis sched_log.select_convs(2))
qed

end
