(* ===== verification/ExactIdentity.thy ===== *)
theory ExactIdentity
  imports Similarity Database
begin

text \<open>
  Exact identity of imported listings, \<open>web/resultimport/identity.go\<close>: the identity keys of a record, the
  hashes that name it, and the grouping of records that share keys by a union-find with path
  compression. The fields of a record are those the identity rules read. SHA-256 and the shortest
  decimal of a float are arguments.
\<close>

section \<open>Records\<close>

record IdentityKey =
  ik_Kind :: string
  ik_Value :: string

definition IdentityPlaceID :: string where "IdentityPlaceID = ''place_id''"
definition IdentityCID :: string where "IdentityCID = ''cid''"
definition IdentityDataID :: string where "IdentityDataID = ''data_id''"
definition IdentityPhone :: string where "IdentityPhone = ''phone''"
definition IdentityDomain :: string where "IdentityDomain = ''domain''"
definition IdentityAddress :: string where "IdentityAddress = ''address''"

definition IdentityKey_String :: "IdentityKey \<Rightarrow> string" where
  "IdentityKey_String k = ik_Kind k @ '':'' @ ik_Value k"

record Phone =
  ph_Normalized :: string
  ph_MatchKey :: string

record Business =
  bu_ID :: string
  bu_CanonicalIdentityKey :: string
  bu_IdentityKeys :: "IdentityKey list"
  bu_Name :: string
  bu_NormalizedName :: string
  bu_NormalizedCategory :: string
  bu_AddressNormalized :: string
  bu_City :: string
  bu_PostalCode :: string
  bu_Domain :: string
  bu_Phones :: "Phone list"
  bu_PlaceID :: string
  bu_CID :: string
  bu_DataID :: string
  bu_Latitude :: "f64 option"
  bu_Longitude :: "f64 option"

section \<open>Keys and hashes\<close>

definition appendKey :: "string \<Rightarrow> string \<Rightarrow> IdentityKey list \<Rightarrow> IdentityKey list" where
  "appendKey kind raw keys =
     (let value = TrimSpace raw; key = \<lparr>ik_Kind = kind, ik_Value = value\<rparr>
      in if value = [] \<or> key \<in> set keys then keys else keys @ [key])"

definition exactIdentityKeys :: "Business \<Rightarrow> IdentityKey list" where
  "exactIdentityKeys b =
     (let keys3 = appendKey IdentityDataID (bu_DataID b) (appendKey IdentityCID (bu_CID b)
            (appendKey IdentityPlaceID (bu_PlaceID b) []));
          keys4 = fold (\<lambda>phone. appendKey IdentityPhone (ph_MatchKey phone)) (bu_Phones b) keys3;
          keys5 = appendKey IdentityDomain (bu_Domain b) keys4
      in if 6 \<le> length (runes (bu_AddressNormalized b))
         then appendKey IdentityAddress (bu_AddressNormalized b) keys5 else keys5)"

text \<open>The eight bytes of a length, most significant first, before each part.\<close>

definition big_endian8 :: "nat \<Rightarrow> string" where
  "big_endian8 n = map (\<lambda>i. char_of (n div 256 ^ (7 - i) mod 256)) [0 ..< 8]"

definition writeHashPart :: "string \<Rightarrow> string" where
  "writeHashPart value = big_endian8 (length value) @ value"

definition hash_input :: "string \<Rightarrow> string list \<Rightarrow> string" where
  "hash_input namespace parts = writeHashPart namespace @ concat (map writeHashPart parts)"

record HashEnv =
  he_Sum256 :: "string \<Rightarrow> string"
  he_FormatFloat :: "f64 \<Rightarrow> string"

definition hashParts :: "HashEnv \<Rightarrow> string \<Rightarrow> string list \<Rightarrow> string" where
  "hashParts env namespace parts = hex_encode (he_Sum256 env (hash_input namespace parts))"

definition floatValue :: "HashEnv \<Rightarrow> f64 option \<Rightarrow> string" where
  "floatValue env v = (case v of None \<Rightarrow> [] | Some x \<Rightarrow> he_FormatFloat env x)"

definition authoritative :: "IdentityKey \<Rightarrow> bool" where
  "authoritative k \<longleftrightarrow> ik_Kind k \<in> {IdentityPlaceID, IdentityCID, IdentityDataID}"

definition canonicalIdentityKey :: "HashEnv \<Rightarrow> Business \<Rightarrow> string \<Rightarrow> string" where
  "canonicalIdentityKey env b rawHash =
     (case find authoritative (bu_IdentityKeys b) of
        Some k \<Rightarrow> IdentityKey_String k
      | None \<Rightarrow>
        let parts = [bu_NormalizedName b, bu_NormalizedCategory b, bu_AddressNormalized b,
              floatValue env (bu_Latitude b), floatValue env (bu_Longitude b)]
        in if bu_IdentityKeys b \<noteq> []
           then ''fallback:'' @ hashParts env ''fallback-v2'' (parts @ map IdentityKey_String (bu_IdentityKeys b))
           else ''fallback:'' @ hashParts env ''fallback-v1'' (parts @ [rawHash]))"

section \<open>Matching keys\<close>

definition identityPriority :: "string \<Rightarrow> nat" where
  "identityPriority kind =
     (if kind = IdentityPlaceID then 0 else if kind = IdentityCID then 1 else if kind = IdentityDataID then 2
      else if kind = IdentityPhone then 3 else if kind = IdentityDomain then 4
      else if kind = IdentityAddress then 5 else 6)"

definition identity_less :: "IdentityKey \<Rightarrow> IdentityKey \<Rightarrow> bool" where
  "identity_less l r =
     (if ik_Kind l = ik_Kind r then ik_Value l < ik_Value r
      else identityPriority (ik_Kind l) < identityPriority (ik_Kind r))"

text \<open>\<open>sort.Slice\<close>: over keys of the six kinds the order is total, so every sorting gives this list.\<close>

definition sortIdentityKeys :: "IdentityKey list \<Rightarrow> IdentityKey list" where
  "sortIdentityKeys keys = SliceStable identity_less keys"

definition ExactMatchKeys :: "Business \<Rightarrow> Business \<Rightarrow> IdentityKey list" where
  "ExactMatchKeys left right =
     sortIdentityKeys (filter (\<lambda>k. IdentityKey_String k \<in> IdentityKey_String ` set (bu_IdentityKeys right))
       (bu_IdentityKeys left))"

definition IsExactDuplicate :: "Business \<Rightarrow> Business \<Rightarrow> bool" where
  "IsExactDuplicate left right \<longleftrightarrow> ExactMatchKeys left right \<noteq> []"

section \<open>Union-find\<close>

text \<open>\<open>find\<close> with path compression: the root and the parents afterwards; \<open>None\<close> would be no answer.\<close>

partial_function (option) uf_find :: "nat list \<Rightarrow> nat \<Rightarrow> (nat \<times> nat list) option" where
  "uf_find parents v =
     (if parents ! v = v then Some (v, parents)
      else Option.bind (uf_find parents (parents ! v)) (\<lambda>(root, parents1). Some (root, parents1[v := root])))"

definition uf_union :: "nat list \<Rightarrow> nat \<Rightarrow> nat \<Rightarrow> nat list option" where
  "uf_union parents left right =
     Option.bind (uf_find parents left) (\<lambda>(leftRoot, parents1).
     Option.bind (uf_find parents1 right) (\<lambda>(rightRoot, parents2).
       Some (if leftRoot = rightRoot then parents2
         else if leftRoot < rightRoot then parents2[rightRoot := leftRoot]
         else parents2[leftRoot := rightRoot])))"

type_synonym grouping = "nat list \<times> (string \<rightharpoonup> nat)"

definition add_key :: "nat \<Rightarrow> IdentityKey \<Rightarrow> grouping \<Rightarrow> grouping option" where
  "add_key index key g =
     (let (parents, owners) = g; qualified = IdentityKey_String key
      in case owners qualified of
           Some owner \<Rightarrow> Option.bind (uf_union parents index owner) (\<lambda>ps. Some (ps, owners))
         | None \<Rightarrow> Some (parents, owners(qualified \<mapsto> index)))"

fun add_keys :: "nat \<Rightarrow> IdentityKey list \<Rightarrow> grouping \<Rightarrow> grouping option" where
  "add_keys index [] g = Some g"
| "add_keys index (k # ks) g = Option.bind (add_key index k g) (add_keys index ks)"

fun add_records :: "nat \<Rightarrow> Business list \<Rightarrow> grouping \<Rightarrow> grouping option" where
  "add_records index [] g = Some g"
| "add_records index (b # bs) g = Option.bind (add_keys index (bu_IdentityKeys b) g) (add_records (index + 1) bs)"

text \<open>The root of every index, in order.\<close>

fun roots_of :: "nat list \<Rightarrow> nat list \<Rightarrow> nat list option" where
  "roots_of [] parents = Some []"
| "roots_of (i # is) parents =
     Option.bind (uf_find parents i) (\<lambda>(root, parents1). Option.bind (roots_of is parents1) (\<lambda>rs. Some (root # rs)))"

record DuplicateGroup =
  dg_Records :: "nat list"
  dg_Keys :: "IdentityKey list"

text \<open>The keys that at least two of the records carry, one for each qualified key.\<close>

definition group_keys :: "Business list \<Rightarrow> nat list \<Rightarrow> IdentityKey list" where
  "group_keys records indexes =
     (let keys = concat (map (\<lambda>i. bu_IdentityKeys (records ! i)) indexes);
          quals = map IdentityKey_String keys
      in sortIdentityKeys (filter (\<lambda>k. 1 < count_list quals (IdentityKey_String k)) (map (\<lambda>q. last (filter (\<lambda>k. IdentityKey_String k = q) keys)) (remdups quals))))"

definition GroupExactDuplicates :: "Business list \<Rightarrow> DuplicateGroup list option" where
  "GroupExactDuplicates records =
     (if length records < 2 then Some []
      else
        Option.bind (add_records 0 records ([0 ..< length records], Map.empty)) (\<lambda>(parents, owners).
        Option.bind (roots_of [0 ..< length records] parents) (\<lambda>rs.
          let members = (\<lambda>root. filter (\<lambda>i. rs ! i = root) [0 ..< length records]);
              roots = sort (filter (\<lambda>root. 1 < length (members root)) (remdups rs))
          in Some (map (\<lambda>root. \<lparr>dg_Records = members root, dg_Keys = group_keys records (members root)\<rparr>) roots))))"

end
