(* ===== verification/Listings.thy ===== *)
theory Listings
  imports ExactIdentity FailureKinds
begin

text \<open>
  The tables of stored listings that entity resolution and duplicate review share, the columns they read
  or write under their schema names (\<open>migrations.go\<close>), with the statements both use. A nullable text
  that the code reads through \<open>COALESCE(..., '')\<close> is the empty string when it is NULL; the references
  of links and keys to the observation that made them are left out. Evidence and audit details are kept as
  the values that the code encodes as JSON.
\<close>

section \<open>Results\<close>

datatype review_error =
    ErrDuplicateReviewUnsupported
  | ErrDuplicateCandidateNotFound
  | ErrDuplicateAlreadyResolved
  | ErrInvalidDuplicateDecision
  | ErrBusinessNotFound
  | ConstraintFailed
  | NoRows

fun and_then :: "'e + 'a \<Rightarrow> ('a \<Rightarrow> 'e + 'b) \<Rightarrow> 'e + 'b" where
  "and_then (Inl e) f = Inl e"
| "and_then (Inr x) f = f x"

lemma and_then_Inr: "and_then r f = Inr y \<longleftrightarrow> (\<exists>x. r = Inr x \<and> f x = Inr y)"
  by (cases r) auto

section \<open>Rows\<close>

record identityEvidence =
  ev_Signal :: string
  ev_Value :: string
  ev_Detail :: string

text \<open>The signals of a candidate pair: corroborating evidence, or the keys of an exact match.\<close>

datatype candidate_signals = Evidence "identityEvidence list" | ExactIdentityKeys "string list"

text \<open>\<open>businesses\<close>; \<open>ls_deleted\<close> stands for \<open>deleted_at IS NOT NULL\<close>.\<close>

record Listing =
  ls_id :: string
  ls_name :: string
  ls_normalized_name :: string
  ls_primary_category :: string
  ls_address :: string
  ls_normalized_address :: string
  ls_city :: string
  ls_postal_code :: string
  ls_phone :: string
  ls_normalized_phone :: string
  ls_website :: string
  ls_domain :: string
  ls_place_id :: string
  ls_cid :: string
  ls_data_id :: string
  ls_latitude :: "f64 option"
  ls_longitude :: "f64 option"
  ls_raw_json :: "string option"
  ls_created_at :: int
  ls_last_changed_at :: int
  ls_updated_at :: int
  ls_change_status :: string
  ls_merged_into :: "string option"
  ls_deleted :: bool
  ls_identity_method :: string
  ls_identity_confidence :: f64
  ls_identity_evidence :: "identityEvidence list"

text \<open>\<open>business_identity_keys\<close>, \<open>business_sources\<close> and \<open>job_businesses\<close>\<close>

record KeyRow =
  ik_business :: string
  ik_type :: string
  ik_value :: string
  ik_created_at :: int

record SourceRow =
  so_id :: int
  so_business :: string
  so_job :: string
  so_query :: string
  so_cell :: string
  so_extracted_at :: int

record LinkRow =
  jl_job :: string
  jl_business :: string
  jl_first_seen_at :: int
  jl_last_seen_at :: int
  jl_occurrence_count :: int
  jl_is_new :: int
  jl_is_changed :: int

text \<open>\<open>field_provenance\<close> and \<open>business_changes\<close>\<close>

record ProvenanceRow =
  fp_id :: int
  fp_business :: string
  fp_field :: string
  fp_preferred :: bool
  fp_superseded_at :: "int option"
  fp_confidence :: f64
  fp_extracted_at :: int

record ChangeRow =
  bc_business :: string
  bc_field :: string
  bc_before :: "string list"
  bc_after :: "string list"
  bc_kind :: string
  bc_detected_at :: int

text \<open>\<open>duplicate_candidates\<close>, \<open>dedup_rules\<close>, \<open>business_merges\<close> and \<open>audit_logs\<close>\<close>

record CandidateRow =
  cd_id :: int
  cd_left :: string
  cd_right :: string
  cd_score :: f64
  cd_signals :: candidate_signals
  cd_state :: string
  cd_created_at :: int
  cd_resolved_at :: "int option"
  cd_note :: string

record RuleRow =
  ru_type :: string
  ru_left :: string
  ru_right :: string
  ru_action :: string
  ru_reason :: string
  ru_created_at :: int

record MergeRow =
  mg_source :: string
  mg_target :: string
  mg_candidate :: int
  mg_snapshot :: string
  mg_reason :: string
  mg_operator :: string
  mg_merged_at :: int

record ReviewAuditRow =
  au_action :: string
  au_entity :: string
  au_kept :: string
  au_merged :: string
  au_note :: string
  au_field_strategy :: string
  au_preferred_fields :: "string list"
  au_created_at :: int

record Listings =
  li_businesses :: "Listing list"
  li_keys :: "KeyRow list"
  li_sources :: "SourceRow list"
  li_links :: "LinkRow list"
  li_provenance :: "ProvenanceRow list"
  li_changes :: "ChangeRow list"
  li_candidates :: "CandidateRow list"
  li_rules :: "RuleRow list"
  li_merges :: "MergeRow list"
  li_audit :: "ReviewAuditRow list"

section \<open>Shared reads\<close>

definition find_listing :: "string \<Rightarrow> Listings \<Rightarrow> Listing option" where
  "find_listing i L = find (\<lambda>r. ls_id r = i) (li_businesses L)"

definition update_listing :: "string \<Rightarrow> (Listing \<Rightarrow> Listing) \<Rightarrow> Listings \<Rightarrow> Listings" where
  "update_listing i f L = L\<lparr>li_businesses := update_where (\<lambda>r. ls_id r = i) f (li_businesses L)\<rparr>"

text \<open>\<open>deleted_at IS NULL AND merged_into_id IS NULL\<close>\<close>

definition live_listing :: "Listing \<Rightarrow> bool" where
  "live_listing r \<longleftrightarrow> \<not> ls_deleted r \<and> ls_merged_into r = None"

text \<open>\<open>keepSeparatePairExists\<close>: a ruling for the pair, in either orientation.\<close>

definition rule_for :: "string \<Rightarrow> string \<Rightarrow> RuleRow \<Rightarrow> bool" where
  "rule_for l r row \<longleftrightarrow> ru_type row = ''business_pair'' \<and> ru_action row = ''keep_separate'' \<and>
     (ru_left row = l \<and> ru_right row = r \<or> ru_left row = r \<and> ru_right row = l)"

definition keepSeparatePairExists :: "string \<Rightarrow> string \<Rightarrow> Listings \<Rightarrow> bool" where
  "keepSeparatePairExists l r L \<longleftrightarrow>
     l \<noteq> [] \<and> r \<noteq> [] \<and> l \<noteq> r \<and> list_ex (rule_for l r) (li_rules L)"

text \<open>\<open>INSERT OR IGNORE INTO duplicate_candidates\<close> with the smaller id on the left.\<close>

definition next_candidate_id :: "Listings \<Rightarrow> int" where
  "next_candidate_id L = foldr max (map cd_id (li_candidates L)) 0 + 1"

definition file_candidate :: "string \<Rightarrow> string \<Rightarrow> f64 \<Rightarrow> candidate_signals \<Rightarrow> int \<Rightarrow> Listings \<Rightarrow> Listings" where
  "file_candidate a b score signals observedAt L =
     (let (l, r) = (if string_less b a then (b, a) else (a, b))
      in if list_ex (\<lambda>c. cd_left c = l \<and> cd_right c = r) (li_candidates L) then L
         else L\<lparr>li_candidates := li_candidates L @
           [\<lparr>cd_id = next_candidate_id L, cd_left = l, cd_right = r, cd_score = score, cd_signals = signals,
             cd_state = ''pending'', cd_created_at = observedAt, cd_resolved_at = None, cd_note = []\<rparr>]\<rparr>)"

end
