(* ===== verification/EntityResolution.thy ===== *)
theory EntityResolution
  imports Listings
begin

text \<open>
  Which stored listing an imported record belongs to, \<open>web/sqlite/entity_resolution.go\<close>: the exact match
  of authoritative identifiers, the probes that gather candidates and follow merges, the corroboration
  tiers, the choice of at most one attach, and what is written afterwards. The trigonometric functions and
  \<open>strconv.FormatFloat\<close> are arguments; reads that fail are not modelled.
\<close>

record ResolveEnv =
  re_unicode :: Unicode_env
  re_Sin :: "f64 \<Rightarrow> f64"
  re_Cos :: "f64 \<Rightarrow> f64"
  re_Atan2 :: "f64 \<Rightarrow> f64 \<Rightarrow> f64"
  re_Sqrt :: "f64 \<Rightarrow> f64"
  re_FormatFixed :: "nat \<Rightarrow> f64 \<Rightarrow> string"

section \<open>Names and thresholds\<close>

definition identityMethodExact :: string where "identityMethodExact = ''exact''"
definition identityMethodNew :: string where "identityMethodNew = ''new''"
definition identityMethodPhone :: string where "identityMethodPhone = ''phone_corroborated''"
definition identityMethodDomain :: string where "identityMethodDomain = ''domain_proximity''"
definition identityMethodAddressName :: string where "identityMethodAddressName = ''address_name''"
definition identityMethodNameProximity :: string where "identityMethodNameProximity = ''name_proximity''"

definition identityExactConfidence :: f64 where "identityExactConfidence = Fin 1"
definition identityPhoneConfidence :: f64 where "identityPhoneConfidence = f64_of_rat (9 / 10)"
definition identityDomainConfidence :: f64 where "identityDomainConfidence = f64_of_rat (85 / 100)"
definition identityAddressConfidence :: f64 where "identityAddressConfidence = f64_of_rat (85 / 100)"
definition identityNameConfidence :: f64 where "identityNameConfidence = f64_of_rat (75 / 100)"
definition identityAttachConfidence :: f64 where "identityAttachConfidence = f64_of_rat (85 / 100)"
definition identityDriftConfidence :: f64 where "identityDriftConfidence = f64_of_rat (9 / 10)"
definition identityCandidateConfidence :: f64 where "identityCandidateConfidence = f64_of_rat (6 / 10)"
definition identityPhoneNameSimilarity :: f64 where "identityPhoneNameSimilarity = f64_of_rat (7 / 10)"
definition identityPhoneDistanceMetres :: f64 where "identityPhoneDistanceMetres = Fin 500"
definition identityDomainDistanceMetres :: f64 where "identityDomainDistanceMetres = Fin 300"
definition identityDomainNameSimilarity :: f64 where "identityDomainNameSimilarity = f64_of_rat (1 / 2)"
definition identityAddressNameSimilarity :: f64 where "identityAddressNameSimilarity = f64_of_rat (7 / 10)"
definition identityNameSimilarityFloor :: f64 where "identityNameSimilarityFloor = f64_of_rat (85 / 100)"
definition identityNameDistanceMetres :: f64 where "identityNameDistanceMetres = Fin 150"
definition identityChainDistanceMetres :: f64 where "identityChainDistanceMetres = Fin 1000"
definition identityChainNameSimilarity :: f64 where "identityChainNameSimilarity = f64_of_rat (9 / 10)"
definition identityMergeRedirectMaxHops :: nat where "identityMergeRedirectMaxHops = 5"
definition identityPhoneUnrelatedNameFloor :: f64 where "identityPhoneUnrelatedNameFloor = f64_of_rat (3 / 10)"
definition identityDriftNameSimilarity :: f64 where "identityDriftNameSimilarity = f64_of_rat (9 / 10)"

section \<open>Outcomes\<close>

record identityCandidate =
  ic_businessID :: string
  ic_score :: f64
  ic_evidence :: "identityEvidence list"

record identityResolution =
  ir_businessID :: string
  ir_method :: string
  ir_confidence :: f64
  ir_evidence :: "identityEvidence list"
  ir_exactIDs :: "string list"
  ir_drift :: bool
  ir_driftBefore :: "string list"
  ir_driftAfter :: "string list"
  ir_candidates :: "identityCandidate list"

definition no_resolution :: identityResolution where
  "no_resolution = \<lparr>ir_businessID = [], ir_method = [], ir_confidence = Fin 0, ir_evidence = [], ir_exactIDs = [],
     ir_drift = False, ir_driftBefore = [], ir_driftAfter = [], ir_candidates = []\<rparr>"

record fallbackRow =
  fr_id :: string
  fr_name :: string
  fr_normalizedName :: string
  fr_normalizedAddress :: string
  fr_city :: string
  fr_postalCode :: string
  fr_placeID :: string
  fr_cid :: string
  fr_dataID :: string
  fr_latitude :: "f64 option"
  fr_longitude :: "f64 option"
  fr_mergedInto :: string
  fr_phoneMatch :: bool
  fr_phoneValue :: string
  fr_domainMatch :: bool
  fr_domainValue :: string
  fr_addressMatch :: bool
  fr_addressValue :: string
  fr_nameProbe :: bool

text \<open>The columns a probe reads; no signal is set yet.\<close>

definition fallback_row :: "Listing \<Rightarrow> fallbackRow" where
  "fallback_row r = \<lparr>fr_id = ls_id r, fr_name = ls_name r, fr_normalizedName = ls_normalized_name r,
     fr_normalizedAddress = ls_normalized_address r, fr_city = ls_city r, fr_postalCode = ls_postal_code r,
     fr_placeID = ls_place_id r, fr_cid = ls_cid r, fr_dataID = ls_data_id r, fr_latitude = ls_latitude r,
     fr_longitude = ls_longitude r, fr_mergedInto = (case ls_merged_into r of None \<Rightarrow> [] | Some i \<Rightarrow> i),
     fr_phoneMatch = False, fr_phoneValue = [], fr_domainMatch = False, fr_domainValue = [],
     fr_addressMatch = False, fr_addressValue = [], fr_nameProbe = False\<rparr>"

section \<open>Exact matches\<close>

definition authoritativeIdentityKeys :: "Business \<Rightarrow> IdentityKey list" where
  "authoritativeIdentityKeys b = filter authoritative (bu_IdentityKeys b)"

text \<open>\<open>ORDER BY created_at, business_id\<close>\<close>

definition key_before :: "KeyRow \<Rightarrow> KeyRow \<Rightarrow> bool" where
  "key_before a b \<longleftrightarrow> ik_created_at a < ik_created_at b \<or>
     ik_created_at a = ik_created_at b \<and> string_less (ik_business a) (ik_business b)"

definition key_owners :: "Listings \<Rightarrow> IdentityKey \<Rightarrow> string list" where
  "key_owners L k =
     map ik_business (SliceStable key_before (filter (\<lambda>r. ik_type r = ik_Kind k \<and> ik_value r = ik_Value k) (li_keys L)))"

definition add_unseen :: "string list \<Rightarrow> string \<Rightarrow> string list" where
  "add_unseen matched i = (if i \<in> set matched then matched else matched @ [i])"

definition created_before :: "Listing \<Rightarrow> Listing \<Rightarrow> bool" where
  "created_before r s \<longleftrightarrow> ls_created_at r < ls_created_at s \<or>
     ls_created_at r = ls_created_at s \<and> string_less (ls_id r) (ls_id s)"

definition select_listings :: "nat \<Rightarrow> (Listing \<Rightarrow> bool) \<Rightarrow> Listings \<Rightarrow> Listing list" where
  "select_listings limit p L =
     take limit (SliceStable created_before (filter (\<lambda>r. p r \<and> \<not> ls_deleted r) (li_businesses L)))"

definition legacyProbes :: "Business \<Rightarrow> ((Listing \<Rightarrow> string) \<times> string \<times> string) list" where
  "legacyProbes b = [(ls_place_id, IdentityPlaceID, bu_PlaceID b), (ls_cid, IdentityCID, bu_CID b),
     (ls_data_id, IdentityDataID, bu_DataID b)]"

fun probe_legacy ::
  "Listings \<Rightarrow> ((Listing \<Rightarrow> string) \<times> string \<times> string) list \<Rightarrow> string list \<times> identityEvidence list" where
  "probe_legacy L [] = ([], [])"
| "probe_legacy L ((column, signal, value) # probes) =
     (if value = [] then probe_legacy L probes
      else case select_listings 1 (\<lambda>r. column r = value) L of
             [] \<Rightarrow> probe_legacy L probes
           | r # _ \<Rightarrow> ([ls_id r], [\<lparr>ev_Signal = signal, ev_Value = value, ev_Detail = ''legacy column''\<rparr>]))"

definition matchAuthoritativeBusinesses :: "Listings \<Rightarrow> Business \<Rightarrow> string list \<times> identityEvidence list" where
  "matchAuthoritativeBusinesses L b =
     (let keys = authoritativeIdentityKeys b;
          matched = foldl add_unseen [] (concat (map (key_owners L) keys));
          evidence = map (\<lambda>k. \<lparr>ev_Signal = ik_Kind k, ev_Value = ik_Value k, ev_Detail = []\<rparr>)
            (filter (\<lambda>k. key_owners L k \<noteq> []) keys)
      in if matched \<noteq> [] then (matched, evidence) else probe_legacy L (legacyProbes b))"

section \<open>Probes\<close>

text \<open>Following merges: the row loaded last, or nothing after the last hop.\<close>

fun follow_merges :: "nat \<Rightarrow> string \<Rightarrow> Listings \<Rightarrow> fallbackRow option" where
  "follow_merges 0 i L = None"
| "follow_merges (Suc hops) i L =
     (case find (\<lambda>r. ls_id r = i \<and> \<not> ls_deleted r) (li_businesses L) of
        None \<Rightarrow> None
      | Some r \<Rightarrow> let reloaded = fallback_row r
          in if fr_mergedInto reloaded = [] then Some reloaded else follow_merges hops (fr_mergedInto reloaded) L)"

definition redirectMergedRow :: "Listings \<Rightarrow> fallbackRow \<Rightarrow> fallbackRow option" where
  "redirectMergedRow L row =
     (if fr_mergedInto row = [] then Some row
      else follow_merges identityMergeRedirectMaxHops (fr_mergedInto row) L)"

datatype probe_signal = Phone_signal | Domain_signal | Address_signal | Name_signal

definition set_signal :: "probe_signal \<Rightarrow> string \<Rightarrow> fallbackRow \<Rightarrow> fallbackRow" where
  "set_signal signal value row =
     (case signal of
        Phone_signal \<Rightarrow> row\<lparr>fr_phoneMatch := True, fr_phoneValue := value\<rparr>
      | Domain_signal \<Rightarrow> row\<lparr>fr_domainMatch := True, fr_domainValue := value\<rparr>
      | Address_signal \<Rightarrow> row\<lparr>fr_addressMatch := True, fr_addressValue := value\<rparr>
      | Name_signal \<Rightarrow> row\<lparr>fr_nameProbe := True\<rparr>)"

definition collect_fallback ::
  "Listings \<Rightarrow> probe_signal \<Rightarrow> string \<Rightarrow> fallbackRow list \<Rightarrow> Listing \<Rightarrow> fallbackRow list" where
  "collect_fallback L signal value ordered found =
     (case redirectMergedRow L (fallback_row found) of
        None \<Rightarrow> ordered
      | Some row \<Rightarrow>
        let known = (if fr_id row \<in> fr_id ` set ordered then ordered else ordered @ [row])
        in map (\<lambda>r. if fr_id r = fr_id row then set_signal signal value r else r) known)"

definition collect ::
  "Listings \<Rightarrow> probe_signal \<Rightarrow> string \<Rightarrow> (Listing \<Rightarrow> bool) \<Rightarrow> fallbackRow list \<Rightarrow> fallbackRow list" where
  "collect L signal value p ordered =
     (if value = [] then ordered
      else foldl (collect_fallback L signal value) ordered (select_listings 100 p L))"

text \<open>\<open>keyProbe\<close> and \<open>nameProbe\<close>; \<open>substr\<close> counts characters.\<close>

definition has_key :: "Listings \<Rightarrow> string \<Rightarrow> string \<Rightarrow> Listing \<Rightarrow> bool" where
  "has_key L kind value r \<longleftrightarrow>
     list_ex (\<lambda>k. ik_business k = ls_id r \<and> ik_type k = kind \<and> ik_value k = value) (li_keys L)"

definition name_probe :: "Business \<Rightarrow> Listing \<Rightarrow> bool" where
  "name_probe b r \<longleftrightarrow> ls_normalized_name r = bu_NormalizedName b \<or>
     bu_City b \<noteq> [] \<and> ls_city r = bu_City b \<and>
     take 6 (runes (ls_normalized_name r)) = take 6 (runes (bu_NormalizedName b))"

definition collect_phone :: "Listings \<Rightarrow> Phone \<Rightarrow> fallbackRow list \<Rightarrow> fallbackRow list" where
  "collect_phone L phone ordered =
     collect L Phone_signal (ph_Normalized phone) (\<lambda>r. ls_normalized_phone r = ph_Normalized phone)
       (collect L Phone_signal (ph_MatchKey phone) (has_key L IdentityPhone (ph_MatchKey phone)) ordered)"

definition collectFallbackRows :: "Listings \<Rightarrow> Business \<Rightarrow> fallbackRow list" where
  "collectFallbackRows L b =
     (let r1 = fold (collect_phone L) (bu_Phones b) [];
          r2 = collect L Domain_signal (bu_Domain b) (has_key L IdentityDomain (bu_Domain b)) r1;
          r3 = collect L Domain_signal (bu_Domain b) (\<lambda>r. ls_domain r = bu_Domain b) r2;
          r4 = collect L Address_signal (bu_AddressNormalized b) (has_key L IdentityAddress (bu_AddressNormalized b)) r3;
          r5 = collect L Address_signal (bu_AddressNormalized b)
            (\<lambda>r. ls_normalized_address r = bu_AddressNormalized b) r4
      in if bu_NormalizedName b \<noteq> [] then collect L Name_signal (bu_NormalizedName b) (name_probe b) r5 else r5)"

section \<open>Scoring one row\<close>

definition radians :: "f64 \<Rightarrow> f64" where
  "radians degrees = f64_div (f64_mul degrees math_Pi) (Fin 180)"

definition geographicDistanceMeters :: "ResolveEnv \<Rightarrow> f64 \<Rightarrow> f64 \<Rightarrow> f64 \<Rightarrow> f64 \<Rightarrow> f64" where
  "geographicDistanceMeters env lat1 lon1 lat2 lon2 =
     (let sLat = re_Sin env (f64_div (radians (f64_sub lat2 lat1)) (Fin 2));
          sLon = re_Sin env (f64_div (radians (f64_sub lon2 lon1)) (Fin 2));
          a = f64_add (f64_mul sLat sLat)
            (f64_mul (f64_mul (f64_mul (re_Cos env (radians lat1)) (re_Cos env (radians lat2))) sLon) sLon)
      in f64_mul (Fin 12742000) (re_Atan2 env (re_Sqrt env a) (re_Sqrt env (f64_sub (Fin 1) a))))"

definition fallbackDistanceMetres :: "ResolveEnv \<Rightarrow> Business \<Rightarrow> fallbackRow \<Rightarrow> f64 option" where
  "fallbackDistanceMetres env b row =
     (case (bu_Latitude b, bu_Longitude b, fr_latitude row, fr_longitude row) of
        (Some lat1, Some lon1, Some lat2, Some lon2) \<Rightarrow> Some (geographicDistanceMeters env lat1 lon1 lat2 lon2)
      | _ \<Rightarrow> None)"

definition differentLocalityValue :: "ResolveEnv \<Rightarrow> string \<Rightarrow> string \<Rightarrow> bool" where
  "differentLocalityValue env incoming stored =
     (let i = NormalizeAddress (re_unicode env) incoming; s = NormalizeAddress (re_unicode env) stored
      in if i = [] \<or> s = [] then False else i \<noteq> s)"

definition separateLocations ::
  "ResolveEnv \<Rightarrow> f64 option \<Rightarrow> string \<Rightarrow> string \<Rightarrow> string \<Rightarrow> string \<Rightarrow> bool" where
  "separateLocations env distance incomingCity storedCity incomingPostal storedPostal =
     (case distance of
        Some d \<Rightarrow> f64_less identityChainDistanceMetres d
      | None \<Rightarrow> differentLocalityValue env incomingCity storedCity \<or>
          differentLocalityValue env incomingPostal storedPostal)"

definition name_similarity :: "ResolveEnv \<Rightarrow> Business \<Rightarrow> fallbackRow \<Rightarrow> f64" where
  "name_similarity env b row = NameSimilarity (re_unicode env) (bu_Name b) (fr_name row)"

definition different_addresses :: "Business \<Rightarrow> fallbackRow \<Rightarrow> bool" where
  "different_addresses b row \<longleftrightarrow> bu_AddressNormalized b \<noteq> [] \<and> fr_normalizedAddress row \<noteq> [] \<and>
     bu_AddressNormalized b \<noteq> fr_normalizedAddress row"

definition chain_pattern :: "ResolveEnv \<Rightarrow> Business \<Rightarrow> fallbackRow \<Rightarrow> bool" where
  "chain_pattern env b row \<longleftrightarrow> (fr_phoneMatch row \<or> fr_domainMatch row) \<and> different_addresses b row \<and>
     separateLocations env (fallbackDistanceMetres env b row) (bu_City b) (fr_city row)
       (bu_PostalCode b) (fr_postalCode row)"

definition closer :: "f64 option \<Rightarrow> f64 \<Rightarrow> bool" where
  "closer distance limit \<longleftrightarrow> (case distance of None \<Rightarrow> False | Some d \<Rightarrow> f64_le d limit)"

definition consider_tier :: "bool \<Rightarrow> string \<Rightarrow> f64 \<Rightarrow> string \<times> f64 \<Rightarrow> string \<times> f64" where
  "consider_tier holds candidateMethod candidateConfidence best =
     (if holds \<and> f64_less (snd best) candidateConfidence then (candidateMethod, candidateConfidence) else best)"

definition row_evidence :: "ResolveEnv \<Rightarrow> Business \<Rightarrow> fallbackRow \<Rightarrow> identityEvidence list" where
  "row_evidence env b row =
     (let signal = (\<lambda>s v d. \<lparr>ev_Signal = s, ev_Value = v, ev_Detail = d\<rparr>)
      in (if fr_phoneMatch row then [signal ''phone'' (fr_phoneValue row) ''shared phone number''] else []) @
         (if fr_domainMatch row then [signal ''domain'' (fr_domainValue row) ''shared website domain''] else []) @
         (if fr_addressMatch row then [signal ''address'' (fr_addressValue row) ''same normalized address''] else []) @
         [signal ''name_similarity'' (re_FormatFixed env 3 (name_similarity env b row)) []] @
         (case fallbackDistanceMetres env b row of None \<Rightarrow> []
          | Some d \<Rightarrow> [signal ''distance_m'' (re_FormatFixed env 0 d) []]) @
         (if chain_pattern env b row
          then [signal ''multi_location_pattern'' [] ''shared contact point with distant, different addresses'']
          else []))"

definition scoreFallbackRow ::
  "ResolveEnv \<Rightarrow> Business \<Rightarrow> fallbackRow \<Rightarrow> string \<times> f64 \<times> identityEvidence list \<times> bool" where
  "scoreFallbackRow env b row =
     (let similarity = name_similarity env b row; distance = fallbackDistanceMetres env b row;
          chain = chain_pattern env b row;
          phone = fr_phoneMatch row \<and> (f64_le identityPhoneNameSimilarity similarity \<or>
            closer distance identityPhoneDistanceMetres \<and> f64_le identityPhoneUnrelatedNameFloor similarity);
          domain = fr_domainMatch row \<and> closer distance identityDomainDistanceMetres \<and>
            f64_le identityDomainNameSimilarity similarity;
          address = fr_addressMatch row \<and> f64_le identityAddressNameSimilarity similarity;
          nameTier = f64_le identityNameSimilarityFloor similarity \<and> closer distance identityNameDistanceMetres;
          nameTierConfidence = (if bu_IdentityKeys b = [] then identityAttachConfidence else identityNameConfidence);
          (method, confidence) = consider_tier nameTier identityMethodNameProximity nameTierConfidence
            (consider_tier address identityMethodAddressName identityAddressConfidence
            (consider_tier domain identityMethodDomain identityDomainConfidence
            (consider_tier phone identityMethodPhone identityPhoneConfidence ([], Fin 0))))
      in (method,
          if chain \<and> f64_less confidence identityCandidateConfidence then identityCandidateConfidence else confidence,
          row_evidence env b row, chain))"

section \<open>Choosing\<close>

definition authoritativeConflict :: "Business \<Rightarrow> fallbackRow \<Rightarrow> bool" where
  "authoritativeConflict b row \<longleftrightarrow>
     list_ex (\<lambda>(l, r). l \<noteq> [] \<and> r \<noteq> [] \<and> l \<noteq> r)
       [(bu_PlaceID b, fr_placeID row), (bu_CID b, fr_cid row), (bu_DataID b, fr_dataID row)]"

definition identityDriftPlausible :: "ResolveEnv \<Rightarrow> Business \<Rightarrow> fallbackRow \<Rightarrow> bool" where
  "identityDriftPlausible env b row \<longleftrightarrow>
     \<not> different_addresses b row \<and> f64_le identityDriftNameSimilarity (name_similarity env b row)"

definition drift_pairs :: "Business \<Rightarrow> fallbackRow \<Rightarrow> (string \<times> string \<times> string) list" where
  "drift_pairs b row = [(IdentityPlaceID, bu_PlaceID b, fr_placeID row), (IdentityCID, bu_CID b, fr_cid row),
     (IdentityDataID, bu_DataID b, fr_dataID row)]"

definition detectIdentityDrift :: "Business \<Rightarrow> fallbackRow \<Rightarrow> bool \<times> string list \<times> string list" where
  "detectIdentityDrift b row =
     (let pairs = drift_pairs b row
      in (list_ex (\<lambda>(kind, incoming, existing). incoming \<noteq> [] \<and> incoming \<noteq> existing) pairs,
          map (\<lambda>(kind, incoming, existing). kind @ '':'' @ existing)
            (filter (\<lambda>(kind, incoming, existing). existing \<noteq> []) pairs),
          map (\<lambda>(kind, incoming, existing). kind @ '':'' @ incoming)
            (filter (\<lambda>(kind, incoming, existing). incoming \<noteq> []) pairs)))"

record scoredRow =
  sc_row :: fallbackRow
  sc_method :: string
  sc_confidence :: f64
  sc_evidence :: "identityEvidence list"
  sc_attachable :: bool

definition score_entry :: "ResolveEnv \<Rightarrow> Listings \<Rightarrow> Business \<Rightarrow> fallbackRow \<Rightarrow> scoredRow option" where
  "score_entry env L b row =
     (let (method, confidence, evidence, chain) = scoreFallbackRow env b row;
          entry = (\<lambda>attachable. Some \<lparr>sc_row = row, sc_method = method, sc_confidence = confidence,
            sc_evidence = evidence, sc_attachable = attachable\<rparr>)
      in if f64_less confidence identityCandidateConfidence then None
         else if keepSeparatePairExists (fr_id row) (bu_ID b) L then None
         else if chain
         then (if f64_less (name_similarity env b row) identityChainNameSimilarity \<or> bu_PlaceID b \<noteq> [] \<or>
                 fr_placeID row \<noteq> [] then None else entry False)
         else if f64_le identityDriftConfidence confidence
         then entry (\<not> authoritativeConflict b row \<or> identityDriftPlausible env b row)
         else if f64_le identityAttachConfidence confidence then entry (\<not> authoritativeConflict b row)
         else entry False)"

definition better :: "scoredRow list \<Rightarrow> nat option \<Rightarrow> nat \<Rightarrow> nat option" where
  "better scored best i =
     (if \<not> sc_attachable (scored ! i) then best
      else case best of
             None \<Rightarrow> Some i
           | Some j \<Rightarrow> if f64_less (sc_confidence (scored ! j)) (sc_confidence (scored ! i)) then Some i else best)"

definition best_index :: "scoredRow list \<Rightarrow> nat option" where
  "best_index scored = foldl (better scored) None [0 ..< length scored]"

definition review_candidate :: "scoredRow \<Rightarrow> identityCandidate" where
  "review_candidate e = \<lparr>ic_businessID = fr_id (sc_row e), ic_score = sc_confidence e, ic_evidence = sc_evidence e\<rparr>"

definition join_space :: "string list \<Rightarrow> string" where
  "join_space ss = (case ss of [] \<Rightarrow> [] | s # rest \<Rightarrow> s @ concat (map (\<lambda>t. '' '' @ t) rest))"

definition attach_to :: "Business \<Rightarrow> scoredRow \<Rightarrow> identityResolution" where
  "attach_to b best =
     (let (drift, driftBefore, driftAfter) = detectIdentityDrift b (sc_row best)
      in no_resolution\<lparr>ir_businessID := fr_id (sc_row best), ir_method := sc_method best,
           ir_confidence := sc_confidence best,
           ir_evidence := sc_evidence best @ (if drift
             then [\<lparr>ev_Signal = ''identity_keys_added'', ev_Value = join_space driftAfter,
               ev_Detail = ''authoritative keys recorded from this observation''\<rparr>] else []),
           ir_drift := drift, ir_driftBefore := driftBefore, ir_driftAfter := driftAfter\<rparr>)"

definition scoreFallbackRows :: "ResolveEnv \<Rightarrow> Listings \<Rightarrow> Business \<Rightarrow> fallbackRow list \<Rightarrow> identityResolution" where
  "scoreFallbackRows env L b rows =
     (let scored = List.map_filter (score_entry env L b) rows; best = best_index scored;
          resolution = (case best of None \<Rightarrow> no_resolution | Some i \<Rightarrow> attach_to b (scored ! i))
      in resolution\<lparr>ir_candidates := map (\<lambda>i. review_candidate (scored ! i))
           (filter (\<lambda>i. best \<noteq> Some i) [0 ..< length scored])\<rparr>)"

definition resolveBusinessIdentity :: "ResolveEnv \<Rightarrow> Listings \<Rightarrow> Business \<Rightarrow> identityResolution" where
  "resolveBusinessIdentity env L b =
     (case matchAuthoritativeBusinesses L b of
        (i # others, evidence) \<Rightarrow>
          no_resolution\<lparr>ir_businessID := i, ir_method := identityMethodExact, ir_confidence := identityExactConfidence,
            ir_evidence := evidence, ir_exactIDs := i # others\<rparr>
      | ([], evidence) \<Rightarrow> scoreFallbackRows env L b (collectFallbackRows L b))"

section \<open>Writing the outcome\<close>

definition newRowIdentityProvenance :: "Business \<Rightarrow> string \<times> f64 \<times> identityEvidence list" where
  "newRowIdentityProvenance b =
     (let evidence = map (\<lambda>k. \<lparr>ev_Signal = ik_Kind k, ev_Value = ik_Value k, ev_Detail = []\<rparr>) (bu_IdentityKeys b)
      in if authoritativeIdentityKeys b \<noteq> [] then (identityMethodNew, Fin 1, evidence)
         else if bu_IdentityKeys b \<noteq> [] then (identityMethodNew, f64_of_rat (7 / 10), evidence)
         else (identityMethodNew, f64_of_rat (1 / 2), [\<lparr>ev_Signal = ''content_hash'',
           ev_Value = bu_CanonicalIdentityKey b, ev_Detail = ''no identity signals on the source row''\<rparr>]))"

definition writeIdentityProvenance ::
  "string \<Rightarrow> string \<Rightarrow> f64 \<Rightarrow> identityEvidence list \<Rightarrow> int \<Rightarrow> Listings \<Rightarrow> Listings" where
  "writeIdentityProvenance businessID method confidence evidence observedAt =
     update_listing businessID (\<lambda>r. r\<lparr>ls_identity_method := method, ls_identity_confidence := confidence,
       ls_identity_evidence := evidence, ls_updated_at := max (ls_updated_at r) observedAt\<rparr>)"

definition recordIdentityDrift :: "string \<Rightarrow> identityResolution \<Rightarrow> int \<Rightarrow> Listings \<Rightarrow> Listings" where
  "recordIdentityDrift businessID resolution observedAt L =
     L\<lparr>li_changes := li_changes L @
       [\<lparr>bc_business = businessID, bc_field = ''identity_keys'', bc_before = ir_driftBefore resolution,
         bc_after = ir_driftAfter resolution, bc_kind = ''identity_drift'', bc_detected_at = observedAt\<rparr>]\<rparr>"

definition applyIdentityOutcome ::
  "string \<Rightarrow> Business \<Rightarrow> identityResolution \<Rightarrow> bool \<Rightarrow> int \<Rightarrow> Listings \<Rightarrow> Listings" where
  "applyIdentityOutcome targetID b resolution wasNew observedAt L =
     (if wasNew
      then let (method, confidence, evidence) = newRowIdentityProvenance b
           in writeIdentityProvenance targetID method confidence evidence observedAt L
      else if ir_businessID resolution \<noteq> [] \<and> ir_method resolution \<noteq> identityMethodExact \<and>
        ir_businessID resolution \<noteq> bu_ID b
      then let L1 = writeIdentityProvenance targetID (ir_method resolution) (ir_confidence resolution)
                 (ir_evidence resolution) observedAt L
           in if ir_drift resolution then recordIdentityDrift targetID resolution observedAt L1 else L1
      else L)"

definition storeFallbackCandidate :: "string \<Rightarrow> int \<Rightarrow> identityCandidate \<Rightarrow> Listings \<Rightarrow> Listings" where
  "storeFallbackCandidate targetID observedAt candidate L =
     (if ic_businessID candidate = targetID \<or> keepSeparatePairExists targetID (ic_businessID candidate) L then L
      else file_candidate targetID (ic_businessID candidate) (ic_score candidate)
        (Evidence (ic_evidence candidate)) observedAt L)"

definition storeFallbackCandidates :: "string \<Rightarrow> identityCandidate list \<Rightarrow> int \<Rightarrow> Listings \<Rightarrow> Listings" where
  "storeFallbackCandidates targetID candidates observedAt = fold (storeFallbackCandidate targetID observedAt) candidates"

definition storeDuplicateCandidate :: "string \<Rightarrow> IdentityKey list \<Rightarrow> int \<Rightarrow> string \<Rightarrow> Listings \<Rightarrow> Listings" where
  "storeDuplicateCandidate targetID keys observedAt otherID L =
     (if otherID = targetID \<or> keepSeparatePairExists targetID otherID L then L
      else file_candidate targetID otherID (Fin 1) (ExactIdentityKeys (map IdentityKey_String keys)) observedAt L)"

definition storeDuplicateCandidates :: "string \<Rightarrow> string list \<Rightarrow> IdentityKey list \<Rightarrow> int \<Rightarrow> Listings \<Rightarrow> Listings" where
  "storeDuplicateCandidates targetID matchedIDs keys observedAt = fold (storeDuplicateCandidate targetID keys observedAt) matchedIDs"

text \<open>\<open>storeIdentityKeys\<close>: a key that a listing has already is left as it is.\<close>

definition storeIdentityKeys :: "string \<Rightarrow> IdentityKey list \<Rightarrow> int \<Rightarrow> Listings \<Rightarrow> Listings" where
  "storeIdentityKeys businessID keys observedAt =
     fold (\<lambda>k L. if list_ex (\<lambda>r. ik_business r = businessID \<and> ik_type r = ik_Kind k \<and> ik_value r = ik_Value k) (li_keys L)
       then L
       else L\<lparr>li_keys := li_keys L @ [\<lparr>ik_business = businessID, ik_type = ik_Kind k, ik_value = ik_Value k,
         ik_created_at = observedAt\<rparr>]\<rparr>) keys"

text \<open>\<open>linkJobBusiness\<close>: the upsert of the job's link.\<close>

definition linkJobBusiness :: "string \<Rightarrow> string \<Rightarrow> int \<Rightarrow> bool \<Rightarrow> bool \<Rightarrow> Listings \<Rightarrow> Listings" where
  "linkJobBusiness jobID businessID observedAt isNew isChanged L =
     (let here = (\<lambda>l. jl_job l = jobID \<and> jl_business l = businessID);
          new = (if isNew then 1 else 0); changed = (if isChanged then 1 else 0)
      in if list_ex here (li_links L)
         then L\<lparr>li_links := update_where here (\<lambda>l. l\<lparr>jl_last_seen_at := max (jl_last_seen_at l) observedAt,
                jl_occurrence_count := jl_occurrence_count l + 1, jl_is_new := max (jl_is_new l) new,
                jl_is_changed := max (jl_is_changed l) changed\<rparr>) (li_links L)\<rparr>
         else L\<lparr>li_links := li_links L @ [\<lparr>jl_job = jobID, jl_business = businessID, jl_first_seen_at = observedAt,
                jl_last_seen_at = observedAt, jl_occurrence_count = 1, jl_is_new = new, jl_is_changed = changed\<rparr>]\<rparr>)"

end
