(* ===== verification/DuplicateReview.thy ===== *)
theory DuplicateReview
  imports Listings
begin

text \<open>
  Duplicate review: the service's checks of a decision (\<open>web/duplicates.go\<close>), the merge, keep-both and
  ignore transactions (\<open>web/sqlite/duplicate_resolution.go\<close>), and the preferred values a merge may adopt
  (\<open>duplicate_preferred_values.go\<close>). A transaction that fails gives an error and no tables: it is rolled
  back. The classes of letters and digits and the check that a text is JSON are arguments.
\<close>

section \<open>Decisions\<close>

record DuplicateDecision =
  dd_CandidateID :: int
  dd_Action :: string
  dd_KeepBusinessID :: string
  dd_FieldStrategy :: string
  dd_Note :: string
  dd_Operator :: string

record DuplicateResolution =
  rs_CandidateID :: int
  rs_Action :: string
  rs_State :: string
  rs_KeptBusinessID :: string
  rs_MergedBusinessID :: string
  rs_FieldStrategy :: string
  rs_PreferredFields :: "string list"

record ReviewEnv =
  rv_IsLetter :: "nat \<Rightarrow> bool"
  rv_IsDigit :: "nat \<Rightarrow> bool"
  rv_json_Valid :: "string \<Rightarrow> bool"

definition DuplicateFieldStrategies :: "string list" where
  "DuplicateFieldStrategies = [''confidence'', ''recency'', ''completeness'']"

definition orientDuplicateDecision ::
  "DuplicateDecision \<Rightarrow> string \<Rightarrow> string \<Rightarrow> review_error + (string \<times> string)" where
  "orientDuplicateDecision decision leftID rightID =
     (let keep = TrimSpace (dd_KeepBusinessID decision)
      in if keep = [] then Inr (leftID, rightID)
         else if keep = leftID then Inr (leftID, rightID)
         else if keep = rightID then Inr (rightID, leftID)
         else Inl ErrInvalidDuplicateDecision)"

definition truncateResolutionNote :: "string \<Rightarrow> string" where
  "truncateResolutionNote note = take 500 (TrimSpace note)"

section \<open>Merging\<close>

definition businessMergeSnapshot :: "ReviewEnv \<Rightarrow> string \<Rightarrow> Listings \<Rightarrow> review_error + string" where
  "businessMergeSnapshot env businessID L =
     (case find_listing businessID L of
        None \<Rightarrow> Inl ErrBusinessNotFound
      | Some row \<Rightarrow>
        (case ls_raw_json row of
           None \<Rightarrow> Inr ''{}''
         | Some raw \<Rightarrow> Inr (if TrimSpace raw = [] \<or> \<not> rv_json_Valid env raw then ''{}'' else raw)))"

text \<open>The link of a job that saw both records, with the link of the merged one folded in.\<close>

definition fold_link :: "LinkRow \<Rightarrow> LinkRow \<Rightarrow> LinkRow" where
  "fold_link source target = target\<lparr>
     jl_first_seen_at := min (jl_first_seen_at target) (jl_first_seen_at source),
     jl_last_seen_at := max (jl_last_seen_at target) (jl_last_seen_at source),
     jl_occurrence_count := jl_occurrence_count target + jl_occurrence_count source,
     jl_is_new := max (jl_is_new target) (jl_is_new source),
     jl_is_changed := max (jl_is_changed target) (jl_is_changed source)\<rparr>"

definition fold_links :: "string \<Rightarrow> string \<Rightarrow> LinkRow list \<Rightarrow> LinkRow list" where
  "fold_links sourceID targetID links =
     map (\<lambda>target. if jl_business target = targetID
            then (case find (\<lambda>s. jl_business s = sourceID \<and> jl_job s = jl_job target) links of
                    None \<Rightarrow> target | Some source \<Rightarrow> fold_link source target)
            else target) links"

definition drop_folded :: "string \<Rightarrow> string \<Rightarrow> LinkRow list \<Rightarrow> LinkRow list" where
  "drop_folded sourceID targetID links =
     filter (\<lambda>l. \<not> (jl_business l = sourceID \<and>
       list_ex (\<lambda>t. jl_business t = targetID \<and> jl_job t = jl_job l) links)) links"

definition mergeJobBusinessLinks :: "string \<Rightarrow> string \<Rightarrow> LinkRow list \<Rightarrow> LinkRow list" where
  "mergeJobBusinessLinks sourceID targetID links =
     update_where (\<lambda>l. jl_business l = sourceID) (jl_business_update (\<lambda>_. targetID))
       (drop_folded sourceID targetID (fold_links sourceID targetID links))"

text \<open>The table of merges forbids a record merged into itself and refers to existing rows.\<close>

definition mergeBusinessInto ::
  "ReviewEnv \<Rightarrow> int \<Rightarrow> string \<Rightarrow> string \<Rightarrow> DuplicateDecision \<Rightarrow> int \<Rightarrow> Listings \<Rightarrow> review_error + Listings" where
  "mergeBusinessInto env candidateID sourceID targetID decision now L =
     and_then (businessMergeSnapshot env sourceID L) (\<lambda>snapshot.
       if sourceID = targetID \<or> find_listing targetID L = None then Inl ConstraintFailed
       else
         let L1 = L\<lparr>li_merges := li_merges L @
               [\<lparr>mg_source = sourceID, mg_target = targetID, mg_candidate = candidateID, mg_snapshot = snapshot,
                 mg_reason = truncateResolutionNote (dd_Note decision),
                 mg_operator = TrimSpace (dd_Operator decision), mg_merged_at = now\<rparr>],
               li_sources := update_where (\<lambda>s. so_business s = sourceID) (so_business_update (\<lambda>_. targetID)) (li_sources L),
               li_links := mergeJobBusinessLinks sourceID targetID (li_links L)\<rparr>;
             L2 = update_listing sourceID (\<lambda>r. if ls_merged_into r = None
               then r\<lparr>ls_merged_into := Some targetID, ls_change_status := ''merged'', ls_updated_at := now\<rparr> else r) L1
         in Inr (update_listing targetID (ls_updated_at_update (\<lambda>_. now)) L2))"

section \<open>Preferred values\<close>

record mergePreferredField =
  mf_field :: string
  mf_read :: "Listing \<Rightarrow> string"
  mf_write :: "string \<Rightarrow> Listing \<Rightarrow> Listing"

definition mergePreferredFields :: "mergePreferredField list" where
  "mergePreferredFields =
     [\<lparr>mf_field = ''name'', mf_read = ls_name, mf_write = (\<lambda>v. ls_name_update (\<lambda>_. v))\<rparr>,
      \<lparr>mf_field = ''category'', mf_read = ls_primary_category, mf_write = (\<lambda>v. ls_primary_category_update (\<lambda>_. v))\<rparr>,
      \<lparr>mf_field = ''address'', mf_read = ls_address, mf_write = (\<lambda>v. ls_address_update (\<lambda>_. v))\<rparr>,
      \<lparr>mf_field = ''phone'', mf_read = ls_phone, mf_write = (\<lambda>v. ls_phone_update (\<lambda>_. v))\<rparr>,
      \<lparr>mf_field = ''website'', mf_read = ls_website, mf_write = (\<lambda>v. ls_website_update (\<lambda>_. v))\<rparr>]"

record mergeFieldObservation =
  ob_value :: string
  ob_confidence :: f64
  ob_extractedAt :: int
  ob_provenance :: int
  ob_hasEvidence :: bool

text \<open>\<open>ORDER BY extracted_at DESC, id DESC LIMIT 1\<close> of the preferred evidence.\<close>

definition preferred_evidence :: "string \<Rightarrow> string \<Rightarrow> ProvenanceRow \<Rightarrow> bool" where
  "preferred_evidence businessID field p \<longleftrightarrow>
     fp_business p = businessID \<and> fp_field p = field \<and> fp_preferred p \<and> fp_superseded_at p = None"

definition evidence_before :: "ProvenanceRow \<Rightarrow> ProvenanceRow \<Rightarrow> bool" where
  "evidence_before p q \<longleftrightarrow>
     fp_extracted_at q < fp_extracted_at p \<or> fp_extracted_at p = fp_extracted_at q \<and> fp_id q < fp_id p"

definition readMergeFieldObservation ::
  "string \<Rightarrow> mergePreferredField \<Rightarrow> Listings \<Rightarrow> review_error + mergeFieldObservation" where
  "readMergeFieldObservation businessID candidate L =
     (case find_listing businessID L of
        None \<Rightarrow> Inl NoRows
      | Some row \<Rightarrow>
        let value = TrimSpace (mf_read candidate row)
        in (case SliceStable evidence_before
              (filter (preferred_evidence businessID (mf_field candidate)) (li_provenance L)) of
              [] \<Rightarrow> Inr \<lparr>ob_value = value, ob_confidence = Fin 0, ob_extractedAt = 0, ob_provenance = 0,
                ob_hasEvidence = False\<rparr>
            | p # _ \<Rightarrow> Inr \<lparr>ob_value = value, ob_confidence = fp_confidence p, ob_extractedAt = fp_extracted_at p,
                ob_provenance = fp_id p, ob_hasEvidence = True\<rparr>))"

definition preferMergedValue :: "string \<Rightarrow> mergeFieldObservation \<Rightarrow> mergeFieldObservation \<Rightarrow> bool" where
  "preferMergedValue strategy source target =
     (if ob_value source = [] \<or> ob_value source = ob_value target then False
      else if ob_value target = [] then True
      else if strategy = ''confidence''
      then ob_hasEvidence source \<and> (\<not> ob_hasEvidence target \<or> f64_less (ob_confidence target) (ob_confidence source))
      else if strategy = ''recency''
      then ob_hasEvidence source \<and> (\<not> ob_hasEvidence target \<or> ob_extractedAt target < ob_extractedAt source)
      else if strategy = ''completeness'' then length (ob_value target) < length (ob_value source)
      else False)"

definition adoptMergedFieldValue ::
  "string \<Rightarrow> mergePreferredField \<Rightarrow> mergeFieldObservation \<Rightarrow> mergeFieldObservation \<Rightarrow> string \<Rightarrow> int \<Rightarrow>
     Listings \<Rightarrow> Listings" where
  "adoptMergedFieldValue targetID candidate source target strategy now L =
     (let L1 = update_listing targetID (\<lambda>r. (mf_write candidate (ob_value source) r)
            \<lparr>ls_last_changed_at := now, ls_updated_at := now\<rparr>) L;
          evidence1 = (if ob_hasEvidence target
            then update_where (\<lambda>p. fp_id p = ob_provenance target)
              (\<lambda>p. p\<lparr>fp_preferred := False, fp_superseded_at := Some now\<rparr>) (li_provenance L1)
            else li_provenance L1);
          evidence2 = (if ob_hasEvidence source
            then update_where (\<lambda>p. fp_id p = ob_provenance source)
              (\<lambda>p. p\<lparr>fp_business := targetID, fp_preferred := True, fp_superseded_at := None\<rparr>) evidence1
            else evidence1)
      in L1\<lparr>li_provenance := evidence2,
           li_changes := li_changes L1 @
             [\<lparr>bc_business = targetID, bc_field = mf_field candidate, bc_before = [ob_value target],
               bc_after = [ob_value source], bc_kind = ''merge_preferred_'' @ strategy, bc_detected_at = now\<rparr>]\<rparr>)"

fun adopt_fields ::
  "mergePreferredField list \<Rightarrow> string \<Rightarrow> string \<Rightarrow> string \<Rightarrow> int \<Rightarrow> string list \<Rightarrow> Listings \<Rightarrow>
     review_error + (string list \<times> Listings)" where
  "adopt_fields [] sourceID targetID strategy now adopted L = Inr (adopted, L)"
| "adopt_fields (candidate # rest) sourceID targetID strategy now adopted L =
     and_then (readMergeFieldObservation sourceID candidate L) (\<lambda>source.
     and_then (readMergeFieldObservation targetID candidate L) (\<lambda>target.
       if preferMergedValue strategy source target
       then adopt_fields rest sourceID targetID strategy now (adopted @ [mf_field candidate])
         (adoptMergedFieldValue targetID candidate source target strategy now L)
       else adopt_fields rest sourceID targetID strategy now adopted L))"

definition applyPreferredValues ::
  "string \<Rightarrow> string \<Rightarrow> string \<Rightarrow> int \<Rightarrow> Listings \<Rightarrow> review_error + (string list \<times> Listings)" where
  "applyPreferredValues sourceID targetID strategy now L =
     (if strategy = [] then Inr ([], L)
      else adopt_fields mergePreferredFields sourceID targetID strategy now [] L)"

section \<open>Resolving a candidate\<close>

text \<open>\<open>INSERT OR IGNORE\<close> of the ruling.\<close>

definition insertNonMatchRule :: "string \<Rightarrow> string \<Rightarrow> string \<Rightarrow> int \<Rightarrow> Listings \<Rightarrow> Listings" where
  "insertNonMatchRule leftID rightID note now L =
     (if list_ex (\<lambda>r. ru_type r = ''business_pair'' \<and> ru_left r = leftID \<and> ru_right r = rightID \<and>
           ru_action r = ''keep_separate'') (li_rules L) then L
      else L\<lparr>li_rules := li_rules L @
        [\<lparr>ru_type = ''business_pair'', ru_left = leftID, ru_right = rightID, ru_action = ''keep_separate'',
          ru_reason = truncateResolutionNote note, ru_created_at = now\<rparr>]\<rparr>)"

text \<open>What the action does: the tables, and the state, the merged record and the fields adopted.\<close>

definition apply_action ::
  "ReviewEnv \<Rightarrow> DuplicateDecision \<Rightarrow> CandidateRow \<Rightarrow> string \<Rightarrow> string \<Rightarrow> int \<Rightarrow> Listings \<Rightarrow>
     review_error + (DuplicateResolution \<times> Listings)" where
  "apply_action env decision candidate keepID mergeID now L =
     (let resolution = \<lparr>rs_CandidateID = cd_id candidate, rs_Action = dd_Action decision, rs_State = [],
            rs_KeptBusinessID = keepID, rs_MergedBusinessID = mergeID, rs_FieldStrategy = [], rs_PreferredFields = []\<rparr>
      in if dd_Action decision = ''merge''
         then and_then (mergeBusinessInto env (cd_id candidate) mergeID keepID decision now L) (\<lambda>L1.
              and_then (applyPreferredValues mergeID keepID (dd_FieldStrategy decision) now L1) (\<lambda>(adopted, L2).
                Inr (resolution\<lparr>rs_FieldStrategy := dd_FieldStrategy decision, rs_PreferredFields := adopted,
                  rs_State := ''merged''\<rparr>, L2)))
         else if dd_Action decision = ''keep_both''
         then Inr (resolution\<lparr>rs_State := ''keep_both'', rs_MergedBusinessID := []\<rparr>,
              insertNonMatchRule (cd_left candidate) (cd_right candidate) (dd_Note decision) now L)
         else if dd_Action decision = ''ignore''
         then Inr (resolution\<lparr>rs_State := ''ignored'', rs_MergedBusinessID := []\<rparr>, L)
         else Inl ErrInvalidDuplicateDecision)"

definition settle_candidate :: "DuplicateDecision \<Rightarrow> DuplicateResolution \<Rightarrow> int \<Rightarrow> Listings \<Rightarrow> Listings" where
  "settle_candidate decision resolution now L =
     L\<lparr>li_candidates := update_where (\<lambda>c. cd_id c = rs_CandidateID resolution \<and> cd_state c = ''pending'')
          (\<lambda>c. c\<lparr>cd_state := rs_State resolution, cd_resolved_at := Some now,
            cd_note := truncateResolutionNote (dd_Note decision)\<rparr>) (li_candidates L),
       li_audit := li_audit L @
          [\<lparr>au_action = ''duplicate_'' @ rs_State resolution, au_entity = rs_KeptBusinessID resolution,
            au_kept = rs_KeptBusinessID resolution, au_merged = rs_MergedBusinessID resolution,
            au_note = truncateResolutionNote (dd_Note decision), au_field_strategy = rs_FieldStrategy resolution,
            au_preferred_fields = rs_PreferredFields resolution, au_created_at = now\<rparr>]\<rparr>"

definition repo_ResolveDuplicateCandidate ::
  "ReviewEnv \<Rightarrow> int \<Rightarrow> DuplicateDecision \<Rightarrow> Listings \<Rightarrow> review_error + (DuplicateResolution \<times> Listings)" where
  "repo_ResolveDuplicateCandidate env now decision L =
     (case find (\<lambda>c. cd_id c = dd_CandidateID decision) (li_candidates L) of
        None \<Rightarrow> Inl ErrDuplicateCandidateNotFound
      | Some candidate \<Rightarrow>
        if cd_state candidate \<noteq> ''pending'' then Inl ErrDuplicateAlreadyResolved
        else and_then (orientDuplicateDecision decision (cd_left candidate) (cd_right candidate)) (\<lambda>(keepID, mergeID).
             and_then (apply_action env decision candidate keepID mergeID now L) (\<lambda>(resolution, L1).
               Inr (resolution, settle_candidate decision resolution now L1))))"

section \<open>The service\<close>

definition validBusinessID :: "ReviewEnv \<Rightarrow> string \<Rightarrow> bool" where
  "validBusinessID env value \<longleftrightarrow> \<not> (length value < 5 \<or> 128 < length value) \<and>
     list_all (\<lambda>r. rv_IsLetter env r \<or> rv_IsDigit env r \<or> r = 45 \<or> r = 95) (runes value)"

definition ResolveDuplicateCandidate ::
  "ReviewEnv \<Rightarrow> int \<Rightarrow> DuplicateDecision \<Rightarrow> Listings \<Rightarrow> review_error + (DuplicateResolution \<times> Listings)" where
  "ResolveDuplicateCandidate env now decision L =
     (let d = decision\<lparr>dd_Action := ToLower (TrimSpace (dd_Action decision)),
            dd_FieldStrategy := ToLower (TrimSpace (dd_FieldStrategy decision))\<rparr>;
          keep = TrimSpace (dd_KeepBusinessID d)
      in if dd_CandidateID d \<le> 0 then Inl ErrInvalidDuplicateDecision
         else if dd_Action d \<notin> {''merge'', ''keep_both'', ''ignore''} then Inl ErrInvalidDuplicateDecision
         else if 500 < length (dd_Note d) then Inl ErrInvalidDuplicateDecision
         else if dd_FieldStrategy d \<noteq> [] \<and> dd_FieldStrategy d \<notin> set DuplicateFieldStrategies
         then Inl ErrInvalidDuplicateDecision
         else if dd_FieldStrategy d \<noteq> [] \<and> dd_Action d \<noteq> ''merge'' then Inl ErrInvalidDuplicateDecision
         else if keep \<noteq> [] \<and> \<not> validBusinessID env keep then Inl ErrInvalidDuplicateDecision
         else repo_ResolveDuplicateCandidate env now d L)"

section \<open>The queue\<close>

text \<open>\<open>ORDER BY score DESC, id\<close> of the pending pairs of two live rows.\<close>

definition review_before :: "CandidateRow \<Rightarrow> CandidateRow \<Rightarrow> bool" where
  "review_before a b \<longleftrightarrow>
     f64_less (cd_score b) (cd_score a) \<or> f64_eq (cd_score a) (cd_score b) \<and> cd_id a < cd_id b"

definition live_id :: "Listings \<Rightarrow> string \<Rightarrow> bool" where
  "live_id L i \<longleftrightarrow> (case find_listing i L of None \<Rightarrow> False | Some r \<Rightarrow> live_listing r)"

definition ListDuplicateCandidates :: "int \<Rightarrow> Listings \<Rightarrow> CandidateRow list" where
  "ListDuplicateCandidates limit L =
     (let n = (if limit \<le> 0 \<or> 200 < limit then 50 else limit)
      in take (nat n) (SliceStable review_before
           (filter (\<lambda>c. cd_state c = ''pending'' \<and> live_id L (cd_left c) \<and> live_id L (cd_right c)) (li_candidates L))))"

end
