(* ===== verification/ReviewProperties.thy ===== *)
theory ReviewProperties
  imports DuplicateReview "HOL-Library.Multiset"
begin

text \<open>
  Duplicate review loses no evidence: over every decision the rows of listings, observations and field
  evidence stay, and for every job the occurrences and the first and last sighting stay what they were.
  Merging two live listings keeps, for every listing, a survivor at the end of its merges; without that
  the merges can close a circle in which no listing is left.
\<close>

section \<open>Job links\<close>

definition link_pk :: "LinkRow \<Rightarrow> string \<times> string" where
  "link_pk l = (jl_job l, jl_business l)"

text \<open>What a job knows: how often it saw listings, and when first and last.\<close>

definition occurrences_of :: "string \<Rightarrow> LinkRow list \<Rightarrow> int" where
  "occurrences_of job links = (\<Sum>l \<leftarrow> filter (\<lambda>l. jl_job l = job) links. jl_occurrence_count l)"

definition first_seen :: "string \<Rightarrow> LinkRow list \<Rightarrow> int" where
  "first_seen job links = Min (jl_first_seen_at ` {l \<in> set links. jl_job l = job})"

definition last_seen :: "string \<Rightarrow> LinkRow list \<Rightarrow> int" where
  "last_seen job links = Max (jl_last_seen_at ` {l \<in> set links. jl_job l = job})"

abbreviation for_job :: "string \<Rightarrow> LinkRow list \<Rightarrow> LinkRow list" where
  "for_job job links \<equiv> filter (\<lambda>l. jl_job l = job) links"

lemma job_views:
  "occurrences_of job links = sum_mset (image_mset jl_occurrence_count (mset (for_job job links)))"
  "first_seen job links = Min (set_mset (image_mset jl_first_seen_at (mset (for_job job links))))"
  "last_seen job links = Max (set_mset (image_mset jl_last_seen_at (mset (for_job job links))))"
  by (simp_all add: occurrences_of_def first_seen_def last_seen_def sum_mset_sum_list flip: mset_map mset_filter)

text \<open>The statements look at one job at a time.\<close>

lemma find_filter: "find P (filter Q xs) = find (\<lambda>x. P x \<and> Q x) xs"
  by (induction xs) auto

lemma fold_link_pk [simp]: "jl_job (fold_link s t) = jl_job t" "jl_business (fold_link s t) = jl_business t"
  by (simp_all add: fold_link_def)

lemma for_job_fold: "for_job job (fold_links s t links) = fold_links s t (for_job job links)"
proof -
  define h where "h xs x = (if jl_business x = t
     then (case find (\<lambda>y. jl_business y = s \<and> jl_job y = jl_job x) xs of None \<Rightarrow> x | Some y \<Rightarrow> fold_link y x) else x)"
    for xs x
  have job: "jl_job (h xs x) = jl_job x" for xs x by (simp add: h_def split: option.split)
  have same: "h links x = h (for_job job links) x" if "jl_job x = job" for x
    using that by (simp add: h_def find_filter conj_ac cong: conj_cong)
  have "for_job job (map (h links) xs) = map (h (for_job job links)) (for_job job xs)" for xs
    using same by (induction xs) (auto simp: job)
  moreover have "fold_links s t xs = map (h xs) xs" for xs
    unfolding fold_links_def by (rule map_cong) (simp_all add: h_def)
  ultimately show ?thesis by metis
qed

lemma for_job_drop: "for_job job (drop_folded s t links) = drop_folded s t (for_job job links)"
  unfolding drop_folded_def filter_filter by (rule filter_cong) (auto simp: list_ex_iff)

lemma for_job_merge:
  "for_job job (mergeJobBusinessLinks s t links) = mergeJobBusinessLinks s t (for_job job links)"
proof -
  have "for_job job (update_where (\<lambda>l. jl_business l = s) (jl_business_update (\<lambda>_. t)) xs) =
      update_where (\<lambda>l. jl_business l = s) (jl_business_update (\<lambda>_. t)) (for_job job xs)" for xs
    by (induction xs) auto
  then show ?thesis by (simp add: mergeJobBusinessLinks_def for_job_drop for_job_fold)
qed

lemma link_pk_job: "distinct (map link_pk links) \<Longrightarrow> distinct (map jl_business (for_job job links))"
proof (induction links)
  case (Cons l ls)
  then show ?case by (auto simp: link_pk_def) (metis (no_types, lifting) image_eqI)
qed simp

text \<open>Within a job at most one link belongs to the merged record and one to the kept one.\<close>

fun opt_mset :: "'a option \<Rightarrow> 'a multiset" where
  "opt_mset None = {#}"
| "opt_mset (Some x) = {#x#}"

lemma find_absent: "k \<notin> f ` set xs \<Longrightarrow> find (\<lambda>x. f x = k) xs = None"
  by (auto simp: find_None_iff)

lemma two_links:
  assumes "s \<noteq> t" "distinct (map f xs)"
  shows "\<exists>ys. mset xs = opt_mset (find (\<lambda>x. f x = s) xs) + opt_mset (find (\<lambda>x. f x = t) xs) + mset ys \<and>
     distinct (map f ys) \<and> s \<notin> f ` set ys \<and> t \<notin> f ` set ys"
  using assms(2)
proof (induction xs)
  case (Cons x xs)
  then obtain ys where ys: "mset xs = opt_mset (find (\<lambda>x. f x = s) xs) + opt_mset (find (\<lambda>x. f x = t) xs) + mset ys"
    "distinct (map f ys)" "s \<notin> f ` set ys" "t \<notin> f ` set ys" by auto
  show ?case
  proof (cases "f x = s \<or> f x = t")
    case True
    then show ?thesis using ys assms(1) Cons.prems find_absent [of "f x" f xs]
      by (intro exI [of _ ys]) (auto simp del: find_None_iff)
  next
    case False
    have "f x \<notin> f ` set ys"
    proof
      assume "f x \<in> f ` set ys"
      moreover have "set ys \<subseteq> set xs" using ys(1) by (metis mset_subset_eq_add_right set_mset_mono set_mset_mset)
      ultimately show False using Cons.prems by auto
    qed
    then show ?thesis using False ys by (intro exI [of _ "x # ys"]) auto
  qed
qed simp

fun job_merge :: "string \<Rightarrow> LinkRow option \<Rightarrow> LinkRow option \<Rightarrow> LinkRow multiset" where
  "job_merge t (Some a) (Some b) = {#fold_link a b#}"
| "job_merge t (Some a) None = {#a\<lparr>jl_business := t\<rparr>#}"
| "job_merge t None b = opt_mset b"

lemma merge_one_job:
  assumes st: "s \<noteq> t" and job: "\<forall>l \<in> set xs. jl_job l = job" and d: "distinct (map jl_business xs)"
  defines "pick \<equiv> \<lambda>i. find (\<lambda>l. jl_business l = i) xs"
  shows "\<exists>ys. mset xs = opt_mset (pick s) + opt_mset (pick t) + mset ys \<and>
     mset (mergeJobBusinessLinks s t xs) = job_merge t (pick s) (pick t) + mset ys \<and>
     distinct (map jl_business ys) \<and> s \<notin> jl_business ` set ys \<and> t \<notin> jl_business ` set ys"
proof -
  obtain ys where ys: "mset xs = opt_mset (pick s) + opt_mset (pick t) + mset ys"
    "distinct (map jl_business ys)" "s \<notin> jl_business ` set ys" "t \<notin> jl_business ` set ys"
    using two_links [OF st d] by (auto simp: pick_def)
  define h where "h x = (if jl_business x = t then (case pick s of None \<Rightarrow> x | Some y \<Rightarrow> fold_link y x) else x)" for x
  have fold: "fold_links s t xs = map h xs"
    unfolding fold_links_def
  proof (rule map_cong [OF refl])
    fix x assume "x \<in> set xs"
    then have "find (\<lambda>l. jl_business l = s \<and> jl_job l = jl_job x) xs = pick s"
      unfolding pick_def using job by (intro find_cong) auto
    then show "(if jl_business x = t
        then (case find (\<lambda>l. jl_business l = s \<and> jl_job l = jl_job x) xs of None \<Rightarrow> x | Some source \<Rightarrow> fold_link source x)
        else x) = h x" by (simp add: h_def)
  qed
  have h: "jl_job (h x) = jl_job x" "jl_business (h x) = jl_business x" for x by (simp_all add: h_def split: option.split)
  have pt: "list_ex (\<lambda>x. jl_business x = t) xs \<longleftrightarrow> pick t \<noteq> None"
    by (auto simp: pick_def find_None_iff list_ex_iff)
  have drop: "drop_folded s t (map h xs) = filter (\<lambda>l. \<not> (jl_business l = s \<and> pick t \<noteq> None)) (map h xs)"
    unfolding drop_folded_def pt [symmetric] using job
    by (intro filter_cong) (auto simp: list_ex_iff h)
  have picked: "jl_business a = s" if "pick s = Some a" for a using that by (auto simp: pick_def find_Some_iff)
  have picked': "jl_business a = t" if "pick t = Some a" for a using that by (auto simp: pick_def find_Some_iff)
  let ?ren = "\<lambda>l. if jl_business l = s then l\<lparr>jl_business := t\<rparr> else l"
  have "mset (mergeJobBusinessLinks s t xs) =
      image_mset ?ren (filter_mset (\<lambda>l. \<not> (jl_business l = s \<and> pick t \<noteq> None)) (image_mset h (mset xs)))"
    unfolding mergeJobBusinessLinks_def fold drop update_where_def by (simp add: mset_filter)
  also have "\<dots> = job_merge t (pick s) (pick t) + mset ys"
  proof -
    have "map h ys = ys" "map ?ren ys = ys" using ys(3,4) by (auto simp: h_def intro!: map_idI)
    moreover have "filter (\<lambda>l. jl_business l \<noteq> s) ys = ys"
      using ys(3) by (auto intro!: filter_True)
    ultimately have id: "image_mset h (mset ys) = mset ys" "image_mset ?ren (mset ys) = mset ys"
      "filter_mset (\<lambda>l. jl_business l \<noteq> s) (mset ys) = mset ys"
      by (metis mset_map, metis mset_map, metis mset_filter)
    show ?thesis
      using st picked picked' unfolding ys(1)
      by (cases "pick s"; cases "pick t") (auto simp: id h_def)
  qed
  finally show ?thesis using ys by blast
qed

lemma job_merge_views:
  "sum_mset (image_mset jl_occurrence_count (job_merge t a b)) =
     sum_mset (image_mset jl_occurrence_count (opt_mset a)) + sum_mset (image_mset jl_occurrence_count (opt_mset b))"
  "finite A \<Longrightarrow> Min (jl_first_seen_at ` (set_mset (job_merge t a b) \<union> A)) =
     Min (jl_first_seen_at ` (set_mset (opt_mset a) \<union> set_mset (opt_mset b) \<union> A))"
  "finite A \<Longrightarrow> Max (jl_last_seen_at ` (set_mset (job_merge t a b) \<union> A)) =
     Max (jl_last_seen_at ` (set_mset (opt_mset a) \<union> set_mset (opt_mset b) \<union> A))"
proof -
  show "sum_mset (image_mset jl_occurrence_count (job_merge t a b)) =
     sum_mset (image_mset jl_occurrence_count (opt_mset a)) + sum_mset (image_mset jl_occurrence_count (opt_mset b))"
    by (cases a; cases b) (simp_all add: fold_link_def)
  assume "finite A"
  then show "Min (jl_first_seen_at ` (set_mset (job_merge t a b) \<union> A)) =
     Min (jl_first_seen_at ` (set_mset (opt_mset a) \<union> set_mset (opt_mset b) \<union> A))"
    "Max (jl_last_seen_at ` (set_mset (job_merge t a b) \<union> A)) =
     Max (jl_last_seen_at ` (set_mset (opt_mset a) \<union> set_mset (opt_mset b) \<union> A))"
    by (cases "A = {}"; cases a; cases b; simp add: fold_link_def min.commute min.left_commute max.commute max.left_commute)+
qed

lemma merge_links_views:
  assumes st: "s \<noteq> t" and d: "distinct (map link_pk links)"
  shows "occurrences_of job (mergeJobBusinessLinks s t links) = occurrences_of job links"
    "first_seen job (mergeJobBusinessLinks s t links) = first_seen job links"
    "last_seen job (mergeJobBusinessLinks s t links) = last_seen job links"
proof -
  let ?xs = "for_job job links"
  obtain ys where "mset ?xs = opt_mset (find (\<lambda>l. jl_business l = s) ?xs) + opt_mset (find (\<lambda>l. jl_business l = t) ?xs) + mset ys"
    "mset (mergeJobBusinessLinks s t ?xs) =
       job_merge t (find (\<lambda>l. jl_business l = s) ?xs) (find (\<lambda>l. jl_business l = t) ?xs) + mset ys"
    using merge_one_job [OF st _ link_pk_job [OF d, of job], of job] by auto
  then show "occurrences_of job (mergeJobBusinessLinks s t links) = occurrences_of job links"
    "first_seen job (mergeJobBusinessLinks s t links) = first_seen job links"
    "last_seen job (mergeJobBusinessLinks s t links) = last_seen job links"
    unfolding job_views for_job_merge by (simp_all add: job_merge_views flip: image_Un)
qed

lemma distinct_by_job:
  "(\<And>job. distinct (map jl_business (for_job job links))) \<Longrightarrow> distinct (map link_pk links)"
proof (induction links)
  case (Cons l ls)
  have "distinct (map jl_business (for_job job ls))" for job
    using Cons.prems [of job] by (simp split: if_splits)
  moreover have "link_pk l \<notin> link_pk ` set ls"
    using Cons.prems [of "jl_job l"] by (auto simp: link_pk_def)
  ultimately show ?case using Cons.IH by simp
qed simp

lemma merge_links_distinct:
  assumes st: "s \<noteq> t" and d: "distinct (map link_pk links)"
  shows "distinct (map link_pk (mergeJobBusinessLinks s t links))"
proof (rule distinct_by_job)
  fix job
  let ?xs = "for_job job links"
  let ?a = "find (\<lambda>l. jl_business l = s) ?xs" and ?b = "find (\<lambda>l. jl_business l = t) ?xs"
  obtain ys where ys: "mset (mergeJobBusinessLinks s t ?xs) = job_merge t ?a ?b + mset ys"
    "distinct (map jl_business ys)" "s \<notin> jl_business ` set ys" "t \<notin> jl_business ` set ys"
    using merge_one_job [OF st _ link_pk_job [OF d, of job], of job] by auto
  have b: "jl_business x = t" if "?b = Some x" for x using that by (auto simp: find_Some_iff)
  obtain zs where zs: "job_merge t ?a ?b = mset zs" "distinct (map jl_business zs)" "set (map jl_business zs) \<subseteq> {t}"
    using b that [of "[]"] that [of "[the ?b]"] that [of "[the ?a\<lparr>jl_business := t\<rparr>]"] that [of "[fold_link (the ?a) (the ?b)]"]
    by (cases ?a; cases ?b) auto
  have "mset (map jl_business (for_job job (mergeJobBusinessLinks s t links))) = mset (map jl_business (zs @ ys))"
    unfolding for_job_merge mset_map ys(1) zs(1) by simp
  moreover have "distinct (map jl_business (zs @ ys))" using zs ys by auto
  ultimately show "distinct (map jl_business (for_job job (mergeJobBusinessLinks s t links)))"
    by (metis mset_eq_imp_distinct_iff)
qed

section \<open>Decisions\<close>

lemma and_then_InrE:
  assumes "and_then r f = Inr y" obtains x where "r = Inr x" "f x = Inr y"
  using assms by (auto simp: and_then_Inr)

text \<open>The tables that field values are adopted in: names, values and evidence, never which rows there are.\<close>

definition listing_frame :: "Listing \<Rightarrow> string \<times> string option \<times> bool" where
  "listing_frame r = (ls_id r, ls_merged_into r, ls_deleted r)"

definition same_rows :: "Listings \<Rightarrow> Listings \<Rightarrow> bool" where
  "same_rows L L' \<longleftrightarrow> map listing_frame (li_businesses L') = map listing_frame (li_businesses L) \<and>
     li_keys L' = li_keys L \<and> li_sources L' = li_sources L \<and> li_links L' = li_links L \<and>
     map fp_id (li_provenance L') = map fp_id (li_provenance L) \<and> prefix (li_changes L) (li_changes L') \<and>
     li_candidates L' = li_candidates L \<and> li_rules L' = li_rules L \<and> li_merges L' = li_merges L"

lemma same_rows_refl [simp]: "same_rows L L"
  by (simp add: same_rows_def)

lemma same_rows_trans: "same_rows L M \<Longrightarrow> same_rows M N \<Longrightarrow> same_rows L N"
  unfolding same_rows_def by (metis prefix_order.trans)

lemma map_update_keep: "(\<And>r. g (f r) = g r) \<Longrightarrow> map g (update_where p f rows) = map g rows"
  by (simp add: update_where_def)

lemma mf_write_frame: "candidate \<in> set mergePreferredFields \<Longrightarrow> listing_frame (mf_write candidate v r) = listing_frame r"
  by (auto simp: mergePreferredFields_def listing_frame_def)

lemma adopt_same_rows:
  assumes "candidate \<in> set mergePreferredFields"
  shows "same_rows L (adoptMergedFieldValue targetID candidate source target strategy now L)"
proof -
  have "listing_frame ((mf_write candidate v r)\<lparr>ls_last_changed_at := n, ls_updated_at := n\<rparr>) = listing_frame r" for v r n
    using mf_write_frame [OF assms, of v r] by (simp add: listing_frame_def)
  then show ?thesis
    by (simp add: same_rows_def adoptMergedFieldValue_def Let_def update_listing_def map_update_keep)
qed

lemma adopt_fields_same_rows:
  "adopt_fields cands s t strategy now adopted L = Inr (adopted', L') \<Longrightarrow> set cands \<subseteq> set mergePreferredFields \<Longrightarrow>
     same_rows L L'"
proof (induction cands arbitrary: adopted L)
  case (Cons candidate rest)
  then show ?case
    using adopt_same_rows [of candidate L] same_rows_trans
    by (fastforce simp: and_then_Inr split: if_splits)
qed simp

lemma applyPreferredValues_same_rows:
  "applyPreferredValues s t strategy now L = Inr (adopted, L') \<Longrightarrow> same_rows L L'"
  using adopt_fields_same_rows by (auto simp: applyPreferredValues_def split: if_splits)

text \<open>What a settled decision was.\<close>

lemma settled_decision:
  assumes "repo_ResolveDuplicateCandidate env now d L = Inr (res, L')"
  obtains c keep merge L1 where "find (\<lambda>c. cd_id c = dd_CandidateID d) (li_candidates L) = Some c"
    "cd_state c = ''pending''" "orientDuplicateDecision d (cd_left c) (cd_right c) = Inr (keep, merge)"
    "apply_action env d c keep merge now L = Inr (res, L1)" "L' = settle_candidate d res now L1"
  using assms by (auto simp: repo_ResolveDuplicateCandidate_def and_then_Inr split: option.splits if_splits)

lemma service_accepts:
  assumes "ResolveDuplicateCandidate env now d L = Inr (res, L')"
  obtains d' where "repo_ResolveDuplicateCandidate env now d' L = Inr (res, L')"
    "dd_CandidateID d' = dd_CandidateID d" "dd_KeepBusinessID d' = dd_KeepBusinessID d"
    "dd_Action d' = ToLower (TrimSpace (dd_Action d))"
  using assms by (auto simp: ResolveDuplicateCandidate_def Let_def split: if_splits)

lemma orient_cases:
  "orientDuplicateDecision d l r = Inr (keep, merge) \<Longrightarrow> keep = l \<and> merge = r \<or> keep = r \<and> merge = l"
  by (auto simp: orientDuplicateDecision_def Let_def split: if_splits)

lemma action_cases:
  assumes "apply_action env d c keep merge now L = Inr (res, L1)"
  obtains (merge) L0 adopted where "dd_Action d = ''merge''" "rs_State res = ''merged''"
      "mergeBusinessInto env (cd_id c) merge keep d now L = Inr L0"
      "applyPreferredValues merge keep (dd_FieldStrategy d) now L0 = Inr (adopted, L1)"
  | (keep_both) "dd_Action d = ''keep_both''" "rs_State res = ''keep_both''"
      "L1 = insertNonMatchRule (cd_left c) (cd_right c) (dd_Note d) now L"
  | (ignore) "dd_Action d = ''ignore''" "rs_State res = ''ignored''" "L1 = L"
  using assms by (auto simp: apply_action_def Let_def and_then_Inr split: if_splits)

section \<open>Nothing is lost\<close>

definition evidence_kept :: "Listings \<Rightarrow> Listings \<Rightarrow> bool" where
  "evidence_kept L L' \<longleftrightarrow> map ls_id (li_businesses L') = map ls_id (li_businesses L) \<and>
     map so_id (li_sources L') = map so_id (li_sources L) \<and> map so_job (li_sources L') = map so_job (li_sources L) \<and>
     li_keys L' = li_keys L \<and> map fp_id (li_provenance L') = map fp_id (li_provenance L) \<and>
     prefix (li_changes L) (li_changes L') \<and> prefix (li_merges L) (li_merges L') \<and>
     (\<forall>job. occurrences_of job (li_links L') = occurrences_of job (li_links L) \<and>
        first_seen job (li_links L') = first_seen job (li_links L) \<and>
        last_seen job (li_links L') = last_seen job (li_links L)) \<and>
     distinct (map link_pk (li_links L'))"

lemma frame_ids: "map listing_frame xs = map listing_frame ys \<Longrightarrow> map ls_id xs = map ls_id ys"
proof -
  assume "map listing_frame xs = map listing_frame ys"
  then have "map (fst \<circ> listing_frame) xs = map (fst \<circ> listing_frame) ys" by (metis map_map)
  then show ?thesis by (simp add: listing_frame_def comp_def)
qed

lemma mergeBusinessInto_kept:
  assumes "mergeBusinessInto env cid s t d now L = Inr L'" "distinct (map link_pk (li_links L))"
  shows "evidence_kept L L'"
proof -
  have st: "s \<noteq> t" using assms(1) by (auto simp: mergeBusinessInto_def and_then_Inr split: if_splits)
  show ?thesis
    using assms merge_links_views [OF st assms(2)] merge_links_distinct [OF st assms(2)]
    by (auto simp: mergeBusinessInto_def and_then_Inr evidence_kept_def Let_def update_listing_def map_update_keep
        split: if_splits)
qed

lemma same_rows_kept: "evidence_kept L M \<Longrightarrow> same_rows M N \<Longrightarrow> evidence_kept L N"
  unfolding evidence_kept_def same_rows_def by (metis frame_ids prefix_order.trans)

lemma evidence_kept_refl: "distinct (map link_pk (li_links L)) \<Longrightarrow> evidence_kept L L"
  by (simp add: evidence_kept_def)

lemma settle_kept: "evidence_kept L (settle_candidate d res now M) \<longleftrightarrow> evidence_kept L M"
  by (simp add: evidence_kept_def settle_candidate_def)

lemma rule_kept: "evidence_kept L (insertNonMatchRule l r note now M) \<longleftrightarrow> evidence_kept L M"
  by (simp add: evidence_kept_def insertNonMatchRule_def)

text \<open>
  C10: a duplicate decision loses nothing. Whatever an operator decides, every listing, every observation,
  every identity key and every piece of field evidence is still there afterwards, the histories only
  grow, and for every job the number of occurrences and the first and last sighting are what they
  were, with still at most one link of a job to a listing.
\<close>

theorem decision_keeps_evidence:
  assumes "distinct (map link_pk (li_links L))" "ResolveDuplicateCandidate env now d L = Inr (res, L')"
  shows "evidence_kept L L'"
proof -
  obtain d' where "repo_ResolveDuplicateCandidate env now d' L = Inr (res, L')"
    using assms(2) by (rule service_accepts)
  then obtain c keep merge L1 where 1: "apply_action env d' c keep merge now L = Inr (res, L1)"
    "L' = settle_candidate d' res now L1" by (rule settled_decision)
  from 1(1) have "evidence_kept L L1"
  proof (cases rule: action_cases)
    case (merge L0 adopted)
    then show ?thesis
      using mergeBusinessInto_kept assms(1) applyPreferredValues_same_rows same_rows_kept by blast
  qed (simp_all add: rule_kept evidence_kept_refl assms(1))
  then show ?thesis by (simp add: 1(2) settle_kept)
qed

section \<open>Survivors\<close>

text \<open>Following the merges from a listing ends at the listing that survived.\<close>

definition merged_into :: "Listings \<Rightarrow> string \<Rightarrow> string option option" where
  "merged_into L i = map_option ls_merged_into (find_listing i L)"

inductive survives :: "(string \<Rightarrow> string option option) \<Rightarrow> string \<Rightarrow> string \<Rightarrow> bool" for m where
  survives_here: "m i = Some None \<Longrightarrow> survives m i i"
| survives_merged: "m i = Some (Some j) \<Longrightarrow> survives m j k \<Longrightarrow> survives m i k"

definition all_survive :: "Listings \<Rightarrow> bool" where
  "all_survive L \<longleftrightarrow> list_all (\<lambda>r. \<exists>k. survives (merged_into L) (ls_id r) k) (li_businesses L)"

lemma survives_redirect:
  assumes "survives m i k" "m t = Some None" "s \<noteq> t" "m s = Some None"
  shows "survives (m(s \<mapsto> Some t)) i (if k = s then t else k)"
  using assms(1)
proof (induction rule: survives.induct)
  case (survives_here i)
  let ?m = "m(s \<mapsto> Some t)"
  have "survives ?m t t" using assms by (intro survives.survives_here) simp
  then have "survives ?m s t" by (intro survives.survives_merged [of _ s t]) simp_all
  moreover have "survives ?m i i" if "i \<noteq> s" using that survives_here by (intro survives.survives_here) simp
  ultimately show ?case by (cases "i = s") (simp_all only: if_True if_False simp_thms)
next
  case (survives_merged i j k)
  then show ?case using assms(4) by (intro survives.survives_merged [of _ i j]) auto
qed

lemma find_frames:
  "map listing_frame xs = map listing_frame ys \<Longrightarrow>
     map_option listing_frame (find (\<lambda>r. ls_id r = i) xs) = map_option listing_frame (find (\<lambda>r. ls_id r = i) ys)"
proof (induction xs arbitrary: ys)
  case (Cons x xs)
  then obtain y ys' where "ys = y # ys'" "listing_frame x = listing_frame y" "map listing_frame xs = map listing_frame ys'"
    by (cases ys) auto
  moreover have "ls_id x = ls_id y" using calculation(2) by (simp add: listing_frame_def)
  ultimately show ?case using Cons.IH [of ys'] by simp
qed simp

lemma merged_into_frame: "merged_into L i = map_option (\<lambda>f. fst (snd f)) (map_option listing_frame (find_listing i L))"
  by (cases "find_listing i L") (simp_all add: merged_into_def listing_frame_def)

lemma merged_into_cong:
  "map listing_frame (li_businesses L) = map listing_frame (li_businesses M) \<Longrightarrow> merged_into L = merged_into M"
  by (rule ext) (simp add: merged_into_frame find_listing_def find_frames [of "li_businesses L" "li_businesses M"])

lemma live_id_frame: "live_id L i \<longleftrightarrow> (\<exists>j. map_option listing_frame (find_listing i L) = Some (j, None, False))"
  by (auto simp: live_id_def live_listing_def listing_frame_def split: option.split)

lemma live_id_cong:
  "map listing_frame (li_businesses L) = map listing_frame (li_businesses M) \<Longrightarrow> live_id L = live_id M"
  by (rule ext) (simp add: live_id_frame find_listing_def find_frames [of "li_businesses L" "li_businesses M"])

lemma find_update_listing:
  "(\<And>r. ls_id (f r) = ls_id r) \<Longrightarrow>
     find_listing i (update_listing j f L) = (if i = j then map_option f (find_listing i L) else find_listing i L)"
proof -
  assume f: "\<And>r. ls_id (f r) = ls_id r"
  have "find (\<lambda>r. ls_id r = i) (update_where (\<lambda>r. ls_id r = j) f xs) =
      (if i = j then map_option f (find (\<lambda>r. ls_id r = i) xs) else find (\<lambda>r. ls_id r = i) xs)" for xs
    by (induction xs) (auto simp: f)
  then show ?thesis by (simp add: find_listing_def update_listing_def)
qed

lemma mergeBusinessInto_links:
  assumes "mergeBusinessInto env cid s t d now L = Inr L'" "live_id L s"
  shows "merged_into L' = (merged_into L)(s \<mapsto> Some t)" "live_id L' i \<longleftrightarrow> live_id L i \<and> i \<noteq> s" "s \<noteq> t"
proof -
  show st: "s \<noteq> t" using assms(1) by (auto simp: mergeBusinessInto_def and_then_Inr split: if_splits)
  obtain r where r: "find_listing s L = Some r" "ls_merged_into r = None" "\<not> ls_deleted r"
    using assms(2) by (auto simp: live_id_def live_listing_def split: option.splits)
  have tables: "find_listing i (L\<lparr>li_merges := ms, li_sources := ss, li_links := ls\<rparr>) = find_listing i L" for i ms ss ls
    by (simp add: find_listing_def)
  have found: "find_listing i L' = (if i = t then map_option (ls_updated_at_update (\<lambda>_. now)) (find_listing i L)
      else if i = s then Some (r\<lparr>ls_merged_into := Some t, ls_change_status := ''merged'', ls_updated_at := now\<rparr>)
      else find_listing i L)" for i
    using assms(1) r st
    by (auto simp: mergeBusinessInto_def and_then_Inr Let_def find_update_listing tables split: if_splits)
  show "merged_into L' = (merged_into L)(s \<mapsto> Some t)"
    using st by (auto simp: merged_into_def found option.map_comp comp_def)
  show "live_id L' i \<longleftrightarrow> live_id L i \<and> i \<noteq> s"
    using st by (auto simp: live_id_def live_listing_def found split: option.split)
qed

lemma settle_businesses [simp]: "li_businesses (settle_candidate d res now L) = li_businesses L"
  by (simp add: settle_candidate_def)

lemma rule_businesses [simp]: "li_businesses (insertNonMatchRule l r note now L) = li_businesses L"
  by (simp add: insertNonMatchRule_def)

lemma queue_live:
  "c \<in> set (ListDuplicateCandidates limit L) \<Longrightarrow>
     c \<in> set (li_candidates L) \<and> live_id L (cd_left c) \<and> live_id L (cd_right c)"
  by (auto simp: ListDuplicateCandidates_def Let_def dest: in_set_takeD)

lemma find_key: "distinct (map f xs) \<Longrightarrow> x \<in> set xs \<Longrightarrow> find (\<lambda>y. f y = f x) xs = Some x"
  by (induction xs) (auto simp: image_iff)

lemma live_merged_into: "live_id L i \<Longrightarrow> merged_into L i = Some None"
  by (auto simp: live_id_def live_listing_def merged_into_def split: option.splits)

text \<open>The listing a settled decision takes from the results.\<close>

definition hidden_by :: "DuplicateResolution \<Rightarrow> string set" where
  "hidden_by res = (if rs_State res = ''merged'' then {rs_MergedBusinessID res} else {})"

lemma merged_resolution:
  "apply_action env d c keep merge now L = Inr (res, L1) \<Longrightarrow> rs_State res = ''merged'' \<Longrightarrow> rs_MergedBusinessID res = merge"
  by (auto simp: apply_action_def Let_def and_then_Inr split: if_splits)

lemma merged_parties:
  "apply_action env d c keep merge now L = Inr (res, L1) \<Longrightarrow> rs_State res = ''merged'' \<Longrightarrow>
     rs_MergedBusinessID res = merge \<and> rs_KeptBusinessID res = keep"
  by (auto simp: apply_action_def Let_def and_then_Inr split: if_splits)

lemma all_survive_step:
  assumes "all_survive L" "map ls_id (li_businesses M) = map ls_id (li_businesses L)"
    "\<And>i k. survives (merged_into L) i k \<Longrightarrow> \<exists>k'. survives (merged_into M) i k'"
  shows "all_survive M"
proof -
  have "list_all (\<lambda>i. \<exists>k. survives (merged_into L) i k) (map ls_id (li_businesses L))"
    using assms(1) by (simp add: all_survive_def list.pred_map comp_def)
  then have "list_all (\<lambda>i. \<exists>k. survives (merged_into M) i k) (map ls_id (li_businesses M))"
    unfolding assms(2) using assms(3) by (auto simp: list_all_iff)
  then show ?thesis by (simp add: all_survive_def list.pred_map comp_def)
qed

text \<open>
  C25: deciding a pair that the review queue shows keeps a survivor for every listing: if following the merges
  ends at a listing that is still there, for every listing of the store, it does so afterwards, and
  the decision takes exactly the merged listing from the live ones, nothing for the other actions.
\<close>

theorem queued_decision_keeps_survivors:
  assumes "all_survive L" "distinct (map cd_id (li_candidates L))" "c \<in> set (ListDuplicateCandidates limit L)"
    "dd_CandidateID d = cd_id c" "ResolveDuplicateCandidate env now d L = Inr (res, L')"
  shows "all_survive L' \<and> {i. live_id L' i} = {i. live_id L i} - hidden_by res"
proof -
  obtain d' where d': "repo_ResolveDuplicateCandidate env now d' L = Inr (res, L')" "dd_CandidateID d' = cd_id c"
    using assms(5,4) by (metis service_accepts)
  have live: "c \<in> set (li_candidates L)" "live_id L (cd_left c)" "live_id L (cd_right c)"
    using queue_live [OF assms(3)] by auto
  have found: "find (\<lambda>x. cd_id x = dd_CandidateID d') (li_candidates L) = Some c"
    unfolding d'(2) using assms(2) live(1) by (rule find_key)
  obtain keep merge L1 where 1: "orientDuplicateDecision d' (cd_left c) (cd_right c) = Inr (keep, merge)"
    "apply_action env d' c keep merge now L = Inr (res, L1)" "L' = settle_candidate d' res now L1"
    using d'(1) found by (elim settled_decision) simp
  have km: "live_id L keep" "live_id L merge" using orient_cases [OF 1(1)] live by auto
  from 1(2) show ?thesis
  proof (cases rule: action_cases)
    case (merge L0 adopted)
    note frames = applyPreferredValues_same_rows [OF merge(4)]
    have 2: "map listing_frame (li_businesses L') = map listing_frame (li_businesses L0)"
      using frames by (simp add: 1(3) same_rows_def)
    note links = mergeBusinessInto_links [OF merge(3) km(2)]
    have m: "merged_into L' = (merged_into L)(merge \<mapsto> Some keep)" using merged_into_cong [OF 2] links(1) by simp
    have "map ls_id (li_businesses L') = map ls_id (li_businesses L)"
      using frame_ids [OF 2] merge(3) by (auto simp: mergeBusinessInto_def and_then_Inr Let_def update_listing_def
          map_update_keep split: if_splits)
    moreover have "\<exists>k'. survives (merged_into L') i k'" if "survives (merged_into L) i k" for i k
      unfolding m using survives_redirect [OF that live_merged_into [OF km(1)] links(3) live_merged_into [OF km(2)]] by blast
    ultimately have "all_survive L'" using assms(1) by (intro all_survive_step [of L L'])
    moreover have "live_id L' i \<longleftrightarrow> live_id L i \<and> i \<noteq> merge" for i
      using live_id_cong [OF 2] links(2) by simp
    ultimately show ?thesis using merged_resolution [OF 1(2) merge(2)] merge(2) by (auto simp: hidden_by_def)
  next
    case keep_both
    then have "li_businesses L' = li_businesses L" by (simp add: 1(3))
    then show ?thesis using assms(1) keep_both(2) merged_into_cong [of L' L] live_id_cong [of L' L]
      by (simp add: all_survive_def hidden_by_def)
  next
    case ignore
    then have "li_businesses L' = li_businesses L" by (simp add: 1(3))
    then show ?thesis using assms(1) ignore(2) merged_into_cong [of L' L] live_id_cong [of L' L]
      by (simp add: all_survive_def hidden_by_def)
  qed
qed

section \<open>What any decision does to the survivors\<close>

inductive_cases survives_cases: "survives m i k"

lemma survives_unique: "survives m i k \<Longrightarrow> survives m i k' \<Longrightarrow> k' = k"
  by (induction rule: survives.induct) (auto elim: survives_cases)

lemma survives_end: "survives m i k \<Longrightarrow> m k = Some None"
  by (induction rule: survives.induct)

lemma survives_self: "survives m s s \<longleftrightarrow> m s = Some None"
  by (auto intro: survives.survives_here dest: survives_end)

text \<open>Merging a listing that nothing hides into another one, whether or not that one is hidden.\<close>

lemma survives_elsewhere:
  "survives m i k \<Longrightarrow> m s = Some None \<Longrightarrow> k \<noteq> s \<Longrightarrow> survives (m(s \<mapsto> Some t)) i k"
proof (induction rule: survives.induct)
  case (survives_here i)
  then show ?case by (intro survives.survives_here) simp
next
  case (survives_merged i j k)
  then have "i \<noteq> s" by auto
  then show ?case using survives_merged by (intro survives.survives_merged [of _ i j]) simp_all
qed

lemma survives_moved:
  "survives m i k \<Longrightarrow> m k = Some None \<Longrightarrow> k \<noteq> t \<Longrightarrow> survives m t k' \<Longrightarrow> k' \<noteq> k \<Longrightarrow> survives (m(k \<mapsto> Some t)) i k'"
proof (induction rule: survives.induct)
  case (survives_here i)
  then have "survives (m(i \<mapsto> Some t)) t k'" by (intro survives_elsewhere)
  moreover have "(m(i \<mapsto> Some t)) i = Some (Some t)" by simp
  ultimately show ?case by (rule survives.survives_merged [rotated])
next
  case (survives_merged i j k)
  then have "i \<noteq> k" by auto
  then show ?case using survives_merged by (intro survives.survives_merged [of _ i j]) simp_all
qed

lemma survives_before:
  assumes "survives (m(s \<mapsto> Some t)) i k" "m s = Some None" "s \<noteq> t"
  shows "k \<noteq> s \<and> (survives m i k \<or> survives m i s \<and> survives m t k)"
  using assms(1)
proof (induction rule: survives.induct)
  case (survives_here i)
  then have "i \<noteq> s" "m i = Some None" by (auto split: if_splits)
  then show ?case by (auto intro: survives.survives_here)
next
  case (survives_merged i j k)
  show ?case
  proof (cases "i = s")
    case True
    then have "survives m t k"
      using survives_merged survives_unique [of m t k] by (auto simp: survives.survives_here [of m s, OF assms(2)])
    then show ?thesis using True survives_merged(3) assms(2) by (auto intro: survives.survives_here)
  next
    case False
    then have "m i = Some (Some j)" using survives_merged(1) by simp
    then show ?thesis using survives_merged(3) by (auto intro: survives.survives_merged)
  qed
qed

lemma survives_merge:
  assumes "m s = Some None" "s \<noteq> t"
  shows "survives (m(s \<mapsto> Some t)) i k \<longleftrightarrow>
    (if survives m i s then survives m t k \<and> k \<noteq> s else survives m i k)"
proof (cases "survives m i s")
  case True
  have "survives m t k \<and> k \<noteq> s" if "survives (m(s \<mapsto> Some t)) i k"
    using survives_before [OF that assms] survives_unique [OF True] by blast
  moreover have "survives (m(s \<mapsto> Some t)) i k" if "survives m t k" "k \<noteq> s"
    using survives_moved [OF True assms that] .
  ultimately show ?thesis using True by auto
next
  case False
  then have "k \<noteq> s" if "survives m i k" using that by auto
  then show ?thesis using False survives_before [of m s t i k] assms survives_elsewhere [of m i k s t] by auto
qed

lemma mergeBusinessInto_merges:
  assumes "mergeBusinessInto env cid s t d now L = Inr L'"
  shows "merged_into L' = (if merged_into L s = Some None then (merged_into L)(s \<mapsto> Some t) else merged_into L)" "s \<noteq> t"
proof -
  show st: "s \<noteq> t" using assms by (auto simp: mergeBusinessInto_def and_then_Inr split: if_splits)
  obtain r where r: "find_listing s L = Some r"
    using assms by (auto simp: mergeBusinessInto_def businessMergeSnapshot_def and_then_Inr split: option.splits)
  have tables: "find_listing i (L\<lparr>li_merges := ms, li_sources := ss, li_links := ls\<rparr>) = find_listing i L" for i ms ss ls
    by (simp add: find_listing_def)
  have "find_listing i L' = (if i = t then map_option (ls_updated_at_update (\<lambda>_. now)) (find_listing i L)
      else if i = s then Some (if ls_merged_into r = None
        then r\<lparr>ls_merged_into := Some t, ls_change_status := ''merged'', ls_updated_at := now\<rparr> else r)
      else find_listing i L)" for i
    using assms r st
    by (auto simp: mergeBusinessInto_def and_then_Inr Let_def find_update_listing tables split: if_splits)
  then show "merged_into L' = (if merged_into L s = Some None then (merged_into L)(s \<mapsto> Some t) else merged_into L)"
    using st r by (auto simp: merged_into_def option.map_comp comp_def)
qed

lemma decision_survives:
  assumes "ResolveDuplicateCandidate env now d L = Inr (res, L')"
  defines "s \<equiv> rs_MergedBusinessID res" and "t \<equiv> rs_KeptBusinessID res"
  shows "survives (merged_into L') i k \<longleftrightarrow>
    (if rs_State res = ''merged'' \<and> survives (merged_into L) s s \<and> survives (merged_into L) i s
     then survives (merged_into L) t k \<and> k \<noteq> s else survives (merged_into L) i k)"
proof -
  let ?m = "merged_into L"
  obtain d' where "repo_ResolveDuplicateCandidate env now d' L = Inr (res, L')"
    using assms(1) by (rule service_accepts)
  then obtain c keep merge L1 where 1: "apply_action env d' c keep merge now L = Inr (res, L1)"
    "L' = settle_candidate d' res now L1" by (rule settled_decision)
  from 1(1) show ?thesis
  proof (cases rule: action_cases)
    case (merge L0 adopted)
    have "map listing_frame (li_businesses L') = map listing_frame (li_businesses L0)"
      using applyPreferredValues_same_rows [OF merge(4)] by (simp add: 1(2) same_rows_def)
    note links = merged_into_cong [OF this] mergeBusinessInto_merges [OF merge(3)]
    have st: "s = merge" "t = keep" using merged_parties [OF 1(1) merge(2)] by (simp_all add: s_def t_def)
    have "merged_into L' = (if ?m s = Some None then ?m(s \<mapsto> Some t) else ?m)" "s \<noteq> t"
      using links unfolding st by simp_all
    then have "?m s = Some None \<Longrightarrow> survives (merged_into L') i k \<longleftrightarrow>
        (if survives ?m i s then survives ?m t k \<and> k \<noteq> s else survives ?m i k)"
      "?m s \<noteq> Some None \<Longrightarrow> merged_into L' = ?m"
      using survives_merge [of ?m s t i k] by simp_all
    then show ?thesis using merge(2) by (cases "?m s = Some None") (simp_all only: survives_self simp_thms if_True if_False)
  next
    case keep_both
    then show ?thesis using merged_into_cong [of L' L] by (simp add: 1(2))
  next
    case ignore
    then show ?thesis using merged_into_cong [of L' L] by (simp add: 1(2))
  qed
qed

text \<open>
  C30: what an accepted decision does to the survivors, whether or not the pair is still one of two
  live listings: a pair is checked for that when the queue is shown, not when it is decided. If the
  decision merges a listing that was not merged before, the listings whose merges ended there end afterwards
  where the merges of the kept one ended; every other decision leaves all survivors as they were. So a
  pair of which the kept listing already leads to the merged one closes a circle: every
  listing that ended there has no survivor afterwards, the kept and the merged one included.
\<close>

theorem decision_moves_survivors:
  assumes "ResolveDuplicateCandidate env now d L = Inr (res, L')"
  defines "s \<equiv> rs_MergedBusinessID res" and "t \<equiv> rs_KeptBusinessID res"
  shows "(\<forall>i k. survives (merged_into L') i k \<longleftrightarrow>
       (if rs_State res = ''merged'' \<and> survives (merged_into L) s s \<and> survives (merged_into L) i s
        then survives (merged_into L) t k \<and> k \<noteq> s else survives (merged_into L) i k)) \<and>
     (rs_State res = ''merged'' \<and> survives (merged_into L) t s \<longrightarrow>
       (\<forall>i k. survives (merged_into L) i s \<longrightarrow> \<not> survives (merged_into L') i k))"
proof -
  let ?m = "merged_into L"
  note step = decision_survives [OF assms(1), folded s_def t_def]
  have "\<not> survives (merged_into L') i k"
    if "rs_State res = ''merged''" "survives ?m t s" "survives ?m i s" for i k
  proof
    assume "survives (merged_into L') i k"
    moreover have "survives ?m s s" using survives_end [OF that(2)] by (simp only: survives_self)
    ultimately have "survives ?m t k" "k \<noteq> s" using that(1,3) by (simp_all only: step simp_thms if_True)
    then show False using survives_unique [OF that(2)] by blast
  qed
  with step show ?thesis by blast
qed

section \<open>Stale pairs\<close>

definition plain_listing :: "string \<Rightarrow> Listing" where
  "plain_listing i = \<lparr>ls_id = i, ls_name = ''Cafe'', ls_normalized_name = ''cafe'', ls_primary_category = [], ls_address = [],
     ls_normalized_address = [], ls_city = [], ls_postal_code = [], ls_phone = [], ls_normalized_phone = [], ls_website = [],
     ls_domain = [], ls_place_id = [], ls_cid = [], ls_data_id = [], ls_latitude = None, ls_longitude = None,
     ls_raw_json = None, ls_created_at = 1, ls_last_changed_at = 1, ls_updated_at = 1, ls_change_status = ''new'',
     ls_merged_into = None, ls_deleted = False, ls_identity_method = ''new'', ls_identity_confidence = Fin 1,
     ls_identity_evidence = []\<rparr>"

definition pending_pair :: "int \<Rightarrow> string \<Rightarrow> string \<Rightarrow> CandidateRow" where
  "pending_pair i l r = \<lparr>cd_id = i, cd_left = l, cd_right = r, cd_score = Fin 1, cd_signals = Evidence [],
     cd_state = ''pending'', cd_created_at = 1, cd_resolved_at = None, cd_note = []\<rparr>"

text \<open>Three listings, each pair of which waits for a decision.\<close>

definition three_listings :: Listings where
  "three_listings = \<lparr>li_businesses = map plain_listing [''biz_a'', ''biz_b'', ''biz_c''], li_keys = [], li_sources = [],
     li_links = [], li_provenance = [], li_changes = [],
     li_candidates = [pending_pair 1 ''biz_a'' ''biz_b'', pending_pair 2 ''biz_a'' ''biz_c'', pending_pair 3 ''biz_b'' ''biz_c''],
     li_rules = [], li_merges = [], li_audit = []\<rparr>"

definition merge_keeping :: "int \<Rightarrow> string \<Rightarrow> DuplicateDecision" where
  "merge_keeping candidate keep = \<lparr>dd_CandidateID = candidate, dd_Action = ''merge'', dd_KeepBusinessID = keep,
     dd_FieldStrategy = [], dd_Note = [], dd_Operator = []\<rparr>"

definition plain_review :: ReviewEnv where
  "plain_review = \<lparr>rv_IsLetter = (\<lambda>r. True), rv_IsDigit = (\<lambda>r. True), rv_json_Valid = (\<lambda>s. True)\<rparr>"

fun decide_all :: "ReviewEnv \<Rightarrow> int \<Rightarrow> DuplicateDecision list \<Rightarrow> Listings \<Rightarrow> review_error + Listings" where
  "decide_all env now [] L = Inr L"
| "decide_all env now (d # ds) L = and_then (ResolveDuplicateCandidate env now d L) (\<lambda>(res, M). decide_all env now ds M)"

lemma trimmed:
  "TrimSpace [] = []" "TrimSpace ''merge'' = ''merge''" "TrimSpace ''biz_a'' = ''biz_a''"
  "TrimSpace ''biz_b'' = ''biz_b''" "TrimSpace ''biz_c'' = ''biz_c''"
  by (rule TrimSpace_inner; simp add: printable_def)+

lemmas decision_defs = ResolveDuplicateCandidate_def repo_ResolveDuplicateCandidate_def orientDuplicateDecision_def
  apply_action_def mergeBusinessInto_def businessMergeSnapshot_def applyPreferredValues_def settle_candidate_def
  update_listing_def find_listing_def mergeJobBusinessLinks_def drop_folded_def fold_links_def
  truncateResolutionNote_def validBusinessID_def

lemma lowered: "ToLower [] = []" "ToLower ''merge'' = ''merge''"
  by code_simp+

lemmas decision_data = merge_keeping_def plain_review_def pending_pair_def plain_listing_def three_listings_def

lemmas decision_run = decision_defs decision_data trimmed lowered Let_def list_all_iff DuplicateFieldStrategies_def

text \<open>
  Deciding stale pairs can hide every listing: with three live listings and the three pairs between
  them, keeping b of (a, b), then a of (a, c), then c of (b, c), each decision is accepted. The last one
  closes a circle.
\<close>

definition two_merged :: Listings where
  "two_merged = (case decide_all plain_review 2 [merge_keeping 1 ''biz_b'', merge_keeping 2 ''biz_a''] three_listings of
     Inl e \<Rightarrow> three_listings | Inr L \<Rightarrow> L)"

lemma decision_moves_survivors_witness:
  "\<exists>res L'. decide_all plain_review 2 [merge_keeping 1 ''biz_b'', merge_keeping 2 ''biz_a''] three_listings = Inr two_merged \<and>
     ResolveDuplicateCandidate plain_review 2 (merge_keeping 3 ''biz_c'') two_merged = Inr (res, L') \<and>
     (\<forall>i \<in> {''biz_a'', ''biz_b'', ''biz_c''}. survives (merged_into two_merged) i ''biz_b'' \<and>
        (\<forall>k. \<not> survives (merged_into L') i k))"
proof -
  let ?m = "merged_into two_merged"
  obtain L where two: "decide_all plain_review 2 [merge_keeping 1 ''biz_b'', merge_keeping 2 ''biz_a''] three_listings = Inr L"
    "two_merged = L" "merged_into L ''biz_a'' = Some (Some ''biz_b'')" "merged_into L ''biz_b'' = Some None"
    "merged_into L ''biz_c'' = Some (Some ''biz_a'')"
    by (simp add: decision_run merged_into_def two_merged_def del: ToLower.simps(2-4))
  obtain res L' where run: "ResolveDuplicateCandidate plain_review 2 (merge_keeping 3 ''biz_c'') two_merged = Inr (res, L')"
    "rs_State res = ''merged''" "rs_MergedBusinessID res = ''biz_b''" "rs_KeptBusinessID res = ''biz_c''"
    by (simp add: two_merged_def decision_run del: ToLower.simps(2-4))
  have b: "survives ?m ''biz_b'' ''biz_b''" using two by (intro survives.survives_here) simp
  then have a: "survives ?m ''biz_a'' ''biz_b''" using two by (intro survives.survives_merged [of _ "''biz_a''" "''biz_b''"]) simp_all
  then have c: "survives ?m ''biz_c'' ''biz_b''" using two by (intro survives.survives_merged [of _ "''biz_c''" "''biz_a''"]) simp_all
  show ?thesis
    using decision_moves_survivors [OF run(1), THEN conjunct2] run two(1,2) a b c
    by (intro exI [of _ res] exI [of _ L']) (simp del: decide_all.simps)
qed

text \<open>A job that saw a twice and b once.\<close>

definition job_link :: "string \<Rightarrow> int \<Rightarrow> int \<Rightarrow> int \<Rightarrow> LinkRow" where
  "job_link i seen_first seen_last n = \<lparr>jl_job = ''job'', jl_business = i, jl_first_seen_at = seen_first, jl_last_seen_at = seen_last,
     jl_occurrence_count = n, jl_is_new = 1, jl_is_changed = 0\<rparr>"

definition seen_listings :: Listings where
  "seen_listings = three_listings\<lparr>li_links := [job_link ''biz_a'' 3 9 2, job_link ''biz_b'' 5 7 1]\<rparr>"

lemma decision_keeps_evidence_witness:
  "\<exists>res L'. ResolveDuplicateCandidate plain_review 2 (merge_keeping 1 ''biz_b'') seen_listings = Inr (res, L') \<and>
     occurrences_of ''job'' (li_links L') = 3 \<and> first_seen ''job'' (li_links L') = 3 \<and> last_seen ''job'' (li_links L') = 9"
proof -
  obtain res L' where run: "ResolveDuplicateCandidate plain_review 2 (merge_keeping 1 ''biz_b'') seen_listings = Inr (res, L')"
    by (simp add: decision_run seen_listings_def job_link_def del: ToLower.simps(2-4))
  have "distinct (map link_pk (li_links seen_listings))" by (simp add: seen_listings_def job_link_def link_pk_def)
  then have "evidence_kept seen_listings L'" using run by (rule decision_keeps_evidence)
  moreover have "{l. (l = job_link ''biz_a'' 3 9 2 \<or> l = job_link ''biz_b'' 5 7 1) \<and> jl_job l = ''job''} =
      {job_link ''biz_a'' 3 9 2, job_link ''biz_b'' 5 7 1}" by (auto simp: job_link_def)
  then have "occurrences_of ''job'' (li_links seen_listings) = 3" "first_seen ''job'' (li_links seen_listings) = 3"
    "last_seen ''job'' (li_links seen_listings) = 9"
    by (simp_all add: seen_listings_def occurrences_of_def first_seen_def last_seen_def) (simp_all add: job_link_def)
  ultimately show ?thesis using run by (auto simp: evidence_kept_def)
qed

lemma queued_decision_keeps_survivors_witness:
  "\<exists>res L'. ResolveDuplicateCandidate plain_review 2 (merge_keeping 1 ''biz_b'') three_listings = Inr (res, L') \<and>
     all_survive L' \<and> {i. live_id L' i} = {i. live_id three_listings i} - hidden_by res"
proof -
  obtain res L' where run: "ResolveDuplicateCandidate plain_review 2 (merge_keeping 1 ''biz_b'') three_listings = Inr (res, L')"
    by (simp add: decision_run del: ToLower.simps(2-4))
  have "all_survive three_listings"
    by (auto simp: all_survive_def three_listings_def plain_listing_def merged_into_def find_listing_def
        intro!: exI survives.survives_here)
  moreover have "pending_pair 1 ''biz_a'' ''biz_b'' \<in> set (ListDuplicateCandidates 50 three_listings)"
    by (simp add: ListDuplicateCandidates_def three_listings_def live_id_def find_listing_def plain_listing_def
        live_listing_def pending_pair_def SliceStable_def review_before_def f64_eq_def)
  moreover have "distinct (map cd_id (li_candidates three_listings))" by (simp add: three_listings_def pending_pair_def)
  moreover have "dd_CandidateID (merge_keeping 1 ''biz_b'') = cd_id (pending_pair 1 ''biz_a'' ''biz_b'')"
    by (simp add: merge_keeping_def pending_pair_def)
  ultimately have "all_survive L' \<and> {i. live_id L' i} = {i. live_id three_listings i} - hidden_by res"
    using run by (intro queued_decision_keeps_survivors)
  then show ?thesis using run by blast
qed

end
