(* ===== verification/SimilarityProperties.thy ===== *)
theory SimilarityProperties
  imports Similarity
begin

text \<open>
  The edit distance computed in two rows is the least number of single edits; the similarity of two
  names is a number from 0 to 1, symmetric, and 1 for the same set of words.
\<close>

section \<open>Edits\<close>

text \<open>One edit inserts, removes or replaces one element anywhere.\<close>

definition edit_step :: "'a list \<Rightarrow> 'a list \<Rightarrow> bool" where
  "edit_step xs ys \<longleftrightarrow>
     (\<exists>us vs a b. xs = us @ vs \<and> ys = us @ a # vs \<or> xs = us @ a # vs \<and> ys = us @ vs \<or>
       xs = us @ a # vs \<and> ys = us @ b # vs)"

fun edits :: "nat \<Rightarrow> 'a list \<Rightarrow> 'a list \<Rightarrow> bool" where
  "edits 0 xs ys = (xs = ys)"
| "edits (Suc n) xs ys = (\<exists>zs. edit_step xs zs \<and> edits n zs ys)"

text \<open>The distance by recursion from the front.\<close>

fun edist :: "'a list \<Rightarrow> 'a list \<Rightarrow> nat" where
  "edist [] ys = length ys"
| "edist (x # xs) [] = Suc (length xs)"
| "edist (x # xs) (y # ys) =
     min (edist xs (y # ys) + 1) (min (edist (x # xs) ys + 1) (edist xs ys + (if x = y then 0 else 1)))"

lemma edist_Nil2 [simp]: "edist xs [] = length xs"
  by (cases xs) auto

lemma edist_sym: "edist xs ys = edist ys xs"
  by (induction xs ys rule: edist.induct) auto

lemma edist_self [simp]: "edist xs xs = 0"
  by (induction xs) auto

lemma edist_Cons1: "edist (x # xs) ys \<le> edist xs ys + 1"
  by (cases ys) auto

lemma edist_uncons: "edist xs ys \<le> edist (x # xs) ys + 1"
proof (induction ys)
  case (Cons y ys)
  have "edist xs (y # ys) \<le> edist xs ys + 1" using edist_Cons1 [of y ys xs] by (simp add: edist_sym)
  then show ?case using Cons by auto
qed simp

lemma edist_replace: "edist (a # xs) ys \<le> edist (b # xs) ys + 1"
  by (induction ys) auto

lemma edist_under:
  assumes "\<And>ys. edist xs ys \<le> edist zs ys + 1" "length xs \<le> length zs + 1"
  shows "edist (a # xs) ys \<le> edist (a # zs) ys + 1"
proof (induction ys)
  case Nil
  then show ?case using assms(2) by simp
next
  case (Cons y ys)
  then show ?case using assms(1) [of "y # ys"] assms(1) [of ys] by auto
qed

lemma edist_context:
  assumes "\<And>ys. edist as ys \<le> edist bs ys + 1" "length as \<le> length bs + 1"
  shows "edist (us @ as) ys \<le> edist (us @ bs) ys + 1"
  using assms
proof (induction us arbitrary: ys)
  case (Cons u us)
  show ?case unfolding append_Cons by (rule edist_under) (use Cons in auto)
qed simp

lemma edist_step:
  assumes "edit_step xs zs" shows "edist xs ys \<le> edist zs ys + 1"
proof -
  obtain us vs a b where "xs = us @ vs \<and> zs = us @ a # vs \<or> xs = us @ a # vs \<and> zs = us @ vs \<or>
      xs = us @ a # vs \<and> zs = us @ b # vs"
    using assms by (auto simp: edit_step_def)
  moreover have "edist (us @ vs) ys \<le> edist (us @ a # vs) ys + 1"
    by (rule edist_context [OF edist_uncons]) simp
  moreover have "edist (us @ a # vs) ys \<le> edist (us @ vs) ys + 1"
    by (rule edist_context [OF edist_Cons1]) simp
  moreover have "edist (us @ a # vs) ys \<le> edist (us @ b # vs) ys + 1"
    by (rule edist_context [OF edist_replace]) simp
  ultimately show ?thesis by blast
qed

lemma edist_least: "edits n xs ys \<Longrightarrow> edist xs ys \<le> n"
proof (induction n arbitrary: xs)
  case (Suc n)
  then obtain zs where "edit_step xs zs" "edits n zs ys" by auto
  then show ?case using Suc.IH [of zs] edist_step [of xs zs ys] by simp
qed simp

lemma edit_step_Cons: "edit_step xs ys \<Longrightarrow> edit_step (a # xs) (a # ys)"
  unfolding edit_step_def by (metis append_Cons)

lemma edits_Cons: "edits n xs ys \<Longrightarrow> edits n (a # xs) (a # ys)"
  by (induction n arbitrary: xs) (auto intro: edit_step_Cons)

lemma edit_step_insert: "edit_step xs (a # xs)"
  unfolding edit_step_def by (metis append_Nil)

lemma edit_step_delete: "edit_step (a # xs) xs"
  unfolding edit_step_def by (metis append_Nil)

lemma edit_step_replace: "edit_step (a # xs) (b # xs)"
  unfolding edit_step_def by (metis append_Nil)

lemma edits_snoc: "edits n xs ys \<Longrightarrow> edit_step ys zs \<Longrightarrow> edits (Suc n) xs zs"
proof (induction n arbitrary: xs)
  case (Suc n)
  then obtain ws where "edit_step xs ws" "edits n ws ys" by auto
  then show ?case using Suc.IH [of ws] Suc.prems(2) by (metis edits.simps(2))
qed auto

lemma edits_from_Nil: "edits (length ys) [] ys"
  by (induction ys) (auto intro: edits_snoc edit_step_insert simp del: edits.simps(2))

lemma edits_to_Nil: "edits (length xs) xs []"
  by (induction xs) (auto intro: edit_step_delete)

lemma edist_attained: "edits (edist xs ys) xs ys"
proof (induction xs ys rule: edist.induct)
  case (1 ys) then show ?case by (simp add: edits_from_Nil)
next
  case (2 x xs) then show ?case using edits_to_Nil [of "x # xs"] by simp
next
  case (3 x xs y ys)
  have del: "edits (Suc (edist xs (y # ys))) (x # xs) (y # ys)"
    using 3(1) edit_step_delete [of x xs] by auto
  have ins: "edits (Suc (edist (x # xs) ys)) (x # xs) (y # ys)"
    by (rule edits_snoc [OF 3(2) edit_step_insert])
  have keep: "edits (edist xs ys + (if x = y then 0 else 1)) (x # xs) (y # ys)"
    using edits_Cons [OF 3(3), of y] edit_step_replace [of x xs y] by auto
  from del ins keep show ?case by (simp add: min_def)
qed

lemma edit_step_rev: "edit_step xs ys \<Longrightarrow> edit_step (rev xs) (rev ys)"
proof -
  assume "edit_step xs ys"
  then obtain us vs a b where "xs = us @ vs \<and> ys = us @ a # vs \<or> xs = us @ a # vs \<and> ys = us @ vs \<or>
      xs = us @ a # vs \<and> ys = us @ b # vs" by (auto simp: edit_step_def)
  then have "rev xs = rev vs @ rev us \<and> rev ys = rev vs @ a # rev us \<or>
      rev xs = rev vs @ a # rev us \<and> rev ys = rev vs @ rev us \<or>
      rev xs = rev vs @ a # rev us \<and> rev ys = rev vs @ b # rev us" by auto
  then show ?thesis unfolding edit_step_def by blast
qed

lemma edits_rev: "edits n xs ys \<Longrightarrow> edits n (rev xs) (rev ys)"
  by (induction n arbitrary: xs) (auto intro: edit_step_rev)

lemma edist_rev: "edist (rev xs) (rev ys) = edist xs ys"
proof (rule antisym)
  show "edist (rev xs) (rev ys) \<le> edist xs ys" by (rule edist_least [OF edits_rev [OF edist_attained]])
  show "edist xs ys \<le> edist (rev xs) (rev ys)"
    using edist_least [OF edits_rev [OF edist_attained [of "rev xs" "rev ys"]]] by simp
qed

section \<open>The two rows\<close>

text \<open>The cell of a prefix of the left and a prefix of the right argument.\<close>

definition cell :: "'a list \<Rightarrow> 'a list \<Rightarrow> nat" where
  "cell us vs = edist (rev us) (rev vs)"

definition cell_row :: "'a list \<Rightarrow> 'a list \<Rightarrow> 'a list \<Rightarrow> nat list" where
  "cell_row us vs right = map (\<lambda>j. cell us (vs @ take j right)) [0 ..< length right + 1]"

lemma cell_row_Nil: "cell_row us vs [] = [cell us vs]"
  by (simp add: cell_row_def)

lemma cell_row_Cons: "cell_row us vs (r # rs) = cell us vs # cell_row us (vs @ [r]) rs"
proof -
  have "[0 ..< length (r # rs) + 1] = 0 # map Suc [0 ..< length rs + 1]"
    by (simp add: upt_conv_Cons map_Suc_upt del: upt_Suc)
  then show ?thesis by (simp add: cell_row_def comp_def del: upt_Suc)
qed

lemma cell_snoc:
  "cell (us @ [c]) (vs @ [r]) = min (cell us (vs @ [r]) + 1) (min (cell (us @ [c]) vs + 1)
     (cell us vs + (if c = r then 0 else 1)))"
  by (simp add: cell_def)

lemma next_cells_row:
  "next_cells c (cell (us @ [c]) vs) (cell_row us vs right) right = tl (cell_row (us @ [c]) vs right)"
proof (induction right arbitrary: vs)
  case Nil
  then show ?case by (simp add: cell_row_Nil)
next
  case (Cons r rs)
  obtain q ps where row: "cell_row us (vs @ [r]) rs = q # ps" "q = cell us (vs @ [r])"
    by (cases rs) (auto simp: cell_row_Nil cell_row_Cons)
  have hd: "cell_row (us @ [c]) (vs @ [r]) rs = cell (us @ [c]) (vs @ [r]) # tl (cell_row (us @ [c]) (vs @ [r]) rs)"
    by (cases rs) (auto simp: cell_row_Nil cell_row_Cons)
  show ?case
    using Cons.IH [of "vs @ [r]"] hd by (simp add: cell_row_Cons row cell_snoc Let_def)
qed

lemma levenshtein_rows_row:
  "levenshtein_rows (length us + 1) (cell_row us [] right) left right = cell_row (us @ left) [] right"
proof (induction left arbitrary: us)
  case (Cons c left)
  have first: "cell (us @ [c]) [] = length us + 1" by (simp add: cell_def)
  have "(length us + 1) # next_cells c (length us + 1) (cell_row us [] right) right = cell_row (us @ [c]) [] right"
    using next_cells_row [of c us "[]" right] first by (cases right) (auto simp: cell_row_Nil cell_row_Cons)
  then show ?case using Cons.IH [of "us @ [c]"] by simp
qed simp

lemma levenshteinDistance_edist: "levenshteinDistance left right = edist left right"
proof -
  have first: "[0 ..< length right + 1] = cell_row [] [] right"
    by (rule nth_equalityI) (simp_all add: cell_row_def cell_def del: upt_Suc)
  have "cell_row left [] right ! length right = edist left right"
    by (simp add: cell_row_def cell_def edist_rev del: upt_Suc)
  moreover have "levenshtein_rows 1 (cell_row [] [] right) left right = cell_row left [] right"
    using levenshtein_rows_row [of "[]" right left] by simp
  ultimately show ?thesis unfolding levenshteinDistance_def first by simp
qed

text \<open>
  C31: the edit distance kept in two rows is the distance: it is the least number of insertions, removals
  and replacements of single runes that turn one text into the other.
\<close>

theorem levenshteinDistance_least_edits:
  "edits (levenshteinDistance left right) left right \<and>
   levenshteinDistance left right = (LEAST n. edits n left right)"
  unfolding levenshteinDistance_edist using edist_attained edist_least by (metis Least_equality)

section \<open>Similarity of names\<close>

lemma levenshteinDistance_sym: "levenshteinDistance xs ys = levenshteinDistance ys xs"
  by (simp add: levenshteinDistance_edist edist_sym)

lemma edist_le_max: "edist xs ys \<le> max (length xs) (length ys)"
  by (induction xs ys rule: edist.induct) (auto simp: min_def max_def split: if_splits)

lemma sharedTokenCount_card:
  "sorted ls \<Longrightarrow> distinct ls \<Longrightarrow> sorted rs \<Longrightarrow> distinct rs \<Longrightarrow>
   sharedTokenCount ls rs = card (set ls \<inter> set rs)"
proof (induction ls rs rule: sharedTokenCount.induct)
  case (1 l ls r rs)
  consider "l = r" | "l < r" | "r < l" by (meson linorder_less_linear)
  then show ?case
  proof cases
    case 1
    then have "set (l # ls) \<inter> set (r # rs) = insert l (set ls \<inter> set rs)" "l \<notin> set ls \<inter> set rs"
      using 1 "1.prems" by auto
    then show ?thesis using 1 "1.prems" "1.IH"(1) by simp
  next
    case 2
    then have "l \<notin> set (r # rs)" using "1.prems" by auto
    then have "set (l # ls) \<inter> set (r # rs) = set ls \<inter> set (r # rs)" by auto
    then show ?thesis using 2 "1.prems" "1.IH"(2) by simp
  next
    case 3
    then have "r \<notin> set (l # ls)" using "1.prems" by auto
    then have "set (l # ls) \<inter> set (r # rs) = set (l # ls) \<inter> set rs" by auto
    moreover have "l \<noteq> r" "\<not> l < r" using 3 by auto
    ultimately show ?thesis using "1.prems" "1.IH"(3) by simp
  qed
qed simp_all

lemma uniqueSortedTokens_props:
  "sorted (uniqueSortedTokens s)" "distinct (uniqueSortedTokens s)" "set (uniqueSortedTokens s) = set (Fields s)"
  by (simp_all add: uniqueSortedTokens_def)

lemma shared_tokens:
  "sharedTokenCount (uniqueSortedTokens a) (uniqueSortedTokens b) = card (set (Fields a) \<inter> set (Fields b))"
  using sharedTokenCount_card [OF uniqueSortedTokens_props(1,2) uniqueSortedTokens_props(1,2), of a b]
  by (simp add: uniqueSortedTokens_props(3))

lemma length_tokens: "length (uniqueSortedTokens s) = card (set (Fields s))"
  using distinct_card [OF uniqueSortedTokens_props(2) [of s]] by (simp add: uniqueSortedTokens_props(3))

lemma shared_sym:
  "sharedTokenCount (uniqueSortedTokens a) (uniqueSortedTokens b) =
   sharedTokenCount (uniqueSortedTokens b) (uniqueSortedTokens a)"
  by (simp add: shared_tokens Int_commute)

lemma editSimilarity_sym: "editSimilarity a b = editSimilarity b a"
  by (simp add: editSimilarity_def Let_def levenshteinDistance_sym [of "boundedRunes a"] max.commute)

lemma NameSimilarity_sym: "NameSimilarity env a b = NameSimilarity env b a"
  by (simp add: NameSimilarity_def Let_def shared_sym [of "NormalizeName env a"]
    editSimilarity_sym [of "Join_space (uniqueSortedTokens (NormalizeName env a))"] min.commute add.commute conj_commute
    disj_commute)

text \<open>A finite double between two bounds.\<close>

definition float_between :: "rat \<Rightarrow> rat \<Rightarrow> f64 \<Rightarrow> bool" where
  "float_between lo hi x \<longleftrightarrow> (\<exists>r. x = Fin r \<and> lo \<le> r \<and> r \<le> hi)"

lemma float_between_ends [simp]: "float_between 0 1 (Fin 0)" "float_between 0 1 (Fin 1)"
  by (simp_all add: float_between_def)

lemma float_between_round:
  assumes "of_int i \<le> x" "x \<le> of_int j" "\<bar>i\<bar> \<le> 2 ^ 53" "\<bar>j\<bar> \<le> 2 ^ 53"
  shows "float_between (of_int i) (of_int j) (f64_of_rat x)"
proof -
  have "\<bar>of_int i\<bar> \<le> (2 ^ 53 :: rat)" "\<bar>of_int j\<bar> \<le> (2 ^ 53 :: rat)"
    using assms(3,4) by (metis of_int_abs of_int_le_iff of_int_numeral of_int_power)+
  then have "\<bar>x\<bar> \<le> 2 ^ 53" using assms(1,2) by linarith
  from f64_of_rat_small(1) [OF this] have "f64_of_rat x = Fin (f64_round x)" .
  moreover have "of_int i \<le> f64_round x" "f64_round x \<le> of_int j"
    using f64_round_mono [OF assms(1)] f64_round_mono [OF assms(2)] assms(3,4) by (simp_all add: f64_round_int)
  ultimately show ?thesis by (simp add: float_between_def)
qed

text \<open>The number of tokens and of runes that a float counts exactly.\<close>

lemma ratio_float_between:
  assumes "a \<le> b" "0 < b" "b \<le> 2 ^ 53"
  shows "float_between 0 1 (f64_div (f64_of_int (int a)) (f64_of_int (int b)))"
proof -
  have b: "\<bar>int b\<bar> \<le> 2 ^ 53" "\<bar>int a\<bar> \<le> 2 ^ 53" using assms by auto
  have "float_between (of_int 0) (of_int 1) (f64_of_rat (of_int (int a) / of_int (int b)))"
    by (rule float_between_round) (use assms in \<open>auto simp: divide_le_eq_1\<close>)
  then show ?thesis using assms by (simp add: f64_of_int_exact [OF b(1)] f64_of_int_exact [OF b(2)])
qed

lemma f64_mul_float_between: "float_between 0 1 x \<Longrightarrow> float_between 0 1 y \<Longrightarrow> float_between 0 1 (f64_mul x y)"
  by (auto simp: float_between_def mult_le_one intro!: float_between_round [of 0 _ 1, simplified, unfolded float_between_def])

lemma f64_add_float_between:
  "float_between 0 (of_int i) x \<Longrightarrow> float_between 0 (of_int j) y \<Longrightarrow> \<bar>i + j\<bar> \<le> 2 ^ 53 \<Longrightarrow> float_between 0 (of_int (i + j)) (f64_add x y)"
  using float_between_round [of 0 _ "i + j"] by (auto simp: float_between_def)

lemma clamp_float_between: "float_between lo hi x \<Longrightarrow> float_between 0 1 (float_min (Fin 1) (float_max (Fin 0) x))"
  by (auto simp: float_between_def float_min_def float_max_def)

lemma combine_float_between:
  assumes "float_between 0 1 x" "float_between 0 1 y" "float_between 0 1 z"
  shows "float_between 0 1 (float_min (Fin 1) (float_max (Fin 0) (f64_add (f64_add x y) z)))"
proof -
  have "float_between 0 2 (f64_add x y)" using f64_add_float_between [of 1 x 1 y] assms by simp
  then have "float_between 0 3 (f64_add (f64_add x y) z)"
    using f64_add_float_between [of 2 "f64_add x y" 1 z] assms by simp
  then show ?thesis by (rule clamp_float_between)
qed

lemma editSimilarity_range: "float_between 0 1 (editSimilarity a b)"
proof -
  let ?l = "boundedRunes a" and ?r = "boundedRunes b"
  let ?m = "max (length ?l) (length ?r)"
  show ?thesis
  proof (cases "?m = 0")
    case False
    have "length ?l \<le> 128" "length ?r \<le> 128" by (simp_all add: boundedRunes_def nameSimilarityRuneLimit_def)
    then have "?m \<le> 128" by simp
    then have m: "?m \<le> 2 ^ 53" by (rule order_trans) simp
    have le: "levenshteinDistance ?l ?r \<le> ?m" by (simp only: levenshteinDistance_edist edist_le_max)
    have "float_between 0 1 (f64_div (f64_of_int (int (levenshteinDistance ?l ?r))) (f64_of_int (int ?m)))"
      by (rule ratio_float_between [OF le _ m]) (use False in blast)
    then obtain q where q: "f64_div (f64_of_int (int (levenshteinDistance ?l ?r))) (f64_of_int (int ?m)) = Fin q"
      "0 \<le> q" "q \<le> 1" by (auto simp: float_between_def)
    have "float_between (of_int 0) (of_int 1) (f64_of_rat (1 - q))" by (rule float_between_round) (use q in auto)
    then show ?thesis using False by (simp add: editSimilarity_def Let_def q f64_sub_def)
  qed (auto simp: editSimilarity_def Let_def float_between_def)
qed

lemma weights_range:
  "float_between 0 1 nameSimilarityTokenWeight" "float_between 0 1 nameSimilarityContainmentWeight"
  "float_between 0 1 nameSimilarityEditWeight"
  unfolding nameSimilarityTokenWeight_def nameSimilarityContainmentWeight_def nameSimilarityEditWeight_def
  using float_between_round [of 0 "1 / 2" 1] float_between_round [of 0 "3 / 10" 1] float_between_round [of 0 "1 / 5" 1] by simp_all

definition name_words :: "Unicode_env \<Rightarrow> string \<Rightarrow> string set" where
  "name_words env name = set (Fields (NormalizeName env name))"

lemma NameSimilarity_range:
  assumes "card (name_words env a) \<le> 2 ^ 52" "card (name_words env b) \<le> 2 ^ 52"
  shows "float_between 0 1 (NameSimilarity env a b)"
proof -
  define A where "A = name_words env a"
  define B where "B = name_words env b"
  let ?ta = "uniqueSortedTokens (NormalizeName env a)" and ?tb = "uniqueSortedTokens (NormalizeName env b)"
  have len: "length ?ta = card A" "length ?tb = card B" and sh: "sharedTokenCount ?ta ?tb = card (A \<inter> B)"
    by (simp_all add: length_tokens shared_tokens A_def B_def name_words_def)
  have fin: "finite A" "finite B" by (simp_all add: A_def B_def name_words_def)
  have le: "card (A \<inter> B) \<le> card A" "card (A \<inter> B) \<le> card B" using fin by (auto intro: card_mono)
  have A: "card A \<le> 2 ^ 52" "card B \<le> 2 ^ 52" using assms by (simp_all add: A_def B_def)
  show ?thesis
  proof (cases "?ta = [] \<or> ?tb = [] \<or> card (A \<inter> B) = card A \<and> card (A \<inter> B) = card B")
    case True
    then show ?thesis by (auto simp: NameSimilarity_def Let_def len sh float_between_def)
  next
    case False
    then have "0 < length ?ta" "0 < length ?tb" by blast+
    then have pos: "0 < card A" "0 < card B" by (simp_all only: len)
    have two: "f64_mul (Fin 2) (f64_of_int (int (card (A \<inter> B)))) = f64_of_int (int (2 * card (A \<inter> B)))"
    proof -
      have "\<bar>int (card (A \<inter> B))\<bar> \<le> 2 ^ 53" using le A by simp
      from f64_of_int_exact [OF this] show ?thesis by (simp add: f64_of_int_def)
    qed
    have dice: "float_between 0 1 (f64_div (f64_of_int (int (2 * card (A \<inter> B)))) (f64_of_int (int (card A + card B))))"
      by (rule ratio_float_between) (use le A pos in auto)
    have cont: "float_between 0 1 (f64_div (f64_of_int (int (card (A \<inter> B)))) (f64_of_int (int (min (card A) (card B)))))"
      by (rule ratio_float_between) (use le A pos in auto)
    note d = f64_mul_float_between [OF weights_range(1) dice] and c = f64_mul_float_between [OF weights_range(2) cont]
      and e = f64_mul_float_between [OF weights_range(3) editSimilarity_range
        [of "Join_space ?ta" "Join_space ?tb"]]
    show ?thesis using False combine_float_between [OF d c e]
      by (simp add: NameSimilarity_def Let_def len sh two del: of_nat_add)
  qed
qed

lemma NameSimilarity_same_words:
  assumes "name_words env a = name_words env b" "name_words env a \<noteq> {}"
  shows "NameSimilarity env a b = Fin 1"
proof -
  let ?ta = "uniqueSortedTokens (NormalizeName env a)" and ?tb = "uniqueSortedTokens (NormalizeName env b)"
  have "set ?ta \<noteq> {}" "set ?tb \<noteq> {}"
    using assms by (simp_all add: uniqueSortedTokens_props(3) name_words_def)
  then have "?ta \<noteq> []" "?tb \<noteq> []" by auto
  moreover have "sharedTokenCount ?ta ?tb = length ?ta" "length ?ta = length ?tb"
    using assms(1) by (simp_all add: shared_tokens length_tokens name_words_def)
  ultimately show ?thesis by (simp add: NameSimilarity_def Let_def)
qed

text \<open>
  The similarity of two names is a number from 0 to 1, never NaN, it does not depend on the order of
  the arguments, and names with the same words, in any order and however often, are fully alike. The
  number of words must be one that a float counts exactly.
\<close>

theorem NameSimilarity_is_similarity:
  assumes "card (name_words env a) \<le> 2 ^ 52" "card (name_words env b) \<le> 2 ^ 52"
  shows "float_between 0 1 (NameSimilarity env a b) \<and> NameSimilarity env b a = NameSimilarity env a b \<and>
    (name_words env a = name_words env b \<and> name_words env a \<noteq> {} \<longrightarrow> NameSimilarity env a b = Fin 1)"
  using NameSimilarity_range [OF assms] NameSimilarity_sym [of env b a] NameSimilarity_same_words [of env a b] by blast

text \<open>The folding of ASCII letters, enough to evaluate on.\<close>

definition ascii_env :: Unicode_env where
  "ascii_env = \<lparr>un_Fold_NFKC = map (\<lambda>c. if between 65 90 (of_char c) then char_of (of_char c + 32 :: nat) else c),
     un_IsLetter = (\<lambda>r. between 97 122 r), un_IsNumber = (\<lambda>r. between 48 57 r), un_IsMark = (\<lambda>r. False)\<rparr>"

lemma pizzeria_words:
  "name_words ascii_env ''Pizzeria'' = {''pizzeria''}" "name_words ascii_env ''PIZZERIA'' = {''pizzeria''}"
proof -
  have trim: "TrimSpace w = w" if "w \<in> {''Pizzeria'', ''PIZZERIA'', ''pizzeria''}" for w
    using that by (intro TrimSpace_inner) (auto simp: printable_def)
  have fold: "un_Fold_NFKC ascii_env ''Pizzeria'' = ''pizzeria''" "un_Fold_NFKC ascii_env ''PIZZERIA'' = ''pizzeria''"
    by code_simp+
  have words: "word_runes ascii_env True True (runes ''pizzeria'') = ''pizzeria''" by code_simp
  have norm: "normalizeWords ascii_env (replace_ampersand ''Pizzeria'') True = ''pizzeria''"
    "normalizeWords ascii_env (replace_ampersand ''PIZZERIA'') True = ''pizzeria''"
    by (simp_all add: normalizeWords_def replace_ampersand_def trim fold words del: runes.simps)
  have "Fields ''pizzeria'' = [''pizzeria'']"
    by (rule Fields_word, rule word_ok_printable) (auto simp: printable_def)
  then show "name_words ascii_env ''Pizzeria'' = {''pizzeria''}" "name_words ascii_env ''PIZZERIA'' = {''pizzeria''}"
    by (simp_all add: name_words_def NormalizeName_def norm strip_suffixes.simps)
qed

lemma NameSimilarity_is_similarity_witness:
  "float_between 0 1 (NameSimilarity ascii_env ''Pizzeria'' ''PIZZERIA'') \<and>
   NameSimilarity ascii_env ''Pizzeria'' ''PIZZERIA'' = Fin 1"
  using NameSimilarity_is_similarity [of ascii_env "''Pizzeria''" "''PIZZERIA''"] by (simp add: pizzeria_words)

end
