(* ===== verification/ExactIdentityProperties.thy ===== *)
theory ExactIdentityProperties
  imports ExactIdentity
begin

text \<open>
  What the exact grouping of imported records promises. The representative of an index is read off
  the parents alone; \<open>find\<close> returns it and its compression keeps every representative, \<open>union\<close> merges
  two classes under the smaller one. Over all keys of all records the classes are then the connected
  components of ``shares an identity key'', and the groups those with at least two records.
  The bytes that are hashed determine the parts they were made of.
\<close>

section \<open>Representatives\<close>

definition valid_parents :: "nat list \<Rightarrow> bool" where
  "valid_parents ps \<longleftrightarrow> (\<forall>i < length ps. ps ! i \<le> i)"

fun rep :: "nat list \<Rightarrow> nat \<Rightarrow> nat" where
  "rep ps v = (if ps ! v < v then rep ps (ps ! v) else v)"

declare rep.simps [simp del]

lemma rep_le: "rep ps v \<le> v"
  by (induction ps v rule: rep.induct) (subst rep.simps, auto)

lemma rep_lt: "v < n \<Longrightarrow> rep ps v < n"
  using rep_le [of ps v] by linarith

lemma rep_root:
  assumes "valid_parents ps" "v < length ps"
  shows "ps ! rep ps v = rep ps v"
  using assms
proof (induction ps v rule: rep.induct)
  case (1 ps v)
  then show ?case
    using 1(1) rep.simps [of ps v] by (auto simp: valid_parents_def not_less le_antisym)
qed

lemma rep_of_root: "\<not> ps ! v < v \<Longrightarrow> rep ps v = v"
  by (subst rep.simps) simp

lemma rep_self: "ps ! v = v \<Longrightarrow> rep ps v = v"
  by (simp add: rep_of_root)

lemma rep_idem: "valid_parents ps \<Longrightarrow> v < length ps \<Longrightarrow> rep ps (rep ps v) = rep ps v"
  by (rule rep_self) (rule rep_root)

lemma rep_parent: "valid_parents ps \<Longrightarrow> v < length ps \<Longrightarrow> rep ps (ps ! v) = rep ps v"
  by (cases "ps ! v < v") (auto simp: valid_parents_def rep.simps [of ps v] not_less le_antisym)

lemma rep_cases_parent: "rep ps v \<noteq> v \<Longrightarrow> ps ! v < v \<and> rep ps v = rep ps (ps ! v)"
  by (cases "ps ! v < v") (auto simp: rep.simps [of ps v])

lemma valid_update: "valid_parents ps \<Longrightarrow> r \<le> v \<Longrightarrow> valid_parents (ps[v := r])"
  by (cases "v < length ps") (auto simp: valid_parents_def nth_list_update)

section \<open>Compression and union\<close>

lemma rep_compress:
  assumes "valid_parents ps" "v < length ps" "w < length ps"
  shows "rep (ps[v := rep ps v]) w = rep ps w"
  using assms(3)
proof (induction w rule: less_induct)
  case (less w)
  let ?ps = "ps[v := rep ps v]" and ?r = "rep ps v"
  show ?case
  proof (cases "w = v")
    case True
    have root: "?ps ! ?r = ?r"
      using assms rep_root [OF assms(1,2)] by (cases "?r = v") auto
    show ?thesis
    proof (cases "?r = v")
      case True
      then show ?thesis using \<open>w = v\<close> root by (auto intro: rep_self)
    next
      case False
      then have "?r < v" using rep_le [of ps v] by linarith
      then have "rep ?ps v = rep ?ps ?r" using assms(2) rep.simps [of ?ps v] by simp
      then show ?thesis using \<open>w = v\<close> root by (simp add: rep_self)
    qed
  next
    case False
    then show ?thesis
      using less rep.simps [of ?ps w] rep.simps [of ps w] by (auto simp: nth_list_update)
  qed
qed

lemma uf_find_spec:
  assumes "valid_parents ps" "v < length ps"
  shows "\<exists>ps'. uf_find ps v = Some (rep ps v, ps') \<and> length ps' = length ps \<and> valid_parents ps' \<and>
           (\<forall>w < length ps. rep ps' w = rep ps w)"
  using assms
proof (induction v rule: less_induct)
  case (less v)
  show ?case
  proof (cases "ps ! v = v")
    case True
    then show ?thesis using less.prems by (auto simp: uf_find.simps rep_self)
  next
    case False
    then have "ps ! v < v" using less.prems by (auto simp: valid_parents_def le_less)
    then obtain ps1 where ps1: "uf_find ps (ps ! v) = Some (rep ps (ps ! v), ps1)" "length ps1 = length ps"
      "valid_parents ps1" "\<forall>w < length ps. rep ps1 w = rep ps w"
      using less.IH [of "ps ! v"] less.prems by auto
    have r: "rep ps (ps ! v) = rep ps v" "rep ps1 v = rep ps v"
      using ps1(4) less.prems rep_parent by auto
    have "uf_find ps v = Some (rep ps v, ps1[v := rep ps v])"
      using False ps1(1) r by (simp add: uf_find.simps [of ps v])
    moreover have "valid_parents (ps1[v := rep ps v])"
      using ps1(3) by (rule valid_update) (rule rep_le)
    moreover have "\<forall>w < length ps. rep (ps1[v := rep ps v]) w = rep ps w"
      using rep_compress [of ps1 v] ps1 less.prems r by auto
    ultimately show ?thesis using ps1(2) by auto
  qed
qed

lemma rep_link:
  assumes "valid_parents ps" "l < r" "r < length ps" "ps ! l = l" "ps ! r = r" "w < length ps"
  shows "rep (ps[r := l]) w = (if rep ps w = r then l else rep ps w)"
  using assms(6)
proof (induction w rule: less_induct)
  case (less w)
  let ?ps = "ps[r := l]"
  have l: "rep ?ps l = l" using assms by (intro rep_self) auto
  show ?case
  proof (cases "w = r")
    case True
    then show ?thesis
      using assms l rep.simps [of ?ps r] by (simp add: rep_self)
  next
    case False
    then show ?thesis
      using less rep.simps [of ?ps w] rep.simps [of ps w] by (auto simp: nth_list_update)
  qed
qed

definition merged :: "nat \<Rightarrow> nat \<Rightarrow> nat \<Rightarrow> nat" where
  "merged a b x = (if x = a \<or> x = b then min a b else x)"

lemma uf_union_spec:
  assumes v: "valid_parents ps" and l: "l < length ps" and r: "r < length ps"
  shows "\<exists>ps'. uf_union ps l r = Some ps' \<and> length ps' = length ps \<and> valid_parents ps' \<and>
           (\<forall>w < length ps. rep ps' w = merged (rep ps l) (rep ps r) (rep ps w))"
proof -
  obtain ps1 where 1: "uf_find ps l = Some (rep ps l, ps1)" "length ps1 = length ps" "valid_parents ps1"
    "\<forall>w < length ps. rep ps1 w = rep ps w" using uf_find_spec [OF v l] by auto
  obtain ps2 where 2: "uf_find ps1 r = Some (rep ps1 r, ps2)" "length ps2 = length ps" "valid_parents ps2"
    "\<forall>w < length ps. rep ps2 w = rep ps w" using uf_find_spec [of ps1 r] 1 r by auto
  let ?a = "rep ps l" and ?b = "rep ps r"
  have roots: "ps2 ! ?a = ?a" "ps2 ! ?b = ?b" "?a < length ps2" "?b < length ps2"
    using rep_root [OF 2(3), of l] rep_root [OF 2(3), of r] 2 l r by (auto simp: rep_lt)
  have u: "uf_union ps l r = Some (if ?a = ?b then ps2 else if ?a < ?b then ps2[?b := ?a] else ps2[?a := ?b])"
    using 1 2 r by (simp add: uf_union_def)
  consider "?a = ?b" | "?a < ?b" | "?b < ?a" by linarith
  then show ?thesis
  proof cases
    case 1
    then show ?thesis using u 2 by (auto simp: merged_def)
  next
    case 2
    have "\<forall>w < length ps. rep (ps2[?b := ?a]) w = merged ?a ?b (rep ps w)"
      using rep_link [of ps2 ?a ?b] \<open>valid_parents ps2\<close> roots 2 \<open>length ps2 = length ps\<close>
        \<open>\<forall>w < length ps. rep ps2 w = rep ps w\<close> by (auto simp: merged_def)
    then show ?thesis using u 2 \<open>length ps2 = length ps\<close> valid_update [OF \<open>valid_parents ps2\<close>] by auto
  next
    case 3
    have "\<forall>w < length ps. rep (ps2[?a := ?b]) w = merged ?a ?b (rep ps w)"
      using rep_link [of ps2 ?b ?a] \<open>valid_parents ps2\<close> roots 3 \<open>length ps2 = length ps\<close>
        \<open>\<forall>w < length ps. rep ps2 w = rep ps w\<close> by (auto simp: merged_def)
    then show ?thesis using u 3 \<open>length ps2 = length ps\<close> valid_update [OF \<open>valid_parents ps2\<close>] by auto
  qed
qed

section \<open>Grouping\<close>

text \<open>The occurrences of qualified keys, and the records they tie together.\<close>

definition share :: "(nat \<times> string) set \<Rightarrow> (nat \<times> nat) set" where
  "share seen = {(i, j). \<exists>q. (i, q) \<in> seen \<and> (j, q) \<in> seen}"

lemma share_mono: "A \<subseteq> B \<Longrightarrow> share A \<subseteq> share B"
  by (auto simp: share_def)

lemma share_rtrancl_mono: "A \<subseteq> B \<Longrightarrow> (share A)\<^sup>* \<subseteq> (share B)\<^sup>*"
  by (intro rtrancl_mono share_mono)

lemma sym_share: "sym ((share A)\<^sup>*)"
  by (rule sym_rtrancl) (auto simp: sym_def share_def)

definition grouped :: "nat \<Rightarrow> (nat \<times> string) set \<Rightarrow> grouping \<Rightarrow> bool" where
  "grouped n seen g \<longleftrightarrow>
     (let (ps, owners) = g in length ps = n \<and> valid_parents ps \<and>
        (\<forall>q j. owners q = Some j \<longrightarrow> (j, q) \<in> seen) \<and>
        (\<forall>i q. (i, q) \<in> seen \<longrightarrow> i < n \<and> (\<exists>j. owners q = Some j \<and> rep ps i = rep ps j)) \<and>
        (\<forall>i j. i < n \<longrightarrow> j < n \<longrightarrow> rep ps i = rep ps j \<longrightarrow> (i, j) \<in> (share seen)\<^sup>*))"

lemma groupedI:
  assumes "length ps = n" "valid_parents ps" "\<And>q j. owners q = Some j \<Longrightarrow> (j, q) \<in> seen"
    "\<And>x q. (x, q) \<in> seen \<Longrightarrow> x < n \<and> (\<exists>j. owners q = Some j \<and> rep ps x = rep ps j)"
    "\<And>x y. x < n \<Longrightarrow> y < n \<Longrightarrow> rep ps x = rep ps y \<Longrightarrow> (x, y) \<in> (share seen)\<^sup>*"
  shows "grouped n seen (ps, owners)"
  using assms unfolding grouped_def Let_def prod.case by blast

lemma owner_rep:
  assumes "grouped n seen (ps, owners)"
  shows "\<exists>j. \<forall>x. (x, q) \<in> seen \<longrightarrow> rep ps x = rep ps j"
proof (cases "owners q")
  case None
  then show ?thesis using assms unfolding grouped_def Let_def prod.case by fastforce
next
  case (Some j)
  then show ?thesis using assms unfolding grouped_def Let_def prod.case by (intro exI [of _ j]) force
qed

lemma merged_eq:
  "merged a b x = merged a b y \<Longrightarrow> x = y \<or> x \<in> {a, b} \<and> y \<in> {a, b}"
  by (auto simp: merged_def min_def split: if_splits)

lemma merged_join [simp]: "merged a b a = min a b" "merged a b b = min a b"
  by (simp_all add: merged_def)

lemma add_key_grouped:
  assumes g: "grouped n seen g" and i: "i < n"
  shows "\<exists>g'. add_key i k g = Some g' \<and> grouped n (insert (i, IdentityKey_String k) seen) g'"
proof -
  obtain ps owners where gp: "g = (ps, owners)" by (cases g)
  let ?q = "IdentityKey_String k" and ?seen = "insert (i, IdentityKey_String k) seen"
  have mono: "(share seen)\<^sup>* \<subseteq> (share ?seen)\<^sup>*" by (rule share_rtrancl_mono) auto
  have inv: "length ps = n" "valid_parents ps" "\<And>q j. owners q = Some j \<Longrightarrow> (j, q) \<in> seen"
    "\<And>x q. (x, q) \<in> seen \<Longrightarrow> x < n \<and> (\<exists>j. owners q = Some j \<and> rep ps x = rep ps j)"
    "\<And>x y. x < n \<Longrightarrow> y < n \<Longrightarrow> rep ps x = rep ps y \<Longrightarrow> (x, y) \<in> (share seen)\<^sup>*"
    using g by (auto simp: grouped_def gp)
  show ?thesis
  proof (cases "owners ?q")
    case None
    have "?q \<notin> snd ` seen" using None inv(4) by fastforce
    then have fresh: "(x, ?q) \<notin> seen" for x by force
    have "x < n \<and> (\<exists>o'. (owners(?q \<mapsto> i)) q = Some o' \<and> rep ps x = rep ps o')" if "(x, q) \<in> ?seen" for x q
      using that inv(4) [of x q] fresh [of x] i by (cases "q = ?q") auto
    moreover have "(j, q) \<in> ?seen" if "(owners(?q \<mapsto> i)) q = Some j" for q j
      using that inv(3) [of q j] by (auto split: if_splits)
    ultimately have "grouped n ?seen (ps, owners(?q \<mapsto> i))"
      by (intro groupedI inv(1,2) subsetD [OF mono inv(5)])
    then show ?thesis using None by (simp add: add_key_def gp)
  next
    case (Some j)
    have j: "(j, ?q) \<in> seen" "j < n" using inv(3) [OF Some] inv(4) by auto
    obtain ps' where u: "uf_union ps i j = Some ps'" "length ps' = n" "valid_parents ps'"
      "\<And>w. w < n \<Longrightarrow> rep ps' w = merged (rep ps i) (rep ps j) (rep ps w)"
      using uf_union_spec [of ps i j] inv i j by auto
    have ij: "(i, j) \<in> (share ?seen)\<^sup>*" "(j, i) \<in> (share ?seen)\<^sup>*"
      using j by (auto intro!: r_into_rtrancl simp: share_def)
    have "(x, y) \<in> (share ?seen)\<^sup>*" if "x < n" "y < n" "rep ps' x = rep ps' y" for x y
    proof -
      have c: "rep ps x = rep ps y \<or> rep ps x \<in> {rep ps i, rep ps j} \<and> rep ps y \<in> {rep ps i, rep ps j}"
        using that u(4) merged_eq by simp
      have near: "(z, i) \<in> (share ?seen)\<^sup>*" if "z < n" "rep ps z \<in> {rep ps i, rep ps j}" for z
        using that inv(5) [of z i] inv(5) [of z j] i j mono ij by (auto intro: rtrancl_trans)
      show ?thesis
        using c inv(5) [of x y] that(1,2) mono near [of x] symD [OF sym_share near [of y]]
        by (auto intro: rtrancl_trans)
    qed
    moreover have "x < n \<and> (\<exists>o'. owners q = Some o' \<and> rep ps' x = rep ps' o')" if "(x, q) \<in> ?seen" for x q
    proof (cases "(x, q) \<in> seen")
      case True
      then obtain o' where "x < n" "owners q = Some o'" "rep ps x = rep ps o'" using inv(4) by blast
      moreover have "o' < n" using inv(3,4) calculation(2) by blast
      ultimately show ?thesis by (simp add: u(4))
    next
      case False
      then show ?thesis using that i j Some by (simp add: u(4))
    qed
    ultimately have "grouped n ?seen (ps', owners)"
      by (intro groupedI u(2,3) insertI2 [OF inv(3)])
    then show ?thesis using Some u(1) by (simp add: add_key_def gp)
  qed
qed

lemma add_keys_grouped:
  "grouped n seen g \<Longrightarrow> i < n \<Longrightarrow>
     \<exists>g'. add_keys i ks g = Some g' \<and> grouped n (seen \<union> Pair i ` IdentityKey_String ` set ks) g'"
proof (induction ks arbitrary: seen g)
  case (Cons k ks)
  then obtain g1 where "add_key i k g = Some g1" "grouped n (insert (i, IdentityKey_String k) seen) g1"
    using add_key_grouped by blast
  then show ?case using Cons.IH Cons.prems by fastforce
qed simp

definition occurrences :: "Business list \<Rightarrow> (nat \<times> string) set" where
  "occurrences records = {(i, q). i < length records \<and> q \<in> IdentityKey_String ` set (bu_IdentityKeys (records ! i))}"

lemma add_records_grouped:
  assumes "m \<le> length records" "grouped (length records) {x \<in> occurrences records. fst x < m} g"
  shows "\<exists>g'. add_records m (drop m records) g = Some g' \<and> grouped (length records) (occurrences records) g'"
  using assms
proof (induction "length records - m" arbitrary: m g)
  case 0
  then have "{x \<in> occurrences records. fst x < m} = occurrences records" by (auto simp: occurrences_def)
  then show ?case using 0 by simp
next
  case (Suc d)
  then have m: "m < length records" by simp
  let ?b = "records ! m"
  have step: "{x \<in> occurrences records. fst x < Suc m} =
      {x \<in> occurrences records. fst x < m} \<union> Pair m ` IdentityKey_String ` set (bu_IdentityKeys ?b)"
    using m by (auto simp: occurrences_def less_Suc_eq)
  obtain g1 where g1: "add_keys m (bu_IdentityKeys ?b) g = Some g1"
    "grouped (length records) {x \<in> occurrences records. fst x < Suc m} g1"
    using add_keys_grouped [OF Suc.prems(2) m] unfolding step by blast
  have "drop m records = ?b # drop (Suc m) records" using m by (simp add: Cons_nth_drop_Suc)
  then show ?case using Suc.hyps(1) [of "Suc m" g1] Suc.hyps(2) g1 m by simp
qed

lemma grouped_start: "grouped n {} ([0 ..< n], Map.empty)"
proof -
  have "rep [0 ..< n] i = i" if "i < n" for i using that by (simp add: rep_self)
  then show ?thesis by (auto simp: grouped_def valid_parents_def)
qed

section \<open>The groups\<close>

lemma roots_of_rep:
  "valid_parents ps \<Longrightarrow> \<forall>i \<in> set is. i < length ps \<Longrightarrow> roots_of is ps = Some (map (rep ps) is)"
proof (induction "is" arbitrary: ps)
  case (Cons i "is")
  obtain ps1 where ps1: "uf_find ps i = Some (rep ps i, ps1)" "length ps1 = length ps" "valid_parents ps1"
    "\<forall>w < length ps. rep ps1 w = rep ps w" using uf_find_spec [of ps i] Cons.prems by auto
  then show ?case using Cons.IH [of ps1] Cons.prems by simp
qed simp

text \<open>The records that share a key, and the components of that relation.\<close>

definition same_listing :: "Business list \<Rightarrow> (nat \<times> nat) set" where
  "same_listing records =
     {(i, j). i < length records \<and> j < length records \<and> IsExactDuplicate (records ! i) (records ! j)}"

definition components :: "Business list \<Rightarrow> nat set set" where
  "components records = (\<lambda>i. (same_listing records)\<^sup>* `` {i}) ` {..< length records}"

lemma SliceStable_Nil_iff: "SliceStable lt xs = [] \<longleftrightarrow> xs = []"
  by (metis SliceStable_laws(1) set_empty)

lemma IsExactDuplicate_iff:
  "IsExactDuplicate a b \<longleftrightarrow>
     IdentityKey_String ` set (bu_IdentityKeys a) \<inter> IdentityKey_String ` set (bu_IdentityKeys b) \<noteq> {}"
  by (auto simp: IsExactDuplicate_def ExactMatchKeys_def sortIdentityKeys_def SliceStable_Nil_iff filter_empty_conv)

lemma share_occurrences: "share (occurrences records) = same_listing records"
  by (auto simp: share_def occurrences_def same_listing_def IsExactDuplicate_iff image_iff)

lemma GroupExactDuplicates_run:
  assumes "2 \<le> length records"
  shows "\<exists>ps owners rs. add_records 0 records ([0 ..< length records], Map.empty) = Some (ps, owners) \<and>
     grouped (length records) (occurrences records) (ps, owners) \<and>
     roots_of [0 ..< length records] ps = Some (map (rep ps) [0 ..< length records])"
proof -
  have "{x \<in> occurrences records. fst x < 0} = {}" by auto
  then obtain ps owners where g: "add_records 0 records ([0 ..< length records], Map.empty) = Some (ps, owners)"
    "grouped (length records) (occurrences records) (ps, owners)"
    using add_records_grouped [of 0 records] grouped_start by (metis drop0 le0 prod.exhaust)
  then have "roots_of [0 ..< length records] ps = Some (map (rep ps) [0 ..< length records])"
    by (intro roots_of_rep) (auto simp: grouped_def)
  then show ?thesis using g by blast
qed

lemma same_listing_bounded: "(i, j) \<in> (same_listing records)\<^sup>* \<Longrightarrow> i < length records \<Longrightarrow> j < length records"
  by (induction rule: rtrancl_induct) (auto simp: same_listing_def)

lemma rep_component:
  assumes "grouped (length records) (occurrences records) (ps, owners)" "i < length records" "j < length records"
  shows "rep ps i = rep ps j \<longleftrightarrow> (i, j) \<in> (same_listing records)\<^sup>*"
proof
  assume "rep ps i = rep ps j"
  then show "(i, j) \<in> (same_listing records)\<^sup>*"
    using assms by (auto simp: grouped_def share_occurrences)
next
  assume "(i, j) \<in> (same_listing records)\<^sup>*"
  then show "rep ps i = rep ps j"
  proof (induction rule: rtrancl_induct)
    case (step j k)
    then obtain q where "(j, q) \<in> occurrences records" "(k, q) \<in> occurrences records"
      unfolding share_occurrences [symmetric] by (auto simp: share_def)
    moreover obtain o' where "\<And>x. (x, q) \<in> occurrences records \<Longrightarrow> rep ps x = rep ps o'"
      using owner_rep [OF assms(1)] by blast
    ultimately have "rep ps j = rep ps k" by simp
    then show ?case using step.IH by simp
  qed simp
qed

text \<open>The members of a root, and what the groups are made of.\<close>

definition members_of :: "nat list \<Rightarrow> nat \<Rightarrow> nat list" where
  "members_of rs r = filter (\<lambda>i. rs ! i = r) [0 ..< length rs]"

lemma members_of_set:
  "set (members_of (map (rep ps) [0 ..< n]) r) = {i. i < n \<and> rep ps i = r}"
  by (auto simp: members_of_def)

lemma members_of_sorted [simp]: "sorted_wrt (<) (members_of rs r)"
  unfolding members_of_def by (intro sorted_wrt_filter) simp

lemma hd_members_of:
  assumes "valid_parents ps" "length ps = n" "i < n"
  shows "hd (members_of (map (rep ps) [0 ..< n]) (rep ps i)) = rep ps i"
proof -
  let ?m = "members_of (map (rep ps) [0 ..< n]) (rep ps i)"
  have in_m: "rep ps i \<in> set ?m" using assms rep_idem by (auto simp: members_of_set rep_lt)
  then obtain x xs where m: "?m = x # xs" by (cases ?m) auto
  then have "x \<le> rep ps i" using in_m members_of_sorted [of "map (rep ps) [0 ..< n]" "rep ps i"] by auto
  moreover have "rep ps x = rep ps i" using m members_of_set [of ps n "rep ps i"] by auto
  ultimately show ?thesis using m rep_le [of ps x] by simp
qed

lemma component_bounded: "C \<in> components records \<Longrightarrow> C \<subseteq> {..< length records}"
  by (auto simp: components_def same_listing_bounded)

lemma sorted_strict_card: "sorted_wrt (<) (xs :: nat list) \<Longrightarrow> card (set xs) = length xs"
  by (simp add: distinct_card strict_sorted_iff)

lemma component_members:
  assumes "grouped (length records) (occurrences records) (ps, owners)" "i < length records"
  shows "set (members_of (map (rep ps) [0 ..< length records]) (rep ps i)) = (same_listing records)\<^sup>* `` {i}"
  using rep_component [OF assms] assms(2) same_listing_bounded [of i _ records]
  by (auto simp: members_of_set eq_commute [of _ "rep ps i"])

text \<open>
  C27: grouping imported records by exact identity keys always returns, and returns exactly the classes of
  two or more records that a chain of shared keys connects: for every component of ``shares an identity
  key'' with at least two records one group with just these records, in ascending order, and the groups
  in the order of their first record.
\<close>

theorem GroupExactDuplicates_components:
  "\<exists>groups. GroupExactDuplicates records = Some groups \<and>
     (\<lambda>g. set (dg_Records g)) ` set groups = {C \<in> components records. 1 < card C} \<and>
     list_all (\<lambda>g. sorted_wrt (<) (dg_Records g)) groups \<and>
     sorted_wrt (<) (map (\<lambda>g. hd (dg_Records g)) groups)"
proof (cases "length records < 2")
  case True
  have "card C \<le> 1" if "C \<in> components records" for C
    using card_mono [OF _ component_bounded [OF that]] True by simp
  then have "{C \<in> components records. 1 < card C} = {}" by (auto simp: not_less)
  then show ?thesis using True by (simp add: GroupExactDuplicates_def)
next
  case False
  let ?n = "length records"
  obtain ps owners where run: "add_records 0 records ([0 ..< ?n], Map.empty) = Some (ps, owners)"
    "grouped ?n (occurrences records) (ps, owners)"
    "roots_of [0 ..< ?n] ps = Some (map (rep ps) [0 ..< ?n])"
    using GroupExactDuplicates_run [of records] False by auto
  let ?rs = "map (rep ps) [0 ..< ?n]"
  let ?roots = "sort (filter (\<lambda>r. 1 < length (members_of ?rs r)) (remdups ?rs))"
  let ?groups = "map (\<lambda>r. \<lparr>dg_Records = members_of ?rs r, dg_Keys = group_keys records (members_of ?rs r)\<rparr>) ?roots"
  have valid: "valid_parents ps" "length ps = ?n" using run(2) by (auto simp: grouped_def)
  have "GroupExactDuplicates records = Some ?groups"
    using False run(1,3) by (simp add: GroupExactDuplicates_def Let_def members_of_def)
  moreover have "(\<lambda>g. set (dg_Records g)) ` set ?groups = {C \<in> components records. 1 < card C}"
  proof -
    have "(\<lambda>g. set (dg_Records g)) ` set ?groups =
        (\<lambda>r. set (members_of ?rs r)) ` {r \<in> rep ps ` {..< ?n}. 1 < card (set (members_of ?rs r))}"
      by (simp add: sorted_strict_card image_image atLeast0LessThan)
    also have "\<dots> = {C \<in> (\<lambda>i. set (members_of ?rs (rep ps i))) ` {..< ?n}. 1 < card C}"
      by blast
    also have "(\<lambda>i. set (members_of ?rs (rep ps i))) ` {..< ?n} = components records"
      unfolding components_def by (rule image_cong) (simp_all add: component_members [OF run(2)])
    finally show ?thesis .
  qed
  moreover have "list_all (\<lambda>g. sorted_wrt (<) (dg_Records g)) ?groups"
    by (simp add: list_all_iff)
  moreover have "map (\<lambda>g. hd (dg_Records g)) ?groups = ?roots"
    using hd_members_of [OF valid] by (auto intro!: map_idI)
  then have "sorted_wrt (<) (map (\<lambda>g. hd (dg_Records g)) ?groups)"
    by (simp add: strict_sorted_iff)
  ultimately show ?thesis by blast
qed

section \<open>The hashed bytes\<close>

lemma length_big_endian8 [simp]: "length (big_endian8 n) = 8"
  by (simp add: big_endian8_def)

lemma digits_mod:
  "(\<And>j. j < k \<Longrightarrow> m div 256 ^ j mod 256 = n div 256 ^ j mod 256) \<Longrightarrow> m mod 256 ^ k = (n :: nat) mod 256 ^ k"
proof (induction k)
  case (Suc k)
  then show ?case using mod_mult2_eq [of m "256 ^ k" 256] mod_mult2_eq [of n "256 ^ k" 256]
    by (simp add: mult.commute)
qed simp

lemma big_endian8_inject:
  assumes "big_endian8 m = big_endian8 n" "m < 2 ^ 64" "n < 2 ^ 64"
  shows "m = n"
proof -
  have "m div 256 ^ j mod 256 = n div 256 ^ j mod 256" if "j < 8" for j
  proof -
    have "big_endian8 k ! (7 - j) = char_of (k div 256 ^ j mod 256)" for k
      using that nth_upt [of 0 "7 - j" 8] by (simp add: big_endian8_def del: upt.simps)
    then have "(of_char (char_of (m div 256 ^ j mod 256)) :: nat) = of_char (char_of (n div 256 ^ j mod 256))"
      using assms(1) by metis
    then show ?thesis by simp
  qed
  then have "m mod 256 ^ 8 = n mod 256 ^ 8" by (rule digits_mod)
  then show ?thesis using assms(2,3) by simp
qed

lemma writeHashPart_not_Nil [simp]: "writeHashPart v \<noteq> []"
  using length_big_endian8 [of "length v"] by (auto simp: writeHashPart_def simp del: length_big_endian8)

lemma writeHashPart_inject:
  assumes "writeHashPart v @ r = writeHashPart v' @ r'" "length v < 2 ^ 64" "length v' < 2 ^ 64"
  shows "v = v' \<and> r = r'"
proof -
  have 1: "big_endian8 (length v) = big_endian8 (length v')" "v @ r = v' @ r'"
    using assms(1) by (simp_all add: writeHashPart_def)
  then show ?thesis using big_endian8_inject [OF 1(1)] assms(2,3) by simp
qed

lemma parts_inject:
  "concat (map writeHashPart ps) = concat (map writeHashPart qs) \<Longrightarrow> list_all (\<lambda>v. length v < 2 ^ 64) ps \<Longrightarrow>
     list_all (\<lambda>v. length v < 2 ^ 64) qs \<Longrightarrow> ps = qs"
proof (induction ps arbitrary: qs)
  case Nil
  then show ?case by (cases qs) auto
next
  case (Cons p ps)
  show ?case
  proof (cases qs)
    case Nil
    then show ?thesis using Cons.prems(1) by simp
  next
    case (Cons q qs')
    then show ?thesis using Cons.IH [of qs'] Cons.prems writeHashPart_inject [of p _ q] by fastforce
  qed
qed

text \<open>What the fallback identity of a record is the hash of.\<close>

definition fallback_facts :: "HashEnv \<Rightarrow> Business \<Rightarrow> string list" where
  "fallback_facts env b = [bu_NormalizedName b, bu_NormalizedCategory b, bu_AddressNormalized b,
     floatValue env (bu_Latitude b), floatValue env (bu_Longitude b)]"

definition fallback_input :: "HashEnv \<Rightarrow> Business \<Rightarrow> string \<Rightarrow> string" where
  "fallback_input env b raw =
     (if bu_IdentityKeys b \<noteq> []
      then hash_input ''fallback-v2'' (fallback_facts env b @ map IdentityKey_String (bu_IdentityKeys b))
      else hash_input ''fallback-v1'' (fallback_facts env b @ [raw]))"

definition hashable :: "HashEnv \<Rightarrow> Business \<Rightarrow> string \<Rightarrow> bool" where
  "hashable env b raw \<longleftrightarrow>
     list_all (\<lambda>v. length v < 2 ^ 64) (raw # fallback_facts env b @ map IdentityKey_String (bu_IdentityKeys b))"

lemma canonicalIdentityKey_fallback:
  "list_all (\<lambda>k. \<not> authoritative k) (bu_IdentityKeys b) \<Longrightarrow>
     canonicalIdentityKey env b raw = ''fallback:'' @ hex_encode (he_Sum256 env (fallback_input env b raw))"
  using find_None_iff [of authoritative "bu_IdentityKeys b"]
  by (simp add: canonicalIdentityKey_def fallback_input_def fallback_facts_def hashParts_def list_all_iff)

lemma hash_input_inject:
  assumes "hash_input ns ps = hash_input ns' qs" "length ns < 2 ^ 64" "length ns' < 2 ^ 64"
    "list_all (\<lambda>v. length v < 2 ^ 64) ps" "list_all (\<lambda>v. length v < 2 ^ 64) qs"
  shows "ns = ns' \<and> ps = qs"
  using writeHashPart_inject [of ns _ ns'] parts_inject assms unfolding hash_input_def by blast

lemma hex_digit_inject: "m < 16 \<Longrightarrow> n < 16 \<Longrightarrow> hex_digit m = hex_digit n \<Longrightarrow> m = n"
proof -
  have "distinct (map hex_digit [0 ..< 16])" by code_simp
  then show "m < 16 \<Longrightarrow> n < 16 \<Longrightarrow> hex_digit m = hex_digit n \<Longrightarrow> m = n"
    by (auto simp: distinct_map inj_on_def)
qed

lemma hex_encode_inject: "hex_encode s = hex_encode t \<Longrightarrow> s = t"
proof (induction s arbitrary: t)
  case Nil
  then show ?case by (cases t) (auto simp: hex_encode_def)
next
  case (Cons c s)
  then obtain d t' where t: "t = d # t'" by (cases t) (auto simp: hex_encode_def)
  let ?c = "of_char c :: nat" and ?d = "of_char d :: nat"
  have "?c < 256" "?d < 256" by simp_all
  then have "?c div 16 < 16" "?d div 16 < 16" by (simp_all add: div_less_iff_less_mult)
  then have "?c div 16 = ?d div 16" "?c mod 16 = ?d mod 16"
    using Cons.prems t by (auto simp: hex_encode_def intro!: hex_digit_inject)
  then have "?c = ?d" by (metis div_mult_mod_eq)
  then show ?case using Cons t by (auto simp: hex_encode_def)
qed

lemma fallback_input_inject:
  assumes "hashable env a ra" "hashable env b rb" "fallback_input env a ra = fallback_input env b rb"
  shows "fallback_facts env a = fallback_facts env b \<and>
     map IdentityKey_String (bu_IdentityKeys a) = map IdentityKey_String (bu_IdentityKeys b) \<and>
     (bu_IdentityKeys a = [] \<longrightarrow> ra = rb)"
proof -
  note inject = hash_input_inject [where ns = "''fallback-v2''" and ns' = "''fallback-v2''"]
    hash_input_inject [where ns = "''fallback-v1''" and ns' = "''fallback-v1''"]
    hash_input_inject [where ns = "''fallback-v2''" and ns' = "''fallback-v1''"]
    hash_input_inject [where ns = "''fallback-v1''" and ns' = "''fallback-v2''"]
  have len: "length (fallback_facts env a) = length (fallback_facts env b)" by (simp add: fallback_facts_def)
  show ?thesis
    using assms len unfolding fallback_input_def hashable_def
    by (auto split: if_splits dest!: inject)
qed

text \<open>
  C28: the identity of a record without an authoritative identifier keeps locations apart: as long as SHA-256
  does not give the two records' bytes one digest, two such records get the same identity exactly when
  their normalised name, category and address, their coordinates and all their keys agree, and, when
  they have no key at all, their raw rows too. A phone, domain or address that they share is not enough.
\<close>

theorem fallback_identity_separates:
  assumes "list_all (\<lambda>k. \<not> authoritative k) (bu_IdentityKeys a)" "list_all (\<lambda>k. \<not> authoritative k) (bu_IdentityKeys b)"
    "hashable env a ra" "hashable env b rb"
    "inj_on (he_Sum256 env) {fallback_input env a ra, fallback_input env b rb}"
  shows "canonicalIdentityKey env a ra = canonicalIdentityKey env b rb \<longleftrightarrow>
     fallback_facts env a = fallback_facts env b \<and>
     map IdentityKey_String (bu_IdentityKeys a) = map IdentityKey_String (bu_IdentityKeys b) \<and>
     (bu_IdentityKeys a = [] \<longrightarrow> ra = rb)"
proof
  assume "canonicalIdentityKey env a ra = canonicalIdentityKey env b rb"
  then have "he_Sum256 env (fallback_input env a ra) = he_Sum256 env (fallback_input env b rb)"
    by (simp add: canonicalIdentityKey_fallback [OF assms(1)] canonicalIdentityKey_fallback [OF assms(2)]
        hex_encode_inject)
  then have "fallback_input env a ra = fallback_input env b rb"
    by (rule inj_onD [OF assms(5)]) (rule insertI1, rule insertI2, rule insertI1)
  then show "fallback_facts env a = fallback_facts env b \<and>
     map IdentityKey_String (bu_IdentityKeys a) = map IdentityKey_String (bu_IdentityKeys b) \<and>
     (bu_IdentityKeys a = [] \<longrightarrow> ra = rb)"
    by (rule fallback_input_inject [OF assms(3,4)])
next
  assume same: "fallback_facts env a = fallback_facts env b \<and>
     map IdentityKey_String (bu_IdentityKeys a) = map IdentityKey_String (bu_IdentityKeys b) \<and>
     (bu_IdentityKeys a = [] \<longrightarrow> ra = rb)"
  then have "bu_IdentityKeys a = [] \<longleftrightarrow> bu_IdentityKeys b = []" by (metis map_is_Nil_conv)
  then have "fallback_input env a ra = fallback_input env b rb"
    using same by (auto simp: fallback_input_def)
  then show "canonicalIdentityKey env a ra = canonicalIdentityKey env b rb"
    using assms(1,2) by (simp add: canonicalIdentityKey_fallback)
qed

text \<open>Two branches of a chain share a phone and differ in their address.\<close>

definition branch :: "string \<Rightarrow> Business" where
  "branch addr = \<lparr>bu_ID = [], bu_CanonicalIdentityKey = [],
     bu_IdentityKeys = [\<lparr>ik_Kind = IdentityPhone, ik_Value = ''442071234567''\<rparr>], bu_Name = ''Cafe'',
     bu_NormalizedName = ''cafe'', bu_NormalizedCategory = ''coffee shop'', bu_AddressNormalized = addr,
     bu_City = [], bu_PostalCode = [], bu_Domain = [], bu_Phones = [], bu_PlaceID = [], bu_CID = [], bu_DataID = [],
     bu_Latitude = None, bu_Longitude = None\<rparr>"

definition plain_hash :: HashEnv where
  "plain_hash = \<lparr>he_Sum256 = (\<lambda>s. s), he_FormatFloat = (\<lambda>x. [])\<rparr>"

lemma fallback_identity_separates_witness:
  "canonicalIdentityKey plain_hash (branch ''1 high street'') [] \<noteq>
     canonicalIdentityKey plain_hash (branch ''9 mill lane'') []"
  using fallback_identity_separates [of "branch ''1 high street''" "branch ''9 mill lane''" plain_hash "[]" "[]"]
  by (simp add: branch_def plain_hash_def authoritative_def hashable_def fallback_facts_def floatValue_def
      IdentityKey_String_def IdentityPhone_def IdentityPlaceID_def IdentityCID_def IdentityDataID_def)

end
