(* ===== verification/EntityProperties.thy ===== *)
theory EntityProperties
  imports EntityResolution ReviewProperties SimilarityProperties ExactIdentityProperties
begin

text \<open>
  What resolution promises of the listing it attaches a record to: an exact match of an authoritative
  identifier, or a live listing that a tier corroborates, never one that a person ruled distinct, never a
  location of a chain, and over disagreeing identifiers only with a shared phone and near-identical names.
  A ruling of duplicate review binds every later resolution, and merges are followed to the survivor.
\<close>

section \<open>Tiers\<close>

definition phone_tier :: "ResolveEnv \<Rightarrow> Business \<Rightarrow> fallbackRow \<Rightarrow> bool" where
  "phone_tier env b row \<longleftrightarrow> fr_phoneMatch row \<and>
     (f64_le identityPhoneNameSimilarity (name_similarity env b row) \<or>
      closer (fallbackDistanceMetres env b row) identityPhoneDistanceMetres \<and>
      f64_le identityPhoneUnrelatedNameFloor (name_similarity env b row))"

definition domain_tier :: "ResolveEnv \<Rightarrow> Business \<Rightarrow> fallbackRow \<Rightarrow> bool" where
  "domain_tier env b row \<longleftrightarrow> fr_domainMatch row \<and>
     closer (fallbackDistanceMetres env b row) identityDomainDistanceMetres \<and>
     f64_le identityDomainNameSimilarity (name_similarity env b row)"

definition address_tier :: "ResolveEnv \<Rightarrow> Business \<Rightarrow> fallbackRow \<Rightarrow> bool" where
  "address_tier env b row \<longleftrightarrow> fr_addressMatch row \<and>
     f64_le identityAddressNameSimilarity (name_similarity env b row)"

definition nameless_tier :: "ResolveEnv \<Rightarrow> Business \<Rightarrow> fallbackRow \<Rightarrow> bool" where
  "nameless_tier env b row \<longleftrightarrow> bu_IdentityKeys b = [] \<and>
     f64_le identityNameSimilarityFloor (name_similarity env b row) \<and>
     closer (fallbackDistanceMetres env b row) identityNameDistanceMetres"

text \<open>When a record may be attached to a row by corroboration.\<close>

definition attach_allowed :: "ResolveEnv \<Rightarrow> Listings \<Rightarrow> Business \<Rightarrow> fallbackRow \<Rightarrow> bool" where
  "attach_allowed env L b row \<longleftrightarrow>
     (phone_tier env b row \<or> domain_tier env b row \<or> address_tier env b row \<or> nameless_tier env b row) \<and>
     \<not> chain_pattern env b row \<and> \<not> keepSeparatePairExists (fr_id row) (bu_ID b) L \<and>
     (authoritativeConflict b row \<longrightarrow> phone_tier env b row \<and> identityDriftPlausible env b row)"

text \<open>The four doubles, and how they compare.\<close>

lemma round_nearest: "of_int n - 1 / 2 < q \<Longrightarrow> q < of_int n + 1 / 2 \<Longrightarrow> round_half_even q = n"
proof (cases "of_int n \<le> q")
  case True
  moreover assume "q < of_int n + 1 / 2"
  moreover have "\<lfloor>q\<rfloor> = n" using calculation by (intro floor_unique) auto
  ultimately show ?thesis by (simp add: round_half_even_def)
next
  case False
  moreover assume "of_int n - 1 / 2 < q"
  moreover have "\<lfloor>q\<rfloor> = n - 1" using calculation by (intro floor_unique) auto
  ultimately show ?thesis by (simp add: round_half_even_def)
qed

lemma double_below_one:
  assumes "1 / 2 \<le> x" "x < 1" "of_int n - 1 / 2 < x * 2 ^ 53" "x * 2 ^ 53 < of_int n + 1 / 2"
  shows "f64_of_rat x = Fin (of_int n / 2 ^ 53)"
proof -
  have "binade x = - 1" by (rule binade_eqI) (use assms in \<open>simp_all add: power_int_minus\<close>)
  then have u: "ulp x = 1 / 2 ^ 53" by (simp add: ulp_def power_int_minus)
  have "f64_round x = of_int n / 2 ^ 53"
    using assms round_nearest [OF assms(3,4)] by (simp add: f64_round_def round_pos_def u)
  moreover have "\<bar>x\<bar> \<le> 2 ^ 53" using assms(1,2) by simp
  ultimately show ?thesis by (simp only: f64_of_rat_small(1))
qed

lemma doubles:
  "f64_of_rat (9 / 10) = Fin (8106479329266893 / 9007199254740992)"
  "f64_of_rat (85 / 100) = Fin (7656119366529843 / 9007199254740992)"
  "f64_of_rat (75 / 100) = Fin (6755399441055744 / 9007199254740992)"
  using double_below_one [of "9 / 10" 8106479329266893] double_below_one [of "85 / 100" 7656119366529843]
    double_below_one [of "75 / 100" 6755399441055744] by simp_all

lemmas confidence_defs = identityPhoneConfidence_def identityDomainConfidence_def identityAddressConfidence_def
  identityNameConfidence_def identityAttachConfidence_def identityDriftConfidence_def

lemma confidence_order [simp]:
  "f64_le identityAttachConfidence (Fin 0) = False" "f64_le identityDriftConfidence (Fin 0) = False"
  "f64_le identityAttachConfidence identityNameConfidence = False"
  "f64_le identityDriftConfidence identityNameConfidence = False"
  "f64_le identityDriftConfidence identityDomainConfidence = False"
  "f64_le identityDriftConfidence identityAddressConfidence = False"
  "f64_le identityDriftConfidence identityAttachConfidence = False"
  "f64_le identityAttachConfidence identityDriftConfidence"
  by (simp_all only: confidence_defs doubles f64_le.simps) simp_all

lemma confidence_less [simp]:
  "f64_less (Fin 0) identityPhoneConfidence" "f64_less (Fin 0) identityDomainConfidence"
  "f64_less (Fin 0) identityAddressConfidence" "f64_less (Fin 0) identityNameConfidence"
  "f64_less (Fin 0) identityAttachConfidence"
  "\<not> f64_less identityPhoneConfidence identityDomainConfidence"
  "\<not> f64_less identityPhoneConfidence identityAddressConfidence"
  "\<not> f64_less identityPhoneConfidence identityNameConfidence"
  "\<not> f64_less identityPhoneConfidence identityAttachConfidence"
  "\<not> f64_less identityDomainConfidence identityAddressConfidence"
  "\<not> f64_less identityDomainConfidence identityNameConfidence"
  "\<not> f64_less identityDomainConfidence identityAttachConfidence"
  "\<not> f64_less identityAddressConfidence identityNameConfidence"
  "\<not> f64_less identityAddressConfidence identityAttachConfidence"
  unfolding confidence_defs doubles by simp_all

definition name_tier :: "ResolveEnv \<Rightarrow> Business \<Rightarrow> fallbackRow \<Rightarrow> bool" where
  "name_tier env b row \<longleftrightarrow> f64_le identityNameSimilarityFloor (name_similarity env b row) \<and>
     closer (fallbackDistanceMetres env b row) identityNameDistanceMetres"

definition tier_value :: "ResolveEnv \<Rightarrow> Business \<Rightarrow> fallbackRow \<Rightarrow> string \<times> f64" where
  "tier_value env b row =
     (if phone_tier env b row then (identityMethodPhone, identityPhoneConfidence)
      else if domain_tier env b row then (identityMethodDomain, identityDomainConfidence)
      else if address_tier env b row then (identityMethodAddressName, identityAddressConfidence)
      else if name_tier env b row
      then (identityMethodNameProximity, if bu_IdentityKeys b = [] then identityAttachConfidence else identityNameConfidence)
      else ([], Fin 0))"

lemma consider_tiers:
  assumes "nc = identityAttachConfidence \<or> nc = identityNameConfidence"
  shows "consider_tier N m4 nc (consider_tier A m3 identityAddressConfidence
       (consider_tier D m2 identityDomainConfidence (consider_tier P m1 identityPhoneConfidence ([], Fin 0)))) =
     (if P then (m1, identityPhoneConfidence) else if D then (m2, identityDomainConfidence)
      else if A then (m3, identityAddressConfidence) else if N then (m4, nc) else ([], Fin 0))"
  using assms by (elim disjE; cases P; cases D; cases A; cases N; simp add: consider_tier_def)

lemma scoreFallbackRow_value:
  "scoreFallbackRow env b row =
     (fst (tier_value env b row),
      if chain_pattern env b row \<and> f64_less (snd (tier_value env b row)) identityCandidateConfidence
      then identityCandidateConfidence else snd (tier_value env b row),
      row_evidence env b row, chain_pattern env b row)"
proof -
  let ?nc = "if bu_IdentityKeys b = [] then identityAttachConfidence else identityNameConfidence"
  have "?nc = identityAttachConfidence \<or> ?nc = identityNameConfidence" by simp
  note tiers = consider_tiers [OF this]
  show ?thesis
    unfolding scoreFallbackRow_def Let_def tiers tier_value_def phone_tier_def [symmetric] domain_tier_def [symmetric]
      address_tier_def [symmetric] name_tier_def [symmetric] split_beta by (rule refl)
qed

lemma tier_confidence:
  "f64_le identityAttachConfidence (snd (tier_value env b row)) \<Longrightarrow>
     phone_tier env b row \<or> domain_tier env b row \<or> address_tier env b row \<or> nameless_tier env b row"
  "f64_le identityDriftConfidence (snd (tier_value env b row)) \<Longrightarrow> phone_tier env b row"
  by (simp_all add: tier_value_def nameless_tier_def name_tier_def split: if_splits)

lemma drift_attach: "f64_le identityDriftConfidence c \<Longrightarrow> f64_le identityAttachConfidence c"
proof -
  have "f64_le x y \<Longrightarrow> f64_le y z \<Longrightarrow> f64_le x z" for x y z by (cases x; cases y; cases z) auto
  then show "f64_le identityDriftConfidence c \<Longrightarrow> f64_le identityAttachConfidence c"
    using confidence_order(8) by blast
qed

lemma score_entry_attachable:
  assumes "score_entry env L b row = Some e" "sc_attachable e"
  shows "sc_row e = row \<and> attach_allowed env L b row"
proof -
  have "\<not> chain_pattern env b row" "sc_row e = row" "\<not> keepSeparatePairExists (fr_id row) (bu_ID b) L"
    "f64_le identityDriftConfidence (snd (tier_value env b row)) \<and>
       (authoritativeConflict b row \<longrightarrow> identityDriftPlausible env b row) \<or>
     f64_le identityAttachConfidence (snd (tier_value env b row)) \<and> \<not> authoritativeConflict b row"
    using assms by (auto simp: score_entry_def scoreFallbackRow_value split: if_splits)
  then show ?thesis using tier_confidence [of env b row] drift_attach by (auto simp: attach_allowed_def)
qed

lemma score_entry_row: "score_entry env L b row = Some e \<Longrightarrow>
    sc_row e = row \<and> \<not> keepSeparatePairExists (fr_id row) (bu_ID b) L"
  by (auto simp: score_entry_def scoreFallbackRow_value split: if_splits)

section \<open>The best row\<close>

lemma f64_less_trans: "f64_less x y \<Longrightarrow> f64_less y z \<Longrightarrow> f64_less x z"
  by (cases x; cases y; cases z) auto

lemma best_index_upto:
  assumes "n \<le> length scored" "foldl (better scored) None [0 ..< n] = Some i"
  shows "i < n \<and> sc_attachable (scored ! i) \<and>
     (\<forall>j < n. sc_attachable (scored ! j) \<longrightarrow> \<not> f64_less (sc_confidence (scored ! i)) (sc_confidence (scored ! j)))"
  using assms
proof (induction n arbitrary: i)
  case (Suc n)
  let ?before = "foldl (better scored) None [0 ..< n]"
  have step: "better scored ?before n = Some i" using Suc.prems(2) by simp
  show ?case
  proof (cases "?before")
    case None
    have none: "\<not> sc_attachable (scored ! j)" if "j < n" for j
      using None that
    proof (induction n)
      case (Suc m)
      then show ?case by (auto simp: better_def less_Suc_eq split: if_splits option.splits)
    qed simp
    moreover have "\<not> f64_less x x" for x by (cases x) auto
    ultimately show ?thesis using step None by (auto simp: better_def less_Suc_eq split: if_splits)
  next
    case (Some k)
    have IH: "k < n" "sc_attachable (scored ! k)" and best: "\<And>j. j < n \<Longrightarrow> sc_attachable (scored ! j) \<Longrightarrow>
        \<not> f64_less (sc_confidence (scored ! k)) (sc_confidence (scored ! j))"
      using Suc.IH [OF _ Some] Suc.prems(1) by auto
    have self: "\<not> f64_less x x" for x by (cases x) auto
    show ?thesis
    proof (cases "sc_attachable (scored ! n) \<and> f64_less (sc_confidence (scored ! k)) (sc_confidence (scored ! n))")
      case True
      then have "i = n" using step by (simp add: Some better_def)
      moreover have "\<not> f64_less (sc_confidence (scored ! n)) (sc_confidence (scored ! j))"
        if "j < n" "sc_attachable (scored ! j)" for j using f64_less_trans best [OF that] True by blast
      ultimately show ?thesis using True self by (auto simp: less_Suc_eq)
    next
      case False
      then have "i = k" using step by (auto simp: Some better_def split: if_splits)
      then show ?thesis using False IH best by (auto simp: less_Suc_eq)
    qed
  qed
qed simp

section \<open>The rows that are probed\<close>

text \<open>A column of merges is NULL or names a listing.\<close>

definition merges_named :: "Listings \<Rightarrow> bool" where
  "merges_named L \<longleftrightarrow> list_all (\<lambda>r. ls_merged_into r \<noteq> Some []) (li_businesses L)"

definition live_row :: "Listings \<Rightarrow> string \<Rightarrow> bool" where
  "live_row L i \<longleftrightarrow> (\<exists>r \<in> set (li_businesses L). ls_id r = i \<and> live_listing r)"

lemma fallback_row_live:
  assumes "merges_named L" "r \<in> set (li_businesses L)" "\<not> ls_deleted r" "fr_mergedInto (fallback_row r) = []"
  shows "live_row L (fr_id (fallback_row r))"
  using assms by (auto simp: merges_named_def live_row_def live_listing_def fallback_row_def list_all_iff split: option.splits)

lemma follow_merges_live:
  "merges_named L \<Longrightarrow> follow_merges n i L = Some row \<Longrightarrow> live_row L (fr_id row)"
proof (induction n i L rule: follow_merges.induct)
  case (2 n i L)
  then obtain r where r: "find (\<lambda>r. ls_id r = i \<and> \<not> ls_deleted r) (li_businesses L) = Some r"
    by (auto split: option.splits)
  then have "r \<in> set (li_businesses L)" "\<not> ls_deleted r" by (auto simp: find_Some_iff)
  then show ?case using 2 r fallback_row_live [of L r] by (auto simp: Let_def split: if_splits)
qed simp

lemma redirect_live:
  assumes "merges_named L" "r \<in> set (li_businesses L)" "\<not> ls_deleted r" "redirectMergedRow L (fallback_row r) = Some row"
  shows "live_row L (fr_id row)"
  using assms fallback_row_live follow_merges_live by (auto simp: redirectMergedRow_def split: if_splits)

lemma set_signal_id [simp]: "fr_id (set_signal signal value r) = fr_id r"
  by (simp add: set_signal_def split: probe_signal.split)

definition rows_live :: "Listings \<Rightarrow> fallbackRow list \<Rightarrow> bool" where
  "rows_live L rows \<longleftrightarrow> list_all (\<lambda>row. live_row L (fr_id row)) rows"

lemma collect_fallback_live:
  assumes "merges_named L" "r \<in> set (li_businesses L)" "\<not> ls_deleted r" "rows_live L ordered"
  shows "rows_live L (collect_fallback L signal value ordered r)"
  using assms redirect_live [OF assms(1-3)]
  by (auto simp: collect_fallback_def rows_live_def list_all_iff Let_def split: option.splits)

lemma collect_live:
  assumes "merges_named L" "rows_live L ordered"
  shows "rows_live L (collect L signal value p ordered)"
proof -
  have "rows_live L (foldl (collect_fallback L signal value) rows rs)"
    if "rows_live L rows" "\<forall>r \<in> set rs. r \<in> set (li_businesses L) \<and> \<not> ls_deleted r" for rows rs
    using that
  proof (induction rs arbitrary: rows)
    case (Cons r rs)
    then show ?case using collect_fallback_live [OF assms(1)] by simp
  qed simp
  moreover have "r \<in> set (li_businesses L) \<and> \<not> ls_deleted r" if "r \<in> set (select_listings n p L)" for r n
    using that by (auto simp: select_listings_def dest!: in_set_takeD)
  ultimately show ?thesis using assms(2) by (auto simp: collect_def)
qed

lemma collectFallbackRows_live: "merges_named L \<Longrightarrow> rows_live L (collectFallbackRows L b)"
proof -
  assume m: "merges_named L"
  have "rows_live L (fold (collect_phone L) phones rows)" if "rows_live L rows" for phones rows
    using that by (induction phones arbitrary: rows) (simp_all add: collect_phone_def collect_live m)
  moreover have "rows_live L []" by (simp add: rows_live_def)
  ultimately show ?thesis by (simp add: collectFallbackRows_def Let_def collect_live m)
qed

section \<open>Attaching\<close>

lemma set_map_filter: "set (List.map_filter f xs) = {y. \<exists>x \<in> set xs. f x = Some y}"
  by (induction xs) (auto simp: map_filter_simps split: option.splits)

lemma scored_attachable:
  assumes "e \<in> set (List.map_filter (score_entry env L b) rows)" "sc_attachable e"
  shows "sc_row e \<in> set rows \<and> attach_allowed env L b (sc_row e)"
  using assms score_entry_attachable by (auto simp: set_map_filter)

lemma best_index_scored:
  "best_index scored = Some i \<Longrightarrow> i < length scored \<and> sc_attachable (scored ! i)"
  using best_index_upto [of "length scored" scored i] by (auto simp: best_index_def)

lemma attach_to_id [simp]: "ir_businessID (attach_to b e) = fr_id (sc_row e)"
  by (simp add: attach_to_def split: prod.split)

lemma scoreFallbackRows_attach:
  assumes "ir_businessID (scoreFallbackRows env L b rows) \<noteq> []"
  shows "\<exists>row \<in> set rows. fr_id row = ir_businessID (scoreFallbackRows env L b rows) \<and> attach_allowed env L b row"
proof -
  let ?scored = "List.map_filter (score_entry env L b) rows"
  obtain i where i: "best_index ?scored = Some i"
    using assms by (cases "best_index ?scored") (simp_all add: scoreFallbackRows_def Let_def no_resolution_def)
  have e: "?scored ! i \<in> set ?scored" "sc_attachable (?scored ! i)" using best_index_scored [OF i] by auto
  have "ir_businessID (scoreFallbackRows env L b rows) = fr_id (sc_row (?scored ! i))"
    by (simp add: scoreFallbackRows_def Let_def i)
  then show ?thesis using scored_attachable [OF e] by auto
qed

text \<open>
  C9: a record is attached to a stored listing only with good evidence. When resolution names a listing for a
  record, either an authoritative identifier of the record matches that listing, or none matches any
  listing and the listing is live, neither deleted nor merged away, and corroborated: a shared phone with a
  similar name or nearby with a related one, a shared domain close by with a similar name, the same address
  with a similar name, or, for a record without any key, a near-identical name at the same spot. Then the
  two are no locations of a chain, no person ruled them distinct, and identifiers that disagree are overruled
  only by a shared phone with near-identical names and no conflict of street addresses: an address that
  one of the two does not state is none. No stored merge names an empty identifier.
\<close>

theorem attach_needs_evidence:
  assumes "merges_named L" "ir_businessID (resolveBusinessIdentity env L b) = i" "i \<noteq> []"
  shows "i \<in> set (fst (matchAuthoritativeBusinesses L b)) \<or>
     fst (matchAuthoritativeBusinesses L b) = [] \<and> live_row L i \<and>
     (\<exists>row \<in> set (collectFallbackRows L b). fr_id row = i \<and> attach_allowed env L b row)"
proof (cases "fst (matchAuthoritativeBusinesses L b)")
  case Nil
  then obtain evidence where "matchAuthoritativeBusinesses L b = ([], evidence)"
    by (cases "matchAuthoritativeBusinesses L b") auto
  then have r: "resolveBusinessIdentity env L b = scoreFallbackRows env L b (collectFallbackRows L b)"
    by (simp add: resolveBusinessIdentity_def)
  obtain row where "row \<in> set (collectFallbackRows L b)" "fr_id row = i" "attach_allowed env L b row"
    using scoreFallbackRows_attach [of env L b "collectFallbackRows L b"] assms(2,3) unfolding r by auto
  then show ?thesis
    using Nil collectFallbackRows_live [OF assms(1), of b] by (auto simp: rows_live_def list_all_iff)
next
  case (Cons j js)
  then obtain evidence where "matchAuthoritativeBusinesses L b = (j # js, evidence)"
    by (cases "matchAuthoritativeBusinesses L b") auto
  then show ?thesis using assms(2) by (simp add: resolveBusinessIdentity_def)
qed

section \<open>Following merges\<close>

text \<open>How many merges lead from a listing to the one that survived.\<close>

inductive merge_chain :: "(string \<Rightarrow> string option option) \<Rightarrow> string \<Rightarrow> nat \<Rightarrow> string \<Rightarrow> bool" for m where
  chain_end: "m i = Some None \<Longrightarrow> merge_chain m i 0 i"
| chain_step: "m i = Some (Some j) \<Longrightarrow> merge_chain m j n k \<Longrightarrow> merge_chain m i (Suc n) k"

text \<open>
  The row with this identifier that is not deleted, and the listing it was merged into: a deleted
  listing is not there, for itself and for the chains that lead through it.
\<close>

definition undeleted_row :: "Listings \<Rightarrow> string \<Rightarrow> Listing option" where
  "undeleted_row L i = find (\<lambda>r. ls_id r = i \<and> \<not> ls_deleted r) (li_businesses L)"

definition undeleted_into :: "Listings \<Rightarrow> string \<Rightarrow> string option option" where
  "undeleted_into L i = map_option ls_merged_into (undeleted_row L i)"

lemma undeleted_row_stored: "undeleted_row L i = Some r \<Longrightarrow> r \<in> set (li_businesses L)"
  by (auto simp: undeleted_row_def find_Some_iff)

lemma mergedInto_row:
  assumes "merges_named L" "r \<in> set (li_businesses L)"
  shows "fr_mergedInto (fallback_row r) = [] \<longleftrightarrow> ls_merged_into r = None"
    "ls_merged_into r = Some j \<Longrightarrow> fr_mergedInto (fallback_row r) = j"
proof -
  have "ls_merged_into r \<noteq> Some []" using assms by (auto simp: merges_named_def list_all_iff)
  then show "fr_mergedInto (fallback_row r) = [] \<longleftrightarrow> ls_merged_into r = None"
    "ls_merged_into r = Some j \<Longrightarrow> fr_mergedInto (fallback_row r) = j"
    by (auto simp: fallback_row_def split: option.split)
qed

lemma follow_merges_row:
  "follow_merges (Suc hops) i L =
     (case undeleted_row L i of
        None \<Rightarrow> None
      | Some r \<Rightarrow> if fr_mergedInto (fallback_row r) = [] then Some (fallback_row r)
          else follow_merges hops (fr_mergedInto (fallback_row r)) L)"
  by (simp add: undeleted_row_def Let_def split: option.split)

inductive_cases merge_chain_cases: "merge_chain m i n k"

lemma merge_chain_unique:
  "merge_chain m i n k \<Longrightarrow> merge_chain m i n' k' \<Longrightarrow> n' = n \<and> k' = k"
  by (induction arbitrary: n' rule: merge_chain.induct) (auto elim: merge_chain_cases)

lemma follow_merges_chain:
  assumes "merges_named L"
  shows "follow_merges hops i L = Some row \<longleftrightarrow>
    (\<exists>n k s. n < hops \<and> merge_chain (undeleted_into L) i n k \<and> undeleted_row L k = Some s \<and> row = fallback_row s)"
proof (induction hops arbitrary: i)
  case (Suc hops)
  show ?case
  proof (cases "undeleted_row L i")
    case None
    then have "\<not> merge_chain (undeleted_into L) i n k" for n k
      by (auto simp: undeleted_into_def elim: merge_chain_cases)
    then show ?thesis using None by (simp add: follow_merges_row del: follow_merges.simps)
  next
    case (Some r)
    note into = mergedInto_row [OF assms undeleted_row_stored [OF Some]]
    show ?thesis
    proof (cases "ls_merged_into r")
      case None
      then have "merge_chain (undeleted_into L) i n k \<longleftrightarrow> n = 0 \<and> k = i" for n k
        using Some by (auto simp: undeleted_into_def intro: chain_end elim: merge_chain_cases)
      then show ?thesis using Some None into(1)
        by (auto simp: follow_merges_row simp del: follow_merges.simps)
    next
      case merged: (Some j)
      then have "merge_chain (undeleted_into L) i n k \<longleftrightarrow> (\<exists>m. n = Suc m \<and> merge_chain (undeleted_into L) j m k)" for n k
        using Some by (auto simp: undeleted_into_def intro: chain_step elim: merge_chain_cases)
      then show ?thesis using Some merged into Suc.IH [of j]
        by (auto simp: follow_merges_row simp del: follow_merges.simps)
    qed
  qed
qed simp

text \<open>
  C29: a probe that finds a listing proposes exactly the listing that survived it. A listing that was not
  merged stays as it is; a merged one gives way to the listing at the end of its merges, where every
  listing on the way is stored and not deleted and there are at most five merges in all. In every
  other case, a longer chain of merges, although each of them is valid, a chain that runs in a circle, or one
  through a deleted listing, the candidate is dropped. No stored merge names an empty identifier.
\<close>

theorem redirect_reaches_survivor:
  assumes "merges_named L" "r \<in> set (li_businesses L)"
  shows "redirectMergedRow L (fallback_row r) = Some row \<longleftrightarrow>
    ls_merged_into r = None \<and> row = fallback_row r \<or>
    (\<exists>j n k s. ls_merged_into r = Some j \<and> n < 5 \<and> merge_chain (undeleted_into L) j n k \<and>
       undeleted_row L k = Some s \<and> row = fallback_row s)"
proof (cases "ls_merged_into r")
  case None
  then show ?thesis using mergedInto_row(1) [OF assms] by (auto simp: redirectMergedRow_def)
next
  case (Some j)
  then have "redirectMergedRow L (fallback_row r) = follow_merges 5 j L"
    using mergedInto_row [OF assms] by (simp add: redirectMergedRow_def identityMergeRedirectMaxHops_def)
  then show ?thesis using Some by (auto simp: follow_merges_chain [OF assms(1)] simp del: follow_merges.simps)
qed

section \<open>Rulings\<close>

lemma keepSeparate_later:
  "keepSeparatePairExists l r L \<Longrightarrow> prefix (li_rules L) (li_rules M) \<Longrightarrow> keepSeparatePairExists l r M"
  by (auto simp: keepSeparatePairExists_def prefix_def)

lemma keepSeparate_sym: "keepSeparatePairExists l r L \<longleftrightarrow> keepSeparatePairExists r l L"
  by (auto simp: keepSeparatePairExists_def rule_for_def list_ex_iff)

lemma keep_both_rules:
  assumes "ResolveDuplicateCandidate env now d L = Inr (res, L')" "rs_State res = ''keep_both''"
    "find (\<lambda>c. cd_id c = dd_CandidateID d) (li_candidates L) = Some c"
    "cd_left c \<noteq> []" "cd_right c \<noteq> []" "cd_left c \<noteq> cd_right c"
  shows "keepSeparatePairExists (cd_left c) (cd_right c) L'"
proof -
  obtain d' where d': "repo_ResolveDuplicateCandidate env now d' L = Inr (res, L')" "dd_CandidateID d' = dd_CandidateID d"
    using assms(1) by (metis service_accepts)
  obtain keep merge L1 where 1: "apply_action env d' c keep merge now L = Inr (res, L1)" "L' = settle_candidate d' res now L1"
    using d' assms(3) by (elim settled_decision) simp
  from 1(1) have "L1 = insertNonMatchRule (cd_left c) (cd_right c) (dd_Note d') now L"
    using assms(2) by (cases rule: action_cases) auto
  then show ?thesis
    using assms(4-6) 1(2) by (auto simp: keepSeparatePairExists_def settle_candidate_def insertNonMatchRule_def
        rule_for_def list_ex_iff)
qed

lemma scored_not_separate:
  assumes "e \<in> set (List.map_filter (score_entry env L b) rows)"
  shows "\<not> keepSeparatePairExists (fr_id (sc_row e)) (bu_ID b) L"
  using assms score_entry_row by (auto simp: set_map_filter)

lemma separate_not_proposed:
  assumes "keepSeparatePairExists i (bu_ID b) L"
  shows "ir_businessID (scoreFallbackRows env L b rows) \<noteq> i"
    "i \<notin> ic_businessID ` set (ir_candidates (scoreFallbackRows env L b rows))"
proof -
  have "i \<noteq> []" using assms by (simp add: keepSeparatePairExists_def)
  then show "ir_businessID (scoreFallbackRows env L b rows) \<noteq> i"
    using scoreFallbackRows_attach [of env L b rows] assms by (auto simp: attach_allowed_def)
  show "i \<notin> ic_businessID ` set (ir_candidates (scoreFallbackRows env L b rows))"
    using scored_not_separate [OF nth_mem, of _ env L b rows] assms
    by (auto simp: scoreFallbackRows_def Let_def review_candidate_def)
qed

text \<open>
  C26: keeping both records of a pair is a lasting ruling. Once an operator decided that the two listings of a
  candidate are different businesses, then in every later store that still has the ruling a record with
  the identity of the one is never attached to the other by corroboration, the pair is not proposed for
  review again, and filing candidates for the one never files the other.
\<close>

theorem keep_both_is_lasting:
  assumes "ResolveDuplicateCandidate env now d L = Inr (res, L')" "rs_State res = ''keep_both''"
    "find (\<lambda>c. cd_id c = dd_CandidateID d) (li_candidates L) = Some c"
    "cd_left c \<noteq> []" "cd_right c \<noteq> []" "cd_left c \<noteq> cd_right c"
    "prefix (li_rules L') (li_rules M)" "{bu_ID b, other} = {cd_left c, cd_right c}"
  shows "ir_businessID (scoreFallbackRows renv M b rows) \<noteq> other \<and>
     other \<notin> ic_businessID ` set (ir_candidates (scoreFallbackRows renv M b rows)) \<and>
     storeFallbackCandidate (bu_ID b) observedAt \<lparr>ic_businessID = other, ic_score = score, ic_evidence = evidence\<rparr> M = M \<and>
     storeDuplicateCandidate (bu_ID b) keys observedAt other M = M"
proof -
  have "keepSeparatePairExists (cd_left c) (cd_right c) M"
    using keep_both_rules [OF assms(1-6)] assms(7) by (rule keepSeparate_later)
  moreover have "bu_ID b = cd_left c \<and> other = cd_right c \<or> bu_ID b = cd_right c \<and> other = cd_left c"
    using assms(8) by (auto simp: doubleton_eq_iff)
  ultimately have sep: "keepSeparatePairExists other (bu_ID b) M" "keepSeparatePairExists (bu_ID b) other M"
    using keepSeparate_sym by auto
  then show ?thesis
    using separate_not_proposed [OF sep(1)] by (simp add: storeFallbackCandidate_def storeDuplicateCandidate_def)
qed

section \<open>Examples\<close>

definition flat_env :: ResolveEnv where
  "flat_env = \<lparr>re_unicode = ascii_env, re_Sin = (\<lambda>x. x), re_Cos = (\<lambda>x. x), re_Atan2 = (\<lambda>x y. x), re_Sqrt = (\<lambda>x. x),
     re_FormatFixed = (\<lambda>n x. [])\<rparr>"

text \<open>A pizzeria stored under its address, merged away or not, and its record in another pass.\<close>

definition pizzeria :: "string \<Rightarrow> string option \<Rightarrow> Listing" where
  "pizzeria i survivor = (plain_listing i)\<lparr>ls_name := ''PIZZERIA'', ls_normalized_address := ''5 dock road'',
     ls_merged_into := survivor\<rparr>"

definition pizzeria_store :: Listings where
  "pizzeria_store = three_listings\<lparr>li_businesses := [pizzeria ''biz_a'' (Some ''biz_b''), pizzeria ''biz_b'' None],
     li_keys := [\<lparr>ik_business = ''biz_a'', ik_type = IdentityPlaceID, ik_value = ''P1'', ik_created_at = 1\<rparr>]\<rparr>"

definition seen_pizzeria :: "IdentityKey list \<Rightarrow> Business" where
  "seen_pizzeria keys = (branch ''5 dock road'')\<lparr>bu_ID := ''biz_q'', bu_IdentityKeys := keys, bu_Name := ''Pizzeria'',
     bu_NormalizedName := []\<rparr>"

definition pizzeria_row :: fallbackRow where
  "pizzeria_row = set_signal Address_signal ''5 dock road'' (fallback_row (pizzeria ''biz_b'' None))"

lemmas pizzeria_defs = seen_pizzeria_def branch_def pizzeria_store_def three_listings_def pizzeria_def
  plain_listing_def pizzeria_row_def

lemma pizzeria_match: "matchAuthoritativeBusinesses pizzeria_store (seen_pizzeria []) = ([], [])"
  by (simp add: matchAuthoritativeBusinesses_def authoritativeIdentityKeys_def legacyProbes_def pizzeria_defs Let_def)

lemma pizzeria_rows: "collectFallbackRows pizzeria_store (seen_pizzeria []) = [pizzeria_row]"
  by (simp add: collectFallbackRows_def collect_def select_listings_def SliceStable_def collect_fallback_def redirectMergedRow_def
      identityMergeRedirectMaxHops_def eval_nat_numeral created_before_def
      fallback_row_def pizzeria_defs has_key_def set_signal_def Let_def IdentityPlaceID_def IdentityAddress_def)

lemma pizzeria_similarity: "name_similarity flat_env (seen_pizzeria keys) pizzeria_row = Fin 1"
  using NameSimilarity_same_words [of ascii_env "''Pizzeria''" "''PIZZERIA''"]
  by (simp add: name_similarity_def flat_env_def pizzeria_words pizzeria_defs fallback_row_def set_signal_def)

lemma pizzeria_tier: "tier_value flat_env (seen_pizzeria []) pizzeria_row = (identityMethodAddressName, identityAddressConfidence)"
proof -
  have "f64_of_rat (7 / 10) = Fin (6305039478318694 / 9007199254740992)"
    using double_below_one [of "7 / 10" 6305039478318694] by simp
  then have "f64_le identityAddressNameSimilarity (Fin 1)" by (simp add: identityAddressNameSimilarity_def)
  then show ?thesis
    by (simp add: tier_value_def phone_tier_def domain_tier_def address_tier_def pizzeria_similarity)
      (simp add: pizzeria_row_def set_signal_def fallback_row_def)
qed

lemma pizzeria_score:
  "\<exists>e. score_entry flat_env pizzeria_store (seen_pizzeria []) pizzeria_row = Some e \<and> sc_row e = pizzeria_row \<and> sc_attachable e"
proof -
  have "\<not> chain_pattern flat_env (seen_pizzeria []) pizzeria_row"
    by (simp add: chain_pattern_def pizzeria_row_def set_signal_def fallback_row_def)
  moreover have "\<not> keepSeparatePairExists (fr_id pizzeria_row) (bu_ID (seen_pizzeria [])) pizzeria_store"
    by (simp add: keepSeparatePairExists_def pizzeria_store_def three_listings_def)
  moreover have "\<not> authoritativeConflict (seen_pizzeria []) pizzeria_row"
    by (simp add: authoritativeConflict_def seen_pizzeria_def branch_def)
  moreover have six: "f64_of_rat (6 / 10) = Fin (5404319552844595 / 9007199254740992)"
    using double_below_one [of "6 / 10" 5404319552844595] by simp
  have "\<not> f64_less identityAddressConfidence identityCandidateConfidence"
    unfolding identityCandidateConfidence_def confidence_defs doubles six by simp
  moreover have "f64_le identityAttachConfidence identityAddressConfidence" unfolding confidence_defs doubles by simp
  ultimately show ?thesis by (simp add: score_entry_def scoreFallbackRow_value pizzeria_tier)
qed

lemma pizzeria_resolved: "ir_businessID (resolveBusinessIdentity flat_env pizzeria_store (seen_pizzeria [])) = ''biz_b''"
proof -
  obtain e where e: "score_entry flat_env pizzeria_store (seen_pizzeria []) pizzeria_row = Some e"
    "sc_row e = pizzeria_row" "sc_attachable e" using pizzeria_score by blast
  have "best_index [e] = Some 0" by (simp add: best_index_def better_def e)
  then have "ir_businessID (scoreFallbackRows flat_env pizzeria_store (seen_pizzeria []) [pizzeria_row]) = fr_id pizzeria_row"
    by (simp add: scoreFallbackRows_def map_filter_simps e Let_def)
  then show ?thesis
    by (simp add: resolveBusinessIdentity_def pizzeria_match pizzeria_rows)
      (simp add: pizzeria_row_def pizzeria_def fallback_row_def plain_listing_def)
qed

lemma attach_needs_evidence_witness:
  "live_row pizzeria_store ''biz_b'' \<and>
   (\<exists>row \<in> set (collectFallbackRows pizzeria_store (seen_pizzeria [])). fr_id row = ''biz_b'' \<and>
      attach_allowed flat_env pizzeria_store (seen_pizzeria []) row)"
proof -
  have "merges_named pizzeria_store" by (simp add: merges_named_def pizzeria_defs)
  then show ?thesis
    using attach_needs_evidence [of pizzeria_store flat_env "seen_pizzeria []" "''biz_b''"] by (simp add: pizzeria_resolved pizzeria_match)
qed

text \<open>
  An exact match does not follow merges. A listing was merged into another one, which is live; its record
  comes back. Without its identifiers the record is attached to the survivor, but with its place id it is
  attached to the hidden listing, which no result shows.
\<close>

theorem exact_match_ignores_merges:
  "merged_into pizzeria_store ''biz_a'' = Some (Some ''biz_b'') \<and>
   ir_businessID (resolveBusinessIdentity flat_env pizzeria_store (seen_pizzeria [])) = ''biz_b'' \<and> live_row pizzeria_store ''biz_b'' \<and>
   ir_businessID (resolveBusinessIdentity flat_env pizzeria_store
     (seen_pizzeria [\<lparr>ik_Kind = IdentityPlaceID, ik_Value = ''P1''\<rparr>])) = ''biz_a'' \<and> \<not> live_row pizzeria_store ''biz_a''"
proof -
  let ?key = "\<lparr>ik_Kind = IdentityPlaceID, ik_Value = ''P1''\<rparr>"
  have "authoritativeIdentityKeys (seen_pizzeria [?key]) = [?key]"
    by (simp add: authoritativeIdentityKeys_def seen_pizzeria_def authoritative_def)
  moreover have "key_owners pizzeria_store ?key = [''biz_a'']"
    by (simp add: key_owners_def pizzeria_store_def SliceStable_def)
  ultimately have "fst (matchAuthoritativeBusinesses pizzeria_store (seen_pizzeria [?key])) = [''biz_a'']"
    by (simp add: matchAuthoritativeBusinesses_def Let_def add_unseen_def)
  then obtain evidence where "matchAuthoritativeBusinesses pizzeria_store (seen_pizzeria [?key]) = ([''biz_a''], evidence)"
    by (metis prod.collapse)
  then show ?thesis
    by (simp add: resolveBusinessIdentity_def [of _ _ "seen_pizzeria [?key]"] pizzeria_resolved)
      (simp add: merged_into_def find_listing_def live_row_def live_listing_def pizzeria_store_def pizzeria_def plain_listing_def)
qed

text \<open>Six merges in a row, each of two listings that were live.\<close>

definition long_chain :: Listings where
  "long_chain = three_listings\<lparr>li_businesses := [pizzeria ''a'' (Some ''b''), pizzeria ''b'' (Some ''c''), pizzeria ''c'' (Some ''d''),
     pizzeria ''d'' (Some ''e''), pizzeria ''e'' (Some ''f''), pizzeria ''f'' (Some ''g''), pizzeria ''g'' None]\<rparr>"

lemma redirect_reaches_survivor_witness:
  "redirectMergedRow long_chain (fallback_row (pizzeria ''b'' (Some ''c''))) = Some (fallback_row (pizzeria ''g'' None)) \<and>
   redirectMergedRow long_chain (fallback_row (pizzeria ''a'' (Some ''b''))) = None"
proof -
  let ?m = "undeleted_into long_chain"
  have stored: "pizzeria ''a'' (Some ''b'') \<in> set (li_businesses long_chain)"
    "pizzeria ''b'' (Some ''c'') \<in> set (li_businesses long_chain)"
    by (simp_all add: long_chain_def)
  have g: "undeleted_row long_chain ''g'' = Some (pizzeria ''g'' None)"
    by (simp add: undeleted_row_def long_chain_def pizzeria_def plain_listing_def)
  have m: "?m ''b'' = Some (Some ''c'')" "?m ''c'' = Some (Some ''d'')" "?m ''d'' = Some (Some ''e'')"
    "?m ''e'' = Some (Some ''f'')" "?m ''f'' = Some (Some ''g'')" "?m ''g'' = Some None"
    by (simp_all add: undeleted_into_def undeleted_row_def long_chain_def pizzeria_def plain_listing_def)
  have "merge_chain ?m ''c'' (Suc (Suc (Suc (Suc 0)))) ''g''"
    by (rule chain_step, rule m, rule chain_step, rule m, rule chain_step, rule m, rule chain_step, rule m,
        rule chain_end, rule m)
  then have c: "merge_chain ?m ''c'' 4 ''g''" by (simp add: eval_nat_numeral)
  have b: "merge_chain ?m ''b'' 5 ''g''" using chain_step [OF m(1) c] by simp
  have "merges_named long_chain"
    by (simp add: merges_named_def long_chain_def pizzeria_def plain_listing_def)
  note redirect = redirect_reaches_survivor [OF this]
  have "redirectMergedRow long_chain (fallback_row (pizzeria ''a'' (Some ''b''))) \<noteq> Some row" for row
    using redirect [OF stored(1)] merge_chain_unique [OF b] by (auto simp: pizzeria_def)
  moreover have "redirectMergedRow long_chain (fallback_row (pizzeria ''b'' (Some ''c''))) = Some (fallback_row (pizzeria ''g'' None))"
    using redirect [OF stored(2)] c g by (force simp: pizzeria_def)
  ultimately show ?thesis by auto
qed

definition keeping_both :: DuplicateDecision where
  "keeping_both = (merge_keeping 1 [])\<lparr>dd_Action := ''keep_both''\<rparr>"

lemma keep_both_is_lasting_witness:
  "\<exists>res L'. ResolveDuplicateCandidate plain_review 2 keeping_both three_listings = Inr (res, L') \<and>
     ir_businessID (scoreFallbackRows flat_env L' ((branch [])\<lparr>bu_ID := ''biz_a''\<rparr>) [pizzeria_row]) \<noteq> ''biz_b''"
proof -
  have word: "TrimSpace ''keep_both'' = ''keep_both''" "ToLower ''keep_both'' = ''keep_both''"
    by (rule TrimSpace_inner, simp add: printable_def, code_simp)
  obtain res L' where run: "ResolveDuplicateCandidate plain_review 2 keeping_both three_listings = Inr (res, L')"
    "rs_State res = ''keep_both''"
    by (simp add: decision_run keeping_both_def word del: ToLower.simps(2-4))
  have "find (\<lambda>c. cd_id c = dd_CandidateID keeping_both) (li_candidates three_listings) = Some (pending_pair 1 ''biz_a'' ''biz_b'')"
    by (simp add: keeping_both_def decision_data)
  from keep_both_is_lasting [OF run this, of L' "(branch [])\<lparr>bu_ID := ''biz_a''\<rparr>" "''biz_b''"]
  have "ir_businessID (scoreFallbackRows flat_env L' ((branch [])\<lparr>bu_ID := ''biz_a''\<rparr>) [pizzeria_row]) \<noteq> ''biz_b''"
    by (simp add: pending_pair_def)
  then show ?thesis using run(1) by blast
qed

end
