(* ===== verification/Spec2Isabelle.thy ===== *)
theory Spec2Isabelle
  imports Control Progress TaskProperties LifecycleProperties ExitMonitor DedupProperties PoolWorkers
    LiveControlsProperties TaskWorkerProperties CoverageProperties ScheduleHistory EntityProperties
begin

text \<open>
  The scrape-job engine of gbp-scraper: the part of the program that owns a job from the moment an
  operator creates it until its outcome is stored, with the scheduler that creates jobs and the resolution
  of the listings they find. All paths are under \<open>src/\<close>.

  \<^bold>\<open>Parts and how they interact.\<close> A job has a durable lifecycle row, a durable plan of tasks and a
  run. The operator's commands (\<open>web/jobruntime/control.go\<close>) are decided against the job's state and
  stored by the lifecycle repository (\<open>web/sqlite/lifecycle.go\<close>). A run leases the tasks of the plan
  (\<open>web/sqlite/task_leases.go\<close>) from a pool of workers (\<open>runner/webrunner/task_pool.go\<close>) whose size
  follows measured capacity (\<open>adaptive_resources.go\<close>, \<open>auto_capacity.go\<close>); each worker executes its
  task, classifies a failure (\<open>failure_kinds.go\<close>) and writes the conclusion back under its lease.
  Exit monitors (\<open>exiter/exiter.go\<close>) decide when a scrape is finished, the deduplicator keeps a
  listing from being visited twice, the live controls change a run while it goes, and the classifier
  (\<open>web/jobruntime/outcome.go\<close>) names the outcome that the repository stores. A crash in between is
  repaired by \<open>RecoverAbandonedJobs\<close> on the next start. The listings a job found are imported into the store:
  entity resolution (\<open>web/sqlite/entity_resolution.go\<close>) decides which stored listing a record belongs to,
  and what it leaves open an operator decides in duplicate review (\<open>duplicate_resolution.go\<close>). A scheduler (\<open>web/schedules.go\<close>) creates jobs from
  templates at the times of their recurrences, follows their outcome and retries failures.

  \<^bold>\<open>Theories.\<close>
  \<^item> \<open>Prelude\<close>, \<open>GoStrings\<close>, \<open>GoFloat\<close>: machine integers, searching and stable sorting; the functions of
    package \<open>strings\<close> on UTF-8 bytes; \<open>float64\<close> as exact rationals with IEEE rounding.
  \<^item> \<open>JobState\<close>, \<open>Outcome\<close>, \<open>Control\<close>, \<open>Progress\<close>: \<open>web/jobruntime/state.go\<close>, \<open>outcome.go\<close>, \<open>control.go\<close>,
    \<open>progress.go\<close>, every function.
  \<^item> \<open>Database\<close>: the rows of \<open>web/sqlite/migrations.go\<close> the engine reads and writes, statements on them.
  \<^item> \<open>TaskPlan\<close>, \<open>TaskLease\<close>, \<open>TaskLaws\<close>, \<open>TaskProperties\<close>: the durable plan (\<open>web/sqlite/checkpoints.go\<close>,
    \<open>task_leases.go\<close>, the writes of \<open>coverage.go\<close>): the table invariant, protection of a live lease,
    recovery from dead workers, the budget of attempts, settled work.
  \<^item> \<open>JobRepository\<close>, \<open>Lifecycle\<close>, \<open>LifecycleLaws\<close>, \<open>LifecycleProperties\<close>: \<open>web/sqlite/lifecycle.go\<close>,
    \<open>sqlite.go\<close>, \<open>web/lifecycle.go\<close>: coherence of the rows of a job in all reachable databases, the
    table as the only way a state moves, controls as a refinement of the decisions.
  \<^item> \<open>ExitMonitor\<close>: \<open>exiter/exiter.go\<close>, \<open>runner/webrunner/task_exiter.go\<close> and the scrape jobs' reports.
  \<^item> \<open>Dedup\<close>, \<open>DedupProperties\<close>: \<open>deduper/hashmap.go\<close>, \<open>durable_deduper.go\<close>, \<open>web/checkpoint_dedup.go\<close>,
    \<open>web/sqlite/listing_keys.go\<close>, with calls of several goroutines interleaved at the lock boundaries.
  \<^item> \<open>Capacity\<close>, \<open>CapacityProperties\<close>, \<open>Adaptive\<close>, \<open>AdaptiveProperties\<close>, \<open>PoolWorkers\<close>: the budgets, the
    worker controller, the adaptation tick and the claim loop.
  \<^item> \<open>FailureKinds\<close>: \<open>runner/webrunner/failure_kinds.go\<close> and the waits after a failure.
  \<^item> \<open>LiveRun\<close>, \<open>LiveProperties\<close>, \<open>LiveControls\<close>, \<open>LiveControlsProperties\<close>: \<open>live_run.go\<close>,
    \<open>web/live_controls.go\<close>, \<open>web/sqlite/live_controls.go\<close>.
  \<^item> \<open>TaskWorker\<close>, \<open>TaskWorkerProperties\<close>: \<open>executeLeasedTask\<close> and everything it decides.
  \<^item> \<open>SearchQueries\<close>: queries over ZIP areas and their reading (\<open>web/prospect/queries.go\<close>,
    \<open>web/coverage.go\<close>). \<open>CoverageReport\<close>: the coverage options, the reads of the plan, the saturation
    window and the report with its confidence cells (\<open>web/coverage.go\<close>, \<open>coverage_confidence.go\<close>).
  \<^item> \<open>CoverageEngine\<close>, \<open>CoverageProperties\<close>: the engine that stops a saturated plan or appends tasks to
    it (\<open>runner/webrunner/coverage.go\<close>, \<open>coverage_rank.go\<close>, \<open>coverage_refine.go\<close>) over whole runs.
  \<^item> \<open>GoTime\<close>: the calendar, time zones and \<open>time.Date\<close> of package \<open>time\<close>. \<open>ScheduleTime\<close>,
    \<open>ScheduleTimeProperties\<close>: recurrences and cron of \<open>web/schedules.go\<close> against what a wall clock shows.
    \<open>Schedules\<close>, \<open>ScheduleProperties\<close>, \<open>ScheduleHistory\<close>: the store of \<open>web/sqlite/schedules.go\<close> and the
    poll pass: due schedules served once, and over any history of the store a bound on retries, one
    report per outcome and well-formed tables.
  \<^item> \<open>Similarity\<close>, \<open>SimilarityProperties\<close>: names in normal form and how alike they are
    (\<open>web/resultimport/normalize.go\<close>, \<open>similarity.go\<close>). \<open>ExactIdentity\<close>, \<open>ExactIdentityProperties\<close>: the identity
    keys and hashes of a record and the grouping of records that share keys (\<open>identity.go\<close>).
  \<^item> \<open>Listings\<close>: the tables of listings. \<open>EntityResolution\<close>, \<open>EntityProperties\<close>: \<open>web/sqlite/entity_resolution.go\<close>
    with the writes of \<open>results.go\<close> it shares; what an attach needs, lasting rulings, merges followed to an
    undeleted survivor.
    \<open>DuplicateReview\<close>, \<open>ReviewProperties\<close>: \<open>web/duplicates.go\<close>, \<open>web/sqlite/duplicate_resolution.go\<close>,
    \<open>duplicate_preferred_values.go\<close>: no decision loses evidence; what any decision,
    also one of a pair that is no longer live, does to the survivors of merges.

  \<^bold>\<open>How the code is read.\<close> A method of a repository is a function of the whole database: a transaction
  is atomic and a failed one leaves the database as it was, which is what SQLite promises and is assumed
  here, not proved; the clock is an argument. A method that
  holds a mutex is one step; where the source releases it between two parts, the parts are two steps.
  Interfaces between parts are locales, interpreted on the model in the theory that provides them.
  Counters the source keeps as \<open>int64\<close> and compares with sums are words; row counts are integers.
  \<open>TaskWorker\<close> takes a list of write faults, used up one by one, so a theorem names the writes that the
  storage may refuse; the loop that retries a write is bounded by the three attempts of the source,
  and no other model uses fuel. Redaction, hashes, the system samples, the browser run and the merge
  of its file are arguments, without laws unless a statement names one; so are the case mappings of
  Unicode, the ZIP dataset, the UUID and JSON functions and the elementary functions of package
  \<open>math\<close> in the coverage theories; in the schedule theories the zone data behind \<open>time.LoadLocation\<close>, the
  JSON codec of a job's data and the parameters and validation of a job; in the theories of listings
  Unicode folding and character classes, SHA-256, the printing of floats and the trigonometry of distances.
  The number of merges a probe follows is the five hops of the source.

  \<^bold>\<open>Not modelled.\<close> The queries over the result store, the upsert, versions and scores of an imported listing
  and its fuzzy candidates, the reading of result files, enrichment and the crawler, exports, the map
  pages, the web pages and the hosted edition; the manifest lists each with the reason. Of the engine itself: progress reporting, browser processes and their
  containment, the scrape seed of an appended task and the export files of a schedule; \<open>TaskWorker\<close> takes the coverage engine's
  writes as an input, \<open>CoverageEngine\<close> models them.
\<close>

end
